(* ===== verification/Prelude.thy ===== *)
theory Prelude
  imports Main "HOL-Library.Product_Lexorder" "HOL-Library.List_Lexorder" "HOL-Library.Char_ord" "HOL-Library.Code_Target_Nat"
begin

text \<open>
  Shared vocabulary of the development: identifiers and instants, the exception classes of the
  services, the shape of a service call (state in; error or value, and state, out), tables of
  rows with the get/put/insert operations a SQLAlchemy session offers, Python's \<open>int(...)\<close> and
  \<open>str(...)\<close> on integers, and the two interfaces (\<open>table\<close>, \<open>lifecycle\<close>) the components are
  proved against.
\<close>

section \<open>Basic types\<close>

type_synonym uuid = nat
type_synonym instant = int
type_synonym tool_identity = "string \<times> int"

text \<open>
  Instants and durations count microseconds, as \<open>datetime\<close> and \<open>timedelta\<close> do.
\<close>

definition seconds :: "int \<Rightarrow> int" where
  "seconds n = n * 1000000"

definition minutes :: "int \<Rightarrow> int" where
  "minutes n = n * 60000000"

definition hours :: "int \<Rightarrow> int" where
  "hours n = n * 3600000000"

definition days :: "int \<Rightarrow> int" where
  "days n = n * 86400000000"

section \<open>Exceptions and service calls\<close>

text \<open>
  One constructor for each exception class that the modelled code raises.
\<close>

datatype (plugins only: code) exn =
    AgentRunNotFoundError
  | ProjectNotFoundError
  | AgentRunRevisionConflictError
  | AgentRunTransitionConflictError
  | IdempotencyConflictError
  | AgentRunCapacityError
  | AgentOwnershipError
  | AgentRevisionConflictError
  | IntegrityError
  | ValueError
  | AssertionError
  | RegistryDefinitionError
  | PlanningPolicyRejectedError
  | PlanningOutputRejectedError
  | AgentRunRegistryVersionError
  | AgentDefinitionUnsupportedError
  | ExecutionPlanInvalidError
  | ExecutionRegistryVersionError
  | ExecutionAgentVersionError
  | NotFoundError
  | InvalidProposalError
  | ReviewConflictError
  | ExpiredApprovalError
  | StaleApprovalError
  | ScheduleCalculationError
  | AutomationNotFoundError
  | AutomationRevisionConflictError
  | AutomationTransitionConflictError
  | AutomationDefinitionError
  | AutomationProjectNotFoundError
  | AutomaticExecutionUnavailableError
  | AutomationOwnershipError
  | SchedulerValidationError
  | ClaimFenceError
  | ExecutionModeUnsupportedError
  | AmbiguousSchedulerOutcomeError
  | AutomaticEligibilityError
  | KeyError
  | TypeError
  | OperationalError
  | DBAPIError string
  | AttributeError
  | PlanningProviderUnavailableError
  | PlanningProviderTimeoutError
  | PlanningProviderRequestError
  | PlanningOutputInvalidError
  | ResearchValidationError
  | CuratorValidationError
  | ChangeValidationError
  | ApplicationEventValidationError
  | UncaughtError
  | ConnectorOwnershipError
  | ConnectorNotFoundError
  | ConnectorRevisionConflictError
  | ConnectorTransitionConflictError
  | ConnectorProjectNotFoundError
  | ConnectorConfigurationConflictError
  | ConnectorDefinitionError
  | SyncNotFoundError
  | SyncConflictError
  | SyncRevisionConflictError
  | SyncCapacityConflictError
  | GitHubTransportError string
  | CredentialStoreError string
  | ScheduleNotFoundError
  | ScheduleConflictError
  | ScheduleRevisionConflictError

text \<open>
  A service call takes the database state and returns the exception it raised or its value,
  together with the state of the session at that point: the caller decides whether to commit
  or roll back, and some callers commit after an exception.
\<close>

type_synonym ('s, 'a) outcome = "(exn + 'a) \<times> 's"

definition andThen :: "('s, 'a) outcome \<Rightarrow> ('a \<Rightarrow> 's \<Rightarrow> ('s, 'b) outcome) \<Rightarrow> ('s, 'b) outcome" where
  "andThen m f = (case m of (Inl e, s) \<Rightarrow> (Inl e, s) | (Inr a, s) \<Rightarrow> f a s)"

lemma andThen_simps [simp]:
  "andThen (Inl e, s) f = (Inl e, s)"
  "andThen (Inr a, s) f = f a s"
  by (simp_all add: andThen_def)

lemma andThen_Inr_iff:
  "andThen m f = (Inr b, s') \<longleftrightarrow> (\<exists>a s. m = (Inr a, s) \<and> f a s = (Inr b, s'))"
  by (auto simp: andThen_def split: prod.splits sum.splits)

lemma andThen_frame:
  "(\<And>a s'. F (snd (k a s')) = F s') \<Longrightarrow> F (snd (andThen m k)) = F (snd m)"
  by (auto simp: andThen_def split: prod.splits sum.splits)

text \<open>
  \<open>commits m s\<close> is the state after a caller that commits a success and rolls an exception back.
\<close>

definition commits :: "('s, 'a) outcome \<Rightarrow> 's \<Rightarrow> 's" where
  "commits m s = (case fst m of Inl _ \<Rightarrow> s | Inr _ \<Rightarrow> snd m)"

lemma commits_simps [simp]:
  "commits (Inl e, t) s = s"
  "commits (Inr a, t) s = t"
  by (simp_all add: commits_def)

text \<open>
  A phase that ends with \<open>session.commit()\<close>: an exception leaves what was committed before.
\<close>

definition committed ::
  "('s, 'b) outcome \<Rightarrow> 's \<Rightarrow> ('b \<Rightarrow> 's \<Rightarrow> ('s, 'c) outcome) \<Rightarrow> ('s, 'c) outcome" where
  "committed m s k = (case m of (Inl e, _) \<Rightarrow> (Inl e, s) | (Inr b, s') \<Rightarrow> k b s')"

named_theorems op_defs "definitions of the small state operations, unfolded by component proofs"

section \<open>Rows of a table\<close>

definition row_get :: "('r \<Rightarrow> nat) \<Rightarrow> 'r list \<Rightarrow> nat \<Rightarrow> 'r option" where
  "row_get key rows i = find (\<lambda>r. key r = i) rows"

definition row_upd :: "('r \<Rightarrow> nat) \<Rightarrow> nat \<Rightarrow> ('r \<Rightarrow> 'r) \<Rightarrow> 'r list \<Rightarrow> 'r list" where
  "row_upd key i f rows = map (\<lambda>x. if key x = i then f x else x) rows"

lemma row_get_Some_iff:
  "row_get key rows i = Some r \<Longrightarrow> key r = i \<and> r \<in> set rows"
  by (auto simp: row_get_def find_Some_iff)

lemma row_get_key: "row_get key rows i = Some r \<Longrightarrow> key r = i"
  by (simp add: row_get_Some_iff)

lemma row_get_in: "row_get key rows i = Some r \<Longrightarrow> r \<in> set rows"
  by (simp add: row_get_Some_iff)

lemma row_get_None_iff: "row_get key rows i = None \<longleftrightarrow> i \<notin> key ` set rows"
  by (auto simp: row_get_def find_None_iff)

lemma row_get_Nil [simp]: "row_get key [] i = None"
  by (simp add: row_get_def)

lemma row_get_Cons:
  "row_get key (r # rows) i = (if key r = i then Some r else row_get key rows i)"
  by (simp add: row_get_def)

lemma row_get_append:
  "row_get key (xs @ ys) i = (case row_get key xs i of Some r \<Rightarrow> Some r | None \<Rightarrow> row_get key ys i)"
  by (induction xs) (auto simp: row_get_Cons split: option.splits)

lemma row_get_upd:
  assumes "\<And>x. key (f x) = key x"
  shows "row_get key (row_upd key i f rows) j =
    (if j = i then map_option f (row_get key rows j) else row_get key rows j)"
  using assms by (induction rows) (auto simp: row_upd_def row_get_Cons)

lemma row_upd_map:
  assumes "\<And>x. g (f x) = g x"
  shows "map g (row_upd key i f rows) = map g rows"
  using assms by (auto simp: row_upd_def)

lemma row_upd_length [simp]: "length (row_upd key i f rows) = length rows"
  by (simp add: row_upd_def)

lemma row_upd_Nil [simp]: "row_upd key i f [] = []"
  by (simp add: row_upd_def)

lemma row_upd_append: "row_upd key i f (xs @ ys) = row_upd key i f xs @ row_upd key i f ys"
  by (simp add: row_upd_def)

lemma row_get_distinct:
  "distinct (map key rows) \<Longrightarrow> r \<in> set rows \<Longrightarrow> row_get key rows (key r) = Some r"
  by (induction rows) (auto simp: row_get_Cons rev_image_eqI)

lemma row_upd_set: "x \<in> set (row_upd key i f rows) \<longleftrightarrow>
    (x \<in> set rows \<and> key x \<noteq> i) \<or> (\<exists>y \<in> set rows. key y = i \<and> x = f y)"
  by (auto simp: row_upd_def image_iff)

lemma row_upd_absent: "i \<notin> key ` set rows \<Longrightarrow> row_upd key i f rows = rows"
  by (induction rows) (auto simp: row_upd_def)

lemma row_upd_filter_length_mono:
  assumes "\<And>x. x \<in> set rows \<Longrightarrow> key x = i \<Longrightarrow> P (f x) \<Longrightarrow> P x"
  shows "length (filter P (row_upd key i f rows)) \<le> length (filter P rows)"
  using assms
proof (induction rows)
  case (Cons r rows)
  have "length (filter P (row_upd key i f rows)) \<le> length (filter P rows)"
    by (rule Cons.IH) (rule Cons.prems, simp_all)
  then show ?case using Cons.prems [of r] by (auto simp: row_upd_def)
qed simp

lemma row_upd_filter_length_le:
  assumes "\<And>x. P (f x) \<Longrightarrow> P x"
  shows "length (filter P (row_upd key i f rows)) \<le> length (filter P rows)"
  by (rule row_upd_filter_length_mono) (rule assms)

lemma row_upd_filter_length_eq:
  assumes "\<And>x. P (f x) = P x"
  shows "length (filter P (row_upd key i f rows)) = length (filter P rows)"
  using assms by (induction rows) (auto simp: row_upd_def)

lemma row_upd_all:
  assumes "\<And>x. x \<in> set rows \<Longrightarrow> P x" and "\<And>x. x \<in> set rows \<Longrightarrow> key x = i \<Longrightarrow> P x \<Longrightarrow> P (f x)"
    and "y \<in> set (row_upd key i f rows)"
  shows "P y"
  using assms by (auto simp: row_upd_set)

text \<open>Updating, in a loop, every row of a list that meets a condition.\<close>

lemma fold_row_upd:
  assumes keep: "\<And>x. key (d x) = key x" and idem: "\<And>x. d (d x) = d x"
  shows "fold (\<lambda>y. if P y then row_upd key (key y) d else id) ys rows =
    map (\<lambda>x. if \<exists>y \<in> set ys. P y \<and> key y = key x then d x else x) rows"
proof (induction ys arbitrary: rows)
  case Nil
  then show ?case by simp
next
  case (Cons y ys)
  show ?case
    unfolding fold_Cons comp_def Cons.IH
    using keep idem by (auto simp: row_upd_def)
qed

text \<open>
  The interface a service relies on: reading a row by its primary key, assigning attributes of
  the row with a given key (the change is visible to every later read of the session) and
  inserting a new row (\<open>session.add\<close>).
\<close>

locale table =
  fixes get :: "'s \<Rightarrow> nat \<Rightarrow> 'r option"
    and upd :: "nat \<Rightarrow> ('r \<Rightarrow> 'r) \<Rightarrow> 's \<Rightarrow> 's"
    and add :: "'r \<Rightarrow> 's \<Rightarrow> 's"
    and key :: "'r \<Rightarrow> nat"
  assumes get_key: "get s i = Some r \<Longrightarrow> key r = i"
    and get_upd: "(\<And>x. key (f x) = key x) \<Longrightarrow>
      get (upd i f s) j = (if j = i then map_option f (get s j) else get s j)"
    and get_add: "get (add r s) j =
      (case get s j of Some x \<Rightarrow> Some x | None \<Rightarrow> if j = key r then Some r else None)"
begin

lemma get_upd_same:
  "(\<And>x. key (f x) = key x) \<Longrightarrow> get s i = Some r \<Longrightarrow> get (upd i f s) i = Some (f r)"
  by (simp add: get_upd)

lemma get_upd_other: "(\<And>x. key (f x) = key x) \<Longrightarrow> j \<noteq> i \<Longrightarrow> get (upd i f s) j = get s j"
  by (simp add: get_upd)

lemma get_upd_present:
  "(\<And>x. key (f x) = key x) \<Longrightarrow> get (upd i f s) j = None \<longleftrightarrow> get s j = None"
  by (simp add: get_upd)

lemma get_add_fresh: "get s (key r) = None \<Longrightarrow> get (add r s) (key r) = Some r"
  by (simp add: get_add)

lemma get_add_kept: "get s i = Some x \<Longrightarrow> get (add r s) i = Some x"
  by (simp add: get_add)

lemma upd_twice:
  assumes "\<And>x. key (f x) = key x" and "\<And>x. key (g x) = key x"
  shows "get (upd i g (upd i f s)) j = get (upd i (g \<circ> f) s) j"
  using assms by (simp add: get_upd option.map_comp)

end

section \<open>Lifecycles with absorbing terminal states\<close>

text \<open>
  Every durable entity of the program moves through a closed set of states, some of which are
  terminal. The contract is that no legal step leaves a terminal state; what follows is that
  no run of legal steps does.
\<close>

locale lifecycle =
  fixes legal :: "'st \<Rightarrow> 'st \<Rightarrow> bool"
    and terminal :: "'st \<Rightarrow> bool"
  assumes terminal_stuck: "terminal a \<Longrightarrow> \<not> legal a b"
begin

lemma terminal_absorbing:
  assumes "legal\<^sup>*\<^sup>* a b" and "terminal a"
  shows "b = a"
  using assms by (induction rule: rtranclp_induct) (auto dest: terminal_stuck)

lemma live_before: "legal a b \<Longrightarrow> \<not> terminal a"
  using terminal_stuck by blast

end

section \<open>Integers as text\<close>

text \<open>
  \<open>str(n)\<close> and \<open>int(text)\<close> of Python: decimal digits, an optional sign, single underscores
  between digits, surrounding whitespace ignored; anything else is a ValueError (\<open>None\<close>).
\<close>

fun str_nat :: "nat \<Rightarrow> string" where
  "str_nat n = (if n < 10 then [char_of (48 + n)]
     else str_nat (n div 10) @ [char_of (48 + n mod 10)])"

declare str_nat.simps [simp del]

definition str_int :: "int \<Rightarrow> string" where
  "str_int n = (if n < 0 then CHR ''-'' # str_nat (nat (- n)) else str_nat (nat n))"

definition is_digit :: "char \<Rightarrow> bool" where
  "is_digit c \<longleftrightarrow> 48 \<le> (of_char c :: nat) \<and> (of_char c :: nat) \<le> 57"

definition is_space :: "char \<Rightarrow> bool" where
  "is_space c \<longleftrightarrow> (let n = (of_char c :: nat)
     in 9 \<le> n \<and> n \<le> 13 \<or> 28 \<le> n \<and> n \<le> 32 \<or> n = 133 \<or> n = 160)"

definition py_strip :: "string \<Rightarrow> string" where
  "py_strip t = rev (dropWhile is_space (rev (dropWhile is_space t)))"

fun digit_run :: "nat \<Rightarrow> bool \<Rightarrow> string \<Rightarrow> nat option" where
  "digit_run acc prev [] = (if prev then Some acc else None)"
| "digit_run acc prev (c # cs) =
     (if is_digit c then digit_run (10 * acc + (of_char c - 48)) True cs
      else if c = CHR ''_'' \<and> prev then digit_run acc False cs
      else None)"

definition py_int :: "string \<Rightarrow> int option" where
  "py_int text = (case py_strip text of
       [] \<Rightarrow> None
     | c # cs \<Rightarrow>
         if c = CHR ''-'' then map_option (\<lambda>n. - int n) (digit_run 0 False cs)
         else if c = CHR ''+'' then map_option int (digit_run 0 False cs)
         else map_option int (digit_run 0 False (c # cs)))"

lemma is_digit_char_of: "(n::nat) < 10 \<Longrightarrow> is_digit (char_of (48 + n))"
  by (simp add: is_digit_def)

lemma str_nat_digits: "list_all is_digit (str_nat n)"
proof (induction n rule: str_nat.induct)
  case (1 n)
  then show ?case
    by (subst str_nat.simps) (auto simp: is_digit_char_of)
qed

lemma str_nat_nonempty: "str_nat n \<noteq> []"
  by (subst str_nat.simps) simp

lemma digit_run_append:
  "list_all is_digit xs \<Longrightarrow> xs \<noteq> [] \<Longrightarrow>
     digit_run acc prev (xs @ ys) =
       digit_run (foldl (\<lambda>a c. 10 * a + (of_char c - 48)) acc xs) True ys"
  by (induction xs arbitrary: acc prev) (auto, case_tac "xs = []", auto)

lemma str_nat_value: "foldl (\<lambda>a c. 10 * a + (of_char c - 48)) 0 (str_nat n) = n"
proof (induction n rule: str_nat.induct)
  case (1 n)
  show ?case
  proof (cases "n < 10")
    case True
    then show ?thesis by (subst str_nat.simps) simp
  next
    case False
    then show ?thesis using 1 by (subst str_nat.simps) simp
  qed
qed

lemma digit_run_str_nat: "digit_run 0 False (str_nat n) = Some n"
  using digit_run_append [OF str_nat_digits [of n] str_nat_nonempty [of n], where acc = 0 and prev = False and ys = "[]"]
  by (simp add: str_nat_value)

lemma digit_not_space: "is_digit c \<Longrightarrow> \<not> is_space c"
  by (auto simp: is_digit_def is_space_def Let_def)

lemma py_strip_id:
  assumes "t \<noteq> []" and "\<not> is_space (hd t)" and "\<not> is_space (last t)"
  shows "py_strip t = t"
proof -
  have "dropWhile is_space t = t" using assms by (cases t) auto
  moreover have "dropWhile is_space (rev t) = rev t"
    using assms by (cases t rule: rev_cases) auto
  ultimately show ?thesis by (simp add: py_strip_def)
qed

lemma str_nat_hd_last:
  "is_digit (hd (str_nat n))" "is_digit (last (str_nat n))"
  using str_nat_digits [of n] str_nat_nonempty [of n]
  by (auto simp: list_all_iff)

lemma py_int_str_int [simp]: "py_int (str_int n) = Some n"
proof -
  have strip: "py_strip (str_int n) = str_int n"
    using str_nat_hd_last [of "nat (- n)"] str_nat_hd_last [of "nat n"] str_nat_nonempty
    by (intro py_strip_id) (auto simp: str_int_def is_space_def Let_def dest: digit_not_space)
  show ?thesis
  proof (cases "n < 0")
    case True
    then show ?thesis using strip
      by (simp add: py_int_def str_int_def digit_run_str_nat)
  next
    case False
    obtain c cs where cs: "str_nat (nat n) = c # cs"
      using str_nat_nonempty by (cases "str_nat (nat n)") auto
    then have "is_digit c" using str_nat_hd_last(1) [of "nat n"] by simp
    then have "c \<noteq> CHR ''-''" "c \<noteq> CHR ''+''" by (auto simp: is_digit_def)
    then show ?thesis using strip False digit_run_str_nat [of "nat n"] cs
      by (simp add: py_int_def str_int_def)
  qed
qed

lemma str_int_inj: "str_int a = str_int b \<longleftrightarrow> a = b"
  by (metis py_int_str_int option.inject)

section \<open>List lemmas\<close>

lemma take_filter_length: "length (take n (filter P xs)) \<le> n"
  by simp

lemma sort_key_set_in: "x \<in> set (take n (sort_key f xs)) \<Longrightarrow> x \<in> set xs"
  by (metis in_set_takeD set_sort)

lemma find_append:
  "find P (xs @ ys) = (case find P xs of Some x \<Rightarrow> Some x | None \<Rightarrow> find P ys)"
  by (induction xs) auto

end
