(* ===== verification/Tool_Registry.thy ===== *)
theory Tool_Registry
  imports Prelude
begin

text \<open>
  The code-owned registry of Agent tools (\<open>app/agent_tools/registry.py\<close>): closed enumerations,
  the definition record, the validation every definition must pass, the immutable registry with
  its exact lookup and its ordered inventory, and the seven definitions of the program.
  The schema classes (\<open>app/agent_tools/schemas.py\<close>) are represented by their name and the two
  configuration values the registry checks.
\<close>

definition REGISTRY_VERSION :: string where
  "REGISTRY_VERSION = ''agent-tools-v1''"

definition MAX_TIMEOUT_SECONDS :: int where
  "MAX_TIMEOUT_SECONDS = 15"

definition MAX_CALLS_PER_RUN :: int where
  "MAX_CALLS_PER_RUN = 5"

definition MAX_OUTPUT_BYTES :: int where
  "MAX_OUTPUT_BYTES = 65536"

datatype authority = READ

datatype scope_mode = EXACT_RUN_SCOPE | OPERATOR_AGGREGATE

datatype provider_mode = PROVIDER_NONE | PROVIDER_CONDITIONAL

datatype network_mode = NETWORK_NONE | CONFIGURED_PROVIDER_ONLY

datatype idempotency_class = PURE_READ

record schema_type =
  schema_name :: string
  schema_extra :: string
  schema_strict :: bool

record tool_definition =
  td_name :: string
  td_version :: int
  td_description :: string
  td_input_schema :: schema_type
  td_output_schema :: schema_type
  td_authority :: authority
  td_approval_required :: bool
  td_timeout_seconds :: int
  td_calls_per_run :: int
  td_scope_mode :: scope_mode
  td_provider_mode :: provider_mode
  td_network_mode :: network_mode
  td_redaction_policy :: string
  td_max_output_bytes :: int
  td_idempotency :: idempotency_class

definition td_identity :: "tool_definition \<Rightarrow> tool_identity" where
  "td_identity d = (td_name d, td_version d)"

text \<open>
  \<open>_NAME_PATTERN\<close>: a lower-case letter, then lower-case letters and digits, in groups joined by
  a single dot or underscore.
\<close>

definition is_lower :: "char \<Rightarrow> bool" where
  "is_lower c \<longleftrightarrow> 97 \<le> (of_char c :: nat) \<and> (of_char c :: nat) \<le> 122"

fun name_tail :: "bool \<Rightarrow> string \<Rightarrow> bool" where
  "name_tail alnum [] = alnum"
| "name_tail alnum (c # cs) =
     (if is_lower c \<or> is_digit c then name_tail True cs
      else if (c = CHR ''.'' \<or> c = CHR ''_'') \<and> alnum then name_tail False cs
      else False)"

fun name_matches :: "string \<Rightarrow> bool" where
  "name_matches [] = False"
| "name_matches (c # cs) = (is_lower c \<and> name_tail True cs)"

definition schema_closed :: "schema_type \<Rightarrow> bool" where
  "schema_closed s \<longleftrightarrow> schema_extra s = ''forbid'' \<and> schema_strict s"

text \<open>\<open>ToolRegistry._validate\<close>: the checks in the order of the code.\<close>

definition validate_tool :: "tool_definition \<Rightarrow> exn + unit" where
  "validate_tool d =
    (if \<not> name_matches (td_name d) \<or> td_version d < 1 then Inl RegistryDefinitionError
     else if \<not> (1 \<le> length (td_description d) \<and> length (td_description d) \<le> 500)
       then Inl RegistryDefinitionError
     else if \<not> schema_closed (td_input_schema d) \<or> \<not> schema_closed (td_output_schema d)
       then Inl RegistryDefinitionError
     else if td_authority d \<noteq> READ \<or> td_approval_required d then Inl RegistryDefinitionError
     else if td_idempotency d \<noteq> PURE_READ then Inl RegistryDefinitionError
     else if \<not> (1 \<le> td_timeout_seconds d \<and> td_timeout_seconds d \<le> MAX_TIMEOUT_SECONDS)
       then Inl RegistryDefinitionError
     else if \<not> (1 \<le> td_calls_per_run d \<and> td_calls_per_run d \<le> MAX_CALLS_PER_RUN)
       then Inl RegistryDefinitionError
     else if \<not> (1 \<le> td_max_output_bytes d \<and> td_max_output_bytes d \<le> MAX_OUTPUT_BYTES)
       then Inl RegistryDefinitionError
     else if td_redaction_policy d \<noteq> ''safe_allowlist'' then Inl RegistryDefinitionError
     else if td_provider_mode d = PROVIDER_NONE \<and> td_network_mode d \<noteq> NETWORK_NONE
       then Inl RegistryDefinitionError
     else Inr ())"

text \<open>
  The registry: the dictionary of definitions in insertion order and the sorted inventory.
  \<open>register_all\<close> is the loop of \<open>__init__\<close> over the given definitions.
\<close>

record tool_registry =
  reg_definitions :: "(tool_identity \<times> tool_definition) list"
  reg_inventory :: "tool_definition list"

fun register_all ::
  "(tool_identity \<times> tool_definition) list \<Rightarrow> tool_definition list
     \<Rightarrow> exn + (tool_identity \<times> tool_definition) list" where
  "register_all validated [] = Inr validated"
| "register_all validated (d # ds) =
     (case validate_tool d of
        Inl e \<Rightarrow> Inl e
      | Inr _ \<Rightarrow>
          if map_of validated (td_identity d) \<noteq> None then Inl RegistryDefinitionError
          else register_all (validated @ [(td_identity d, d)]) ds)"

definition make_registry :: "tool_definition list \<Rightarrow> exn + tool_registry" where
  "make_registry ds = (case register_all [] ds of
       Inl e \<Rightarrow> Inl e
     | Inr validated \<Rightarrow> Inr \<lparr> reg_definitions = validated,
         reg_inventory = sort_key td_identity (map snd validated) \<rparr>)"

definition get_exact :: "tool_registry \<Rightarrow> string \<Rightarrow> int \<Rightarrow> tool_definition option" where
  "get_exact reg name version =
    (if \<not> name_matches name then None
     else if version < 1 then None
     else map_of (reg_definitions reg) (name, version))"

definition strict_schema :: "string \<Rightarrow> schema_type" where
  "strict_schema name = \<lparr> schema_name = name, schema_extra = ''forbid'', schema_strict = True \<rparr>"

definition tool_def ::
  "string \<Rightarrow> string \<Rightarrow> string \<Rightarrow> scope_mode \<Rightarrow> provider_mode \<Rightarrow> network_mode \<Rightarrow> tool_definition" where
  "tool_def name input_schema output_schema scope provider network =
    \<lparr> td_name = name, td_version = 1,
      td_description = ''Bounded read-only metadata contract for '' @ name @ ''.'',
      td_input_schema = strict_schema input_schema,
      td_output_schema = strict_schema output_schema,
      td_authority = READ, td_approval_required = False,
      td_timeout_seconds = 10, td_calls_per_run = 5,
      td_scope_mode = scope, td_provider_mode = provider, td_network_mode = network,
      td_redaction_policy = ''safe_allowlist'', td_max_output_bytes = 65536,
      td_idempotency = PURE_READ \<rparr>"

definition agent_tool_definitions :: "tool_definition list" where
  "agent_tool_definitions =
    [tool_def ''project.get'' ''ProjectGetInput'' ''ProjectGetOutput''
       EXACT_RUN_SCOPE PROVIDER_NONE NETWORK_NONE,
     tool_def ''memory.get'' ''MemoryGetInput'' ''MemoryGetOutput''
       EXACT_RUN_SCOPE PROVIDER_NONE NETWORK_NONE,
     tool_def ''memory.search_explained'' ''MemorySearchExplainedInput''
       ''MemorySearchExplainedOutput''
       EXACT_RUN_SCOPE PROVIDER_CONDITIONAL CONFIGURED_PROVIDER_ONLY,
     tool_def ''source.get'' ''SourceGetInput'' ''SourceGetOutput''
       EXACT_RUN_SCOPE PROVIDER_NONE NETWORK_NONE,
     tool_def ''source_chunk.get'' ''SourceChunkGetInput'' ''SourceChunkGetOutput''
       EXACT_RUN_SCOPE PROVIDER_NONE NETWORK_NONE,
     tool_def ''operations.diagnostics'' ''EmptyInput'' ''AggregateOutput''
       OPERATOR_AGGREGATE PROVIDER_NONE NETWORK_NONE,
     tool_def ''maintenance.audit'' ''EmptyInput'' ''AggregateOutput''
       OPERATOR_AGGREGATE PROVIDER_NONE NETWORK_NONE]"

definition agent_tool_registry :: tool_registry where
  "agent_tool_registry = (case make_registry agent_tool_definitions of
       Inr reg \<Rightarrow> reg
     | Inl _ \<Rightarrow> \<lparr> reg_definitions = [], reg_inventory = [] \<rparr>)"

section \<open>Agent and automation catalogs\<close>

text \<open>
  \<open>app/research/catalog.py\<close>, \<open>app/curator/catalog.py\<close> and the identity tests of
  \<open>app/automations/catalog.py\<close>: which exact (kind, version) pairs are installed and which tools
  each may use.
\<close>

definition RESEARCH_TOOLS :: "tool_identity list" where
  "RESEARCH_TOOLS = [(''project.get'', 1), (''memory.get'', 1), (''memory.search_explained'', 1),
     (''source.get'', 1), (''source_chunk.get'', 1)]"

definition CURATOR_TOOLS :: "tool_identity list" where
  "CURATOR_TOOLS = [(''memory.get'', 1), (''memory.search_explained'', 1)]"

definition is_research :: "string \<Rightarrow> string \<Rightarrow> bool" where
  "is_research kind version \<longleftrightarrow> (kind, version) = (''research'', ''1'')"

definition is_unknown_research :: "string \<Rightarrow> string \<Rightarrow> bool" where
  "is_unknown_research kind version \<longleftrightarrow> kind = ''research'' \<and> \<not> is_research kind version"

definition is_curator :: "string \<Rightarrow> string \<Rightarrow> bool" where
  "is_curator kind version \<longleftrightarrow> (kind, version) = (''memory_curator'', ''1'')"

definition is_unknown_curator :: "string \<Rightarrow> string \<Rightarrow> bool" where
  "is_unknown_curator kind version \<longleftrightarrow> kind = ''memory_curator'' \<and> \<not> is_curator kind version"

definition RESERVED_AUTOMATION_AGENT_KINDS :: "string list" where
  "RESERVED_AUTOMATION_AGENT_KINDS = [''daily_brief'', ''project_watch'']"

definition IMPLEMENTED_AUTOMATION_AGENT_IDENTITIES :: "(string \<times> string) list" where
  "IMPLEMENTED_AUTOMATION_AGENT_IDENTITIES = [(''daily_brief'', ''1''), (''project_watch'', ''1'')]"

definition is_reserved_automation_agent_kind :: "string \<Rightarrow> bool" where
  "is_reserved_automation_agent_kind kind \<longleftrightarrow> kind \<in> set RESERVED_AUTOMATION_AGENT_KINDS"

definition is_reserved_automation_agent_identity :: "string \<Rightarrow> string \<Rightarrow> bool" where
  "is_reserved_automation_agent_identity kind version \<longleftrightarrow>
     is_reserved_automation_agent_kind kind \<and>
     (kind, version) \<notin> set IMPLEMENTED_AUTOMATION_AGENT_IDENTITIES"

record schedulable_agent =
  sa_kind :: string
  sa_version :: string
  sa_project_required :: bool

record automatic_agent_definition =
  aad_kind :: string
  aad_version :: string
  aad_authority :: string
  aad_registry_version :: string
  aad_allowed_tools :: "tool_identity list"
  aad_planning_contract :: string
  aad_synthesis_contract :: string
  aad_evidence_rules :: string
  aad_scope_rules :: string
  aad_max_evidence :: int
  aad_max_claims :: int
  aad_max_citations :: int
  aad_code_owned :: bool

definition DAILY_BRIEF_TOOLS :: "tool_identity list" where
  "DAILY_BRIEF_TOOLS = [(''project.get'', 1), (''memory.get'', 1), (''memory.search_explained'', 1),
     (''source.get'', 1), (''source_chunk.get'', 1)]"

definition DAILY_BRIEF_DEFINITION :: automatic_agent_definition where
  "DAILY_BRIEF_DEFINITION =
    \<lparr> aad_kind = ''daily_brief'', aad_version = ''1'', aad_authority = ''read'',
      aad_registry_version = ''agent-tools-v1'', aad_allowed_tools = DAILY_BRIEF_TOOLS,
      aad_planning_contract = ''daily-brief-planning-v1'',
      aad_synthesis_contract = ''daily-brief-claims-v1'',
      aad_evidence_rules = ''reviewed-local-exact-run-step-invocation-versioned'',
      aad_scope_rules = ''exact-project-or-explicitly-unassigned'',
      aad_max_evidence = 20, aad_max_claims = 5, aad_max_citations = 20, aad_code_owned = True \<rparr>"

definition PROJECT_WATCH_DEFINITION :: automatic_agent_definition where
  "PROJECT_WATCH_DEFINITION =
    \<lparr> aad_kind = ''project_watch'', aad_version = ''1'', aad_authority = ''read'',
      aad_registry_version = ''agent-tools-v1'', aad_allowed_tools = DAILY_BRIEF_TOOLS,
      aad_planning_contract = ''project-watch-planning-v1'',
      aad_synthesis_contract = ''project-watch-changes-v1'',
      aad_evidence_rules = ''reviewed-local-change-window-exact-versioned'',
      aad_scope_rules = ''exact-non-null-project'',
      aad_max_evidence = 20, aad_max_claims = 5, aad_max_citations = 20, aad_code_owned = True \<rparr>"

definition get_schedulable_agent :: "string \<Rightarrow> string \<Rightarrow> schedulable_agent option" where
  "get_schedulable_agent kind version = map_of
    [((''daily_brief'', ''1''),
       \<lparr> sa_kind = ''daily_brief'', sa_version = ''1'', sa_project_required = False \<rparr>),
     ((''project_watch'', ''1''),
       \<lparr> sa_kind = ''project_watch'', sa_version = ''1'', sa_project_required = True \<rparr>)]
    (kind, version)"

definition get_automatic_agent_definition ::
  "string \<Rightarrow> string \<Rightarrow> automatic_agent_definition option" where
  "get_automatic_agent_definition kind version =
    (if (kind, version) \<notin> set IMPLEMENTED_AUTOMATION_AGENT_IDENTITIES then None
     else map_of [((''daily_brief'', ''1''), DAILY_BRIEF_DEFINITION),
                  ((''project_watch'', ''1''), PROJECT_WATCH_DEFINITION)] (kind, version))"

section \<open>Lemmas\<close>

lemma register_all_sound:
  "register_all acc ds = Inr reg \<Longrightarrow>
     (\<forall>p \<in> set reg. p \<in> set acc \<or> (\<exists>d \<in> set ds. p = (td_identity d, d) \<and> validate_tool d = Inr ()))"
proof (induction ds arbitrary: acc)
  case Nil
  then show ?case by simp
next
  case (Cons d ds)
  then have v: "validate_tool d = Inr ()"
    and r: "register_all (acc @ [(td_identity d, d)]) ds = Inr reg"
    by (auto split: sum.splits if_splits)
  show ?case using Cons.IH [OF r] v by auto
qed

lemma register_all_distinct:
  "register_all acc ds = Inr reg \<Longrightarrow> distinct (map fst acc) \<Longrightarrow> distinct (map fst reg)"
proof (induction ds arbitrary: acc)
  case Nil
  then show ?case by simp
next
  case (Cons d ds)
  then have new: "map_of acc (td_identity d) = None"
    and r: "register_all (acc @ [(td_identity d, d)]) ds = Inr reg"
    by (auto simp: map_of_eq_None_iff split: sum.splits if_splits)
  have "distinct (map fst (acc @ [(td_identity d, d)]))"
    using Cons.prems(2) new by (auto simp: map_of_eq_None_iff)
  with r show ?case by (rule Cons.IH)
qed

lemma make_registry_sound:
  assumes "make_registry ds = Inr reg"
  shows "distinct (map fst (reg_definitions reg))"
    and "p \<in> set (reg_definitions reg) \<Longrightarrow>
      snd p \<in> set ds \<and> fst p = td_identity (snd p) \<and> validate_tool (snd p) = Inr ()"
    and "reg_inventory reg = sort_key td_identity (map snd (reg_definitions reg))"
proof -
  from assms obtain val where val: "register_all [] ds = Inr val"
    and reg: "reg = \<lparr> reg_definitions = val, reg_inventory = sort_key td_identity (map snd val) \<rparr>"
    by (auto simp: make_registry_def split: sum.splits)
  show "distinct (map fst (reg_definitions reg))"
    using register_all_distinct [OF val] reg by simp
  show "p \<in> set (reg_definitions reg) \<Longrightarrow>
      snd p \<in> set ds \<and> fst p = td_identity (snd p) \<and> validate_tool (snd p) = Inr ()"
    using register_all_sound [OF val] reg by fastforce
  show "reg_inventory reg = sort_key td_identity (map snd (reg_definitions reg))"
    using reg by simp
qed

lemma get_exact_validated:
  assumes "make_registry ds = Inr reg" and "get_exact reg name version = Some d"
  shows "validate_tool d = Inr () \<and> td_identity d = (name, version) \<and> d \<in> set ds"
proof -
  from assms(2) have "((name, version), d) \<in> set (reg_definitions reg)"
    by (auto simp: get_exact_def split: if_splits dest: map_of_SomeD)
  from make_registry_sound(2) [OF assms(1) this] show ?thesis by simp
qed

lemma validate_tool_OK_iff:
  "validate_tool d = Inr () \<longleftrightarrow>
     name_matches (td_name d) \<and> 1 \<le> td_version d \<and>
     1 \<le> length (td_description d) \<and> length (td_description d) \<le> 500 \<and>
     schema_closed (td_input_schema d) \<and> schema_closed (td_output_schema d) \<and>
     td_authority d = READ \<and> \<not> td_approval_required d \<and> td_idempotency d = PURE_READ \<and>
     1 \<le> td_timeout_seconds d \<and> td_timeout_seconds d \<le> MAX_TIMEOUT_SECONDS \<and>
     1 \<le> td_calls_per_run d \<and> td_calls_per_run d \<le> MAX_CALLS_PER_RUN \<and>
     1 \<le> td_max_output_bytes d \<and> td_max_output_bytes d \<le> MAX_OUTPUT_BYTES \<and>
     td_redaction_policy d = ''safe_allowlist'' \<and>
     (td_provider_mode d = PROVIDER_NONE \<longrightarrow> td_network_mode d = NETWORK_NONE)"
  unfolding validate_tool_def by auto

lemma tool_def_simps [simp]:
  "td_name (tool_def n i out sc pr nw) = n"
  "td_version (tool_def n i out sc pr nw) = 1"
  "td_identity (tool_def n i out sc pr nw) = (n, 1)"
  "td_scope_mode (tool_def n i out sc pr nw) = sc"
  "td_provider_mode (tool_def n i out sc pr nw) = pr"
  "td_network_mode (tool_def n i out sc pr nw) = nw"
  "td_calls_per_run (tool_def n i out sc pr nw) = 5"
  "td_timeout_seconds (tool_def n i out sc pr nw) = 10"
  "td_max_output_bytes (tool_def n i out sc pr nw) = 65536"
  "td_idempotency (tool_def n i out sc pr nw) = PURE_READ"
  "td_input_schema (tool_def n i out sc pr nw) = strict_schema i"
  by (simp_all add: tool_def_def td_identity_def)

lemma agent_registry_defs:
  "reg_definitions agent_tool_registry = map (\<lambda>d. (td_identity d, d)) agent_tool_definitions"
  "make_registry agent_tool_definitions = Inr agent_tool_registry"
proof -
  have "register_all [] agent_tool_definitions =
      Inr (map (\<lambda>d. (td_identity d, d)) agent_tool_definitions)"
    by code_simp
  then show "reg_definitions agent_tool_registry = map (\<lambda>d. (td_identity d, d)) agent_tool_definitions"
    "make_registry agent_tool_definitions = Inr agent_tool_registry"
    by (simp_all add: agent_tool_registry_def make_registry_def)
qed

lemma agent_get_exact_known:
  "get_exact agent_tool_registry name version = Some d \<Longrightarrow>
     d \<in> set agent_tool_definitions \<and> td_identity d = (name, version) \<and> validate_tool d = Inr ()"
  using get_exact_validated [OF agent_registry_defs(2)] by blast

end
