(* ===== verification/Json_Canonical.thy ===== *)
theory Json_Canonical
  imports Prelude
begin

text \<open>
  JSON values and their canonical text, as \<open>json.dumps(value, sort_keys=True,
  separators=(",", ":"), ensure_ascii=True)\<close> writes it: the text every request fingerprint,
  proposal identity and target version of the program is hashed from. Text is a list of
  characters with code points below 256; a floating-point number is carried as its \<open>repr\<close>.
\<close>

datatype json =
    JNull
  | JBool bool
  | JInt int
  | JFloat string
  | JStr string
  | JArr "json list"
  | JObj "(string \<times> json) list"

definition hex_digit :: "nat \<Rightarrow> char" where
  "hex_digit n = (if n < 10 then char_of (48 + n) else char_of (87 + n))"

text \<open>\<open>str(uuid)\<close>: 32 hexadecimal digits in groups of 8, 4, 4, 4 and 12.\<close>

fun hex_text :: "nat \<Rightarrow> nat \<Rightarrow> string" where
  "hex_text 0 n = []"
| "hex_text (Suc k) n = hex_text k (n div 16) @ [hex_digit (n mod 16)]"

definition uuid_text :: "uuid \<Rightarrow> string" where
  "uuid_text n = (let h = hex_text 32 n in
     take 8 h @ ''-'' @ take 4 (drop 8 h) @ ''-'' @ take 4 (drop 12 h) @ ''-'' @
     take 4 (drop 16 h) @ ''-'' @ drop 20 h)"

text \<open>
  The two-character escapes, \<open>\\u00xx\<close> for the other control characters and for every
  non-ASCII character, and the character itself otherwise.
\<close>

definition BACKSLASH :: char where
  "BACKSLASH = char_of (92::nat)"

definition QUOTE :: char where
  "QUOTE = char_of (34::nat)"

definition escape_char :: "char \<Rightarrow> string" where
  "escape_char c = (let n = of_char c :: nat in
     if c = QUOTE then [BACKSLASH, QUOTE]
     else if c = BACKSLASH then [BACKSLASH, BACKSLASH]
     else if n = 10 then [BACKSLASH, CHR ''n'']
     else if n = 13 then [BACKSLASH, CHR ''r'']
     else if n = 9 then [BACKSLASH, CHR ''t'']
     else if n = 8 then [BACKSLASH, CHR ''b'']
     else if n = 12 then [BACKSLASH, CHR ''f'']
     else if n < 32 \<or> 126 < n
       then [BACKSLASH, CHR ''u'', CHR ''0'', CHR ''0'', hex_digit (n div 16), hex_digit (n mod 16)]
     else [c])"

definition quoted :: "string \<Rightarrow> string" where
  "quoted t = QUOTE # concat (map escape_char t) @ [QUOTE]"

definition commas :: "string list \<Rightarrow> string" where
  "commas ts = (case ts of [] \<Rightarrow> [] | t # rest \<Rightarrow> t @ concat (map (\<lambda>u. CHR '','' # u) rest))"

fun dumps :: "json \<Rightarrow> string" where
  "dumps JNull = ''null''"
| "dumps (JBool b) = (if b then ''true'' else ''false'')"
| "dumps (JInt n) = str_int n"
| "dumps (JFloat r) = r"
| "dumps (JStr t) = quoted t"
| "dumps (JArr xs) = ''['' @ commas (map dumps xs) @ '']''"
| "dumps (JObj kvs) =
     ''{'' @ commas (map (\<lambda>kv. quoted (fst kv) @ '':'' @ snd kv)
       (sort_key fst (map (\<lambda>kv. (fst kv, dumps (snd kv))) kvs))) @ ''}''"

text \<open>\<open>json.dumps(..., ensure_ascii=False, sort_keys=True, separators=(",", ":"))\<close>.\<close>

definition raw_escape :: "char \<Rightarrow> string" where
  "raw_escape c = (if 126 < (of_char c :: nat) then [c] else escape_char c)"

definition raw_quoted :: "string \<Rightarrow> string" where
  "raw_quoted t = QUOTE # concat (map raw_escape t) @ [QUOTE]"

fun raw_dumps :: "json \<Rightarrow> string" where
  "raw_dumps JNull = ''null''"
| "raw_dumps (JBool b) = (if b then ''true'' else ''false'')"
| "raw_dumps (JInt n) = str_int n"
| "raw_dumps (JFloat r) = r"
| "raw_dumps (JStr t) = raw_quoted t"
| "raw_dumps (JArr xs) = ''['' @ commas (map raw_dumps xs) @ '']''"
| "raw_dumps (JObj kvs) =
     ''{'' @ commas (map (\<lambda>kv. raw_quoted (fst kv) @ '':'' @ snd kv)
       (sort_key fst (map (\<lambda>kv. (fst kv, raw_dumps (snd kv))) kvs))) @ ''}''"

definition jopt :: "('a \<Rightarrow> json) \<Rightarrow> 'a option \<Rightarrow> json" where
  "jopt f x = (case x of None \<Rightarrow> JNull | Some a \<Rightarrow> f a)"

end
