(* ===== verification/Tool_Policy.thy ===== *)
theory Tool_Policy
  imports Tool_Registry Json_Canonical
begin

text \<open>
  Fail-closed resolution of one Tool call (\<open>app/agent_tools/policy.py\<close>). The validated inputs
  are the schema instances of \<open>app/agent_tools/schemas.py\<close>; the schema validator itself (pydantic)
  is the parameter \<open>validate\<close>: schema and candidate in, instance or rejection out.
\<close>

datatype tool_input =
    ProjectGetInput uuid
  | MemoryGetInput uuid
  | SourceGetInput uuid
  | SourceChunkGetInput uuid
  | MemorySearchExplainedInput (search_query: string) (search_mode: string)
      (search_filters: json) (search_limit: int) (search_offset: int)
  | EmptyInput

text \<open>\<open>validated.model_dump(mode="json", exclude_none=False)\<close>\<close>

fun tool_input_json :: "tool_input \<Rightarrow> json" where
  "tool_input_json (ProjectGetInput i) = JObj [(''project_id'', JStr (uuid_text i))]"
| "tool_input_json (MemoryGetInput i) = JObj [(''memory_id'', JStr (uuid_text i))]"
| "tool_input_json (SourceGetInput i) = JObj [(''source_id'', JStr (uuid_text i))]"
| "tool_input_json (SourceChunkGetInput i) = JObj [(''source_chunk_id'', JStr (uuid_text i))]"
| "tool_input_json (MemorySearchExplainedInput q m f l off) =
     JObj [(''query'', JStr q), (''mode'', JStr m), (''filters'', f),
       (''pagination'', JObj [(''limit'', JInt l), (''offset'', JInt off)])]"
| "tool_input_json EmptyInput = JObj []"

text \<open>\<open>getattr(validated, "project_id", None)\<close> and \<open>getattr(validated, "mode", None)\<close>\<close>

fun input_project_id :: "tool_input \<Rightarrow> uuid option" where
  "input_project_id (ProjectGetInput i) = Some i"
| "input_project_id _ = None"

fun input_mode :: "tool_input \<Rightarrow> string option" where
  "input_mode (MemorySearchExplainedInput q m f l off) = Some m"
| "input_mode _ = None"

type_synonym 'c validator = "schema_type \<Rightarrow> 'c \<Rightarrow> tool_input option"

datatype policy_rejection =
    REGISTRY_VERSION_MISMATCH
  | UNKNOWN_TOOL
  | INVALID_TOOL_VERSION
  | INVALID_INPUT
  | AUTHORITY_DENIED
  | SCOPE_DENIED
  | OPERATOR_CAPABILITY_DENIED
  | PROVIDER_UNAVAILABLE
  | NETWORK_DENIED
  | TOTAL_BUDGET_EXHAUSTED
  | TOOL_BUDGET_EXHAUSTED
  | INVALID_REGISTRY_DEFINITION

fun rejection_code :: "policy_rejection \<Rightarrow> string" where
  "rejection_code REGISTRY_VERSION_MISMATCH = ''registry_version_mismatch''"
| "rejection_code UNKNOWN_TOOL = ''unknown_tool''"
| "rejection_code INVALID_TOOL_VERSION = ''invalid_tool_version''"
| "rejection_code INVALID_INPUT = ''invalid_input''"
| "rejection_code AUTHORITY_DENIED = ''authority_denied''"
| "rejection_code SCOPE_DENIED = ''scope_denied''"
| "rejection_code OPERATOR_CAPABILITY_DENIED = ''operator_capability_denied''"
| "rejection_code PROVIDER_UNAVAILABLE = ''provider_unavailable''"
| "rejection_code NETWORK_DENIED = ''network_denied''"
| "rejection_code TOTAL_BUDGET_EXHAUSTED = ''total_budget_exhausted''"
| "rejection_code TOOL_BUDGET_EXHAUSTED = ''tool_budget_exhausted''"
| "rejection_code INVALID_REGISTRY_DEFINITION = ''invalid_registry_definition''"

record resolved_tool_policy =
  rp_name :: string
  rp_version :: int
  rp_authority :: string
  rp_input :: tool_input
  rp_normalized_input :: json
  rp_run_project_scope :: "uuid option"
  rp_scope_mode :: scope_mode
  rp_provider_mode :: provider_mode
  rp_network_mode :: network_mode
  rp_timeout_seconds :: int
  rp_max_output_bytes :: int
  rp_remaining_run_calls :: int
  rp_remaining_tool_calls :: int

text \<open>
  What the caller captured of the Run (registry version, scope, budget), the calls already
  reserved, and the two capabilities, all fixed at the time of the call.
\<close>

record policy_context =
  pc_registry_version :: string
  pc_project_scope :: "uuid option"
  pc_tool_call_budget :: int
  pc_total_calls_reserved :: int
  pc_tool_calls_reserved :: int
  pc_provider_available :: bool
  pc_operator_allowed :: bool

definition effective_modes ::
  "tool_definition \<Rightarrow> tool_input \<Rightarrow> provider_mode \<times> network_mode" where
  "effective_modes d v =
    (if td_name d = ''memory.search_explained'' \<and> input_mode v = Some ''lexical''
     then (PROVIDER_NONE, NETWORK_NONE)
     else (td_provider_mode d, td_network_mode d))"

definition resolve_tool_policy ::
  "tool_registry \<Rightarrow> 'c validator \<Rightarrow> string \<Rightarrow> int \<Rightarrow> string \<Rightarrow> 'c \<Rightarrow> policy_context
     \<Rightarrow> policy_rejection + resolved_tool_policy" where
  "resolve_tool_policy registry validate name version requested_authority candidate pc =
    (if pc_registry_version pc \<noteq> REGISTRY_VERSION then Inl REGISTRY_VERSION_MISMATCH
     else if version < 1 then Inl INVALID_TOOL_VERSION
     else case get_exact registry name version of
       None \<Rightarrow> Inl UNKNOWN_TOOL
     | Some d \<Rightarrow>
        if requested_authority \<noteq> ''read'' then Inl AUTHORITY_DENIED
        else case validate (td_input_schema d) candidate of
          None \<Rightarrow> Inl INVALID_INPUT
        | Some v \<Rightarrow>
           if td_name d = ''project.get'' \<and>
              (pc_project_scope pc = None \<or> input_project_id v \<noteq> pc_project_scope pc)
             then Inl SCOPE_DENIED
           else if td_scope_mode d = OPERATOR_AGGREGATE \<and> \<not> pc_operator_allowed pc
             then Inl OPERATOR_CAPABILITY_DENIED
           else let (pm, nm) = effective_modes d v in
             if pm = PROVIDER_CONDITIONAL \<and> \<not> pc_provider_available pc then Inl PROVIDER_UNAVAILABLE
             else if nm \<notin> {NETWORK_NONE, CONFIGURED_PROVIDER_ONLY} then Inl NETWORK_DENIED
             else if pc_tool_call_budget pc < 0 \<or> pc_total_calls_reserved pc < 0
               then Inl TOTAL_BUDGET_EXHAUSTED
             else if pc_total_calls_reserved pc \<ge> pc_tool_call_budget pc
               then Inl TOTAL_BUDGET_EXHAUSTED
             else if pc_tool_calls_reserved pc < 0 \<or> pc_tool_calls_reserved pc \<ge> td_calls_per_run d
               then Inl TOOL_BUDGET_EXHAUSTED
             else if td_timeout_seconds d > MAX_TIMEOUT_SECONDS \<or>
                     td_max_output_bytes d > MAX_OUTPUT_BYTES
               then Inl INVALID_REGISTRY_DEFINITION
             else Inr \<lparr> rp_name = td_name d, rp_version = td_version d, rp_authority = ''read'',
               rp_input = v, rp_normalized_input = tool_input_json v,
               rp_run_project_scope = pc_project_scope pc, rp_scope_mode = td_scope_mode d,
               rp_provider_mode = pm, rp_network_mode = nm,
               rp_timeout_seconds = td_timeout_seconds d,
               rp_max_output_bytes = td_max_output_bytes d,
               rp_remaining_run_calls = pc_tool_call_budget pc - pc_total_calls_reserved pc - 1,
               rp_remaining_tool_calls = td_calls_per_run d - pc_tool_calls_reserved pc - 1 \<rparr>)"

section \<open>What a resolution grants\<close>

lemma resolve_Inr_iff:
  "resolve_tool_policy reg val name version auth cand pc = Inr rp \<longleftrightarrow>
     pc_registry_version pc = REGISTRY_VERSION \<and> 1 \<le> version \<and> auth = ''read'' \<and>
     (\<exists>d v. get_exact reg name version = Some d \<and> val (td_input_schema d) cand = Some v \<and>
        (td_name d = ''project.get'' \<longrightarrow>
           pc_project_scope pc \<noteq> None \<and> input_project_id v = pc_project_scope pc) \<and>
        (td_scope_mode d = OPERATOR_AGGREGATE \<longrightarrow> pc_operator_allowed pc) \<and>
        (fst (effective_modes d v) = PROVIDER_CONDITIONAL \<longrightarrow> pc_provider_available pc) \<and>
        0 \<le> pc_total_calls_reserved pc \<and> pc_total_calls_reserved pc < pc_tool_call_budget pc \<and>
        0 \<le> pc_tool_calls_reserved pc \<and> pc_tool_calls_reserved pc < td_calls_per_run d \<and>
        td_timeout_seconds d \<le> MAX_TIMEOUT_SECONDS \<and> td_max_output_bytes d \<le> MAX_OUTPUT_BYTES \<and>
        rp = \<lparr> rp_name = td_name d, rp_version = td_version d, rp_authority = ''read'',
               rp_input = v, rp_normalized_input = tool_input_json v,
               rp_run_project_scope = pc_project_scope pc, rp_scope_mode = td_scope_mode d,
               rp_provider_mode = fst (effective_modes d v),
               rp_network_mode = snd (effective_modes d v),
               rp_timeout_seconds = td_timeout_seconds d,
               rp_max_output_bytes = td_max_output_bytes d,
               rp_remaining_run_calls = pc_tool_call_budget pc - pc_total_calls_reserved pc - 1,
               rp_remaining_tool_calls = td_calls_per_run d - pc_tool_calls_reserved pc - 1 \<rparr>)"
proof -
  have nm: "nm = NETWORK_NONE \<or> nm = CONFIGURED_PROVIDER_ONLY" for nm
    by (cases nm) auto
  show ?thesis
    unfolding resolve_tool_policy_def
    by (cases "get_exact reg name version")
      (auto simp: nm Let_def split: option.splits prod.splits if_splits)
qed

lemma resolve_identity:
  assumes "resolve_tool_policy reg val name version auth cand pc = Inr rp"
    and "make_registry ds = Inr reg"
  shows "(rp_name rp, rp_version rp) = (name, version)"
proof -
  from assms(1) obtain d where d: "get_exact reg name version = Some d"
    and "rp_name rp = td_name d" "rp_version rp = td_version d"
    by (auto simp: resolve_Inr_iff)
  with get_exact_validated [OF assms(2) d] show ?thesis
    by (simp add: td_identity_def)
qed

end
