(* ===== verification/Run_Model.thy ===== *)
theory Run_Model
  imports Tool_Policy
begin

text \<open>
  The durable data of the Agent runtime (\<open>app/models/agent_runtime.py\<close>,
  \<open>app/schemas/agent_run.py\<close>): rows as records, closed state columns as datatypes, the CHECK and
  UNIQUE constraints as predicates; and the persistence primitives of
  \<open>app/repositories/agent_runtime.py\<close> over one session state. Row locks (\<open>FOR UPDATE\<close>, advisory
  locks) have no effect on a single session and are left out. JSON size limits, which depend on
  PostgreSQL's rendering, and column widths are not modelled.
\<close>

section \<open>Rows\<close>

datatype run_state =
    CREATED | PLANNING | READY | RUNNING | AWAITING_APPROVAL
  | COMPLETED | FAILED | CANCELLED | EXPIRED

fun state_value :: "run_state \<Rightarrow> string" where
  "state_value CREATED = ''created''"
| "state_value PLANNING = ''planning''"
| "state_value READY = ''ready''"
| "state_value RUNNING = ''running''"
| "state_value AWAITING_APPROVAL = ''awaiting_approval''"
| "state_value COMPLETED = ''completed''"
| "state_value FAILED = ''failed''"
| "state_value CANCELLED = ''cancelled''"
| "state_value EXPIRED = ''expired''"

record agent_run =
  r_id :: uuid
  r_project_id :: "uuid option"
  r_agent_kind :: string
  r_agent_version :: string
  r_goal_summary :: string
  r_registry_version :: string
  r_policy_version :: string
  r_state :: run_state
  r_step_budget :: int
  r_tool_call_budget :: int
  r_retry_budget :: int
  r_planning_deadline :: instant
  r_run_deadline :: instant
  r_revision :: int
  r_correlation_id :: uuid
  r_idempotency_key_hash :: string
  r_fingerprint :: string
  r_safe_error_code :: "string option"
  r_created_at :: instant
  r_updated_at :: instant
  r_started_at :: "instant option"
  r_finished_at :: "instant option"

datatype step_status =
    STEP_PENDING | STEP_RUNNING | STEP_SUCCEEDED | STEP_FAILED | STEP_SKIPPED | STEP_CANCELLED

record agent_step =
  st_id :: uuid
  st_run_id :: uuid
  st_ordinal :: int
  st_purpose :: string
  st_tool_name :: "string option"
  st_tool_version :: "string option"
  st_normalized_input :: json
  st_expected_evidence :: "string list"
  st_success_condition :: string
  st_stop_condition :: string
  st_status :: step_status
  st_created_at :: instant
  st_started_at :: "instant option"
  st_finished_at :: "instant option"

datatype invocation_status =
    INV_RESERVED | INV_RUNNING | INV_SUCCEEDED | INV_FAILED | INV_TIMED_OUT | INV_CANCELLED
  | INV_DISCARDED

fun invocation_status_value :: "invocation_status \<Rightarrow> string" where
  "invocation_status_value INV_RESERVED = ''reserved''"
| "invocation_status_value INV_RUNNING = ''running''"
| "invocation_status_value INV_SUCCEEDED = ''succeeded''"
| "invocation_status_value INV_FAILED = ''failed''"
| "invocation_status_value INV_TIMED_OUT = ''timed_out''"
| "invocation_status_value INV_CANCELLED = ''cancelled''"
| "invocation_status_value INV_DISCARDED = ''discarded''"

record tool_invocation =
  iv_id :: uuid
  iv_run_id :: uuid
  iv_step_id :: uuid
  iv_attempt :: int
  iv_tool_name :: string
  iv_tool_version :: string
  iv_authority :: string
  iv_validated_input_hash :: string
  iv_validated_input :: json
  iv_idempotency_key_hash :: string
  iv_status :: invocation_status
  iv_safe_result_summary :: "string option"
  iv_evidence_references :: "json list"
  iv_safe_error_code :: "string option"
  iv_reserved_at :: instant
  iv_started_at :: "instant option"
  iv_finished_at :: "instant option"

datatype approval_status =
    APPROVAL_PENDING | APPROVAL_APPROVED | APPROVAL_REJECTED | APPROVAL_EXPIRED
  | APPROVAL_SUPERSEDED

fun approval_status_value :: "approval_status \<Rightarrow> string" where
  "approval_status_value APPROVAL_PENDING = ''pending''"
| "approval_status_value APPROVAL_APPROVED = ''approved''"
| "approval_status_value APPROVAL_REJECTED = ''rejected''"
| "approval_status_value APPROVAL_EXPIRED = ''expired''"
| "approval_status_value APPROVAL_SUPERSEDED = ''superseded''"

record approval_request =
  ap_id :: uuid
  ap_run_id :: uuid
  ap_step_id :: uuid
  ap_action_type :: string
  ap_target_type :: string
  ap_target_public_id :: uuid
  ap_target_version :: string
  ap_normalized_input :: json
  ap_proposal_hash :: string
  ap_preview :: string
  ap_evidence_references :: "json list"
  ap_risk_classification :: string
  ap_status :: approval_status
  ap_created_at :: instant
  ap_expires_at :: instant
  ap_reviewed_at :: "instant option"
  ap_reviewer_metadata :: "json option"
  ap_execution_identity :: uuid

record agent_event =
  ev_id :: uuid
  ev_run_id :: uuid
  ev_step_id :: "uuid option"
  ev_invocation_id :: "uuid option"
  ev_approval_id :: "uuid option"
  ev_sequence :: int
  ev_type :: string
  ev_safe_code :: string
  ev_safe_message :: string
  ev_metadata :: json
  ev_correlation_id :: uuid
  ev_occurred_at :: instant
  ev_idempotency_hash :: "string option"

section \<open>Column constraints\<close>

definition is_hash :: "string \<Rightarrow> bool" where
  "is_hash t \<longleftrightarrow> length t = 64 \<and>
     list_all (\<lambda>c. is_digit c \<or> (97 \<le> (of_char c :: nat) \<and> (of_char c :: nat) \<le> 102)) t"

definition TERMINAL_STATES :: "run_state list" where
  "TERMINAL_STATES = [COMPLETED, FAILED, CANCELLED, EXPIRED]"

text \<open>CHECK constraints of \<open>agent_runs\<close>.\<close>

definition run_checks :: "agent_run \<Rightarrow> bool" where
  "run_checks r \<longleftrightarrow>
     0 \<le> r_revision r \<and>
     0 \<le> r_step_budget r \<and> 0 \<le> r_tool_call_budget r \<and> 0 \<le> r_retry_budget r \<and>
     r_planning_deadline r \<le> r_run_deadline r \<and>
     (case r_started_at r of None \<Rightarrow> True | Some t \<Rightarrow> r_created_at r \<le> t) \<and>
     (case r_finished_at r of None \<Rightarrow> True
      | Some t \<Rightarrow> (case r_started_at r of None \<Rightarrow> False | Some u \<Rightarrow> u \<le> t)) \<and>
     (r_state r \<in> set TERMINAL_STATES) = (r_finished_at r \<noteq> None) \<and>
     is_hash (r_idempotency_key_hash r) \<and> is_hash (r_fingerprint r)"

text \<open>CHECK constraints of \<open>agent_steps\<close>.\<close>

definition step_checks :: "agent_step \<Rightarrow> bool" where
  "step_checks st \<longleftrightarrow>
     0 \<le> st_ordinal st \<and>
     (st_tool_name st = None) = (st_tool_version st = None) \<and>
     (case st_started_at st of None \<Rightarrow> True | Some t \<Rightarrow> st_created_at st \<le> t) \<and>
     (case st_finished_at st of None \<Rightarrow> True
      | Some t \<Rightarrow> (case st_started_at st of None \<Rightarrow> False | Some u \<Rightarrow> u \<le> t))"

text \<open>CHECK constraints of \<open>tool_invocations\<close>.\<close>

definition invocation_checks :: "tool_invocation \<Rightarrow> bool" where
  "invocation_checks iv \<longleftrightarrow>
     0 \<le> iv_attempt iv \<and>
     iv_authority iv \<in> {''read'', ''propose'', ''execute''} \<and>
     is_hash (iv_validated_input_hash iv) \<and> is_hash (iv_idempotency_key_hash iv) \<and>
     (case iv_started_at iv of None \<Rightarrow> True | Some t \<Rightarrow> iv_reserved_at iv \<le> t) \<and>
     (case iv_finished_at iv of None \<Rightarrow> True
      | Some t \<Rightarrow> (case iv_started_at iv of None \<Rightarrow> False | Some u \<Rightarrow> u \<le> t))"

text \<open>CHECK constraints of \<open>approval_requests\<close>.\<close>

definition approval_checks :: "approval_request \<Rightarrow> bool" where
  "approval_checks ap \<longleftrightarrow>
     is_hash (ap_proposal_hash ap) \<and> ap_created_at ap < ap_expires_at ap \<and>
     (case ap_reviewed_at ap of None \<Rightarrow> True | Some t \<Rightarrow> ap_created_at ap \<le> t)"

section \<open>Session state\<close>

text \<open>
  The rows of the tables the runtime touches, and the supply \<open>uuid4()\<close> draws fresh identifiers
  from (collisions of random identifiers are not modelled). The record is open: the scheduler
  extends it with its own tables.
\<close>

record memory_row =
  m_id :: uuid
  m_project_id :: "uuid option"
  m_content :: string
  m_source :: "string option"
  m_title :: "string option"
  m_summary :: "string option"
  m_memory_type :: string
  m_importance :: json
  m_confidence :: json
  m_status :: string
  m_event_time :: "string option"
  m_expires_at :: "string option"
  m_supersedes_id :: "uuid option"
  m_updated_at :: string

record agent_db =
  db_next_id :: uuid
  db_projects :: "uuid list"
  db_memories :: "memory_row list"
  db_runs :: "agent_run list"
  db_steps :: "agent_step list"
  db_invocations :: "tool_invocation list"
  db_approvals :: "approval_request list"
  db_events :: "agent_event list"

definition uuid4 :: "'a agent_db_scheme \<Rightarrow> uuid \<times> 'a agent_db_scheme" where
  "uuid4 s = (db_next_id s, s\<lparr>db_next_id := Suc (db_next_id s)\<rparr>)"

section \<open>Reading and writing rows\<close>

definition get_project :: "'a agent_db_scheme \<Rightarrow> uuid \<Rightarrow> uuid option" where
  "get_project s i = find (\<lambda>p. p = i) (db_projects s)"

definition lock_memory :: "'a agent_db_scheme \<Rightarrow> uuid \<Rightarrow> memory_row option" where
  "lock_memory s i = row_get m_id (db_memories s) i"

definition get_agent_run :: "'a agent_db_scheme \<Rightarrow> uuid \<Rightarrow> agent_run option" where
  "get_agent_run s i = row_get r_id (db_runs s) i"

definition upd_agent_run ::
  "uuid \<Rightarrow> (agent_run \<Rightarrow> agent_run) \<Rightarrow> 'a agent_db_scheme \<Rightarrow> 'a agent_db_scheme" where
  "upd_agent_run i f s = s\<lparr>db_runs := row_upd r_id i f (db_runs s)\<rparr>"

definition add_agent_run :: "agent_run \<Rightarrow> 'a agent_db_scheme \<Rightarrow> 'a agent_db_scheme" where
  "add_agent_run r s = s\<lparr>db_runs := db_runs s @ [r]\<rparr>"

definition get_step :: "'a agent_db_scheme \<Rightarrow> uuid \<Rightarrow> agent_step option" where
  "get_step s i = row_get st_id (db_steps s) i"

definition upd_step ::
  "uuid \<Rightarrow> (agent_step \<Rightarrow> agent_step) \<Rightarrow> 'a agent_db_scheme \<Rightarrow> 'a agent_db_scheme" where
  "upd_step i f s = s\<lparr>db_steps := row_upd st_id i f (db_steps s)\<rparr>"

definition add_step :: "agent_step \<Rightarrow> 'a agent_db_scheme \<Rightarrow> 'a agent_db_scheme" where
  "add_step x s = s\<lparr>db_steps := db_steps s @ [x]\<rparr>"

definition get_invocation :: "'a agent_db_scheme \<Rightarrow> uuid \<Rightarrow> tool_invocation option" where
  "get_invocation s i = row_get iv_id (db_invocations s) i"

definition upd_invocation ::
  "uuid \<Rightarrow> (tool_invocation \<Rightarrow> tool_invocation) \<Rightarrow> 'a agent_db_scheme \<Rightarrow> 'a agent_db_scheme" where
  "upd_invocation i f s = s\<lparr>db_invocations := row_upd iv_id i f (db_invocations s)\<rparr>"

definition add_invocation :: "tool_invocation \<Rightarrow> 'a agent_db_scheme \<Rightarrow> 'a agent_db_scheme" where
  "add_invocation x s = s\<lparr>db_invocations := db_invocations s @ [x]\<rparr>"

definition get_approval :: "'a agent_db_scheme \<Rightarrow> uuid \<Rightarrow> approval_request option" where
  "get_approval s i = row_get ap_id (db_approvals s) i"

definition upd_approval ::
  "uuid \<Rightarrow> (approval_request \<Rightarrow> approval_request) \<Rightarrow> 'a agent_db_scheme \<Rightarrow> 'a agent_db_scheme" where
  "upd_approval i f s = s\<lparr>db_approvals := row_upd ap_id i f (db_approvals s)\<rparr>"

definition add_approval :: "approval_request \<Rightarrow> 'a agent_db_scheme \<Rightarrow> 'a agent_db_scheme" where
  "add_approval x s = s\<lparr>db_approvals := db_approvals s @ [x]\<rparr>"

lemmas run_table_defs = get_agent_run_def upd_agent_run_def add_agent_run_def
lemmas step_table_defs = get_step_def upd_step_def add_step_def
lemmas invocation_table_defs = get_invocation_def upd_invocation_def add_invocation_def
lemmas approval_table_defs = get_approval_def upd_approval_def add_approval_def

interpretation runs: table get_agent_run upd_agent_run add_agent_run r_id
  by unfold_locales (auto simp: run_table_defs row_get_key row_get_upd row_get_append row_get_Cons
    split: option.splits)

interpretation steps: table get_step upd_step add_step st_id
  by unfold_locales (auto simp: step_table_defs row_get_key row_get_upd row_get_append row_get_Cons
    split: option.splits)

interpretation invocations: table get_invocation upd_invocation add_invocation iv_id
  by unfold_locales (auto simp: invocation_table_defs row_get_key row_get_upd row_get_append
    row_get_Cons split: option.splits)

interpretation approvals: table get_approval upd_approval add_approval ap_id
  by unfold_locales (auto simp: approval_table_defs row_get_key row_get_upd row_get_append
    row_get_Cons split: option.splits)

section \<open>Queries\<close>

definition get_run_by_hash :: "'a agent_db_scheme \<Rightarrow> string \<Rightarrow> agent_run option" where
  "get_run_by_hash s h = find (\<lambda>r. r_idempotency_key_hash r = h) (db_runs s)"

definition count_runs_in_states :: "'a agent_db_scheme \<Rightarrow> run_state list \<Rightarrow> nat" where
  "count_runs_in_states s states = length (filter (\<lambda>r. r_state r \<in> set states) (db_runs s))"

definition list_agent_runs ::
  "'a agent_db_scheme \<Rightarrow> uuid option \<Rightarrow> bool \<Rightarrow> run_state option \<Rightarrow> nat \<Rightarrow> nat \<Rightarrow> agent_run list" where
  "list_agent_runs s project unassigned state limit offset =
     take limit (drop offset (rev (sort_key (\<lambda>r. (r_created_at r, r_id r))
       (filter (\<lambda>r.
          (case project of Some p \<Rightarrow> r_project_id r = Some p
           | None \<Rightarrow> \<not> unassigned \<or> r_project_id r = None) \<and>
          (case state of None \<Rightarrow> True | Some v \<Rightarrow> r_state r = v)) (db_runs s)))))"

definition get_run_in_scope ::
  "'a agent_db_scheme \<Rightarrow> uuid \<Rightarrow> uuid option \<Rightarrow> agent_run option" where
  "get_run_in_scope s i project = find (\<lambda>r. r_id r = i \<and> r_project_id r = project) (db_runs s)"

definition list_nonterminal_runs :: "'a agent_db_scheme \<Rightarrow> nat \<Rightarrow> agent_run list" where
  "list_nonterminal_runs s limit =
     take limit (sort_key (\<lambda>r. (r_created_at r, r_id r))
       (filter (\<lambda>r. r_state r \<in> {CREATED, PLANNING, READY, RUNNING}) (db_runs s)))"

text \<open>\<open>list_agent_steps_for_update\<close>, and its bounded variant with the ownership test\<close>

definition run_steps :: "'a agent_db_scheme \<Rightarrow> uuid \<Rightarrow> agent_step list" where
  "run_steps s rid = sort_key (\<lambda>st. (st_ordinal st, st_id st))
     (filter (\<lambda>st. st_run_id st = rid) (db_steps s))"

definition list_agent_steps :: "'a agent_db_scheme \<Rightarrow> uuid \<Rightarrow> nat \<Rightarrow> exn + agent_step list" where
  "list_agent_steps s rid limit =
     (if get_agent_run s rid = None then Inl AgentOwnershipError
      else Inr (take limit (run_steps s rid)))"

definition get_run_step :: "'a agent_db_scheme \<Rightarrow> uuid \<Rightarrow> uuid \<Rightarrow> agent_step option" where
  "get_run_step s rid sid = find (\<lambda>st. st_id st = sid \<and> st_run_id st = rid) (db_steps s)"

definition get_step_by_ordinal :: "'a agent_db_scheme \<Rightarrow> uuid \<Rightarrow> int \<Rightarrow> agent_step option" where
  "get_step_by_ordinal s rid k = find (\<lambda>st. st_run_id st = rid \<and> st_ordinal st = k) (db_steps s)"

definition count_agent_steps :: "'a agent_db_scheme \<Rightarrow> uuid \<Rightarrow> nat" where
  "count_agent_steps s rid = length (filter (\<lambda>st. st_run_id st = rid) (db_steps s))"

text \<open>
  \<open>list_step_invocations\<close> joins each invocation with its step and orders by the step's ordinal.
\<close>

definition invocation_ordinal :: "'a agent_db_scheme \<Rightarrow> tool_invocation \<Rightarrow> int" where
  "invocation_ordinal s iv = (case get_step s (iv_step_id iv) of None \<Rightarrow> 0 | Some st \<Rightarrow> st_ordinal st)"

definition step_invocations :: "'a agent_db_scheme \<Rightarrow> uuid \<Rightarrow> tool_invocation list" where
  "step_invocations s rid = sort_key (\<lambda>iv. (invocation_ordinal s iv, iv_attempt iv))
     (filter (\<lambda>iv. iv_run_id iv = rid \<and> get_step s (iv_step_id iv) \<noteq> None) (db_invocations s))"

definition get_run_invocation ::
  "'a agent_db_scheme \<Rightarrow> uuid \<Rightarrow> uuid \<Rightarrow> tool_invocation option" where
  "get_run_invocation s rid i =
     find (\<lambda>iv. iv_id iv = i \<and> iv_run_id iv = rid) (db_invocations s)"

definition count_invocations :: "'a agent_db_scheme \<Rightarrow> uuid \<Rightarrow> string option \<Rightarrow> nat" where
  "count_invocations s rid tool = length (filter
     (\<lambda>iv. iv_run_id iv = rid \<and> (case tool of None \<Rightarrow> True | Some n \<Rightarrow> iv_tool_name iv = n))
     (db_invocations s))"

definition list_step_evidence :: "'a agent_db_scheme \<Rightarrow> uuid \<Rightarrow> uuid \<Rightarrow> json list" where
  "list_step_evidence s rid sid = concat (map iv_evidence_references
     (sort_key (\<lambda>iv. (iv_attempt iv, iv_id iv))
       (filter (\<lambda>iv. iv_run_id iv = rid \<and> iv_step_id iv = sid \<and> iv_status iv = INV_SUCCEEDED)
         (db_invocations s))))"

definition get_exact_approval ::
  "'a agent_db_scheme \<Rightarrow> uuid \<Rightarrow> uuid \<Rightarrow> string \<Rightarrow> string \<Rightarrow> uuid \<Rightarrow> string \<Rightarrow> string
     \<Rightarrow> approval_request option" where
  "get_exact_approval s rid sid action ttype target version phash =
     find (\<lambda>ap. ap_run_id ap = rid \<and> ap_step_id ap = sid \<and> ap_action_type ap = action \<and>
       ap_target_type ap = ttype \<and> ap_target_public_id ap = target \<and>
       ap_target_version ap = version \<and> ap_proposal_hash ap = phash) (db_approvals s)"

definition list_approval_requests ::
  "'a agent_db_scheme \<Rightarrow> uuid \<Rightarrow> nat \<Rightarrow> nat \<Rightarrow> approval_request list" where
  "list_approval_requests s rid limit offset =
     take limit (drop offset (sort_key (\<lambda>ap. (ap_created_at ap, ap_id ap))
       (filter (\<lambda>ap. ap_run_id ap = rid) (db_approvals s))))"

definition run_events :: "'a agent_db_scheme \<Rightarrow> uuid \<Rightarrow> agent_event list" where
  "run_events s rid = filter (\<lambda>e. ev_run_id e = rid) (db_events s)"

definition list_agent_events :: "'a agent_db_scheme \<Rightarrow> uuid \<Rightarrow> nat \<Rightarrow> exn + agent_event list" where
  "list_agent_events s rid limit =
     (if get_agent_run s rid = None then Inl AgentOwnershipError
      else Inr (take limit (sort_key (\<lambda>e. (ev_sequence e, ev_id e)) (run_events s rid))))"

section \<open>Inserts\<close>

text \<open>
  \<open>create_agent_run\<close>, \<open>insert_agent_step\<close>, \<open>reserve_tool_invocation\<close> and
  \<open>insert_approval_request\<close>: the ownership test, then the flush, which raises IntegrityError
  when a UNIQUE constraint of the table is violated.
\<close>

definition create_agent_run ::
  "agent_run \<Rightarrow> 'a agent_db_scheme \<Rightarrow> ('a agent_db_scheme, agent_run) outcome" where
  "create_agent_run r s =
     (if get_run_by_hash s (r_idempotency_key_hash r) \<noteq> None then (Inl IntegrityError, s)
      else let (i, s1) = uuid4 s; r' = r\<lparr>r_id := i\<rparr> in (Inr r', add_agent_run r' s1))"

definition insert_agent_step ::
  "agent_step \<Rightarrow> 'a agent_db_scheme \<Rightarrow> ('a agent_db_scheme, agent_step) outcome" where
  "insert_agent_step st s =
     (if get_agent_run s (st_run_id st) = None then (Inl AgentOwnershipError, s)
      else if get_step_by_ordinal s (st_run_id st) (st_ordinal st) \<noteq> None
        then (Inl IntegrityError, s)
      else let (i, s1) = uuid4 s; st' = st\<lparr>st_id := i\<rparr> in (Inr st', add_step st' s1))"

definition reserve_tool_invocation ::
  "tool_invocation \<Rightarrow> 'a agent_db_scheme \<Rightarrow> ('a agent_db_scheme, tool_invocation) outcome" where
  "reserve_tool_invocation iv s =
     (if get_run_step s (iv_run_id iv) (iv_step_id iv) = None then (Inl AgentOwnershipError, s)
      else if find (\<lambda>x. iv_step_id x = iv_step_id iv \<and> iv_attempt x = iv_attempt iv \<or>
             iv_tool_name x = iv_tool_name iv \<and> iv_tool_version x = iv_tool_version iv \<and>
             iv_idempotency_key_hash x = iv_idempotency_key_hash iv) (db_invocations s) \<noteq> None
        then (Inl IntegrityError, s)
      else let (i, s1) = uuid4 s; iv' = iv\<lparr>iv_id := i\<rparr> in (Inr iv', add_invocation iv' s1))"

definition insert_approval_request ::
  "approval_request \<Rightarrow> 'a agent_db_scheme \<Rightarrow> ('a agent_db_scheme, approval_request) outcome" where
  "insert_approval_request ap s =
     (if get_run_step s (ap_run_id ap) (ap_step_id ap) = None then (Inl AgentOwnershipError, s)
      else if get_exact_approval s (ap_run_id ap) (ap_step_id ap) (ap_action_type ap)
                (ap_target_type ap) (ap_target_public_id ap) (ap_target_version ap)
                (ap_proposal_hash ap) \<noteq> None \<or>
              find (\<lambda>x. ap_execution_identity x = ap_execution_identity ap) (db_approvals s) \<noteq> None
        then (Inl IntegrityError, s)
      else let (i, s1) = uuid4 s; ap' = ap\<lparr>ap_id := i\<rparr> in (Inr ap', add_approval ap' s1))"

definition advance_agent_run_revision ::
  "uuid \<Rightarrow> int \<Rightarrow> 'a agent_db_scheme \<Rightarrow> ('a agent_db_scheme, agent_run) outcome" where
  "advance_agent_run_revision rid expected s =
     (case get_agent_run s rid of
        None \<Rightarrow> (Inl AgentRevisionConflictError, s)
      | Some r \<Rightarrow>
         if r_revision r \<noteq> expected then (Inl AgentRevisionConflictError, s)
         else (Inr (r\<lparr>r_revision := expected + 1\<rparr>),
               upd_agent_run rid (\<lambda>r. r\<lparr>r_revision := expected + 1\<rparr>) s))"

text \<open>
  The audit log. \<open>event_draft\<close> holds the arguments of \<open>append_agent_event\<close> with its defaults;
  the call fills in the identifier and the next sequence number of the Run.
\<close>

definition event_draft ::
  "uuid \<Rightarrow> string \<Rightarrow> string \<Rightarrow> string \<Rightarrow> json \<Rightarrow> uuid \<Rightarrow> instant \<Rightarrow> agent_event" where
  "event_draft rid etype code message meta correlation occurred =
     \<lparr> ev_id = 0, ev_run_id = rid, ev_step_id = None, ev_invocation_id = None,
       ev_approval_id = None, ev_sequence = 0, ev_type = etype, ev_safe_code = code,
       ev_safe_message = message, ev_metadata = meta, ev_correlation_id = correlation,
       ev_occurred_at = occurred, ev_idempotency_hash = None \<rparr>"

definition max_sequence :: "agent_event list \<Rightarrow> int" where
  "max_sequence es = foldl (\<lambda>m e. max m (ev_sequence e)) (- 1) es"

definition append_agent_event ::
  "agent_event \<Rightarrow> 'a agent_db_scheme \<Rightarrow> ('a agent_db_scheme, agent_event) outcome" where
  "append_agent_event e s =
     (if get_agent_run s (ev_run_id e) = None then (Inl AgentOwnershipError, s)
      else if ev_idempotency_hash e \<noteq> None \<and>
              find (\<lambda>x. ev_idempotency_hash x = ev_idempotency_hash e) (run_events s (ev_run_id e)) \<noteq> None
        then (Inl IntegrityError, s)
      else let (i, s1) = uuid4 s;
               e' = e\<lparr>ev_id := i, ev_sequence := max_sequence (run_events s (ev_run_id e)) + 1\<rparr>
           in (Inr e', s1\<lparr>db_events := db_events s1 @ [e']\<rparr>))"

end
