(* ===== verification/Run_Service.thy ===== *)
theory Run_Service
  imports Run_Model
begin

text \<open>
  The Agent Run lifecycle (\<open>app/agent_runs/service.py\<close>): the transition table, idempotent and
  capacity-bounded creation, the fenced transition every other module goes through, and
  cancellation. The clock reading \<open>now or utc_now()\<close> is the parameter \<open>t\<close>; the SHA-256 digest is
  the parameter \<open>sha\<close>.
\<close>

definition POLICY_VERSION :: string where
  "POLICY_VERSION = ''agent-run-api-v1''"

definition STEP_BUDGET :: int where "STEP_BUDGET = 12"
definition TOOL_CALL_BUDGET :: int where "TOOL_CALL_BUDGET = 20"
definition RETRY_BUDGET :: int where "RETRY_BUDGET = 1"
definition RUN_DURATION :: int where "RUN_DURATION = minutes 10"
definition MAX_ACTIVE_RUNS :: nat where "MAX_ACTIVE_RUNS = 32"

fun LEGAL_TRANSITIONS :: "run_state \<Rightarrow> run_state list" where
  "LEGAL_TRANSITIONS CREATED = [PLANNING, CANCELLED, EXPIRED]"
| "LEGAL_TRANSITIONS PLANNING = [READY, FAILED, CANCELLED, EXPIRED]"
| "LEGAL_TRANSITIONS READY = [RUNNING, CANCELLED, EXPIRED]"
| "LEGAL_TRANSITIONS RUNNING = [RUNNING, AWAITING_APPROVAL, COMPLETED, FAILED, CANCELLED, EXPIRED]"
| "LEGAL_TRANSITIONS AWAITING_APPROVAL = [RUNNING, FAILED, CANCELLED, EXPIRED]"
| "LEGAL_TRANSITIONS COMPLETED = []"
| "LEGAL_TRANSITIONS FAILED = []"
| "LEGAL_TRANSITIONS CANCELLED = []"
| "LEGAL_TRANSITIONS EXPIRED = []"

definition legal_transition :: "run_state \<Rightarrow> run_state \<Rightarrow> bool" where
  "legal_transition a b \<longleftrightarrow> b \<in> set (LEGAL_TRANSITIONS a)"

definition ACTIVE_PROCESSING_STATES :: "run_state list" where
  "ACTIVE_PROCESSING_STATES = [PLANNING, READY, RUNNING, AWAITING_APPROVAL]"

definition CAPACITY_STATES :: "run_state list" where
  "CAPACITY_STATES = CREATED # ACTIVE_PROCESSING_STATES"

interpretation run_lifecycle: lifecycle legal_transition "\<lambda>st. st \<in> set TERMINAL_STATES"
  by unfold_locales (auto simp: legal_transition_def TERMINAL_STATES_def)

section \<open>Creation\<close>

record agent_run_create =
  rc_project_id :: "uuid option"
  rc_agent_kind :: string
  rc_agent_version :: string
  rc_goal_summary :: string

definition hash_idempotency_key :: "(string \<Rightarrow> string) \<Rightarrow> string \<Rightarrow> string" where
  "hash_idempotency_key sha value = sha value"

definition request_payload :: "agent_run_create \<Rightarrow> json" where
  "request_payload rq = JObj
     [(''project_id'', jopt (\<lambda>i. JStr (uuid_text i)) (rc_project_id rq)),
      (''agent_kind'', JStr (rc_agent_kind rq)),
      (''agent_version'', JStr (rc_agent_version rq)),
      (''goal_summary'', JStr (rc_goal_summary rq))]"

definition normalized_request_fingerprint ::
  "(string \<Rightarrow> string) \<Rightarrow> agent_run_create \<Rightarrow> string" where
  "normalized_request_fingerprint sha rq = sha (dumps (request_payload rq))"

text \<open>A \<open>CreateResult\<close> is the Run and whether this call created it.\<close>

definition replay_or_conflict :: "agent_run \<Rightarrow> string \<Rightarrow> exn + (agent_run \<times> bool)" where
  "replay_or_conflict run fp =
     (if r_fingerprint run \<noteq> fp then Inl IdempotencyConflictError else Inr (run, False))"

definition resolve_create_replay ::
  "'a agent_db_scheme \<Rightarrow> string \<Rightarrow> string \<Rightarrow> exn + (agent_run \<times> bool) option" where
  "resolve_create_replay s key_hash fp =
     (case get_run_by_hash s key_hash of
        None \<Rightarrow> Inr None
      | Some run \<Rightarrow> (case replay_or_conflict run fp of Inl e \<Rightarrow> Inl e | Inr x \<Rightarrow> Inr (Some x)))"

text \<open>The JSON metadata of a lifecycle event.\<close>

definition change_meta :: "run_state option \<Rightarrow> run_state \<Rightarrow> int \<Rightarrow> json" where
  "change_meta previous new revision = JObj
     [(''previous_state'', jopt (\<lambda>st. JStr (state_value st)) previous),
      (''new_state'', JStr (state_value new)),
      (''resulting_revision'', JInt revision)]"

definition new_run ::
  "agent_run_create \<Rightarrow> string \<Rightarrow> string \<Rightarrow> instant \<Rightarrow> uuid \<Rightarrow> agent_run" where
  "new_run rq key_hash fp t correlation =
     \<lparr> r_id = 0, r_project_id = rc_project_id rq, r_agent_kind = rc_agent_kind rq,
       r_agent_version = rc_agent_version rq, r_goal_summary = rc_goal_summary rq,
       r_registry_version = REGISTRY_VERSION, r_policy_version = POLICY_VERSION,
       r_state = CREATED, r_step_budget = STEP_BUDGET, r_tool_call_budget = TOOL_CALL_BUDGET,
       r_retry_budget = RETRY_BUDGET, r_planning_deadline = t + RUN_DURATION,
       r_run_deadline = t + RUN_DURATION, r_revision = 0, r_correlation_id = correlation,
       r_idempotency_key_hash = key_hash, r_fingerprint = fp, r_safe_error_code = None,
       r_created_at = t, r_updated_at = t, r_started_at = None, r_finished_at = None \<rparr>"

text \<open>
  \<open>meanwhile\<close> is what other transactions commit while this one waits for the capacity lock; the
  second lookup and everything after it see its result.
\<close>

definition create_run ::
  "('a agent_db_scheme \<Rightarrow> 'a agent_db_scheme) \<Rightarrow> agent_run_create \<Rightarrow> string \<Rightarrow> string \<Rightarrow> instant
     \<Rightarrow> 'a agent_db_scheme \<Rightarrow> ('a agent_db_scheme, agent_run \<times> bool) outcome" where
  "create_run meanwhile rq key_hash fp t s0 =
    (case get_run_by_hash s0 key_hash of
       Some existing \<Rightarrow> (replay_or_conflict existing fp, s0)
     | None \<Rightarrow>
        let s = meanwhile s0 in
        (case get_run_by_hash s key_hash of
           Some existing \<Rightarrow> (replay_or_conflict existing fp, s)
         | None \<Rightarrow>
            if count_runs_in_states s CAPACITY_STATES \<ge> MAX_ACTIVE_RUNS
              then (Inl AgentRunCapacityError, s)
            else if rc_project_id rq \<noteq> None \<and> get_project s (the (rc_project_id rq)) = None
              then (Inl ProjectNotFoundError, s)
            else
              let (correlation, s1) = uuid4 s in
              andThen (create_agent_run (new_run rq key_hash fp t correlation) s1) (\<lambda>run s2.
              andThen (append_agent_event
                  (event_draft (r_id run) ''agent_run.created'' ''agent_run_created''
                    ''agent run created'' (change_meta None CREATED 0) correlation t) s2)
                (\<lambda>_ s3. (Inr (run, True), s3)))))"

section \<open>The fenced transition\<close>

definition transition_deadline :: "agent_run \<Rightarrow> instant" where
  "transition_deadline run =
     (if r_state run \<in> {CREATED, PLANNING} then r_planning_deadline run else r_run_deadline run)"

definition move_run :: "run_state \<Rightarrow> instant \<Rightarrow> string option \<Rightarrow> agent_run \<Rightarrow> agent_run" where
  "move_run new t code run = run\<lparr>
     r_state := new,
     r_revision := r_revision run + 1,
     r_updated_at := t,
     r_safe_error_code := code,
     r_started_at :=
       (if r_started_at run = None \<and>
           (new \<in> set ACTIVE_PROCESSING_STATES \<or> new \<in> set TERMINAL_STATES)
        then Some t else r_started_at run),
     r_finished_at := (if new \<in> set TERMINAL_STATES then Some t else r_finished_at run)\<rparr>"

definition transition_run ::
  "uuid \<Rightarrow> run_state \<Rightarrow> int \<Rightarrow> run_state \<Rightarrow> instant \<Rightarrow> string option
     \<Rightarrow> 'a agent_db_scheme \<Rightarrow> ('a agent_db_scheme, agent_run) outcome" where
  "transition_run rid expected_state expected_revision new t code s =
    (case get_agent_run s rid of
       None \<Rightarrow> (Inl AgentRunNotFoundError, s)
     | Some run \<Rightarrow>
        if r_state run \<noteq> expected_state \<or> new \<notin> set (LEGAL_TRANSITIONS (r_state run))
          then (Inl AgentRunTransitionConflictError, s)
        else if r_revision run \<noteq> expected_revision
          then (Inl AgentRunRevisionConflictError, s)
        else if new = EXPIRED \<and> t < transition_deadline run
          then (Inl AgentRunTransitionConflictError, s)
        else
          andThen (append_agent_event
              (event_draft rid ''agent_run.state_changed'' ''agent_run_state_changed''
                ''agent run state changed''
                (change_meta (Some (r_state run)) new (r_revision run + 1))
                (r_correlation_id run) t)
              (upd_agent_run rid (move_run new t code) s))
            (\<lambda>_ s2. (Inr (move_run new t code run), s2)))"

section \<open>Cancellation\<close>

definition OPEN_INVOCATION :: "invocation_status list" where
  "OPEN_INVOCATION = [INV_RESERVED, INV_RUNNING]"

definition OPEN_STEP :: "step_status list" where
  "OPEN_STEP = [STEP_PENDING, STEP_RUNNING]"

definition or_now :: "instant option \<Rightarrow> instant \<Rightarrow> instant option" where
  "or_now x t = (case x of None \<Rightarrow> Some t | Some u \<Rightarrow> Some u)"

definition discard_invocation :: "string \<Rightarrow> instant \<Rightarrow> tool_invocation \<Rightarrow> tool_invocation" where
  "discard_invocation code t iv = iv\<lparr>
     iv_status := INV_DISCARDED, iv_safe_error_code := Some code,
     iv_finished_at := Some t, iv_started_at := or_now (iv_started_at iv) t\<rparr>"

definition close_step :: "step_status \<Rightarrow> instant \<Rightarrow> agent_step \<Rightarrow> agent_step" where
  "close_step status t st = st\<lparr>
     st_status := status, st_started_at := or_now (st_started_at st) t, st_finished_at := Some t\<rparr>"

fun discard_invocations ::
  "agent_run \<Rightarrow> instant \<Rightarrow> tool_invocation list \<Rightarrow> 'a agent_db_scheme
     \<Rightarrow> ('a agent_db_scheme, unit) outcome" where
  "discard_invocations run t [] s = (Inr (), s)"
| "discard_invocations run t (iv # ivs) s =
    (if iv_status iv \<in> set OPEN_INVOCATION then
       andThen (append_agent_event
           ((event_draft (r_id run) ''tool_invocation.discarded'' ''cancellation_discard''
              ''tool invocation discarded'' (JObj [(''status'', JStr ''discarded'')])
              (r_correlation_id run) t)\<lparr>ev_invocation_id := Some (iv_id iv)\<rparr>)
           (upd_invocation (iv_id iv) (discard_invocation ''cancellation_discard'' t) s))
         (\<lambda>_ s2. discard_invocations run t ivs s2)
     else discard_invocations run t ivs s)"

fun close_steps :: "instant \<Rightarrow> agent_step list \<Rightarrow> 'a agent_db_scheme \<Rightarrow> 'a agent_db_scheme" where
  "close_steps t [] s = s"
| "close_steps t (st # sts) s =
    (if st_status st \<in> set OPEN_STEP
     then close_steps t sts (upd_step (st_id st) (close_step STEP_CANCELLED t) s)
     else close_steps t sts s)"

definition cancel_run ::
  "uuid \<Rightarrow> int \<Rightarrow> instant \<Rightarrow> 'a agent_db_scheme \<Rightarrow> ('a agent_db_scheme, agent_run) outcome" where
  "cancel_run rid expected_revision t s =
    (case get_agent_run s rid of
       None \<Rightarrow> (Inl AgentRunNotFoundError, s)
     | Some run \<Rightarrow>
        if r_state run = CANCELLED then (Inr run, s)
        else if r_state run \<in> set TERMINAL_STATES then (Inl AgentRunTransitionConflictError, s)
        else if r_revision run \<noteq> expected_revision then (Inl AgentRunRevisionConflictError, s)
        else
          andThen (discard_invocations run t (step_invocations s (r_id run)) s) (\<lambda>_ s1.
            transition_run rid (r_state run) expected_revision CANCELLED t None
              (close_steps t (run_steps s (r_id run)) s1)))"

end
