(* ===== verification/Run_Invariants.thy ===== *)
theory Run_Invariants
  imports Run_Service
begin

text \<open>
  Invariants of the runtime tables. The interface \<open>session_invariant\<close> lists the primitive writes
  every service is made of; a service lemma is proved once, for any property those writes keep,
  and used for each of the invariants interpreted below: the audit log replays to the Run's
  current state, a terminal Run's row is frozen, the log is append-only, the plan is frozen, and
  the number of Runs that occupy capacity never grows.
\<close>

section \<open>Immutable parts of rows\<close>

definition step_plan :: "agent_step \<Rightarrow> agent_step" where
  "step_plan st = st\<lparr>st_status := STEP_PENDING, st_started_at := None, st_finished_at := None\<rparr>"

definition invocation_identity :: "tool_invocation \<Rightarrow> tool_invocation" where
  "invocation_identity iv = iv\<lparr>iv_status := INV_RESERVED, iv_safe_result_summary := None,
     iv_evidence_references := [], iv_safe_error_code := None, iv_started_at := None,
     iv_finished_at := None\<rparr>"

definition approval_content :: "approval_request \<Rightarrow> approval_request" where
  "approval_content ap = ap\<lparr>ap_status := APPROVAL_PENDING, ap_reviewed_at := None,
     ap_reviewer_metadata := None\<rparr>"

definition lifecycle_event :: "string \<Rightarrow> bool" where
  "lifecycle_event ty \<longleftrightarrow> ty = ''agent_run.created'' \<or> ty = ''agent_run.state_changed''"

lemma step_plan_keys:
  "step_plan x = step_plan y \<Longrightarrow> st_id x = st_id y \<and> st_run_id x = st_run_id y \<and>
     st_ordinal x = st_ordinal y \<and> st_tool_name x = st_tool_name y \<and>
     st_tool_version x = st_tool_version y \<and> st_normalized_input x = st_normalized_input y"
  by (cases x; cases y) (simp add: step_plan_def)

lemma invocation_identity_keys:
  "invocation_identity x = invocation_identity y \<Longrightarrow> iv_id x = iv_id y \<and>
     iv_run_id x = iv_run_id y \<and> iv_step_id x = iv_step_id y \<and> iv_attempt x = iv_attempt y \<and>
     iv_tool_name x = iv_tool_name y \<and> iv_tool_version x = iv_tool_version y \<and>
     iv_authority x = iv_authority y"
  by (cases x; cases y) (simp add: invocation_identity_def)

lemma approval_content_keys:
  "approval_content x = approval_content y \<Longrightarrow> ap_id x = ap_id y \<and> ap_run_id x = ap_run_id y"
  by (cases x; cases y) (simp add: approval_content_def)

lemma close_step_plan [simp]: "step_plan (close_step status t st) = step_plan st"
  by (simp add: step_plan_def close_step_def)

lemma discard_invocation_identity [simp]:
  "invocation_identity (discard_invocation code t iv) = invocation_identity iv"
  by (simp add: invocation_identity_def discard_invocation_def)

section \<open>The write interface\<close>

locale session_invariant =
  fixes I :: "'a agent_db_scheme \<Rightarrow> bool"
  assumes write_step: "I s \<Longrightarrow> (\<And>x. step_plan (f x) = step_plan x) \<Longrightarrow> I (upd_step i f s)"
    and write_invocation:
      "I s \<Longrightarrow> (\<And>x. invocation_identity (g x) = invocation_identity x) \<Longrightarrow> I (upd_invocation i g s)"
    and write_approval:
      "I s \<Longrightarrow> (\<And>x. approval_content (h x) = approval_content x) \<Longrightarrow> I (upd_approval i h s)"
    and write_event: "I s \<Longrightarrow> \<not> lifecycle_event (ev_type e) \<Longrightarrow> I (snd (append_agent_event e s))"
    and write_transition: "I s \<Longrightarrow> I (snd (transition_run rid st n new t code s))"
    and write_uuid: "I s \<Longrightarrow> I (snd (uuid4 s))"
begin

lemma write_andThen:
  "I (snd m) \<Longrightarrow> (\<And>a s'. m = (Inr a, s') \<Longrightarrow> I s' \<Longrightarrow> I (snd (k a s'))) \<Longrightarrow> I (snd (andThen m k))"
  by (auto simp: andThen_def split: prod.splits sum.splits)

lemma write_discards: "I s \<Longrightarrow> I (snd (discard_invocations run t ivs s))"
proof (induction ivs arbitrary: s)
  case Nil
  then show ?case by simp
next
  case (Cons iv ivs)
  have "I (upd_invocation (iv_id iv) (discard_invocation ''cancellation_discard'' t) s)"
    using Cons.prems by (rule write_invocation) simp
  then show ?case using Cons
    by (auto intro!: write_andThen write_event simp: event_draft_def lifecycle_event_def)
qed

lemma write_close_steps: "I s \<Longrightarrow> I (close_steps t sts s)"
proof (induction sts arbitrary: s)
  case Nil
  then show ?case by simp
next
  case (Cons st sts)
  have "I (upd_step (st_id st) (close_step STEP_CANCELLED t) s)"
    using Cons.prems by (rule write_step) simp
  with Cons show ?case by simp
qed

lemma cancel_run_keeps: "I s \<Longrightarrow> I (snd (cancel_run rid n t s))"
  unfolding cancel_run_def
  by (auto intro!: write_andThen write_discards write_transition write_close_steps
      split: option.splits)

end

text \<open>Inserting plan steps, then approvals, and then invocations as well:\<close>

locale planning_invariant = session_invariant +
  assumes write_new_step: "I s \<Longrightarrow> I (snd (insert_agent_step x s))"

locale approving_invariant = planning_invariant +
  assumes write_new_approval: "I s \<Longrightarrow> I (snd (insert_approval_request z s))"

locale growing_invariant = approving_invariant +
  assumes write_new_invocation: "I s \<Longrightarrow> I (snd (reserve_tool_invocation y s))"

section \<open>Effects of the primitives\<close>

definition logged_event :: "agent_event \<Rightarrow> 'a agent_db_scheme \<Rightarrow> agent_event" where
  "logged_event e s = e\<lparr>ev_id := db_next_id s,
     ev_sequence := max_sequence (run_events s (ev_run_id e)) + 1\<rparr>"

lemma append_agent_event_eq:
  "append_agent_event e s =
     (if get_agent_run s (ev_run_id e) = None then (Inl AgentOwnershipError, s)
      else if ev_idempotency_hash e \<noteq> None \<and>
              find (\<lambda>x. ev_idempotency_hash x = ev_idempotency_hash e) (run_events s (ev_run_id e)) \<noteq> None
        then (Inl IntegrityError, s)
      else (Inr (logged_event e s),
        s\<lparr>db_next_id := Suc (db_next_id s), db_events := db_events s @ [logged_event e s]\<rparr>))"
  by (simp add: append_agent_event_def uuid4_def logged_event_def Let_def)

lemma append_agent_event_cases:
  obtains (fail) err where "append_agent_event e s = (Inl err, s)"
  | (ok) "append_agent_event e s = (Inr (logged_event e s),
        s\<lparr>db_next_id := Suc (db_next_id s), db_events := db_events s @ [logged_event e s]\<rparr>)"
      and "get_agent_run s (ev_run_id e) \<noteq> None"
proof (cases "get_agent_run s (ev_run_id e) = None")
  case True
  then show ?thesis using fail by (simp add: append_agent_event_eq)
next
  case found: False
  show ?thesis
  proof (cases "ev_idempotency_hash e \<noteq> None \<and>
      find (\<lambda>x. ev_idempotency_hash x = ev_idempotency_hash e) (run_events s (ev_run_id e)) \<noteq> None")
    case True
    then have "append_agent_event e s = (Inl IntegrityError, s)"
      using found by (auto simp: append_agent_event_eq)
    then show ?thesis by (rule fail)
  next
    case False
    then have "append_agent_event e s = (Inr (logged_event e s),
        s\<lparr>db_next_id := Suc (db_next_id s), db_events := db_events s @ [logged_event e s]\<rparr>)"
      using found by (simp only: append_agent_event_eq if_False)
    then show ?thesis using found by (rule ok)
  qed
qed

lemma append_agent_event_draft_ok:
  assumes "get_agent_run s (ev_run_id e) \<noteq> None" and "ev_idempotency_hash e = None"
  shows "append_agent_event e s = (Inr (logged_event e s),
      s\<lparr>db_next_id := Suc (db_next_id s), db_events := db_events s @ [logged_event e s]\<rparr>)"
  using assms by (simp add: append_agent_event_eq)

lemma logged_event_simps [simp]:
  "ev_run_id (logged_event e s) = ev_run_id e"
  "ev_type (logged_event e s) = ev_type e"
  "ev_metadata (logged_event e s) = ev_metadata e"
  "ev_sequence (logged_event e s) = max_sequence (run_events s (ev_run_id e)) + 1"
  "ev_id (logged_event e s) = db_next_id s"
  "ev_step_id (logged_event e s) = ev_step_id e"
  "ev_invocation_id (logged_event e s) = ev_invocation_id e"
  "ev_idempotency_hash (logged_event e s) = ev_idempotency_hash e"
  by (simp_all add: logged_event_def)

lemma event_draft_simps [simp]:
  "ev_run_id (event_draft rid ty c m meta co t) = rid"
  "ev_type (event_draft rid ty c m meta co t) = ty"
  "ev_metadata (event_draft rid ty c m meta co t) = meta"
  "ev_idempotency_hash (event_draft rid ty c m meta co t) = None"
  "ev_occurred_at (event_draft rid ty c m meta co t) = t"
  by (simp_all add: event_draft_def)

lemma move_run_simps [simp]:
  "r_id (move_run new t code r) = r_id r"
  "r_state (move_run new t code r) = new"
  "r_revision (move_run new t code r) = r_revision r + 1"
  "r_idempotency_key_hash (move_run new t code r) = r_idempotency_key_hash r"
  "r_fingerprint (move_run new t code r) = r_fingerprint r"
  "r_project_id (move_run new t code r) = r_project_id r"
  "r_agent_kind (move_run new t code r) = r_agent_kind r"
  "r_agent_version (move_run new t code r) = r_agent_version r"
  "r_retry_budget (move_run new t code r) = r_retry_budget r"
  "r_tool_call_budget (move_run new t code r) = r_tool_call_budget r"
  "r_step_budget (move_run new t code r) = r_step_budget r"
  "r_registry_version (move_run new t code r) = r_registry_version r"
  "r_run_deadline (move_run new t code r) = r_run_deadline r"
  "r_goal_summary (move_run new t code r) = r_goal_summary r"
  by (simp_all add: move_run_def)

text \<open>
  A transition either changes nothing and raises, or moves exactly the addressed Run along a
  legal edge and appends exactly one event that records it.
\<close>

definition change_event :: "agent_run \<Rightarrow> run_state \<Rightarrow> instant \<Rightarrow> agent_event" where
  "change_event run new t = event_draft (r_id run) ''agent_run.state_changed''
     ''agent_run_state_changed'' ''agent run state changed''
     (change_meta (Some (r_state run)) new (r_revision run + 1)) (r_correlation_id run) t"

lemma change_event_simps [simp]:
  "ev_run_id (change_event run new t) = r_id run"
  "ev_type (change_event run new t) = ''agent_run.state_changed''"
  "ev_metadata (change_event run new t) = change_meta (Some (r_state run)) new (r_revision run + 1)"
  "ev_idempotency_hash (change_event run new t) = None"
  by (simp_all add: change_event_def)

definition moved_db ::
  "agent_run \<Rightarrow> run_state \<Rightarrow> instant \<Rightarrow> string option \<Rightarrow> 'a agent_db_scheme \<Rightarrow> 'a agent_db_scheme" where
  "moved_db run new t code s = s\<lparr>db_next_id := Suc (db_next_id s),
     db_runs := row_upd r_id (r_id run) (move_run new t code) (db_runs s),
     db_events := db_events s @ [logged_event (change_event run new t) s]\<rparr>"

lemma run_events_upd_run [simp]: "run_events (upd_agent_run i f s) = run_events s"
  by (simp add: run_events_def upd_agent_run_def fun_eq_iff)

lemma transition_run_cases:
  obtains (fail) err where "transition_run rid st n new t code s = (Inl err, s)"
  | (ok) run where "get_agent_run s rid = Some run" and "r_id run = rid" and "r_state run = st"
      and "legal_transition st new" and "r_revision run = n"
      and "new = EXPIRED \<longrightarrow> transition_deadline run \<le> t"
      and "transition_run rid st n new t code s =
        (Inr (move_run new t code run), moved_db run new t code s)"
proof (cases "get_agent_run s rid")
  case None
  then show ?thesis using fail by (simp add: transition_run_def)
next
  case (Some run)
  then have rid: "r_id run = rid" by (rule runs.get_key)
  let ?s1 = "upd_agent_run rid (move_run new t code) s"
  have "get_agent_run ?s1 rid = Some (move_run new t code run)"
    using Some by (simp add: runs.get_upd)
  then have ev: "append_agent_event (change_event run new t) ?s1 =
      (Inr (logged_event (change_event run new t) s), moved_db run new t code s)"
    using rid by (subst append_agent_event_draft_ok)
      (simp_all add: moved_db_def logged_event_def, simp_all add: upd_agent_run_def)
  show ?thesis
  proof (cases "r_state run \<noteq> st \<or> new \<notin> set (LEGAL_TRANSITIONS (r_state run)) \<or>
      r_revision run \<noteq> n \<or> (new = EXPIRED \<and> t < transition_deadline run)")
    case True
    then have "\<exists>err. transition_run rid st n new t code s = (Inl err, s)"
      using Some by (auto simp: transition_run_def)
    then show ?thesis using fail by blast
  next
    case False
    then have "transition_run rid st n new t code s =
        andThen (append_agent_event (change_event run new t) ?s1)
          (\<lambda>_ s2. (Inr (move_run new t code run), s2))"
      using Some rid by (auto simp: transition_run_def change_event_def)
    then show ?thesis using False ok [OF Some rid] by (auto simp: ev legal_transition_def)
  qed
qed

lemma transition_run_OK:
  assumes "transition_run rid st n new t code s = (Inr run', s')"
  obtains run where "get_agent_run s rid = Some run" "r_state run = st" "legal_transition st new"
    "r_revision run = n" "run' = move_run new t code run"
    "db_runs s' = row_upd r_id rid (move_run new t code) (db_runs s)"
    "db_steps s' = db_steps s" "db_invocations s' = db_invocations s"
    "db_approvals s' = db_approvals s"
    "new = EXPIRED \<longrightarrow> transition_deadline run \<le> t"
    "r_id run = rid" "s' = moved_db run new t code s"
  using assms by (cases rule: transition_run_cases [of rid st n new t code s]) (auto simp: moved_db_def)

lemma transition_run_succeeds:
  assumes "get_agent_run s rid = Some run" and "r_state run = st" and "legal_transition st new"
    and "r_revision run = n" and "new = EXPIRED \<longrightarrow> transition_deadline run \<le> t"
  shows "transition_run rid st n new t code s = (Inr (move_run new t code run), moved_db run new t code s)"
proof -
  have "\<not> (\<exists>err. transition_run rid st n new t code s = (Inl err, s))"
    using assms runs.get_key [OF assms(1)]
    by (auto simp: transition_run_def legal_transition_def append_agent_event_eq runs.get_upd)
  then show ?thesis
    using assms(1) by (cases rule: transition_run_cases [of rid st n new t code s]) auto
qed

lemma moved_db_row:
  "get_agent_run s rid = Some run \<Longrightarrow> get_agent_run (moved_db run new t code s) rid = Some (move_run new t code run)"
  using runs.get_key [of s rid run] by (simp add: moved_db_def get_agent_run_def row_get_upd)

section \<open>The audit log replays the Run\<close>

text \<open>
  The lifecycle events of a Run, oldest first, must be a walk through the transition table that
  starts with the creation event, numbers its revisions 0, 1, 2, \<open>\<dots>\<close> and ends in the Run's
  current state and revision. \<open>trail_ok\<close> checks the metadata newest first.
\<close>

definition ALL_STATES :: "run_state list" where
  "ALL_STATES = [CREATED, PLANNING, READY, RUNNING, AWAITING_APPROVAL, COMPLETED, FAILED,
     CANCELLED, EXPIRED]"

fun trail_ok :: "json list \<Rightarrow> run_state \<Rightarrow> int \<Rightarrow> bool" where
  "trail_ok [] st n = False"
| "trail_ok (m # ms) st n =
     ((ms = [] \<and> st = CREATED \<and> n = 0 \<and> m = change_meta None CREATED 0) \<or>
      (\<exists>p \<in> set ALL_STATES. st \<in> set (LEGAL_TRANSITIONS p) \<and> m = change_meta (Some p) st n \<and>
         trail_ok ms p (n - 1)))"

definition trail :: "'a agent_db_scheme \<Rightarrow> uuid \<Rightarrow> json list" where
  "trail s rid = map ev_metadata (filter (\<lambda>e. lifecycle_event (ev_type e)) (run_events s rid))"

definition sequences_ok :: "agent_event list \<Rightarrow> bool" where
  "sequences_ok es \<longleftrightarrow> map ev_sequence es = map int [0..<length es]"

definition log_ok :: "'a agent_db_scheme \<Rightarrow> bool" where
  "log_ok s \<longleftrightarrow>
     distinct (map r_id (db_runs s)) \<and>
     (\<forall>r \<in> set (db_runs s). r_id r < db_next_id s) \<and>
     (\<forall>e \<in> set (db_events s). ev_run_id e \<in> r_id ` set (db_runs s)) \<and>
     (\<forall>r \<in> set (db_runs s). sequences_ok (run_events s (r_id r))) \<and>
     (\<forall>r \<in> set (db_runs s). trail_ok (rev (trail s (r_id r))) (r_state r) (r_revision r))"

lemma in_ALL_STATES [simp]: "p \<in> set ALL_STATES"
  by (cases p) (simp_all add: ALL_STATES_def)

lemma trail_ok_revision: "trail_ok ms st n \<Longrightarrow> n = int (length ms) - 1"
  by (induction ms st n rule: trail_ok.induct) auto

lemma trail_ok_reachable: "trail_ok ms st n \<Longrightarrow> legal_transition\<^sup>*\<^sup>* CREATED st"
proof (induction ms st n rule: trail_ok.induct)
  case (2 m ms st n)
  then show ?case
    by (auto simp: legal_transition_def intro: rtranclp.rtrancl_into_rtrancl)
qed simp

lemma sequences_ok_max:
  assumes "sequences_ok es"
  shows "max_sequence es = int (length es) - 1"
proof -
  have "foldl (\<lambda>m e. max m (ev_sequence e)) k es = (if es = [] then k else int (n + length es) - 1)"
    if "map ev_sequence es = map int [n..<n + length es]" and "k \<le> int n" for k n es
    using that
  proof (induction es arbitrary: k n)
    case Nil
    then show ?case by simp
  next
    case (Cons e es)
    then have e: "ev_sequence e = int n"
      and rest: "map ev_sequence es = map int [Suc n..<Suc n + length es]"
      by (auto simp: upt_rec [of n] simp del: upt_Suc)
    show ?case using Cons.IH [OF rest, of "max k (int n)"] Cons.prems(2) e by auto
  qed
  from this [of es 0 "- 1"] assms show ?thesis
    by (simp add: sequences_ok_def max_sequence_def)
qed

lemma sequences_ok_snoc:
  "sequences_ok es \<Longrightarrow> ev_sequence e = max_sequence es + 1 \<Longrightarrow> sequences_ok (es @ [e])"
  using sequences_ok_max [of es] by (simp add: sequences_ok_def)

lemma run_events_snoc:
  "run_events (s\<lparr>db_next_id := n, db_events := db_events s @ [e]\<rparr>) rid =
     run_events s rid @ (if ev_run_id e = rid then [e] else [])"
  by (simp add: run_events_def)

lemma log_ok_frame:
  assumes "log_ok s" and "db_runs s' = db_runs s" and "db_events s' = db_events s"
    and "db_next_id s \<le> db_next_id s'"
  shows "log_ok s'"
  using assms by (fastforce simp: log_ok_def trail_def run_events_def)

lemma log_ok_event:
  assumes "log_ok s" and "\<not> lifecycle_event (ev_type e)"
  shows "log_ok (snd (append_agent_event e s))"
proof (cases rule: append_agent_event_cases [of e s])
  case (fail err)
  with assms show ?thesis by simp
next
  case ok
  let ?e = "logged_event e s"
  from ok(2) have known: "ev_run_id e \<in> r_id ` set (db_runs s)"
    by (simp add: get_agent_run_def row_get_None_iff)
  let ?s' = "snd (append_agent_event e s)"
  have events: "run_events ?s' j = run_events s j @ (if j = ev_run_id e then [?e] else [])" for j
    by (auto simp: ok run_events_def)
  have trails: "trail ?s' j = trail s j" for j
    using assms(2) by (simp add: trail_def events)
  have "sequences_ok (run_events ?s' (r_id r))" if "r \<in> set (db_runs s)" for r
    using assms(1) that sequences_ok_snoc [of "run_events s (r_id r)" ?e]
    by (auto simp: log_ok_def events)
  moreover have "ev_run_id x \<in> r_id ` set (db_runs s)" if "x \<in> set (db_events ?s')" for x
    using assms(1) that known by (auto simp: ok log_ok_def)
  ultimately show ?thesis
    using assms(1) by (simp add: log_ok_def trails) (auto simp: ok log_ok_def less_Suc_eq)
qed

lemma log_ok_transition:
  assumes "log_ok s"
  shows "log_ok (snd (transition_run rid st n new t code s))"
proof (cases rule: transition_run_cases [of rid st n new t code s])
  case (fail err)
  with assms show ?thesis by simp
next
  case (ok run)
  let ?e = "logged_event (change_event run new t) s" and ?s' = "moved_db run new t code s"
  have run_in: "run \<in> set (db_runs s)"
    using ok(1) by (auto simp: get_agent_run_def dest: row_get_in)
  have ids: "map r_id (db_runs ?s') = map r_id (db_runs s)"
    by (simp add: moved_db_def row_upd_map)
  have ids_set: "r_id ` set (db_runs ?s') = r_id ` set (db_runs s)"
    using arg_cong [OF ids, of set] by simp
  have events: "run_events ?s' j = run_events s j @ (if j = r_id run then [?e] else [])" for j
    by (auto simp: moved_db_def run_events_def)
  have trails: "trail ?s' j = trail s j @
      (if j = r_id run then [change_meta (Some (r_state run)) new (r_revision run + 1)] else [])" for j
    by (auto simp: trail_def events lifecycle_event_def)
  have unique: "x = run" if "x \<in> set (db_runs s)" "r_id x = r_id run" for x
    using assms that run_in by (auto simp: log_ok_def distinct_map dest: inj_onD)
  have row: "x = move_run new t code run \<or> (x \<in> set (db_runs s) \<and> r_id x \<noteq> r_id run)"
    if "x \<in> set (db_runs ?s')" for x
    using that unique by (auto simp: moved_db_def row_upd_set)
  have old: "trail_ok (rev (trail s (r_id run))) (r_state run) (r_revision run)"
    using assms run_in by (simp add: log_ok_def)
  have extended: "trail_ok (change_meta (Some (r_state run)) new (r_revision run + 1) #
      rev (trail s (r_id run))) new (r_revision run + 1)"
    unfolding trail_ok.simps using ok(3,4) old
    by (intro disjI2 bexI [of _ "r_state run"]) (simp_all add: legal_transition_def)
  have "trail_ok (rev (trail ?s' (r_id x))) (r_state x) (r_revision x)" if "x \<in> set (db_runs ?s')" for x
    using row [OF that] assms extended by (auto simp: log_ok_def trails simp del: trail_ok.simps)
  moreover have "sequences_ok (run_events ?s' (r_id x))" if "x \<in> set (db_runs ?s')" for x
    using row [OF that] assms run_in sequences_ok_snoc [of "run_events s (r_id run)" ?e]
    by (auto simp: log_ok_def events)
  moreover have "r_id x < db_next_id ?s'" if "x \<in> set (db_runs ?s')" for x
    using row [OF that] assms run_in by (auto simp: log_ok_def moved_db_def less_Suc_eq)
  moreover have "ev_run_id e \<in> r_id ` set (db_runs ?s')" if "e \<in> set (db_events ?s')" for e
    using that assms run_in by (auto simp: ids_set) (auto simp: moved_db_def log_ok_def)
  ultimately show ?thesis
    using assms ids by (simp add: ok log_ok_def)
qed

interpretation audit: growing_invariant log_ok
proof unfold_locales
  fix s :: "'a agent_db_scheme"
  assume I: "log_ok s"
  show "log_ok (upd_step i f s)" for i f
    by (rule log_ok_frame [OF I]) (simp_all add: upd_step_def)
  show "log_ok (upd_invocation i g s)" for i g
    by (rule log_ok_frame [OF I]) (simp_all add: upd_invocation_def)
  show "log_ok (upd_approval i h s)" for i h
    by (rule log_ok_frame [OF I]) (simp_all add: upd_approval_def)
  show "log_ok (snd (append_agent_event e s))" if "\<not> lifecycle_event (ev_type e)" for e
    using I that by (rule log_ok_event)
  show "log_ok (snd (transition_run rid st n new t code s))" for rid st n new t code
    using I by (rule log_ok_transition)
  show "log_ok (snd (uuid4 s))"
    by (rule log_ok_frame [OF I]) (simp_all add: uuid4_def)
  show "log_ok (snd (insert_agent_step x s))" for x
    by (rule log_ok_frame [OF I]) (simp_all add: insert_agent_step_def uuid4_def add_step_def Let_def)
  show "log_ok (snd (reserve_tool_invocation y s))" for y
    by (rule log_ok_frame [OF I])
      (simp_all add: reserve_tool_invocation_def uuid4_def add_invocation_def Let_def)
  show "log_ok (snd (insert_approval_request z s))" for z
    by (rule log_ok_frame [OF I])
      (simp_all add: insert_approval_request_def uuid4_def add_approval_def Let_def)
qed

section \<open>Further invariants\<close>

text \<open>A terminal Run's row never changes again.\<close>

definition frozen :: "agent_run \<Rightarrow> 'a agent_db_scheme \<Rightarrow> bool" where
  "frozen \<rho> s \<longleftrightarrow> (r_state \<rho> \<in> set TERMINAL_STATES \<longrightarrow> get_agent_run s (r_id \<rho>) = Some \<rho>)"

lemma frozen_frame: "frozen \<rho> s \<Longrightarrow> db_runs s' = db_runs s \<Longrightarrow> frozen \<rho> s'"
  by (simp add: frozen_def get_agent_run_def)

lemma append_agent_event_frame:
  "db_runs (snd (append_agent_event e s)) = db_runs s"
  "db_steps (snd (append_agent_event e s)) = db_steps s"
  "db_invocations (snd (append_agent_event e s)) = db_invocations s"
  "db_approvals (snd (append_agent_event e s)) = db_approvals s"
  "db_memories (snd (append_agent_event e s)) = db_memories s"
  "db_projects (snd (append_agent_event e s)) = db_projects s"
  by (cases rule: append_agent_event_cases [of e s]; simp)+

lemma transition_run_frame:
  "db_steps (snd (transition_run rid st n new t code s)) = db_steps s"
  "db_invocations (snd (transition_run rid st n new t code s)) = db_invocations s"
  "db_approvals (snd (transition_run rid st n new t code s)) = db_approvals s"
  "db_memories (snd (transition_run rid st n new t code s)) = db_memories s"
  "db_projects (snd (transition_run rid st n new t code s)) = db_projects s"
  by (cases rule: transition_run_cases [of rid st n new t code s]; simp add: moved_db_def)+

lemma insert_frame:
  "db_runs (snd (insert_agent_step x s)) = db_runs s"
  "db_runs (snd (reserve_tool_invocation y s)) = db_runs s"
  "db_runs (snd (insert_approval_request z s)) = db_runs s"
  "db_events (snd (insert_agent_step x s)) = db_events s"
  "db_events (snd (reserve_tool_invocation y s)) = db_events s"
  "db_events (snd (insert_approval_request z s)) = db_events s"
  by (simp_all add: insert_agent_step_def reserve_tool_invocation_def insert_approval_request_def
      uuid4_def add_step_def add_invocation_def add_approval_def Let_def)

lemma upd_frame [simp]:
  "db_runs (upd_step i f s) = db_runs s" "db_events (upd_step i f s) = db_events s"
  "db_invocations (upd_step i f s) = db_invocations s" "db_approvals (upd_step i f s) = db_approvals s"
  "db_runs (upd_invocation i g s) = db_runs s" "db_events (upd_invocation i g s) = db_events s"
  "db_steps (upd_invocation i g s) = db_steps s" "db_approvals (upd_invocation i g s) = db_approvals s"
  "db_runs (upd_approval i h s) = db_runs s" "db_events (upd_approval i h s) = db_events s"
  "db_steps (upd_approval i h s) = db_steps s" "db_invocations (upd_approval i h s) = db_invocations s"
  "db_next_id (upd_step i f s) = db_next_id s" "db_next_id (upd_invocation i g s) = db_next_id s"
  "db_next_id (upd_approval i h s) = db_next_id s"
  by (simp_all add: upd_step_def upd_invocation_def upd_approval_def)

lemma uuid4_frame [simp]:
  "db_runs (snd (uuid4 s)) = db_runs s" "db_events (snd (uuid4 s)) = db_events s"
  "db_steps (snd (uuid4 s)) = db_steps s" "db_invocations (snd (uuid4 s)) = db_invocations s"
  "db_approvals (snd (uuid4 s)) = db_approvals s" "db_projects (snd (uuid4 s)) = db_projects s"
  "db_memories (snd (uuid4 s)) = db_memories s"
  by (simp_all add: uuid4_def)

interpretation terminal: growing_invariant "frozen \<rho>" for \<rho>
proof unfold_locales
  fix s :: "'a agent_db_scheme"
  assume I: "frozen \<rho> s"
  show "frozen \<rho> (snd (transition_run rid st n new t code s))" for rid st n new t code
  proof (cases rule: transition_run_cases [of rid st n new t code s])
    case (fail err)
    with I show ?thesis by simp
  next
    case (ok run)
    have "get_agent_run (moved_db run new t code s) j =
        get_agent_run (upd_agent_run rid (move_run new t code) s) j" for j
      using ok(2) by (simp add: get_agent_run_def moved_db_def upd_agent_run_def)
    then have kept: "get_agent_run (moved_db run new t code s) j = get_agent_run s j" if "j \<noteq> rid" for j
      using that by (simp add: runs.get_upd)
    have "rid \<noteq> r_id \<rho>" if "r_state \<rho> \<in> set TERMINAL_STATES"
      using I that ok(1,3) run_lifecycle.live_before [OF ok(4)] by (auto simp: frozen_def)
    then show ?thesis using I kept ok(7) by (auto simp: frozen_def)
  qed
qed (rule frozen_frame, assumption, simp add: append_agent_event_frame insert_frame)+

text \<open>The audit log is append-only.\<close>

definition log_extends :: "agent_event list \<Rightarrow> 'a agent_db_scheme \<Rightarrow> bool" where
  "log_extends es s \<longleftrightarrow> take (length es) (db_events s) = es"

lemma log_extends_frame: "log_extends es s \<Longrightarrow> db_events s' = db_events s \<Longrightarrow> log_extends es s'"
  by (simp add: log_extends_def)

lemma take_append_prefix: "take n xs = ys \<Longrightarrow> length ys = n \<Longrightarrow> take n (xs @ zs) = ys"
  by auto

lemma log_extends_snoc:
  "log_extends es s \<Longrightarrow> db_events s' = db_events s @ [e] \<Longrightarrow> log_extends es s'"
  unfolding log_extends_def by (simp add: take_append_prefix del: take_append)

interpretation append_only: growing_invariant "log_extends es" for es
proof unfold_locales
  fix s :: "'a agent_db_scheme"
  assume I: "log_extends es s"
  show "log_extends es (snd (transition_run rid st n new t code s))" for rid st n new t code
    using I by (cases rule: transition_run_cases [of rid st n new t code s])
      (auto simp: moved_db_def intro: log_extends_snoc)
  show "log_extends es (snd (append_agent_event e s))" for e
    using I by (cases rule: append_agent_event_cases [of e s]) (auto intro: log_extends_snoc)
qed (rule log_extends_frame, assumption, simp add: insert_frame)+

text \<open>Frozen plans: the plan columns of existing steps never change and no step disappears.\<close>

definition plan_extends :: "agent_step list \<Rightarrow> 'a agent_db_scheme \<Rightarrow> bool" where
  "plan_extends ps s \<longleftrightarrow> take (length ps) (map step_plan (db_steps s)) = ps"

interpretation frozen_plan: growing_invariant "plan_extends ps" for ps
proof unfold_locales
  fix s :: "'a agent_db_scheme"
  assume I: "plan_extends ps s"
  show "plan_extends ps (upd_step i f s)" if "\<And>x. step_plan (f x) = step_plan x" for i f
    using I that by (simp add: plan_extends_def upd_step_def row_upd_map)
  show "plan_extends ps (snd (insert_agent_step x s))" for x
    using I by (simp add: plan_extends_def insert_agent_step_def uuid4_def add_step_def Let_def
        take_append_prefix del: take_append)
  show "plan_extends ps (snd (reserve_tool_invocation y s))" for y
    using I by (simp add: plan_extends_def reserve_tool_invocation_def uuid4_def add_invocation_def Let_def)
  show "plan_extends ps (snd (insert_approval_request z s))" for z
    using I by (simp add: plan_extends_def insert_approval_request_def uuid4_def add_approval_def Let_def)
qed (simp_all add: plan_extends_def append_agent_event_frame transition_run_frame)

text \<open>The number of Runs that occupy capacity never grows.\<close>

definition capacity_within :: "nat \<Rightarrow> 'a agent_db_scheme \<Rightarrow> bool" where
  "capacity_within k s \<longleftrightarrow>
     distinct (map r_id (db_runs s)) \<and> count_runs_in_states s CAPACITY_STATES \<le> k"

lemma capacity_or_terminal: "st \<in> set CAPACITY_STATES \<longleftrightarrow> st \<notin> set TERMINAL_STATES"
  by (cases st) (simp_all add: CAPACITY_STATES_def ACTIVE_PROCESSING_STATES_def TERMINAL_STATES_def)

lemma capacity_frame: "capacity_within k s \<Longrightarrow> db_runs s' = db_runs s \<Longrightarrow> capacity_within k s'"
  by (simp add: capacity_within_def count_runs_in_states_def)

interpretation capacity: growing_invariant "capacity_within k" for k
proof unfold_locales
  fix s :: "'a agent_db_scheme"
  assume I: "capacity_within k s"
  show "capacity_within k (snd (transition_run rid st n new t code s))" for rid st n new t code
  proof (cases rule: transition_run_cases [of rid st n new t code s])
    case (fail err)
    with I show ?thesis by simp
  next
    case (ok run)
    have same: "x = run" if "x \<in> set (db_runs s)" "r_id x = r_id run" for x
      using I that ok(1) by (auto simp: capacity_within_def get_agent_run_def distinct_map
        dest!: row_get_in dest: inj_onD)
    have "length (filter (\<lambda>r. r_state r \<in> set CAPACITY_STATES)
        (row_upd r_id (r_id run) (move_run new t code) (db_runs s)))
      \<le> length (filter (\<lambda>r. r_state r \<in> set CAPACITY_STATES) (db_runs s))"
      using same run_lifecycle.live_before [OF ok(4)] ok(3)
      by (intro row_upd_filter_length_mono) (auto simp: capacity_or_terminal)
    with I show ?thesis
      by (simp add: ok capacity_within_def moved_db_def count_runs_in_states_def row_upd_map)
  qed
qed (rule capacity_frame, assumption, simp add: append_agent_event_frame insert_frame)+

text \<open>Revisions only grow, so a revision that was consumed once cannot be expected again.\<close>

definition revision_floor :: "uuid \<Rightarrow> int \<Rightarrow> 'a agent_db_scheme \<Rightarrow> bool" where
  "revision_floor i k s \<longleftrightarrow> (\<forall>r \<in> set (db_runs s). r_id r = i \<longrightarrow> k \<le> r_revision r)"

lemma revision_floor_frame:
  "revision_floor i k s \<Longrightarrow> db_runs s' = db_runs s \<Longrightarrow> revision_floor i k s'"
  by (simp add: revision_floor_def)

interpretation revisions: growing_invariant "revision_floor j k" for j k
proof unfold_locales
  fix s :: "'a agent_db_scheme"
  assume I: "revision_floor j k s"
  show "revision_floor j k (snd (transition_run rid st n new t code s))" for rid st n new t code
  proof -
    have "k \<le> r_revision r + 1" if "r \<in> set (db_runs s)" "r_id r = j" for r
      using I that by (force simp: revision_floor_def)
    then show ?thesis
      using I by (cases rule: transition_run_cases [of rid st n new t code s])
        (auto simp: revision_floor_def moved_db_def row_upd_set)
  qed
qed (rule revision_floor_frame, assumption, simp add: append_agent_event_frame insert_frame)+

section \<open>Creation\<close>

lemma create_run_fresh:
  assumes "get_run_by_hash s0 h = None" and "get_run_by_hash (meanwhile s0) h = None"
    and "count_runs_in_states (meanwhile s0) CAPACITY_STATES < MAX_ACTIVE_RUNS"
    and "rc_project_id rq = None \<or> get_project (meanwhile s0) (the (rc_project_id rq)) \<noteq> None"
    and "\<forall>r \<in> set (db_runs (meanwhile s0)). r_id r < db_next_id (meanwhile s0)"
  shows "\<exists>run e. create_run meanwhile rq h fp t s0 =
      (Inr (run, True), (meanwhile s0)\<lparr>
         db_next_id := db_next_id (meanwhile s0) + 3,
         db_runs := db_runs (meanwhile s0) @ [run],
         db_events := db_events (meanwhile s0) @ [e]\<rparr>) \<and>
      run = (new_run rq h fp t (db_next_id (meanwhile s0)))\<lparr>r_id := Suc (db_next_id (meanwhile s0))\<rparr> \<and>
      ev_run_id e = r_id run \<and> ev_type e = ''agent_run.created'' \<and>
      ev_metadata e = change_meta None CREATED 0 \<and>
      ev_sequence e = max_sequence (run_events (meanwhile s0) (r_id run)) + 1"
proof -
  let ?s = "meanwhile s0"
  let ?c = "db_next_id ?s"
  let ?run = "(new_run rq h fp t ?c)\<lparr>r_id := Suc ?c\<rparr>"
  let ?s1 = "?s\<lparr>db_next_id := Suc ?c\<rparr>"
  let ?s2 = "add_agent_run ?run (?s1\<lparr>db_next_id := Suc (Suc ?c)\<rparr>)"
  let ?d = "event_draft (Suc ?c) ''agent_run.created'' ''agent_run_created'' ''agent run created''
     (change_meta None CREATED 0) ?c t"
  have ins: "create_agent_run (new_run rq h fp t ?c) ?s1 = (Inr ?run, ?s2)"
    using assms(2)
    by (simp add: create_agent_run_def uuid4_def Let_def get_run_by_hash_def new_run_def add_agent_run_def)
  have "get_agent_run ?s2 (Suc ?c) \<noteq> None"
    by (simp add: get_agent_run_def add_agent_run_def row_get_None_iff)
  then have ev: "append_agent_event ?d ?s2 = (Inr (logged_event ?d ?s2),
      ?s2\<lparr>db_next_id := Suc (db_next_id ?s2), db_events := db_events ?s2 @ [logged_event ?d ?s2]\<rparr>)"
    by (subst append_agent_event_draft_ok) simp_all
  have rid: "r_id ?run = Suc ?c" by simp
  have "create_run meanwhile rq h fp t s0 =
      andThen (create_agent_run (new_run rq h fp t ?c) ?s1) (\<lambda>run s2.
         andThen (append_agent_event (event_draft (r_id run) ''agent_run.created''
             ''agent_run_created'' ''agent run created'' (change_meta None CREATED 0) ?c t) s2)
           (\<lambda>_ s3. (Inr (run, True), s3)))"
    using assms(1-4) by (auto simp: create_run_def Let_def uuid4_def)
  also have "\<dots> = (Inr (?run, True),
      ?s2\<lparr>db_next_id := Suc (db_next_id ?s2), db_events := db_events ?s2 @ [logged_event ?d ?s2]\<rparr>)"
    unfolding ins andThen_simps rid ev ..
  finally show ?thesis
    by (intro exI [of _ ?run] exI [of _ "logged_event ?d ?s2"])
      (simp add: add_agent_run_def run_events_def)
qed

lemma create_run_cases:
  obtains (fail) err s where "create_run meanwhile rq h fp t s0 = (Inl err, s)"
      and "s = s0 \<or> s = meanwhile s0"
  | (replay) run s where "create_run meanwhile rq h fp t s0 = (Inr (run, False), s)"
      and "s = s0 \<or> s = meanwhile s0" and "get_run_by_hash s h = Some run" and "r_fingerprint run = fp"
  | (fresh) "get_run_by_hash s0 h = None" and "get_run_by_hash (meanwhile s0) h = None"
      and "count_runs_in_states (meanwhile s0) CAPACITY_STATES < MAX_ACTIVE_RUNS"
      and "rc_project_id rq = None \<or> get_project (meanwhile s0) (the (rc_project_id rq)) \<noteq> None"
proof (cases "get_run_by_hash s0 h")
  case (Some run)
  then have eq: "create_run meanwhile rq h fp t s0 = (replay_or_conflict run fp, s0)"
    by (simp add: create_run_def)
  show ?thesis
  proof (cases "r_fingerprint run = fp")
    case True
    with eq Some show ?thesis by (intro replay [of run s0]) (simp_all add: replay_or_conflict_def)
  next
    case False
    with eq show ?thesis by (intro fail [of IdempotencyConflictError s0]) (simp_all add: replay_or_conflict_def)
  qed
next
  case none: None
  show ?thesis
  proof (cases "get_run_by_hash (meanwhile s0) h")
    case (Some run)
    with none have eq: "create_run meanwhile rq h fp t s0 = (replay_or_conflict run fp, meanwhile s0)"
      by (simp add: create_run_def)
    show ?thesis
    proof (cases "r_fingerprint run = fp")
      case True
      with eq Some show ?thesis
        by (intro replay [of run "meanwhile s0"]) (simp_all add: replay_or_conflict_def)
    next
      case False
      with eq show ?thesis
        by (intro fail [of IdempotencyConflictError "meanwhile s0"]) (simp_all add: replay_or_conflict_def)
    qed
  next
    case None
    show ?thesis
    proof (cases "count_runs_in_states (meanwhile s0) CAPACITY_STATES < MAX_ACTIVE_RUNS \<and>
        (rc_project_id rq = None \<or> get_project (meanwhile s0) (the (rc_project_id rq)) \<noteq> None)")
      case True
      with none None show ?thesis by (intro fresh) simp_all
    next
      case False
      then have "\<exists>err. create_run meanwhile rq h fp t s0 = (Inl err, meanwhile s0)"
        using none None by (auto simp: create_run_def Let_def)
      then show ?thesis using fail by blast
    qed
  qed
qed

lemma log_ok_new_run:
  assumes "log_ok s" and "r_id run = Suc (db_next_id s)" and "r_state run = CREATED" "r_revision run = 0"
    and "ev_run_id e = r_id run" "ev_type e = ''agent_run.created''"
    and "ev_metadata e = change_meta None CREATED 0"
    and "ev_sequence e = max_sequence (run_events s (r_id run)) + 1"
  shows "log_ok (s\<lparr>db_next_id := db_next_id s + 3, db_runs := db_runs s @ [run],
      db_events := db_events s @ [e]\<rparr>)"
proof -
  let ?s' = "s\<lparr>db_next_id := db_next_id s + 3, db_runs := db_runs s @ [run],
      db_events := db_events s @ [e]\<rparr>"
  have old: "r_id r < db_next_id s" if "r \<in> set (db_runs s)" for r
    using assms(1) that by (simp add: log_ok_def)
  have none: "run_events s (r_id run) = []"
    using assms(1,2) old by (fastforce simp: log_ok_def run_events_def filter_empty_conv)
  have events: "run_events ?s' j = run_events s j @ (if j = r_id run then [e] else [])" for j
    using assms(5) by (auto simp: run_events_def)
  have trails: "trail ?s' j = trail s j @ (if j = r_id run then [change_meta None CREATED 0] else [])" for j
    using assms(6,7) by (auto simp: trail_def events lifecycle_event_def)
  have other: "r_id r \<noteq> r_id run" if "r \<in> set (db_runs s)" for r
    using old [OF that] assms(2) by simp
  have "trail_ok (rev (trail ?s' (r_id r))) (r_state r) (r_revision r) \<and> sequences_ok (run_events ?s' (r_id r))"
    if "r \<in> set (db_runs ?s')" for r
  proof (cases "r = run")
    case True
    then show ?thesis using assms(3,4,8) none
      by (simp add: trails events) (simp add: trail_def none sequences_ok_def max_sequence_def)
  next
    case False
    then show ?thesis using that assms(1) other by (simp add: trails events log_ok_def)
  qed
  moreover have "distinct (map r_id (db_runs ?s'))"
    using assms(1) other by (force simp: log_ok_def)
  moreover have "\<forall>r \<in> set (db_runs ?s'). r_id r < db_next_id ?s'"
    using assms(2) by (auto dest!: old)
  moreover have "\<forall>x \<in> set (db_events ?s'). ev_run_id x \<in> r_id ` set (db_runs ?s')"
    using assms(1,5) by (auto simp: log_ok_def)
  ultimately show ?thesis unfolding log_ok_def by blast
qed

lemma log_ok_create:
  assumes "log_ok s0" and "log_ok (meanwhile s0)"
  shows "log_ok (snd (create_run meanwhile rq h fp t s0))"
proof (cases rule: create_run_cases [of meanwhile rq h fp t s0])
  case (fail err s)
  with assms show ?thesis by auto
next
  case (replay run s)
  with assms show ?thesis by auto
next
  case fresh
  have "\<forall>r \<in> set (db_runs (meanwhile s0)). r_id r < db_next_id (meanwhile s0)"
    using assms(2) by (simp add: log_ok_def)
  from create_run_fresh [of s0 h meanwhile rq fp t, OF fresh this] obtain run e where
    eq: "create_run meanwhile rq h fp t s0 = (Inr (run, True), (meanwhile s0)\<lparr>
         db_next_id := db_next_id (meanwhile s0) + 3,
         db_runs := db_runs (meanwhile s0) @ [run],
         db_events := db_events (meanwhile s0) @ [e]\<rparr>)"
    and run: "run = (new_run rq h fp t (db_next_id (meanwhile s0)))\<lparr>r_id := Suc (db_next_id (meanwhile s0))\<rparr>"
    and e: "ev_run_id e = r_id run" "ev_type e = ''agent_run.created''"
      "ev_metadata e = change_meta None CREATED 0"
      "ev_sequence e = max_sequence (run_events (meanwhile s0) (r_id run)) + 1"
    by blast
  show ?thesis unfolding eq snd_conv
    by (rule log_ok_new_run [OF assms(2) _ _ _ e]) (simp_all add: run new_run_def)
qed

end
