(* ===== verification/Run_Properties.thy ===== *)
theory Run_Properties
  imports Run_Invariants
begin

text \<open>
  What the Run lifecycle service promises: the fenced transition, the database constraints it
  keeps, idempotent creation under concurrency, the capacity bound and complete cancellation.
\<close>

section \<open>Cancellation in closed form\<close>

lemma close_steps_eq:
  "close_steps t sts s = s\<lparr>db_steps := fold (\<lambda>st. if st_status st \<in> set OPEN_STEP
      then row_upd st_id (st_id st) (close_step STEP_CANCELLED t) else id) sts (db_steps s)\<rparr>"
  by (induction sts arbitrary: s) (simp_all add: upd_step_def)

lemma discard_invocations_ok:
  assumes "get_agent_run s (r_id run) \<noteq> None"
  shows "\<exists>s'. discard_invocations run t ivs s = (Inr (), s') \<and>
     db_invocations s' = fold (\<lambda>iv. if iv_status iv \<in> set OPEN_INVOCATION
        then row_upd iv_id (iv_id iv) (discard_invocation ''cancellation_discard'' t) else id)
        ivs (db_invocations s) \<and>
     db_runs s' = db_runs s \<and> db_steps s' = db_steps s"
  using assms
proof (induction ivs arbitrary: s)
  case Nil
  then show ?case by simp
next
  case (Cons iv ivs)
  show ?case
  proof (cases "iv_status iv \<in> set OPEN_INVOCATION")
    case False
    with Cons show ?thesis by simp
  next
    case True
    let ?d = "discard_invocation ''cancellation_discard'' t"
    let ?s1 = "upd_invocation (iv_id iv) ?d s"
    let ?e = "(event_draft (r_id run) ''tool_invocation.discarded'' ''cancellation_discard''
              ''tool invocation discarded'' (JObj [(''status'', JStr ''discarded'')])
              (r_correlation_id run) t)\<lparr>ev_invocation_id := Some (iv_id iv)\<rparr>"
    let ?s2 = "?s1\<lparr>db_next_id := Suc (db_next_id ?s1), db_events := db_events ?s1 @ [logged_event ?e ?s1]\<rparr>"
    have e: "ev_run_id ?e = r_id run" "ev_idempotency_hash ?e = None"
      by (simp_all add: event_draft_def)
    have "get_agent_run ?s1 (r_id run) \<noteq> None"
      using Cons.prems by (simp add: get_agent_run_def)
    then have ev: "append_agent_event ?e ?s1 = (Inr (logged_event ?e ?s1), ?s2)"
      by (subst append_agent_event_draft_ok) (simp_all add: e)
    have "get_agent_run ?s2 (r_id run) \<noteq> None"
      using Cons.prems by (simp add: get_agent_run_def)
    from Cons.IH [OF this] show ?thesis
      using True by (simp add: ev) (simp add: upd_invocation_def)
  qed
qed

definition no_open_work :: "'a agent_db_scheme \<Rightarrow> uuid \<Rightarrow> bool" where
  "no_open_work s rid \<longleftrightarrow>
     (\<forall>iv \<in> set (db_invocations s). iv_run_id iv = rid \<longrightarrow> iv_status iv \<notin> set OPEN_INVOCATION) \<and>
     (\<forall>st \<in> set (db_steps s). st_run_id st = rid \<longrightarrow> st_status st \<notin> set OPEN_STEP)"

text \<open>Every invocation belongs to an existing step, as the foreign key demands.\<close>

definition invocations_linked :: "'a agent_db_scheme \<Rightarrow> bool" where
  "invocations_linked s \<longleftrightarrow> (\<forall>iv \<in> set (db_invocations s). get_step s (iv_step_id iv) \<noteq> None)"

lemma discard_facts:
  "iv_id (discard_invocation c t x) = iv_id x"
  "iv_run_id (discard_invocation c t x) = iv_run_id x"
  "iv_status (discard_invocation c t x) = INV_DISCARDED"
  "discard_invocation c t (discard_invocation c t x) = discard_invocation c t x"
  by (simp_all add: discard_invocation_def or_now_def split: option.split)

lemma close_step_facts:
  "st_id (close_step status t x) = st_id x"
  "st_run_id (close_step status t x) = st_run_id x"
  "st_status (close_step status t x) = status"
  "close_step status t (close_step status t x) = close_step status t x"
  by (simp_all add: close_step_def or_now_def split: option.split)

lemma cancel_run_OK:
  assumes ok: "cancel_run rid n t s = (Inr run', s')"
    and live: "\<exists>run. get_agent_run s rid = Some run \<and> r_state run \<noteq> CANCELLED"
    and linked: "invocations_linked s"
  shows "no_open_work s' rid" and "r_state run' = CANCELLED"
    and "get_agent_run s' rid = Some run'"
proof -
  from live obtain run where run: "get_agent_run s rid = Some run" "r_state run \<noteq> CANCELLED" by blast
  have rid: "r_id run = rid" using run(1) by (rule runs.get_key)
  obtain s1 where s1: "discard_invocations run t (step_invocations s rid) s = (Inr (), s1)"
      "db_invocations s1 = fold (\<lambda>iv. if iv_status iv \<in> set OPEN_INVOCATION
        then row_upd iv_id (iv_id iv) (discard_invocation ''cancellation_discard'' t) else id)
        (step_invocations s rid) (db_invocations s)"
      "db_runs s1 = db_runs s" "db_steps s1 = db_steps s"
    using discard_invocations_ok [of s run t "step_invocations s rid"] run rid by auto
  let ?s2 = "close_steps t (run_steps s rid) s1"
  have tr: "transition_run rid (r_state run) n CANCELLED t None ?s2 = (Inr run', s')"
    using ok run rid s1 by (auto simp: cancel_run_def split: if_splits)
  then obtain old where old: "get_agent_run ?s2 rid = Some old" "run' = move_run CANCELLED t None old"
      "db_steps s' = db_steps ?s2" "db_invocations s' = db_invocations ?s2"
      "db_runs s' = row_upd r_id rid (move_run CANCELLED t None) (db_runs ?s2)"
    by (rule transition_run_OK)
  show "r_state run' = CANCELLED" using old by simp
  show "get_agent_run s' rid = Some run'"
    using old by (simp add: get_agent_run_def row_get_upd)
  have inv: "db_invocations s' = map (\<lambda>x. if \<exists>y \<in> set (step_invocations s rid).
        iv_status y \<in> set OPEN_INVOCATION \<and> iv_id y = iv_id x
        then discard_invocation ''cancellation_discard'' t x else x) (db_invocations s)"
    unfolding old(4) close_steps_eq
    by (simp add: s1(2), rule fold_row_upd) (simp_all add: discard_facts)
  have steps: "db_steps s' = map (\<lambda>x. if \<exists>y \<in> set (run_steps s rid).
        st_status y \<in> set OPEN_STEP \<and> st_id y = st_id x
        then close_step STEP_CANCELLED t x else x) (db_steps s)"
    unfolding old(3) close_steps_eq
    by (simp add: s1(4), rule fold_row_upd) (simp_all add: close_step_facts)
  have listed_iv: "iv \<in> set (step_invocations s rid)"
    if "iv \<in> set (db_invocations s)" "iv_run_id iv = rid" for iv
    using linked that by (simp add: step_invocations_def invocations_linked_def)
  have listed_st: "st \<in> set (run_steps s rid)" if "st \<in> set (db_steps s)" "st_run_id st = rid" for st
    using that by (simp add: run_steps_def)
  have closed: "INV_DISCARDED \<notin> set OPEN_INVOCATION" "STEP_CANCELLED \<notin> set OPEN_STEP"
    by (simp_all add: OPEN_INVOCATION_def OPEN_STEP_def)
  have "iv_status iv \<notin> set OPEN_INVOCATION" if "iv \<in> set (db_invocations s')" "iv_run_id iv = rid" for iv
    using that listed_iv closed unfolding inv by (fastforce simp: discard_facts split: if_splits)
  moreover have "st_status st \<notin> set OPEN_STEP" if "st \<in> set (db_steps s')" "st_run_id st = rid" for st
    using that listed_st closed unfolding steps by (fastforce simp: close_step_facts split: if_splits)
  ultimately show "no_open_work s' rid" by (simp add: no_open_work_def)
qed

section \<open>A concrete session\<close>

text \<open>A small session the witnesses run on: one Project and one Run in a given state.\<close>

definition example_hash :: string where
  "example_hash = replicate 64 CHR ''a''"

definition example_run :: "run_state \<Rightarrow> int \<Rightarrow> agent_run" where
  "example_run st n = (new_run \<lparr> rc_project_id = Some 1, rc_agent_kind = ''research'',
       rc_agent_version = ''1'', rc_goal_summary = ''goal'' \<rparr> example_hash example_hash 100 2)
     \<lparr>r_id := 3, r_state := st, r_revision := n\<rparr>"

definition example_step :: "uuid \<Rightarrow> int \<Rightarrow> step_status \<Rightarrow> agent_step" where
  "example_step i k status = \<lparr> st_id = i, st_run_id = 3, st_ordinal = k, st_purpose = ''read'',
     st_tool_name = Some ''memory.get'', st_tool_version = Some ''1'',
     st_normalized_input = JObj [], st_expected_evidence = [''e''],
     st_success_condition = ''ok'', st_stop_condition = ''stop'', st_status = status,
     st_created_at = 100, st_started_at = None, st_finished_at = None \<rparr>"

definition example_invocation :: "uuid \<Rightarrow> uuid \<Rightarrow> invocation_status \<Rightarrow> tool_invocation" where
  "example_invocation i sid status = \<lparr> iv_id = i, iv_run_id = 3, iv_step_id = sid, iv_attempt = 0,
     iv_tool_name = ''memory.get'', iv_tool_version = ''1'', iv_authority = ''read'',
     iv_validated_input_hash = example_hash, iv_validated_input = JObj [],
     iv_idempotency_key_hash = example_hash, iv_status = status, iv_safe_result_summary = None,
     iv_evidence_references = [], iv_safe_error_code = None, iv_reserved_at = 120,
     iv_started_at = Some 120, iv_finished_at = None \<rparr>"

definition example_db :: "agent_run list \<Rightarrow> agent_step list \<Rightarrow> tool_invocation list \<Rightarrow> agent_db" where
  "example_db rs sts ivs = \<lparr> db_next_id = 10, db_projects = [1], db_memories = [], db_runs = rs,
     db_steps = sts, db_invocations = ivs, db_approvals = [], db_events = [] \<rparr>"

section \<open>Properties\<close>

text \<open>A Run transition succeeds exactly when the row exists in the expected state at the
  expected revision, the edge is in the transition table, and an expiry is not claimed before the
  deadline of the state being left.\<close>

theorem transition_run_fenced:
  "(\<exists>run' s'. transition_run rid st n new t code s = (Inr run', s')) \<longleftrightarrow>
   (\<exists>run. get_agent_run s rid = Some run \<and> r_state run = st \<and> r_revision run = n \<and>
      legal_transition st new \<and> \<not> (new = EXPIRED \<and> t < transition_deadline run))"
proof
  assume "\<exists>run' s'. transition_run rid st n new t code s = (Inr run', s')"
  then show "\<exists>run. get_agent_run s rid = Some run \<and> r_state run = st \<and> r_revision run = n \<and>
      legal_transition st new \<and> \<not> (new = EXPIRED \<and> t < transition_deadline run)"
    by (elim exE transition_run_OK) auto
next
  assume "\<exists>run. get_agent_run s rid = Some run \<and> r_state run = st \<and> r_revision run = n \<and>
      legal_transition st new \<and> \<not> (new = EXPIRED \<and> t < transition_deadline run)"
  then obtain run where run: "get_agent_run s rid = Some run" "r_state run = st" "r_revision run = n"
    "legal_transition st new" "\<not> (new = EXPIRED \<and> t < transition_deadline run)" by blast
  have "\<not> (\<exists>err. transition_run rid st n new t code s = (Inl err, s))"
    using run runs.get_key [OF run(1)]
    by (auto simp: transition_run_def legal_transition_def append_agent_event_eq runs.get_upd)
  then show "\<exists>run' s'. transition_run rid st n new t code s = (Inr run', s')"
    by (cases rule: transition_run_cases [of rid st n new t code s]) auto
qed

text \<open>A refused transition leaves the session as it was. A granted one sets the new state,
  advances the revision by exactly one, touches no other row of any table and appends exactly one
  event, which records the edge taken and the resulting revision.\<close>

theorem transition_run_effect:
  assumes "transition_run rid st n new t code s = (res, s')"
  shows "case res of
      Inl err \<Rightarrow> s' = s
    | Inr run' \<Rightarrow> r_state run' = new \<and> r_revision run' = n + 1 \<and> r_updated_at run' = t \<and>
        get_agent_run s' rid = Some run' \<and>
        (\<forall>j. j \<noteq> rid \<longrightarrow> get_agent_run s' j = get_agent_run s j) \<and>
        db_steps s' = db_steps s \<and> db_invocations s' = db_invocations s \<and>
        db_approvals s' = db_approvals s \<and>
        (\<exists>e. db_events s' = db_events s @ [e] \<and> ev_run_id e = rid \<and>
           ev_type e = ''agent_run.state_changed'' \<and>
           ev_metadata e = change_meta (Some st) new (n + 1) \<and>
           ev_sequence e = max_sequence (run_events s rid) + 1)"
proof (cases rule: transition_run_cases [of rid st n new t code s])
  case (fail err)
  with assms show ?thesis by auto
next
  case (ok run)
  from ok(1) have rows: "get_agent_run (moved_db run new t code s) j =
      (if j = rid then Some (move_run new t code run) else get_agent_run s j)" for j
    using ok(2) by (simp add: get_agent_run_def moved_db_def row_get_upd)
  have "res = Inr (move_run new t code run)" "s' = moved_db run new t code s"
    using assms ok(7) by auto
  then show ?thesis
    using ok(2,3,5) by (simp add: rows) (simp add: moved_db_def move_run_def)
qed

theorem transition_run_effect_witness:
  "\<exists>s'. transition_run 3 CREATED 0 PLANNING 150 None (example_db [example_run CREATED 0] [] []) =
     (Inr (move_run PLANNING 150 None (example_run CREATED 0)), s') \<and>
     r_revision (move_run PLANNING 150 None (example_run CREATED 0)) = 0 + 1"
proof -
  let ?s = "example_db [example_run CREATED 0] [] []"
  have eq: "transition_run 3 CREATED 0 PLANNING 150 None ?s =
      (Inr (move_run PLANNING 150 None (example_run CREATED 0)),
       snd (transition_run 3 CREATED 0 PLANNING 150 None ?s))"
    by code_simp
  show ?thesis using transition_run_effect [OF eq] eq by auto
qed

text \<open>No transition can make the database reject the row: the CHECK constraints of
  \<open>agent_runs\<close> (ordered timestamps, a finish time exactly in terminal states, a non-negative
  revision) hold for the moved row whenever the clock has not gone back behind the row's own
  creation and start times.\<close>

theorem transition_keeps_run_checks:
  assumes "transition_run rid st n new t code s = (Inr run', s')"
    and "get_agent_run s rid = Some run" and "run_checks run"
    and "r_created_at run \<le> t" and "\<forall>u. r_started_at run = Some u \<longrightarrow> u \<le> t"
  shows "run_checks run'"
proof -
  from assms(1,2) have run': "run' = move_run new t code run" and leg: "legal_transition (r_state run) new"
    by (auto elim!: transition_run_OK)
  have "r_finished_at run = None"
    using assms(3) run_lifecycle.live_before [OF leg] by (simp add: run_checks_def)
  moreover have "new \<in> set ACTIVE_PROCESSING_STATES \<or> new \<in> set TERMINAL_STATES"
    using leg by (cases new; cases "r_state run")
      (auto simp: legal_transition_def ACTIVE_PROCESSING_STATES_def TERMINAL_STATES_def)
  ultimately show ?thesis
    using assms(3-5) unfolding run' run_checks_def move_run_def
    by (auto split: option.splits)
qed

theorem transition_keeps_run_checks_witness:
  "run_checks (move_run CANCELLED 150 None (example_run CREATED 0))"
proof -
  let ?s = "example_db [example_run CREATED 0] [] []"
  have eq: "transition_run 3 CREATED 0 CANCELLED 150 None ?s =
      (Inr (move_run CANCELLED 150 None (example_run CREATED 0)),
       snd (transition_run 3 CREATED 0 CANCELLED 150 None ?s))"
    by code_simp
  have row: "get_agent_run ?s 3 = Some (example_run CREATED 0)" by code_simp
  have checks: "run_checks (example_run CREATED 0)" by code_simp
  have fields: "r_created_at (example_run CREATED 0) = 100" "r_started_at (example_run CREATED 0) = None"
    by (simp_all add: example_run_def new_run_def)
  show ?thesis by (rule transition_keeps_run_checks [OF eq row checks]) (simp_all add: fields)
qed

text \<open>Run creation is idempotent per key: after a call returned a Run for a key, any later call
  with the same key returns that very Run, creates nothing and changes nothing if the request
  fingerprint is the same, and is refused with a conflict if it differs; this also covers a
  creator that committed while the call waited for the capacity lock.\<close>

theorem create_run_idempotent:
  assumes "create_run meanwhile rq h fp t s = (Inr (run, created), s')"
    and "\<forall>r \<in> set (db_runs (meanwhile s)). r_id r < db_next_id (meanwhile s)"
  shows "create_run later rq' h fp' t' s' =
     ((if fp' = fp then Inr (run, False) else Inl IdempotencyConflictError), s')"
proof -
  have "get_run_by_hash s' h = Some run \<and> r_fingerprint run = fp"
  proof (cases rule: create_run_cases [of meanwhile rq h fp t s])
    case (fail err u)
    with assms(1) show ?thesis by simp
  next
    case (replay run2 u)
    with assms(1) show ?thesis by auto
  next
    case fresh
    then show ?thesis
      using create_run_fresh [of s h meanwhile rq fp t, OF fresh assms(2)] assms(1)
      by (auto simp: get_run_by_hash_def new_run_def find_append split: option.splits)
  qed
  then show ?thesis by (auto simp: create_run_def replay_or_conflict_def)
qed

theorem create_run_idempotent_witness:
  "\<exists>run s'. create_run id (\<lparr> rc_project_id = Some 1, rc_agent_kind = ''manual'',
       rc_agent_version = ''1'', rc_goal_summary = ''g'' \<rparr>) example_hash ''fp'' 100
       (example_db [] [] []) = (Inr (run, True), s') \<and>
     create_run id (\<lparr> rc_project_id = None, rc_agent_kind = ''manual'',
       rc_agent_version = ''1'', rc_goal_summary = ''g'' \<rparr>) example_hash ''other'' 200 s' =
       (Inl IdempotencyConflictError, s')"
proof -
  let ?rq = "\<lparr> rc_project_id = Some 1, rc_agent_kind = ''manual'',
       rc_agent_version = ''1'', rc_goal_summary = ''g'' \<rparr>"
  let ?run = "(new_run ?rq example_hash ''fp'' 100 10)\<lparr>r_id := 11\<rparr>"
  have eq: "create_run id ?rq example_hash ''fp'' 100 (example_db [] [] []) =
      (Inr (?run, True), snd (create_run id ?rq example_hash ''fp'' 100 (example_db [] [] [])))"
    by code_simp
  show ?thesis
    using create_run_idempotent [OF eq, of id _ "''other''" 200] eq by (auto simp: example_db_def)
qed

text \<open>At most 32 Runs occupy capacity: if the bound holds before the call and in what other
  transactions committed while it waited for the lock, it holds afterwards, whether the call
  created a Run, replayed one or was refused.\<close>

theorem create_run_capacity:
  assumes "capacity_within MAX_ACTIVE_RUNS s" and "log_ok (meanwhile s)"
    and "capacity_within MAX_ACTIVE_RUNS (meanwhile s)"
  shows "capacity_within MAX_ACTIVE_RUNS (snd (create_run meanwhile rq h fp t s))"
proof (cases rule: create_run_cases [of meanwhile rq h fp t s])
  case (fail err u)
  with assms show ?thesis by auto
next
  case (replay run u)
  with assms show ?thesis by auto
next
  case fresh
  have bounded: "\<forall>r \<in> set (db_runs (meanwhile s)). r_id r < db_next_id (meanwhile s)"
    using assms(2) by (simp add: log_ok_def)
  show ?thesis
    using create_run_fresh [of s h meanwhile rq fp t, OF fresh bounded] fresh(3) assms(3) bounded
    by (force simp: capacity_within_def count_runs_in_states_def)
qed

theorem create_run_capacity_witness:
  "capacity_within MAX_ACTIVE_RUNS (snd (create_run id (\<lparr> rc_project_id = None,
     rc_agent_kind = ''manual'', rc_agent_version = ''1'', rc_goal_summary = ''g'' \<rparr>)
     example_hash ''fp'' 100 (example_db [] [] [])))"
  by (rule create_run_capacity)
    (simp_all add: capacity_within_def count_runs_in_states_def example_db_def log_ok_def)

text \<open>C1: Cancelling a live Run leaves nothing of it running: the Run is CANCELLED and no
  invocation of it is still reserved or running and no step still pending or running.\<close>

theorem cancel_run_closes_everything:
  assumes "cancel_run rid n t s = (Inr run', s')"
    and "get_agent_run s rid = Some run" and "r_state run \<noteq> CANCELLED"
    and "invocations_linked s"
  shows "get_agent_run s' rid = Some run' \<and> r_state run' = CANCELLED \<and> no_open_work s' rid"
  using cancel_run_OK [OF assms(1) _ assms(4)] assms(2,3) by blast

theorem cancel_run_closes_everything_witness:
  "no_open_work (snd (cancel_run 3 2 150 (example_db [example_run RUNNING 2]
     [example_step 4 0 STEP_RUNNING, example_step 5 1 STEP_PENDING]
     [example_invocation 6 4 INV_RUNNING]))) 3"
proof -
  let ?s = "example_db [example_run RUNNING 2]
     [example_step 4 0 STEP_RUNNING, example_step 5 1 STEP_PENDING]
     [example_invocation 6 4 INV_RUNNING]"
  have eq: "cancel_run 3 2 150 ?s = (Inr (move_run CANCELLED 150 None (example_run RUNNING 2)),
      snd (cancel_run 3 2 150 ?s))" by code_simp
  have row: "get_agent_run ?s 3 = Some (example_run RUNNING 2)" by code_simp
  have state: "r_state (example_run RUNNING 2) \<noteq> CANCELLED" by code_simp
  have linked: "invocations_linked ?s" by code_simp
  show ?thesis using cancel_run_closes_everything [OF eq row state linked] by blast
qed

end
