(* ===== verification/Run_Planning.thy ===== *)
theory Run_Planning
  imports Run_Properties
begin

text \<open>
  Planning (\<open>app/agent_planning/service.py\<close>): a Run is claimed for planning, the provider's
  proposal is validated step by step against the registry, the catalog of the Agent and the
  policy, and the accepted plan is frozen into pending steps in one transaction. The provider's
  answer is an input (\<open>None\<close> stands for an object that is no planning result); the schema
  library is the parameter \<open>lib\<close>.
\<close>

section \<open>The forbidden-request filter\<close>

text \<open>
  \<open>_FORBIDDEN_REQUEST\<close>: one of the verbs as a whole word, at most 40 characters other than a
  newline, one of the nouns as a whole word; case is ignored.
\<close>

definition FORBIDDEN_VERBS :: "string list" where
  "FORBIDDEN_VERBS = [''run'', ''execute'', ''invoke'', ''use'', ''open'', ''write'', ''modify'',
     ''install'', ''access'', ''connect'', ''query'']"

definition FORBIDDEN_NOUNS :: "string list" where
  "FORBIDDEN_NOUNS = [''sql'', ''shell'', ''powershell'', ''python'', ''filesystem'', ''file'',
     ''browser'', ''git'', ''dependency'', ''credential'', ''environment'', ''connector'',
     ''transaction'', ''http'', ''network'']"

definition is_word :: "char \<Rightarrow> bool" where
  "is_word c \<longleftrightarrow> (let n = of_char c :: nat in
     is_digit c \<or> is_lower c \<or> (65 \<le> n \<and> n \<le> 90) \<or> n = 95 \<or>
     n \<in> {170, 178, 179, 181, 185, 186, 188, 189, 190} \<or>
     (192 \<le> n \<and> n \<le> 255 \<and> n \<noteq> 215 \<and> n \<noteq> 247))"

definition lower :: "char \<Rightarrow> char" where
  "lower c = (let n = of_char c :: nat in if 65 \<le> n \<and> n \<le> 90 then char_of (n + 32) else c)"

definition word_char_at :: "string \<Rightarrow> nat \<Rightarrow> bool" where
  "word_char_at text i \<longleftrightarrow> i < length text \<and> is_word (text ! i)"

definition boundary :: "string \<Rightarrow> nat \<Rightarrow> bool" where
  "boundary text i \<longleftrightarrow> (0 < i \<and> word_char_at text (i - 1)) \<noteq> word_char_at text i"

definition word_at :: "string \<Rightarrow> string \<Rightarrow> nat \<Rightarrow> bool" where
  "word_at text w i \<longleftrightarrow> map lower (take (length w) (drop i text)) = w \<and>
     boundary text i \<and> boundary text (i + length w)"

definition forbidden_request :: "string \<Rightarrow> bool" where
  "forbidden_request text \<longleftrightarrow>
     list_ex (\<lambda>i. list_ex (\<lambda>verb. word_at text verb i \<and>
       list_ex (\<lambda>k. CHR 0x0A \<notin> set (take k (drop (i + length verb) text)) \<and>
           i + length verb + k \<le> length text \<and>
           list_ex (\<lambda>noun. word_at text noun (i + length verb + k)) FORBIDDEN_NOUNS)
         [0..<41]) FORBIDDEN_VERBS) [0..<length text]"

section \<open>Claims, proposals, validated steps\<close>

record planning_claim =
  pcl_run_id :: uuid
  pcl_goal_summary :: string
  pcl_project_id :: "uuid option"
  pcl_registry_version :: string
  pcl_policy_version :: string
  pcl_step_budget :: int
  pcl_tool_call_budget :: int
  pcl_retry_budget :: int
  pcl_planning_revision :: int
  pcl_agent_kind :: string
  pcl_agent_version :: string

record proposed_step =
  ps_purpose :: string
  ps_tool_name :: string
  ps_tool_version :: int
  ps_candidate_input :: json
  ps_expected_evidence :: "string list"
  ps_success_condition :: string
  ps_stop_condition :: string

record planning_result =
  pr_goal_summary :: string
  pr_steps :: "proposed_step list"

record validated_step =
  vs_ordinal :: nat
  vs_purpose :: string
  vs_tool_name :: string
  vs_tool_version :: int
  vs_normalized_input :: json
  vs_expected_evidence :: "string list"
  vs_success_condition :: string
  vs_stop_condition :: string

text \<open>
  The schema library: \<open>lib_parse\<close> is \<open>model_validate_json\<close> on JSON text, \<open>lib_validate\<close> is
  \<open>model_validate\<close> on a Python value, which is raw JSON data or the dump of a parsed instance.
\<close>

record schema_lib =
  lib_parse :: "schema_type \<Rightarrow> json \<Rightarrow> tool_input option"
  lib_validate :: "(json + tool_input) validator"

definition is_automatic_identity :: "string \<Rightarrow> string \<Rightarrow> bool" where
  "is_automatic_identity kind version \<longleftrightarrow>
     (kind, version) \<in> {(''daily_brief'', ''1''), (''project_watch'', ''1'')}"

text \<open>
  \<open>automatic_allowed_tools or (RESEARCH_TOOLS if \<dots> else (CURATOR_TOOLS if \<dots> else None))\<close>:
  an empty tuple counts as absent.
\<close>

definition allowed_tools ::
  "tool_identity list option \<Rightarrow> string \<Rightarrow> string \<Rightarrow> tool_identity list option" where
  "allowed_tools automatic kind version =
     (if automatic \<noteq> None \<and> automatic \<noteq> Some [] then automatic
      else if is_research kind version then Some RESEARCH_TOOLS
      else if is_curator kind version then Some CURATOR_TOOLS
      else None)"

section \<open>Claiming\<close>

definition is_complete_plan :: "agent_run \<Rightarrow> agent_step list \<Rightarrow> bool" where
  "is_complete_plan run sts \<longleftrightarrow>
     1 \<le> int (length sts) \<and> int (length sts) \<le> min (r_step_budget run) 12 \<and>
     map st_ordinal sts = map int [0..<length sts] \<and>
     list_all (\<lambda>st. st_status st = STEP_PENDING \<and> st_tool_name st \<noteq> None \<and> st_tool_name st \<noteq> Some []) sts"

definition planning_claim_of :: "agent_run \<Rightarrow> planning_claim" where
  "planning_claim_of run =
     \<lparr> pcl_run_id = r_id run, pcl_goal_summary = r_goal_summary run,
       pcl_project_id = r_project_id run, pcl_registry_version = r_registry_version run,
       pcl_policy_version = r_policy_version run, pcl_step_budget = r_step_budget run,
       pcl_tool_call_budget = r_tool_call_budget run, pcl_retry_budget = r_retry_budget run,
       pcl_planning_revision = r_revision run, pcl_agent_kind = r_agent_kind run,
       pcl_agent_version = r_agent_version run \<rparr>"

text \<open>\<open>None\<close> means that a complete ready plan is replayed.\<close>

definition claim_planning ::
  "uuid \<Rightarrow> int \<Rightarrow> tool_identity list option \<Rightarrow> instant \<Rightarrow> 'a agent_db_scheme
     \<Rightarrow> ('a agent_db_scheme, planning_claim option) outcome" where
  "claim_planning rid expected_revision automatic t s =
    (case get_agent_run s rid of
       None \<Rightarrow> (Inl AgentRunNotFoundError, s)
     | Some run \<Rightarrow>
        if (is_reserved_automation_agent_identity (r_agent_kind run) (r_agent_version run) \<or>
            is_automatic_identity (r_agent_kind run) (r_agent_version run)) \<and> automatic = None
          then (Inl AgentDefinitionUnsupportedError, s)
        else if r_state run = READY then
          (case list_agent_steps s rid 13 of
             Inl e \<Rightarrow> (Inl e, s)
           | Inr sts \<Rightarrow> if is_complete_plan run sts then (Inr None, s)
                       else (Inl AgentRunTransitionConflictError, s))
        else if r_revision run \<noteq> expected_revision then (Inl AgentRunRevisionConflictError, s)
        else if r_registry_version run \<noteq> REGISTRY_VERSION then (Inl AgentRunRegistryVersionError, s)
        else if is_unknown_research (r_agent_kind run) (r_agent_version run) \<or>
                is_unknown_curator (r_agent_kind run) (r_agent_version run)
          then (Inl AgentDefinitionUnsupportedError, s)
        else if r_state run \<noteq> CREATED then (Inl AgentRunTransitionConflictError, s)
        else andThen (transition_run rid CREATED expected_revision PLANNING t None s)
               (\<lambda>claimed s1. (Inr (Some (planning_claim_of claimed)), s1)))"

section \<open>Validating a proposal\<close>

definition step_texts :: "proposed_step \<Rightarrow> string list" where
  "step_texts st = ps_purpose st # ps_success_condition st # ps_stop_condition st #
     ps_expected_evidence st"

definition ps_identity :: "proposed_step \<Rightarrow> tool_identity" where
  "ps_identity st = (ps_tool_name st, ps_tool_version st)"

definition planning_context ::
  "planning_claim \<Rightarrow> nat \<Rightarrow> nat \<Rightarrow> bool \<Rightarrow> policy_context" where
  "planning_context claim calls per_tool available =
     \<lparr> pc_registry_version = pcl_registry_version claim, pc_project_scope = pcl_project_id claim,
       pc_tool_call_budget = pcl_tool_call_budget claim, pc_total_calls_reserved = int calls,
       pc_tool_calls_reserved = int per_tool, pc_provider_available = available,
       pc_operator_allowed = False \<rparr>"

text \<open>
  One iteration of the loop: \<open>used\<close> are the identities of the steps accepted so far (the
  counter), \<open>seen\<close> the signatures.
\<close>

definition validate_step ::
  "schema_lib \<Rightarrow> planning_claim \<Rightarrow> bool \<Rightarrow> tool_identity list option \<Rightarrow> tool_identity list
     \<Rightarrow> (string \<times> int \<times> string) list \<Rightarrow> nat \<Rightarrow> proposed_step
     \<Rightarrow> exn + (validated_step \<times> (string \<times> int \<times> string))" where
  "validate_step lib claim available allowed used seen ordinal st =
    (if list_ex forbidden_request (step_texts st) then Inl PlanningPolicyRejectedError
     else if allowed \<noteq> None \<and> ps_identity st \<notin> set (the allowed) then Inl PlanningPolicyRejectedError
     else
       case (case get_exact agent_tool_registry (ps_tool_name st) (ps_tool_version st) of
               None \<Rightarrow> Some (Inl (ps_candidate_input st))
             | Some d \<Rightarrow> map_option Inr (lib_parse lib (td_input_schema d) (ps_candidate_input st))) of
         None \<Rightarrow> Inl PlanningPolicyRejectedError
       | Some candidate \<Rightarrow>
          (case resolve_tool_policy agent_tool_registry (lib_validate lib) (ps_tool_name st)
                  (ps_tool_version st) ''read'' candidate
                  (planning_context claim ordinal
                     (length (filter (\<lambda>i. i = ps_identity st) used)) available) of
             Inl _ \<Rightarrow> Inl PlanningPolicyRejectedError
           | Inr resolved \<Rightarrow>
              let signature = (ps_tool_name st, ps_tool_version st,
                               dumps (rp_normalized_input resolved)) in
              if signature \<in> set seen then Inl PlanningPolicyRejectedError
              else Inr (\<lparr> vs_ordinal = ordinal, vs_purpose = ps_purpose st,
                          vs_tool_name = rp_name resolved, vs_tool_version = rp_version resolved,
                          vs_normalized_input = rp_normalized_input resolved,
                          vs_expected_evidence = ps_expected_evidence st,
                          vs_success_condition = ps_success_condition st,
                          vs_stop_condition = ps_stop_condition st \<rparr>, signature)))"

fun validate_steps ::
  "schema_lib \<Rightarrow> planning_claim \<Rightarrow> bool \<Rightarrow> tool_identity list option \<Rightarrow> tool_identity list
     \<Rightarrow> (string \<times> int \<times> string) list \<Rightarrow> nat \<Rightarrow> proposed_step list
     \<Rightarrow> exn + validated_step list" where
  "validate_steps lib claim available allowed used seen ordinal [] = Inr []"
| "validate_steps lib claim available allowed used seen ordinal (st # sts) =
    (case validate_step lib claim available allowed used seen ordinal st of
       Inl e \<Rightarrow> Inl e
     | Inr (v, signature) \<Rightarrow>
        (case validate_steps lib claim available allowed (ps_identity st # used) (signature # seen)
                (Suc ordinal) sts of
           Inl e \<Rightarrow> Inl e
         | Inr vs \<Rightarrow> Inr (v # vs)))"

definition validate_plan ::
  "schema_lib \<Rightarrow> planning_claim \<Rightarrow> planning_result option \<Rightarrow> bool \<Rightarrow> tool_identity list option
     \<Rightarrow> exn + validated_step list" where
  "validate_plan lib claim result available automatic =
    (case result of
       None \<Rightarrow> Inl PlanningOutputRejectedError
     | Some plan \<Rightarrow>
        if pr_goal_summary plan \<noteq> pcl_goal_summary claim then Inl PlanningOutputRejectedError
        else if \<not> (1 \<le> int (length (pr_steps plan)) \<and>
                   int (length (pr_steps plan)) \<le> min (pcl_step_budget claim) 12)
          then Inl PlanningOutputRejectedError
        else validate_steps lib claim available
               (allowed_tools automatic (pcl_agent_kind claim) (pcl_agent_version claim))
               [] [] 0 (pr_steps plan))"

section \<open>Freezing the plan\<close>

definition frozen_step :: "uuid \<Rightarrow> instant \<Rightarrow> validated_step \<Rightarrow> agent_step" where
  "frozen_step rid t v =
     \<lparr> st_id = 0, st_run_id = rid, st_ordinal = int (vs_ordinal v), st_purpose = vs_purpose v,
       st_tool_name = Some (vs_tool_name v), st_tool_version = Some (str_int (vs_tool_version v)),
       st_normalized_input = vs_normalized_input v, st_expected_evidence = vs_expected_evidence v,
       st_success_condition = vs_success_condition v, st_stop_condition = vs_stop_condition v,
       st_status = STEP_PENDING, st_created_at = t, st_started_at = None, st_finished_at = None \<rparr>"

fun insert_plan ::
  "uuid \<Rightarrow> instant \<Rightarrow> validated_step list \<Rightarrow> 'a agent_db_scheme
     \<Rightarrow> ('a agent_db_scheme, unit) outcome" where
  "insert_plan rid t [] s = (Inr (), s)"
| "insert_plan rid t (v # vs) s =
     andThen (insert_agent_step (frozen_step rid t v) s) (\<lambda>_ s1. insert_plan rid t vs s1)"

definition finalize_plan ::
  "planning_claim \<Rightarrow> validated_step list \<Rightarrow> instant \<Rightarrow> 'a agent_db_scheme
     \<Rightarrow> ('a agent_db_scheme, agent_run) outcome" where
  "finalize_plan claim vs t s =
    (case get_agent_run s (pcl_run_id claim) of
       None \<Rightarrow> (Inl AgentRunNotFoundError, s)
     | Some run \<Rightarrow>
        if r_state run \<noteq> PLANNING \<or> r_revision run \<noteq> pcl_planning_revision claim \<or>
           count_agent_steps s (r_id run) \<noteq> 0
          then (Inl AgentRunTransitionConflictError, s)
        else andThen (insert_plan (r_id run) t vs s) (\<lambda>_ s1.
               transition_run (r_id run) PLANNING (pcl_planning_revision claim) READY t None s1))"

definition finalize_failure ::
  "planning_claim \<Rightarrow> string \<Rightarrow> instant \<Rightarrow> 'a agent_db_scheme \<Rightarrow> ('a agent_db_scheme, bool) outcome" where
  "finalize_failure claim code t s =
    (case get_agent_run s (pcl_run_id claim) of
       None \<Rightarrow> (Inl AgentRunNotFoundError, s)
     | Some run \<Rightarrow>
        if r_state run \<noteq> PLANNING \<or> r_revision run \<noteq> pcl_planning_revision claim
          then (Inr False, s)
        else andThen (transition_run (r_id run) PLANNING (pcl_planning_revision claim) FAILED t
                        (Some code) s) (\<lambda>_ s1. (Inr True, s1)))"

definition get_frozen_plan ::
  "uuid \<Rightarrow> 'a agent_db_scheme \<Rightarrow> exn + (agent_run \<times> agent_step list)" where
  "get_frozen_plan rid s =
    (case get_agent_run s rid of
       None \<Rightarrow> Inl AgentRunNotFoundError
     | Some run \<Rightarrow>
        (case list_agent_steps s rid 13 of
           Inl e \<Rightarrow> Inl e
         | Inr sts \<Rightarrow> if r_state run \<noteq> READY \<or> \<not> is_complete_plan run sts
                     then Inl AgentRunTransitionConflictError
                     else Inr (run, sts)))"

section \<open>Invariants\<close>

context planning_invariant
begin

lemma claim_planning_keeps: "I s \<Longrightarrow> I (snd (claim_planning rid n automatic t s))"
  unfolding claim_planning_def
  by (auto intro!: write_andThen write_transition split: option.splits sum.splits)

lemma insert_plan_keeps: "I s \<Longrightarrow> I (snd (insert_plan rid t vs s))"
  by (induction vs arbitrary: s) (auto intro!: write_andThen write_new_step)

lemma finalize_plan_keeps: "I s \<Longrightarrow> I (snd (finalize_plan claim vs t s))"
  unfolding finalize_plan_def
  by (auto intro!: write_andThen insert_plan_keeps write_transition split: option.splits)

lemma finalize_failure_keeps: "I s \<Longrightarrow> I (snd (finalize_failure claim code t s))"
  unfolding finalize_failure_def
  by (auto intro!: write_andThen write_transition split: option.splits)

end

section \<open>What validation guarantees\<close>

definition vs_identity :: "validated_step \<Rightarrow> tool_identity" where
  "vs_identity v = (vs_tool_name v, vs_tool_version v)"

definition vs_signature :: "validated_step \<Rightarrow> string \<times> int \<times> string" where
  "vs_signature v = (vs_tool_name v, vs_tool_version v, dumps (vs_normalized_input v))"

definition occurrences :: "'k \<Rightarrow> 'k list \<Rightarrow> nat" where
  "occurrences k ks = length (filter (\<lambda>i. i = k) ks)"

lemma occurrences_simps [simp]:
  "occurrences k [] = 0"
  "occurrences k (x # ks) = (if x = k then Suc (occurrences k ks) else occurrences k ks)"
  by (simp_all add: occurrences_def)

lemma occurrences_0: "k \<notin> set ks \<Longrightarrow> occurrences k ks = 0"
  by (auto simp: occurrences_def filter_empty_conv)

text \<open>A step that may be planned: registered, in run scope, within the Agent's tools.\<close>

definition plannable :: "tool_identity list option \<Rightarrow> tool_identity \<Rightarrow> bool" where
  "plannable allowed i \<longleftrightarrow>
     (case get_exact agent_tool_registry (fst i) (snd i) of
        None \<Rightarrow> False | Some d \<Rightarrow> td_scope_mode d = EXACT_RUN_SCOPE) \<and>
     (case allowed of None \<Rightarrow> True | Some tools \<Rightarrow> i \<in> set tools)"

lemma validate_step_OK:
  assumes "validate_step lib claim av allowed used seen k st = Inr (v, sig)"
  shows "vs_ordinal v = k" "vs_identity v = ps_identity st" "sig = vs_signature v" "sig \<notin> set seen"
    "plannable allowed (vs_identity v)" "int k < pcl_tool_call_budget claim"
    "occurrences (vs_identity v) used < 5"
    "vs_purpose v = ps_purpose st" "\<not> forbidden_request (vs_purpose v)"
    "\<not> forbidden_request (vs_success_condition v)" "\<not> forbidden_request (vs_stop_condition v)"
    "\<not> list_ex forbidden_request (vs_expected_evidence v)"
proof -
  from assms obtain candidate resolved where
    clean: "\<not> list_ex forbidden_request (step_texts st)"
    and allowed: "allowed \<noteq> None \<longrightarrow> ps_identity st \<in> set (the allowed)"
    and res: "resolve_tool_policy agent_tool_registry (lib_validate lib) (ps_tool_name st)
        (ps_tool_version st) ''read'' candidate
        (planning_context claim k (length (filter (\<lambda>i. i = ps_identity st) used)) av) = Inr resolved"
    and v: "v = \<lparr> vs_ordinal = k, vs_purpose = ps_purpose st,
        vs_tool_name = rp_name resolved, vs_tool_version = rp_version resolved,
        vs_normalized_input = rp_normalized_input resolved,
        vs_expected_evidence = ps_expected_evidence st,
        vs_success_condition = ps_success_condition st,
        vs_stop_condition = ps_stop_condition st \<rparr>"
    and sig: "sig = (ps_tool_name st, ps_tool_version st, dumps (rp_normalized_input resolved))"
      "sig \<notin> set seen"
    by (auto simp: validate_step_def Let_def split: if_splits option.splits sum.splits)
  have ident: "(rp_name resolved, rp_version resolved) = (ps_tool_name st, ps_tool_version st)"
    using resolve_identity [OF res agent_registry_defs(2)] .
  from res obtain d where d: "get_exact agent_tool_registry (ps_tool_name st) (ps_tool_version st) = Some d"
    and scope: "td_scope_mode d = OPERATOR_AGGREGATE \<longrightarrow> False"
    and budget: "int k < pcl_tool_call_budget claim"
    and calls: "int (occurrences (ps_identity st) used) < td_calls_per_run d"
    by (auto simp: resolve_Inr_iff planning_context_def occurrences_def)
  have "td_calls_per_run d \<le> 5"
    using agent_get_exact_known [OF d] by (simp add: validate_tool_OK_iff MAX_CALLS_PER_RUN_def)
  then show "occurrences (vs_identity v) used < 5"
    using calls ident by (simp add: v vs_identity_def ps_identity_def)
  have "td_scope_mode d = EXACT_RUN_SCOPE" using scope by (cases "td_scope_mode d") auto
  then show "plannable allowed (vs_identity v)"
    using d allowed ident
    by (auto simp: plannable_def v vs_identity_def ps_identity_def split: option.splits)
  show "vs_ordinal v = k" "vs_identity v = ps_identity st" "sig = vs_signature v" "sig \<notin> set seen"
    "int k < pcl_tool_call_budget claim" "vs_purpose v = ps_purpose st"
    using ident sig budget by (simp_all add: v vs_identity_def ps_identity_def vs_signature_def)
  show "\<not> forbidden_request (vs_purpose v)"
    "\<not> forbidden_request (vs_success_condition v)" "\<not> forbidden_request (vs_stop_condition v)"
    "\<not> list_ex forbidden_request (vs_expected_evidence v)"
    using clean by (simp_all add: v step_texts_def)
qed

definition clean_step :: "validated_step \<Rightarrow> bool" where
  "clean_step v \<longleftrightarrow> \<not> list_ex forbidden_request
     (vs_purpose v # vs_success_condition v # vs_stop_condition v # vs_expected_evidence v)"

lemma validate_steps_OK:
  assumes "validate_steps lib claim av allowed used seen k sts = Inr vs"
  shows "length vs = length sts \<and> map vs_ordinal vs = [k..<k + length vs] \<and>
    list_all (\<lambda>v. plannable allowed (vs_identity v) \<and> clean_step v) vs \<and>
    (vs \<noteq> [] \<longrightarrow> int (k + length vs) \<le> pcl_tool_call_budget claim) \<and>
    distinct (map vs_signature vs) \<and> set (map vs_signature vs) \<inter> set seen = {} \<and>
    (\<forall>i \<in> vs_identity ` set vs. occurrences i used + occurrences i (map vs_identity vs) \<le> 5)"
  using assms
proof (induction sts arbitrary: used seen k vs)
  case Nil
  then show ?case by simp
next
  case (Cons st sts)
  from Cons.prems obtain v sig ws where
    v: "validate_step lib claim av allowed used seen k st = Inr (v, sig)"
    and ws: "validate_steps lib claim av allowed (ps_identity st # used) (sig # seen) (Suc k) sts = Inr ws"
    and vs: "vs = v # ws"
    by (auto split: sum.splits)
  note one = validate_step_OK [OF v]
  note rest = Cons.IH [OF ws]
  have ordinals: "map vs_ordinal vs = [k..<k + length vs]"
    using rest one(1) unfolding vs by (simp add: upt_conv_Cons del: upt_Suc)
  have count: "occurrences i used + occurrences i (map vs_identity vs) \<le> 5"
    if i: "i \<in> vs_identity ` set vs" for i
  proof (cases "i \<in> vs_identity ` set ws")
    case True
    with rest have "occurrences i (ps_identity st # used) + occurrences i (map vs_identity ws) \<le> 5" by blast
    then show ?thesis using one(2) by (auto simp: vs)
  next
    case False
    with i have "i = vs_identity v" by (auto simp: vs)
    with False one(7) show ?thesis by (simp add: vs occurrences_0)
  qed
  have budget: "int (k + length vs) \<le> pcl_tool_call_budget claim"
    using rest one(6) by (cases ws) (auto simp: vs)
  have shape: "length vs = length (st # sts)" "distinct (map vs_signature vs)"
    "set (map vs_signature vs) \<inter> set seen = {}"
    using rest one(3,4) by (auto simp: vs)
  have good: "list_all (\<lambda>v. plannable allowed (vs_identity v) \<and> clean_step v) vs"
    using rest one(5,9-12) by (simp add: vs clean_step_def)
  show ?case using ordinals count budget shape good by simp
qed

lemma validate_plan_OK:
  assumes "validate_plan lib claim res av automatic = Inr vs"
  defines "allowed \<equiv> allowed_tools automatic (pcl_agent_kind claim) (pcl_agent_version claim)"
  shows "1 \<le> length vs" "int (length vs) \<le> min (pcl_step_budget claim) 12"
    "map vs_ordinal vs = [0..<length vs]" "int (length vs) \<le> pcl_tool_call_budget claim"
    "list_all (\<lambda>v. plannable allowed (vs_identity v) \<and> clean_step v) vs"
    "distinct (map vs_signature vs)"
    "\<forall>i \<in> vs_identity ` set vs. occurrences i (map vs_identity vs) \<le> 5"
proof -
  obtain plan where plan: "res = Some plan" using assms(1) by (cases res) (simp_all add: validate_plan_def)
  have len: "1 \<le> int (length (pr_steps plan))" "int (length (pr_steps plan)) \<le> min (pcl_step_budget claim) 12"
    and ok: "validate_steps lib claim av allowed [] [] 0 (pr_steps plan) = Inr vs"
    using assms(1) by (simp_all add: validate_plan_def plan allowed_def split: if_splits)
  note all = validate_steps_OK [OF ok]
  show "1 \<le> length vs" "int (length vs) \<le> min (pcl_step_budget claim) 12" using all len by auto
  show "map vs_ordinal vs = [0..<length vs]" "distinct (map vs_signature vs)"
    "list_all (\<lambda>v. plannable allowed (vs_identity v) \<and> clean_step v) vs" using all by simp_all
  show "int (length vs) \<le> pcl_tool_call_budget claim" using all len by (cases vs) auto
  show "\<forall>i \<in> vs_identity ` set vs. occurrences i (map vs_identity vs) \<le> 5" using all by simp
qed

section \<open>The frozen plan in closed form\<close>

definition planned_steps ::
  "uuid \<Rightarrow> instant \<Rightarrow> uuid \<Rightarrow> validated_step list \<Rightarrow> agent_step list" where
  "planned_steps rid t i vs =
     map2 (\<lambda>j v. (frozen_step rid t v)\<lparr>st_id := j\<rparr>) [i..<i + length vs] vs"

lemma planned_steps_Cons:
  "planned_steps rid t i (v # vs) =
     (frozen_step rid t v)\<lparr>st_id := i\<rparr> # planned_steps rid t (Suc i) vs"
  by (simp add: planned_steps_def upt_rec [of i] del: upt_Suc)

lemma planned_steps_Nil [simp]: "planned_steps rid t i [] = []"
  by (simp add: planned_steps_def)

lemma planned_steps_length [simp]: "length (planned_steps rid t i vs) = length vs"
  by (simp add: planned_steps_def)

lemma planned_steps_ordinals:
  "map st_ordinal (planned_steps rid t i vs) = map int (map vs_ordinal vs)"
  by (induction vs arbitrary: i) (simp_all add: planned_steps_Cons frozen_step_def)

lemma planned_steps_rows:
  "st \<in> set (planned_steps rid t i vs) \<Longrightarrow>
     st_run_id st = rid \<and> st_status st = STEP_PENDING \<and> st_tool_name st \<in> Some ` vs_tool_name ` set vs"
  by (induction vs arbitrary: i) (auto simp: planned_steps_Cons frozen_step_def)

lemma insert_plan_OK:
  assumes "get_agent_run s rid \<noteq> None" and "map vs_ordinal vs = [k..<k + length vs]"
    and "\<forall>st \<in> set (db_steps s). st_run_id st = rid \<longrightarrow> st_ordinal st < int k"
  shows "insert_plan rid t vs s = (Inr (), s\<lparr>db_next_id := db_next_id s + length vs,
     db_steps := db_steps s @ planned_steps rid t (db_next_id s) vs\<rparr>)"
  using assms
proof (induction vs arbitrary: s k)
  case Nil
  then show ?case by simp
next
  case (Cons v vs)
  let ?st = "(frozen_step rid t v)\<lparr>st_id := db_next_id s\<rparr>"
  let ?s1 = "s\<lparr>db_next_id := Suc (db_next_id s), db_steps := db_steps s @ [?st]\<rparr>"
  from Cons.prems(2) have v: "vs_ordinal v = k" and ords: "map vs_ordinal vs = [Suc k..<Suc k + length vs]"
    by (auto simp: upt_rec [of k] simp del: upt_Suc)
  have "get_step_by_ordinal s rid (int k) = None"
    using Cons.prems(3) by (auto simp: get_step_by_ordinal_def find_None_iff)
  then have ins: "insert_agent_step (frozen_step rid t v) s = (Inr ?st, ?s1)"
    using Cons.prems(1) v
    by (simp add: insert_agent_step_def frozen_step_def uuid4_def add_step_def Let_def)
  have "\<forall>st \<in> set (db_steps ?s1). st_run_id st = rid \<longrightarrow> st_ordinal st < int (Suc k)"
    using Cons.prems(3) v by (auto simp: frozen_step_def)
  from Cons.IH [OF _ ords this] Cons.prems(1) show ?case
    by (simp add: ins planned_steps_Cons get_agent_run_def)
qed

lemma claim_planning_OK:
  assumes "claim_planning rid n automatic t s = (Inr (Some claim), s1)"
  obtains run where "get_agent_run s rid = Some run" "r_state run = CREATED" "r_revision run = n"
    "r_registry_version run = REGISTRY_VERSION"
    "claim = planning_claim_of (move_run PLANNING t None run)" "s1 = moved_db run PLANNING t None s"
    "automatic = None \<longrightarrow> \<not> is_automatic_identity (r_agent_kind run) (r_agent_version run)"
proof -
  obtain run where run: "get_agent_run s rid = Some run"
    and tr: "andThen (transition_run rid CREATED n PLANNING t None s)
         (\<lambda>claimed s1. (Inr (Some (planning_claim_of claimed)), s1)) = (Inr (Some claim), s1)"
    and reg: "r_registry_version run = REGISTRY_VERSION"
    and auto: "automatic = None \<longrightarrow> \<not> is_automatic_identity (r_agent_kind run) (r_agent_version run)"
    using assms by (auto simp: claim_planning_def split: option.splits if_splits sum.splits)
  from tr obtain moved where "transition_run rid CREATED n PLANNING t None s = (Inr moved, s1)"
    and "claim = planning_claim_of moved"
    by (auto simp: andThen_Inr_iff)
  then show ?thesis using run reg auto that
    by (elim transition_run_OK) simp_all
qed

lemma run_steps_count: "count_agent_steps s rid = length (run_steps s rid)"
  by (simp add: count_agent_steps_def run_steps_def)

lemma run_steps_Nil_iff: "run_steps s rid = [] \<longleftrightarrow> (\<forall>st \<in> set (db_steps s). st_run_id st \<noteq> rid)"
  by (metis (mono_tags, lifting) run_steps_def filter_empty_conv length_0_conv length_sort)

lemma sorted_ordinals:
  "map st_ordinal sts = map int [0..<n] \<Longrightarrow> sorted (map (\<lambda>st. (st_ordinal st, st_id st)) sts)"
proof -
  assume eq: "map st_ordinal sts = map int [0..<n]"
  have len: "length sts = n" using arg_cong [OF eq, of length] by simp
  have at: "st_ordinal (sts ! i) = int i" if "i < n" for i
    using arg_cong [OF eq, of "\<lambda>xs. xs ! i"] that len by simp
  show ?thesis
    unfolding sorted_iff_nth_mono_less by (simp add: len at less_eq_prod_def)
qed

section \<open>Properties\<close>

text \<open>A proposal that validates is safe to freeze: between one and twelve steps, within the
  step budget and the Tool-call budget of the Run; ordinals 0, 1, 2, ...; every step names a
  registered Tool in exact-run scope that is in the Agent's allowed list; no identity occurs more
  than five times; no two steps have the same Tool and canonical input; and no text of a step
  matches the forbidden-request filter.\<close>

theorem validate_plan_sound:
  assumes "validate_plan lib claim res av automatic = Inr vs"
  shows "1 \<le> length vs \<and> int (length vs) \<le> min (pcl_step_budget claim) 12 \<and>
    int (length vs) \<le> pcl_tool_call_budget claim \<and> map vs_ordinal vs = [0..<length vs] \<and>
    list_all (\<lambda>v. plannable (allowed_tools automatic (pcl_agent_kind claim) (pcl_agent_version claim))
        (vs_identity v) \<and> clean_step v) vs \<and>
    distinct (map vs_signature vs) \<and>
    (\<forall>i. occurrences i (map vs_identity vs) \<le> 5)"
proof -
  note facts = validate_plan_OK [OF assms]
  have "occurrences i (map vs_identity vs) \<le> 5" for i
    using facts(7) by (cases "i \<in> set (map vs_identity vs)") (auto simp: occurrences_0)
  with facts show ?thesis by blast
qed

text \<open>The witnesses validate a one-step plan of the research Agent with a schema library that
  accepts one identifier.\<close>

definition example_lib :: schema_lib where
  "example_lib = \<lparr> lib_parse = (\<lambda>sch j. if schema_name sch = ''MemoryGetInput'' then Some (MemoryGetInput 7) else None),
     lib_validate = (\<lambda>sch c. case c of Inr v \<Rightarrow> Some v | Inl _ \<Rightarrow> None) \<rparr>"

definition example_claim :: planning_claim where
  "example_claim = planning_claim_of (move_run PLANNING 150 None (example_run CREATED 0))"

definition example_result :: planning_result where
  "example_result = \<lparr> pr_goal_summary = ''goal'', pr_steps =
     [\<lparr> ps_purpose = ''read'', ps_tool_name = ''memory.get'', ps_tool_version = 1,
        ps_candidate_input = JObj [], ps_expected_evidence = [''e''],
        ps_success_condition = ''ok'', ps_stop_condition = ''stop'' \<rparr>] \<rparr>"

definition example_validated :: validated_step where
  "example_validated = \<lparr> vs_ordinal = 0, vs_purpose = ''read'', vs_tool_name = ''memory.get'',
     vs_tool_version = 1, vs_normalized_input = tool_input_json (MemoryGetInput 7),
     vs_expected_evidence = [''e''], vs_success_condition = ''ok'', vs_stop_condition = ''stop'' \<rparr>"

lemma example_validates:
  "validate_plan example_lib example_claim (Some example_result) False None = Inr [example_validated]"
  by code_simp

theorem validate_plan_sound_witness:
  "int (length [example_validated]) \<le> pcl_tool_call_budget example_claim"
  using validate_plan_sound [OF example_validates] by blast

text \<open>Planning a freshly claimed Run with any proposal that validates against the claim cannot
  be refused: the plan is frozen, the Run is READY, and reading the frozen plan back returns
  exactly the accepted steps, in order, pending, with nothing of them changed.\<close>

theorem planning_freezes_the_plan:
  assumes "claim_planning rid n automatic t s = (Inr (Some claim), s1)"
    and "count_agent_steps s rid = 0"
    and "validate_plan lib claim res av automatic = Inr vs"
  shows "\<exists>run s2. finalize_plan claim vs t' s1 = (Inr run, s2) \<and> r_state run = READY \<and>
     r_revision run = n + 2 \<and>
     get_frozen_plan rid s2 = Inr (run, planned_steps rid t' (db_next_id s1) vs)"
proof -
  from assms(1) obtain run where run: "get_agent_run s rid = Some run" "r_state run = CREATED"
      "r_revision run = n" and claim: "claim = planning_claim_of (move_run PLANNING t None run)"
    and s1: "s1 = moved_db run PLANNING t None s"
    by (rule claim_planning_OK)
  have rid: "r_id run = rid" using run(1) by (rule runs.get_key)
  note valid = validate_plan_OK [OF assms(3)]
  let ?run1 = "move_run PLANNING t None run"
  let ?run2 = "move_run READY t' None ?run1"
  let ?new = "planned_steps rid t' (db_next_id s1) vs"
  let ?s2 = "s1\<lparr>db_next_id := db_next_id s1 + length vs, db_steps := db_steps s1 @ ?new\<rparr>"
  have run1: "get_agent_run s1 rid = Some ?run1"
    using run(1) rid by (simp add: s1 moved_db_def get_agent_run_def row_get_upd)
  have none: "run_steps s1 rid = []" "\<forall>st \<in> set (db_steps s1). st_run_id st \<noteq> rid"
    using assms(2) by (simp_all add: s1 moved_db_def run_steps_count run_steps_Nil_iff)
  have ins: "insert_plan rid t' vs s1 = (Inr (), ?s2)"
    using insert_plan_OK [of s1 rid vs 0 t'] run1 none(2) valid(3) by simp
  have run2: "get_agent_run ?s2 rid = Some ?run1"
    using run1 by (simp add: get_agent_run_def)
  have tr: "transition_run rid PLANNING (n + 1) READY t' None ?s2 =
      (Inr ?run2, moved_db ?run1 READY t' None ?s2)"
    using run2 run(3)
    by (cases rule: transition_run_cases [of rid PLANNING "n + 1" READY t' None ?s2])
      (auto simp: transition_run_def append_agent_event_eq runs.get_upd)
  have fin: "finalize_plan claim vs t' s1 = (Inr ?run2, moved_db ?run1 READY t' None ?s2)"
    using run1 none(1) run(3) rid ins tr
    by (simp add: finalize_plan_def claim planning_claim_of_def run_steps_count)
  let ?s3 = "moved_db ?run1 READY t' None ?s2"
  have run3: "get_agent_run ?s3 rid = Some ?run2"
    using run2 rid by (simp add: moved_db_def get_agent_run_def row_get_upd)
  have ords: "map st_ordinal ?new = map int [0..<length vs]"
    by (simp add: planned_steps_ordinals valid(3))
  have "filter (\<lambda>st. st_run_id st = rid) (db_steps s1) = []"
    using none(2) by (simp add: filter_empty_conv)
  moreover have "filter (\<lambda>st. st_run_id st = rid) ?new = ?new"
    by (rule filter_True) (use planned_steps_rows in blast)
  ultimately have "run_steps ?s3 rid = ?new"
    using sorted_ordinals [OF ords]
    by (simp add: run_steps_def moved_db_def sort_key_id_if_sorted)
  then have listed: "list_agent_steps ?s3 rid 13 = Inr ?new"
    using run3 valid(2) by (simp add: list_agent_steps_def)
  have named: "v \<in> set vs \<Longrightarrow> vs_tool_name v \<noteq> []" for v
    using valid(5) by (auto simp: list_all_iff plannable_def vs_identity_def get_exact_def
        split: option.splits)
  have "list_all (\<lambda>st. st_status st = STEP_PENDING \<and> st_tool_name st \<noteq> None \<and> st_tool_name st \<noteq> Some []) ?new"
    unfolding list_all_iff using planned_steps_rows named by fastforce
  then have "is_complete_plan ?run2 ?new"
    using valid(1,2) ords by (simp add: is_complete_plan_def claim planning_claim_of_def)
  then have "get_frozen_plan rid ?s3 = Inr (?run2, ?new)"
    using run3 listed by (simp add: get_frozen_plan_def)
  then show ?thesis using fin run(3) by auto
qed

theorem planning_freezes_the_plan_witness:
  "\<exists>run s2. finalize_plan example_claim [example_validated] 160
      (snd (claim_planning 3 0 None 150 (example_db [example_run CREATED 0] [] []))) = (Inr run, s2) \<and>
     r_state run = READY"
proof -
  let ?s = "example_db [example_run CREATED 0] [] []"
  have claim: "claim_planning 3 0 None 150 ?s = (Inr (Some example_claim), snd (claim_planning 3 0 None 150 ?s))"
    by code_simp
  have none: "count_agent_steps ?s 3 = 0" by code_simp
  show ?thesis using planning_freezes_the_plan [OF claim none example_validates, of 160] by blast
qed

text \<open>The operator's planning endpoint, which grants no automatic Tool list, never claims a Run
  of an automation Agent: the call is refused and the session unchanged.\<close>

theorem planning_refuses_automation_agents:
  assumes "get_agent_run s rid = Some run"
    and "r_agent_kind run \<in> {''daily_brief'', ''project_watch''}"
  shows "claim_planning rid n None t s = (Inl AgentDefinitionUnsupportedError, s)"
  using assms by (auto simp: claim_planning_def is_automatic_identity_def
      is_reserved_automation_agent_identity_def is_reserved_automation_agent_kind_def
      RESERVED_AUTOMATION_AGENT_KINDS_def IMPLEMENTED_AUTOMATION_AGENT_IDENTITIES_def)

theorem planning_refuses_automation_agents_witness:
  "fst (claim_planning 3 0 None 150 (example_db [(example_run CREATED 0)\<lparr>r_agent_kind := ''daily_brief''\<rparr>] [] []))
     = Inl AgentDefinitionUnsupportedError"
proof -
  let ?run = "(example_run CREATED 0)\<lparr>r_agent_kind := ''daily_brief''\<rparr>"
  have row: "get_agent_run (example_db [?run] [] []) 3 = Some ?run" by code_simp
  show ?thesis using planning_refuses_automation_agents [OF row, of 0 150] by simp
qed

end
