(* ===== verification/Run_Executor.thy ===== *)
theory Run_Executor
  imports Run_Planning
begin

text \<open>
  Bounded execution of one frozen plan (\<open>app/agent_runs/executor.py\<close>) and the exact Tool dispatch
  (\<open>dispatch_exact\<close> of \<open>app/agent_tools/dispatch.py\<close>). Clock readings are parameters, in the order
  the code takes them; the SHA-256 digest is \<open>sha\<close>, the schema library \<open>lib\<close>; the body of the
  five handlers is the parameter \<open>handle\<close>. A Tool output is its JSON dump. The fault hooks of
  \<open>faults.py\<close> do nothing outside the tests and are left out.
\<close>

section \<open>Retry classification\<close>

datatype retry_class = NEVER | SAFE_TRANSIENT_READ | AMBIGUOUS_MANUAL_RECOVERY

definition TRANSIENT_READ_CODES :: "string list" where
  "TRANSIENT_READ_CODES = [''tool_timeout'', ''tool_provider_unavailable'', ''tool_provider_failed'']"

fun idempotency_value :: "idempotency_class \<Rightarrow> string" where
  "idempotency_value PURE_READ = ''pure_read''"

definition classify_retry :: "string option \<Rightarrow> string \<Rightarrow> string \<Rightarrow> retry_class" where
  "classify_retry code authority idempotency =
    (if code \<in> Some ` set TRANSIENT_READ_CODES then
       if authority = ''read'' \<and> idempotency = ''pure_read'' then SAFE_TRANSIENT_READ
       else AMBIGUOUS_MANUAL_RECOVERY
     else NEVER)"

section \<open>Claiming\<close>

record execution_claim =
  xc_run_id :: uuid
  xc_project_scope :: "uuid option"
  xc_registry_version :: string
  xc_tool_call_budget :: int
  xc_agent_kind :: string
  xc_agent_version :: string
  xc_goal_summary :: string

definition execution_claim_of :: "agent_run \<Rightarrow> execution_claim" where
  "execution_claim_of run =
     \<lparr> xc_run_id = r_id run, xc_project_scope = r_project_id run,
       xc_registry_version = r_registry_version run, xc_tool_call_budget = r_tool_call_budget run,
       xc_agent_kind = r_agent_kind run, xc_agent_version = r_agent_version run,
       xc_goal_summary = r_goal_summary run \<rparr>"

definition meta_get :: "json \<Rightarrow> string \<Rightarrow> json option" where
  "meta_get m key = (case m of JObj kvs \<Rightarrow> map_of kvs key | _ \<Rightarrow> None)"

text \<open>
  The revision the first READY to RUNNING event consumed, among the first 1000 events. Only an
  \<open>int\<close> counts (a Python \<open>bool\<close> is one).
\<close>

definition is_start_event :: "agent_event \<Rightarrow> bool" where
  "is_start_event e \<longleftrightarrow> ev_type e = ''agent_run.state_changed'' \<and>
     meta_get (ev_metadata e) ''previous_state'' = Some (JStr (state_value READY)) \<and>
     meta_get (ev_metadata e) ''new_state'' = Some (JStr (state_value RUNNING))"

definition original_claim_revision :: "'a agent_db_scheme \<Rightarrow> uuid \<Rightarrow> exn + int option" where
  "original_claim_revision s rid =
    (case list_agent_events s rid 1000 of
       Inl e \<Rightarrow> Inl e
     | Inr events \<Rightarrow> Inr (case find is_start_event events of
           None \<Rightarrow> None
         | Some e \<Rightarrow> (case meta_get (ev_metadata e) ''resulting_revision'' of
               Some (JInt n) \<Rightarrow> Some (n - 1)
             | Some (JBool b) \<Rightarrow> Some (if b then 0 else - 1)
             | _ \<Rightarrow> None)))"

definition valid_step_tool ::
  "tool_identity list option \<Rightarrow> agent_run \<Rightarrow> agent_step \<Rightarrow> bool" where
  "valid_step_tool automatic run st \<longleftrightarrow>
    (case py_int (case st_tool_version st of None \<Rightarrow> [] | Some v \<Rightarrow> v) of
       None \<Rightarrow> False
     | Some version \<Rightarrow>
        (case st_tool_name st of
           None \<Rightarrow> False
         | Some name \<Rightarrow>
            get_exact agent_tool_registry name version \<noteq> None \<and>
            (is_research (r_agent_kind run) (r_agent_version run) \<longrightarrow>
               (name, version) \<in> set RESEARCH_TOOLS) \<and>
            (is_curator (r_agent_kind run) (r_agent_version run) \<longrightarrow>
               (name, version) \<in> set CURATOR_TOOLS) \<and>
            (case automatic of None \<Rightarrow> True | Some tools \<Rightarrow> (name, version) \<in> set tools)))"

definition executable_plan ::
  "tool_identity list option \<Rightarrow> agent_run \<Rightarrow> agent_step list \<Rightarrow> bool" where
  "executable_plan automatic run sts \<longleftrightarrow>
     sts \<noteq> [] \<and> int (length sts) \<le> r_step_budget run \<and>
     map st_ordinal sts = map int [0..<length sts] \<and>
     list_all (\<lambda>st. st_status st = STEP_PENDING) sts \<and>
     list_all (valid_step_tool automatic run) sts"

text \<open>\<open>t\<close> is the reading the deadline is compared with, \<open>t'\<close> the one of the final transition.\<close>

definition claim_execution ::
  "uuid \<Rightarrow> int \<Rightarrow> tool_identity list option \<Rightarrow> instant \<Rightarrow> instant \<Rightarrow> 'a agent_db_scheme
     \<Rightarrow> ('a agent_db_scheme, execution_claim option) outcome" where
  "claim_execution rid expected_revision automatic t t' s =
    (case get_agent_run s rid of
       None \<Rightarrow> (Inl AgentRunNotFoundError, s)
     | Some run \<Rightarrow>
        if (is_reserved_automation_agent_identity (r_agent_kind run) (r_agent_version run) \<or>
            is_automatic_identity (r_agent_kind run) (r_agent_version run)) \<and> automatic = None
          then (Inl ExecutionAgentVersionError, s)
        else if r_state run \<in> set TERMINAL_STATES then
          (case original_claim_revision s (r_id run) of
             Inl e \<Rightarrow> (Inl e, s)
           | Inr original \<Rightarrow> if original = Some expected_revision then (Inr None, s)
                      else (Inl AgentRunRevisionConflictError, s))
        else if r_state run = RUNNING then
          (case original_claim_revision s (r_id run) of
             Inl e \<Rightarrow> (Inl e, s)
           | Inr original \<Rightarrow> if original = Some expected_revision then (Inl AgentRunTransitionConflictError, s)
                      else (Inl AgentRunRevisionConflictError, s))
        else if r_revision run \<noteq> expected_revision then (Inl AgentRunRevisionConflictError, s)
        else if r_state run \<noteq> READY then (Inl AgentRunTransitionConflictError, s)
        else if r_registry_version run \<noteq> REGISTRY_VERSION then (Inl ExecutionRegistryVersionError, s)
        else if is_unknown_research (r_agent_kind run) (r_agent_version run) \<or>
                is_unknown_curator (r_agent_kind run) (r_agent_version run)
          then (Inl ExecutionAgentVersionError, s)
        else if r_run_deadline run \<le> t then
          andThen (transition_run (r_id run) READY (r_revision run) EXPIRED t
                     (Some ''deadline_expired'') s) (\<lambda>_ s1. (Inr None, s1))
        else if \<not> executable_plan automatic run (run_steps s (r_id run))
          then (Inl ExecutionPlanInvalidError, s)
        else
          andThen (transition_run (r_id run) READY (r_revision run) RUNNING t' None s)
            (\<lambda>moved s1. (Inr (Some (execution_claim_of moved)), s1)))"

section \<open>Failing and expiring\<close>

definition fail_without_invocation ::
  "agent_run \<Rightarrow> agent_step \<Rightarrow> string \<Rightarrow> instant \<Rightarrow> 'a agent_db_scheme
     \<Rightarrow> ('a agent_db_scheme, agent_run) outcome" where
  "fail_without_invocation run st code t s =
    andThen (append_agent_event
        ((event_draft (r_id run) ''agent_step.failed'' code ''agent step failed''
           (JObj [(''ordinal'', JInt (st_ordinal st))]) (r_correlation_id run) t)
           \<lparr>ev_step_id := Some (st_id st)\<rparr>)
        (upd_step (st_id st)
          (\<lambda>x. x\<lparr>st_status := STEP_FAILED, st_started_at := Some t, st_finished_at := Some t\<rparr>) s))
      (\<lambda>_ s1. transition_run (r_id run) RUNNING (r_revision run) FAILED t (Some code) s1)"

definition fail_active_step ::
  "agent_run \<Rightarrow> agent_step \<Rightarrow> string \<Rightarrow> instant \<Rightarrow> 'a agent_db_scheme
     \<Rightarrow> ('a agent_db_scheme, agent_run) outcome" where
  "fail_active_step run st code t s =
     transition_run (r_id run) RUNNING (r_revision run) FAILED t (Some code)
       (upd_step (st_id st) (\<lambda>x. x\<lparr>st_status := STEP_FAILED, st_finished_at := Some t\<rparr>) s)"

fun expire_invocations ::
  "instant \<Rightarrow> tool_invocation list \<Rightarrow> 'a agent_db_scheme \<Rightarrow> 'a agent_db_scheme" where
  "expire_invocations t [] s = s"
| "expire_invocations t (iv # ivs) s =
    (if iv_status iv \<in> set OPEN_INVOCATION
     then expire_invocations t ivs
            (upd_invocation (iv_id iv) (discard_invocation ''deadline_expired'' t) s)
     else expire_invocations t ivs s)"

text \<open>The loop over the steps assigns exactly what the loop of \<open>cancel_run\<close> does.\<close>

definition expire_execution ::
  "agent_run \<Rightarrow> agent_step list \<Rightarrow> instant \<Rightarrow> 'a agent_db_scheme
     \<Rightarrow> ('a agent_db_scheme, agent_run) outcome" where
  "expire_execution run sts t s =
     transition_run (r_id run) RUNNING (r_revision run) EXPIRED t (Some ''deadline_expired'')
       (close_steps t sts (expire_invocations t (step_invocations s (r_id run)) s))"

section \<open>Reserving the next invocation\<close>

text \<open>
  The retry decision for a step that is already running: its one earlier attempt must have ended
  in a failure that is safe to repeat. \<open>Inr (Inl code)\<close> fails the step and the Run with \<open>code\<close>;
  \<open>Inr (Inr attempt)\<close> is the attempt to reserve.
\<close>

definition retry_decision ::
  "agent_run \<Rightarrow> agent_step \<Rightarrow> tool_invocation list \<Rightarrow> exn + (string + int)" where
  "retry_decision run st all_invocations =
    (if st_status st \<noteq> STEP_RUNNING then Inr (Inr 0)
     else
       case filter (\<lambda>iv. iv_step_id iv = st_id st) all_invocations of
         [prior] \<Rightarrow>
           if iv_attempt prior \<noteq> 0 \<or>
              iv_status prior \<notin> {INV_FAILED, INV_TIMED_OUT, INV_DISCARDED}
             then Inl ExecutionPlanInvalidError
           else
             (case py_int (the (st_tool_version st)) of
                None \<Rightarrow> Inl ValueError
              | Some version \<Rightarrow>
                  (case get_exact agent_tool_registry (the (st_tool_name st)) version of
                     None \<Rightarrow> Inr (Inl ''ambiguous_recovery_denied'')
                   | Some d \<Rightarrow>
                      if classify_retry (iv_safe_error_code prior) (iv_authority prior)
                           (idempotency_value (td_idempotency d)) \<noteq> SAFE_TRANSIENT_READ
                        then Inr (Inl ''ambiguous_recovery_denied'')
                      else if int (length (filter (\<lambda>iv. iv_attempt iv > 0) all_invocations))
                                \<ge> r_retry_budget run
                        then Inr (Inl ''retry_exhausted'')
                      else Inr (Inr 1)))
       | _ \<Rightarrow> Inl ExecutionPlanInvalidError)"

text \<open>
  \<open>candidate_input\<close>: the dump of the parsed step input when the Tool exists and its schema accepts
  it, the raw step input otherwise.
\<close>

definition reserve_candidate :: "schema_lib \<Rightarrow> string \<Rightarrow> int \<Rightarrow> json \<Rightarrow> json + tool_input" where
  "reserve_candidate lib name version raw =
    (case get_exact agent_tool_registry name version of
       None \<Rightarrow> Inl raw
     | Some d \<Rightarrow> (case lib_parse lib (td_input_schema d) raw of None \<Rightarrow> Inl raw | Some v \<Rightarrow> Inr v))"

definition reservation_context ::
  "'a agent_db_scheme \<Rightarrow> agent_run \<Rightarrow> string \<Rightarrow> bool \<Rightarrow> policy_context" where
  "reservation_context s run name available =
     \<lparr> pc_registry_version = r_registry_version run, pc_project_scope = r_project_id run,
       pc_tool_call_budget = r_tool_call_budget run,
       pc_total_calls_reserved = int (count_invocations s (r_id run) None),
       pc_tool_calls_reserved = int (count_invocations s (r_id run) (Some name)),
       pc_provider_available = available, pc_operator_allowed = False \<rparr>"

definition invocation_key ::
  "(string \<Rightarrow> string) \<Rightarrow> agent_run \<Rightarrow> agent_step \<Rightarrow> int \<Rightarrow> string \<Rightarrow> string \<Rightarrow> string \<Rightarrow> string" where
  "invocation_key sha run st attempt name version input_hash =
     sha (uuid_text (r_id run) @ '':'' @ uuid_text (st_id st) @ '':'' @ str_int attempt @ '':'' @
          name @ '':'' @ version @ '':'' @ input_hash)"

definition new_invocation ::
  "(string \<Rightarrow> string) \<Rightarrow> agent_run \<Rightarrow> agent_step \<Rightarrow> int \<Rightarrow> string \<Rightarrow> string \<Rightarrow> json \<Rightarrow> instant
     \<Rightarrow> tool_invocation" where
  "new_invocation sha run st attempt name version normalized t =
    (let input_hash = sha (dumps normalized) in
     \<lparr> iv_id = 0, iv_run_id = r_id run, iv_step_id = st_id st, iv_attempt = attempt,
       iv_tool_name = name, iv_tool_version = version, iv_authority = ''read'',
       iv_validated_input_hash = input_hash, iv_validated_input = normalized,
       iv_idempotency_key_hash = invocation_key sha run st attempt name version input_hash,
       iv_status = INV_RESERVED, iv_safe_result_summary = None, iv_evidence_references = [],
       iv_safe_error_code = None, iv_reserved_at = t, iv_started_at = None,
       iv_finished_at = None \<rparr>)"

definition begin_invocation :: "instant \<Rightarrow> tool_invocation \<Rightarrow> tool_invocation" where
  "begin_invocation t iv = iv\<lparr>iv_status := INV_RUNNING, iv_started_at := Some t\<rparr>"

definition begin_step :: "instant \<Rightarrow> agent_step \<Rightarrow> agent_step" where
  "begin_step t st = st\<lparr>st_status := STEP_RUNNING, st_started_at := Some t\<rparr>"

definition start_reserved ::
  "agent_run \<Rightarrow> agent_step \<Rightarrow> tool_invocation \<Rightarrow> instant \<Rightarrow> 'a agent_db_scheme
     \<Rightarrow> ('a agent_db_scheme, agent_event) outcome" where
  "start_reserved run st iv t s =
     append_agent_event
       ((event_draft (r_id run) ''tool_invocation.started'' ''tool_invocation_started''
          ''tool invocation started''
          (JObj [(''ordinal'', JInt (st_ordinal st)), (''tool_name'', jopt JStr (st_tool_name st))])
          (r_correlation_id run) t)\<lparr>ev_step_id := Some (st_id st), ev_invocation_id := Some (iv_id iv)\<rparr>)
       (upd_step (st_id st) (begin_step t) (upd_invocation (iv_id iv) (begin_invocation t) s))"

text \<open>
  From the retry decision on. The normalized input of a resolved policy is always a JSON object,
  so the assertion on it cannot fail.
\<close>

definition reserve_step ::
  "schema_lib \<Rightarrow> (string \<Rightarrow> string) \<Rightarrow> bool \<Rightarrow> instant \<Rightarrow> agent_run \<Rightarrow> agent_step \<Rightarrow> string \<Rightarrow> string
     \<Rightarrow> 'a agent_db_scheme \<Rightarrow> ('a agent_db_scheme, (agent_step \<times> tool_invocation \<times> int) option) outcome"
where
  "reserve_step lib sha available t run st name vtext s =
    (case retry_decision run st (step_invocations s (r_id run)) of
       Inl e \<Rightarrow> (Inl e, s)
     | Inr (Inl code) \<Rightarrow> andThen (fail_active_step run st code t s) (\<lambda>_ s1. (Inr None, s1))
     | Inr (Inr attempt) \<Rightarrow>
        (case py_int vtext of
           None \<Rightarrow> (Inl ValueError, s)
         | Some version \<Rightarrow>
            (case resolve_tool_policy agent_tool_registry (lib_validate lib) name version ''read''
                    (reserve_candidate lib name version (st_normalized_input st))
                    (reservation_context s run name available) of
               Inl rejection \<Rightarrow>
                 andThen (fail_without_invocation run st (''tool_policy_'' @ rejection_code rejection) t s)
                   (\<lambda>_ s1. (Inr None, s1))
             | Inr policy \<Rightarrow>
                 andThen (reserve_tool_invocation
                     (new_invocation sha run st attempt name vtext (rp_normalized_input policy) t) s)
                   (\<lambda>iv s1. andThen (start_reserved run st iv t s1)
                     (\<lambda>_ s2. (Inr (Some (begin_step t st, begin_invocation t iv,
                                         rp_timeout_seconds policy)), s2))))))"

definition reserve_next ::
  "schema_lib \<Rightarrow> (string \<Rightarrow> string) \<Rightarrow> execution_claim \<Rightarrow> bool \<Rightarrow> tool_identity list option \<Rightarrow> instant
     \<Rightarrow> 'a agent_db_scheme \<Rightarrow> ('a agent_db_scheme, (agent_step \<times> tool_invocation \<times> int) option) outcome"
where
  "reserve_next lib sha claim available automatic t s =
    (case get_agent_run s (xc_run_id claim) of
       None \<Rightarrow> (Inr None, s)
     | Some run \<Rightarrow>
        let sts = run_steps s (r_id run);
            kind = r_agent_kind run; version = r_agent_version run in
        if r_state run \<noteq> RUNNING then (Inr None, s)
        else if is_reserved_automation_agent_identity kind version \<and> automatic = None
          then (Inl ExecutionAgentVersionError, s)
        else if r_run_deadline run \<le> t
          then andThen (expire_execution run sts t s) (\<lambda>_ s1. (Inr None, s1))
        else
         (case find (\<lambda>st. st_status st \<in> set OPEN_STEP) sts of
            None \<Rightarrow> (Inr None, s)
          | Some st \<Rightarrow>
             if is_unknown_research kind version \<or> is_unknown_curator kind version
               then andThen (fail_without_invocation run st ''agent_definition_unsupported'' t s)
                      (\<lambda>_ s1. (Inr None, s1))
             else if list_ex (\<lambda>p. st_status p \<noteq> STEP_SUCCEEDED) (take (nat (st_ordinal st)) sts)
               then (Inl ExecutionPlanInvalidError, s)
             else
              (case (st_tool_name st, st_tool_version st) of
                 (Some name, Some vtext) \<Rightarrow>
                   (case automatic of
                      None \<Rightarrow> reserve_step lib sha available t run st name vtext s
                    | Some tools \<Rightarrow>
                       (case py_int vtext of
                          None \<Rightarrow> (Inl ValueError, s)
                        | Some v \<Rightarrow>
                           if (name, v) \<notin> set tools
                             then andThen (fail_without_invocation run st ''tool_policy_authority_denied'' t s)
                                    (\<lambda>_ s1. (Inr None, s1))
                           else reserve_step lib sha available t run st name vtext s))
               | _ \<Rightarrow> (Inl AssertionError, s))))"

section \<open>Finalizing an invocation\<close>

text \<open>
  \<open>_safe_projection\<close>: a summary and the evidence references of an output; a missing key is a
  KeyError.
\<close>

definition reference :: "string \<Rightarrow> json \<Rightarrow> json" where
  "reference entity i = JObj [(''entity_type'', JStr entity), (''id'', i)]"

definition entity_of_tool :: "string \<Rightarrow> string option" where
  "entity_of_tool name = map_of [(''project.get'', ''project''), (''memory.get'', ''memory''),
     (''source.get'', ''source''), (''source_chunk.get'', ''source_chunk'')] name"

definition all_some :: "'x option list \<Rightarrow> 'x list option" where
  "all_some xs = (if list_all (\<lambda>x. x \<noteq> None) xs then Some (map the xs) else None)"

definition safe_projection :: "json \<Rightarrow> string \<Rightarrow> exn + (string \<times> json list)" where
  "safe_projection output name =
    (if name = ''memory.search_explained'' then
       (case meta_get output ''results'' of
          Some (JArr rows) \<Rightarrow>
            (case all_some (map (\<lambda>row. meta_get row ''memory_id'') rows) of
               None \<Rightarrow> Inl KeyError
             | Some ids \<Rightarrow> Inr (''explained search returned '' @ str_int (int (length rows)) @ '' result(s)'',
                              map (reference ''memory'') ids))
        | _ \<Rightarrow> Inl KeyError)
     else
       (case entity_of_tool name of
          None \<Rightarrow> Inl KeyError
        | Some entity \<Rightarrow>
           (case meta_get output ''id'' of
              None \<Rightarrow> Inl KeyError
            | Some i \<Rightarrow> Inr (entity @ '' read succeeded'', [reference entity i]))))"

text \<open>
  The verdict on a result: the error code that is recorded, if any, and the summary and evidence
  of a success. An output that is over the Tool's byte limit becomes an error; no output and no
  error is recorded as neither.
\<close>

datatype verdict = Succeeded string "json list" | Failed string | Undetermined

definition judge_result ::
  "tool_invocation \<Rightarrow> json option \<Rightarrow> string option \<Rightarrow> json list option \<Rightarrow> exn + verdict" where
  "judge_result iv output code references =
    (case code of
       Some c \<Rightarrow> Inr (Failed c)
     | None \<Rightarrow>
        (case output of
           None \<Rightarrow> Inr Undetermined
         | Some out \<Rightarrow>
            (case py_int (iv_tool_version iv) of
               None \<Rightarrow> Inl ValueError
             | Some version \<Rightarrow>
                (case get_exact agent_tool_registry (iv_tool_name iv) version of
                   None \<Rightarrow> Inl AssertionError
                 | Some d \<Rightarrow>
                    if int (length (dumps out)) > td_max_output_bytes d
                      then Inr (Failed ''tool_output_oversized'')
                    else
                     (case safe_projection out (iv_tool_name iv) of
                        Inl e \<Rightarrow> Inl e
                      | Inr (summary, evidence) \<Rightarrow>
                         Inr (Succeeded summary
                           (if references = None \<or> references = Some [] then evidence
                            else the references)))))))"

definition retryable :: "tool_invocation \<Rightarrow> string \<Rightarrow> exn + bool" where
  "retryable iv code =
    (case py_int (iv_tool_version iv) of
       None \<Rightarrow> Inl ValueError
     | Some version \<Rightarrow> Inr
        (case get_exact agent_tool_registry (iv_tool_name iv) version of
           None \<Rightarrow> False
         | Some d \<Rightarrow> iv_attempt iv = 0 \<and>
             classify_retry (Some code) (iv_authority iv) (idempotency_value (td_idempotency d))
               = SAFE_TRANSIENT_READ))"

definition finish_invocation :: "verdict \<Rightarrow> instant \<Rightarrow> tool_invocation \<Rightarrow> tool_invocation" where
  "finish_invocation v t iv =
    (case v of
       Succeeded summary evidence \<Rightarrow> iv\<lparr>iv_status := INV_SUCCEEDED,
         iv_safe_result_summary := Some summary, iv_evidence_references := evidence,
         iv_finished_at := Some t\<rparr>
     | Failed code \<Rightarrow> iv\<lparr>
         iv_status := (if code = ''tool_timeout'' then INV_TIMED_OUT else INV_FAILED),
         iv_safe_error_code := Some code, iv_finished_at := Some t\<rparr>
     | Undetermined \<Rightarrow> iv\<lparr>iv_finished_at := Some t\<rparr>)"

definition settle_status :: "verdict \<Rightarrow> bool \<Rightarrow> step_status \<Rightarrow> step_status" where
  "settle_status v again status =
    (case v of Succeeded _ _ \<Rightarrow> STEP_SUCCEEDED
     | Failed _ \<Rightarrow> (if again then STEP_RUNNING else STEP_FAILED)
     | Undetermined \<Rightarrow> status)"

definition settle_step :: "verdict \<Rightarrow> bool \<Rightarrow> instant \<Rightarrow> agent_step \<Rightarrow> agent_step" where
  "settle_step v again t st =
    (let status = settle_status v again (st_status st) in
     st\<lparr>st_status := status,
        st_finished_at := (if status \<noteq> STEP_RUNNING then Some t else st_finished_at st)\<rparr>)"

definition verdict_code :: "verdict \<Rightarrow> string option" where
  "verdict_code v = (case v of Failed c \<Rightarrow> Some c | _ \<Rightarrow> None)"

definition finished_event ::
  "agent_run \<Rightarrow> agent_step \<Rightarrow> tool_invocation \<Rightarrow> verdict \<Rightarrow> instant \<Rightarrow> agent_event" where
  "finished_event run st iv v t =
    (let bad = verdict_code v \<noteq> None \<and> verdict_code v \<noteq> Some [] in
     (event_draft (r_id run) ''tool_invocation.finished''
        (if bad then the (verdict_code v) else ''tool_invocation_succeeded'')
        (if bad then ''tool invocation failed'' else ''tool invocation succeeded'')
        (JObj [(''ordinal'', JInt (st_ordinal st)),
               (''status'', JStr (invocation_status_value (iv_status (finish_invocation v t iv))))])
        (r_correlation_id run) t)\<lparr>ev_step_id := Some (st_id st), ev_invocation_id := Some (iv_id iv)\<rparr>)"

definition record_verdict ::
  "agent_run \<Rightarrow> agent_step \<Rightarrow> tool_invocation \<Rightarrow> verdict \<Rightarrow> bool \<Rightarrow> instant \<Rightarrow> 'a agent_db_scheme
     \<Rightarrow> ('a agent_db_scheme, bool) outcome" where
  "record_verdict run st iv v again t s =
    andThen (append_agent_event (finished_event run st iv v t)
        (upd_step (st_id st) (settle_step v again t)
          (upd_invocation (iv_id iv) (finish_invocation v t) s)))
      (\<lambda>_ s1.
        let status = st_status (settle_step v again t st);
            result = verdict_code v = None \<or> status = STEP_RUNNING in
        if verdict_code v \<noteq> None \<and> status = STEP_FAILED
        then andThen (transition_run (r_id run) RUNNING (r_revision run) FAILED t (verdict_code v) s1)
               (\<lambda>_ s2. (Inr result, s2))
        else (Inr result, s1))"

definition discard_late :: "string \<Rightarrow> instant \<Rightarrow> tool_invocation \<Rightarrow> tool_invocation" where
  "discard_late code t iv = iv\<lparr>iv_status := INV_DISCARDED, iv_safe_error_code := Some code,
     iv_finished_at := Some t\<rparr>"

definition finalize_invocation ::
  "execution_claim \<Rightarrow> uuid \<Rightarrow> uuid \<Rightarrow> json option \<Rightarrow> string option \<Rightarrow> json list option \<Rightarrow> instant
     \<Rightarrow> 'a agent_db_scheme \<Rightarrow> ('a agent_db_scheme, bool) outcome" where
  "finalize_invocation claim step_id invocation_id output code references t s =
    (case get_agent_run s (xc_run_id claim) of
       None \<Rightarrow> (Inr False, s)
     | Some run \<Rightarrow>
        (case (get_run_step s (r_id run) step_id, get_run_invocation s (r_id run) invocation_id) of
           (Some st, Some iv) \<Rightarrow>
             if iv_status iv \<noteq> INV_RUNNING then (Inr False, s)
             else if r_state run \<noteq> RUNNING then
               (Inr False, upd_invocation (iv_id iv)
                  (discard_late (if r_state run = CANCELLED then ''cancellation_discard''
                                 else ''tool_result_discarded'') t) s)
             else if r_run_deadline run \<le> t then
               (let s1 = upd_invocation (iv_id iv) (discard_late ''deadline_expired'' t) s in
                andThen (expire_execution run (run_steps s1 (r_id run)) t s1)
                  (\<lambda>_ s2. (Inr False, s2)))
             else
               (case judge_result iv output code references of
                  Inl e \<Rightarrow> (Inl e, s)
                | Inr (Failed c) \<Rightarrow>
                    (case retryable iv c of
                       Inl e \<Rightarrow> (Inl e, s)
                     | Inr again \<Rightarrow> record_verdict run st iv (Failed c) again t s)
                | Inr v \<Rightarrow> record_verdict run st iv v False t s)
         | _ \<Rightarrow> (Inr False, s)))"

section \<open>Completing a Run\<close>

definition has_event :: "agent_event list \<Rightarrow> string \<Rightarrow> bool" where
  "has_event events ty \<longleftrightarrow> list_ex (\<lambda>e. ev_type e = ty) events"

text \<open>The result events an Agent must have persisted, with the code a missing one fails with.\<close>

definition missing_result ::
  "agent_run \<Rightarrow> bool \<Rightarrow> bool \<Rightarrow> agent_event list \<Rightarrow> string option" where
  "missing_result run require_daily_brief require_project_watch events =
    (if is_research (r_agent_kind run) (r_agent_version run) \<and> \<not> has_event events ''research.result''
       then Some ''research_result_missing''
     else if is_curator (r_agent_kind run) (r_agent_version run) \<and> \<not> has_event events ''curator.result''
       then Some ''curator_result_missing''
     else if require_daily_brief \<and> \<not> has_event events ''daily_brief.result''
       then Some ''daily_brief_result_missing''
     else if require_project_watch \<and> \<not> has_event events ''project_watch.result''
       then Some ''project_watch_result_missing''
     else None)"

definition complete_run ::
  "execution_claim \<Rightarrow> bool \<Rightarrow> bool \<Rightarrow> instant \<Rightarrow> 'a agent_db_scheme
     \<Rightarrow> ('a agent_db_scheme, agent_run option) outcome" where
  "complete_run claim require_daily_brief require_project_watch t s =
    (case get_agent_run s (xc_run_id claim) of
       None \<Rightarrow> (Inr None, s)
     | Some run \<Rightarrow>
        if r_state run \<noteq> RUNNING then (Inr None, s)
        else if run_steps s (r_id run) = [] \<or>
                list_ex (\<lambda>st. st_status st \<noteq> STEP_SUCCEEDED) (run_steps s (r_id run))
          then (Inr None, s)
        else
         (case list_agent_events s (r_id run) 1000 of
            Inl e \<Rightarrow> (Inl e, s)
          | Inr events \<Rightarrow>
             (case missing_result run require_daily_brief require_project_watch events of
                Some code \<Rightarrow> andThen (transition_run (r_id run) RUNNING (r_revision run) FAILED t
                    (Some code) s) (\<lambda>r s1. (Inr (Some r), s1))
              | None \<Rightarrow> andThen (transition_run (r_id run) RUNNING (r_revision run) COMPLETED t None s)
                    (\<lambda>r s1. (Inr (Some r), s1)))))"

section \<open>Calling the reserved Tool\<close>

datatype call_error =
    ToolUnavailableError | ToolInputInvalidError | ToolOutputInvalidError | ToolControlledFailure
  | ProviderUnavailableError | InvalidEmbeddingResponseError | ProviderRequestError
  | FaultInjectionError | OtherException

definition executable_identities :: "tool_identity list" where
  "executable_identities = [(''project.get'', 1), (''memory.get'', 1),
     (''memory.search_explained'', 1), (''source.get'', 1), (''source_chunk.get'', 1)]"

text \<open>
  \<open>check_output\<close> is \<open>output_schema.model_validate\<close> on a handler's result, giving the dump of the
  instance; \<open>handle\<close> is the table of handlers.
\<close>

definition dispatch_exact ::
  "schema_lib \<Rightarrow> (schema_type \<Rightarrow> json \<Rightarrow> json option) \<Rightarrow> (tool_identity \<Rightarrow> tool_input \<Rightarrow> call_error + json)
     \<Rightarrow> string \<Rightarrow> int \<Rightarrow> tool_input \<Rightarrow> call_error + json" where
  "dispatch_exact lib check_output handle name version input =
    (case get_exact agent_tool_registry name version of
       None \<Rightarrow> Inl ToolUnavailableError
     | Some d \<Rightarrow>
        if (name, version) \<notin> set executable_identities then Inl ToolUnavailableError
        else
         (case lib_validate lib (td_input_schema d) (Inr input) of
            None \<Rightarrow> Inl ToolInputInvalidError
          | Some v \<Rightarrow>
             (case handle (name, version) v of
                Inl e \<Rightarrow> Inl e
              | Inr result \<Rightarrow>
                 (case check_output (td_output_schema d) result of
                    None \<Rightarrow> Inl ToolOutputInvalidError
                  | Some out \<Rightarrow> Inr out))))"

text \<open>The \<open>except\<close> clauses: \<open>None\<close> lets the exception through.\<close>

fun call_error_code :: "call_error \<Rightarrow> string option" where
  "call_error_code ToolUnavailableError = Some ''tool_unavailable''"
| "call_error_code ToolInputInvalidError = Some ''tool_input_invalid''"
| "call_error_code ToolOutputInvalidError = Some ''tool_output_invalid''"
| "call_error_code ProviderUnavailableError = Some ''tool_provider_unavailable''"
| "call_error_code InvalidEmbeddingResponseError = Some ''tool_output_invalid''"
| "call_error_code ProviderRequestError = Some ''tool_provider_failed''"
| "call_error_code FaultInjectionError = None"
| "call_error_code ToolControlledFailure = Some ''tool_controlled_failure''"
| "call_error_code OtherException = Some ''tool_controlled_failure''"

definition needs_provider :: "agent_step \<Rightarrow> tool_invocation \<Rightarrow> bool" where
  "needs_provider st iv \<longleftrightarrow> st_tool_name st = Some ''memory.search_explained'' \<and>
     meta_get (iv_validated_input iv) ''mode'' \<in> {Some (JStr ''semantic''), Some (JStr ''hybrid'')}"

text \<open>
  \<open>provider\<close> is the result of \<open>resolve_provider()\<close>, \<open>elapsed\<close> the difference of the two
  readings of the monotonic clock. The result is the pair (output, error code), or the one
  exception that is raised again.
\<close>

definition attempt_call ::
  "schema_lib \<Rightarrow> (schema_type \<Rightarrow> json \<Rightarrow> json option) \<Rightarrow> (tool_identity \<Rightarrow> tool_input \<Rightarrow> call_error + json)
     \<Rightarrow> call_error option \<Rightarrow> int \<Rightarrow> agent_step \<Rightarrow> tool_invocation \<Rightarrow> int
     \<Rightarrow> call_error + (json option \<times> string option)" where
  "attempt_call lib check_output handle provider elapsed st iv timeout_seconds =
    (case (if needs_provider st iv then provider else None) of
       Some e \<Rightarrow> Inl e
     | None \<Rightarrow>
        (case py_int (iv_tool_version iv) of
           None \<Rightarrow> Inl OtherException
         | Some version \<Rightarrow>
            (case get_exact agent_tool_registry (iv_tool_name iv) version of
               None \<Rightarrow> Inr (None, Some ''tool_unavailable'')
             | Some d \<Rightarrow>
                (case lib_parse lib (td_input_schema d) (iv_validated_input iv) of
                   None \<Rightarrow> Inl OtherException
                 | Some input \<Rightarrow>
                    (case dispatch_exact lib check_output handle (iv_tool_name iv) version input of
                       Inl e \<Rightarrow> Inl e
                     | Inr output \<Rightarrow>
                        if elapsed > seconds timeout_seconds then Inr (None, Some ''tool_timeout'')
                        else Inr (Some output, None))))))"

definition call_reserved_tool ::
  "schema_lib \<Rightarrow> (schema_type \<Rightarrow> json \<Rightarrow> json option) \<Rightarrow> (tool_identity \<Rightarrow> tool_input \<Rightarrow> call_error + json)
     \<Rightarrow> call_error option \<Rightarrow> int \<Rightarrow> agent_step \<Rightarrow> tool_invocation \<Rightarrow> int
     \<Rightarrow> call_error + (json option \<times> string option)" where
  "call_reserved_tool lib check_output handle provider elapsed st iv timeout_seconds =
    (case attempt_call lib check_output handle provider elapsed st iv timeout_seconds of
       Inr r \<Rightarrow> Inr r
     | Inl e \<Rightarrow> (case call_error_code e of Some code \<Rightarrow> Inr (None, Some code) | None \<Rightarrow> Inl e))"

section \<open>Invariants\<close>

lemma executor_writes [simp]:
  "step_plan (x\<lparr>st_status := a, st_started_at := b, st_finished_at := c\<rparr>) = step_plan x"
  "step_plan (x\<lparr>st_status := a, st_finished_at := c\<rparr>) = step_plan x"
  "step_plan (begin_step t x) = step_plan x"
  "step_plan (settle_step v again t x) = step_plan x"
  "invocation_identity (begin_invocation t y) = invocation_identity y"
  "invocation_identity (finish_invocation v t y) = invocation_identity y"
  "invocation_identity (discard_late code t y) = invocation_identity y"
  by (simp_all add: step_plan_def begin_step_def settle_step_def Let_def invocation_identity_def
      begin_invocation_def finish_invocation_def discard_late_def split: verdict.split)

lemma event_draft_updates [simp]:
  "ev_type (e\<lparr>ev_step_id := i\<rparr>) = ev_type e"
  "ev_type (e\<lparr>ev_invocation_id := i\<rparr>) = ev_type e"
  by simp_all

lemma executor_events [simp]:
  "ev_type (finished_event run st iv v t) = ''tool_invocation.finished''"
  "ev_run_id (finished_event run st iv v t) = r_id run"
  "ev_idempotency_hash (finished_event run st iv v t) = None"
  by (simp_all add: finished_event_def Let_def)

context session_invariant
begin

lemma claim_execution_keeps: "I s \<Longrightarrow> I (snd (claim_execution rid n automatic t t' s))"
  unfolding claim_execution_def
  by (auto intro!: write_andThen write_transition split: option.splits sum.splits)

lemma fail_without_invocation_keeps: "I s \<Longrightarrow> I (snd (fail_without_invocation run st code t s))"
  unfolding fail_without_invocation_def
  by (intro write_andThen write_event write_step write_transition) (simp_all add: lifecycle_event_def)

lemma fail_active_step_keeps: "I s \<Longrightarrow> I (snd (fail_active_step run st code t s))"
  unfolding fail_active_step_def by (intro write_step write_transition) simp_all

lemma write_expire_invocations: "I s \<Longrightarrow> I (expire_invocations t ivs s)"
proof (induction ivs arbitrary: s)
  case (Cons iv ivs)
  have "I (upd_invocation (iv_id iv) (discard_invocation ''deadline_expired'' t) s)"
    using Cons.prems by (rule write_invocation) simp
  with Cons show ?case by simp
qed simp

lemma expire_execution_keeps: "I s \<Longrightarrow> I (snd (expire_execution run sts t s))"
  unfolding expire_execution_def by (intro write_transition write_close_steps write_expire_invocations)

lemma start_reserved_keeps: "I s \<Longrightarrow> I (snd (start_reserved run st iv t s))"
  unfolding start_reserved_def
  by (intro write_event write_step write_invocation) (simp_all add: lifecycle_event_def)

lemma record_verdict_keeps: "I s \<Longrightarrow> I (snd (record_verdict run st iv v again t s))"
  unfolding record_verdict_def Let_def
  by (intro write_andThen write_event write_step write_invocation)
    (auto simp: lifecycle_event_def intro!: write_andThen write_transition)

lemma finalize_invocation_keeps:
  assumes "I s"
  shows "I (snd (finalize_invocation claim sid i output code references t s))"
proof -
  have late: "I (upd_invocation j (discard_late c t) s)" for j c
    using assms by (rule write_invocation) simp
  show ?thesis
    unfolding finalize_invocation_def Let_def
    using assms late
    by (auto intro!: write_andThen record_verdict_keeps expire_execution_keeps
        split: option.splits sum.splits verdict.splits)
qed

lemma complete_run_keeps: "I s \<Longrightarrow> I (snd (complete_run claim a b t s))"
  unfolding complete_run_def
  by (auto intro!: write_andThen write_transition split: option.splits sum.splits)

text \<open>
  A reservation keeps every invariant that survives the insertion of one invocation under the
  conditions the code checks first.
\<close>

lemma reserve_step_keeps:
  assumes "I s"
    and "\<And>attempt policy version. retry_decision run st (step_invocations s (r_id run)) = Inr (Inr attempt) \<Longrightarrow>
       resolve_tool_policy agent_tool_registry (lib_validate lib) name version ''read''
         (reserve_candidate lib name version (st_normalized_input st))
         (reservation_context s run name available) = Inr policy \<Longrightarrow>
       I (snd (reserve_tool_invocation
         (new_invocation sha run st attempt name vtext (rp_normalized_input policy) t) s))"
  shows "I (snd (reserve_step lib sha available t run st name vtext s))"
  unfolding reserve_step_def using assms
  by (auto intro!: write_andThen fail_active_step_keeps fail_without_invocation_keeps
      start_reserved_keeps split: option.splits sum.splits)

lemma reserve_next_keeps:
  assumes "I s"
    and insert: "\<And>run st attempt name vtext policy version.
       get_agent_run s (xc_run_id claim) = Some run \<Longrightarrow> st \<in> set (run_steps s (r_id run)) \<Longrightarrow>
       retry_decision run st (step_invocations s (r_id run)) = Inr (Inr attempt) \<Longrightarrow>
       resolve_tool_policy agent_tool_registry (lib_validate lib) name version ''read''
         (reserve_candidate lib name version (st_normalized_input st))
         (reservation_context s run name available) = Inr policy \<Longrightarrow>
       I (snd (reserve_tool_invocation
         (new_invocation sha run st attempt name vtext (rp_normalized_input policy) t) s))"
  shows "I (snd (reserve_next lib sha claim available automatic t s))"
proof (cases "get_agent_run s (xc_run_id claim)")
  case None
  with assms(1) show ?thesis by (simp add: reserve_next_def)
next
  case (Some run)
  have step: "I (snd (reserve_step lib sha available t run st name vtext s))"
    if "find (\<lambda>st. st_status st \<in> set OPEN_STEP) (run_steps s (r_id run)) = Some st" for st name vtext
    using that assms(1) insert [OF Some]
    by (intro reserve_step_keeps) (auto simp: find_Some_iff)
  show ?thesis
    unfolding reserve_next_def Let_def using Some assms(1) step
    by (auto intro!: write_andThen fail_without_invocation_keeps expire_execution_keeps
        split: option.splits)
qed

end

context growing_invariant
begin

lemma reserve_next_keeps_growing: "I s \<Longrightarrow> I (snd (reserve_next lib sha claim available automatic t s))"
  by (intro reserve_next_keeps write_new_invocation)

end

end
