(* ===== verification/Run_Execution_Properties.thy ===== *)
theory Run_Execution_Properties
  imports Run_Executor
begin

text \<open>
  What execution promises: the Tool-call, per-Tool and retry budgets bound the invocations of a
  Run at all times, calls are reserved in plan order and repeated only after a transient failure
  of a pure read, a result is recorded at most once and never after cancellation, and a Run
  completes only when every step succeeded and its result was persisted.
\<close>

section \<open>Budgets\<close>

definition retries_used :: "'a agent_db_scheme \<Rightarrow> uuid \<Rightarrow> nat" where
  "retries_used s rid = length (filter (\<lambda>iv. iv_run_id iv = rid \<and> 0 < iv_attempt iv) (db_invocations s))"

definition within_budgets :: "'a agent_db_scheme \<Rightarrow> bool" where
  "within_budgets s \<longleftrightarrow>
     invocations_linked s \<and>
     (\<forall>iv \<in> set (db_invocations s). get_agent_run s (iv_run_id iv) \<noteq> None) \<and>
     (\<forall>rid run. get_agent_run s rid = Some run \<longrightarrow>
        int (count_invocations s rid None) \<le> max 0 (r_tool_call_budget run) \<and>
        (\<forall>name. count_invocations s rid (Some name) \<le> 5) \<and>
        int (retries_used s rid) \<le> max 0 (r_retry_budget run))"

definition run_budgets :: "agent_run \<Rightarrow> int \<times> int" where
  "run_budgets run = (r_tool_call_budget run, r_retry_budget run)"

lemma filter_length_image:
  assumes "map f xs = map f ys" and "\<And>x y. f x = f y \<Longrightarrow> P x = P y"
  shows "length (filter P xs) = length (filter P ys)"
proof -
  have "length xs = length ys" using assms(1) by (rule map_eq_imp_length_eq)
  then show ?thesis using assms(1)
  proof (induction xs ys rule: list_induct2)
    case (Cons x xs y ys)
    then show ?case using assms(2) [of x y] by simp
  qed simp
qed

text \<open>Changes that matter to no count: same invocation identities, steps and budgets.\<close>

lemma within_budgets_frame:
  assumes "within_budgets s"
    and "map invocation_identity (db_invocations s') = map invocation_identity (db_invocations s)"
    and "\<And>i. get_step s i \<noteq> None \<Longrightarrow> get_step s' i \<noteq> None"
    and "\<And>i. map_option run_budgets (get_agent_run s' i) = map_option run_budgets (get_agent_run s i)"
  shows "within_budgets s'"
proof -
  have counts: "length (filter P (db_invocations s')) = length (filter P (db_invocations s))"
    if "\<And>x y. invocation_identity x = invocation_identity y \<Longrightarrow> P x = P y" for P
    using filter_length_image [OF assms(2)] that by blast
  have count: "count_invocations s' rid n = count_invocations s rid n" for rid n
    unfolding count_invocations_def by (rule counts) (auto dest: invocation_identity_keys split: option.split)
  have retries: "retries_used s' rid = retries_used s rid" for rid
    unfolding retries_used_def by (rule counts) (auto dest: invocation_identity_keys)
  have rows: "\<exists>iv \<in> set (db_invocations s). iv_step_id iv = iv_step_id iv' \<and> iv_run_id iv = iv_run_id iv'"
    if "iv' \<in> set (db_invocations s')" for iv'
  proof -
    have "invocation_identity iv' \<in> set (map invocation_identity (db_invocations s))"
      using that unfolding assms(2) [symmetric] by simp
    then obtain iv where "iv \<in> set (db_invocations s)" "invocation_identity iv' = invocation_identity iv"
      by auto
    then show ?thesis using invocation_identity_keys by metis
  qed
  have present: "get_agent_run s' i = None \<longleftrightarrow> get_agent_run s i = None" for i
    using assms(4) [of i] by (cases "get_agent_run s' i"; cases "get_agent_run s i") simp_all
  have old: "get_step s (iv_step_id iv) \<noteq> None \<and> get_agent_run s (iv_run_id iv) \<noteq> None"
    if "iv \<in> set (db_invocations s)" for iv
    using assms(1) that by (simp add: within_budgets_def invocations_linked_def)
  have new: "get_step s' (iv_step_id iv') \<noteq> None \<and> get_agent_run s' (iv_run_id iv') \<noteq> None"
    if iv': "iv' \<in> set (db_invocations s')" for iv'
  proof -
    obtain iv where iv: "iv \<in> set (db_invocations s)" "iv_step_id iv = iv_step_id iv'" "iv_run_id iv = iv_run_id iv'"
      using rows [OF iv'] by blast
    show ?thesis using old [OF iv(1)] assms(3) [of "iv_step_id iv"] present [of "iv_run_id iv"] iv(2,3) by simp
  qed
  then have "invocations_linked s'" "\<forall>iv \<in> set (db_invocations s'). get_agent_run s' (iv_run_id iv) \<noteq> None"
    by (simp_all add: invocations_linked_def)
  moreover have "\<exists>r. get_agent_run s i = Some r \<and> run_budgets r = run_budgets r'"
    if "get_agent_run s' i = Some r'" for i r'
    using that assms(4) [of i] by (cases "get_agent_run s i") simp_all
  ultimately show ?thesis
    using assms(1) unfolding within_budgets_def count retries
    by (fastforce simp: run_budgets_def)
qed

interpretation budgets: session_invariant within_budgets
proof unfold_locales
  fix s :: "'a agent_db_scheme"
  assume I: "within_budgets s"
  show "within_budgets (upd_step i f s)" if "\<And>x. step_plan (f x) = step_plan x" for i f
  proof (rule within_budgets_frame [OF I])
    have "\<And>x. st_id (f x) = st_id x" using that step_plan_keys by blast
    then show "get_step s j \<noteq> None \<Longrightarrow> get_step (upd_step i f s) j \<noteq> None" for j
      by (auto simp: steps.get_upd)
  qed (simp_all add: upd_step_def get_agent_run_def)
  show "within_budgets (upd_invocation i g s)"
    if "\<And>x. invocation_identity (g x) = invocation_identity x" for i g
    by (rule within_budgets_frame [OF I])
      (simp_all add: upd_invocation_def row_upd_map that get_step_def get_agent_run_def)
  show "within_budgets (upd_approval i h s)" for i h
    by (rule within_budgets_frame [OF I])
      (simp_all add: upd_approval_def get_step_def get_agent_run_def)
  show "within_budgets (snd (append_agent_event e s))" for e
    by (rule within_budgets_frame [OF I])
      (simp_all add: append_agent_event_frame get_step_def get_agent_run_def)
  show "within_budgets (snd (uuid4 s))"
    by (rule within_budgets_frame [OF I]) (simp_all add: uuid4_def get_step_def get_agent_run_def)
  show "within_budgets (snd (transition_run rid st n new t code s))" for rid st n new t code
  proof (rule within_budgets_frame [OF I])
    show "map_option run_budgets (get_agent_run (snd (transition_run rid st n new t code s)) i) =
        map_option run_budgets (get_agent_run s i)" for i
      by (cases rule: transition_run_cases [of rid st n new t code s])
        (simp_all add: moved_db_def get_agent_run_def row_get_upd option.map_comp comp_def run_budgets_def)
  qed (simp_all add: transition_run_frame get_step_def)
qed

lemma step_invocations_counts:
  assumes "invocations_linked s"
  shows "length (filter P (step_invocations s rid)) =
    length (filter (\<lambda>iv. iv_run_id iv = rid \<and> P iv) (db_invocations s))"
proof -
  have "filter (\<lambda>iv. iv_run_id iv = rid \<and> get_step s (iv_step_id iv) \<noteq> None) (db_invocations s) =
      filter (\<lambda>iv. iv_run_id iv = rid) (db_invocations s)"
    using assms by (intro filter_cong) (auto simp: invocations_linked_def)
  then show ?thesis
    by (simp add: step_invocations_def filter_sort conj_commute)
qed

lemma retry_decision_attempt:
  assumes "retry_decision run st ivs = Inr (Inr attempt)"
  shows "attempt = 0 \<and> st_status st \<noteq> STEP_RUNNING \<or>
    attempt = 1 \<and> st_status st = STEP_RUNNING \<and>
    int (length (filter (\<lambda>iv. iv_attempt iv > 0) ivs)) < r_retry_budget run \<and>
    (\<exists>prior. filter (\<lambda>iv. iv_step_id iv = st_id st) ivs = [prior] \<and> iv_attempt prior = 0 \<and>
       iv_status prior \<in> {INV_FAILED, INV_TIMED_OUT, INV_DISCARDED} \<and> iv_authority prior = ''read'' \<and>
       iv_safe_error_code prior \<in> Some ` set TRANSIENT_READ_CODES)"
  using assms unfolding retry_decision_def classify_retry_def
  by (auto split: if_splits option.splits list.splits)

lemma reserve_insert_budgets:
  assumes I: "within_budgets s" and run: "get_agent_run s rid = Some run"
    and att: "retry_decision run st (step_invocations s (r_id run)) = Inr (Inr attempt)"
    and pol: "resolve_tool_policy agent_tool_registry (lib_validate lib) name version ''read'' cand
         (reservation_context s run name available) = Inr policy"
  shows "within_budgets (snd (reserve_tool_invocation
      (new_invocation sha run st attempt name vtext (rp_normalized_input policy) t) s))"
proof -
  let ?iv = "new_invocation sha run st attempt name vtext (rp_normalized_input policy) t"
  have rid: "r_id run = rid" using run by (rule runs.get_key)
  have iv: "iv_run_id ?iv = rid" "iv_step_id ?iv = st_id st" "iv_attempt ?iv = attempt" "iv_tool_name ?iv = name"
    by (simp_all add: new_invocation_def Let_def rid)
  from pol obtain d where d: "get_exact agent_tool_registry name version = Some d"
    and total: "int (count_invocations s rid None) < r_tool_call_budget run"
    and per: "int (count_invocations s rid (Some name)) < td_calls_per_run d"
    by (auto simp: resolve_Inr_iff reservation_context_def rid)
  have "td_calls_per_run d \<le> 5"
    using agent_get_exact_known [OF d] by (simp add: validate_tool_OK_iff MAX_CALLS_PER_RUN_def)
  with per have per: "count_invocations s rid (Some name) < 5" by simp
  have retry: "attempt > 0 \<Longrightarrow> int (retries_used s rid) < r_retry_budget run"
    using retry_decision_attempt [OF att] I
    by (auto simp: step_invocations_counts within_budgets_def retries_used_def rid)
  have "snd (reserve_tool_invocation ?iv s) = s \<or>
      (\<exists>i. snd (reserve_tool_invocation ?iv s) = s\<lparr>db_next_id := Suc (db_next_id s),
         db_invocations := db_invocations s @ [?iv\<lparr>iv_id := i\<rparr>]\<rparr>) \<and> get_step s (st_id st) \<noteq> None"
    by (auto simp: reserve_tool_invocation_def uuid4_def add_invocation_def Let_def iv
        get_run_step_def get_step_def row_get_def find_None_iff)
  then show ?thesis
  proof (elim disjE conjE exE)
    assume "snd (reserve_tool_invocation ?iv s) = s"
    with I show ?thesis by simp
  next
    fix i
    let ?s' = "s\<lparr>db_next_id := Suc (db_next_id s), db_invocations := db_invocations s @ [?iv\<lparr>iv_id := i\<rparr>]\<rparr>"
    assume eq: "snd (reserve_tool_invocation ?iv s) = ?s'" and linked: "get_step s (st_id st) \<noteq> None"
    have same: "get_agent_run ?s' j = get_agent_run s j" "get_step ?s' j = get_step s j" for j
      by (simp_all add: get_agent_run_def get_step_def)
    have count: "count_invocations ?s' j n = count_invocations s j n +
        (if j = rid \<and> (n = None \<or> n = Some name) then 1 else 0)" for j n
      by (auto simp: count_invocations_def iv split: option.splits)
    have retries: "retries_used ?s' j = retries_used s j + (if j = rid \<and> attempt > 0 then 1 else 0)" for j
      by (auto simp: retries_used_def iv)
    have bounds: "int (count_invocations ?s' j None) \<le> max 0 (r_tool_call_budget r) \<and>
        (\<forall>n. count_invocations ?s' j (Some n) \<le> 5) \<and> int (retries_used ?s' j) \<le> max 0 (r_retry_budget r)"
      if r: "get_agent_run s j = Some r" for j r
    proof (cases "j = rid")
      case True
      with r run have "r = run" by simp
      with True show ?thesis using I run total per retry unfolding count retries
        by (auto simp: within_budgets_def)
    next
      case False
      with r I show ?thesis unfolding count retries by (auto simp: within_budgets_def)
    qed
    show ?thesis
      unfolding eq within_budgets_def invocations_linked_def same
      using I linked bounds run
      by (auto simp: within_budgets_def invocations_linked_def same iv)
  qed
qed

section \<open>Successful reservations\<close>

lemma reserve_step_OK:
  assumes "reserve_step lib sha available t run st name vtext s = (Inr (Some (st', iv', timeout)), s')"
  obtains attempt version policy iv s1 e where
    "retry_decision run st (step_invocations s (r_id run)) = Inr (Inr attempt)" "py_int vtext = Some version"
    "resolve_tool_policy agent_tool_registry (lib_validate lib) name version ''read''
       (reserve_candidate lib name version (st_normalized_input st))
       (reservation_context s run name available) = Inr policy"
    "reserve_tool_invocation (new_invocation sha run st attempt name vtext (rp_normalized_input policy) t) s
       = (Inr iv, s1)"
    "start_reserved run st iv t s1 = (Inr e, s')" "st' = begin_step t st" "iv' = begin_invocation t iv"
    "timeout = rp_timeout_seconds policy"
  using assms unfolding reserve_step_def
  by (auto simp: andThen_Inr_iff split: sum.splits option.splits)

lemma reserve_next_OK:
  assumes "reserve_next lib sha claim available automatic t s = (Inr (Some (st', iv', timeout)), s')"
  obtains run st name vtext where
    "get_agent_run s (xc_run_id claim) = Some run" "r_state run = RUNNING" "t < r_run_deadline run"
    "find (\<lambda>st. st_status st \<in> set OPEN_STEP) (run_steps s (r_id run)) = Some st"
    "list_all (\<lambda>p. st_status p = STEP_SUCCEEDED) (take (nat (st_ordinal st)) (run_steps s (r_id run)))"
    "st_tool_name st = Some name" "st_tool_version st = Some vtext"
    "case automatic of None \<Rightarrow> True | Some tools \<Rightarrow> \<exists>v. py_int vtext = Some v \<and> (name, v) \<in> set tools"
    "reserve_step lib sha available t run st name vtext s = (Inr (Some (st', iv', timeout)), s')"
proof -
  obtain run where run: "get_agent_run s (xc_run_id claim) = Some run"
    using assms by (auto simp: reserve_next_def split: option.splits)
  let ?sts = "run_steps s (r_id run)"
  have live: "r_state run = RUNNING" "t < r_run_deadline run"
    using assms run by (auto simp: reserve_next_def Let_def andThen_Inr_iff split: if_splits)
  obtain st where st: "find (\<lambda>st. st_status st \<in> set OPEN_STEP) ?sts = Some st"
    using assms run live by (auto simp: reserve_next_def Let_def split: if_splits option.splits)
  have before: "\<not> list_ex (\<lambda>p. st_status p \<noteq> STEP_SUCCEEDED) (take (nat (st_ordinal st)) ?sts)"
    and known: "\<not> (is_unknown_research (r_agent_kind run) (r_agent_version run) \<or>
       is_unknown_curator (r_agent_kind run) (r_agent_version run))"
    using assms run live st by (auto simp: reserve_next_def Let_def andThen_Inr_iff split: if_splits)
  obtain name vtext where tool: "st_tool_name st = Some name" "st_tool_version st = Some vtext"
    using assms run live st before known
    by (auto simp: reserve_next_def Let_def andThen_Inr_iff split: if_splits option.splits)
  have rest: "(case automatic of None \<Rightarrow> True | Some tools \<Rightarrow> \<exists>v. py_int vtext = Some v \<and> (name, v) \<in> set tools) \<and>
      reserve_step lib sha available t run st name vtext s = (Inr (Some (st', iv', timeout)), s')"
    using assms run live st before known tool
    by (auto simp: reserve_next_def Let_def andThen_Inr_iff split: if_splits option.splits)
  have "list_all (\<lambda>p. st_status p = STEP_SUCCEEDED) (take (nat (st_ordinal st)) ?sts)"
    using before by (auto simp: list_all_iff list_ex_iff)
  then show ?thesis using that [OF run live st _ tool] rest by blast
qed

lemma start_reserved_frame:
  assumes "start_reserved run st iv t s = (Inr e, s')"
  shows "db_runs s' = db_runs s"
    "db_invocations s' = row_upd iv_id (iv_id iv) (begin_invocation t) (db_invocations s)"
    "db_steps s' = row_upd st_id (st_id st) (begin_step t) (db_steps s)"
proof -
  let ?e = "(event_draft (r_id run) ''tool_invocation.started'' ''tool_invocation_started''
          ''tool invocation started''
          (JObj [(''ordinal'', JInt (st_ordinal st)), (''tool_name'', jopt JStr (st_tool_name st))])
          (r_correlation_id run) t)\<lparr>ev_step_id := Some (st_id st), ev_invocation_id := Some (iv_id iv)\<rparr>"
  let ?s1 = "upd_step (st_id st) (begin_step t) (upd_invocation (iv_id iv) (begin_invocation t) s)"
  have s': "s' = snd (append_agent_event ?e ?s1)"
    using assms unfolding start_reserved_def by simp
  show "db_runs s' = db_runs s"
    "db_invocations s' = row_upd iv_id (iv_id iv) (begin_invocation t) (db_invocations s)"
    "db_steps s' = row_upd st_id (st_id st) (begin_step t) (db_steps s)"
    unfolding s' append_agent_event_frame by (simp_all add: upd_step_def upd_invocation_def)
qed

lemma reserve_tool_invocation_OK:
  "reserve_tool_invocation iv s = (Inr iv', s') \<Longrightarrow> iv' = iv\<lparr>iv_id := db_next_id s\<rparr> \<and>
     s' = s\<lparr>db_next_id := Suc (db_next_id s), db_invocations := db_invocations s @ [iv']\<rparr> \<and>
     (\<exists>st. get_run_step s (iv_run_id iv) (iv_step_id iv) = Some st)"
  by (auto simp: reserve_tool_invocation_def uuid4_def add_invocation_def Let_def split: if_splits)

section \<open>Recorded results\<close>

definition not_running :: "uuid \<Rightarrow> 'a agent_db_scheme \<Rightarrow> bool" where
  "not_running i s \<longleftrightarrow> (\<forall>iv \<in> set (db_invocations s). iv_id iv = i \<longrightarrow> iv_status iv \<noteq> INV_RUNNING)"

lemma finalize_not_running:
  assumes "not_running i s"
  shows "finalize_invocation claim sid i output code references t s = (Inr False, s)"
proof -
  have settled: "iv_status iv \<noteq> INV_RUNNING" if "get_run_invocation s rid i = Some iv" for rid iv
    using that assms by (auto simp: get_run_invocation_def not_running_def find_Some_iff)
  show ?thesis
  proof (cases "get_agent_run s (xc_run_id claim)")
    case None
    then show ?thesis by (simp add: finalize_invocation_def)
  next
    case (Some run)
    show ?thesis
    proof (cases "get_run_invocation s (r_id run) i")
      case None
      then show ?thesis using Some
        by (cases "get_run_step s (r_id run) sid") (simp_all add: finalize_invocation_def)
    next
      case iv: (Some iv)
      have stuck: "(iv_status iv \<noteq> INV_RUNNING) = True" using settled [OF iv] by simp
      show ?thesis
        unfolding finalize_invocation_def Some iv option.case
        by (cases "get_run_step s (r_id run) sid") (simp_all only: option.case prod.case stuck if_True)
    qed
  qed
qed

lemma not_running_upd:
  assumes "\<And>x. iv_status (f x) \<noteq> INV_RUNNING"
    and "db_invocations s' = row_upd iv_id i f (db_invocations s)"
  shows "not_running i s'"
proof (unfold not_running_def assms(2), intro ballI impI)
  fix x
  assume "x \<in> set (row_upd iv_id i f (db_invocations s))" and "iv_id x = i"
  then have "\<exists>y. x = f y" unfolding row_upd_set by blast
  then show "iv_status x \<noteq> INV_RUNNING" using assms(1) by blast
qed

lemma expire_invocations_not_running:
  "not_running i s \<Longrightarrow> not_running i (expire_invocations t ivs s)"
proof (induction ivs arbitrary: s)
  case (Cons iv ivs)
  have "not_running i (upd_invocation (iv_id iv) (discard_invocation ''deadline_expired'' t) s)"
    using Cons.prems by (auto simp: not_running_def upd_invocation_def row_upd_set discard_facts)
  with Cons show ?case by simp
qed simp

lemma close_steps_invocations [simp]: "db_invocations (close_steps t sts s) = db_invocations s"
  by (simp add: close_steps_eq)

lemma record_verdict_invocations:
  "db_invocations (snd (record_verdict run st iv v again t s)) =
     row_upd iv_id (iv_id iv) (finish_invocation v t) (db_invocations s)"
proof -
  have "db_invocations (snd (if b then andThen (transition_run rid RUNNING n FAILED t c s1) (\<lambda>_ s2. (x, s2))
      else (x, s1))) = db_invocations s1" for b rid n c x s1
    by (cases b) (simp_all add: andThen_frame [where F = db_invocations] transition_run_frame)
  then have "db_invocations (snd (record_verdict run st iv v again t s)) =
      db_invocations (snd (append_agent_event (finished_event run st iv v t)
        (upd_step (st_id st) (settle_step v again t) (upd_invocation (iv_id iv) (finish_invocation v t) s))))"
    unfolding record_verdict_def Let_def by (intro andThen_frame [where F = db_invocations]) blast
  also have "\<dots> = row_upd iv_id (iv_id iv) (finish_invocation v t) (db_invocations s)"
    unfolding append_agent_event_frame by (simp add: upd_step_def upd_invocation_def)
  finally show ?thesis .
qed

lemma finish_settles:
  "v \<noteq> Undetermined \<Longrightarrow> iv_status (finish_invocation v t x) \<noteq> INV_RUNNING"
  "iv_id (finish_invocation v t x) = iv_id x"
  by (cases v; simp add: finish_invocation_def)+

lemma judge_determined:
  "judge_result iv output code references = Inr v \<Longrightarrow> code \<noteq> None \<or> output \<noteq> None \<Longrightarrow> v \<noteq> Undetermined"
  by (auto simp: judge_result_def split: option.splits sum.splits if_splits)

lemma finalize_settles:
  assumes fin: "finalize_invocation claim sid i output code references t s = (Inr r, s')"
    and changed: "s' \<noteq> s" and "code \<noteq> None \<or> output \<noteq> None"
  shows "not_running i s'"
proof -
  obtain run where run: "get_agent_run s (xc_run_id claim) = Some run"
    using fin changed by (cases "get_agent_run s (xc_run_id claim)") (auto simp: finalize_invocation_def)
  obtain st iv where rows: "get_run_step s (r_id run) sid = Some st"
      "get_run_invocation s (r_id run) i = Some iv" "iv_status iv = INV_RUNNING"
    using fin changed run
    by (auto simp: finalize_invocation_def split: option.splits if_splits)
  have i: "iv_id iv = i" using rows(2) by (auto simp: get_run_invocation_def find_Some_iff)
  have late: "not_running i (upd_invocation i (discard_late c t) s)" for c
    by (rule not_running_upd [where f = "discard_late c t"])
      (simp_all add: discard_late_def upd_invocation_def)
  have live: "\<exists>v again. s' = snd (record_verdict run st iv v again t s) \<and> v \<noteq> Undetermined"
    if "r_state run = RUNNING" "t < r_run_deadline run"
  proof -
    have eq: "finalize_invocation claim sid i output code references t s =
        (case judge_result iv output code references of
           Inl e \<Rightarrow> (Inl e, s)
         | Inr (Failed c) \<Rightarrow> (case retryable iv c of Inl e \<Rightarrow> (Inl e, s)
             | Inr again \<Rightarrow> record_verdict run st iv (Failed c) again t s)
         | Inr v \<Rightarrow> record_verdict run st iv v False t s)"
      using run rows that by (simp add: finalize_invocation_def)
    obtain v where v: "judge_result iv output code references = Inr v"
      using fin unfolding eq by (cases "judge_result iv output code references") auto
    have "\<exists>again. (Inr r, s') = record_verdict run st iv v again t s"
      using fin unfolding eq v by (cases v) (auto split: sum.splits dest: sym)
    then have "\<exists>again. s' = snd (record_verdict run st iv v again t s)" by (metis snd_conv)
    then show ?thesis using judge_determined [OF v assms(3)] by blast
  qed
  consider "r_state run \<noteq> RUNNING" | "r_state run = RUNNING" "r_run_deadline run \<le> t"
    | v again where "s' = snd (record_verdict run st iv v again t s)" "v \<noteq> Undetermined"
    using live by fastforce
  then show ?thesis
  proof cases
    case 1
    then show ?thesis using fin run rows late i
      by (auto simp: finalize_invocation_def)
  next
    case 2
    let ?s1 = "upd_invocation i (discard_late ''deadline_expired'' t) s"
    have s': "s' = snd (expire_execution run (run_steps ?s1 (r_id run)) t ?s1)"
      using 2 fin run rows i by (auto simp: finalize_invocation_def Let_def andThen_Inr_iff)
    have "not_running i (expire_invocations t (step_invocations ?s1 (r_id run)) ?s1)"
      by (rule expire_invocations_not_running [OF late])
    then show ?thesis unfolding s' expire_execution_def
      by (simp add: not_running_def transition_run_frame)
  next
    case 3
    show ?thesis
      by (rule not_running_upd [where f = "finish_invocation v t"])
        (simp_all add: 3 finish_settles record_verdict_invocations i)
  qed
qed

section \<open>The start event\<close>

lemma trail_ok_READY:
  assumes "trail_ok ms READY n"
  shows "ms = [change_meta (Some PLANNING) READY 2, change_meta (Some CREATED) PLANNING 1,
     change_meta None CREATED 0] \<and> n = 2"
proof -
  have created: "ms = [change_meta None CREATED 0] \<and> n = 0" if "trail_ok ms CREATED n" for ms n
    using that by (cases ms) (auto simp: ALL_STATES_def)
  have planning: "ms = [change_meta (Some CREATED) PLANNING 1, change_meta None CREATED 0] \<and> n = 1"
    if "trail_ok ms PLANNING n" for ms n
    using that by (cases ms) (auto simp: ALL_STATES_def dest!: created)
  show ?thesis
    using assms by (cases ms) (auto simp: ALL_STATES_def dest!: planning)
qed

lemma meta_get_change [simp]:
  "meta_get (change_meta p new n) ''previous_state'' = Some (jopt (\<lambda>st. JStr (state_value st)) p)"
  "meta_get (change_meta p new n) ''new_state'' = Some (JStr (state_value new))"
  "meta_get (change_meta p new n) ''resulting_revision'' = Some (JInt n)"
  by (simp_all add: meta_get_def change_meta_def)

lemma sequences_sorted:
  "sequences_ok es \<Longrightarrow> sort_key (\<lambda>e. (ev_sequence e, ev_id e)) es = es"
proof (rule sort_key_id_if_sorted)
  assume ok: "sequences_ok es"
  have at: "ev_sequence (es ! i) = int i" if "i < length es" for i
    using arg_cong [OF ok [unfolded sequences_ok_def], of "\<lambda>xs. xs ! i"] that by simp
  show "sorted (map (\<lambda>e. (ev_sequence e, ev_id e)) es)"
    unfolding sorted_iff_nth_mono_less by (simp add: at less_eq_prod_def)
qed

lemma start_event_found:
  assumes "log_ok s" and "get_agent_run s rid = Some run" and "r_state run = READY"
    and "length (run_events s rid) < 1000"
  shows "original_claim_revision (moved_db run RUNNING t None s) rid = Inr (Some (r_revision run))"
proof -
  let ?e = "logged_event (change_event run RUNNING t) s"
  let ?s' = "moved_db run RUNNING t None s"
  have rid: "r_id run = rid" using assms(2) by (rule runs.get_key)
  have in_runs: "run \<in> set (db_runs s)" using assms(2) by (simp add: get_agent_run_def row_get_in)
  have seq: "sequences_ok (run_events s rid)" and tr: "trail_ok (rev (trail s rid)) READY (r_revision run)"
    using assms(1,3) in_runs rid by (auto simp: log_ok_def)
  have trail: "trail s rid = [change_meta None CREATED 0, change_meta (Some CREATED) PLANNING 1,
      change_meta (Some PLANNING) READY 2]"
    using trail_ok_READY [OF tr] by (metis rev_rev_ident rev.simps append.simps)
  have early: "\<not> is_start_event e" if "e \<in> set (run_events s rid)" for e
  proof
    assume start: "is_start_event e"
    then have "ev_metadata e \<in> set (trail s rid)"
      using that by (auto simp: trail_def is_start_event_def lifecycle_event_def)
    then show False using start by (auto simp: trail is_start_event_def)
  qed
  have events: "run_events ?s' rid = run_events s rid @ [?e]"
    using rid by (simp add: run_events_def moved_db_def)
  have "ev_sequence ?e = int (length (run_events s rid))"
    using sequences_ok_max [OF seq] rid by simp
  then have "sequences_ok (run_events ?s' rid)"
    using seq unfolding events sequences_ok_def by simp
  then have sorted: "sort_key (\<lambda>e. (ev_sequence e, ev_id e)) (run_events ?s' rid) = run_events ?s' rid"
    by (rule sequences_sorted)
  have "get_agent_run ?s' rid \<noteq> None"
    using assms(2) rid by (simp add: moved_db_def get_agent_run_def row_get_upd)
  then have listed: "list_agent_events ?s' rid 1000 = Inr (run_events s rid @ [?e])"
    unfolding list_agent_events_def sorted using assms(4) by (simp add: events)
  have "find is_start_event (run_events s rid) = None"
    using early by (simp add: find_None_iff)
  moreover have "is_start_event ?e"
    using assms(3) by (simp add: is_start_event_def jopt_def)
  ultimately show ?thesis
    by (simp add: original_claim_revision_def listed find_append)
qed

lemma claim_execution_OK:
  assumes "claim_execution rid n automatic t t' s = (Inr (Some claim), s')"
  obtains run where "get_agent_run s rid = Some run" "r_state run = READY" "r_revision run = n"
    "t < r_run_deadline run" "executable_plan automatic run (run_steps s rid)"
    "claim = execution_claim_of (move_run RUNNING t' None run)" "s' = moved_db run RUNNING t' None s"
    "\<not> ((is_reserved_automation_agent_identity (r_agent_kind run) (r_agent_version run) \<or>
            is_automatic_identity (r_agent_kind run) (r_agent_version run)) \<and> automatic = None)"
proof -
  obtain run where run: "get_agent_run s rid = Some run"
    using assms by (auto simp: claim_execution_def split: option.splits)
  have rid: "r_id run = rid" using run by (rule runs.get_key)
  have facts: "r_state run = READY" "r_revision run = n" "t < r_run_deadline run"
    "executable_plan automatic run (run_steps s rid)"
    "\<not> ((is_reserved_automation_agent_identity (r_agent_kind run) (r_agent_version run) \<or>
            is_automatic_identity (r_agent_kind run) (r_agent_version run)) \<and> automatic = None)"
    "andThen (transition_run rid READY n RUNNING t' None s)
            (\<lambda>moved s1. (Inr (Some (execution_claim_of moved)), s1)) = (Inr (Some claim), s')"
    using assms run rid
    by (auto simp: claim_execution_def andThen_Inr_iff split: if_splits sum.splits)
  from facts(6) obtain moved where "transition_run rid READY n RUNNING t' None s = (Inr moved, s')"
    and "claim = execution_claim_of moved"
    by (auto simp: andThen_Inr_iff)
  then show ?thesis using that [OF run facts(1-4) _ _ facts(5)] run by (elim transition_run_OK) simp_all
qed

section \<open>Properties\<close>

text \<open>The witnesses run on a RUNNING Run with two pending steps.\<close>

definition example_running :: agent_db where
  "example_running = example_db [example_run RUNNING 3]
     [example_step 4 0 STEP_PENDING, example_step 5 1 STEP_PENDING] []"

definition example_execution :: execution_claim where
  "example_execution = execution_claim_of (example_run RUNNING 3)"

definition example_sha :: "string \<Rightarrow> string" where
  "example_sha text = example_hash"

definition example_reserved :: tool_invocation where
  "example_reserved = (begin_invocation 200 (new_invocation example_sha (example_run RUNNING 3)
     (example_step 4 0 STEP_PENDING) 0 ''memory.get'' ''1'' (tool_input_json (MemoryGetInput 7)) 200))
     \<lparr>iv_id := 10\<rparr>"

lemma example_reserves:
  "reserve_next example_lib example_sha example_execution False None 200 example_running =
     (Inr (Some (begin_step 200 (example_step 4 0 STEP_PENDING), example_reserved, 10)),
      snd (reserve_next example_lib example_sha example_execution False None 200 example_running))"
  by code_simp

text \<open>C2: Reserving never breaks a budget: if no Run has more invocations than its Tool-call budget,
  more than five of one Tool, or more repeated attempts than its retry budget, then that is still
  so after any call of \<open>reserve_next\<close>, whatever it decides.\<close>

theorem reservations_within_budgets:
  assumes "within_budgets s"
  shows "within_budgets (snd (reserve_next lib sha claim available automatic t s))"
  using assms by (intro budgets.reserve_next_keeps) (auto intro: reserve_insert_budgets)

theorem reservations_within_budgets_witness:
  "within_budgets (snd (reserve_next example_lib example_sha example_execution False None 200 example_running))"
proof (rule reservations_within_budgets)
  have "db_invocations example_running = []" by code_simp
  then show "within_budgets example_running"
    by (simp add: within_budgets_def invocations_linked_def count_invocations_def retries_used_def)
qed

text \<open>A reservation is in order and within the deadline: the Run is RUNNING, its deadline has
  not passed, the step is the first one that is not finished and every step before it succeeded;
  the attempt is the first one of a pending step, or the single repetition of an earlier attempt
  that ended in a transient failure of a read; the Tool is within the automation's list, the
  timeout within the registry's bound; and exactly this one running invocation is added.\<close>

theorem reserve_next_in_order:
  assumes "reserve_next lib sha claim available automatic t s = (Inr (Some (st', iv, timeout)), s')"
    and "\<forall>x \<in> set (db_invocations s). iv_id x < db_next_id s"
  shows "\<exists>run st. get_agent_run s (xc_run_id claim) = Some run \<and> r_state run = RUNNING \<and>
      t < r_run_deadline run \<and>
      find (\<lambda>x. st_status x \<in> set OPEN_STEP) (run_steps s (r_id run)) = Some st \<and>
      list_all (\<lambda>x. st_status x = STEP_SUCCEEDED) (take (nat (st_ordinal st)) (run_steps s (r_id run))) \<and>
      st' = begin_step t st \<and> iv_step_id iv = st_id st \<and> iv_run_id iv = r_id run \<and>
      Some (iv_tool_name iv) = st_tool_name st \<and> Some (iv_tool_version iv) = st_tool_version st \<and>
      iv_status iv = INV_RUNNING \<and> iv_authority iv = ''read'' \<and>
      (iv_attempt iv = 0 \<and> st_status st = STEP_PENDING \<or>
       iv_attempt iv = 1 \<and> st_status st = STEP_RUNNING \<and>
       (\<exists>prior. filter (\<lambda>x. iv_step_id x = st_id st) (step_invocations s (r_id run)) = [prior] \<and>
          iv_attempt prior = 0 \<and> iv_authority prior = ''read'' \<and>
          iv_safe_error_code prior \<in> Some ` set TRANSIENT_READ_CODES)) \<and>
      (\<forall>tools. automatic = Some tools \<longrightarrow>
         (\<exists>v. py_int (iv_tool_version iv) = Some v \<and> (iv_tool_name iv, v) \<in> set tools)) \<and>
      timeout \<le> MAX_TIMEOUT_SECONDS \<and>
      db_invocations s' = db_invocations s @ [iv] \<and> db_runs s' = db_runs s"
proof -
  obtain run st name vtext where run: "get_agent_run s (xc_run_id claim) = Some run" "r_state run = RUNNING"
      "t < r_run_deadline run"
    and st: "find (\<lambda>x. st_status x \<in> set OPEN_STEP) (run_steps s (r_id run)) = Some st"
      "list_all (\<lambda>x. st_status x = STEP_SUCCEEDED) (take (nat (st_ordinal st)) (run_steps s (r_id run)))"
      "st_tool_name st = Some name" "st_tool_version st = Some vtext"
    and automatic: "case automatic of None \<Rightarrow> True
       | Some tools \<Rightarrow> \<exists>v. py_int vtext = Some v \<and> (name, v) \<in> set tools"
    and rs: "reserve_step lib sha available t run st name vtext s = (Inr (Some (st', iv, timeout)), s')"
    using assms(1) by (rule reserve_next_OK)
  obtain attempt version policy iv0 s1 e where
      att: "retry_decision run st (step_invocations s (r_id run)) = Inr (Inr attempt)"
    and pol: "resolve_tool_policy agent_tool_registry (lib_validate lib) name version ''read''
       (reserve_candidate lib name version (st_normalized_input st))
       (reservation_context s run name available) = Inr policy"
    and ins: "reserve_tool_invocation (new_invocation sha run st attempt name vtext (rp_normalized_input policy) t) s
       = (Inr iv0, s1)"
    and start: "start_reserved run st iv0 t s1 = (Inr e, s')"
    and out: "st' = begin_step t st" "iv = begin_invocation t iv0" "timeout = rp_timeout_seconds policy"
    using rs by (rule reserve_step_OK)
  note ins = reserve_tool_invocation_OK [OF ins]
  have iv0: "iv_id iv0 = db_next_id s" "iv_step_id iv0 = st_id st" "iv_run_id iv0 = r_id run"
      "iv_tool_name iv0 = name" "iv_tool_version iv0 = vtext" "iv_attempt iv0 = attempt"
      "iv_authority iv0 = ''read''"
    using ins by (simp_all add: new_invocation_def Let_def)
  have s1: "s1 = s\<lparr>db_next_id := Suc (db_next_id s), db_invocations := db_invocations s @ [iv0]\<rparr>"
    using ins by blast
  have "row_upd iv_id (iv_id iv0) (begin_invocation t) (db_invocations s) = db_invocations s"
    using assms(2) iv0(1) by (intro row_upd_absent) auto
  moreover have "db_invocations s1 = db_invocations s @ [iv0]" "db_runs s1 = db_runs s"
    unfolding s1 by simp_all
  ultimately have db: "db_invocations s' = db_invocations s @ [iv]" "db_runs s' = db_runs s"
    using start_reserved_frame [OF start] out(2)
    by (simp_all add: row_upd_append) (simp add: row_upd_def)
  have open_st: "st_status st \<in> set OPEN_STEP"
    using st(1) by (auto simp: find_Some_iff)
  have timeout: "timeout \<le> MAX_TIMEOUT_SECONDS"
    using pol out(3) by (auto simp: resolve_Inr_iff)
  have attempt: "iv_attempt iv = 0 \<and> st_status st = STEP_PENDING \<or>
       iv_attempt iv = 1 \<and> st_status st = STEP_RUNNING \<and>
       (\<exists>prior. filter (\<lambda>x. iv_step_id x = st_id st) (step_invocations s (r_id run)) = [prior] \<and>
          iv_attempt prior = 0 \<and> iv_authority prior = ''read'' \<and>
          iv_safe_error_code prior \<in> Some ` set TRANSIENT_READ_CODES)"
    using retry_decision_attempt [OF att] open_st iv0(6) out(2)
    by (auto simp: OPEN_STEP_def begin_invocation_def)
  have fields: "iv_step_id iv = st_id st" "iv_run_id iv = r_id run" "iv_tool_name iv = name"
      "iv_tool_version iv = vtext" "iv_status iv = INV_RUNNING" "iv_authority iv = ''read''"
    using iv0 out(2) by (simp_all add: begin_invocation_def)
  have tools: "\<exists>v. py_int vtext = Some v \<and> (name, v) \<in> set tools" if "automatic = Some tools" for tools
    using automatic that by simp
  show ?thesis
    using run st tools out(1) attempt timeout db fields
    by (intro exI [of _ run] exI [of _ st]) simp
qed

theorem reserve_next_in_order_witness:
  "db_invocations (snd (reserve_next example_lib example_sha example_execution False None 200 example_running))
     = [example_reserved]"
proof -
  have fresh: "\<forall>x \<in> set (db_invocations example_running). iv_id x < db_next_id example_running"
    and empty: "db_invocations example_running = []"
    by code_simp+
  show ?thesis using reserve_next_in_order [OF example_reserves fresh] empty by auto
qed

text \<open>A result is recorded at most once: after a call of \<open>finalize_invocation\<close> for an
  invocation changed anything (it recorded a success or failure, or discarded the result), every
  later call for that invocation returns False and changes nothing.\<close>

theorem result_recorded_once:
  assumes "finalize_invocation claim sid i output code references t s = (Inr r, s')"
    and "s' \<noteq> s" and "code \<noteq> None \<or> output \<noteq> None"
  shows "finalize_invocation claim' sid' i output' code' references' t' s' = (Inr False, s')"
  using finalize_settles [OF assms] by (rule finalize_not_running)

definition example_called :: agent_db where
  "example_called = example_db [example_run RUNNING 3] [example_step 4 0 STEP_RUNNING]
     [example_invocation 6 4 INV_RUNNING]"

theorem result_recorded_once_witness:
  "\<exists>s'. finalize_invocation example_execution 4 6 (Some (JObj [(''id'', JStr ''x'')])) None None 250
       example_called = (Inr True, s') \<and>
     finalize_invocation example_execution 4 6 None (Some ''tool_timeout'') None 260 s' = (Inr False, s')"
proof -
  let ?f = "finalize_invocation example_execution 4 6 (Some (JObj [(''id'', JStr ''x'')])) None None 250 example_called"
  have eq: "?f = (Inr True, snd ?f)" by code_simp
  have "db_events (snd ?f) \<noteq> db_events example_called" by code_simp
  then have changed: "snd ?f \<noteq> example_called" by metis
  show ?thesis
    using result_recorded_once [OF eq changed, of example_execution 4 None "Some ''tool_timeout''" None 260] eq
    by auto
qed

text \<open>After a cancellation the executor is powerless: whatever it still does for the Run, a late
  result is dropped, nothing more is reserved, the Run is not completed, and the database does
  not change.\<close>

theorem cancelled_run_takes_nothing:
  assumes "cancel_run rid n t s = (Inr run', s')"
    and "get_agent_run s rid = Some run" and "r_state run \<noteq> CANCELLED" and "invocations_linked s"
    and "xc_run_id claim = rid"
    and "\<forall>iv \<in> set (db_invocations s'). iv_id iv = i \<longrightarrow> iv_run_id iv = rid"
  shows "finalize_invocation claim sid i output code references t' s' = (Inr False, s') \<and>
     reserve_next lib sha claim available automatic t' s' = (Inr None, s') \<and>
     complete_run claim daily watch t' s' = (Inr None, s')"
proof -
  have live: "\<exists>run. get_agent_run s rid = Some run \<and> r_state run \<noteq> CANCELLED"
    using assms(2,3) by blast
  note cancelled = cancel_run_OK [OF assms(1) live assms(4)]
  have "not_running i s'"
    using cancelled(1) assms(6) by (auto simp: not_running_def no_open_work_def OPEN_INVOCATION_def)
  then show ?thesis
    using cancelled(2,3) assms(5)
    by (simp add: finalize_not_running reserve_next_def complete_run_def)
qed

theorem cancelled_run_takes_nothing_witness:
  "\<exists>s'. cancel_run 3 3 220 example_called = (Inr (move_run CANCELLED 220 None (example_run RUNNING 3)), s') \<and>
     finalize_invocation example_execution 4 6 None (Some ''tool_timeout'') None 260 s' = (Inr False, s')"
proof -
  have eq: "cancel_run 3 3 220 example_called =
      (Inr (move_run CANCELLED 220 None (example_run RUNNING 3)), snd (cancel_run 3 3 220 example_called))"
    by code_simp
  have row: "get_agent_run example_called 3 = Some (example_run RUNNING 3)" by code_simp
  have state: "r_state (example_run RUNNING 3) \<noteq> CANCELLED" by code_simp
  have linked: "invocations_linked example_called" by code_simp
  have claim: "xc_run_id example_execution = 3" by code_simp
  have own: "\<forall>iv \<in> set (db_invocations (snd (cancel_run 3 3 220 example_called))). iv_id iv = 6 \<longrightarrow> iv_run_id iv = 3"
    by code_simp
  show ?thesis
    using cancelled_run_takes_nothing [OF eq row state linked claim own, of 4 None "Some ''tool_timeout''" None 260] eq
    by blast
qed

text \<open>C3: A Run that completes has succeeded in every step, of which there is at least one, and the
  result event its Agent owes is in the log; when the result is missing the same call moves the
  Run to FAILED instead.\<close>

theorem complete_run_requires_results:
  assumes "complete_run claim daily watch t s = (Inr (Some run'), s')"
  shows "\<exists>run events. get_agent_run s (xc_run_id claim) = Some run \<and> r_state run = RUNNING \<and>
      run_steps s (r_id run) \<noteq> [] \<and>
      list_all (\<lambda>st. st_status st = STEP_SUCCEEDED) (run_steps s (r_id run)) \<and>
      list_agent_events s (r_id run) 1000 = Inr events \<and>
      (r_state run' = COMPLETED \<and>
         (is_research (r_agent_kind run) (r_agent_version run) \<longrightarrow> has_event events ''research.result'') \<and>
         (is_curator (r_agent_kind run) (r_agent_version run) \<longrightarrow> has_event events ''curator.result'') \<and>
         (daily \<longrightarrow> has_event events ''daily_brief.result'') \<and>
         (watch \<longrightarrow> has_event events ''project_watch.result'')
       \<or> r_state run' = FAILED \<and> r_safe_error_code run' = missing_result run daily watch events \<and>
         missing_result run daily watch events \<noteq> None)"
proof -
  obtain run where run: "get_agent_run s (xc_run_id claim) = Some run"
    using assms by (auto simp: complete_run_def split: option.splits)
  have live: "r_state run = RUNNING" "run_steps s (r_id run) \<noteq> []"
    "\<not> list_ex (\<lambda>st. st_status st \<noteq> STEP_SUCCEEDED) (run_steps s (r_id run))"
    using assms run by (auto simp: complete_run_def split: if_splits)
  obtain events where events: "list_agent_events s (r_id run) 1000 = Inr events"
    using assms run live by (auto simp: complete_run_def split: sum.splits)
  have all_done: "list_all (\<lambda>st. st_status st = STEP_SUCCEEDED) (run_steps s (r_id run))"
    using live(3) by (auto simp: list_all_iff list_ex_iff)
  show ?thesis
  proof (cases "missing_result run daily watch events")
    case None
    then have "r_state run' = COMPLETED"
      using assms run live events by (auto simp: complete_run_def andThen_Inr_iff elim!: transition_run_OK)
    with None show ?thesis using run live(1,2) all_done events
      by (auto simp: missing_result_def split: if_splits)
  next
    case (Some code)
    then have "r_state run' = FAILED \<and> r_safe_error_code run' = Some code"
      using assms run live events
      by (auto simp: complete_run_def andThen_Inr_iff move_run_def elim!: transition_run_OK)
    with Some show ?thesis using run live(1,2) all_done events by auto
  qed
qed

theorem complete_run_requires_results_witness:
  "r_safe_error_code (move_run FAILED 250 (Some ''research_result_missing'') (example_run RUNNING 3)) =
     missing_result (example_run RUNNING 3) False False []"
proof -
  let ?s = "example_db [example_run RUNNING 3] [example_step 4 0 STEP_SUCCEEDED] []"
  have eq: "complete_run example_execution False False 250 ?s =
      (Inr (Some (move_run FAILED 250 (Some ''research_result_missing'') (example_run RUNNING 3))),
       snd (complete_run example_execution False False 250 ?s))"
    by code_simp
  have row: "get_agent_run ?s (xc_run_id example_execution) = Some (example_run RUNNING 3)"
    and none: "list_agent_events ?s 3 1000 = Inr []" and i: "r_id (example_run RUNNING 3) = 3" by code_simp+
  obtain run events where found: "get_agent_run ?s (xc_run_id example_execution) = Some run"
      "list_agent_events ?s (r_id run) 1000 = Inr events"
      "r_safe_error_code (move_run FAILED 250 (Some ''research_result_missing'') (example_run RUNNING 3)) =
         missing_result run False False events"
    using complete_run_requires_results [OF eq] by auto
  then have "run = example_run RUNNING 3" using row by simp
  moreover from this have "events = []" using found(2) none i by simp
  ultimately show ?thesis using found(3) by simp
qed

text \<open>A plan is started at most once per request: after a claim for execution succeeded at a
  revision, a second request with the same revision is refused as a transition conflict while the
  Run is running, and one with any other revision as a revision conflict.\<close>

theorem execution_claimed_once:
  assumes "claim_execution rid n automatic t t' s = (Inr (Some claim), s')"
    and "log_ok s" and "length (run_events s rid) < 1000"
  shows "claim_execution rid m automatic u u' s' =
     (Inl (if m = n then AgentRunTransitionConflictError else AgentRunRevisionConflictError), s')"
proof -
  from assms(1) obtain run where run: "get_agent_run s rid = Some run" "r_state run = READY" "r_revision run = n"
    and s': "s' = moved_db run RUNNING t' None s"
    and auto: "\<not> ((is_reserved_automation_agent_identity (r_agent_kind run) (r_agent_version run) \<or>
            is_automatic_identity (r_agent_kind run) (r_agent_version run)) \<and> automatic = None)"
    by (rule claim_execution_OK)
  have rid: "r_id run = rid" using run(1) by (rule runs.get_key)
  have row: "get_agent_run s' rid = Some (move_run RUNNING t' None run)"
    using run(1) rid by (simp add: s' moved_db_def get_agent_run_def row_get_upd)
  have "original_claim_revision s' rid = Inr (Some n)"
    using start_event_found [OF assms(2) run(1,2) assms(3)] run(3) by (simp add: s')
  then show ?thesis
    using row rid auto by (auto simp: claim_execution_def TERMINAL_STATES_def)
qed

text \<open>The witness starts from an empty database: create, plan, execute.\<close>

definition example_planned :: agent_db where
  "example_planned = (let
      s1 = snd (create_run id \<lparr> rc_project_id = None, rc_agent_kind = ''manual'', rc_agent_version = ''1'',
        rc_goal_summary = ''goal'' \<rparr> example_hash example_hash 100 (example_db [] [] []));
      (claim, s2) = claim_planning 11 0 None 110 s1
    in case claim of Inr (Some c) \<Rightarrow> snd (finalize_plan c [example_validated] 120 s2) | _ \<Rightarrow> s2)"

lemma example_planned_log: "log_ok example_planned"
proof -
  have start: "log_ok (example_db [] [] [])" by (simp add: log_ok_def example_db_def)
  show ?thesis
    unfolding example_planned_def Let_def
    by (auto intro!: audit.finalize_plan_keeps audit.claim_planning_keeps log_ok_create start
        split: prod.splits sum.splits option.splits)
      (metis audit.finalize_plan_keeps audit.claim_planning_keeps log_ok_create start id_apply snd_conv)+
qed

theorem execution_claimed_once_witness:
  "\<exists>c s'. claim_execution 11 2 None 130 131 example_planned = (Inr (Some c), s') \<and>
     claim_execution 11 2 None 140 141 s' = (Inl AgentRunTransitionConflictError, s')"
proof -
  let ?c = "claim_execution 11 2 None 130 131 example_planned"
  have eq: "?c = (Inr (Some (the (case fst ?c of Inr x \<Rightarrow> x))), snd ?c)" by code_simp
  have few: "length (run_events example_planned 11) < 1000" by code_simp
  show ?thesis
    using execution_claimed_once [OF eq example_planned_log few, of 2 140 141] eq by auto
qed

text \<open>Calling a reserved Tool gives a result or an error code, never both and never neither; the
  only exception that escapes is the test-only fault signal. A result is the validated output of
  one of the five executable handlers, run on an input its schema accepted, within the timeout.\<close>

theorem tool_call_result:
  "case call_reserved_tool lib check_output handle provider elapsed st iv timeout of
     Inl e \<Rightarrow> e = FaultInjectionError
   | Inr (None, code) \<Rightarrow> code \<noteq> None
   | Inr (Some out, code) \<Rightarrow> code = None \<and> elapsed \<le> seconds timeout \<and>
       (\<exists>version d v raw. py_int (iv_tool_version iv) = Some version \<and>
          (iv_tool_name iv, version) \<in> set executable_identities \<and>
          get_exact agent_tool_registry (iv_tool_name iv) version = Some d \<and>
          handle (iv_tool_name iv, version) v = Inr raw \<and>
          check_output (td_output_schema d) raw = Some out)"
proof -
  let ?ok = "\<lambda>r. case r of
     Inl e \<Rightarrow> True
   | Inr (None, code) \<Rightarrow> code \<noteq> None
   | Inr (Some out, code) \<Rightarrow> code = None \<and> elapsed \<le> seconds timeout \<and>
       (\<exists>version d v raw. py_int (iv_tool_version iv) = Some version \<and>
          (iv_tool_name iv, version) \<in> set executable_identities \<and>
          get_exact agent_tool_registry (iv_tool_name iv) version = Some d \<and>
          handle (iv_tool_name iv, version) v = Inr raw \<and>
          check_output (td_output_schema d) raw = Some out)"
  have attempt: "?ok (attempt_call lib check_output handle provider elapsed st iv timeout)"
    unfolding attempt_call_def dispatch_exact_def
    by (auto split: sum.splits option.splits if_splits)
  have errors: "call_error_code e = None \<longleftrightarrow> e = FaultInjectionError" for e
    by (cases e) simp_all
  show ?thesis
  proof (cases "attempt_call lib check_output handle provider elapsed st iv timeout")
    case (Inl e)
    then show ?thesis using errors [of e]
      by (cases "call_error_code e") (simp_all add: call_reserved_tool_def)
  next
    case (Inr r)
    then show ?thesis using attempt by (simp add: call_reserved_tool_def)
  qed
qed

end
