(* ===== verification/Run_Recovery.thy ===== *)
theory Run_Recovery
  imports Run_Execution_Properties
begin

text \<open>
  Stale detection and single-Run recovery (\<open>app/agent_runs/recovery.py\<close>). \<open>scan\<close> only reports;
  \<open>prepare_one\<close> expires, fails or repairs one Run and says whether its execution may go on.
  Instants are kept as such in a finding (the code writes their ISO text).
\<close>

definition RECOVERY_GRACE :: int where "RECOVERY_GRACE = seconds 30"
definition SCAN_LIMIT :: nat where "SCAN_LIMIT = 100"

definition invocation_definition :: "tool_invocation \<Rightarrow> tool_definition option" where
  "invocation_definition iv =
    (case py_int (iv_tool_version iv) of
       None \<Rightarrow> None
     | Some version \<Rightarrow> get_exact agent_tool_registry (iv_tool_name iv) version)"

definition exact_pure_read_definition ::
  "agent_run \<Rightarrow> agent_step option \<Rightarrow> tool_invocation \<Rightarrow> bool" where
  "exact_pure_read_definition run step iv \<longleftrightarrow>
    (case step of
       None \<Rightarrow> False
     | Some st \<Rightarrow>
        r_registry_version run = REGISTRY_VERSION \<and>
        st_tool_name st = Some (iv_tool_name iv) \<and> st_tool_version st = Some (iv_tool_version iv) \<and>
        iv_authority iv = ''read'' \<and>
        (case invocation_definition iv of
           None \<Rightarrow> False | Some d \<Rightarrow> idempotency_value (td_idempotency d) = ''pure_read''))"

definition stale_at :: "tool_invocation \<Rightarrow> instant" where
  "stale_at iv = iv_reserved_at iv +
     seconds (case invocation_definition iv of None \<Rightarrow> 0 | Some d \<Rightarrow> td_timeout_seconds d) +
     RECOVERY_GRACE"

definition active_invocations :: "tool_invocation list \<Rightarrow> tool_invocation list" where
  "active_invocations ivs = filter (\<lambda>iv. iv_status iv \<in> set OPEN_INVOCATION) ivs"

definition step_of :: "agent_step list \<Rightarrow> tool_invocation \<Rightarrow> agent_step option" where
  "step_of sts iv = find (\<lambda>st. st_id st = iv_step_id iv) sts"

section \<open>The scan\<close>

record recovery_finding =
  rf_run_id :: string
  rf_state :: run_state
  rf_code :: string
  rf_ordinal :: "int option"
  rf_attempt :: "int option"
  rf_relevant_at :: instant

definition finding ::
  "agent_run \<Rightarrow> string \<Rightarrow> int option \<Rightarrow> int option \<Rightarrow> instant \<Rightarrow> recovery_finding option" where
  "finding run code k attempt t =
     Some \<lparr> rf_run_id = uuid_text (r_id run), rf_state = r_state run, rf_code = code, rf_ordinal = k,
       rf_attempt = attempt, rf_relevant_at = t \<rparr>"

definition classify_running ::
  "agent_run \<Rightarrow> agent_step list \<Rightarrow> tool_invocation list \<Rightarrow> instant \<Rightarrow> recovery_finding option" where
  "classify_running run sts ivs t =
    (case active_invocations ivs of
       iv # _ \<Rightarrow>
         if stale_at iv \<le> t then
           finding run
             (if exact_pure_read_definition run (step_of sts iv) iv then ''stale_pure_read''
              else ''ambiguous_recovery_denied'')
             (map_option st_ordinal (step_of sts iv)) (Some (iv_attempt iv)) (stale_at iv)
         else None
     | [] \<Rightarrow>
         finding run
           (if sts \<noteq> [] \<and> list_all (\<lambda>st. st_status st = STEP_SUCCEEDED) sts then ''completion_pending''
            else if list_ex (\<lambda>st. st_status st \<in> set OPEN_STEP) sts then ''durable_work_remaining''
            else ''recovery_state_invalid'')
           None None (r_updated_at run))"

definition classify_run ::
  "'a agent_db_scheme \<Rightarrow> agent_run \<Rightarrow> instant \<Rightarrow> exn + recovery_finding option" where
  "classify_run s run t =
    (case list_agent_steps s (r_id run) 13 of
       Inl e \<Rightarrow> Inl e
     | Inr sts \<Rightarrow> Inr
        (if r_state run \<in> {CREATED, PLANNING} \<and> r_planning_deadline run \<le> t
           then finding run ''deadline_expired'' None None (r_planning_deadline run)
         else if r_state run \<in> {READY, RUNNING} \<and> r_run_deadline run \<le> t
           then finding run ''deadline_expired'' None None (r_run_deadline run)
         else if r_state run = RUNNING
           then classify_running run sts (step_invocations s (r_id run)) t
         else None))"

fun scan_runs ::
  "'a agent_db_scheme \<Rightarrow> agent_run list \<Rightarrow> instant \<Rightarrow> exn + recovery_finding list" where
  "scan_runs s [] t = Inr []"
| "scan_runs s (run # runs) t =
    (case classify_run s run t of
       Inl e \<Rightarrow> Inl e
     | Inr f \<Rightarrow> (case scan_runs s runs t of
         Inl e \<Rightarrow> Inl e
       | Inr fs \<Rightarrow> Inr (case f of None \<Rightarrow> fs | Some x \<Rightarrow> x # fs)))"

definition scan :: "'a agent_db_scheme \<Rightarrow> instant \<Rightarrow> exn + recovery_finding list" where
  "scan s t = scan_runs s (list_nonterminal_runs s SCAN_LIMIT) t"

section \<open>Recovering one Run\<close>

definition recover_invocation :: "instant \<Rightarrow> tool_invocation \<Rightarrow> tool_invocation" where
  "recover_invocation t iv = iv\<lparr>iv_status := INV_DISCARDED,
     iv_safe_error_code := Some ''tool_timeout'',
     iv_started_at := or_now (iv_started_at iv) (iv_reserved_at iv), iv_finished_at := Some t\<rparr>"

definition recovery_event :: "agent_run \<Rightarrow> tool_invocation \<Rightarrow> instant \<Rightarrow> agent_event" where
  "recovery_event run iv t =
     (event_draft (r_id run) ''agent_recovery.reconciled'' ''stale_pure_read_discarded''
        ''stale pure-read invocation discarded'' (JObj [(''attempt'', JInt (iv_attempt iv))])
        (r_correlation_id run) t)
     \<lparr>ev_step_id := Some (iv_step_id iv), ev_invocation_id := Some (iv_id iv)\<rparr>"

definition stop_with ::
  "('a agent_db_scheme, agent_run) outcome \<Rightarrow> ('a agent_db_scheme, execution_claim option) outcome" where
  "stop_with m = andThen m (\<lambda>_ s1. (Inr None, s1))"

definition recover_active ::
  "agent_run \<Rightarrow> agent_step list \<Rightarrow> tool_invocation \<Rightarrow> instant \<Rightarrow> 'a agent_db_scheme
     \<Rightarrow> ('a agent_db_scheme, execution_claim option) outcome" where
  "recover_active run sts iv t s =
    (if t < stale_at iv then (Inr None, s)
     else if \<not> exact_pure_read_definition run (step_of sts iv) iv then
       (case step_of sts iv of
          None \<Rightarrow> stop_with (transition_run (r_id run) RUNNING (r_revision run) FAILED t
                    (Some ''recovery_state_invalid'') s)
        | Some st \<Rightarrow> stop_with (fail_active_step run st ''ambiguous_recovery_denied'' t s))
     else
       andThen (append_agent_event (recovery_event run iv t)
           (upd_invocation (iv_id iv) (recover_invocation t) s))
         (\<lambda>_ s1.
            if r_retry_budget run \<le> iv_attempt iv then
              (case step_of sts iv of
                 None \<Rightarrow> (Inl AssertionError, s1)
               | Some st \<Rightarrow> stop_with (fail_active_step run st ''retry_exhausted'' t s1))
            else (Inr (Some (execution_claim_of run)), s1)))"

definition recover_running ::
  "agent_run \<Rightarrow> agent_step list \<Rightarrow> tool_invocation list \<Rightarrow> instant \<Rightarrow> 'a agent_db_scheme
     \<Rightarrow> ('a agent_db_scheme, execution_claim option) outcome" where
  "recover_running run sts ivs t s =
    (case active_invocations ivs of
       _ # _ # _ \<Rightarrow> stop_with (transition_run (r_id run) RUNNING (r_revision run) FAILED t
                        (Some ''recovery_state_invalid'') s)
     | [iv] \<Rightarrow> recover_active run sts iv t s
     | [] \<Rightarrow>
        if sts = [] \<or> \<not> list_ex (\<lambda>st. st_status st \<in> set OPEN_STEP) sts then
          if sts \<noteq> [] \<and> list_all (\<lambda>st. st_status st = STEP_SUCCEEDED) sts
            then (Inr (Some (execution_claim_of run)), s)
          else stop_with (transition_run (r_id run) RUNNING (r_revision run) FAILED t
                 (Some ''recovery_state_invalid'') s)
        else if list_ex (\<lambda>st. st_status st = STEP_RUNNING \<and>
                   \<not> list_ex (\<lambda>iv. iv_step_id iv = st_id st) ivs) sts then
          (case find (\<lambda>st. st_status st = STEP_RUNNING) sts of
             Some st \<Rightarrow> stop_with (fail_active_step run st ''recovery_state_invalid'' t s)
           | None \<Rightarrow> (Inl AssertionError, s))
        else (Inr (Some (execution_claim_of run)), s))"

definition prepare_one ::
  "uuid \<Rightarrow> instant \<Rightarrow> 'a agent_db_scheme \<Rightarrow> ('a agent_db_scheme, execution_claim option) outcome" where
  "prepare_one rid t s =
    (case get_agent_run s rid of
       None \<Rightarrow> (Inl AgentRunNotFoundError, s)
     | Some run \<Rightarrow>
        if is_reserved_automation_agent_identity (r_agent_kind run) (r_agent_version run)
          then (Inl ExecutionAgentVersionError, s)
        else if r_state run \<in> set TERMINAL_STATES then (Inr None, s)
        else if r_state run \<in> {CREATED, PLANNING} \<and> r_planning_deadline run \<le> t
          then stop_with (transition_run (r_id run) (r_state run) (r_revision run) EXPIRED t
                 (Some ''deadline_expired'') s)
        else if r_state run = READY then
          (if r_run_deadline run \<le> t
           then stop_with (transition_run (r_id run) READY (r_revision run) EXPIRED t
                  (Some ''deadline_expired'') s)
           else (Inr None, s))
        else if r_state run \<noteq> RUNNING then (Inr None, s)
        else if r_run_deadline run \<le> t
          then stop_with (expire_execution run (run_steps s (r_id run)) t s)
        else recover_running run (run_steps s (r_id run)) (step_invocations s (r_id run)) t s)"

section \<open>Invariants\<close>

lemma recover_invocation_identity [simp]:
  "invocation_identity (recover_invocation t iv) = invocation_identity iv"
  by (simp add: invocation_identity_def recover_invocation_def)

lemma recovery_event_simps [simp]:
  "ev_type (recovery_event run iv t) = ''agent_recovery.reconciled''"
  "ev_run_id (recovery_event run iv t) = r_id run"
  "ev_idempotency_hash (recovery_event run iv t) = None"
  by (simp_all add: recovery_event_def)

context session_invariant
begin

lemma stop_with_keeps: "I (snd m) \<Longrightarrow> I (snd (stop_with m))"
  unfolding stop_with_def by (rule write_andThen) simp_all

lemma recover_active_keeps:
  assumes "I s"
  shows "I (snd (recover_active run sts iv t s))"
proof -
  have "I (upd_invocation (iv_id iv) (recover_invocation t) s)"
    using assms by (rule write_invocation) simp
  then show ?thesis
    unfolding recover_active_def using assms
    by (auto intro!: stop_with_keeps write_andThen write_event write_transition fail_active_step_keeps
        simp: lifecycle_event_def split: option.splits)
qed

lemma recover_running_keeps: "I s \<Longrightarrow> I (snd (recover_running run sts ivs t s))"
  unfolding recover_running_def
  by (auto intro!: stop_with_keeps write_transition fail_active_step_keeps recover_active_keeps
      split: list.splits option.splits)

lemma prepare_one_keeps: "I s \<Longrightarrow> I (snd (prepare_one rid t s))"
  unfolding prepare_one_def
  by (auto intro!: stop_with_keeps write_transition expire_execution_keeps recover_running_keeps
      split: option.splits)

end

section \<open>Properties\<close>

lemma expire_invocations_rows [simp]:
  "db_runs (expire_invocations t ivs s) = db_runs s"
  "db_steps (expire_invocations t ivs s) = db_steps s"
  "db_next_id (expire_invocations t ivs s) = db_next_id s"
  by (induction ivs arbitrary: s) (simp_all add: upd_invocation_def)

lemma close_steps_runs [simp]: "db_runs (close_steps t sts s) = db_runs s"
  by (simp add: close_steps_eq)

text \<open>What the scan reports as past its deadline, recovery expires: for a Run that classifies as
  \<open>deadline_expired\<close>, \<open>prepare_one\<close> at the same time moves it to EXPIRED, with the same code, and
  does not resume it.\<close>

theorem recovery_expires_what_scan_reports:
  assumes "classify_run s run t = Inr (Some f)" and "rf_code f = ''deadline_expired''"
    and "get_agent_run s rid = Some run"
    and "\<not> is_reserved_automation_agent_identity (r_agent_kind run) (r_agent_version run)"
  shows "\<exists>s'. prepare_one rid t s = (Inr None, s') \<and>
     get_agent_run s' rid = Some (move_run EXPIRED t (Some ''deadline_expired'') run)"
proof -
  let ?code = "Some ''deadline_expired''"
  have rid: "r_id run = rid" using assms(3) by (rule runs.get_key)
  have due: "r_state run \<in> {CREATED, PLANNING} \<and> r_planning_deadline run \<le> t \<or>
      r_state run \<in> {READY, RUNNING} \<and> r_run_deadline run \<le> t"
    using assms(1,2)
    by (auto simp: classify_run_def classify_running_def finding_def split: sum.splits if_splits list.splits)
  have stopped: "\<exists>s'. stop_with (transition_run rid (r_state run) (r_revision run) EXPIRED t ?code u) = (Inr None, s') \<and>
      get_agent_run s' rid = Some (move_run EXPIRED t ?code run)" if "db_runs u = db_runs s" for u
  proof -
    have row: "get_agent_run u rid = Some run" using assms(3) that by (simp add: get_agent_run_def)
    have "transition_run rid (r_state run) (r_revision run) EXPIRED t ?code u =
        (Inr (move_run EXPIRED t ?code run), moved_db run EXPIRED t ?code u)"
      using row due by (intro transition_run_succeeds) (auto simp: legal_transition_def transition_deadline_def)
    then show ?thesis using moved_db_row [OF row] by (simp add: stop_with_def)
  qed
  show ?thesis
  proof (cases "r_state run = RUNNING")
    case True
    then show ?thesis
      using stopped [of "close_steps t (run_steps s rid) (expire_invocations t (step_invocations s rid) s)"]
        assms(3,4) due rid
      by (simp add: prepare_one_def expire_execution_def TERMINAL_STATES_def)
  next
    case False
    have "prepare_one rid t s =
        stop_with (transition_run rid (r_state run) (r_revision run) EXPIRED t ?code s)"
      using False assms(3,4) due rid by (cases "r_state run") (simp_all add: prepare_one_def TERMINAL_STATES_def)
    then show ?thesis using stopped [of s] by simp
  qed
qed

theorem recovery_expires_what_scan_reports_witness:
  "\<exists>s'. prepare_one 3 (100 + minutes 11) example_called = (Inr None, s') \<and>
     get_agent_run s' 3 = Some (move_run EXPIRED (100 + minutes 11) (Some ''deadline_expired'') (example_run RUNNING 3))"
proof (rule recovery_expires_what_scan_reports)
  show "classify_run example_called (example_run RUNNING 3) (100 + minutes 11) =
      Inr (Some \<lparr> rf_run_id = uuid_text 3, rf_state = RUNNING, rf_code = ''deadline_expired'', rf_ordinal = None,
        rf_attempt = None, rf_relevant_at = 100 + minutes 10 \<rparr>)"
    by code_simp
  show "get_agent_run example_called 3 = Some (example_run RUNNING 3)" by code_simp
  show "\<not> is_reserved_automation_agent_identity (r_agent_kind (example_run RUNNING 3)) (r_agent_version (example_run RUNNING 3))"
    by code_simp
qed simp

text \<open>Recovery hands a Run back for execution only when that is safe: the Run is still RUNNING,
  before its deadline and unchanged, its steps are as they were, every call that was open is past
  its timeout and grace period, a read, and within the retry budget, and no call is open
  afterwards.\<close>

theorem recovery_leaves_no_call_open:
  assumes "prepare_one rid t s = (Inr (Some claim), s')"
  shows "\<exists>run. get_agent_run s rid = Some run \<and> r_state run = RUNNING \<and> t < r_run_deadline run \<and>
     claim = execution_claim_of run \<and> db_runs s' = db_runs s \<and> db_steps s' = db_steps s \<and>
     (\<forall>iv \<in> set (active_invocations (step_invocations s rid)).
        stale_at iv \<le> t \<and> iv_authority iv = ''read'' \<and> iv_attempt iv < r_retry_budget run) \<and>
     active_invocations (step_invocations s' rid) = []"
proof -
  obtain run where run: "get_agent_run s rid = Some run"
    using assms by (auto simp: prepare_one_def split: option.splits)
  have rid: "r_id run = rid" using run by (rule runs.get_key)
  have live: "r_state run = RUNNING" "t < r_run_deadline run"
    and rec: "recover_running run (run_steps s rid) (step_invocations s rid) t s = (Inr (Some claim), s')"
    using assms run rid by (auto simp: prepare_one_def stop_with_def andThen_Inr_iff split: if_splits)
  show ?thesis
  proof (cases "active_invocations (step_invocations s rid)")
    case Nil
    then have "claim = execution_claim_of run \<and> s' = s"
      using rec by (auto simp: recover_running_def stop_with_def andThen_Inr_iff split: if_splits option.splits)
    with Nil run live show ?thesis by auto
  next
    case (Cons iv rest)
    have "rest = []"
      using rec Cons by (cases rest) (auto simp: recover_running_def stop_with_def andThen_Inr_iff)
    with Cons have active: "active_invocations (step_invocations s rid) = [iv]" by simp
    with rec have ra: "recover_active run (run_steps s rid) iv t s = (Inr (Some claim), s')"
      by (simp add: recover_running_def)
    then have facts: "stale_at iv \<le> t" "exact_pure_read_definition run (step_of (run_steps s rid) iv) iv"
      by (auto simp: recover_active_def stop_with_def andThen_Inr_iff split: if_splits option.splits)
    let ?u = "upd_invocation (iv_id iv) (recover_invocation t) s"
    from ra facts obtain e where ev: "append_agent_event (recovery_event run iv t) ?u = (Inr e, s')"
      and budget: "iv_attempt iv < r_retry_budget run" and claim: "claim = execution_claim_of run"
      by (auto simp: recover_active_def stop_with_def andThen_Inr_iff split: if_splits option.splits)
    have s': "s' = snd (append_agent_event (recovery_event run iv t) ?u)" by (simp add: ev)
    have rows: "db_runs s' = db_runs s" "db_steps s' = db_steps s"
      "db_invocations s' = row_upd iv_id (iv_id iv) (recover_invocation t) (db_invocations s)"
      unfolding s' append_agent_event_frame by (simp_all add: upd_invocation_def)
    have "iv_status x \<notin> set OPEN_INVOCATION" if "x \<in> set (step_invocations s' rid)" for x
    proof -
      from that have x: "x \<in> set (db_invocations s')" "iv_run_id x = rid" "get_step s' (iv_step_id x) \<noteq> None"
        by (auto simp: step_invocations_def)
      from x(1) consider "x \<in> set (db_invocations s)" "iv_id x \<noteq> iv_id iv"
        | y where "x = recover_invocation t y" unfolding rows(3) row_upd_set by blast
      then show ?thesis
      proof cases
        case 1
        then have "x \<in> set (step_invocations s rid)"
          using x(2,3) rows(2) by (simp add: step_invocations_def get_step_def)
        moreover have "set (active_invocations (step_invocations s rid)) = {iv}" by (simp add: active)
        ultimately show ?thesis using 1(2) by (auto simp: active_invocations_def)
      next
        case 2
        then show ?thesis by (simp add: recover_invocation_def OPEN_INVOCATION_def)
      qed
    qed
    then have "active_invocations (step_invocations s' rid) = []"
      by (simp add: active_invocations_def filter_empty_conv)
    moreover have "iv_authority iv = ''read''"
      using facts(2) by (auto simp: exact_pure_read_definition_def split: option.splits)
    ultimately show ?thesis
      using run live claim rows facts(1) budget active by auto
  qed
qed

theorem recovery_leaves_no_call_open_witness:
  "\<exists>s'. prepare_one 3 (seconds 60) example_called = (Inr (Some example_execution), s') \<and>
     active_invocations (step_invocations s' 3) = []"
proof -
  have eq: "prepare_one 3 (seconds 60) example_called =
      (Inr (Some example_execution), snd (prepare_one 3 (seconds 60) example_called))"
    by code_simp
  show ?thesis using recovery_leaves_no_call_open [OF eq] eq by auto
qed

end
