(* ===== verification/Run_Approvals.thy ===== *)
theory Run_Approvals
  imports Run_Recovery
begin

text \<open>
  Proposed actions and their human review (\<open>app/agent_runs/approvals.py\<close>, and the commit rule of
  the review route in \<open>app/api/routes/agent_runs.py\<close>). A proposal is a Memory update that nobody
  applies here: it is recorded with the version of the Memory it was made for, and reviewed once.
  Parameters: \<open>sha\<close> (SHA-256), \<open>parse_update\<close> (the \<open>MemoryUpdate\<close> schema: the fields that
  were set, with their JSON values) and \<open>same_instant\<close> (whether two ISO texts denote the same
  time).
\<close>

definition ACTION_TYPE :: string where "ACTION_TYPE = ''memory.update''"
definition TARGET_TYPE :: string where "TARGET_TYPE = ''memory''"
definition PROPOSAL_LIFETIME :: int where "PROPOSAL_LIFETIME = hours 24"
definition MAX_EVIDENCE :: nat where "MAX_EVIDENCE = 20"

definition ALLOWED_EVIDENCE_TYPES :: "string list" where
  "ALLOWED_EVIDENCE_TYPES = [''project'', ''memory'', ''source'', ''source_chunk'']"

definition digest :: "(string \<Rightarrow> string) \<Rightarrow> json \<Rightarrow> string" where
  "digest sha value = sha (dumps value)"

definition target_version :: "(string \<Rightarrow> string) \<Rightarrow> memory_row \<Rightarrow> string" where
  "target_version sha m = digest sha (JObj
     [(''id'', JStr (uuid_text (m_id m))),
      (''project_id'', jopt (\<lambda>i. JStr (uuid_text i)) (m_project_id m)),
      (''content'', JStr (m_content m)),
      (''source'', jopt JStr (m_source m)),
      (''title'', jopt JStr (m_title m)),
      (''summary'', jopt JStr (m_summary m)),
      (''memory_type'', JStr (m_memory_type m)),
      (''importance'', m_importance m),
      (''confidence'', m_confidence m),
      (''status'', JStr (m_status m)),
      (''event_time'', jopt JStr (m_event_time m)),
      (''expires_at'', jopt JStr (m_expires_at m)),
      (''supersedes_id'', jopt (\<lambda>i. JStr (uuid_text i)) (m_supersedes_id m)),
      (''updated_at'', JStr (m_updated_at m))])"

section \<open>Normalizing a proposal\<close>

definition memory_field :: "memory_row \<Rightarrow> string \<Rightarrow> json" where
  "memory_field m field = the (map_of
     [(''content'', JStr (m_content m)), (''source'', jopt JStr (m_source m)),
      (''title'', jopt JStr (m_title m)), (''summary'', jopt JStr (m_summary m)),
      (''memory_type'', JStr (m_memory_type m)), (''importance'', m_importance m),
      (''confidence'', m_confidence m), (''status'', JStr (m_status m)),
      (''event_time'', jopt JStr (m_event_time m)), (''expires_at'', jopt JStr (m_expires_at m)),
      (''supersedes_id'', jopt (\<lambda>i. JStr (uuid_text i)) (m_supersedes_id m))] field)"

definition same_field :: "(string \<Rightarrow> string \<Rightarrow> bool) \<Rightarrow> string \<Rightarrow> json \<Rightarrow> json \<Rightarrow> bool" where
  "same_field same_instant field a b =
    (case (a, b) of
       (JStr x, JStr y) \<Rightarrow>
         if field = ''event_time'' \<or> field = ''expires_at'' then same_instant x y else x = y
     | _ \<Rightarrow> a = b)"

definition normalize_memory_update ::
  "(json \<Rightarrow> (string \<times> json) list option) \<Rightarrow> (string \<Rightarrow> string \<Rightarrow> bool) \<Rightarrow> json \<Rightarrow> memory_row
     \<Rightarrow> exn + (string \<times> json) list" where
  "normalize_memory_update parse_update same_instant proposed target =
    (case parse_update proposed of
       None \<Rightarrow> Inl InvalidProposalError
     | Some updates \<Rightarrow>
        if list_all (\<lambda>(field, v). same_field same_instant field (memory_field target field) v) updates
        then Inl InvalidProposalError
        else Inr updates)"

definition proposal_hash ::
  "(string \<Rightarrow> string) \<Rightarrow> uuid \<Rightarrow> string \<Rightarrow> (string \<times> json) list \<Rightarrow> string" where
  "proposal_hash sha target version normalized = digest sha (JObj
     [(''action_type'', JStr ACTION_TYPE), (''target_type'', JStr TARGET_TYPE),
      (''target_id'', JStr (uuid_text target)), (''target_version'', JStr version),
      (''normalized_input'', JObj normalized)])"

section \<open>Evidence\<close>

text \<open>
  \<open>str(uuid.UUID(text))\<close>: the prefixes \<open>urn:\<close> and \<open>uuid:\<close>, surrounding braces and all hyphens
  are removed, 32 characters must remain, and \<open>int(_, 16)\<close> reads them (with its sign, \<open>0x\<close>,
  whitespace and underscores); a negative number is out of range.
\<close>

fun remove_text :: "string \<Rightarrow> nat \<Rightarrow> string \<Rightarrow> string" where
  "remove_text p 0 t = t"
| "remove_text p (Suc fuel) t =
    (case t of [] \<Rightarrow> []
     | c # cs \<Rightarrow> if take (length p) t = p then remove_text p fuel (drop (length p) t)
               else c # remove_text p fuel cs)"

definition strip_chars :: "char list \<Rightarrow> string \<Rightarrow> string" where
  "strip_chars cs t = rev (dropWhile (\<lambda>c. c \<in> set cs) (rev (dropWhile (\<lambda>c. c \<in> set cs) t)))"

definition hex_value :: "char \<Rightarrow> nat option" where
  "hex_value c = (let n = of_char c :: nat in
     if 48 \<le> n \<and> n \<le> 57 then Some (n - 48)
     else if 97 \<le> n \<and> n \<le> 102 then Some (n - 87)
     else if 65 \<le> n \<and> n \<le> 70 then Some (n - 55)
     else None)"

fun hex_run :: "nat \<Rightarrow> bool \<Rightarrow> string \<Rightarrow> nat option" where
  "hex_run acc prev [] = (if prev then Some acc else None)"
| "hex_run acc prev (c # cs) =
    (case hex_value c of
       Some d \<Rightarrow> hex_run (16 * acc + d) True cs
     | None \<Rightarrow> if c = CHR ''_'' \<and> prev then hex_run acc False cs else None)"

definition hex_digits :: "string \<Rightarrow> nat option" where
  "hex_digits t =
    (case t of
       CHR ''0'' # c # cs \<Rightarrow>
         if c = CHR ''x'' \<or> c = CHR ''X''
         then (case cs of CHR ''_'' # cs' \<Rightarrow> hex_run 0 False cs' | _ \<Rightarrow> hex_run 0 False cs)
         else hex_run 0 False t
     | _ \<Rightarrow> hex_run 0 False t)"

definition py_int16 :: "string \<Rightarrow> int option" where
  "py_int16 text = (case py_strip text of
       [] \<Rightarrow> None
     | c # cs \<Rightarrow>
         if c = CHR ''-'' then map_option (\<lambda>n. - int n) (hex_digits cs)
         else if c = CHR ''+'' then map_option int (hex_digits cs)
         else map_option int (hex_digits (c # cs)))"

definition parse_uuid :: "string \<Rightarrow> uuid option" where
  "parse_uuid t =
    (let t1 = remove_text ''urn:'' (length t) t;
         t2 = remove_text ''uuid:'' (length t1) t1;
         hex = filter (\<lambda>c. c \<noteq> CHR ''-'') (strip_chars ''{}'' t2)
     in if length hex \<noteq> 32 then None
        else (case py_int16 hex of
                None \<Rightarrow> None | Some n \<Rightarrow> if n < 0 then None else Some (nat n)))"

text \<open>\<open>str(raw_id)\<close>: only a string or an integer can spell an identifier.\<close>

definition id_text :: "json option \<Rightarrow> string option" where
  "id_text v = (case v of Some (JStr t) \<Rightarrow> Some t | Some (JInt n) \<Rightarrow> Some (str_int n) | _ \<Rightarrow> None)"

definition safe_reference :: "string \<Rightarrow> uuid \<Rightarrow> json option \<Rightarrow> json" where
  "safe_reference entity i version = JObj
     ([(''entity_type'', JStr entity), (''id'', JStr (uuid_text i))] @
      (case version of
         Some (JStr v) \<Rightarrow> if length v = 64 then [(''version'', JStr v)] else []
       | _ \<Rightarrow> []))"

text \<open>An unhashable entity type (a list or an object) makes the membership test raise TypeError.\<close>

fun safe_evidence_loop ::
  "json list \<Rightarrow> (string \<times> uuid) list \<Rightarrow> json list \<Rightarrow> exn + json list" where
  "safe_evidence_loop result seen [] = Inr result"
| "safe_evidence_loop result seen (r # rs) =
    (case meta_get r ''entity_type'' of
       Some (JArr _) \<Rightarrow> Inl TypeError
     | Some (JObj _) \<Rightarrow> Inl TypeError
     | Some (JStr entity) \<Rightarrow>
        if entity \<notin> set ALLOWED_EVIDENCE_TYPES then safe_evidence_loop result seen rs
        else
         (case Option.bind (id_text (meta_get r ''id'')) parse_uuid of
            None \<Rightarrow> safe_evidence_loop result seen rs
          | Some i \<Rightarrow>
             let fresh = (entity, i) \<notin> set seen;
                 result' = (if fresh then result @ [safe_reference entity i (meta_get r ''version'')] else result);
                 seen' = (if fresh then (entity, i) # seen else seen)
             in if length result' = MAX_EVIDENCE then Inr result'
                else safe_evidence_loop result' seen' rs)
     | _ \<Rightarrow> safe_evidence_loop result seen rs)"

definition safe_evidence :: "json list \<Rightarrow> exn + json list" where
  "safe_evidence references = safe_evidence_loop [] [] references"

definition join_commas :: "string list \<Rightarrow> string" where
  "join_commas ts = (case ts of [] \<Rightarrow> [] | t # rest \<Rightarrow> t @ concat (map (\<lambda>u. '', '' @ u) rest))"

definition preview :: "(string \<times> json) list \<Rightarrow> string" where
  "preview normalized = take 2000 (''Update Memory fields: '' @ join_commas (sort (map fst normalized)))"

section \<open>Creating a proposal\<close>

record proposal_env =
  pe_sha :: "string \<Rightarrow> string"
  pe_parse_update :: "json \<Rightarrow> (string \<times> json) list option"
  pe_same_instant :: "string \<Rightarrow> string \<Rightarrow> bool"

definition new_approval ::
  "agent_run \<Rightarrow> agent_step \<Rightarrow> uuid \<Rightarrow> string \<Rightarrow> (string \<times> json) list \<Rightarrow> string \<Rightarrow> json list \<Rightarrow> instant
     \<Rightarrow> uuid \<Rightarrow> approval_request" where
  "new_approval run st target version normalized identity evidence t execution =
     \<lparr> ap_id = 0, ap_run_id = r_id run, ap_step_id = st_id st, ap_action_type = ACTION_TYPE,
       ap_target_type = TARGET_TYPE, ap_target_public_id = target, ap_target_version = version,
       ap_normalized_input = JObj normalized, ap_proposal_hash = identity,
       ap_preview = preview normalized, ap_evidence_references = evidence,
       ap_risk_classification = ''bounded_memory_update'', ap_status = APPROVAL_PENDING,
       ap_created_at = t, ap_expires_at = t + PROPOSAL_LIFETIME, ap_reviewed_at = None,
       ap_reviewer_metadata = None, ap_execution_identity = execution \<rparr>"

definition requested_event ::
  "proposal_env \<Rightarrow> agent_run \<Rightarrow> agent_step \<Rightarrow> approval_request \<Rightarrow> string \<Rightarrow> instant \<Rightarrow> agent_event" where
  "requested_event env run st ap identity t =
     (event_draft (r_id run) ''approval_requested'' ''proposal_created''
        ''Approval request created for human review''
        (JObj [(''action_type'', JStr ACTION_TYPE), (''target_type'', JStr TARGET_TYPE)])
        (r_correlation_id run) t)
     \<lparr>ev_step_id := Some (st_id st), ev_approval_id := Some (ap_id ap),
      ev_idempotency_hash := Some (digest (pe_sha env)
        (JObj [(''event'', JStr ''created''), (''proposal'', JStr identity)]))\<rparr>"

definition store_proposal ::
  "proposal_env \<Rightarrow> agent_run \<Rightarrow> agent_step \<Rightarrow> memory_row \<Rightarrow> string \<Rightarrow> (string \<times> json) list
     \<Rightarrow> json list option \<Rightarrow> instant \<Rightarrow> 'a agent_db_scheme
     \<Rightarrow> ('a agent_db_scheme, approval_request \<times> bool) outcome" where
  "store_proposal env run st target version normalized validated_evidence t s =
    (let identity = proposal_hash (pe_sha env) (m_id target) version normalized in
     case get_exact_approval s (r_id run) (st_id st) ACTION_TYPE TARGET_TYPE (m_id target) version identity of
       Some existing \<Rightarrow> (Inr (existing, False), s)
     | None \<Rightarrow>
        (case safe_evidence (case validated_evidence of
                None \<Rightarrow> list_step_evidence s (r_id run) (st_id st) | Some es \<Rightarrow> es) of
           Inl e \<Rightarrow> (Inl e, s)
         | Inr evidence \<Rightarrow>
            let (execution, s1) = uuid4 s in
            andThen (insert_approval_request
                (new_approval run st (m_id target) version normalized identity evidence t execution) s1)
              (\<lambda>ap s2. andThen (append_agent_event (requested_event env run st ap identity t) s2)
                (\<lambda>_ s3. (Inr (ap, True), s3)))))"

definition create_proposal_for ::
  "proposal_env \<Rightarrow> uuid \<Rightarrow> int \<Rightarrow> string \<Rightarrow> uuid \<Rightarrow> json \<Rightarrow> json list option \<Rightarrow> string option \<Rightarrow> bool
     \<Rightarrow> instant \<Rightarrow> 'a agent_db_scheme \<Rightarrow> ('a agent_db_scheme, approval_request \<times> bool) outcome" where
  "create_proposal_for env rid k action target_id proposed validated_evidence expected allow_curator t s =
    (if action \<noteq> ACTION_TYPE then (Inl InvalidProposalError, s)
     else
      (case get_agent_run s rid of
         None \<Rightarrow> (Inl NotFoundError, s)
       | Some run \<Rightarrow>
          if is_research (r_agent_kind run) (r_agent_version run) then (Inl InvalidProposalError, s)
          else if allow_curator \<and> \<not> is_curator (r_agent_kind run) (r_agent_version run)
            then (Inl InvalidProposalError, s)
          else if is_curator (r_agent_kind run) (r_agent_version run) \<and> \<not> allow_curator
            then (Inl InvalidProposalError, s)
          else
           (case get_step_by_ordinal s rid k of
              None \<Rightarrow> (Inl NotFoundError, s)
            | Some st \<Rightarrow>
               (case lock_memory s target_id of
                  None \<Rightarrow> (Inl NotFoundError, s)
                | Some target \<Rightarrow>
                   if m_project_id target \<noteq> r_project_id run then (Inl NotFoundError, s)
                   else
                    let version = target_version (pe_sha env) target in
                    if expected \<noteq> None \<and> expected \<noteq> Some version then (Inl InvalidProposalError, s)
                    else
                     (case normalize_memory_update (pe_parse_update env) (pe_same_instant env)
                              proposed target of
                        Inl e \<Rightarrow> (Inl e, s)
                      | Inr normalized \<Rightarrow>
                         store_proposal env run st target version normalized validated_evidence t s)))))"

definition create_proposal ::
  "proposal_env \<Rightarrow> uuid \<Rightarrow> int \<Rightarrow> string \<Rightarrow> uuid \<Rightarrow> json \<Rightarrow> instant
     \<Rightarrow> 'a agent_db_scheme \<Rightarrow> ('a agent_db_scheme, approval_request \<times> bool) outcome" where
  "create_proposal env rid k action target_id proposed t s =
     create_proposal_for env rid k action target_id proposed None None False t s"

definition create_curator_proposal ::
  "proposal_env \<Rightarrow> uuid \<Rightarrow> int \<Rightarrow> string \<Rightarrow> uuid \<Rightarrow> string \<Rightarrow> json \<Rightarrow> json list \<Rightarrow> instant
     \<Rightarrow> 'a agent_db_scheme \<Rightarrow> ('a agent_db_scheme, approval_request \<times> bool) outcome" where
  "create_curator_proposal env rid k action target_id expected proposed evidence t s =
    (if \<not> is_hash expected then (Inl InvalidProposalError, s)
     else create_proposal_for env rid k action target_id proposed (Some evidence) (Some expected) True t s)"

section \<open>Review\<close>

datatype decision = Approve | Reject

fun decision_value :: "decision \<Rightarrow> string" where
  "decision_value Approve = ''approve''"
| "decision_value Reject = ''reject''"

fun desired_status :: "decision \<Rightarrow> approval_status" where
  "desired_status Approve = APPROVAL_APPROVED"
| "desired_status Reject = APPROVAL_REJECTED"

definition settle_approval :: "approval_status \<Rightarrow> json \<Rightarrow> instant \<Rightarrow> approval_request \<Rightarrow> approval_request" where
  "settle_approval status meta t ap =
     ap\<lparr>ap_status := status, ap_reviewed_at := Some t, ap_reviewer_metadata := Some meta\<rparr>"

text \<open>The outcome of a review: new status, reviewer metadata, code, message and the error to raise.\<close>

definition review_outcome ::
  "(string \<Rightarrow> string) \<Rightarrow> approval_request \<Rightarrow> agent_run \<Rightarrow> memory_row option \<Rightarrow> decision \<Rightarrow> instant
     \<Rightarrow> approval_status \<times> json \<times> string \<times> string \<times> exn option" where
  "review_outcome sha ap run target d t =
    (if ap_expires_at ap \<le> t then
       (APPROVAL_EXPIRED, JObj [(''source'', JStr ''server''), (''reason'', JStr ''expired'')],
        ''approval_expired'', ''Approval request expired'', Some ExpiredApprovalError)
     else if (case target of None \<Rightarrow> True
              | Some m \<Rightarrow> m_project_id m \<noteq> r_project_id run \<or> target_version sha m \<noteq> ap_target_version ap) then
       (APPROVAL_SUPERSEDED, JObj [(''source'', JStr ''server''), (''reason'', JStr ''stale_target'')],
        ''approval_superseded'', ''Approval request target is stale'', Some StaleApprovalError)
     else
       (desired_status d, JObj [(''source'', JStr ''human_api''), (''decision'', JStr (decision_value d))],
        ''approval_'' @ approval_status_value (desired_status d),
        ''Approval request '' @ approval_status_value (desired_status d) @ '' by human review'', None))"

definition reviewed_event ::
  "(string \<Rightarrow> string) \<Rightarrow> agent_run \<Rightarrow> approval_request \<Rightarrow> approval_status \<Rightarrow> string \<Rightarrow> string \<Rightarrow> instant
     \<Rightarrow> agent_event" where
  "reviewed_event sha run ap status code message t =
     (event_draft (r_id run) code code message
        (JObj [(''action_type'', JStr (ap_action_type ap)), (''status'', JStr (approval_status_value status))])
        (r_correlation_id run) t)
     \<lparr>ev_step_id := Some (ap_step_id ap), ev_approval_id := Some (ap_id ap),
      ev_idempotency_hash := Some (digest sha
        (JObj [(''event'', JStr code), (''approval'', JStr (uuid_text (ap_id ap)))]))\<rparr>"

definition review_proposal ::
  "(string \<Rightarrow> string) \<Rightarrow> uuid \<Rightarrow> decision \<Rightarrow> instant \<Rightarrow> 'a agent_db_scheme
     \<Rightarrow> ('a agent_db_scheme, approval_request \<times> bool) outcome" where
  "review_proposal sha aid d t s =
    (case get_approval s aid of
       None \<Rightarrow> (Inl NotFoundError, s)
     | Some ap \<Rightarrow>
        if ap_status ap = desired_status d then (Inr (ap, False), s)
        else if ap_status ap \<noteq> APPROVAL_PENDING then (Inl ReviewConflictError, s)
        else
         (case get_agent_run s (ap_run_id ap) of
            None \<Rightarrow> (Inl NotFoundError, s)
          | Some run \<Rightarrow>
             let (status, meta, code, message, terminal_error) =
                   review_outcome sha ap run (lock_memory s (ap_target_public_id ap)) d t in
             andThen (append_agent_event (reviewed_event sha run ap status code message t)
                 (upd_approval aid (settle_approval status meta t) s))
               (\<lambda>_ s1. case terminal_error of
                   Some e \<Rightarrow> (Inl e, s1)
                 | None \<Rightarrow> (Inr (settle_approval status meta t ap, True), s1))))"

text \<open>
  \<open>review_approval_request\<close>, the route: an expired or stale request is committed although the call
  raised; every other exception rolls back.
\<close>

definition review_commits ::
  "('s, 'r) outcome \<Rightarrow> 's \<Rightarrow> 's" where
  "review_commits m s = (case fst m of
       Inl e \<Rightarrow> if e = ExpiredApprovalError \<or> e = StaleApprovalError then snd m else s
     | Inr _ \<Rightarrow> snd m)"

section \<open>Invariants\<close>

lemma settle_approval_content [simp]:
  "approval_content (settle_approval status meta t ap) = approval_content ap"
  by (simp add: approval_content_def settle_approval_def)

lemma approval_events [simp]:
  "ev_type (requested_event env run st ap identity t) = ''approval_requested''"
  "ev_type (reviewed_event sha run ap status code message t) = code"
  "ev_run_id (requested_event env run st ap identity t) = r_id run"
  "ev_run_id (reviewed_event sha run ap status code message t) = r_id run"
  by (simp_all add: requested_event_def reviewed_event_def)

lemma review_outcome_code:
  "review_outcome sha ap run target d t = (status, meta, code, message, err) \<Longrightarrow> \<not> lifecycle_event code"
  by (cases d) (auto simp: review_outcome_def lifecycle_event_def split: if_splits)

context approving_invariant
begin

lemma store_proposal_keeps: "I s \<Longrightarrow> I (snd (store_proposal env run st target v normalized evidence t s))"
  using write_uuid [of s] unfolding store_proposal_def Let_def
  by (auto intro!: write_andThen write_new_approval write_event simp: lifecycle_event_def
      split: option.splits sum.splits prod.splits)

lemma create_proposal_for_keeps:
  "I s \<Longrightarrow> I (snd (create_proposal_for env rid k action i proposed evidence expected curator t s))"
  unfolding create_proposal_for_def Let_def
  by (auto intro!: store_proposal_keeps split: option.splits sum.splits)

lemma create_proposal_keeps: "I s \<Longrightarrow> I (snd (create_proposal env rid k action i proposed t s))"
  unfolding create_proposal_def by (rule create_proposal_for_keeps)

lemma create_curator_proposal_keeps:
  "I s \<Longrightarrow> I (snd (create_curator_proposal env rid k action i expected proposed evidence t s))"
  unfolding create_curator_proposal_def by (simp add: create_proposal_for_keeps)

end

context session_invariant
begin

lemma review_proposal_keeps:
  assumes "I s"
  shows "I (snd (review_proposal sha aid d t s))"
proof -
  have "I (upd_approval aid (settle_approval status meta t) s)" for status meta
    using assms by (rule write_approval) simp
  then show ?thesis
    unfolding review_proposal_def Let_def using assms
    by (auto intro!: write_andThen write_event dest: review_outcome_code split: option.splits prod.splits)
qed

end

section \<open>Proposals in closed form\<close>

lemma create_proposal_for_OK:
  assumes "create_proposal_for env rid k action i proposed evidence expected curator t s = (Inr r, s')"
  obtains run st target normalized where
    "action = ACTION_TYPE" "get_agent_run s rid = Some run" "\<not> is_research (r_agent_kind run) (r_agent_version run)"
    "is_curator (r_agent_kind run) (r_agent_version run) = curator"
    "get_step_by_ordinal s rid k = Some st" "lock_memory s i = Some target"
    "m_project_id target = r_project_id run"
    "expected = None \<or> expected = Some (target_version (pe_sha env) target)"
    "normalize_memory_update (pe_parse_update env) (pe_same_instant env) proposed target = Inr normalized"
    "store_proposal env run st target (target_version (pe_sha env) target) normalized evidence t s = (Inr r, s')"
  using assms by (auto simp: create_proposal_for_def Let_def split: if_splits option.splits sum.splits)

lemma create_proposal_for_intro:
  assumes "get_agent_run s rid = Some run" "\<not> is_research (r_agent_kind run) (r_agent_version run)"
    "is_curator (r_agent_kind run) (r_agent_version run) = curator"
    "get_step_by_ordinal s rid k = Some st" "lock_memory s i = Some target"
    "m_project_id target = r_project_id run"
    "expected = None \<or> expected = Some (target_version (pe_sha env) target)"
    "normalize_memory_update (pe_parse_update env) (pe_same_instant env) proposed target = Inr normalized"
  shows "create_proposal_for env rid k ACTION_TYPE i proposed evidence expected curator t s =
    store_proposal env run st target (target_version (pe_sha env) target) normalized evidence t s"
  using assms by (auto simp: create_proposal_for_def Let_def)

lemma insert_approval_request_OK:
  "insert_approval_request ap s = (Inr ap', s') \<Longrightarrow> ap' = ap\<lparr>ap_id := db_next_id s\<rparr> \<and>
     s' = s\<lparr>db_next_id := Suc (db_next_id s), db_approvals := db_approvals s @ [ap']\<rparr>"
  by (auto simp: insert_approval_request_def uuid4_def add_approval_def Let_def split: if_splits)

lemma store_proposal_OK:
  assumes "store_proposal env run st target version normalized evidence t s = (Inr (ap, created), s')"
  shows "db_runs s' = db_runs s \<and> db_steps s' = db_steps s \<and> db_memories s' = db_memories s \<and>
    get_exact_approval s' (r_id run) (st_id st) ACTION_TYPE TARGET_TYPE (m_id target) version
      (proposal_hash (pe_sha env) (m_id target) version normalized) = Some ap"
proof -
  let ?identity = "proposal_hash (pe_sha env) (m_id target) version normalized"
  show ?thesis
  proof (cases "get_exact_approval s (r_id run) (st_id st) ACTION_TYPE TARGET_TYPE (m_id target) version ?identity")
    case (Some old)
    then show ?thesis using assms by (simp add: store_proposal_def Let_def)
  next
    case none: None
    obtain es where es: "safe_evidence (case evidence of None \<Rightarrow> list_step_evidence s (r_id run) (st_id st) | Some es \<Rightarrow> es) = Inr es"
      using assms none by (auto simp: store_proposal_def Let_def split: sum.splits)
    let ?s1 = "s\<lparr>db_next_id := Suc (db_next_id s)\<rparr>"
    let ?ap = "new_approval run st (m_id target) version normalized ?identity es t (db_next_id s)"
    from assms none es obtain s2 e where ins: "insert_approval_request ?ap ?s1 = (Inr ap, s2)"
      and ev: "append_agent_event (requested_event env run st ap ?identity t) s2 = (Inr e, s')"
      by (auto simp: store_proposal_def Let_def uuid4_def andThen_Inr_iff)
    have s2: "ap = ?ap\<lparr>ap_id := db_next_id ?s1\<rparr>"
      "s2 = ?s1\<lparr>db_next_id := Suc (db_next_id ?s1), db_approvals := db_approvals ?s1 @ [ap]\<rparr>"
      using insert_approval_request_OK [OF ins] by simp_all
    have s': "s' = snd (append_agent_event (requested_event env run st ap ?identity t) s2)"
      by (simp add: ev)
    have rows: "db_runs s' = db_runs s" "db_steps s' = db_steps s" "db_memories s' = db_memories s"
      "db_approvals s' = db_approvals s @ [ap]"
      unfolding s' append_agent_event_frame by (simp_all add: s2(2))
    have "ap_run_id ap = r_id run \<and> ap_step_id ap = st_id st \<and> ap_action_type ap = ACTION_TYPE \<and>
       ap_target_type ap = TARGET_TYPE \<and> ap_target_public_id ap = m_id target \<and>
       ap_target_version ap = version \<and> ap_proposal_hash ap = ?identity"
      unfolding s2(1) by (simp add: new_approval_def)
    then show ?thesis using none rows by (simp add: get_exact_approval_def find_append)
  qed
qed

lemma safe_evidence_loop_OK:
  assumes "safe_evidence_loop result seen rs = Inr es"
    and "map (\<lambda>r. (meta_get r ''entity_type'', meta_get r ''id'')) result =
      map (\<lambda>(e, i). (Some (JStr e), Some (JStr (uuid_text i)))) (rev seen)"
    and "distinct seen" and "fst ` set seen \<subseteq> set ALLOWED_EVIDENCE_TYPES" and "length result < MAX_EVIDENCE"
  shows "\<exists>keys. map (\<lambda>r. (meta_get r ''entity_type'', meta_get r ''id'')) es =
      map (\<lambda>(e, i). (Some (JStr e), Some (JStr (uuid_text i)))) keys \<and>
    distinct keys \<and> fst ` set keys \<subseteq> set ALLOWED_EVIDENCE_TYPES \<and> length es \<le> MAX_EVIDENCE"
  using assms
proof (induction rs arbitrary: result seen)
  case Nil
  then show ?case by (intro exI [of _ "rev seen"]) auto
next
  case (Cons r rs)
  note hyps = Cons.prems(2-5)
  show ?case
  proof (cases "\<exists>entity i. meta_get r ''entity_type'' = Some (JStr entity) \<and>
      entity \<in> set ALLOWED_EVIDENCE_TYPES \<and> Option.bind (id_text (meta_get r ''id'')) parse_uuid = Some i \<and>
      (entity, i) \<notin> set seen")
    case False
    then have "safe_evidence_loop result seen rs = Inr es"
      using Cons.prems(1,5) by (auto split: option.splits json.splits if_splits)
    then show ?thesis using Cons.IH hyps by blast
  next
    case True
    then obtain entity i where r: "meta_get r ''entity_type'' = Some (JStr entity)"
      "entity \<in> set ALLOWED_EVIDENCE_TYPES" "Option.bind (id_text (meta_get r ''id'')) parse_uuid = Some i"
      "(entity, i) \<notin> set seen" by blast
    let ?new = "safe_reference entity i (meta_get r ''version'')"
    let ?result = "result @ [?new]"
    have "meta_get ?new ''entity_type'' = Some (JStr entity)" "meta_get ?new ''id'' = Some (JStr (uuid_text i))"
      by (simp_all add: safe_reference_def meta_get_def)
    then have keys: "map (\<lambda>r. (meta_get r ''entity_type'', meta_get r ''id'')) ?result =
        map (\<lambda>(e, i). (Some (JStr e), Some (JStr (uuid_text i)))) (rev ((entity, i) # seen))"
      using hyps(1) by simp
    have good: "distinct ((entity, i) # seen)" "fst ` set ((entity, i) # seen) \<subseteq> set ALLOWED_EVIDENCE_TYPES"
      using hyps(2,3) r by simp_all
    show ?thesis
    proof (cases "length ?result = MAX_EVIDENCE")
      case True
      then have "es = ?result" using Cons.prems(1) r by simp
      then show ?thesis using keys good True by (intro exI [of _ "rev ((entity, i) # seen)"]) auto
    next
      case False
      then have "safe_evidence_loop ?result ((entity, i) # seen) rs = Inr es"
        using Cons.prems(1) r by simp
      moreover have "length ?result < MAX_EVIDENCE" using False hyps(4) by simp
      ultimately show ?thesis using Cons.IH [OF _ keys good] by blast
    qed
  qed
qed

section \<open>Properties\<close>

definition example_memory :: memory_row where
  "example_memory = \<lparr> m_id = 7, m_project_id = Some 1, m_content = ''old'', m_source = None,
     m_title = None, m_summary = None, m_memory_type = ''fact'', m_importance = JFloat ''0.5'',
     m_confidence = JFloat ''0.5'', m_status = ''active'', m_event_time = None, m_expires_at = None,
     m_supersedes_id = None, m_updated_at = ''2026-01-01T00:00:00+00:00'' \<rparr>"

definition example_env :: proposal_env where
  "example_env = \<lparr> pe_sha = example_sha,
     pe_parse_update = (\<lambda>j. case j of JObj kvs \<Rightarrow> Some kvs | _ \<Rightarrow> None), pe_same_instant = (=) \<rparr>"

definition example_proposable :: agent_db where
  "example_proposable = (example_db [(example_run RUNNING 3)\<lparr>r_agent_kind := ''manual''\<rparr>]
     [example_step 4 0 STEP_SUCCEEDED] [])\<lparr>db_memories := [example_memory]\<rparr>"

definition example_manual :: agent_run where
  "example_manual = (example_run RUNNING 3)\<lparr>r_agent_kind := ''manual''\<rparr>"

definition example_approval :: approval_request where
  "example_approval = (new_approval example_manual (example_step 4 0 STEP_SUCCEEDED) 7 example_hash
     [(''content'', JStr ''new'')] example_hash [] 200 10)\<lparr>ap_id := 11\<rparr>"

definition example_pending :: agent_db where
  "example_pending = example_proposable\<lparr>db_approvals := [example_approval]\<rparr>"

lemma example_digests [simp]:
  "digest example_sha v = example_hash"
  "target_version example_sha m = example_hash"
  "proposal_hash example_sha i version normalized = example_hash"
  by (simp_all add: digest_def target_version_def proposal_hash_def example_sha_def)

lemma example_rows:
  "get_agent_run example_proposable 3 = Some example_manual"
  "get_step_by_ordinal example_proposable 3 0 = Some (example_step 4 0 STEP_SUCCEEDED)"
  "get_run_step example_proposable 3 4 = Some (example_step 4 0 STEP_SUCCEEDED)"
  "lock_memory example_proposable 7 = Some example_memory"
  "db_approvals example_proposable = []" "db_next_id example_proposable = 10"
  "db_events example_proposable = []"
  "list_step_evidence example_proposable 3 4 = []"
  "r_id example_manual = 3" "r_agent_kind example_manual = ''manual''" "r_project_id example_manual = Some 1"
  "m_id example_memory = 7" "m_project_id example_memory = Some 1"
  "st_id (example_step 4 0 STEP_SUCCEEDED) = 4"
  by code_simp+

lemma example_normalizes:
  "normalize_memory_update (pe_parse_update example_env) (pe_same_instant example_env)
     (JObj [(''content'', JStr ''new'')]) example_memory = Inr [(''content'', JStr ''new'')]"
  by (simp add: normalize_memory_update_def example_env_def memory_field_def same_field_def example_memory_def)

lemma example_proposal:
  "\<exists>s'. create_proposal example_env 3 0 ''memory.update'' 7 (JObj [(''content'', JStr ''new'')]) 200
     example_proposable = (Inr (example_approval, True), s')"
proof -
  have frame: "get_agent_run (example_proposable\<lparr>db_next_id := n\<rparr>) i = get_agent_run example_proposable i"
    "get_run_step (example_proposable\<lparr>db_next_id := n\<rparr>) i j = get_run_step example_proposable i j"
    "get_agent_run (example_proposable\<lparr>db_next_id := n, db_approvals := aps\<rparr>) i = get_agent_run example_proposable i"
    "run_events (example_proposable\<lparr>db_next_id := n, db_approvals := aps\<rparr>) i = run_events example_proposable i"
    for n i j aps
    by (simp_all add: get_agent_run_def get_run_step_def run_events_def)
  have "create_proposal example_env 3 0 ''memory.update'' 7 (JObj [(''content'', JStr ''new'')]) 200 example_proposable =
      store_proposal example_env example_manual (example_step 4 0 STEP_SUCCEEDED) example_memory example_hash
        [(''content'', JStr ''new'')] None 200 example_proposable"
    by (simp add: create_proposal_def create_proposal_for_def example_rows example_normalizes ACTION_TYPE_def is_research_def
        is_curator_def Let_def, simp add: example_env_def)
  moreover have "pe_sha example_env = example_sha" by (simp add: example_env_def)
  moreover have "safe_evidence [] = Inr []" by (simp add: safe_evidence_def)
  ultimately show ?thesis
    by (simp add: store_proposal_def example_rows Let_def uuid4_def insert_approval_request_def
        get_exact_approval_def add_approval_def new_approval_def frame append_agent_event_eq
        run_events_def requested_event_def event_draft_def)
      (simp add: example_approval_def new_approval_def example_rows)
qed

text \<open>Proposing is idempotent: repeating a call that returned a proposal, whether it made it or
  found it, returns the same proposal, marks it as not new and changes nothing.\<close>

theorem proposals_are_idempotent:
  assumes "create_proposal env rid k action i proposed t s = (Inr (ap, created), s')"
  shows "create_proposal env rid k action i proposed t' s' = (Inr (ap, False), s')"
proof -
  from assms obtain run st target normalized where
    facts: "get_agent_run s rid = Some run" "\<not> is_research (r_agent_kind run) (r_agent_version run)"
    "is_curator (r_agent_kind run) (r_agent_version run) = False"
    "get_step_by_ordinal s rid k = Some st" "lock_memory s i = Some target"
    "m_project_id target = r_project_id run"
    "normalize_memory_update (pe_parse_update env) (pe_same_instant env) proposed target = Inr normalized"
    and action: "action = ACTION_TYPE"
    and st: "store_proposal env run st target (target_version (pe_sha env) target) normalized None t s = (Inr (ap, created), s')"
    unfolding create_proposal_def by (rule create_proposal_for_OK) auto
  note after = store_proposal_OK [OF st]
  have "get_agent_run s' rid = Some run" "get_step_by_ordinal s' rid k = Some st" "lock_memory s' i = Some target"
    using after facts by (simp_all add: get_agent_run_def get_step_by_ordinal_def lock_memory_def)
  then have "create_proposal env rid k action i proposed t' s' =
      store_proposal env run st target (target_version (pe_sha env) target) normalized None t' s'"
    unfolding create_proposal_def action using facts by (intro create_proposal_for_intro) simp_all
  also have "\<dots> = (Inr (ap, False), s')"
    using after by (simp add: store_proposal_def Let_def)
  finally show ?thesis .
qed

theorem proposals_are_idempotent_witness:
  "\<exists>s' :: agent_db. create_proposal example_env 3 0 ''memory.update'' 7 (JObj [(''content'', JStr ''new'')]) 300 s' =
     (Inr (example_approval, False), s')"
proof -
  obtain s' where eq: "create_proposal example_env 3 0 ''memory.update'' 7
      (JObj [(''content'', JStr ''new'')]) 200 example_proposable = (Inr (example_approval, True), s')"
    using example_proposal by blast
  show ?thesis using proposals_are_idempotent [OF eq, of 300] by blast
qed

text \<open>A request is decided once: whenever the review route commits a change, the request was
  pending and is now approved, rejected, expired or superseded; from then on repeating the same
  decision returns the request unchanged, any other is a conflict, and the database stays as it
  is.\<close>

theorem review_decides_once:
  assumes "review_commits (review_proposal sha aid d t s) s = s'" and "s' \<noteq> s"
  shows "\<exists>ap ap'. get_approval s aid = Some ap \<and> ap_status ap = APPROVAL_PENDING \<and>
     get_approval s' aid = Some ap' \<and> approval_content ap' = approval_content ap \<and>
     ap_status ap' \<in> {desired_status d, APPROVAL_EXPIRED, APPROVAL_SUPERSEDED} \<and>
     (\<forall>d' t'. review_proposal sha aid d' t' s' =
        ((if ap_status ap' = desired_status d' then Inr (ap', False) else Inl ReviewConflictError), s'))"
proof -
  obtain ap where ap: "get_approval s aid = Some ap"
    using assms by (cases "get_approval s aid") (auto simp: review_proposal_def review_commits_def)
  have pending: "ap_status ap = APPROVAL_PENDING"
    using assms ap by (auto simp: review_proposal_def review_commits_def split: if_splits)
  have new: "ap_status ap \<noteq> desired_status d" using pending by (cases d) simp_all
  obtain run where run: "get_agent_run s (ap_run_id ap) = Some run"
    using assms ap new pending
    by (cases "get_agent_run s (ap_run_id ap)") (auto simp: review_proposal_def review_commits_def)
  obtain status meta code message err where
    out: "review_outcome sha ap run (lock_memory s (ap_target_public_id ap)) d t = (status, meta, code, message, err)"
    by (metis prod_cases5)
  let ?u = "upd_approval aid (settle_approval status meta t) s"
  let ?e = "reviewed_event sha run ap status code message t"
  have call: "review_proposal sha aid d t s = andThen (append_agent_event ?e ?u)
      (\<lambda>_ s1. case err of Some e \<Rightarrow> (Inl e, s1) | None \<Rightarrow> (Inr (settle_approval status meta t ap, True), s1))"
    using ap pending new run out by (simp add: review_proposal_def)
  have "db_approvals s' = db_approvals (snd (append_agent_event ?e ?u))"
    using assms unfolding call
    by (cases rule: append_agent_event_cases [of ?e ?u])
      (auto simp: review_commits_def split: option.splits if_splits)
  then have rows: "db_approvals s' = row_upd ap_id aid (settle_approval status meta t) (db_approvals s)"
    unfolding append_agent_event_frame by (simp add: upd_approval_def)
  have now: "get_approval s' aid = Some (settle_approval status meta t ap)"
    using ap by (simp add: get_approval_def rows row_get_upd settle_approval_def)
  have status: "status \<in> {desired_status d, APPROVAL_EXPIRED, APPROVAL_SUPERSEDED}"
    using out by (auto simp: review_outcome_def split: if_splits)
  have final: "review_proposal sha aid d' t' s' =
      ((if status = desired_status d' then Inr (settle_approval status meta t ap, False)
        else Inl ReviewConflictError), s')" for d' t'
    using now status by (cases d; cases d') (auto simp: review_proposal_def settle_approval_def)
  show ?thesis
    using ap pending now status final by (auto simp: settle_approval_def approval_content_def)
qed

lemma example_reviews:
  "\<exists>s'. review_proposal example_sha 11 Approve 250 example_pending =
     (Inr (settle_approval APPROVAL_APPROVED
        (JObj [(''source'', JStr ''human_api''), (''decision'', JStr ''approve'')]) 250 example_approval, True), s') \<and>
     s' \<noteq> example_pending \<and> get_approval s' 11 = Some (settle_approval APPROVAL_APPROVED
        (JObj [(''source'', JStr ''human_api''), (''decision'', JStr ''approve'')]) 250 example_approval)"
proof -
  have rows: "get_approval example_pending 11 = Some example_approval"
    "get_agent_run example_pending 3 = Some example_manual"
    "lock_memory example_pending 7 = Some example_memory" "db_events example_pending = []"
    "ap_id example_approval = 11" "ap_status example_approval = APPROVAL_PENDING"
    "ap_run_id example_approval = 3" "ap_target_public_id example_approval = 7"
    "ap_target_version example_approval = example_hash" "\<not> ap_expires_at example_approval \<le> 250"
    by code_simp+
  have out: "review_outcome example_sha example_approval example_manual (Some example_memory) Approve 250 =
      (APPROVAL_APPROVED, JObj [(''source'', JStr ''human_api''), (''decision'', JStr ''approve'')],
       ''approval_approved'', ''Approval request approved by human review'', None)"
    by (simp add: review_outcome_def rows example_rows)
  have frame: "get_agent_run (upd_approval i f example_pending) j = get_agent_run example_pending j"
    "run_events (upd_approval i f example_pending) j = run_events example_pending j" for i f j
    by (simp_all add: get_agent_run_def upd_approval_def run_events_def)
  show ?thesis
    by (auto simp: review_proposal_def rows out append_agent_event_eq frame example_rows
        run_events_def [of example_pending] approvals.get_upd settle_approval_def)
      (auto simp: upd_approval_def get_approval_def row_get_upd settle_approval_def rows [unfolded get_approval_def]
        dest: arg_cong [where f = db_next_id])
qed

theorem review_decides_once_witness:
  "\<exists>s' :: agent_db. review_proposal example_sha 11 Reject 260 s' = (Inl ReviewConflictError, s')"
proof -
  obtain s' ap' where call: "review_proposal example_sha 11 Approve 250 example_pending = (Inr (ap', True), s')"
    and s': "s' \<noteq> example_pending" "get_approval s' 11 = Some ap'" "ap_status ap' = APPROVAL_APPROVED"
    using example_reviews by (auto simp: settle_approval_def)
  have commit: "review_commits (review_proposal example_sha 11 Approve 250 example_pending) example_pending = s'"
    by (simp add: call review_commits_def)
  have "review_proposal example_sha 11 Reject 260 s' =
      ((if ap_status ap' = desired_status Reject then Inr (ap', False) else Inl ReviewConflictError), s')"
    using review_decides_once [OF commit s'(1)] s'(2) by fastforce
  then show ?thesis using s'(3) by auto
qed

text \<open>C4: An approval is never given for something the reviewer did not see: it is granted only to a
  pending, unexpired request whose target Memory still exists in the Run's Project and still has
  exactly the version the proposal was made for.\<close>

theorem approval_needs_unchanged_target:
  assumes "review_proposal sha aid Approve t s = (Inr (ap', True), s')"
  shows "\<exists>ap run m. get_approval s aid = Some ap \<and> ap_status ap = APPROVAL_PENDING \<and>
     t < ap_expires_at ap \<and> get_agent_run s (ap_run_id ap) = Some run \<and>
     lock_memory s (ap_target_public_id ap) = Some m \<and> m_project_id m = r_project_id run \<and>
     target_version sha m = ap_target_version ap \<and>
     ap' = settle_approval APPROVAL_APPROVED
       (JObj [(''source'', JStr ''human_api''), (''decision'', JStr ''approve'')]) t ap"
  using assms unfolding review_proposal_def Let_def
  by (auto simp: review_outcome_def andThen_Inr_iff split: option.splits if_splits prod.splits)

theorem approval_needs_unchanged_target_witness:
  "\<exists>ap run m. get_approval example_pending 11 = Some ap \<and> ap_status ap = APPROVAL_PENDING \<and>
     get_agent_run example_pending (ap_run_id ap) = Some run \<and>
     lock_memory example_pending (ap_target_public_id ap) = Some m \<and>
     target_version example_sha m = ap_target_version ap"
proof -
  obtain s' ap' where call: "review_proposal example_sha 11 Approve 250 example_pending = (Inr (ap', True), s')"
    using example_reviews by blast
  show ?thesis using approval_needs_unchanged_target [OF call] by blast
qed

text \<open>The evidence stored with a proposal is bounded and canonical whatever the Tool results
  contained: at most 20 references, each to one of the four allowed entity types with an
  identifier in canonical form, and no entity twice.\<close>

theorem safe_evidence_bounded:
  assumes "safe_evidence references = Inr es"
  shows "length es \<le> 20 \<and> (\<exists>keys. distinct keys \<and> fst ` set keys \<subseteq> set ALLOWED_EVIDENCE_TYPES \<and>
     map (\<lambda>r. (meta_get r ''entity_type'', meta_get r ''id'')) es =
       map (\<lambda>(e, i). (Some (JStr e), Some (JStr (uuid_text i)))) keys)"
  using safe_evidence_loop_OK [of "[]" "[]" references es] assms
  by (auto simp: safe_evidence_def MAX_EVIDENCE_def)

theorem safe_evidence_bounded_witness:
  "length [safe_reference ''memory'' 7 None] \<le> 20"
proof -
  have "safe_evidence [safe_reference ''memory'' 7 None, safe_reference ''secret'' 8 None,
      safe_reference ''memory'' 7 None] = Inr [safe_reference ''memory'' 7 None]"
    by code_simp
  from safe_evidence_bounded [OF this] show ?thesis by blast
qed

end
