(* ===== verification/Run_Results.thy ===== *)
theory Run_Results
  imports Run_Approvals "HOL-Library.Sublist"
begin

text \<open>
  Evidence and cited results (\<open>app/research/service.py\<close>): binding the output of a Tool to the rows
  the Tool observed, validating a synthesized result against that evidence, and storing it while
  the evidence is still current. The tables of sources and chunks are not part of the session
  state: \<open>world\<close> gives the version of such a row, if it exists, and whether it is in scope.
\<close>

section \<open>Evidence\<close>

definition ALLOWED_TYPES :: "string list" where
  "ALLOWED_TYPES = [''project'', ''memory'', ''source'', ''source_chunk'']"

definition FORBIDDEN_PUBLIC_TEXT :: "string list" where
  "FORBIDDEN_PUBLIC_TEXT = [''password'', ''secret'', ''token'', ''api_key'', ''authorization'', ''bearer '', ''://'']"

text \<open>What the protocol \<open>CitationEvidence\<close> asks for, and the class that extends it.\<close>

record citation_evidence =
  ei_evidence_id :: string
  ei_entity_type :: string
  ei_entity_id :: uuid
  ei_version :: string

record collected_evidence = citation_evidence +
  ce_run_id :: uuid
  ce_step_id :: uuid
  ce_invocation_id :: uuid
  ce_content :: json

record observed_evidence =
  ob_entity_type :: string
  ob_entity_id :: uuid
  ob_version :: string

definition uuid_field :: "json \<Rightarrow> string \<Rightarrow> exn + uuid" where
  "uuid_field j key =
    (case meta_get j key of
       None \<Rightarrow> Inl KeyError
     | Some (JStr t) \<Rightarrow> (case parse_uuid t of None \<Rightarrow> Inl ValueError | Some i \<Rightarrow> Inr i)
     | Some _ \<Rightarrow> Inl AttributeError)"

fun search_candidates :: "json list \<Rightarrow> exn + (string \<times> uuid \<times> json) list" where
  "search_candidates [] = Inr []"
| "search_candidates (item # items) =
    (case uuid_field item ''memory_id'' of
       Inl e \<Rightarrow> Inl e
     | Inr i \<Rightarrow> (case search_candidates items of Inl e \<Rightarrow> Inl e | Inr cs \<Rightarrow> Inr ((''memory'', i, item) # cs)))"

definition output_candidates :: "string option \<Rightarrow> json \<Rightarrow> exn + (string \<times> uuid \<times> json) list" where
  "output_candidates tool value =
    (if tool = Some ''memory.search_explained'' then
       (case meta_get value ''results'' of
          None \<Rightarrow> Inl KeyError
        | Some (JArr items) \<Rightarrow> search_candidates items
        | Some _ \<Rightarrow> Inl TypeError)
     else
       (case entity_of_tool (case tool of None \<Rightarrow> [] | Some name \<Rightarrow> name) of
          None \<Rightarrow> Inl ResearchValidationError
        | Some ty \<Rightarrow> (case uuid_field value ''id'' of Inl e \<Rightarrow> Inl e | Inr i \<Rightarrow> Inr [(ty, i, value)])))"

definition collect_output ::
  "agent_run \<Rightarrow> agent_step \<Rightarrow> tool_invocation \<Rightarrow> json \<Rightarrow> nat \<Rightarrow> observed_evidence list
     \<Rightarrow> exn + collected_evidence list" where
  "collect_output run st iv value offset observed =
    (case output_candidates (st_tool_name st) value of
       Inl e \<Rightarrow> Inl e
     | Inr candidates \<Rightarrow>
        if map (\<lambda>x. (ob_entity_type x, ob_entity_id x)) observed \<noteq> map (\<lambda>(ty, i, _). (ty, i)) candidates
          then Inl ResearchValidationError
        else if list_ex (\<lambda>(ty, _). ty \<notin> set ALLOWED_TYPES) candidates then Inl ResearchValidationError
        else Inr (map (\<lambda>(k, (ty, i, content), seen).
               \<lparr> ei_evidence_id = ''e'' @ str_int (int k), ei_entity_type = ty, ei_entity_id = i,
                 ei_version = ob_version seen, ce_run_id = r_id run, ce_step_id = st_id st,
                 ce_invocation_id = iv_id iv, ce_content = content \<rparr>)
               (zip [offset + 1..<offset + 1 + length candidates] (zip candidates observed))))"

definition evidence_references :: "collected_evidence list \<Rightarrow> json list" where
  "evidence_references items = map (\<lambda>item. JObj
     [(''entity_type'', JStr (ei_entity_type item)), (''id'', JStr (uuid_text (ei_entity_id item))),
      (''version'', JStr (ei_version item))]) items"

section \<open>Validating a synthesized result\<close>

text \<open>
  \<open>str.casefold\<close> on code points below 256: the letters, and sharp s, which folds to two characters
  (the micro sign folds to a Greek letter, which no marker contains).
\<close>

definition casefold_char :: "char \<Rightarrow> string" where
  "casefold_char c = (let n = of_char c :: nat in
     if 65 \<le> n \<and> n \<le> 90 \<or> 192 \<le> n \<and> n \<le> 222 \<and> n \<noteq> 215 then [char_of (n + 32)]
     else if n = 223 then ''ss'' else [c])"

definition casefold :: "string \<Rightarrow> string" where
  "casefold t = concat (map casefold_char t)"

definition contains :: "string \<Rightarrow> string \<Rightarrow> bool" where
  "contains part t \<longleftrightarrow> list_ex (\<lambda>i. take (length part) (drop i t) = part) [0..<Suc (length t)]"

definition has_marker :: "string list \<Rightarrow> string \<Rightarrow> bool" where
  "has_marker markers t \<longleftrightarrow> list_ex (\<lambda>m. contains m (casefold t)) markers"

definition has_control :: "string \<Rightarrow> bool" where
  "has_control t \<longleftrightarrow> list_ex (\<lambda>c. (of_char c :: nat) < 32 \<and> (of_char c :: nat) \<notin> {9, 10}) t"

text \<open>
  A provider's answer is an instance of the strict schema \<open>ResearchProviderResult\<close>, whose
  validation accepts an instance as it is.
\<close>

record research_claim =
  cm_text :: string
  cm_citations :: "string list"

record research_result =
  rr_status :: string
  rr_claims :: "research_claim list"
  rr_insufficiency :: "string option"

text \<open>\<open>{item.evidence_id: item for item in evidence}\<close>: the last item of an identifier counts.\<close>

definition by_id :: "'a citation_evidence_scheme list \<Rightarrow> string \<Rightarrow> 'a citation_evidence_scheme option" where
  "by_id evidence = map_of (rev (map (\<lambda>item. (ei_evidence_id item, item)) evidence))"

definition citation :: "nat \<Rightarrow> 'a citation_evidence_scheme \<Rightarrow> json" where
  "citation number item = JObj
     [(''number'', JInt (int number)), (''entity_type'', JStr (ei_entity_type item)),
      (''entity_id'', JStr (uuid_text (ei_entity_id item))), (''version'', JStr (ei_version item))]"

text \<open>
  \<open>numbers\<close> lists the references numbered so far, in the order of their numbers from 1; the list of
  citations has one entry for each.
\<close>

fun number_of :: "string list \<Rightarrow> string \<Rightarrow> nat" where
  "number_of [] r = 1"
| "number_of (x # xs) r = (if x = r then 1 else Suc (number_of xs r))"

fun cite_references ::
  "(string \<Rightarrow> 'a citation_evidence_scheme option) \<Rightarrow> string list \<times> json list \<Rightarrow> nat list \<Rightarrow> string list
     \<Rightarrow> exn + ((string list \<times> json list) \<times> nat list)" where
  "cite_references items (numbers, citations) claimed [] = Inr ((numbers, citations), claimed)"
| "cite_references items (numbers, citations) claimed (r # rs) =
    (case items r of
       None \<Rightarrow> Inl ResearchValidationError
     | Some item \<Rightarrow>
        if r \<in> set numbers
          then cite_references items (numbers, citations) (claimed @ [number_of numbers r]) rs
        else if length numbers = 20 then Inl ResearchValidationError
        else cite_references items
               (numbers @ [r], citations @ [citation (length numbers + 1) item])
               (claimed @ [length numbers + 1]) rs)"

definition claim_json :: "string \<Rightarrow> nat list \<Rightarrow> json" where
  "claim_json text numbers = JObj
     [(''text'', JStr text), (''citation_numbers'', JArr (map (\<lambda>n. JInt (int n)) numbers))]"

fun cite_claims ::
  "(string \<Rightarrow> 'a citation_evidence_scheme option) \<Rightarrow> string list \<times> json list \<Rightarrow> json list
     \<Rightarrow> research_claim list \<Rightarrow> exn + (json list \<times> json list)" where
  "cite_claims items acc claims [] = Inr (snd acc, claims)"
| "cite_claims items acc claims (c # cs) =
    (if has_marker FORBIDDEN_PUBLIC_TEXT (cm_text c) \<or> has_control (cm_text c)
       then Inl ResearchValidationError
     else if \<not> distinct (cm_citations c) then Inl ResearchValidationError
     else (case cite_references items acc [] (cm_citations c) of
             Inl e \<Rightarrow> Inl e
           | Inr (acc', numbers) \<Rightarrow> cite_claims items acc' (claims @ [claim_json (cm_text c) numbers]) cs))"

definition result_value :: "string \<Rightarrow> json list \<Rightarrow> json list \<Rightarrow> string option \<Rightarrow> json" where
  "result_value status claims citations insufficiency = JObj
     [(''status'', JStr status), (''claims'', JArr claims), (''citations'', JArr citations),
      (''insufficiency'', jopt JStr insufficiency)]"

text \<open>The bound is on the text written in the order of the keys, which is as long as the canonical one.\<close>

definition validate_result :: "research_result \<Rightarrow> 'a citation_evidence_scheme list \<Rightarrow> exn + json" where
  "validate_result result evidence =
    (if evidence = [] \<and> rr_status result = ''answered'' then Inl ResearchValidationError
     else (case cite_claims (by_id evidence) ([], []) [] (rr_claims result) of
       Inl e \<Rightarrow> Inl e
     | Inr (citations, claims) \<Rightarrow>
        if (case rr_insufficiency result of None \<Rightarrow> False | Some t \<Rightarrow> has_marker FORBIDDEN_PUBLIC_TEXT t)
          then Inl ResearchValidationError
        else let value = result_value (rr_status result) claims citations (rr_insufficiency result)
             in if length (dumps value) > 3500 then Inl ResearchValidationError else Inr value))"

section \<open>Storing a result\<close>

record knowledge_world =
  kw_version :: "string \<Rightarrow> uuid \<Rightarrow> string option"
  kw_in_scope :: "uuid option \<Rightarrow> string \<Rightarrow> uuid \<Rightarrow> bool"

definition entity_version ::
  "(string \<Rightarrow> string) \<Rightarrow> knowledge_world \<Rightarrow> 'a agent_db_scheme \<Rightarrow> string \<Rightarrow> uuid \<Rightarrow> string option" where
  "entity_version sha world s ty i =
    (if ty = ''memory'' then map_option (target_version sha) (lock_memory s i) else kw_version world ty i)"

definition in_scope :: "knowledge_world \<Rightarrow> 'a agent_db_scheme \<Rightarrow> agent_run \<Rightarrow> string \<Rightarrow> uuid \<Rightarrow> bool" where
  "in_scope world s run ty i \<longleftrightarrow>
    (if ty = ''project'' then r_project_id run = Some i
     else if ty = ''memory''
       then (case lock_memory s i of None \<Rightarrow> False | Some m \<Rightarrow> m_project_id m = r_project_id run)
     else kw_in_scope world (r_project_id run) ty i)"

definition item_current ::
  "(string \<Rightarrow> string) \<Rightarrow> knowledge_world \<Rightarrow> 'a agent_db_scheme \<Rightarrow> agent_run \<Rightarrow> collected_evidence \<Rightarrow> bool" where
  "item_current sha world s run item \<longleftrightarrow>
     ce_run_id item = r_id run \<and>
     (case (get_run_step s (r_id run) (ce_step_id item), get_run_invocation s (r_id run) (ce_invocation_id item)) of
        (Some st, Some iv) \<Rightarrow> iv_step_id iv = st_id st \<and> iv_status iv = INV_SUCCEEDED
      | _ \<Rightarrow> False) \<and>
     in_scope world s run (ei_entity_type item) (ei_entity_id item) \<and>
     entity_version sha world s (ei_entity_type item) (ei_entity_id item) = Some (ei_version item)"

definition still_current ::
  "(string \<Rightarrow> string) \<Rightarrow> knowledge_world \<Rightarrow> 'a agent_db_scheme \<Rightarrow> agent_run \<Rightarrow> collected_evidence list \<Rightarrow> bool" where
  "still_current sha world s run items = list_all (item_current sha world s run) items"

definition result_event :: "agent_run \<Rightarrow> string \<Rightarrow> string \<Rightarrow> string \<Rightarrow> json \<Rightarrow> instant \<Rightarrow> agent_event" where
  "result_event run ty code message value t = event_draft (r_id run) ty code message value (r_correlation_id run) t"

definition persist_result ::
  "(string \<Rightarrow> string) \<Rightarrow> knowledge_world \<Rightarrow> uuid \<Rightarrow> collected_evidence list \<Rightarrow> research_result \<Rightarrow> instant
     \<Rightarrow> 'a agent_db_scheme \<Rightarrow> ('a agent_db_scheme, bool) outcome" where
  "persist_result sha world rid evidence result t s =
    (case get_agent_run s rid of
       None \<Rightarrow> (Inl ResearchValidationError, s)
     | Some run \<Rightarrow>
        if \<not> is_research (r_agent_kind run) (r_agent_version run) \<or> r_state run \<noteq> RUNNING
          then (Inl ResearchValidationError, s)
        else if r_run_deadline run \<le> t then
          andThen (transition_run (r_id run) RUNNING (r_revision run) EXPIRED t (Some ''deadline_expired'') s)
            (\<lambda>_ s1. (Inr False, s1))
        else if \<not> still_current sha world s run evidence then (Inl ResearchValidationError, s)
        else
         (case validate_result result evidence of
            Inl e \<Rightarrow> (Inl e, s)
          | Inr value \<Rightarrow>
             andThen (append_agent_event (result_event run ''research.result'' ''research_result''
                 ''bounded Research result produced'' value t) s)
               (\<lambda>_ s1. (Inr True, s1))))"

definition fail_result ::
  "uuid \<Rightarrow> string \<Rightarrow> instant \<Rightarrow> 'a agent_db_scheme \<Rightarrow> ('a agent_db_scheme, unit) outcome" where
  "fail_result rid code t s =
    (case get_agent_run s rid of
       None \<Rightarrow> (Inr (), s)
     | Some run \<Rightarrow>
        if r_state run \<noteq> RUNNING then (Inr (), s)
        else andThen (transition_run (r_id run) RUNNING (r_revision run) FAILED t (Some code) s)
               (\<lambda>_ s1. (Inr (), s1)))"

definition claim_synthesis ::
  "uuid \<Rightarrow> instant \<Rightarrow> 'a agent_db_scheme \<Rightarrow> ('a agent_db_scheme, bool) outcome" where
  "claim_synthesis rid t s =
    (case get_agent_run s rid of
       None \<Rightarrow> (Inr False, s)
     | Some run \<Rightarrow>
        if r_state run \<noteq> RUNNING then (Inr False, s)
        else if t < r_run_deadline run then (Inr True, s)
        else andThen (transition_run (r_id run) RUNNING (r_revision run) EXPIRED t (Some ''deadline_expired'') s)
               (\<lambda>_ s1. (Inr False, s1)))"

definition get_result :: "'a agent_db_scheme \<Rightarrow> uuid \<Rightarrow> json option" where
  "get_result s rid =
    (case rev (sort_key ev_sequence (filter (\<lambda>e. ev_type e = ''research.result'') (run_events s rid))) of
       [] \<Rightarrow> None | e # _ \<Rightarrow> Some (ev_metadata e))"

section \<open>The Curator\<close>

record curator_finding =
  cf_text :: string
  cf_evidence :: "string list"

record curator_proposal =
  cp_action_type :: string
  cp_target_evidence :: string
  cp_proposed_input :: json
  cp_evidence :: "string list"

record curator_result =
  cr_findings :: "curator_finding list"
  cr_proposals :: "curator_proposal list"

definition safe_text :: "string \<Rightarrow> bool" where
  "safe_text t \<longleftrightarrow> \<not> has_marker FORBIDDEN_PUBLIC_TEXT t \<and> \<not> has_control t"

fun safe_proposed_value :: "json \<Rightarrow> bool" where
  "safe_proposed_value (JStr t) = safe_text t"
| "safe_proposed_value (JObj kvs) = list_all (\<lambda>(k, ok). safe_text k \<and> ok) (map (map_prod id safe_proposed_value) kvs)"
| "safe_proposed_value (JArr xs) = list_all id (map safe_proposed_value xs)"
| "safe_proposed_value _ = True"

definition curator_evidence :: "'a citation_evidence_scheme \<Rightarrow> string \<Rightarrow> json" where
  "curator_evidence item id_key = JObj
     [(''entity_type'', JStr (ei_entity_type item)), (id_key, JStr (uuid_text (ei_entity_id item))),
      (''version'', JStr (ei_version item))]"

fun curator_findings ::
  "(string \<Rightarrow> collected_evidence option) \<Rightarrow> curator_finding list \<Rightarrow> exn + json list" where
  "curator_findings items [] = Inr []"
| "curator_findings items (f # fs) =
    (if \<not> safe_text (cf_text f) \<or> \<not> distinct (cf_evidence f) then Inl CuratorValidationError
     else (case all_some (map items (cf_evidence f)) of
        None \<Rightarrow> Inl CuratorValidationError
      | Some refs \<Rightarrow>
         (case curator_findings items fs of
            Inl e \<Rightarrow> Inl e
          | Inr rest \<Rightarrow> Inr (JObj [(''text'', JStr (cf_text f)),
              (''evidence'', JArr (map (\<lambda>item. curator_evidence item ''entity_id'') refs))] # rest))))"

definition proposed_action :: "approval_request \<Rightarrow> json" where
  "proposed_action ap = JObj
     [(''approval_id'', JStr (uuid_text (ap_id ap))), (''action_type'', JStr (ap_action_type ap)),
      (''target_id'', JStr (uuid_text (ap_target_public_id ap))), (''target_version'', JStr (ap_target_version ap))]"

text \<open>
  Every proposal reads the clock anew. An \<open>ApprovalError\<close> of the proposal service becomes a validation error of the Curator.
\<close>

definition approval_error :: "exn \<Rightarrow> exn" where
  "approval_error e =
    (if e \<in> {NotFoundError, InvalidProposalError, ReviewConflictError, ExpiredApprovalError, StaleApprovalError}
     then CuratorValidationError else e)"

fun curator_proposals ::
  "proposal_env \<Rightarrow> agent_run \<Rightarrow> (string \<Rightarrow> collected_evidence option) \<Rightarrow> (nat \<Rightarrow> instant) \<Rightarrow> uuid list
     \<Rightarrow> curator_proposal list \<Rightarrow> 'a agent_db_scheme \<Rightarrow> ('a agent_db_scheme, json list) outcome" where
  "curator_proposals env run items clock ids [] s = (Inr [], s)"
| "curator_proposals env run items clock ids (p # ps) s =
    (case (items (cp_target_evidence p), all_some (map items (cp_evidence p))) of
       (Some target, Some refs) \<Rightarrow>
         if ei_entity_type target \<noteq> ''memory'' \<or> target \<notin> set refs \<or> \<not> distinct (cp_evidence p) \<or>
            \<not> safe_proposed_value (cp_proposed_input p)
           then (Inl CuratorValidationError, s)
         else
          (case get_run_step s (r_id run) (ce_step_id target) of
             None \<Rightarrow> (Inl CuratorValidationError, s)
           | Some st \<Rightarrow>
              (case create_curator_proposal env (r_id run) (st_ordinal st) (cp_action_type p) (ei_entity_id target)
                  (ei_version target) (cp_proposed_input p) (map (\<lambda>item. curator_evidence item ''id'') refs)
                  (clock (length ids)) s of
                 (Inl e, s1) \<Rightarrow> (Inl (approval_error e), s1)
               | (Inr (ap, created), s1) \<Rightarrow>
                  if ap_id ap \<in> set ids then (Inl CuratorValidationError, s1)
                  else andThen (curator_proposals env run items clock (ap_id ap # ids) ps s1)
                         (\<lambda>rest s2. (Inr (proposed_action ap # rest), s2))))
     | _ \<Rightarrow> (Inl CuratorValidationError, s))"

definition curator_persist_result ::
  "proposal_env \<Rightarrow> knowledge_world \<Rightarrow> uuid \<Rightarrow> collected_evidence list \<Rightarrow> curator_result \<Rightarrow> instant \<Rightarrow> (nat \<Rightarrow> instant)
     \<Rightarrow> 'a agent_db_scheme \<Rightarrow> ('a agent_db_scheme, bool) outcome" where
  "curator_persist_result env world rid evidence result t clock s =
    (case get_agent_run s rid of
       None \<Rightarrow> (Inl CuratorValidationError, s)
     | Some run \<Rightarrow>
        if \<not> is_curator (r_agent_kind run) (r_agent_version run) \<or> r_state run \<noteq> RUNNING
          then (Inl CuratorValidationError, s)
        else if r_run_deadline run \<le> t then
          andThen (transition_run (r_id run) RUNNING (r_revision run) EXPIRED t (Some ''deadline_expired'') s)
            (\<lambda>_ s1. (Inr False, s1))
        else if \<not> still_current (pe_sha env) world s run evidence then (Inl CuratorValidationError, s)
        else
         (case curator_findings (by_id evidence) (cr_findings result) of
            Inl e \<Rightarrow> (Inl e, s)
          | Inr findings \<Rightarrow>
             andThen (curator_proposals env run (by_id evidence) clock [] (cr_proposals result) s) (\<lambda>proposed s1.
               let value = JObj [(''findings'', JArr findings), (''proposed_actions'', JArr proposed)] in
               if length (dumps value) > 12000 then (Inl CuratorValidationError, s1)
               else andThen (append_agent_event (result_event run ''curator.result'' ''curator_result''
                        ''bounded Curator advice produced'' value t) s1)
                      (\<lambda>_ s2. (Inr True, s2)))))"

section \<open>What a validated result cites\<close>

definition cited :: "(string \<Rightarrow> 'a citation_evidence_scheme option) \<Rightarrow> string list \<Rightarrow> json list \<Rightarrow> bool" where
  "cited items numbers citations \<longleftrightarrow>
     distinct numbers \<and> length numbers \<le> 20 \<and> length citations = length numbers \<and>
     (\<forall>k < length numbers. \<exists>item. items (numbers ! k) = Some item \<and> citations ! k = citation (Suc k) item)"

lemma cited_snoc:
  "cited items numbers citations \<Longrightarrow> items r = Some item \<Longrightarrow> r \<notin> set numbers \<Longrightarrow> length numbers \<noteq> 20 \<Longrightarrow>
     cited items (numbers @ [r]) (citations @ [citation (Suc (length numbers)) item])"
  by (auto simp: cited_def nth_append less_Suc_eq)

lemma number_of_nth:
  "r \<in> set xs \<Longrightarrow> 1 \<le> number_of xs r \<and> number_of xs r \<le> length xs \<and> xs ! (number_of xs r - 1) = r"
proof (induction xs)
  case (Cons x xs)
  then show ?case by (cases "number_of xs r") auto
qed simp

text \<open>The numbers \<open>ns\<close> point at the references \<open>rs\<close>.\<close>

definition point_at :: "string list \<Rightarrow> nat list \<Rightarrow> string list \<Rightarrow> bool" where
  "point_at numbers ns rs \<longleftrightarrow> length ns = length rs \<and>
     (\<forall>j < length rs. 1 \<le> ns ! j \<and> ns ! j \<le> length numbers \<and> numbers ! (ns ! j - 1) = rs ! j)"

lemma point_at_Cons:
  "1 \<le> n \<Longrightarrow> n \<le> length numbers \<Longrightarrow> numbers ! (n - 1) = r \<Longrightarrow> point_at numbers ns rs \<Longrightarrow>
     point_at numbers (n # ns) (r # rs)"
  by (auto simp: point_at_def nth_Cons split: nat.split)

lemma point_at_prefix: "point_at numbers ns rs \<Longrightarrow> prefix numbers numbers' \<Longrightarrow> point_at numbers' ns rs"
proof -
  assume "point_at numbers ns rs" and "prefix numbers numbers'"
  moreover have "numbers' ! (n - 1) = numbers ! (n - 1)" if "1 \<le> n" "n \<le> length numbers" for n
    using \<open>prefix numbers numbers'\<close> that by (auto simp: prefix_def nth_append)
  ultimately show ?thesis by (auto simp: point_at_def dest!: prefix_length_le)
qed

lemma point_at_distinct: "point_at numbers ns rs \<Longrightarrow> distinct rs \<Longrightarrow> distinct ns"
  unfolding point_at_def distinct_conv_nth by metis

lemma cite_references_OK:
  "cite_references items (numbers, citations) claimed rs = Inr ((numbers', citations'), out) \<Longrightarrow>
     cited items numbers citations \<Longrightarrow>
     cited items numbers' citations' \<and> prefix numbers numbers' \<and> prefix citations citations' \<and>
     (\<exists>ns. out = claimed @ ns \<and> point_at numbers' ns rs)"
proof (induction rs arbitrary: numbers citations claimed)
  case Nil
  then show ?case by (simp add: point_at_def)
next
  case (Cons r rs)
  obtain item where item: "items r = Some item" using Cons.prems(1) by (auto split: option.splits)
  show ?case
  proof (cases "r \<in> set numbers")
    case True
    then have "cite_references items (numbers, citations) (claimed @ [number_of numbers r]) rs =
        Inr ((numbers', citations'), out)" using Cons.prems(1) item by simp
    from Cons.IH [OF this Cons.prems(2)] obtain ns where
      ns: "cited items numbers' citations'" "prefix numbers numbers'" "prefix citations citations'"
        "out = claimed @ number_of numbers r # ns" "point_at numbers' ns rs" by auto
    moreover have "numbers' ! (number_of numbers r - 1) = r" "number_of numbers r \<le> length numbers'"
      using number_of_nth [OF True] ns(2) by (auto simp: prefix_def nth_append)
    ultimately show ?thesis using number_of_nth [OF True] by (auto intro: point_at_Cons)
  next
    case False
    then have len: "length numbers \<noteq> 20" and "cite_references items (numbers @ [r],
        citations @ [citation (Suc (length numbers)) item]) (claimed @ [Suc (length numbers)]) rs =
        Inr ((numbers', citations'), out)" using Cons.prems(1) item by (auto split: if_splits)
    from Cons.IH [OF this(2) cited_snoc [OF Cons.prems(2) item False len]] obtain ns where
      ns: "cited items numbers' citations'" "prefix (numbers @ [r]) numbers'" "prefix citations citations'"
        "out = claimed @ Suc (length numbers) # ns" "point_at numbers' ns rs"
      by (auto dest: append_prefixD)
    moreover have "numbers' ! length numbers = r" "Suc (length numbers) \<le> length numbers'"
      using ns(2) by (auto simp: prefix_def nth_append)
    ultimately show ?thesis by (auto intro: point_at_Cons dest: append_prefixD)
  qed
qed

text \<open>A claim as it is stored: its text is safe and its numbers point at its references.\<close>

definition claim_cites :: "string list \<Rightarrow> research_claim \<Rightarrow> json \<Rightarrow> bool" where
  "claim_cites numbers c j \<longleftrightarrow> safe_text (cm_text c) \<and>
     (\<exists>ns. j = claim_json (cm_text c) ns \<and> distinct ns \<and> point_at numbers ns (cm_citations c))"

lemma claim_cites_prefix: "claim_cites numbers c j \<Longrightarrow> prefix numbers numbers' \<Longrightarrow> claim_cites numbers' c j"
  by (auto simp: claim_cites_def intro: point_at_prefix)

lemma cite_claims_OK:
  "cite_claims items (numbers, citations) claims cs = Inr (citations', out) \<Longrightarrow> cited items numbers citations \<Longrightarrow>
     \<exists>numbers' new. cited items numbers' citations' \<and> prefix numbers numbers' \<and> out = claims @ new \<and>
       list_all2 (claim_cites numbers') cs new"
proof (induction cs arbitrary: numbers citations claims)
  case Nil
  then show ?case by auto
next
  case (Cons c cs)
  obtain numbers1 citations1 ns where refs: "cite_references items (numbers, citations) [] (cm_citations c) =
      Inr ((numbers1, citations1), ns)"
    and safe: "safe_text (cm_text c)" and d: "distinct (cm_citations c)"
    and rest: "cite_claims items (numbers1, citations1) (claims @ [claim_json (cm_text c) ns]) cs = Inr (citations', out)"
    using Cons.prems(1) by (auto simp: safe_text_def split: if_splits sum.splits prod.splits)
  have one: "cited items numbers1 citations1" "prefix numbers numbers1" "point_at numbers1 ns (cm_citations c)"
    using cite_references_OK [OF refs Cons.prems(2)] by auto
  obtain numbers' new where new: "cited items numbers' citations'" "prefix numbers1 numbers'"
    "out = (claims @ [claim_json (cm_text c) ns]) @ new" "list_all2 (claim_cites numbers') cs new"
    using Cons.IH [OF rest one(1)] by blast
  have "claim_cites numbers' c (claim_json (cm_text c) ns)"
    using safe d one(3) new(2) point_at_distinct
    by (intro claim_cites_prefix [OF _ new(2)]) (auto simp: claim_cites_def)
  moreover have "prefix numbers numbers'" using one(2) new(2) by (rule prefix_order.trans)
  ultimately show ?case
    using new by (intro exI [of _ numbers'] exI [of _ "claim_json (cm_text c) ns # new"]) simp
qed

lemma by_id_in: "by_id evidence r = Some item \<Longrightarrow> item \<in> set evidence \<and> ei_evidence_id item = r"
  by (auto simp: by_id_def dest!: map_of_SomeD)

text \<open>C13: A validated result cites only the evidence it was given, and every citation resolves. The stored
  value has one claim for each of the provider's, with the same text, which is free of secrets and
  control characters; its citation numbers are distinct and each names an entry of the citation
  list that carries exactly the type, identity and version of the evidence the claim cited. The
  citations are numbered from 1 without gaps, at most 20, each of them an item of the evidence,
  and the whole value is at most 3500 characters of JSON.\<close>

theorem result_cites_evidence:
  assumes "validate_result result evidence = Inr value"
  shows "\<exists>claims citations. value = result_value (rr_status result) claims citations (rr_insufficiency result) \<and>
    length (dumps value) \<le> 3500 \<and> length citations \<le> 20 \<and>
    (\<forall>k < length citations. \<exists>item \<in> set evidence. citations ! k = citation (Suc k) item) \<and>
    list_all2 (\<lambda>c j. safe_text (cm_text c) \<and> (\<exists>ns. j = claim_json (cm_text c) ns \<and> distinct ns \<and>
      list_all2 (\<lambda>r n. 1 \<le> n \<and> n \<le> length citations \<and>
        (\<exists>item \<in> set evidence. ei_evidence_id item = r \<and> citations ! (n - 1) = citation n item))
        (cm_citations c) ns)) (rr_claims result) claims"
proof -
  obtain citations claims where run: "cite_claims (by_id evidence) ([], []) [] (rr_claims result) = Inr (citations, claims)"
    and val: "value = result_value (rr_status result) claims citations (rr_insufficiency result)"
    and size: "length (dumps value) \<le> 3500"
    using assms by (auto simp: validate_result_def Let_def split: if_splits sum.splits prod.splits)
  obtain numbers where ok: "cited (by_id evidence) numbers citations"
    "list_all2 (claim_cites numbers) (rr_claims result) claims"
    using cite_claims_OK [OF run] by (auto simp: cited_def)
  have nth: "\<exists>item \<in> set evidence. ei_evidence_id item = numbers ! k \<and> citations ! k = citation (Suc k) item"
    if "k < length citations" for k
    using ok(1) that by (fastforce simp: cited_def dest: by_id_in)
  have points: "list_all2 (\<lambda>r n. 1 \<le> n \<and> n \<le> length citations \<and>
      (\<exists>item \<in> set evidence. ei_evidence_id item = r \<and> citations ! (n - 1) = citation n item)) rs ns"
    if "point_at numbers ns rs" for ns rs
  proof (rule list_all2_all_nthI)
    fix j assume j: "j < length rs"
    then have n: "1 \<le> ns ! j" "ns ! j \<le> length citations" "numbers ! (ns ! j - 1) = rs ! j"
      using that ok(1) by (auto simp: point_at_def cited_def)
    then show "1 \<le> ns ! j \<and> ns ! j \<le> length citations \<and>
        (\<exists>item \<in> set evidence. ei_evidence_id item = rs ! j \<and> citations ! (ns ! j - 1) = citation (ns ! j) item)"
      using nth [of "ns ! j - 1"] by auto
  qed (use that in \<open>simp add: point_at_def\<close>)
  have claims: "list_all2 (\<lambda>c j. safe_text (cm_text c) \<and> (\<exists>ns. j = claim_json (cm_text c) ns \<and> distinct ns \<and>
      list_all2 (\<lambda>r n. 1 \<le> n \<and> n \<le> length citations \<and>
        (\<exists>item \<in> set evidence. ei_evidence_id item = r \<and> citations ! (n - 1) = citation n item))
        (cm_citations c) ns)) (rr_claims result) claims"
    by (rule list_all2_mono [OF ok(2)]) (use points in \<open>unfold claim_cites_def, blast\<close>)
  have "\<forall>k < length citations. \<exists>item \<in> set evidence. citations ! k = citation (Suc k) item" using nth by blast
  moreover have "length citations \<le> 20" using ok(1) by (simp add: cited_def)
  ultimately show ?thesis using val size claims by blast
qed

section \<open>Storing and reading back\<close>

lemma insort_key_snoc: "f x \<le> f e \<Longrightarrow> insort_key f x (ys @ [e]) = insort_key f x ys @ [e]"
  by (induction ys) auto

lemma sort_key_snoc_max:
  "\<forall>x \<in> set xs. f x < f e \<Longrightarrow> sort_key f (xs @ [e]) = sort_key f xs @ [e]"
proof (induction xs)
  case (Cons x xs)
  then have "sort_key f (xs @ [e]) = sort_key f xs @ [e]" "f x \<le> f e" by auto
  then show ?case by (simp add: insort_key_snoc)
qed simp

lemma max_sequence_upper: "e \<in> set es \<Longrightarrow> ev_sequence e \<le> max_sequence es"
proof -
  have "m \<le> foldl (\<lambda>m e. max m (ev_sequence e)) m es" for m es
  proof (induction es arbitrary: m)
    case (Cons e es)
    have "m \<le> max m (ev_sequence e)" by simp
    also have "\<dots> \<le> foldl (\<lambda>m e. max m (ev_sequence e)) (max m (ev_sequence e)) es" by (rule Cons)
    finally show ?case by simp
  qed simp
  note grows = this
  have "e \<in> set es \<Longrightarrow> ev_sequence e \<le> foldl (\<lambda>m e. max m (ev_sequence e)) m es" for m
  proof (induction es arbitrary: m)
    case (Cons x es)
    then show ?case using order_trans [OF max.cobounded2 grows, of "ev_sequence x" m es] by auto
  qed simp
  then show "e \<in> set es \<Longrightarrow> ev_sequence e \<le> max_sequence es" by (simp add: max_sequence_def)
qed

lemma append_result_event:
  assumes "get_agent_run s (r_id run) = Some run"
    and "append_agent_event (result_event run ty code message v t) s = (Inr e, s')"
  shows "db_runs s' = db_runs s \<and> length (db_events s') = Suc (length (db_events s)) \<and>
    (ty = ''research.result'' \<longrightarrow> get_result s' (r_id run) = Some v)"
proof -
  let ?d = "result_event run ty code message v t"
  let ?e = "logged_event ?d s"
  have s': "db_events s' = db_events s @ [?e]" "db_runs s' = db_runs s"
    using assms by (auto simp: append_agent_event_eq result_event_def)
  have e: "ev_run_id ?e = r_id run" "ev_type ?e = ty" "ev_metadata ?e = v" "ev_metadata ?d = v"
    by (simp_all add: result_event_def event_draft_def logged_event_def)
  have new: "\<forall>x \<in> set (run_events s (r_id run)). ev_sequence x < ev_sequence ?e"
    using max_sequence_upper [of _ "run_events s (r_id run)"]
    by (auto simp: logged_event_def result_event_def event_draft_def dest: order_le_less_trans)
  have "get_result s' (r_id run) = Some v" if "ty = ''research.result''"
  proof -
    have "filter (\<lambda>e. ev_type e = ''research.result'') (run_events s' (r_id run)) =
        filter (\<lambda>e. ev_type e = ''research.result'') (run_events s (r_id run)) @ [?e]"
      using s' e that by (simp add: run_events_def)
    moreover have "\<forall>x \<in> set (filter (\<lambda>e. ev_type e = ''research.result'') (run_events s (r_id run))).
        ev_sequence x < ev_sequence ?e" using new by simp
    ultimately show ?thesis by (simp add: get_result_def sort_key_snoc_max e)
  qed
  then show ?thesis using s' by simp
qed

text \<open>What is stored as a Research result is current and can be read back. When \<open>persist_result\<close>
  reports success, the Run is a Research Run, still running before its deadline; every item of the
  evidence was read by a succeeded invocation of that very Run, is in its scope and still has the
  version that was observed; the answer validated against exactly that evidence. One event is
  appended, the Run does not move, and \<open>get_result\<close> returns the validated value.\<close>

theorem stored_result_is_current:
  assumes "persist_result sha world rid evidence result t s = (Inr True, s')"
  shows "\<exists>run v. get_agent_run s rid = Some run \<and> is_research (r_agent_kind run) (r_agent_version run) \<and>
    r_state run = RUNNING \<and> t < r_run_deadline run \<and>
    list_all (\<lambda>item. ce_run_id item = rid \<and>
      (\<exists>iv. get_run_invocation s rid (ce_invocation_id item) = Some iv \<and> iv_step_id iv = ce_step_id item \<and>
         iv_status iv = INV_SUCCEEDED) \<and>
      in_scope world s run (ei_entity_type item) (ei_entity_id item) \<and>
      entity_version sha world s (ei_entity_type item) (ei_entity_id item) = Some (ei_version item)) evidence \<and>
    validate_result result evidence = Inr v \<and> get_result s' rid = Some v \<and>
    db_runs s' = db_runs s \<and> length (db_events s') = Suc (length (db_events s))"
proof -
  obtain run where run: "get_agent_run s rid = Some run"
    using assms by (auto simp: persist_result_def split: option.splits)
  then have id: "r_id run = rid" by (rule runs.get_key)
  obtain v e where live: "is_research (r_agent_kind run) (r_agent_version run)" "r_state run = RUNNING" "t < r_run_deadline run"
    and cur: "still_current sha world s run evidence" and v: "validate_result result evidence = Inr v"
    and ev: "append_agent_event (result_event run ''research.result'' ''research_result''
                 ''bounded Research result produced'' v t) s = (Inr e, s')"
    using assms run
    by (auto simp: persist_result_def andThen_Inr_iff not_le split: if_splits sum.splits)
  have "list_all (\<lambda>item. ce_run_id item = rid \<and>
      (\<exists>iv. get_run_invocation s rid (ce_invocation_id item) = Some iv \<and> iv_step_id iv = ce_step_id item \<and>
         iv_status iv = INV_SUCCEEDED) \<and>
      in_scope world s run (ei_entity_type item) (ei_entity_id item) \<and>
      entity_version sha world s (ei_entity_type item) (ei_entity_id item) = Some (ei_version item)) evidence"
    using cur unfolding still_current_def
  proof (rule list.pred_mono_strong)
    fix item assume "item_current sha world s run item"
    then show "ce_run_id item = rid \<and>
      (\<exists>iv. get_run_invocation s rid (ce_invocation_id item) = Some iv \<and> iv_step_id iv = ce_step_id item \<and>
         iv_status iv = INV_SUCCEEDED) \<and>
      in_scope world s run (ei_entity_type item) (ei_entity_id item) \<and>
      entity_version sha world s (ei_entity_type item) (ei_entity_id item) = Some (ei_version item)"
      using id by (auto simp: item_current_def get_run_step_def find_Some_iff split: option.splits)
  qed
  then show ?thesis using run live v append_result_event [OF run [folded id] ev] id by auto
qed

section \<open>Examples\<close>

definition example_item :: collected_evidence where
  "example_item = \<lparr> ei_evidence_id = ''e1'', ei_entity_type = ''project'', ei_entity_id = 1, ei_version = ''v'',
     ce_run_id = 2, ce_step_id = 3, ce_invocation_id = 4, ce_content = JNull \<rparr>"

definition example_answer :: research_result where
  "example_answer = \<lparr> rr_status = ''answered'',
     rr_claims = [\<lparr> cm_text = ''ok'', cm_citations = [''e1''] \<rparr>], rr_insufficiency = None \<rparr>"

definition example_value :: json where
  "example_value = result_value ''answered'' [claim_json ''ok'' [1]] [citation 1 example_item] None"

lemma example_validated: "validate_result example_answer [example_item] = Inr example_value"
  by code_simp

theorem result_cites_evidence_witness:
  "\<exists>citations claims. example_value = result_value ''answered'' claims citations None \<and>
     length (dumps example_value) \<le> 3500 \<and> length citations \<le> 20"
  using result_cites_evidence [OF example_validated] by (auto simp: example_answer_def)

definition example_researcher :: agent_run where
  "example_researcher = (new_run \<lparr> rc_project_id = Some 1, rc_agent_kind = ''research'', rc_agent_version = ''1'',
     rc_goal_summary = ''g'' \<rparr> ''k'' ''f'' 0 9)\<lparr>r_id := 2, r_state := RUNNING\<rparr>"

definition example_read_step :: agent_step where
  "example_read_step = (frozen_step 2 0 example_validated)\<lparr>st_id := 3, st_status := STEP_SUCCEEDED\<rparr>"

definition example_read :: tool_invocation where
  "example_read = (new_invocation (\<lambda>text. text) example_researcher example_read_step 0 ''project.get'' ''1'' JNull 0)
     \<lparr>iv_id := 4, iv_status := INV_SUCCEEDED\<rparr>"

definition example_evidence_db :: agent_db where
  "example_evidence_db = \<lparr> db_next_id = 10, db_projects = [1], db_memories = [], db_runs = [example_researcher],
     db_steps = [example_read_step], db_invocations = [example_read], db_approvals = [], db_events = [] \<rparr>"

definition example_world :: knowledge_world where
  "example_world = \<lparr> kw_version = (\<lambda>ty i. if ty = ''project'' \<and> i = 1 then Some ''v'' else None),
     kw_in_scope = (\<lambda>_ _ _. False) \<rparr>"

lemma example_evidence_rows:
  "get_agent_run example_evidence_db 2 = Some example_researcher"
  "get_run_step example_evidence_db 2 3 = Some example_read_step"
  "get_run_invocation example_evidence_db 2 4 = Some example_read"
  "is_research (r_agent_kind example_researcher) (r_agent_version example_researcher)"
  "r_state example_researcher = RUNNING" "r_id example_researcher = 2" "r_project_id example_researcher = Some 1"
  "\<not> r_run_deadline example_researcher \<le> 1" "iv_step_id example_read = 3" "st_id example_read_step = 3"
  "iv_status example_read = INV_SUCCEEDED"
  by (simp_all add: get_agent_run_def get_run_step_def get_run_invocation_def example_evidence_db_def row_get_Cons
      example_researcher_def example_read_step_def example_read_def new_run_def is_research_def frozen_step_def
      new_invocation_def Let_def RUN_DURATION_def minutes_def)

theorem stored_result_is_current_witness:
  "\<exists>s'. persist_result (\<lambda>text. text) example_world 2 [example_item] example_answer 1 example_evidence_db = (Inr True, s') \<and>
     get_result s' 2 = Some example_value"
proof -
  have "still_current (\<lambda>text. text) example_world example_evidence_db example_researcher [example_item]"
    by (simp add: still_current_def item_current_def example_evidence_rows example_item_def in_scope_def
        entity_version_def example_world_def)
  then have "fst (persist_result (\<lambda>text. text) example_world 2 [example_item] example_answer 1 example_evidence_db) = Inr True"
    by (simp add: persist_result_def example_evidence_rows example_validated append_agent_event_eq result_event_def)
  then have eq: "persist_result (\<lambda>text. text) example_world 2 [example_item] example_answer 1 example_evidence_db =
      (Inr True, snd (persist_result (\<lambda>text. text) example_world 2 [example_item] example_answer 1 example_evidence_db))"
    by (simp add: prod_eq_iff)
  from stored_result_is_current [OF eq] show ?thesis using eq example_validated by auto
qed

end
