(* ===== verification/Run_Orchestration.thy ===== *)
theory Run_Orchestration
  imports Run_Results
begin

text \<open>
  The synchronous drivers of a Run: planning (\<open>plan_read_only_run\<close> of
  \<open>app/agent_runs/orchestration.py\<close>), the loop that reserves, calls and finalizes one Tool call
  after the other, and the operator's execution with its synthesis
  (\<open>execute_agent_run\<close> of \<open>app/api/routes/agent_runs.py\<close>, without the translation of exceptions to
  HTTP errors). Every commit ends a transaction: what other sessions commit until the next one
  begins is a function of the environment, and so are the answers of the providers and Tools.
\<close>

section \<open>Planning\<close>

fun planning_failure_code :: "exn \<Rightarrow> string option" where
  "planning_failure_code PlanningProviderUnavailableError = Some ''planning_provider_unavailable''"
| "planning_failure_code PlanningProviderTimeoutError = Some ''planning_provider_timeout''"
| "planning_failure_code PlanningProviderRequestError = Some ''planning_provider_failed''"
| "planning_failure_code PlanningOutputInvalidError = Some ''planning_output_invalid''"
| "planning_failure_code PlanningOutputRejectedError = Some ''planning_output_invalid''"
| "planning_failure_code PlanningPolicyRejectedError = Some ''planning_output_invalid''"
| "planning_failure_code _ = None"

definition planned_proposal ::
  "schema_lib \<Rightarrow> planning_claim \<Rightarrow> (exn + planning_result option) \<Rightarrow> bool \<Rightarrow> tool_identity list option
     \<Rightarrow> exn + validated_step list" where
  "planned_proposal lib claim answer available automatic =
    (case answer of Inl e \<Rightarrow> Inl e | Inr proposal \<Rightarrow> validate_plan lib claim proposal available automatic)"

definition settle_plan ::
  "planning_claim \<Rightarrow> (exn + validated_step list) \<Rightarrow> instant \<Rightarrow> 'a agent_db_scheme
     \<Rightarrow> ('a agent_db_scheme, unit) outcome" where
  "settle_plan claim steps t s =
    (case steps of
       Inr vs \<Rightarrow> committed (finalize_plan claim vs t s) s (\<lambda>_ s1. (Inr (), s1))
     | Inl e \<Rightarrow>
        (case planning_failure_code e of
           None \<Rightarrow> (Inl e, s)
         | Some code \<Rightarrow> committed (finalize_failure claim code t s) s (\<lambda>_ s1. (Inr (), s1))))"

definition plan_read_only_run ::
  "schema_lib \<Rightarrow> uuid \<Rightarrow> int \<Rightarrow> tool_identity list \<Rightarrow> (exn + planning_result option) \<Rightarrow> bool
     \<Rightarrow> ('a agent_db_scheme \<Rightarrow> 'a agent_db_scheme) \<Rightarrow> instant \<Rightarrow> instant \<Rightarrow> 'a agent_db_scheme
     \<Rightarrow> ('a agent_db_scheme, unit) outcome" where
  "plan_read_only_run lib rid expected_revision tools answer available other t t' s =
     committed (claim_planning rid expected_revision (Some tools) t s) s (\<lambda>claim s1.
       case claim of
         None \<Rightarrow> (Inr (), s1)
       | Some c \<Rightarrow> settle_plan c (planned_proposal lib c answer available (Some tools)) t' (other s1))"

section \<open>The execution loop\<close>

record call_env =
  ke_available :: bool
  ke_reserve_time :: instant
  ke_handle :: "tool_identity \<Rightarrow> tool_input \<Rightarrow> call_error + json"
  ke_provider :: "call_error option"
  ke_elapsed :: int
  ke_observed :: "observed_evidence list"
  ke_finalize_time :: instant

text \<open>\<open>lc_collecting\<close>: whether the Agent collects evidence; \<open>lc_invalid_code\<close>: the code of output that
  does not match what the Tool observed.\<close>

record loop_config =
  lc_lib :: schema_lib
  lc_sha :: "string \<Rightarrow> string"
  lc_check_output :: "schema_type \<Rightarrow> json \<Rightarrow> json option"
  lc_claim :: execution_claim
  lc_automatic :: "tool_identity list option"
  lc_collecting :: bool
  lc_invalid_code :: string

text \<open>The error code, the references and the evidence after a call.\<close>

definition gather ::
  "loop_config \<Rightarrow> 'a agent_db_scheme \<Rightarrow> agent_step \<Rightarrow> tool_invocation \<Rightarrow> json option \<Rightarrow> string option
     \<Rightarrow> collected_evidence list \<Rightarrow> observed_evidence list
     \<Rightarrow> exn + (string option \<times> json list option \<times> collected_evidence list)" where
  "gather cfg s st iv output code collected observed =
    (case (output, code) of
       (Some value, None) \<Rightarrow>
         if \<not> lc_collecting cfg then Inr (None, None, collected)
         else
          (case get_agent_run s (xc_run_id (lc_claim cfg)) of
             None \<Rightarrow> Inr (Some (lc_invalid_code cfg), None, collected)
           | Some run \<Rightarrow>
              (case collect_output run st iv value (length collected) observed of
                 Inl e \<Rightarrow> if e = ResearchValidationError then Inr (Some (lc_invalid_code cfg), None, collected)
                         else Inl e
               | Inr new \<Rightarrow> Inr (None, Some (evidence_references new), collected @ new)))
     | _ \<Rightarrow> Inr (code, None, collected))"

text \<open>
  One round. \<open>Inr (True, _)\<close> asks for another round; the state is what is committed.
\<close>

definition call_round ::
  "loop_config \<Rightarrow> call_env \<Rightarrow> ('a agent_db_scheme \<Rightarrow> 'a agent_db_scheme) \<Rightarrow> collected_evidence list
     \<Rightarrow> 'a agent_db_scheme \<Rightarrow> ('a agent_db_scheme, bool \<times> collected_evidence list) outcome" where
  "call_round cfg k other collected s =
     committed (reserve_next (lc_lib cfg) (lc_sha cfg) (lc_claim cfg) (ke_available k) (lc_automatic cfg)
         (ke_reserve_time k) s) s (\<lambda>reserved s1.
       case reserved of
         None \<Rightarrow> (Inr (False, collected), s1)
       | Some (st, iv, timeout) \<Rightarrow>
          let s2 = other s1 in
          (case call_reserved_tool (lc_lib cfg) (lc_check_output cfg) (ke_handle k) (ke_provider k)
                  (ke_elapsed k) st iv timeout of
             Inl _ \<Rightarrow> (Inl UncaughtError, s2)
           | Inr (output, code) \<Rightarrow>
              (case gather cfg s2 st iv output code collected (ke_observed k) of
                 Inl e \<Rightarrow> (Inl e, s2)
               | Inr (code', references, collected') \<Rightarrow>
                  committed (finalize_invocation (lc_claim cfg) (st_id st) (iv_id iv) output code' references
                      (ke_finalize_time k) s2) s2 (\<lambda>succeeded s3. (Inr (succeeded, collected'), s3)))))"

text \<open>
  \<open>while True\<close>, with fuel: \<open>None\<close> is the loop that has not ended. \<open>envs\<close> gives the environment of
  each round, \<open>during\<close> and \<open>between\<close> what other sessions commit during its call and after it.
\<close>

fun execution_loop ::
  "nat \<Rightarrow> loop_config \<Rightarrow> (nat \<Rightarrow> call_env) \<Rightarrow> (nat \<Rightarrow> 'a agent_db_scheme \<Rightarrow> 'a agent_db_scheme)
     \<Rightarrow> (nat \<Rightarrow> 'a agent_db_scheme \<Rightarrow> 'a agent_db_scheme) \<Rightarrow> nat \<Rightarrow> collected_evidence list
     \<Rightarrow> 'a agent_db_scheme \<Rightarrow> ('a agent_db_scheme, collected_evidence list) outcome option" where
  "execution_loop 0 cfg envs during between i collected s = None"
| "execution_loop (Suc fuel) cfg envs during between i collected s =
    (case call_round cfg (envs i) (during i) collected s of
       (Inl e, s1) \<Rightarrow> Some (Inl e, s1)
     | (Inr (again, collected'), s1) \<Rightarrow>
        if again then execution_loop fuel cfg envs during between (Suc i) collected' (between i s1)
        else Some (Inr collected', s1))"

section \<open>Synthesis\<close>

datatype provider_error = Unavailable | Timeout | RequestFailed | OutputInvalid | OtherProviderError | Unlisted

text \<open>The handlers around a synthesis: the four kinds of Agent differ in the prefix of the codes.\<close>

fun provider_failure :: "string \<Rightarrow> provider_error \<Rightarrow> string option" where
  "provider_failure agent Unavailable = Some (agent @ ''_provider_unavailable'')"
| "provider_failure agent Timeout = Some (agent @ ''_provider_timeout'')"
| "provider_failure agent RequestFailed = Some (agent @ ''_provider_failed'')"
| "provider_failure agent OutputInvalid = Some (agent @ ''_result_invalid'')"
| "provider_failure agent OtherProviderError = Some (agent @ ''_result_invalid'')"
| "provider_failure agent Unlisted = None"

definition settle_failure ::
  "uuid \<Rightarrow> string \<Rightarrow> instant \<Rightarrow> 'a agent_db_scheme \<Rightarrow> ('a agent_db_scheme, unit) outcome" where
  "settle_failure rid code t s = committed (fail_result rid code t s) s (\<lambda>_ s1. (Inr (), s1))"

definition settle_synthesis ::
  "string \<Rightarrow> exn \<Rightarrow> uuid \<Rightarrow> instant \<Rightarrow> (provider_error + 'r)
     \<Rightarrow> ('r \<Rightarrow> 'a agent_db_scheme \<Rightarrow> ('a agent_db_scheme, 'b) outcome)
     \<Rightarrow> 'a agent_db_scheme \<Rightarrow> ('a agent_db_scheme, unit) outcome" where
  "settle_synthesis agent invalid rid t answer persist s =
    (case answer of
       Inl pe \<Rightarrow>
        (case provider_failure agent pe of
           None \<Rightarrow> (Inl UncaughtError, s)
         | Some code \<Rightarrow> settle_failure rid code t s)
     | Inr result \<Rightarrow>
        (case persist result s of
           (Inl e, _) \<Rightarrow> if e = invalid then settle_failure rid (agent @ ''_result_invalid'') t s else (Inl e, s)
         | (Inr _, s1) \<Rightarrow> (Inr (), s1)))"

definition INSUFFICIENT_RESEARCH :: research_result where
  "INSUFFICIENT_RESEARCH = \<lparr> rr_status = ''insufficient_evidence'', rr_claims = [],
     rr_insufficiency = Some ''The collected local evidence is insufficient to answer safely.'' \<rparr>"

text \<open>The clock readings of a synthesis, and what is committed elsewhere during the provider's call.\<close>

record 'db synthesis_env =
  se_claim_time :: instant
  se_persist_time :: instant
  se_fail_time :: instant
  se_during :: "'db \<Rightarrow> 'db"

definition synthesize_research ::
  "(string \<Rightarrow> string) \<Rightarrow> knowledge_world \<Rightarrow> 'a agent_db_scheme synthesis_env \<Rightarrow> uuid \<Rightarrow> collected_evidence list
     \<Rightarrow> (provider_error + research_result) \<Rightarrow> 'a agent_db_scheme \<Rightarrow> ('a agent_db_scheme, unit) outcome" where
  "synthesize_research sha world env rid collected answer s =
     committed (claim_synthesis rid (se_claim_time env) s) s (\<lambda>active s1.
       if \<not> active then (Inr (), s1)
       else settle_synthesis ''research'' ResearchValidationError rid (se_fail_time env)
              (if collected = [] then Inr INSUFFICIENT_RESEARCH else answer)
              (\<lambda>result. persist_result sha world rid collected result (se_persist_time env))
              (se_during env s1))"

definition synthesize_curator ::
  "proposal_env \<Rightarrow> knowledge_world \<Rightarrow> (nat \<Rightarrow> instant) \<Rightarrow> 'a agent_db_scheme synthesis_env \<Rightarrow> uuid
     \<Rightarrow> collected_evidence list \<Rightarrow> (provider_error + curator_result) \<Rightarrow> 'a agent_db_scheme
     \<Rightarrow> ('a agent_db_scheme, unit) outcome" where
  "synthesize_curator penv world clock env rid collected answer s =
     committed (claim_synthesis rid (se_claim_time env) s) s (\<lambda>active s1.
       if \<not> active then (Inr (), s1)
       else settle_synthesis ''curator'' CuratorValidationError rid (se_fail_time env)
              (if collected = [] then Inr \<lparr> cr_findings = [], cr_proposals = [] \<rparr> else answer)
              (\<lambda>result. curator_persist_result penv world rid collected result (se_persist_time env) clock)
              (se_during env s1))"

section \<open>The operator's execution\<close>

record 'db operator_env =
  oe_lib :: schema_lib
  oe_check_output :: "schema_type \<Rightarrow> json \<Rightarrow> json option"
  oe_proposals :: proposal_env
  oe_world :: knowledge_world
  oe_proposal_clock :: "nat \<Rightarrow> instant"
  oe_claim_times :: "instant \<times> instant"
  oe_calls :: "nat \<Rightarrow> call_env"
  oe_during :: "nat \<Rightarrow> 'db \<Rightarrow> 'db"
  oe_between :: "nat \<Rightarrow> 'db \<Rightarrow> 'db"
  oe_research :: "provider_error + research_result"
  oe_curator :: "provider_error + curator_result"
  oe_synthesis :: "'db synthesis_env"
  oe_complete_time :: instant

definition operator_config :: "'db operator_env \<Rightarrow> execution_claim \<Rightarrow> loop_config" where
  "operator_config env claim =
     \<lparr> lc_lib = oe_lib env, lc_sha = pe_sha (oe_proposals env), lc_check_output = oe_check_output env,
       lc_claim = claim, lc_automatic = None,
       lc_collecting = (is_research (xc_agent_kind claim) (xc_agent_version claim) \<or>
                        is_curator (xc_agent_kind claim) (xc_agent_version claim)),
       lc_invalid_code = ''research_evidence_invalid'' \<rparr>"

definition finish_execution ::
  "execution_claim \<Rightarrow> bool \<Rightarrow> bool \<Rightarrow> instant \<Rightarrow> 'a agent_db_scheme \<Rightarrow> ('a agent_db_scheme, unit) outcome" where
  "finish_execution claim daily_brief project_watch t s =
     committed (complete_run claim daily_brief project_watch t s) s (\<lambda>_ s1. (Inr (), s1))"

definition operator_synthesis ::
  "'a agent_db_scheme operator_env \<Rightarrow> execution_claim \<Rightarrow> collected_evidence list \<Rightarrow> 'a agent_db_scheme
     \<Rightarrow> ('a agent_db_scheme, unit) outcome" where
  "operator_synthesis env claim collected s =
     committed
       (if is_research (xc_agent_kind claim) (xc_agent_version claim)
        then synthesize_research (pe_sha (oe_proposals env)) (oe_world env) (oe_synthesis env) (xc_run_id claim)
               collected (oe_research env) s
        else if is_curator (xc_agent_kind claim) (xc_agent_version claim)
        then synthesize_curator (oe_proposals env) (oe_world env) (oe_proposal_clock env) (oe_synthesis env)
               (xc_run_id claim) collected (oe_curator env) s
        else (Inr (), s)) s
       (\<lambda>_ s1. finish_execution claim False False (oe_complete_time env) s1)"

definition execute_agent_run ::
  "nat \<Rightarrow> 'a agent_db_scheme operator_env \<Rightarrow> uuid \<Rightarrow> int \<Rightarrow> 'a agent_db_scheme
     \<Rightarrow> ('a agent_db_scheme, unit) outcome option" where
  "execute_agent_run fuel env rid expected_revision s =
    (case claim_execution rid expected_revision None (fst (oe_claim_times env)) (snd (oe_claim_times env)) s of
       (Inl e, _) \<Rightarrow> Some (Inl e, s)
     | (Inr None, s1) \<Rightarrow> Some (Inr (), s1)
     | (Inr (Some claim), s1) \<Rightarrow>
        map_option (\<lambda>looped. case looped of
            (Inl e, s2) \<Rightarrow> (Inl e, s2)
          | (Inr collected, s2) \<Rightarrow> operator_synthesis env claim collected s2)
          (execution_loop fuel (operator_config env claim) (oe_calls env) (oe_during env) (oe_between env) 0 [] s1))"

end
