(* ===== verification/Run_Loop.thy ===== *)
theory Run_Loop
  imports Run_Orchestration
begin

text \<open>
  What the drivers of a Run promise as a whole: the execution loop ends, because every further round
  has consumed one Tool call of the Run's budget, and planning, the loop, the synthesis and the
  completion keep every invariant that the single services keep, whatever providers and Tools answer
  and whatever other sessions commit in between, as long as those keep it too.
\<close>

section \<open>The drivers keep invariants\<close>

lemma committed_session:
  "I s \<Longrightarrow> (\<And>b s'. m = (Inr b, s') \<Longrightarrow> I s' \<Longrightarrow> I (snd (k b s'))) \<Longrightarrow> I (snd m) \<Longrightarrow> I (snd (committed m s k))"
  by (auto simp: committed_def split: prod.splits sum.splits)

lemma result_event_type [simp]: "ev_type (result_event run ty code message v t) = ty"
  by (simp add: result_event_def)

context session_invariant
begin

lemma claim_synthesis_keeps: "I s \<Longrightarrow> I (snd (claim_synthesis rid t s))"
  unfolding claim_synthesis_def by (auto intro!: write_andThen write_transition split: option.splits)

lemma fail_result_keeps: "I s \<Longrightarrow> I (snd (fail_result rid code t s))"
  unfolding fail_result_def by (auto intro!: write_andThen write_transition split: option.splits)

lemma persist_result_keeps: "I s \<Longrightarrow> I (snd (persist_result sha world rid evidence result t s))"
  unfolding persist_result_def
  by (auto intro!: write_andThen write_transition write_event split: option.splits sum.splits
      simp: lifecycle_event_def)

lemma settle_failure_keeps: "I s \<Longrightarrow> I (snd (settle_failure rid code t s))"
  unfolding settle_failure_def by (rule committed_session) (simp_all add: fail_result_keeps)

lemma settle_synthesis_keeps:
  assumes "I s" and "\<And>r. I (snd (persist r s))"
  shows "I (snd (settle_synthesis agent invalid rid t answer persist s))"
proof (cases answer)
  case (Inl e)
  then show ?thesis using assms(1)
    by (auto simp: settle_synthesis_def intro!: settle_failure_keeps split: option.split)
next
  case (Inr r)
  then show ?thesis using assms(1) assms(2) [of r]
    by (auto simp: settle_synthesis_def intro!: settle_failure_keeps split: sum.split prod.splits)
qed

lemma synthesize_research_keeps:
  assumes "I s" and "\<And>s. I s \<Longrightarrow> I (se_during env s)"
  shows "I (snd (synthesize_research sha world env rid collected answer s))"
  unfolding synthesize_research_def
  by (rule committed_session)
    (simp_all add: assms claim_synthesis_keeps settle_synthesis_keeps persist_result_keeps)

lemma finish_execution_keeps: "I s \<Longrightarrow> I (snd (finish_execution claim a b t s))"
  unfolding finish_execution_def by (rule committed_session) (simp_all add: complete_run_keeps)

lemma call_round_keeps:
  assumes "I s" and other: "\<And>s. I s \<Longrightarrow> I (other s)"
    and reserve: "I (snd (reserve_next (lc_lib cfg) (lc_sha cfg) (lc_claim cfg) (ke_available k)
       (lc_automatic cfg) (ke_reserve_time k) s))"
  shows "I (snd (call_round cfg k other collected s))"
  unfolding call_round_def Let_def
proof (rule committed_session [where I = I])
  fix reserved s'
  assume "I s'"
  then have I: "I (other s')" by (rule other)
  show "I (snd (case reserved of None \<Rightarrow> (Inr (False, collected), s')
     | Some (st, iv, timeout) \<Rightarrow>
          (case call_reserved_tool (lc_lib cfg) (lc_check_output cfg) (ke_handle k) (ke_provider k)
                  (ke_elapsed k) st iv timeout of
             Inl _ \<Rightarrow> (Inl UncaughtError, other s')
           | Inr (output, code) \<Rightarrow>
              (case gather cfg (other s') st iv output code collected (ke_observed k) of
                 Inl e \<Rightarrow> (Inl e, other s')
               | Inr (code', references, collected') \<Rightarrow>
                  committed (finalize_invocation (lc_claim cfg) (st_id st) (iv_id iv) output code' references
                      (ke_finalize_time k) (other s')) (other s') (\<lambda>succeeded s3. (Inr (succeeded, collected'), s3))))))"
    using I \<open>I s'\<close>
    by (auto intro!: committed_session [where I = I] finalize_invocation_keeps split: option.splits sum.splits)
qed (simp_all add: assms)

end

text \<open>The invariants that reservations keep as well, with or without a condition on what is inserted:\<close>

locale executing_invariant = approving_invariant +
  assumes reserve_keeps: "I s \<Longrightarrow> I (snd (reserve_next lib sha claim available automatic t s))"
begin

lemma execution_loop_keeps:
  assumes "I s" and "\<And>k s. I s \<Longrightarrow> I (during k s)" and "\<And>k s. I s \<Longrightarrow> I (between k s)"
    and "execution_loop fuel cfg envs during between i collected s = Some out"
  shows "I (snd out)"
  using assms(1,4)
proof (induction fuel arbitrary: i collected s)
  case (Suc fuel)
  obtain r s1 where round: "call_round cfg (envs i) (during i) collected s = (r, s1)" by fastforce
  have "I (snd (call_round cfg (envs i) (during i) collected s))"
    using Suc.prems(1) assms(2) reserve_keeps [OF Suc.prems(1)] by (rule call_round_keeps)
  then have I1: "I s1" using round by simp
  then have again: "execution_loop fuel cfg envs during between (Suc i) c (between i s1) = Some out \<Longrightarrow> I (snd out)" for c
    by (rule Suc.IH [OF assms(3)])
  show ?case using Suc.prems(2) round I1 again by (auto split: sum.splits if_splits)
qed simp

lemma curator_proposals_keeps: "I s \<Longrightarrow> I (snd (curator_proposals env run items clock ids ps s))"
proof (induction ps arbitrary: ids s)
  case (Cons p ps)
  have "I (snd (create_curator_proposal env rid k action i v proposed evidence t s))"
    for rid k action i v proposed evidence t
    using Cons.prems by (rule create_curator_proposal_keeps)
  then show ?case using Cons
    by (auto intro!: write_andThen split: option.splits sum.splits prod.splits) (metis snd_conv)+
qed simp

lemma curator_persist_result_keeps:
  "I s \<Longrightarrow> I (snd (curator_persist_result env world rid evidence result t clock s))"
  unfolding curator_persist_result_def Let_def
  by (auto intro!: write_andThen write_transition write_event curator_proposals_keeps
      split: option.splits sum.splits simp: lifecycle_event_def)

lemma synthesize_curator_keeps:
  assumes "I s" and "\<And>s. I s \<Longrightarrow> I (se_during env s)"
  shows "I (snd (synthesize_curator penv world clock env rid collected answer s))"
  unfolding synthesize_curator_def
  by (rule committed_session)
    (simp_all add: assms claim_synthesis_keeps settle_synthesis_keeps curator_persist_result_keeps)

lemma operator_synthesis_keeps:
  assumes "I s" and "\<And>s. I s \<Longrightarrow> I (se_during (oe_synthesis env) s)"
  shows "I (snd (operator_synthesis env claim collected s))"
  unfolding operator_synthesis_def
  by (rule committed_session)
    (simp_all add: assms finish_execution_keeps synthesize_research_keeps synthesize_curator_keeps)

lemma execute_agent_run_keeps:
  assumes "I s" and "\<And>k s. I s \<Longrightarrow> I (oe_during env k s)" and "\<And>k s. I s \<Longrightarrow> I (oe_between env k s)"
    and "\<And>s. I s \<Longrightarrow> I (se_during (oe_synthesis env) s)"
    and "execute_agent_run fuel env rid n s = Some out"
  shows "I (snd out)"
proof -
  let ?claim = "claim_execution rid n None (fst (oe_claim_times env)) (snd (oe_claim_times env)) s"
  have claim: "I (snd ?claim)" using assms(1) by (rule claim_execution_keeps)
  have loop: "I (snd looped)"
    if "execution_loop fuel cfg (oe_calls env) (oe_during env) (oe_between env) 0 [] s1 = Some looped" "I s1"
    for looped cfg s1
    using that(2) assms(2,3) that(1) by (rule execution_loop_keeps)
  have finish: "I (snd (case looped of (Inl e, s2) \<Rightarrow> (Inl e, s2)
          | (Inr collected, s2) \<Rightarrow> operator_synthesis env c collected s2))" if "I (snd looped)" for looped c
    using that operator_synthesis_keeps assms(4) by (auto split: prod.splits sum.splits)
  obtain r s1 where c: "?claim = (r, s1)" by fastforce
  show ?thesis
  proof (cases "\<exists>claim. r = Inr (Some claim)")
    case False
    then show ?thesis using assms(1,5) claim c
      by (auto simp: execute_agent_run_def split: sum.splits option.splits)
  next
    case True
    then obtain claim looped where "r = Inr (Some claim)"
        "execution_loop fuel (operator_config env claim) (oe_calls env) (oe_during env) (oe_between env) 0 [] s1 = Some looped"
        "out = (case looped of (Inl e, s2) \<Rightarrow> (Inl e, s2) | (Inr collected, s2) \<Rightarrow> operator_synthesis env claim collected s2)"
      using assms(5) c by (auto simp: execute_agent_run_def)
    then show ?thesis using finish loop claim c by simp
  qed
qed

end

context planning_invariant
begin

lemma plan_read_only_run_keeps:
  assumes "I s" and "\<And>s. I s \<Longrightarrow> I (other s)"
  shows "I (snd (plan_read_only_run lib rid n tools answer available other t t' s))"
proof -
  have settle: "I (snd (settle_plan claim steps t' s))" if "I s" for claim steps s
    using that by (auto simp: settle_plan_def
        intro!: committed_session [where I = I] finalize_plan_keeps finalize_failure_keeps split: sum.split option.split)
  show ?thesis unfolding plan_read_only_run_def
    by (rule committed_session) (auto simp: assms claim_planning_keeps settle split: option.split)
qed

end

sublocale growing_invariant \<subseteq> executing_invariant
  by unfold_locales (rule reserve_next_keeps_growing)

interpretation spending: executing_invariant within_budgets
proof unfold_locales
  fix s :: "'a agent_db_scheme"
  assume I: "within_budgets s"
  show "within_budgets (snd (insert_agent_step x s))" for x
  proof (rule within_budgets_frame [OF I])
    show "get_step s i \<noteq> None \<Longrightarrow> get_step (snd (insert_agent_step x s)) i \<noteq> None" for i
      by (auto simp: insert_agent_step_def uuid4_def add_step_def Let_def get_step_def row_get_def find_append
          split: option.splits)
  qed (simp_all add: insert_agent_step_def uuid4_def add_step_def Let_def get_agent_run_def)
  show "within_budgets (snd (insert_approval_request z s))" for z
    by (rule within_budgets_frame [OF I])
      (simp_all add: insert_approval_request_def uuid4_def add_approval_def Let_def get_step_def get_agent_run_def)
  show "within_budgets (snd (reserve_next lib sha claim available automatic t s))"
    for lib sha claim available automatic t
    using I by (intro budgets.reserve_next_keeps) (auto intro: reserve_insert_budgets)
qed

section \<open>The loop ends\<close>

text \<open>How many calls a Run has made, and its budget; \<open>calls_left\<close> bounds the rounds to come.\<close>

definition usage :: "uuid \<Rightarrow> nat \<Rightarrow> int option \<Rightarrow> 'a agent_db_scheme \<Rightarrow> bool" where
  "usage rid n b s \<longleftrightarrow>
     count_invocations s rid None = n \<and> map_option r_tool_call_budget (get_agent_run s rid) = b"

definition calls_left :: "'a agent_db_scheme \<Rightarrow> uuid \<Rightarrow> nat" where
  "calls_left s rid = (case get_agent_run s rid of None \<Rightarrow> 0
     | Some run \<Rightarrow> nat (r_tool_call_budget run - int (count_invocations s rid None)))"

lemma usage_frame:
  assumes "usage rid n b s" and "map invocation_identity (db_invocations s') = map invocation_identity (db_invocations s)"
    and "map_option r_tool_call_budget (get_agent_run s' rid) = map_option r_tool_call_budget (get_agent_run s rid)"
  shows "usage rid n b s'"
proof -
  have "length (filter (\<lambda>iv. iv_run_id iv = rid) (db_invocations s')) =
      length (filter (\<lambda>iv. iv_run_id iv = rid) (db_invocations s))"
    by (rule filter_length_image [OF assms(2)]) (drule invocation_identity_keys, simp)
  then show ?thesis using assms(1,3) by (simp add: usage_def count_invocations_def)
qed

interpretation usage: approving_invariant "usage rid n b" for rid n b
proof unfold_locales
  fix s :: "'a agent_db_scheme"
  assume I: "usage rid n b s"
  note frame = usage_frame [OF I]
  show "usage rid n b (upd_step i f s)" for i f
    by (rule frame) (simp_all add: get_agent_run_def)
  show "usage rid n b (upd_invocation i g s)" if "\<And>x. invocation_identity (g x) = invocation_identity x" for i g
    by (rule frame) (simp_all add: upd_invocation_def row_upd_map that get_agent_run_def)
  show "usage rid n b (upd_approval i h s)" for i h
    by (rule frame) (simp_all add: get_agent_run_def)
  show "usage rid n b (snd (append_agent_event e s))" for e
    by (rule frame) (simp_all add: append_agent_event_frame get_agent_run_def)
  show "usage rid n b (snd (uuid4 s))"
    by (rule frame) (simp_all add: get_agent_run_def)
  show "usage rid n b (snd (transition_run i st m new t code s))" for i st m new t code
  proof (rule frame)
    show "map_option r_tool_call_budget (get_agent_run (snd (transition_run i st m new t code s)) rid) =
        map_option r_tool_call_budget (get_agent_run s rid)"
      by (cases rule: transition_run_cases [of i st m new t code s])
        (simp_all add: moved_db_def get_agent_run_def row_get_upd option.map_comp comp_def)
  qed (simp add: transition_run_frame)
  show "usage rid n b (snd (insert_agent_step x s))" for x
    by (rule frame) (simp_all add: insert_agent_step_def uuid4_def add_step_def Let_def get_agent_run_def)
  show "usage rid n b (snd (insert_approval_request z s))" for z
    by (rule frame) (simp_all add: insert_approval_request_def uuid4_def add_approval_def Let_def get_agent_run_def)
qed

lemma reserve_next_spends:
  assumes "reserve_next lib sha claim available automatic t s = (Inr (Some r), s')"
  shows "calls_left s (xc_run_id claim) = Suc (calls_left s' (xc_run_id claim))"
proof -
  obtain st' iv' timeout where r: "r = (st', iv', timeout)" by (cases r)
  let ?rid = "xc_run_id claim"
  obtain run st name vtext where run: "get_agent_run s ?rid = Some run"
    and step: "reserve_step lib sha available t run st name vtext s = (Inr (Some (st', iv', timeout)), s')"
    using assms unfolding r by (rule reserve_next_OK)
  have rid: "r_id run = ?rid" using run by (rule runs.get_key)
  obtain attempt version policy iv s1 e where
    pol: "resolve_tool_policy agent_tool_registry (lib_validate lib) name version ''read''
       (reserve_candidate lib name version (st_normalized_input st))
       (reservation_context s run name available) = Inr policy"
    and ins: "reserve_tool_invocation (new_invocation sha run st attempt name vtext (rp_normalized_input policy) t) s
       = (Inr iv, s1)"
    and start: "start_reserved run st iv t s1 = (Inr e, s')"
    using step by (rule reserve_step_OK)
  have left: "int (count_invocations s ?rid None) < r_tool_call_budget run"
    using pol by (auto simp: resolve_Inr_iff reservation_context_def rid)
  have "iv_run_id iv = ?rid" and s1: "s1 = s\<lparr>db_next_id := Suc (db_next_id s), db_invocations := db_invocations s @ [iv]\<rparr>"
    using reserve_tool_invocation_OK [OF ins] by (simp_all add: new_invocation_def Let_def rid)
  then have "usage ?rid (Suc (count_invocations s ?rid None)) (Some (r_tool_call_budget run)) s1"
    using run by (simp add: usage_def count_invocations_def get_agent_run_def)
  then have "usage ?rid (Suc (count_invocations s ?rid None)) (Some (r_tool_call_budget run))
      (snd (start_reserved run st iv t s1))"
    by (rule usage.start_reserved_keeps)
  then show ?thesis using run left start
    by (auto simp: usage_def calls_left_def)
qed

definition spares :: "uuid \<Rightarrow> ('a agent_db_scheme \<Rightarrow> 'a agent_db_scheme) \<Rightarrow> bool" where
  "spares rid f \<longleftrightarrow> (\<forall>s. calls_left (f s) rid \<le> calls_left s rid)"

lemma usage_calls_left:
  "(\<And>n b. usage rid n b s \<Longrightarrow> usage rid n b s') \<Longrightarrow> calls_left s' rid = calls_left s rid"
  unfolding usage_def calls_left_def
  by (cases "get_agent_run s rid"; cases "get_agent_run s' rid") fastforce+

lemma call_round_spends:
  assumes "call_round cfg k other collected s = (Inr (True, collected'), s')" and "spares (xc_run_id (lc_claim cfg)) other"
  shows "calls_left s' (xc_run_id (lc_claim cfg)) < calls_left s (xc_run_id (lc_claim cfg))"
proof -
  let ?rid = "xc_run_id (lc_claim cfg)"
  obtain st iv timeout s1 where res: "reserve_next (lc_lib cfg) (lc_sha cfg) (lc_claim cfg) (ke_available k)
      (lc_automatic cfg) (ke_reserve_time k) s = (Inr (Some (st, iv, timeout)), s1)"
    and rest: "\<exists>output code references. finalize_invocation (lc_claim cfg) (st_id st) (iv_id iv) output code references
        (ke_finalize_time k) (other s1) = (Inr True, s')"
    using assms(1) unfolding call_round_def committed_def Let_def
    by (auto split: prod.splits sum.splits option.splits)
  obtain result code references where fin: "s' = snd (finalize_invocation (lc_claim cfg) (st_id st) (iv_id iv) result
      code references (ke_finalize_time k) (other s1))"
    using rest by (metis snd_conv)
  have "calls_left s' ?rid = calls_left (other s1) ?rid"
    unfolding fin by (rule usage_calls_left) (rule usage.finalize_invocation_keeps)
  also have "\<dots> \<le> calls_left s1 ?rid" using assms(2) by (simp add: spares_def)
  also have "\<dots> < calls_left s ?rid" using reserve_next_spends [OF res] by simp
  finally show ?thesis .
qed

lemma execution_loop_returns:
  assumes "\<And>k. spares (xc_run_id (lc_claim cfg)) (during k)" and "\<And>k. spares (xc_run_id (lc_claim cfg)) (between k)"
    and "calls_left s (xc_run_id (lc_claim cfg)) < fuel"
  shows "\<exists>out. execution_loop fuel cfg envs during between i collected s = Some out"
  using assms(3)
proof (induction fuel arbitrary: i collected s)
  case (Suc fuel)
  obtain r s1 where round: "call_round cfg (envs i) (during i) collected s = (r, s1)" by fastforce
  show ?case
  proof (cases "\<exists>c. r = Inr (True, c)")
    case True
    then obtain c where "r = Inr (True, c)" by blast
    moreover have "calls_left (between i s1) (xc_run_id (lc_claim cfg)) < fuel"
    proof -
      have "calls_left (between i s1) (xc_run_id (lc_claim cfg)) \<le> calls_left s1 (xc_run_id (lc_claim cfg))"
        using assms(2) by (simp add: spares_def)
      also have "\<dots> < calls_left s (xc_run_id (lc_claim cfg))"
        using round True assms(1) call_round_spends by blast
      finally show ?thesis using Suc.prems by simp
    qed
    ultimately show ?thesis using Suc.IH round by simp
  next
    case False
    then show ?thesis using round by (cases r) auto
  qed
qed simp

lemma execution_loop_more:
  "execution_loop fuel cfg envs during between i collected s = Some out \<Longrightarrow>
     execution_loop (fuel + extra) cfg envs during between i collected s = Some out"
  by (induction fuel arbitrary: i collected s) (auto split: prod.splits sum.splits if_splits)

lemma execute_agent_run_returns:
  assumes "\<And>k. spares rid (oe_during env k)" and "\<And>k. spares rid (oe_between env k)"
  shows "\<exists>out. \<forall>fuel > calls_left s rid. execute_agent_run fuel env rid n s = Some out"
proof -
  let ?claimed = "claim_execution rid n None (fst (oe_claim_times env)) (snd (oe_claim_times env)) s"
  obtain r s1 where c: "?claimed = (r, s1)" by fastforce
  show ?thesis
  proof (cases "\<exists>claim. r = Inr (Some claim)")
    case False
    have "\<exists>out. \<forall>fuel. execute_agent_run fuel env rid n s = Some out"
      using False c by (cases r; cases "projr r") (auto simp: execute_agent_run_def)
    then show ?thesis by blast
  next
    case True
    then obtain claim where r: "r = Inr (Some claim)" by blast
    let ?cfg = "operator_config env claim"
    let ?loop = "\<lambda>fuel. execution_loop fuel ?cfg (oe_calls env) (oe_during env) (oe_between env) 0 [] s1"
    have claim: "xc_run_id claim = rid"
      using c unfolding r
      by (elim claim_execution_OK) (simp add: execution_claim_of_def move_run_simps runs.get_key)
    then have id: "xc_run_id (lc_claim ?cfg) = rid" by (simp add: operator_config_def)
    have s1: "s1 = snd ?claimed" using c by simp
    have left: "calls_left s1 rid = calls_left s rid"
      unfolding s1 by (rule usage_calls_left) (rule usage.claim_execution_keeps)
    obtain looped where looped: "?loop (Suc (calls_left s rid)) = Some looped"
      using execution_loop_returns [of ?cfg "oe_during env" "oe_between env" s1] assms left id by fastforce
    have "?loop fuel = Some looped" if "calls_left s rid < fuel" for fuel
      using execution_loop_more [OF looped, of "fuel - Suc (calls_left s rid)"] that by simp
    then show ?thesis using c unfolding r execute_agent_run_def by auto
  qed
qed

section \<open>Properties\<close>

text \<open>What everybody keeps: a well-formed log that extends \<open>es\<close>, the frozen plan \<open>ps\<close> and the budgets.\<close>

definition audited :: "agent_event list \<Rightarrow> agent_step list \<Rightarrow> 'a agent_db_scheme \<Rightarrow> bool" where
  "audited es ps s \<longleftrightarrow> log_ok s \<and> log_extends es s \<and> plan_extends ps s \<and> within_budgets s"

lemma conj_executing:
  assumes "executing_invariant I" and "executing_invariant J"
  shows "executing_invariant (\<lambda>s. I s \<and> J s)"
  using assms unfolding executing_invariant_def approving_invariant_def planning_invariant_def
    session_invariant_def executing_invariant_axioms_def approving_invariant_axioms_def planning_invariant_axioms_def
  by (elim conjE, intro conjI allI impI; simp)

interpretation audited: executing_invariant "audited es ps" for es ps
  unfolding audited_def
  by (intro conj_executing audit.executing_invariant_axioms append_only.executing_invariant_axioms
    frozen_plan.executing_invariant_axioms spending.executing_invariant_axioms)

text \<open>C14: A request to execute a Run returns. If the other sessions neither remove invocations of the Run nor
  raise its Tool-call budget, then whatever the Tools and providers answer, one round more than the
  calls left in the budget suffices for the loop, and more fuel changes nothing.\<close>

theorem execution_request_returns:
  assumes "\<And>k. spares rid (oe_during env k)" and "\<And>k. spares rid (oe_between env k)"
  shows "\<exists>out. \<forall>fuel > calls_left s rid. execute_agent_run fuel env rid n s = Some out"
  using assms by (rule execute_agent_run_returns)

definition example_call :: call_env where
  "example_call = \<lparr> ke_available = True, ke_reserve_time = 200, ke_handle = (\<lambda>_ _. Inl OtherException),
     ke_provider = None, ke_elapsed = 0, ke_observed = [], ke_finalize_time = 210 \<rparr>"

definition example_operator :: "agent_db operator_env" where
  "example_operator = \<lparr> oe_lib = example_lib, oe_check_output = (\<lambda>_ _. None), oe_proposals = example_env,
     oe_world = example_world, oe_proposal_clock = (\<lambda>_. 300), oe_claim_times = (130, 131),
     oe_calls = (\<lambda>_. example_call), oe_during = (\<lambda>_ s. s), oe_between = (\<lambda>_ s. s),
     oe_research = Inl Timeout, oe_curator = Inl Timeout,
     oe_synthesis = \<lparr> se_claim_time = 220, se_persist_time = 230, se_fail_time = 240, se_during = (\<lambda>s. s) \<rparr>,
     oe_complete_time = 250 \<rparr>"

theorem execution_request_returns_witness:
  "\<exists>out. \<forall>fuel > calls_left example_planned 11. execute_agent_run fuel example_operator 11 2 example_planned = Some out"
  by (rule execution_request_returns) (simp_all add: example_operator_def spares_def)

text \<open>C15: Executing a Run keeps its history. Over the whole request (claim, calls, synthesis, completion,
  with the commits of other sessions in between) the audit log stays well-formed and only grows,
  the frozen plan columns of the steps stay as they are and no budget is exceeded, if what the other
  sessions commit keeps this as well.\<close>

theorem execution_keeps_history:
  assumes "execute_agent_run fuel env rid n s = Some out" and "log_ok s" and "within_budgets s"
    and "\<And>k s'. audited (db_events s) (map step_plan (db_steps s)) s' \<Longrightarrow>
           audited (db_events s) (map step_plan (db_steps s)) (oe_during env k s')"
    and "\<And>k s'. audited (db_events s) (map step_plan (db_steps s)) s' \<Longrightarrow>
           audited (db_events s) (map step_plan (db_steps s)) (oe_between env k s')"
    and "\<And>s'. audited (db_events s) (map step_plan (db_steps s)) s' \<Longrightarrow>
           audited (db_events s) (map step_plan (db_steps s)) (se_during (oe_synthesis env) s')"
  shows "log_ok (snd out) \<and> within_budgets (snd out) \<and>
    take (length (db_events s)) (db_events (snd out)) = db_events s \<and>
    take (length (db_steps s)) (map step_plan (db_steps (snd out))) = map step_plan (db_steps s)"
proof -
  have "audited (db_events s) (map step_plan (db_steps s)) s"
    using assms(2,3) by (simp add: audited_def log_extends_def plan_extends_def)
  then have "audited (db_events s) (map step_plan (db_steps s)) (snd out)"
    using assms(4-6,1) by (rule audited.execute_agent_run_keeps)
  then show ?thesis by (simp add: audited_def log_extends_def plan_extends_def)
qed

theorem execution_keeps_history_witness:
  "\<exists>out. execute_agent_run 100 example_operator 11 2 example_planned = Some out \<and> log_ok (snd out) \<and>
     within_budgets (snd out) \<and> db_events (snd out) \<noteq> []"
proof -
  have "calls_left example_planned 11 < 100" by code_simp
  then obtain out where out: "execute_agent_run 100 example_operator 11 2 example_planned = Some out"
    using execute_agent_run_returns [of 11 example_operator example_planned 2]
    by (auto simp: example_operator_def spares_def)
  have "db_invocations example_planned = []" by code_simp
  then have budgets: "within_budgets example_planned"
    by (simp add: within_budgets_def invocations_linked_def count_invocations_def retries_used_def)
  have "db_events example_planned \<noteq> []" by code_simp
  then show ?thesis
    using execution_keeps_history [OF out example_planned_log budgets] out by (auto simp: example_operator_def)
qed

end
