(* ===== verification/Schedule_Calc.thy ===== *)
theory Schedule_Calc
  imports Prelude
begin

text \<open>
  Schedule calculation (\<open>app/automations/schedule.py\<close>). A date is its proleptic ordinal (day 1 is
  Monday, 1 January of year 1), a wall time of day a number of microseconds, a local datetime the
  microseconds since ordinal 0, and an instant the same count in UTC. A time zone is its two
  offset functions: at a UTC instant, and at a wall time with fold 0; the database of zones is
  the parameter \<open>zones\<close>. The range of \<open>date\<close> (years 1 to 9999) is not modelled.
\<close>

type_synonym ordinal = int
type_synonym wall = int

definition DAY :: int where "DAY = days 1"

record time_zone =
  tz_utc_offset :: "instant \<Rightarrow> int"
  tz_wall_offset :: "wall \<Rightarrow> int"

record schedule_definition =
  sd_kind :: string
  sd_timezone_name :: string
  sd_local_time :: int
  sd_time_has_zone :: bool
  sd_one_time_local_date :: "ordinal option"
  sd_weekdays :: "int list"
  sd_interval_count :: int

record schedule_point =
  sp_local_date :: ordinal
  sp_local_time :: int
  sp_timezone_name :: string
  sp_utc_offset_minutes :: int
  sp_utc_instant :: instant

definition isoweekday :: "ordinal \<Rightarrow> int" where
  "isoweekday d = (d - 1) mod 7 + 1"

section \<open>Local times\<close>

definition find_zone :: "(string \<Rightarrow> time_zone option) \<Rightarrow> string \<Rightarrow> exn + time_zone" where
  "find_zone zones name = (case zones name of None \<Rightarrow> Inl ScheduleCalculationError | Some z \<Rightarrow> Inr z)"

definition to_utc :: "time_zone \<Rightarrow> wall \<Rightarrow> instant" where
  "to_utc z local = local - tz_wall_offset z local"

definition from_utc :: "time_zone \<Rightarrow> instant \<Rightarrow> wall" where
  "from_utc z t = t + tz_utc_offset z t"

text \<open>\<open>_valid_fold(local, zone, 0)\<close>: the wall time exists, that is, survives the round trip.\<close>

definition valid_fold :: "time_zone \<Rightarrow> wall \<Rightarrow> bool" where
  "valid_fold z local \<longleftrightarrow> from_utc z (to_utc z local) = local"

fun search_valid :: "time_zone \<Rightarrow> nat \<Rightarrow> wall \<Rightarrow> wall option" where
  "search_valid z 0 local = None"
| "search_valid z (Suc n) local =
    (let candidate = local + minutes 1 in
     if valid_fold z candidate then Some candidate else search_valid z n candidate)"

definition resolve_local :: "time_zone \<Rightarrow> wall \<Rightarrow> exn + wall" where
  "resolve_local z local =
    (if valid_fold z local then Inr local
     else (case search_valid z (24 * 60) local of
             None \<Rightarrow> Inl ScheduleCalculationError | Some w \<Rightarrow> Inr w))"

definition point ::
  "(string \<Rightarrow> time_zone option) \<Rightarrow> ordinal \<Rightarrow> int \<Rightarrow> schedule_definition \<Rightarrow> exn + schedule_point" where
  "point zones date time d =
    (case find_zone zones (sd_timezone_name d) of
       Inl e \<Rightarrow> Inl e
     | Inr z \<Rightarrow>
        (case resolve_local z (date * DAY + time) of
           Inl e \<Rightarrow> Inl e
         | Inr w \<Rightarrow> Inr
            \<lparr> sp_local_date = w div DAY, sp_local_time = w mod DAY,
              sp_timezone_name = sd_timezone_name d,
              sp_utc_offset_minutes = tz_wall_offset z w div minutes 1,
              sp_utc_instant = to_utc z w \<rparr>))"

section \<open>Validation\<close>

definition validate_definition ::
  "(string \<Rightarrow> time_zone option) \<Rightarrow> schedule_definition \<Rightarrow> exn + unit" where
  "validate_definition zones d =
    (case find_zone zones (sd_timezone_name d) of
       Inl e \<Rightarrow> Inl e
     | Inr _ \<Rightarrow>
        if sd_time_has_zone d then Inl ScheduleCalculationError
        else if sd_local_time d mod minutes 1 \<noteq> 0 then Inl ScheduleCalculationError
        else if \<not> (1 \<le> sd_interval_count d \<and> sd_interval_count d \<le> 365) then Inl ScheduleCalculationError
        else if sd_kind d = ''one_time'' then
          (if sd_one_time_local_date d = None \<or> sd_weekdays d \<noteq> [] then Inl ScheduleCalculationError
           else Inr ())
        else if sd_kind d = ''daily'' then
          (if sd_one_time_local_date d \<noteq> None \<or> sd_weekdays d \<noteq> [] then Inl ScheduleCalculationError
           else Inr ())
        else if sd_kind d = ''weekly'' then
          (if sd_one_time_local_date d \<noteq> None then Inl ScheduleCalculationError
           else if sd_weekdays d = [] \<or> list_ex (\<lambda>w. w < 1 \<or> w > 7) (sd_weekdays d)
             then Inl ScheduleCalculationError
           else if \<not> distinct (sd_weekdays d) then Inl ScheduleCalculationError
           else Inr ())
        else Inl ScheduleCalculationError)"

section \<open>The next slot\<close>

fun daily_search ::
  "(string \<Rightarrow> time_zone option) \<Rightarrow> schedule_definition \<Rightarrow> instant \<Rightarrow> int \<Rightarrow> nat \<Rightarrow> ordinal
     \<Rightarrow> exn + schedule_point option" where
  "daily_search zones d after step 0 date = Inl ScheduleCalculationError"
| "daily_search zones d after step (Suc n) date =
    (case point zones date (sd_local_time d) d of
       Inl e \<Rightarrow> Inl e
     | Inr p \<Rightarrow> if sp_utc_instant p > after then Inr (Some p)
               else daily_search zones d after step n (date + step))"

definition days_forward :: "int list \<Rightarrow> ordinal \<Rightarrow> int" where
  "days_forward weekdays date = foldl min 7 (map (\<lambda>w. (w - isoweekday date) mod 7) weekdays)"

fun weekly_search ::
  "(string \<Rightarrow> time_zone option) \<Rightarrow> schedule_definition \<Rightarrow> instant \<Rightarrow> nat \<Rightarrow> ordinal
     \<Rightarrow> exn + schedule_point option" where
  "weekly_search zones d after 0 date = Inl ScheduleCalculationError"
| "weekly_search zones d after (Suc n) date =
    (let date' = date + days_forward (sort (sd_weekdays d)) date in
     case point zones date' (sd_local_time d) d of
       Inl e \<Rightarrow> Inl e
     | Inr p \<Rightarrow> if sp_utc_instant p > after then Inr (Some p)
               else weekly_search zones d after n (date' + 1))"

text \<open>The first candidate date after a prior slot of a weekly schedule.\<close>

definition weekly_start :: "schedule_definition \<Rightarrow> ordinal \<Rightarrow> ordinal" where
  "weekly_start d prior =
    (let weekdays = sort (sd_weekdays d); today = isoweekday prior in
     case filter (\<lambda>w. w > today) weekdays of
       w # _ \<Rightarrow> prior + (w - today)
     | [] \<Rightarrow> prior + ((7 - today) + hd weekdays + 7 * (sd_interval_count d - 1)))"

definition next_point ::
  "(string \<Rightarrow> time_zone option) \<Rightarrow> schedule_definition \<Rightarrow> instant \<Rightarrow> schedule_point option
     \<Rightarrow> exn + schedule_point option" where
  "next_point zones d after prior =
    (case validate_definition zones d of
       Inl e \<Rightarrow> Inl e
     | Inr _ \<Rightarrow>
        if sd_kind d = ''one_time'' then
          (case point zones (the (sd_one_time_local_date d)) (sd_local_time d) d of
             Inl e \<Rightarrow> Inl e
           | Inr p \<Rightarrow> Inr (if sp_utc_instant p > after then Some p else None))
        else
         (case find_zone zones (sd_timezone_name d) of
            Inl e \<Rightarrow> Inl e
          | Inr z \<Rightarrow>
             if sd_kind d = ''daily'' then
               (case prior of
                  None \<Rightarrow> daily_search zones d after 1 367 (from_utc z after div DAY)
                | Some p \<Rightarrow> daily_search zones d after (sd_interval_count d) 367
                             (sp_local_date p + sd_interval_count d))
             else
               weekly_search zones d after 370
                 (case prior of
                    None \<Rightarrow> from_utc z after div DAY
                  | Some p \<Rightarrow> weekly_start d (sp_local_date p))))"

fun preview_loop ::
  "(string \<Rightarrow> time_zone option) \<Rightarrow> schedule_definition \<Rightarrow> nat \<Rightarrow> schedule_point option \<Rightarrow> instant
     \<Rightarrow> exn + schedule_point list" where
  "preview_loop zones d 0 prior cursor = Inr []"
| "preview_loop zones d (Suc n) prior cursor =
    (case next_point zones d cursor prior of
       Inl e \<Rightarrow> Inl e
     | Inr None \<Rightarrow> Inr []
     | Inr (Some p) \<Rightarrow>
        if sp_utc_instant p \<le> cursor then Inl ScheduleCalculationError
        else (case preview_loop zones d n (Some p) (sp_utc_instant p) of
                Inl e \<Rightarrow> Inl e | Inr ps \<Rightarrow> Inr (p # ps)))"

definition preview_schedule ::
  "(string \<Rightarrow> time_zone option) \<Rightarrow> schedule_definition \<Rightarrow> instant \<Rightarrow> int \<Rightarrow> exn + schedule_point list" where
  "preview_schedule zones d after count =
    (if \<not> (1 \<le> count \<and> count \<le> 10) then Inl ScheduleCalculationError
     else preview_loop zones d (nat count) None after)"

section \<open>Lemmas\<close>

lemma DAY_pos: "0 < DAY" "DAY = 24 * 60 * minutes 1" "0 < minutes 1"
  by (simp_all add: DAY_def days_def minutes_def)

lemma search_valid_Some:
  "search_valid z n local = Some w \<Longrightarrow>
     valid_fold z w \<and> (\<exists>k. 1 \<le> k \<and> k \<le> n \<and> w = local + int k * minutes 1 \<and>
       (\<forall>j. 1 \<le> j \<longrightarrow> j < k \<longrightarrow> \<not> valid_fold z (local + int j * minutes 1)))"
proof (induction n arbitrary: local)
  case (Suc n)
  let ?c = "local + minutes 1"
  show ?case
  proof (cases "valid_fold z ?c")
    case True
    then have "w = ?c" using Suc.prems by (simp add: Let_def)
    with True show ?thesis by (intro conjI exI [of _ 1]) auto
  next
    case False
    then have "search_valid z n ?c = Some w" using Suc.prems by (simp add: Let_def)
    from Suc.IH [OF this] obtain k where k: "valid_fold z w" "1 \<le> k" "k \<le> n" "w = ?c + int k * minutes 1"
      and before: "\<And>j. 1 \<le> j \<Longrightarrow> j < k \<Longrightarrow> \<not> valid_fold z (?c + int j * minutes 1)" by blast
    have "\<not> valid_fold z (local + int j * minutes 1)" if "1 \<le> j" "j < Suc k" for j
    proof (cases "j = 1")
      case True
      then show ?thesis using False by simp
    next
      case False
      then have "\<not> valid_fold z (?c + int (j - 1) * minutes 1)" using that by (intro before) auto
      moreover have "?c + int (j - 1) * minutes 1 = local + int j * minutes 1"
        using that by (simp add: algebra_simps of_nat_diff)
      ultimately show ?thesis by (simp only: not_False_eq_True)
    qed
    then show ?thesis using k by (intro conjI exI [of _ "Suc k"]) (auto simp: algebra_simps)
  qed
qed simp

lemma search_valid_total:
  "valid_fold z (local + int k * minutes 1) \<Longrightarrow> 1 \<le> k \<Longrightarrow> k \<le> n \<Longrightarrow> \<exists>w. search_valid z n local = Some w"
proof (induction n arbitrary: local k)
  case (Suc n)
  show ?case
  proof (cases "k = 1")
    case True
    then show ?thesis using Suc.prems(1) by (simp add: Let_def)
  next
    case False
    have shift: "local + minutes 1 + int (k - 1) * minutes 1 = local + int k * minutes 1"
      using Suc.prems(2) by (simp add: algebra_simps of_nat_diff)
    have "valid_fold z (local + minutes 1 + int (k - 1) * minutes 1)"
      unfolding shift by (rule Suc.prems(1))
    then have "\<exists>w. search_valid z n (local + minutes 1) = Some w"
      using False Suc.prems by (intro Suc.IH [of _ "k - 1"]) simp_all
    then show ?thesis by (simp add: Let_def)
  qed
qed simp

lemma resolve_local_Inr:
  assumes "resolve_local z local = Inr w"
  shows "valid_fold z w" "local \<le> w" "w \<le> local + DAY"
    "\<exists>k. w = local + int k * minutes 1 \<and> (\<forall>j < k. \<not> valid_fold z (local + int j * minutes 1))"
proof -
  have "valid_fold z w \<and> (\<exists>k \<le> 24 * 60. w = local + int k * minutes 1 \<and>
      (\<forall>j < k. \<not> valid_fold z (local + int j * minutes 1)))"
  proof (cases "valid_fold z local")
    case True
    then show ?thesis using assms by (auto simp: resolve_local_def intro: exI [of _ 0])
  next
    case False
    then have "search_valid z (24 * 60) local = Some w"
      using assms by (auto simp: resolve_local_def split: option.splits)
    from search_valid_Some [OF this] obtain k where k: "valid_fold z w" "1 \<le> k" "k \<le> 24 * 60"
      "w = local + int k * minutes 1" "\<forall>j. 1 \<le> j \<longrightarrow> j < k \<longrightarrow> \<not> valid_fold z (local + int j * minutes 1)"
      by blast
    have "\<not> valid_fold z (local + int j * minutes 1)" if "j < k" for j
      using k(5) False that by (cases j) auto
    with k show ?thesis by blast
  qed
  then obtain k where k: "valid_fold z w" "k \<le> 24 * 60" "w = local + int k * minutes 1"
    "\<forall>j < k. \<not> valid_fold z (local + int j * minutes 1)" by blast
  show "valid_fold z w" "\<exists>k. w = local + int k * minutes 1 \<and> (\<forall>j < k. \<not> valid_fold z (local + int j * minutes 1))"
    using k by blast+
  have "int k * minutes 1 \<le> DAY"
    using k(2) DAY_pos(3) unfolding DAY_pos(2) by (intro mult_right_mono) auto
  then show "local \<le> w" "w \<le> local + DAY"
    using k(3) DAY_pos(3) by (simp_all add: minutes_def)
qed

lemma daily_search_Inr:
  "daily_search zones d after step n date = Inr res \<Longrightarrow>
     \<exists>k p. k < n \<and> res = Some p \<and> point zones (date + int k * step) (sd_local_time d) d = Inr p \<and>
       after < sp_utc_instant p \<and>
       (\<forall>j < k. \<exists>q. point zones (date + int j * step) (sd_local_time d) d = Inr q \<and> sp_utc_instant q \<le> after)"
proof (induction n arbitrary: date)
  case (Suc n)
  then obtain p where p: "point zones date (sd_local_time d) d = Inr p"
    by (auto split: sum.splits)
  show ?case
  proof (cases "after < sp_utc_instant p")
    case True
    then show ?thesis using Suc.prems p by (intro exI [of _ 0] exI [of _ p]) simp
  next
    case False
    then have "daily_search zones d after step n (date + step) = Inr res" using Suc.prems p by simp
    from Suc.IH [OF this] obtain k q where kq: "k < n" "res = Some q"
      "point zones (date + step + int k * step) (sd_local_time d) d = Inr q" "after < sp_utc_instant q"
      and before: "\<And>j. j < k \<Longrightarrow> \<exists>q. point zones (date + step + int j * step) (sd_local_time d) d = Inr q \<and> sp_utc_instant q \<le> after"
      by blast
    have shift: "date + step + int j * step = date + int (Suc j) * step" for j
      by (simp add: algebra_simps)
    have "\<exists>q. point zones (date + int j * step) (sd_local_time d) d = Inr q \<and> sp_utc_instant q \<le> after"
      if "j < Suc k" for j
      using that p False before [of "j - 1"] by (cases j) (auto simp: shift)
    then show ?thesis using kq by (intro exI [of _ "Suc k"] exI [of _ q]) (simp add: shift)
  qed
qed simp

lemma isoweekday_range: "1 \<le> isoweekday d" "isoweekday d \<le> 7"
  by (simp_all add: isoweekday_def)

lemma isoweekday_forward:
  assumes "1 \<le> w" "w \<le> 7"
  shows "isoweekday (d + (w - isoweekday d) mod 7) = w"
proof -
  have shift: "w - isoweekday d = w - 1 - (d - 1) mod 7" by (simp add: isoweekday_def)
  have "d + (w - 1 - (d - 1) mod 7) mod 7 - 1 = d - 1 + (w - 1 - (d - 1)) mod 7"
    by (simp only: mod_diff_right_eq)
  then have "isoweekday (d + (w - isoweekday d) mod 7) = (d - 1 + (w - 1 - (d - 1))) mod 7 + 1"
    unfolding isoweekday_def [of "d + _"] shift by (simp only: mod_add_right_eq)
  also have "\<dots> = w" using assms by simp
  finally show ?thesis .
qed

lemma isoweekday_before:
  assumes "0 \<le> j" "isoweekday (d + j) = w"
  shows "(w - isoweekday d) mod 7 \<le> j"
proof -
  have "(w - isoweekday d) mod 7 = ((d + j - 1) mod 7 - (d - 1) mod 7) mod 7"
    unfolding assms(2) [symmetric] isoweekday_def by simp
  also have "\<dots> = (d + j - 1 - (d - 1)) mod 7" by (simp only: mod_diff_eq)
  also have "\<dots> = j mod 7" by simp
  also have "\<dots> \<le> j" using assms(1) by (simp add: zmod_le_nonneg_dividend)
  finally show ?thesis .
qed

lemma foldl_min_le:
  "foldl min a xs \<le> (a :: int)" "x \<in> set xs \<Longrightarrow> foldl min a xs \<le> x" "foldl min a xs \<in> insert a (set xs)"
proof (induction xs arbitrary: a)
  case (Cons y ys)
  {
    case 1
    show ?case using Cons(1) [of "min a y"] by simp
  next
    case 2
    then show ?case using Cons(1) [of "min a y"] Cons(2) [of "min a y"] by auto
  next
    case 3
    show ?case using Cons(3) [of "min a y"] by (auto simp: min_def split: if_splits)
  }
qed simp_all

lemma days_forward_props:
  assumes "ws \<noteq> []" "\<forall>w \<in> set ws. 1 \<le> w \<and> w \<le> 7"
  shows "0 \<le> days_forward ws date" "days_forward ws date < 7"
    "isoweekday (date + days_forward ws date) \<in> set ws"
    "0 \<le> j \<Longrightarrow> j < days_forward ws date \<Longrightarrow> isoweekday (date + j) \<notin> set ws"
proof -
  let ?f = "\<lambda>w. (w - isoweekday date) mod 7"
  obtain w0 where w0: "w0 \<in> set ws" using assms(1) by (cases ws) auto
  have "days_forward ws date \<le> ?f w0"
    unfolding days_forward_def using w0 by (intro foldl_min_le(2)) simp
  also have "?f w0 < 7" by simp
  finally show lt: "days_forward ws date < 7" .
  have "days_forward ws date \<in> insert 7 (set (map ?f ws))"
    unfolding days_forward_def by (rule foldl_min_le(3))
  then obtain w where w: "w \<in> set ws" "days_forward ws date = ?f w" using lt by auto
  show "0 \<le> days_forward ws date" by (simp add: w(2))
  show "isoweekday (date + days_forward ws date) \<in> set ws"
    using isoweekday_forward [of w date] w assms(2) by simp
  show "isoweekday (date + j) \<notin> set ws" if j: "0 \<le> j" "j < days_forward ws date"
  proof
    assume "isoweekday (date + j) \<in> set ws"
    then have "days_forward ws date \<le> ?f (isoweekday (date + j))"
      unfolding days_forward_def by (intro foldl_min_le(2)) simp
    also have "\<dots> \<le> j" using isoweekday_before [OF j(1) refl] .
    finally show False using j(2) by simp
  qed
qed

lemma weekly_search_Inr:
  assumes "weekly_search zones d after n date = Inr res"
    and "sd_weekdays d \<noteq> []" "\<forall>w \<in> set (sd_weekdays d). 1 \<le> w \<and> w \<le> 7"
  shows "\<exists>day p. date \<le> day \<and> res = Some p \<and> isoweekday day \<in> set (sd_weekdays d) \<and>
     point zones day (sd_local_time d) d = Inr p \<and> after < sp_utc_instant p \<and>
     (\<forall>e. date \<le> e \<longrightarrow> e < day \<longrightarrow> isoweekday e \<in> set (sd_weekdays d) \<longrightarrow>
        (\<exists>q. point zones e (sd_local_time d) d = Inr q \<and> sp_utc_instant q \<le> after))"
  using assms(1)
proof (induction n arbitrary: date)
  case (Suc n)
  let ?f = "days_forward (sort (sd_weekdays d)) date"
  let ?day = "date + ?f"
  have sorted: "sort (sd_weekdays d) \<noteq> []" "\<forall>w \<in> set (sort (sd_weekdays d)). 1 \<le> w \<and> w \<le> 7"
    using assms(2,3) by (simp_all, metis length_0_conv length_sort)
  note f = days_forward_props [OF sorted, where date = date]
  have skipped: "isoweekday e \<notin> set (sd_weekdays d)" if "date \<le> e" "e < ?day" for e
    using f(4) [of "e - date"] that by simp
  obtain p where p: "point zones ?day (sd_local_time d) d = Inr p"
    using Suc.prems by (auto simp: Let_def split: sum.splits)
  show ?case
  proof (cases "after < sp_utc_instant p")
    case True
    then show ?thesis using Suc.prems p f(1,3) skipped
      by (intro exI [of _ ?day] exI [of _ p]) (auto simp: Let_def)
  next
    case False
    then have "weekly_search zones d after n (?day + 1) = Inr res" using Suc.prems p by (simp add: Let_def)
    from Suc.IH [OF this] obtain day q where q: "?day + 1 \<le> day" "res = Some q"
      "isoweekday day \<in> set (sd_weekdays d)" "point zones day (sd_local_time d) d = Inr q" "after < sp_utc_instant q"
      and before: "\<And>e. ?day + 1 \<le> e \<Longrightarrow> e < day \<Longrightarrow> isoweekday e \<in> set (sd_weekdays d) \<Longrightarrow>
        \<exists>q. point zones e (sd_local_time d) d = Inr q \<and> sp_utc_instant q \<le> after" by blast
    have "\<exists>q. point zones e (sd_local_time d) d = Inr q \<and> sp_utc_instant q \<le> after"
      if e: "date \<le> e" "e < day" "isoweekday e \<in> set (sd_weekdays d)" for e
    proof -
      consider "e < ?day" | "e = ?day" | "?day + 1 \<le> e" by linarith
      then show ?thesis
        by cases (use skipped e in blast, use p False in auto, use before e in blast)
    qed
    then show ?thesis using q f(1) by (intro exI [of _ day] exI [of _ q]) auto
  qed
qed simp

lemma daily_search_after: "daily_search zones d after step n date = Inr (Some p) \<Longrightarrow> after < sp_utc_instant p"
  by (induction n arbitrary: date) (auto split: sum.splits if_splits)

lemma weekly_search_after: "weekly_search zones d after n date = Inr (Some p) \<Longrightarrow> after < sp_utc_instant p"
  by (induction n arbitrary: date) (auto simp: Let_def split: sum.splits if_splits)

lemma slot_after: "next_point zones d after prior = Inr (Some p) \<Longrightarrow> after < sp_utc_instant p"
  by (auto simp: next_point_def dest: daily_search_after weekly_search_after
      split: sum.splits option.splits if_splits)

section \<open>Progress\<close>

text \<open>
  What a time zone of the IANA database guarantees: offsets strictly within a day, and no gap of
  more than a day between valid wall times.
\<close>

definition zone_ok :: "time_zone \<Rightarrow> bool" where
  "zone_ok z \<longleftrightarrow> (\<forall>w. - DAY < tz_wall_offset z w \<and> tz_wall_offset z w < DAY) \<and>
     (\<forall>t. - DAY < tz_utc_offset z t \<and> tz_utc_offset z t < DAY) \<and>
     (\<forall>w. \<exists>k \<le> 24 * 60. valid_fold z (w + int k * minutes 1))"

lemma point_total:
  assumes "zones (sd_timezone_name d) = Some z" "zone_ok z" "0 \<le> time"
  shows "\<exists>p. point zones date time d = Inr p \<and> (date - 1) * DAY < sp_utc_instant p"
proof -
  have "\<exists>w. resolve_local z (date * DAY + time) = Inr w"
  proof (cases "valid_fold z (date * DAY + time)")
    case False
    obtain k where k: "k \<le> 24 * 60" "valid_fold z (date * DAY + time + int k * minutes 1)"
      using assms(2) unfolding zone_ok_def by blast
    then have "1 \<le> k" using False by (cases k) auto
    then show ?thesis using search_valid_total [OF k(2) _ k(1)] False by (auto simp: resolve_local_def)
  qed (simp add: resolve_local_def)
  then obtain w where w: "resolve_local z (date * DAY + time) = Inr w" by blast
  have "date * DAY \<le> w" using resolve_local_Inr(2) [OF w] assms(3) by simp
  moreover have "tz_wall_offset z w < DAY" using assms(2) by (simp add: zone_ok_def)
  ultimately show ?thesis
    using w assms(1) by (simp add: point_def find_zone_def to_utc_def algebra_simps)
qed

lemma late_point:
  assumes "zones (sd_timezone_name d) = Some z" "zone_ok z" "0 \<le> time" "after div DAY + 2 \<le> date"
  shows "\<exists>p. point zones date time d = Inr p \<and> after < sp_utc_instant p"
proof -
  obtain p where p: "point zones date time d = Inr p" "(date - 1) * DAY < sp_utc_instant p"
    using point_total [of zones d z _ _, OF assms(1-3)] by blast
  have "after < (after div DAY + 1) * DAY"
    using pos_mod_bound [OF DAY_pos(1), of "after"] div_mult_mod_eq [of "after" DAY]
    unfolding distrib_right by linarith
  also have "\<dots> \<le> (date - 1) * DAY"
    using assms(4) DAY_pos(1) by (intro mult_right_mono) auto
  finally show ?thesis using p by auto
qed

lemma daily_search_total:
  assumes "zones (sd_timezone_name d) = Some z" "zone_ok z" "0 \<le> sd_local_time d" "1 \<le> step"
    and "after div DAY + 2 \<le> date + int k" "k < n"
  shows "\<exists>p. daily_search zones d after step n date = Inr (Some p)"
  using assms(5,6)
proof (induction n arbitrary: date k)
  case (Suc n)
  obtain p where p: "point zones date (sd_local_time d) d = Inr p"
    using point_total [of zones d z _ _, OF assms(1-3)] by blast
  show ?case
  proof (cases "after < sp_utc_instant p")
    case False
    have "k \<noteq> 0"
      using late_point [of zones d z "sd_local_time d" "after" date, OF assms(1-3)] False p Suc.prems(1) by (cases k) auto
    then have "\<exists>p. daily_search zones d after step n (date + step) = Inr (Some p)"
      using Suc.prems assms(4) by (intro Suc.IH [of "date + step" "k - 1"]) auto
    then show ?thesis using p False by simp
  qed (use p in simp)
qed simp

lemma weekly_search_total:
  assumes "zones (sd_timezone_name d) = Some z" "zone_ok z" "0 \<le> sd_local_time d"
    and "sd_weekdays d \<noteq> []" "\<forall>w \<in> set (sd_weekdays d). 1 \<le> w \<and> w \<le> 7"
    and "after div DAY + 2 \<le> date + int k" "k < n"
  shows "\<exists>p. weekly_search zones d after n date = Inr (Some p)"
  using assms(6,7)
proof (induction n arbitrary: date k)
  case (Suc n)
  let ?day = "date + days_forward (sort (sd_weekdays d)) date"
  have sorted: "sort (sd_weekdays d) \<noteq> []" "\<forall>w \<in> set (sort (sd_weekdays d)). 1 \<le> w \<and> w \<le> 7"
    using assms(4,5) by (simp_all, metis length_0_conv length_sort)
  note f = days_forward_props [OF sorted, where date = date]
  obtain p where p: "point zones ?day (sd_local_time d) d = Inr p"
    using point_total [of zones d z _ _, OF assms(1-3)] by blast
  show ?case
  proof (cases "after < sp_utc_instant p")
    case False
    have "k \<noteq> 0"
      using late_point [of zones d z "sd_local_time d" "after" ?day, OF assms(1-3)] False p f(1) Suc.prems(1) by (cases k) auto
    then have "\<exists>p. weekly_search zones d after n (?day + 1) = Inr (Some p)"
      using Suc.prems f(1) by (intro Suc.IH [of "?day + 1" "k - 1"]) auto
    then show ?thesis using p False by (simp add: Let_def)
  qed (use p in \<open>simp add: Let_def\<close>)
qed simp

lemma weekly_start_later:
  assumes "sd_weekdays d \<noteq> []" "\<forall>w \<in> set (sd_weekdays d). 1 \<le> w \<and> w \<le> 7" "1 \<le> sd_interval_count d"
  shows "prior + 1 \<le> weekly_start d prior"
proof (cases "filter (\<lambda>w. w > isoweekday prior) (sort (sd_weekdays d))")
  case (Cons w ws)
  then have "w > isoweekday prior" by (auto simp: filter_eq_Cons_iff)
  with Cons show ?thesis by (simp add: weekly_start_def Let_def)
next
  case Nil
  have "sort (sd_weekdays d) \<noteq> []" using assms(1) by (metis length_0_conv length_sort)
  then have "hd (sort (sd_weekdays d)) \<in> set (sd_weekdays d)" by (metis hd_in_set set_sort)
  then have "1 \<le> hd (sort (sd_weekdays d))" using assms(2) by blast
  with Nil show ?thesis using isoweekday_range(2) [of prior] assms(3) by (simp add: weekly_start_def Let_def)
qed

lemma validate_definition_OK:
  assumes "validate_definition zones d = Inr ()"
  shows "zones (sd_timezone_name d) \<noteq> None" "1 \<le> sd_interval_count d" "sd_interval_count d \<le> 365"
    "sd_kind d \<in> {''one_time'', ''daily'', ''weekly''}"
    "sd_kind d = ''weekly'' \<Longrightarrow> sd_weekdays d \<noteq> [] \<and> (\<forall>w \<in> set (sd_weekdays d). 1 \<le> w \<and> w \<le> 7)"
    "sd_kind d = ''one_time'' \<Longrightarrow> sd_one_time_local_date d \<noteq> None"
  using assms
  by (auto simp: validate_definition_def find_zone_def list_ex_iff not_less split: option.splits if_splits)

lemma from_utc_date:
  assumes "zone_ok z"
  shows "t div DAY - 1 \<le> from_utc z t div DAY"
proof -
  have "- DAY < tz_utc_offset z t" using assms by (simp add: zone_ok_def)
  then have "t - DAY \<le> from_utc z t" by (simp add: from_utc_def)
  then have "(t - DAY) div DAY \<le> from_utc z t div DAY" using DAY_pos(1) by (intro zdiv_mono1) auto
  moreover have "(t - DAY) div DAY = t div DAY - 1" by (simp add: DAY_def days_def)
  ultimately show ?thesis by simp
qed

lemma point_date:
  assumes "point zones date time d = Inr p" "zones (sd_timezone_name d) = Some z" "zone_ok z"
  shows "sp_utc_instant p div DAY \<le> sp_local_date p + 1"
proof -
  obtain w where w: "sp_local_date p = w div DAY" "sp_utc_instant p = w - tz_wall_offset z w"
    using assms(1,2) by (auto simp: point_def find_zone_def to_utc_def split: sum.splits)
  have "- DAY < tz_wall_offset z w" using assms(3) by (simp add: zone_ok_def)
  then have "sp_utc_instant p \<le> w + DAY" by (simp add: w(2))
  then have "sp_utc_instant p div DAY \<le> (w + DAY) div DAY" using DAY_pos(1) by (intro zdiv_mono1) auto
  also have "(w + DAY) div DAY = w div DAY + 1" by (simp add: DAY_def days_def)
  finally show ?thesis using w(1) by simp
qed

section \<open>Properties\<close>

text \<open>The witnesses use a zone that is always two hours ahead of UTC but skips the wall times from
  02:00 to 03:00 of day 700000 (one hour ahead before that).\<close>

definition example_zone :: time_zone where
  "example_zone = \<lparr>
     tz_utc_offset = (\<lambda>t. if t < 700000 * DAY + hours 1 then hours 1 else hours 2),
     tz_wall_offset = (\<lambda>w. if w < 700000 * DAY + hours 3 then hours 1 else hours 2) \<rparr>"

definition example_zones :: "string \<Rightarrow> time_zone option" where
  "example_zones name = (if name = ''Test/Zone'' then Some example_zone else None)"

definition example_daily :: schedule_definition where
  "example_daily = \<lparr> sd_kind = ''daily'', sd_timezone_name = ''Test/Zone'', sd_local_time = hours 2 + minutes 30,
     sd_time_has_zone = False, sd_one_time_local_date = None, sd_weekdays = [], sd_interval_count = 1 \<rparr>"

definition example_slot :: schedule_point where
  "example_slot = \<lparr> sp_local_date = 700000, sp_local_time = hours 3, sp_timezone_name = ''Test/Zone'',
     sp_utc_offset_minutes = 120, sp_utc_instant = 700000 * DAY + hours 1 \<rparr>"

lemma example_numbers:
  "DAY = 86400000000" "hours n = n * 3600000000" "minutes n = n * 60000000"
  by (simp_all add: DAY_def days_def hours_def minutes_def)

lemma example_zone_valid:
  "valid_fold example_zone w \<longleftrightarrow> \<not> (700000 * DAY + hours 2 \<le> w \<and> w < 700000 * DAY + hours 3)"
  by (auto simp: valid_fold_def from_utc_def to_utc_def example_zone_def example_numbers)

lemma example_zone_ok: "zone_ok example_zone"
  unfolding zone_ok_def
proof (intro conjI allI)
  fix w :: int
  show "\<exists>k \<le> 24 * 60. valid_fold example_zone (w + int k * minutes 1)"
  proof (cases "valid_fold example_zone w")
    case True
    then show ?thesis by (intro exI [of _ 0]) simp
  next
    case False
    then show ?thesis
      by (intro exI [of _ 60]) (auto simp: example_zone_valid example_numbers)
  qed
qed (simp_all add: example_zone_def example_numbers)

lemma example_point:
  "point example_zones 700000 (hours 2 + minutes 30) example_daily = Inr example_slot"
proof -
  let ?local = "700000 * DAY + (hours 2 + minutes 30)"
  have "search_valid example_zone (24 * 60) ?local = Some (700000 * DAY + hours 3)"
  proof -
    obtain w where w: "search_valid example_zone (24 * 60) ?local = Some w"
      using search_valid_total [of example_zone ?local 30 "24 * 60"]
      by (auto simp: example_zone_valid example_numbers)
    from search_valid_Some [OF w] obtain k where k: "valid_fold example_zone w" "1 \<le> k"
      "w = ?local + int k * minutes 1"
      "\<forall>j. 1 \<le> j \<longrightarrow> j < k \<longrightarrow> \<not> valid_fold example_zone (?local + int j * minutes 1)" by blast
    have "30 \<le> k" using k(1,3) by (simp add: example_zone_valid example_numbers)
    moreover have "\<not> 30 < k" using k(4) by (auto simp: example_zone_valid example_numbers dest: spec [of _ 30])
    ultimately have "k = 30" by simp
    then show ?thesis using w k(3) by (simp add: example_numbers)
  qed
  then show ?thesis
    by (simp add: point_def find_zone_def example_zones_def example_daily_def resolve_local_def
        example_zone_valid example_slot_def to_utc_def)
      (simp add: example_numbers example_zone_def)
qed

lemma example_next: "next_point example_zones example_daily (700000 * DAY) None = Inr (Some example_slot)"
proof -
  have "validate_definition example_zones example_daily = Inr ()"
    by (simp add: validate_definition_def find_zone_def example_zones_def example_daily_def example_numbers)
  moreover have "from_utc example_zone (700000 * DAY) div DAY = 700000"
    by (simp add: from_utc_def example_zone_def example_numbers)
  moreover have "daily_search example_zones example_daily (700000 * DAY) 1 (Suc 366) 700000 = Inr (Some example_slot)"
  proof -
    have time: "sd_local_time example_daily = hours 2 + minutes 30" by (simp add: example_daily_def)
    have "700000 * DAY < sp_utc_instant example_slot" by (simp add: example_slot_def example_numbers)
    then show ?thesis unfolding daily_search.simps time example_point by simp
  qed
  ultimately show ?thesis
    by (simp add: next_point_def find_zone_def example_zones_def)
      (simp add: example_daily_def example_zones_def)
qed

text \<open>A slot is a real local time: the wall time of the point exists in the zone (converting its
  instant back gives the same wall time), and it is the scheduled wall time itself if that
  exists, and otherwise the first existing wall time, minute by minute, after the gap.\<close>

theorem point_is_first_valid_time:
  assumes "point zones date time d = Inr p"
  shows "\<exists>z k. zones (sd_timezone_name d) = Some z \<and>
    sp_local_date p * DAY + sp_local_time p = date * DAY + time + int k * minutes 1 \<and>
    (\<forall>j < k. \<not> valid_fold z (date * DAY + time + int j * minutes 1)) \<and>
    from_utc z (sp_utc_instant p) = sp_local_date p * DAY + sp_local_time p \<and>
    0 \<le> sp_local_time p \<and> sp_local_time p < DAY"
proof -
  obtain z where z: "zones (sd_timezone_name d) = Some z"
    using assms by (auto simp: point_def find_zone_def split: option.splits)
  obtain w where w: "resolve_local z (date * DAY + time) = Inr w"
    and p: "sp_local_date p = w div DAY" "sp_local_time p = w mod DAY" "sp_utc_instant p = to_utc z w"
    using assms z by (auto simp: point_def find_zone_def split: sum.splits)
  have "sp_local_date p * DAY + sp_local_time p = w" by (simp add: p)
  then show ?thesis
    using resolve_local_Inr(1,4) [OF w] z p DAY_pos(1) by (auto simp: valid_fold_def)
qed

theorem point_is_first_valid_time_witness:
  "\<exists>z. example_zones ''Test/Zone'' = Some z \<and>
     from_utc z (sp_utc_instant example_slot) = sp_local_date example_slot * DAY + sp_local_time example_slot"
proof -
  have "sd_timezone_name example_daily = ''Test/Zone''" by (simp add: example_daily_def)
  then show ?thesis using point_is_first_valid_time [OF example_point] by auto
qed

text \<open>The first candidate date of the search for the next slot and the distance between candidates.\<close>

definition first_candidate :: "time_zone \<Rightarrow> schedule_definition \<Rightarrow> instant \<Rightarrow> schedule_point option \<Rightarrow> ordinal" where
  "first_candidate z d after prior =
    (case prior of
       None \<Rightarrow> from_utc z after div DAY
     | Some p \<Rightarrow> if sd_kind d = ''daily'' then sp_local_date p + sd_interval_count d
               else weekly_start d (sp_local_date p))"

definition stride :: "schedule_definition \<Rightarrow> schedule_point option \<Rightarrow> int" where
  "stride d prior = (case prior of None \<Rightarrow> 1 | Some _ \<Rightarrow> sd_interval_count d)"

text \<open>C5: The next slot is strictly after the reference instant and is the first one: it is the
  point of a date of the schedule (the one date; the first candidate plus a multiple of the
  interval; a chosen weekday), and the point of every earlier candidate date is not after the
  reference.\<close>

theorem next_point_is_first_slot:
  assumes "next_point zones d after prior = Inr (Some p)"
  shows "after < sp_utc_instant p \<and>
    (\<exists>z day. zones (sd_timezone_name d) = Some z \<and> point zones day (sd_local_time d) d = Inr p \<and>
      (sd_kind d = ''one_time'' \<and> sd_one_time_local_date d = Some day \<or>
       sd_kind d = ''daily'' \<and> (\<exists>k. day = first_candidate z d after prior + int k * stride d prior \<and>
         (\<forall>j < k. \<exists>q. point zones (first_candidate z d after prior + int j * stride d prior)
            (sd_local_time d) d = Inr q \<and> sp_utc_instant q \<le> after)) \<or>
       sd_kind d = ''weekly'' \<and> isoweekday day \<in> set (sd_weekdays d) \<and> first_candidate z d after prior \<le> day \<and>
         (\<forall>e. first_candidate z d after prior \<le> e \<longrightarrow> e < day \<longrightarrow> isoweekday e \<in> set (sd_weekdays d) \<longrightarrow>
            (\<exists>q. point zones e (sd_local_time d) d = Inr q \<and> sp_utc_instant q \<le> after))))"
proof -
  have valid: "validate_definition zones d = Inr ()"
    using assms by (auto simp: next_point_def split: sum.splits)
  note def = validate_definition_OK [OF valid]
  from def(1) obtain z where z: "zones (sd_timezone_name d) = Some z" by auto
  consider "sd_kind d = ''one_time''" | "sd_kind d = ''daily''" | "sd_kind d = ''weekly''"
    using def(4) by auto
  then show ?thesis
  proof cases
    case 1
    then show ?thesis using assms valid z def(6)
      by (auto simp: next_point_def split: sum.splits if_splits)
  next
    case 2
    have "daily_search zones d after (stride d prior) 367 (first_candidate z d after prior) = Inr (Some p)"
      using assms valid z 2 by (cases prior)
        (simp_all add: next_point_def find_zone_def stride_def first_candidate_def)
    from daily_search_Inr [OF this] show ?thesis using z 2 by blast
  next
    case 3
    have "weekly_search zones d after 370 (first_candidate z d after prior) = Inr (Some p)"
      using assms valid z 3 by (cases prior)
        (simp_all add: next_point_def find_zone_def first_candidate_def)
    from weekly_search_Inr [OF this] show ?thesis using z 3 def(5) by auto
  qed
qed

theorem next_point_is_first_slot_witness:
  "700000 * DAY < sp_utc_instant example_slot"
  using next_point_is_first_slot [OF example_next] by blast

text \<open>C6: A recurring schedule always has a next slot: for a valid daily or weekly definition in a
  zone whose offsets are below a day and whose gaps are bounded, the calculation returns a slot
  (it neither fails to progress nor runs out of its 367 or 370 candidates), from any instant
  without a prior slot and from any slot of its own.\<close>

theorem recurring_schedule_progresses:
  assumes "validate_definition zones d = Inr ()" and "sd_kind d \<noteq> ''one_time''"
    and "zones (sd_timezone_name d) = Some z" and "zone_ok z" and "0 \<le> sd_local_time d"
    and "prior = None \<or> (\<exists>p day. prior = Some p \<and> point zones day (sd_local_time d) d = Inr p \<and>
           after = sp_utc_instant p)"
  shows "\<exists>q. next_point zones d after prior = Inr (Some q)"
proof -
  note def = validate_definition_OK [OF assms(1)]
  have weekly: "sd_weekdays d \<noteq> []" "\<forall>w \<in> set (sd_weekdays d). 1 \<le> w \<and> w \<le> 7"
    if "sd_kind d \<noteq> ''daily''" using that def(4,5) assms(2) by auto
  have start: "after div DAY - 1 \<le> first_candidate z d after prior"
  proof (cases prior)
    case None
    then show ?thesis using from_utc_date [OF assms(4)] by (simp add: first_candidate_def)
  next
    case (Some p)
    with assms(6) obtain day where p: "point zones day (sd_local_time d) d = Inr p" "after = sp_utc_instant p"
      by auto
    have "after div DAY \<le> sp_local_date p + 1" using point_date [OF p(1) assms(3,4)] p(2) by simp
    moreover have "sp_local_date p + 1 \<le> first_candidate z d after prior"
      using Some def(2) weekly_start_later [OF weekly def(2)] by (simp add: first_candidate_def)
    ultimately show ?thesis by simp
  qed
  show ?thesis
  proof (cases "sd_kind d = ''daily''")
    case True
    have "\<exists>q. daily_search zones d after (stride d prior) 367 (first_candidate z d after prior) = Inr (Some q)"
      using start def(2) by (intro daily_search_total [where z = z and k = 3] assms(3,4,5))
        (auto simp: stride_def split: option.splits)
    then show ?thesis using assms(1,3) True
      by (cases prior) (auto simp: next_point_def find_zone_def stride_def first_candidate_def)
  next
    case False
    have "\<exists>q. weekly_search zones d after 370 (first_candidate z d after prior) = Inr (Some q)"
      using start by (intro weekly_search_total [where z = z and k = 3] assms(3,4,5) weekly [OF False]) auto
    then show ?thesis using assms(1-3) False
      by (cases prior) (auto simp: next_point_def find_zone_def first_candidate_def)
  qed
qed

theorem recurring_schedule_progresses_witness:
  "\<exists>q. next_point example_zones example_daily 0 None = Inr (Some q)"
  by (rule recurring_schedule_progresses [where z = example_zone])
    (simp_all add: example_zone_ok, simp_all add: validate_definition_def find_zone_def example_zones_def
      example_daily_def example_numbers)

lemma preview_loop_Inr:
  "preview_loop zones d n prior cursor = Inr ps \<Longrightarrow>
     length ps \<le> n \<and> sorted_wrt (<) (cursor # map sp_utc_instant ps)"
proof (induction n arbitrary: prior cursor ps)
  case (Suc n)
  then obtain res where res: "next_point zones d cursor prior = Inr res" by (auto split: sum.splits)
  show ?case
  proof (cases res)
    case None
    then show ?thesis using Suc.prems res by simp
  next
    case (Some p)
    then obtain qs where qs: "preview_loop zones d n (Some p) (sp_utc_instant p) = Inr qs" "ps = p # qs"
      "cursor < sp_utc_instant p"
      using Suc.prems res by (auto split: if_splits sum.splits)
    show ?thesis using Suc.IH [OF qs(1)] qs(2,3) by auto
  qed
qed simp

text \<open>A preview is a strictly increasing sequence of instants after the reference, of at most the
  requested length, which is at most ten.\<close>

theorem preview_increases:
  assumes "preview_schedule zones d after count = Inr ps"
  shows "int (length ps) \<le> count \<and> count \<le> 10 \<and> sorted_wrt (<) (after # map sp_utc_instant ps)"
proof -
  have "1 \<le> count" "count \<le> 10" and loop: "preview_loop zones d (nat count) None after = Inr ps"
    using assms by (auto simp: preview_schedule_def split: if_splits)
  then show ?thesis using preview_loop_Inr [OF loop] by auto
qed

theorem preview_increases_witness:
  "700000 * DAY < sp_utc_instant example_slot"
proof -
  have "preview_schedule example_zones example_daily (700000 * DAY) 1 = Inr [example_slot]"
    using example_next by (simp add: preview_schedule_def numeral_eq_Suc example_slot_def example_numbers)
  from preview_increases [OF this] show ?thesis by simp
qed

end
