(* ===== verification/Automation_Model.thy ===== *)
theory Automation_Model
  imports Run_Approvals Schedule_Calc
begin

text \<open>
  The durable data of Automations (\<open>app/models/automation.py\<close>) and the persistence primitives of
  \<open>app/repositories/automations.py\<close>, over the session state of the Agent runtime extended by three
  tables. \<open>FOR UPDATE SKIP LOCKED\<close> is visible: \<open>busy\<close> says which rows another transaction holds.
\<close>

section \<open>Rows\<close>

datatype lifecycle_state = LC_DRAFT | LC_ENABLED | LC_PAUSED | LC_CANCELLED

datatype occurrence_state =
    OC_DUE | OC_CLAIMED | OC_RUN_CREATED | OC_COMPLETED | OC_MISSED | OC_FAILED | OC_CANCELLED

record automation =
  au_id :: uuid
  au_label :: string
  au_automation_kind :: string
  au_agent_kind :: string
  au_agent_version :: string
  au_project_id :: "uuid option"
  au_lifecycle :: lifecycle_state
  au_revision :: int
  au_execution_mode :: string
  au_schedule_kind :: string
  au_timezone_name :: string
  au_local_time :: int
  au_one_time_local_date :: "ordinal option"
  au_weekdays :: "int list"
  au_interval_count :: int
  au_missed_run_policy :: string
  au_retry_limit :: int
  au_capacity_limit :: int
  au_schedule_revision :: int
  au_next_occurrence_at :: "instant option"
  au_created_at :: instant
  au_cancelled_at :: "instant option"

record occurrence =
  oc_id :: uuid
  oc_automation_id :: uuid
  oc_schedule_revision :: int
  oc_scheduled_at :: instant
  oc_scheduled_local_date :: ordinal
  oc_scheduled_local_time :: int
  oc_scheduled_utc_offset_minutes :: int
  oc_timezone_name :: string
  oc_occurrence_key :: string
  oc_state :: occurrence_state
  oc_revision :: int
  oc_agent_run_id :: "uuid option"
  oc_safe_disposition_code :: "string option"
  oc_safe_error_code :: "string option"
  oc_attempt_count :: int
  oc_retry_not_before :: "instant option"
  oc_created_at :: instant
  oc_claimed_at :: "instant option"
  oc_completed_at :: "instant option"
  oc_lease_owner_token :: "uuid option"
  oc_lease_generation :: int
  oc_lease_expires_at :: "instant option"
  oc_last_renewed_at :: "instant option"
  oc_automation_revision :: int
  oc_automation_kind :: string
  oc_automation_label :: string
  oc_agent_kind :: string
  oc_agent_version :: string
  oc_execution_mode :: string
  oc_project_id :: "uuid option"

record notification =
  no_id :: uuid
  no_automation_id :: uuid
  no_occurrence_id :: "uuid option"
  no_agent_run_id :: "uuid option"
  no_event_kind :: string
  no_severity :: string
  no_title :: string
  no_body :: string
  no_read_at :: "instant option"
  no_created_at :: instant
  no_deduplication_key :: string

section \<open>Column constraints\<close>

definition terminal_occurrence :: "occurrence_state \<Rightarrow> bool" where
  "terminal_occurrence st \<longleftrightarrow> st \<in> {OC_COMPLETED, OC_MISSED, OC_FAILED, OC_CANCELLED}"

definition automation_checks :: "automation \<Rightarrow> bool" where
  "automation_checks a \<longleftrightarrow>
     au_automation_kind a = ''scheduled_agent'' \<and>
     au_agent_kind a \<in> {''daily_brief'', ''project_watch''} \<and> au_agent_version a = ''1'' \<and>
     au_execution_mode a \<in> {''create_only'', ''automatic_read_only''} \<and>
     au_schedule_kind a \<in> {''one_time'', ''daily'', ''weekly''} \<and>
     au_missed_run_policy a \<in> {''skip'', ''run_once''} \<and>
     0 \<le> au_revision a \<and> 0 \<le> au_schedule_revision a \<and>
     0 \<le> au_retry_limit a \<and> au_retry_limit a \<le> 3 \<and>
     1 \<le> au_capacity_limit a \<and> au_capacity_limit a \<le> 32 \<and>
     1 \<le> au_interval_count a \<and> au_interval_count a \<le> 365 \<and>
     au_timezone_name a \<noteq> [] \<and> length (au_timezone_name a) \<le> 255 \<and>
     au_label a \<noteq> [] \<and> length (au_label a) \<le> 200 \<and>
     length (au_weekdays a) \<le> 7 \<and> list_all (\<lambda>w. 1 \<le> w \<and> w \<le> 7) (au_weekdays a) \<and>
     (au_schedule_kind a = ''one_time'') = (au_one_time_local_date a \<noteq> None) \<and>
     (au_schedule_kind a = ''weekly'') = (au_weekdays a \<noteq> []) \<and>
     (au_lifecycle a = LC_CANCELLED) = (au_cancelled_at a \<noteq> None)"

definition occurrence_checks :: "occurrence \<Rightarrow> bool" where
  "occurrence_checks oc \<longleftrightarrow>
     0 \<le> oc_schedule_revision oc \<and> 0 \<le> oc_automation_revision oc \<and> 0 \<le> oc_revision oc \<and>
     0 \<le> oc_attempt_count oc \<and> 0 \<le> oc_lease_generation oc \<and>
     oc_automation_kind oc = ''scheduled_agent'' \<and>
     oc_agent_kind oc \<in> {''daily_brief'', ''project_watch''} \<and> oc_agent_version oc = ''1'' \<and>
     oc_execution_mode oc \<in> {''create_only'', ''automatic_read_only''} \<and>
     - 840 \<le> oc_scheduled_utc_offset_minutes oc \<and> oc_scheduled_utc_offset_minutes oc \<le> 840 \<and>
     (oc_lease_owner_token oc = None) = (oc_lease_expires_at oc = None) \<and>
     (oc_last_renewed_at oc = None \<or> oc_lease_owner_token oc \<noteq> None) \<and>
     (case oc_claimed_at oc of None \<Rightarrow> True | Some t \<Rightarrow> oc_created_at oc \<le> t) \<and>
     (case oc_completed_at oc of None \<Rightarrow> True | Some t \<Rightarrow> oc_created_at oc \<le> t) \<and>
     terminal_occurrence (oc_state oc) = (oc_completed_at oc \<noteq> None)"

section \<open>Session state\<close>

record automation_db = agent_db +
  db_automations :: "automation list"
  db_occurrences :: "occurrence list"
  db_notifications :: "notification list"

definition get_automation :: "'a automation_db_scheme \<Rightarrow> uuid \<Rightarrow> automation option" where
  "get_automation s i = row_get au_id (db_automations s) i"

definition upd_automation ::
  "uuid \<Rightarrow> (automation \<Rightarrow> automation) \<Rightarrow> 'a automation_db_scheme \<Rightarrow> 'a automation_db_scheme" where
  "upd_automation i f s = s\<lparr>db_automations := row_upd au_id i f (db_automations s)\<rparr>"

definition add_automation :: "automation \<Rightarrow> 'a automation_db_scheme \<Rightarrow> 'a automation_db_scheme" where
  "add_automation a s = s\<lparr>db_automations := db_automations s @ [a]\<rparr>"

definition lock_occurrence :: "'a automation_db_scheme \<Rightarrow> uuid \<Rightarrow> occurrence option" where
  "lock_occurrence s i = row_get oc_id (db_occurrences s) i"

definition upd_occurrence ::
  "uuid \<Rightarrow> (occurrence \<Rightarrow> occurrence) \<Rightarrow> 'a automation_db_scheme \<Rightarrow> 'a automation_db_scheme" where
  "upd_occurrence i f s = s\<lparr>db_occurrences := row_upd oc_id i f (db_occurrences s)\<rparr>"

definition add_occurrence :: "occurrence \<Rightarrow> 'a automation_db_scheme \<Rightarrow> 'a automation_db_scheme" where
  "add_occurrence oc s = s\<lparr>db_occurrences := db_occurrences s @ [oc]\<rparr>"

definition lock_notification :: "'a automation_db_scheme \<Rightarrow> uuid \<Rightarrow> notification option" where
  "lock_notification s i = row_get no_id (db_notifications s) i"

definition upd_notification ::
  "uuid \<Rightarrow> (notification \<Rightarrow> notification) \<Rightarrow> 'a automation_db_scheme \<Rightarrow> 'a automation_db_scheme" where
  "upd_notification i f s = s\<lparr>db_notifications := row_upd no_id i f (db_notifications s)\<rparr>"

definition add_notification :: "notification \<Rightarrow> 'a automation_db_scheme \<Rightarrow> 'a automation_db_scheme" where
  "add_notification n s = s\<lparr>db_notifications := db_notifications s @ [n]\<rparr>"

lemmas automation_table_defs = get_automation_def upd_automation_def add_automation_def
lemmas occurrence_table_defs = lock_occurrence_def upd_occurrence_def add_occurrence_def
lemmas notification_table_defs = lock_notification_def upd_notification_def add_notification_def

interpretation automations: table get_automation upd_automation add_automation au_id
  by unfold_locales (auto simp: automation_table_defs row_get_key row_get_upd row_get_append row_get_Cons
    split: option.splits)

interpretation occurrences: table lock_occurrence upd_occurrence add_occurrence oc_id
  by unfold_locales (auto simp: occurrence_table_defs row_get_key row_get_upd row_get_append row_get_Cons
    split: option.splits)

interpretation notifications: table lock_notification upd_notification add_notification no_id
  by unfold_locales (auto simp: notification_table_defs row_get_key row_get_upd row_get_append
    row_get_Cons split: option.splits)

section \<open>Queries\<close>

text \<open>
  An Automation with a nonterminal occurrence other than the one of its current slot is not
  materialized again.
\<close>

definition blocked_by :: "automation \<Rightarrow> occurrence \<Rightarrow> bool" where
  "blocked_by a oc \<longleftrightarrow> oc_automation_id oc = au_id a \<and>
     oc_state oc \<in> {OC_DUE, OC_CLAIMED, OC_RUN_CREATED} \<and>
     \<not> (oc_schedule_revision oc = au_schedule_revision a \<and>
        Some (oc_scheduled_at oc) = au_next_occurrence_at a)"

definition is_due :: "'a automation_db_scheme \<Rightarrow> instant \<Rightarrow> automation \<Rightarrow> bool" where
  "is_due s t a \<longleftrightarrow> au_lifecycle a = LC_ENABLED \<and>
     (case au_next_occurrence_at a of None \<Rightarrow> False | Some u \<Rightarrow> u \<le> t) \<and>
     \<not> list_ex (blocked_by a) (db_occurrences s)"

definition lock_due_automations ::
  "'a automation_db_scheme \<Rightarrow> (uuid \<Rightarrow> bool) \<Rightarrow> instant \<Rightarrow> nat \<Rightarrow> automation list" where
  "lock_due_automations s busy t limit =
     take limit (filter (\<lambda>a. \<not> busy (au_id a))
       (sort_key (\<lambda>a. (the (au_next_occurrence_at a), au_id a)) (filter (is_due s t) (db_automations s))))"

definition list_automations :: "'a automation_db_scheme \<Rightarrow> nat \<Rightarrow> nat \<Rightarrow> automation list" where
  "list_automations s limit offset =
     take limit (drop offset (rev (sort_key (\<lambda>a. (au_created_at a, au_id a)) (db_automations s))))"

definition get_automation_occurrence ::
  "'a automation_db_scheme \<Rightarrow> uuid \<Rightarrow> uuid \<Rightarrow> occurrence option" where
  "get_automation_occurrence s aid i =
     find (\<lambda>oc. oc_id oc = i \<and> oc_automation_id oc = aid) (db_occurrences s)"

definition get_occurrence_by_slot ::
  "'a automation_db_scheme \<Rightarrow> uuid \<Rightarrow> int \<Rightarrow> instant \<Rightarrow> occurrence option" where
  "get_occurrence_by_slot s aid schedule_revision scheduled =
     find (\<lambda>oc. oc_automation_id oc = aid \<and> oc_schedule_revision oc = schedule_revision \<and>
       oc_scheduled_at oc = scheduled) (db_occurrences s)"

definition claimable :: "'a automation_db_scheme \<Rightarrow> instant \<Rightarrow> occurrence \<Rightarrow> bool" where
  "claimable s t oc \<longleftrightarrow>
     oc_state oc = OC_DUE \<and> oc_scheduled_at oc \<le> t \<and>
     (case oc_retry_not_before oc of None \<Rightarrow> True | Some u \<Rightarrow> u \<le> t) \<and>
     (oc_execution_mode oc = ''create_only'' \<or>
      oc_execution_mode oc = ''automatic_read_only'' \<and>
      (oc_agent_kind oc, oc_agent_version oc) \<in> set IMPLEMENTED_AUTOMATION_AGENT_IDENTITIES) \<and>
     (case get_automation s (oc_automation_id oc) of
        None \<Rightarrow> False
      | Some a \<Rightarrow> au_lifecycle a = LC_ENABLED \<and> au_revision a = oc_automation_revision oc \<and>
                 au_schedule_revision a = oc_schedule_revision oc)"

definition lock_claimable_occurrences ::
  "'a automation_db_scheme \<Rightarrow> (uuid \<Rightarrow> bool) \<Rightarrow> instant \<Rightarrow> nat \<Rightarrow> occurrence list" where
  "lock_claimable_occurrences s busy t limit =
     take limit (filter (\<lambda>oc. \<not> busy (oc_id oc) \<and> \<not> busy (oc_automation_id oc))
       (sort_key (\<lambda>oc. (oc_scheduled_at oc, oc_id oc)) (filter (claimable s t) (db_occurrences s))))"

definition lock_expired_claims ::
  "'a automation_db_scheme \<Rightarrow> (uuid \<Rightarrow> bool) \<Rightarrow> instant \<Rightarrow> nat \<Rightarrow> occurrence list" where
  "lock_expired_claims s busy t limit =
     take limit (filter (\<lambda>oc. \<not> busy (oc_id oc))
       (sort_key (\<lambda>oc. (the (oc_lease_expires_at oc), oc_id oc))
         (filter (\<lambda>oc. oc_state oc = OC_CLAIMED \<and>
            (case oc_lease_expires_at oc of None \<Rightarrow> False | Some u \<Rightarrow> u \<le> t)) (db_occurrences s))))"

definition lock_linked_occurrences ::
  "'a automation_db_scheme \<Rightarrow> (uuid \<Rightarrow> bool) \<Rightarrow> nat \<Rightarrow> occurrence list" where
  "lock_linked_occurrences s busy limit =
     take limit (filter (\<lambda>oc. \<not> busy (oc_id oc))
       (sort_key (\<lambda>oc. (oc_scheduled_at oc, oc_id oc))
         (filter (\<lambda>oc. oc_agent_run_id oc \<noteq> None \<and> oc_state oc \<in> {OC_CLAIMED, OC_RUN_CREATED})
           (db_occurrences s))))"

definition count_occurrences_in_states ::
  "'a automation_db_scheme \<Rightarrow> occurrence_state list \<Rightarrow> nat" where
  "count_occurrences_in_states s states =
     length (filter (\<lambda>oc. oc_state oc \<in> set states) (db_occurrences s))"

definition list_automation_occurrences ::
  "'a automation_db_scheme \<Rightarrow> uuid \<Rightarrow> nat \<Rightarrow> nat \<Rightarrow> exn + occurrence list" where
  "list_automation_occurrences s aid limit offset =
    (if get_automation s aid = None then Inl AutomationOwnershipError
     else Inr (take limit (drop offset (rev (sort_key (\<lambda>oc. (oc_scheduled_at oc, oc_id oc))
       (filter (\<lambda>oc. oc_automation_id oc = aid) (db_occurrences s)))))))"

definition list_automation_notifications ::
  "'a automation_db_scheme \<Rightarrow> uuid \<Rightarrow> nat \<Rightarrow> nat \<Rightarrow> exn + notification list" where
  "list_automation_notifications s aid limit offset =
    (if get_automation s aid = None then Inl AutomationOwnershipError
     else Inr (take limit (drop offset (rev (sort_key (\<lambda>n. (no_created_at n, no_id n))
       (filter (\<lambda>n. no_automation_id n = aid) (db_notifications s)))))))"

definition list_notifications ::
  "'a automation_db_scheme \<Rightarrow> nat \<Rightarrow> nat \<Rightarrow> bool \<Rightarrow> uuid option \<Rightarrow> notification list" where
  "list_notifications s limit offset unread_only aid =
     take limit (drop offset (rev (sort_key (\<lambda>n. (no_created_at n, no_id n))
       (filter (\<lambda>n. (unread_only \<longrightarrow> no_read_at n = None) \<and>
          (case aid of None \<Rightarrow> True | Some i \<Rightarrow> no_automation_id n = i)) (db_notifications s)))))"

section \<open>Inserts\<close>

definition insert_automation ::
  "automation \<Rightarrow> 'a automation_db_scheme \<Rightarrow> ('a automation_db_scheme, automation) outcome" where
  "insert_automation a s =
    (if \<not> automation_checks a then (Inl IntegrityError, s)
     else let (i, s1) = uuid4 s; a' = a\<lparr>au_id := i\<rparr> in (Inr a', add_automation a' s1))"

text \<open>The UNIQUE constraints: the slot, the occurrence key and the linked Run.\<close>

definition occurrence_conflict :: "occurrence \<Rightarrow> occurrence \<Rightarrow> bool" where
  "occurrence_conflict x y \<longleftrightarrow>
     oc_automation_id x = oc_automation_id y \<and> oc_schedule_revision x = oc_schedule_revision y \<and>
       oc_scheduled_at x = oc_scheduled_at y \<or>
     oc_occurrence_key x = oc_occurrence_key y \<or>
     oc_agent_run_id x \<noteq> None \<and> oc_agent_run_id x = oc_agent_run_id y"

definition insert_automation_occurrence ::
  "occurrence \<Rightarrow> 'a automation_db_scheme \<Rightarrow> ('a automation_db_scheme, occurrence) outcome" where
  "insert_automation_occurrence oc s =
    (if get_automation s (oc_automation_id oc) = None then (Inl AutomationOwnershipError, s)
     else if list_ex (occurrence_conflict oc) (db_occurrences s) \<or> \<not> occurrence_checks oc
       then (Inl IntegrityError, s)
     else let (i, s1) = uuid4 s; oc' = oc\<lparr>oc_id := i\<rparr> in (Inr oc', add_occurrence oc' s1))"

definition insert_automation_notification ::
  "notification \<Rightarrow> 'a automation_db_scheme \<Rightarrow> ('a automation_db_scheme, notification) outcome" where
  "insert_automation_notification n s =
    (if get_automation s (no_automation_id n) = None then (Inl AutomationOwnershipError, s)
     else if (case no_occurrence_id n of
                None \<Rightarrow> False | Some i \<Rightarrow> get_automation_occurrence s (no_automation_id n) i = None)
       then (Inl AutomationOwnershipError, s)
     else if list_ex (\<lambda>x. no_deduplication_key x = no_deduplication_key n) (db_notifications s)
       then (Inl IntegrityError, s)
     else let (i, s1) = uuid4 s; n' = n\<lparr>no_id := i\<rparr> in (Inr n', add_notification n' s1))"

end
