(* ===== verification/Automation_Service.thy ===== *)
theory Automation_Service
  imports Automation_Model
begin

text \<open>
  The lifecycle of an Automation (\<open>app/automations/service.py\<close>, requests of
  \<open>app/schemas/automation.py\<close>): creation, edits, execution mode, enable, pause, resume, cancel. Each
  call is fenced by the expected revision. The flush at its end raises IntegrityError when a CHECK
  or NOT NULL constraint of the row fails. \<open>t\<close> is the captured instant.
\<close>

section \<open>Requests\<close>

record automation_schedule =
  as_kind :: string
  as_timezone_name :: string
  as_local_time :: int
  as_one_time_local_date :: "ordinal option"
  as_weekdays :: "int list"
  as_interval_count :: int

record automation_create =
  cq_label :: string
  cq_agent_kind :: string
  cq_agent_version :: string
  cq_project_id :: "uuid option"
  cq_execution_mode :: string
  cq_schedule :: automation_schedule
  cq_missed_run_policy :: string
  cq_retry_limit :: int
  cq_capacity_limit :: int

text \<open>\<open>uq_fields\<close> is \<open>model_fields_set\<close> without \<open>expected_revision\<close>.\<close>

record automation_update =
  uq_expected_revision :: int
  uq_fields :: "string list"
  uq_label :: "string option"
  uq_project_id :: "uuid option"
  uq_execution_mode :: "string option"
  uq_schedule :: "automation_schedule option"
  uq_missed_run_policy :: "string option"
  uq_retry_limit :: "int option"
  uq_capacity_limit :: "int option"

text \<open>\<open>AutomationCreate.one_time_missed_default\<close>\<close>

definition one_time_missed_default :: "bool \<Rightarrow> automation_create \<Rightarrow> automation_create" where
  "one_time_missed_default policy_set rq =
    (if \<not> policy_set \<and> as_kind (cq_schedule rq) = ''one_time''
     then rq\<lparr>cq_missed_run_policy := ''run_once''\<rparr> else rq)"

definition request_definition :: "automation_schedule \<Rightarrow> schedule_definition" where
  "request_definition sch =
     \<lparr> sd_kind = as_kind sch, sd_timezone_name = as_timezone_name sch, sd_local_time = as_local_time sch,
       sd_time_has_zone = False, sd_one_time_local_date = as_one_time_local_date sch,
       sd_weekdays = as_weekdays sch, sd_interval_count = as_interval_count sch \<rparr>"

definition automation_definition :: "automation \<Rightarrow> schedule_definition" where
  "automation_definition a =
     \<lparr> sd_kind = au_schedule_kind a, sd_timezone_name = au_timezone_name a, sd_local_time = au_local_time a,
       sd_time_has_zone = False, sd_one_time_local_date = au_one_time_local_date a,
       sd_weekdays = au_weekdays a, sd_interval_count = au_interval_count a \<rparr>"

section \<open>Checks\<close>

definition validate_scope_and_catalog ::
  "'a automation_db_scheme \<Rightarrow> string \<Rightarrow> string \<Rightarrow> uuid option \<Rightarrow> exn + unit" where
  "validate_scope_and_catalog s kind version project =
    (case get_schedulable_agent kind version of
       None \<Rightarrow> Inl AutomationDefinitionError
     | Some entry \<Rightarrow>
        if sa_project_required entry \<and> project = None then Inl AutomationDefinitionError
        else if project \<noteq> None \<and> get_project s (the project) = None then Inl AutomationProjectNotFoundError
        else Inr ())"

definition unattended :: "automatic_agent_definition option \<Rightarrow> bool" where
  "unattended d \<longleftrightarrow> (case d of
       None \<Rightarrow> False
     | Some x \<Rightarrow> aad_code_owned x \<and> aad_authority x = ''read'' \<and> aad_allowed_tools x \<noteq> [])"

definition validate_execution_mode :: "string \<Rightarrow> string \<Rightarrow> string \<Rightarrow> exn + unit" where
  "validate_execution_mode kind version mode =
    (if mode = ''create_only'' then Inr ()
     else if \<not> unattended (get_automatic_agent_definition kind version)
       then Inl AutomaticExecutionUnavailableError
     else Inr ())"

definition lock_expected ::
  "'a automation_db_scheme \<Rightarrow> uuid \<Rightarrow> int \<Rightarrow> exn + automation" where
  "lock_expected s aid expected =
    (case get_automation s aid of
       None \<Rightarrow> Inl AutomationNotFoundError
     | Some a \<Rightarrow> if au_revision a \<noteq> expected then Inl AutomationRevisionConflictError else Inr a)"

text \<open>Assign attributes of the locked row and flush.\<close>

definition flush_automation ::
  "automation \<Rightarrow> (automation \<Rightarrow> automation) \<Rightarrow> 'a automation_db_scheme
     \<Rightarrow> ('a automation_db_scheme, automation) outcome" where
  "flush_automation a f s =
    (if automation_checks (f a) then (Inr (f a), upd_automation (au_id a) f s)
     else (Inl IntegrityError, upd_automation (au_id a) f s))"

definition bump :: "automation \<Rightarrow> automation" where
  "bump a = a\<lparr>au_revision := au_revision a + 1\<rparr>"

section \<open>Operations\<close>

definition new_automation :: "automation_create \<Rightarrow> instant \<Rightarrow> automation" where
  "new_automation rq t =
     \<lparr> au_id = 0, au_label = cq_label rq, au_automation_kind = ''scheduled_agent'',
       au_agent_kind = cq_agent_kind rq, au_agent_version = cq_agent_version rq,
       au_project_id = cq_project_id rq, au_lifecycle = LC_DRAFT, au_revision = 0,
       au_execution_mode = cq_execution_mode rq, au_schedule_kind = as_kind (cq_schedule rq),
       au_timezone_name = as_timezone_name (cq_schedule rq),
       au_local_time = as_local_time (cq_schedule rq),
       au_one_time_local_date = as_one_time_local_date (cq_schedule rq),
       au_weekdays = sort (as_weekdays (cq_schedule rq)),
       au_interval_count = as_interval_count (cq_schedule rq),
       au_missed_run_policy = cq_missed_run_policy rq, au_retry_limit = cq_retry_limit rq,
       au_capacity_limit = cq_capacity_limit rq, au_schedule_revision = 0,
       au_next_occurrence_at = None, au_created_at = t, au_cancelled_at = None \<rparr>"

definition create_automation ::
  "(string \<Rightarrow> time_zone option) \<Rightarrow> automation_create \<Rightarrow> instant \<Rightarrow> 'a automation_db_scheme
     \<Rightarrow> ('a automation_db_scheme, automation) outcome" where
  "create_automation zones rq t s =
    (case validate_definition zones (request_definition (cq_schedule rq)) of
       Inl e \<Rightarrow> (Inl e, s)
     | Inr _ \<Rightarrow>
        (case validate_scope_and_catalog s (cq_agent_kind rq) (cq_agent_version rq) (cq_project_id rq) of
           Inl e \<Rightarrow> (Inl e, s)
         | Inr _ \<Rightarrow>
            (case validate_execution_mode (cq_agent_kind rq) (cq_agent_version rq) (cq_execution_mode rq) of
               Inl e \<Rightarrow> (Inl e, s)
             | Inr _ \<Rightarrow> insert_automation (new_automation rq t) s)))"

definition apply_schedule :: "automation_schedule \<Rightarrow> automation \<Rightarrow> automation" where
  "apply_schedule sch a = a\<lparr>
     au_schedule_kind := as_kind sch, au_timezone_name := as_timezone_name sch,
     au_local_time := as_local_time sch, au_one_time_local_date := as_one_time_local_date sch,
     au_weekdays := sort (as_weekdays sch), au_interval_count := as_interval_count sch\<rparr>"

definition or_keep :: "bool \<Rightarrow> 'x option \<Rightarrow> 'x \<Rightarrow> 'x" where
  "or_keep present v old = (if present then (case v of Some x \<Rightarrow> x | None \<Rightarrow> old) else old)"

definition has_field :: "automation_update \<Rightarrow> string \<Rightarrow> bool" where
  "has_field rq field \<longleftrightarrow> field \<in> set (uq_fields rq)"

definition update_fields :: "automation_update \<Rightarrow> automation \<Rightarrow> automation" where
  "update_fields rq a = a\<lparr>
     au_label := or_keep (has_field rq ''label'') (uq_label rq) (au_label a),
     au_project_id := (if has_field rq ''project_id'' then uq_project_id rq else au_project_id a),
     au_execution_mode := or_keep (has_field rq ''execution_mode'') (uq_execution_mode rq) (au_execution_mode a),
     au_missed_run_policy := or_keep (has_field rq ''missed_run_policy'') (uq_missed_run_policy rq)
       (au_missed_run_policy a),
     au_retry_limit := or_keep (has_field rq ''retry_limit'') (uq_retry_limit rq) (au_retry_limit a),
     au_capacity_limit := or_keep (has_field rq ''capacity_limit'') (uq_capacity_limit rq)
       (au_capacity_limit a)\<rparr>"

text \<open>A field that was sent as null violates NOT NULL at the flush.\<close>

definition null_fields :: "automation_update \<Rightarrow> bool" where
  "null_fields rq \<longleftrightarrow>
     has_field rq ''missed_run_policy'' \<and> uq_missed_run_policy rq = None \<or>
     has_field rq ''retry_limit'' \<and> uq_retry_limit rq = None \<or>
     has_field rq ''capacity_limit'' \<and> uq_capacity_limit rq = None"

definition flush_update ::
  "automation_update \<Rightarrow> automation \<Rightarrow> (automation \<Rightarrow> automation) \<Rightarrow> 'a automation_db_scheme
     \<Rightarrow> ('a automation_db_scheme, automation) outcome" where
  "flush_update rq a f s =
    (if null_fields rq then (Inl IntegrityError, upd_automation (au_id a) f s)
     else flush_automation a f s)"

definition set_next :: "instant option \<Rightarrow> automation \<Rightarrow> automation" where
  "set_next u a = a\<lparr>au_next_occurrence_at := u\<rparr>"

definition bump_schedule :: "automation \<Rightarrow> automation" where
  "bump_schedule a = a\<lparr>au_schedule_revision := au_schedule_revision a + 1\<rparr>"

definition requested_schedule ::
  "(string \<Rightarrow> time_zone option) \<Rightarrow> automation_update \<Rightarrow> exn + (automation \<Rightarrow> automation)" where
  "requested_schedule zones rq =
    (case uq_schedule rq of
       None \<Rightarrow> Inr id
     | Some sch \<Rightarrow> (case validate_definition zones (request_definition sch) of
         Inl e \<Rightarrow> Inl e | Inr _ \<Rightarrow> Inr (apply_schedule sch)))"

definition requested_mode :: "automation_update \<Rightarrow> automation \<Rightarrow> exn + unit" where
  "requested_mode rq a =
    (if has_field rq ''execution_mode'' then
       (case uq_execution_mode rq of
          None \<Rightarrow> Inl AssertionError
        | Some mode \<Rightarrow> validate_execution_mode (au_agent_kind a) (au_agent_version a) mode)
     else Inr ())"

definition update_automation ::
  "(string \<Rightarrow> time_zone option) \<Rightarrow> uuid \<Rightarrow> automation_update \<Rightarrow> instant \<Rightarrow> 'a automation_db_scheme
     \<Rightarrow> ('a automation_db_scheme, automation) outcome" where
  "update_automation zones aid rq t s =
    (case lock_expected s aid (uq_expected_revision rq) of
       Inl e \<Rightarrow> (Inl e, s)
     | Inr a \<Rightarrow>
        if au_lifecycle a = LC_CANCELLED then (Inl AutomationTransitionConflictError, s)
        else if list_ex (\<lambda>field. field \<noteq> ''label'') (uq_fields rq) \<and>
                au_lifecycle a \<notin> {LC_DRAFT, LC_PAUSED}
          then (Inl AutomationTransitionConflictError, s)
        else
         (case validate_scope_and_catalog s (au_agent_kind a) (au_agent_version a)
                  (if has_field rq ''project_id'' then uq_project_id rq else au_project_id a) of
            Inl e \<Rightarrow> (Inl e, s)
          | Inr _ \<Rightarrow>
             (case requested_schedule zones rq of
                Inl e \<Rightarrow> (Inl e, s)
              | Inr reschedule \<Rightarrow>
                 (case requested_mode rq a of
                    Inl e \<Rightarrow> (Inl e, upd_automation (au_id a) reschedule s)
                  | Inr _ \<Rightarrow>
                     if has_field rq ''label'' \<and> uq_label rq = None
                       then (Inl AssertionError, upd_automation (au_id a) reschedule s)
                     else
                      let f = bump \<circ> update_fields rq \<circ> reschedule; g = bump_schedule \<circ> f in
                      if \<not> has_field rq ''schedule'' then flush_update rq a f s
                      else if au_lifecycle a = LC_PAUSED then
                       (case next_point zones (automation_definition (g a)) t None of
                          Inl e \<Rightarrow> (Inl e, upd_automation (au_id a) g s)
                        | Inr None \<Rightarrow> (Inl AutomationDefinitionError, upd_automation (au_id a) g s)
                        | Inr (Some p) \<Rightarrow> flush_update rq a (set_next (Some (sp_utc_instant p)) \<circ> g) s)
                      else flush_update rq a (set_next None \<circ> g) s))))"

definition set_execution_mode ::
  "uuid \<Rightarrow> int \<Rightarrow> string \<Rightarrow> 'a automation_db_scheme \<Rightarrow> ('a automation_db_scheme, automation) outcome" where
  "set_execution_mode aid expected mode s =
    (case lock_expected s aid expected of
       Inl e \<Rightarrow> (Inl e, s)
     | Inr a \<Rightarrow>
        if au_lifecycle a = LC_CANCELLED then (Inl AutomationTransitionConflictError, s)
        else
         (case validate_execution_mode (au_agent_kind a) (au_agent_version a) mode of
            Inl e \<Rightarrow> (Inl e, s)
          | Inr _ \<Rightarrow> flush_automation a (bump \<circ> (\<lambda>x. x\<lparr>au_execution_mode := mode\<rparr>)) s))"

text \<open>Enabling a draft and resuming a paused Automation differ only in the state they start from.\<close>

definition enable_from ::
  "lifecycle_state \<Rightarrow> (string \<Rightarrow> time_zone option) \<Rightarrow> uuid \<Rightarrow> int \<Rightarrow> instant \<Rightarrow> 'a automation_db_scheme
     \<Rightarrow> ('a automation_db_scheme, automation) outcome" where
  "enable_from from zones aid expected t s =
    (case lock_expected s aid expected of
       Inl e \<Rightarrow> (Inl e, s)
     | Inr a \<Rightarrow>
        if au_lifecycle a \<noteq> from then (Inl AutomationTransitionConflictError, s)
        else
         (case validate_scope_and_catalog s (au_agent_kind a) (au_agent_version a) (au_project_id a) of
            Inl e \<Rightarrow> (Inl e, s)
          | Inr _ \<Rightarrow>
             (case next_point zones (automation_definition a) t None of
                Inl e \<Rightarrow> (Inl e, s)
              | Inr None \<Rightarrow> (Inl AutomationDefinitionError, s)
              | Inr (Some p) \<Rightarrow>
                  flush_automation a (bump \<circ> set_next (Some (sp_utc_instant p)) \<circ>
                    (\<lambda>x. x\<lparr>au_lifecycle := LC_ENABLED\<rparr>)) s)))"

definition enable_automation ::
  "(string \<Rightarrow> time_zone option) \<Rightarrow> uuid \<Rightarrow> int \<Rightarrow> instant \<Rightarrow> 'a automation_db_scheme
     \<Rightarrow> ('a automation_db_scheme, automation) outcome" where
  "enable_automation = enable_from LC_DRAFT"

definition resume_automation ::
  "(string \<Rightarrow> time_zone option) \<Rightarrow> uuid \<Rightarrow> int \<Rightarrow> instant \<Rightarrow> 'a automation_db_scheme
     \<Rightarrow> ('a automation_db_scheme, automation) outcome" where
  "resume_automation = enable_from LC_PAUSED"

definition pause_automation ::
  "uuid \<Rightarrow> int \<Rightarrow> 'a automation_db_scheme \<Rightarrow> ('a automation_db_scheme, automation) outcome" where
  "pause_automation aid expected s =
    (case lock_expected s aid expected of
       Inl e \<Rightarrow> (Inl e, s)
     | Inr a \<Rightarrow>
        if au_lifecycle a \<noteq> LC_ENABLED then (Inl AutomationTransitionConflictError, s)
        else flush_automation a (bump \<circ> (\<lambda>x. x\<lparr>au_lifecycle := LC_PAUSED\<rparr>)) s)"

definition cancel_automation ::
  "uuid \<Rightarrow> int \<Rightarrow> instant \<Rightarrow> 'a automation_db_scheme \<Rightarrow> ('a automation_db_scheme, automation) outcome" where
  "cancel_automation aid expected t s =
    (case lock_expected s aid expected of
       Inl e \<Rightarrow> (Inl e, s)
     | Inr a \<Rightarrow>
        if au_lifecycle a = LC_CANCELLED then (Inl AutomationTransitionConflictError, s)
        else flush_automation a (bump \<circ> (\<lambda>x. x\<lparr>au_lifecycle := LC_CANCELLED, au_cancelled_at := Some t,
               au_next_occurrence_at := None\<rparr>)) s)"

section \<open>The lifecycle\<close>

fun lifecycle_edge :: "lifecycle_state \<Rightarrow> lifecycle_state \<Rightarrow> bool" where
  "lifecycle_edge LC_DRAFT LC_ENABLED = True"
| "lifecycle_edge LC_ENABLED LC_PAUSED = True"
| "lifecycle_edge LC_PAUSED LC_ENABLED = True"
| "lifecycle_edge LC_CANCELLED b = False"
| "lifecycle_edge a LC_CANCELLED = True"
| "lifecycle_edge a b = False"

interpretation automation_lifecycle: lifecycle lifecycle_edge "\<lambda>st. st = LC_CANCELLED"
  by unfold_locales simp

text \<open>The operator's requests on an existing Automation, as the routes dispatch them.\<close>

datatype automation_request =
    Update automation_update
  | SetMode int string
  | Enable int
  | Pause int
  | Resume int
  | Cancel int

fun serve ::
  "(string \<Rightarrow> time_zone option) \<Rightarrow> uuid \<Rightarrow> instant \<Rightarrow> automation_request \<Rightarrow> 'a automation_db_scheme
     \<Rightarrow> ('a automation_db_scheme, automation) outcome" where
  "serve zones aid t (Update rq) s = update_automation zones aid rq t s"
| "serve zones aid t (SetMode n mode) s = set_execution_mode aid n mode s"
| "serve zones aid t (Enable n) s = enable_automation zones aid n t s"
| "serve zones aid t (Pause n) s = pause_automation aid n s"
| "serve zones aid t (Resume n) s = resume_automation zones aid n t s"
| "serve zones aid t (Cancel n) s = cancel_automation aid n t s"

fun expected_revision :: "automation_request \<Rightarrow> int" where
  "expected_revision (Update rq) = uq_expected_revision rq"
| "expected_revision (SetMode n mode) = n"
| "expected_revision (Enable n) = n"
| "expected_revision (Pause n) = n"
| "expected_revision (Resume n) = n"
| "expected_revision (Cancel n) = n"

lemma flush_automation_OK:
  "flush_automation a f s = (Inr a', s') \<Longrightarrow> a' = f a \<and> s' = upd_automation (au_id a) f s \<and> automation_checks a'"
  by (auto simp: flush_automation_def split: if_splits)

lemma flush_update_OK:
  "flush_update rq a f s = (Inr a', s') \<Longrightarrow> a' = f a \<and> s' = upd_automation (au_id a) f s \<and> automation_checks a'"
  by (auto simp: flush_update_def split: if_splits dest: flush_automation_OK)

lemma lock_expected_OK:
  "lock_expected s aid n = Inr a \<Longrightarrow> get_automation s aid = Some a \<and> au_revision a = n \<and> au_id a = aid"
  by (auto simp: lock_expected_def split: option.splits if_splits dest: automations.get_key)

lemma assignments [simp]:
  "au_id (bump a) = au_id a" "au_lifecycle (bump a) = au_lifecycle a" "au_revision (bump a) = au_revision a + 1"
  "au_next_occurrence_at (bump a) = au_next_occurrence_at a"
  "au_id (set_next u a) = au_id a" "au_lifecycle (set_next u a) = au_lifecycle a"
  "au_revision (set_next u a) = au_revision a" "au_next_occurrence_at (set_next u a) = u"
  "au_id (bump_schedule a) = au_id a" "au_lifecycle (bump_schedule a) = au_lifecycle a"
  "au_revision (bump_schedule a) = au_revision a"
  "au_id (update_fields rq a) = au_id a" "au_lifecycle (update_fields rq a) = au_lifecycle a"
  "au_revision (update_fields rq a) = au_revision a"
  "au_id (apply_schedule sch a) = au_id a" "au_lifecycle (apply_schedule sch a) = au_lifecycle a"
  "au_revision (apply_schedule sch a) = au_revision a"
  by (simp_all add: bump_def set_next_def bump_schedule_def update_fields_def apply_schedule_def)

lemma requested_schedule_OK:
  "requested_schedule zones rq = Inr f \<Longrightarrow> f = id \<or> (\<exists>sch. f = apply_schedule sch)"
  by (auto simp: requested_schedule_def split: option.splits sum.splits)

text \<open>Every granted request assigns attributes of the locked row and adds one to its revision.\<close>

lemma serve_OK:
  assumes "serve zones aid t rq s = (Inr a', s')"
  obtains a f where "get_automation s aid = Some a" "au_revision a = expected_revision rq"
    "au_lifecycle a \<noteq> LC_CANCELLED" "a' = f a" "s' = upd_automation aid f s" "automation_checks a'"
    "\<And>x. au_id (f x) = au_id x" "\<And>x. au_revision (f x) = au_revision x + 1"
    "au_lifecycle a' = au_lifecycle a \<or> lifecycle_edge (au_lifecycle a) (au_lifecycle a')"
proof -
  have lock: "\<exists>a. lock_expected s aid (expected_revision rq) = Inr a"
    using assms
    by (cases rq) (auto simp: update_automation_def set_execution_mode_def enable_automation_def
        resume_automation_def enable_from_def pause_automation_def cancel_automation_def split: sum.splits)
  then obtain a where a: "lock_expected s aid (expected_revision rq) = Inr a" by blast
  note row = lock_expected_OK [OF a]
  let ?goal = "\<exists>f. au_lifecycle a \<noteq> LC_CANCELLED \<and> a' = f a \<and> s' = upd_automation aid f s \<and> automation_checks a' \<and>
      (\<forall>x. au_id (f x) = au_id x) \<and> (\<forall>x. au_revision (f x) = au_revision x + 1) \<and>
      (au_lifecycle a' = au_lifecycle a \<or> lifecycle_edge (au_lifecycle a) (au_lifecycle a'))"
  have granted: ?goal if "flush_automation a f s = (Inr a', s') \<or> flush_update u a f s = (Inr a', s')"
    "au_lifecycle a \<noteq> LC_CANCELLED" "\<And>x. au_id (f x) = au_id x" "\<And>x. au_revision (f x) = au_revision x + 1"
    "au_lifecycle (f a) = au_lifecycle a \<or> lifecycle_edge (au_lifecycle a) (au_lifecycle (f a))" for f u
  proof -
    have "a' = f a" "s' = upd_automation aid f s" "automation_checks a'"
      using that(1) row by (auto dest: flush_automation_OK flush_update_OK)
    then show ?thesis using that by blast
  qed
  have ?goal
  proof (cases rq)
    case (Update u)
    from assms a Update obtain reschedule where re: "requested_schedule zones u = Inr reschedule"
      and live: "au_lifecycle a \<noteq> LC_CANCELLED"
      and flush: "\<exists>h \<in> {id, set_next None \<circ> bump_schedule} \<union> range (\<lambda>p. set_next (Some p) \<circ> bump_schedule).
         flush_update u a (h \<circ> (bump \<circ> update_fields u \<circ> reschedule)) s = (Inr a', s')"
      by (auto simp: update_automation_def Let_def comp_assoc split: if_splits sum.splits option.splits)
    then obtain h where h: "h \<in> {id, set_next None \<circ> bump_schedule} \<union> range (\<lambda>p. set_next (Some p) \<circ> bump_schedule)"
      "flush_update u a (h \<circ> (bump \<circ> update_fields u \<circ> reschedule)) s = (Inr a', s')" by blast
    have hx: "au_id (h x) = au_id x \<and> au_revision (h x) = au_revision x \<and> au_lifecycle (h x) = au_lifecycle x" for x
      using h(1) by auto
    have rx: "au_id (reschedule x) = au_id x \<and> au_revision (reschedule x) = au_revision x \<and>
        au_lifecycle (reschedule x) = au_lifecycle x" for x
      using requested_schedule_OK [OF re] by auto
    show ?thesis by (rule granted [OF disjI2 [OF h(2)] live]) (simp_all add: hx rx)
  next
    case (SetMode n mode)
    with assms a have live: "au_lifecycle a \<noteq> LC_CANCELLED"
      and flush: "flush_automation a (bump \<circ> (\<lambda>x. x\<lparr>au_execution_mode := mode\<rparr>)) s = (Inr a', s')"
      by (auto simp: set_execution_mode_def split: if_splits sum.splits)
    show ?thesis by (rule granted [OF disjI1 [OF flush]]) (simp_all add: live)
  next
    case (Enable n)
    with assms a obtain u where live: "au_lifecycle a = LC_DRAFT"
      and flush: "flush_automation a (bump \<circ> set_next (Some u) \<circ> (\<lambda>x. x\<lparr>au_lifecycle := LC_ENABLED\<rparr>)) s = (Inr a', s')"
      by (auto simp: enable_automation_def enable_from_def split: if_splits sum.splits option.splits)
    show ?thesis by (rule granted [OF disjI1 [OF flush]]) (simp_all add: live)
  next
    case (Pause n)
    with assms a have live: "au_lifecycle a = LC_ENABLED"
      and flush: "flush_automation a (bump \<circ> (\<lambda>x. x\<lparr>au_lifecycle := LC_PAUSED\<rparr>)) s = (Inr a', s')"
      by (auto simp: pause_automation_def split: if_splits)
    show ?thesis by (rule granted [OF disjI1 [OF flush]]) (simp_all add: live)
  next
    case (Resume n)
    with assms a obtain u where live: "au_lifecycle a = LC_PAUSED"
      and flush: "flush_automation a (bump \<circ> set_next (Some u) \<circ> (\<lambda>x. x\<lparr>au_lifecycle := LC_ENABLED\<rparr>)) s = (Inr a', s')"
      by (auto simp: resume_automation_def enable_from_def split: if_splits sum.splits option.splits)
    show ?thesis by (rule granted [OF disjI1 [OF flush]]) (simp_all add: live)
  next
    case (Cancel n)
    with assms a have live: "au_lifecycle a \<noteq> LC_CANCELLED"
      and flush: "flush_automation a (bump \<circ> (\<lambda>x. x\<lparr>au_lifecycle := LC_CANCELLED, au_cancelled_at := Some t,
               au_next_occurrence_at := None\<rparr>)) s = (Inr a', s')"
      by (auto simp: cancel_automation_def split: if_splits)
    have "lifecycle_edge (au_lifecycle a) LC_CANCELLED" using live by (cases "au_lifecycle a") simp_all
    then show ?thesis by (intro granted [OF disjI1 [OF flush]]) (simp_all add: live)
  qed
  then show ?thesis using that row by blast
qed

section \<open>Properties\<close>

text \<open>A request on an Automation is fenced and legal: it is granted only at the row's current
  revision and before cancellation, moves the lifecycle along an edge of draft, enabled, paused,
  cancelled or leaves it, adds exactly one to the revision, leaves a row the CHECK constraints
  accept, changes no other Automation and nothing else of the session, and spends its revision: a
  second request with the same expected revision conflicts.\<close>

theorem automation_requests_fenced:
  assumes "serve zones aid t rq s = (Inr a', s')"
  shows "\<exists>a. get_automation s aid = Some a \<and> au_revision a = expected_revision rq \<and>
    au_lifecycle a \<noteq> LC_CANCELLED \<and>
    (au_lifecycle a' = au_lifecycle a \<or> lifecycle_edge (au_lifecycle a) (au_lifecycle a')) \<and>
    au_revision a' = expected_revision rq + 1 \<and> automation_checks a' \<and>
    get_automation s' = (get_automation s)(aid \<mapsto> a') \<and>
    s'\<lparr>db_automations := db_automations s\<rparr> = s \<and>
    (expected_revision rq2 = expected_revision rq \<longrightarrow>
       serve zones aid t2 rq2 s' = (Inl AutomationRevisionConflictError, s'))"
proof -
  obtain a f where g: "get_automation s aid = Some a" "au_revision a = expected_revision rq"
    "au_lifecycle a \<noteq> LC_CANCELLED" "a' = f a" "s' = upd_automation aid f s" "automation_checks a'"
    and f: "\<And>x. au_id (f x) = au_id x" "\<And>x. au_revision (f x) = au_revision x + 1"
    and edge: "au_lifecycle a' = au_lifecycle a \<or> lifecycle_edge (au_lifecycle a) (au_lifecycle a')"
    using serve_OK [OF assms] by metis
  have rows: "get_automation s' = (get_automation s)(aid \<mapsto> a')"
    using g f by (auto simp: automations.get_upd fun_eq_iff)
  have rest: "s'\<lparr>db_automations := db_automations s\<rparr> = s"
    using g(5) by (simp add: upd_automation_def)
  have spent: "serve zones aid t2 rq2 s' = (Inl AutomationRevisionConflictError, s')"
    if "expected_revision rq2 = expected_revision rq"
    using that rows f(2) g
    by (cases rq2) (simp_all add: update_automation_def set_execution_mode_def enable_automation_def
        resume_automation_def enable_from_def pause_automation_def cancel_automation_def lock_expected_def)
  show ?thesis using g f edge rows rest spent by auto
qed

text \<open>Enabling a draft or resuming a paused Automation schedules it strictly in the future: its
  next occurrence is the first slot of its own schedule after the captured instant, the definition
  is one the scheduler can evaluate, and its Agent is in the catalog with a Project where one is
  required and that exists.\<close>

theorem enabled_automation_has_future_slot:
  assumes "serve zones aid t rq s = (Inr a', s')" and "rq = Enable n \<or> rq = Resume n"
  shows "\<exists>p. au_lifecycle a' = LC_ENABLED \<and> au_next_occurrence_at a' = Some (sp_utc_instant p) \<and>
    t < sp_utc_instant p \<and> next_point zones (automation_definition a') t None = Inr (Some p) \<and>
    validate_definition zones (automation_definition a') = Inr () \<and>
    validate_scope_and_catalog s (au_agent_kind a') (au_agent_version a') (au_project_id a') = Inr ()"
proof -
  obtain st where call: "enable_from st zones aid n t s = (Inr a', s')"
    using assms by (auto simp: enable_automation_def resume_automation_def)
  then obtain a p where v: "validate_scope_and_catalog s (au_agent_kind a) (au_agent_version a) (au_project_id a) = Inr ()"
    and p: "next_point zones (automation_definition a) t None = Inr (Some p)"
    and flush: "flush_automation a (bump \<circ> set_next (Some (sp_utc_instant p)) \<circ>
      (\<lambda>x. x\<lparr>au_lifecycle := LC_ENABLED\<rparr>)) s = (Inr a', s')"
    by (auto simp: enable_from_def split: if_splits sum.splits option.splits)
  have a': "a' = (bump \<circ> set_next (Some (sp_utc_instant p)) \<circ> (\<lambda>x. x\<lparr>au_lifecycle := LC_ENABLED\<rparr>)) a"
    using flush_automation_OK [OF flush] by blast
  have same: "automation_definition a' = automation_definition a" "au_agent_kind a' = au_agent_kind a"
    "au_agent_version a' = au_agent_version a" "au_project_id a' = au_project_id a"
    by (simp_all add: a' automation_definition_def bump_def set_next_def)
  have valid: "validate_definition zones (automation_definition a) = Inr ()"
    using p by (auto simp: next_point_def split: sum.splits)
  have next_at: "au_lifecycle a' = LC_ENABLED" "au_next_occurrence_at a' = Some (sp_utc_instant p)"
    by (simp_all add: a')
  show ?thesis
    using p v valid slot_after [OF p] next_at unfolding same by blast
qed

section \<open>Witnesses\<close>

definition example_automation :: automation where
  "example_automation = \<lparr> au_id = 5, au_label = ''Brief'', au_automation_kind = ''scheduled_agent'',
     au_agent_kind = ''daily_brief'', au_agent_version = ''1'', au_project_id = None,
     au_lifecycle = LC_DRAFT, au_revision = 0, au_execution_mode = ''create_only'',
     au_schedule_kind = ''daily'', au_timezone_name = ''Test/Zone'', au_local_time = hours 2 + minutes 30,
     au_one_time_local_date = None, au_weekdays = [], au_interval_count = 1,
     au_missed_run_policy = ''skip'', au_retry_limit = 3, au_capacity_limit = 1, au_schedule_revision = 0,
     au_next_occurrence_at = None, au_created_at = 0, au_cancelled_at = None \<rparr>"

definition automation_example_db :: "automation list \<Rightarrow> occurrence list \<Rightarrow> automation_db" where
  "automation_example_db as ocs = \<lparr> db_next_id = 10, db_projects = [1], db_memories = [], db_runs = [],
     db_steps = [], db_invocations = [], db_approvals = [], db_events = [],
     db_automations = as, db_occurrences = ocs, db_notifications = [] \<rparr>"

definition example_enabled :: automation where
  "example_enabled = example_automation\<lparr>au_lifecycle := LC_ENABLED, au_revision := 1,
     au_next_occurrence_at := Some (sp_utc_instant example_slot)\<rparr>"

lemma example_enabling:
  "serve example_zones 5 (700000 * DAY) (Enable 0) (automation_example_db [example_automation] []) =
     (Inr example_enabled, automation_example_db [example_enabled] [])"
proof -
  let ?s = "automation_example_db [example_automation] []"
  have d: "automation_definition example_automation = example_daily"
    by (simp add: automation_definition_def example_automation_def example_daily_def)
  have lock: "lock_expected ?s 5 0 = Inr example_automation" by code_simp
  have catalog: "validate_scope_and_catalog ?s (au_agent_kind example_automation)
      (au_agent_version example_automation) (au_project_id example_automation) = Inr ()" by code_simp
  have f: "(bump \<circ> set_next (Some (sp_utc_instant example_slot)) \<circ> (\<lambda>x. x\<lparr>au_lifecycle := LC_ENABLED\<rparr>))
      example_automation = example_enabled"
    by (simp add: bump_def set_next_def example_enabled_def example_automation_def)
  have ok: "automation_checks example_enabled" by code_simp
  have draft: "au_lifecycle example_automation = LC_DRAFT" "au_id example_automation = 5"
    by (simp_all add: example_automation_def)
  have store: "upd_automation 5 (bump \<circ> set_next (Some (sp_utc_instant example_slot)) \<circ>
      (\<lambda>x. x\<lparr>au_lifecycle := LC_ENABLED\<rparr>)) ?s = automation_example_db [example_enabled] []"
    using f draft by (simp add: upd_automation_def automation_example_db_def row_upd_def)
  show ?thesis
    using lock catalog f ok d example_next draft store
    by (simp add: enable_automation_def enable_from_def flush_automation_def)
qed

theorem automation_requests_fenced_witness:
  "serve example_zones 5 (700000 * DAY) (Pause 0) (automation_example_db [example_enabled] []) =
     (Inl AutomationRevisionConflictError, automation_example_db [example_enabled] [])"
  using automation_requests_fenced [OF example_enabling, of "Pause 0" "700000 * DAY"] by auto

theorem enabled_automation_has_future_slot_witness:
  "\<exists>u. au_next_occurrence_at example_enabled = Some u \<and> 700000 * DAY < u"
  using enabled_automation_has_future_slot [OF example_enabling, of 0] by auto

end
