(* ===== verification/Automation_Scheduler.thy ===== *)
theory Automation_Scheduler
  imports Automation_Service
begin

text \<open>
  The Automation scheduler (\<open>app/automations/scheduler.py\<close>): materialization of due slots, leased
  claims with owner and generation, reclaiming, retries, creation and linking of the Run, and
  reconciliation with the Run's outcome. \<open>t\<close> is the operation time, \<open>busy\<close> tells the rows that
  another transaction has locked (skipped), \<open>other\<close> is what other transactions commit while a
  statement waits.
\<close>

section \<open>Limits and input checks\<close>

definition MAX_BATCH_SIZE :: int where "MAX_BATCH_SIZE = 16"
definition MAX_ACTIVE_OCCURRENCES :: nat where "MAX_ACTIVE_OCCURRENCES = 32"
definition MIN_LEASE :: int where "MIN_LEASE = seconds 10"
definition MAX_LEASE :: int where "MAX_LEASE = minutes 5"
definition MAX_LOOKBACK :: int where "MAX_LOOKBACK = days 7"
definition MAX_SETUP_ATTEMPTS :: int where "MAX_SETUP_ATTEMPTS = 3"
definition MAX_RETRY_DELAY :: int where "MAX_RETRY_DELAY = minutes 5"

record occurrence_claim =
  cl_occurrence_id :: uuid
  cl_automation_id :: uuid
  cl_owner_token :: uuid
  cl_lease_generation :: int

definition batch_limit :: "int \<Rightarrow> exn + nat" where
  "batch_limit limit =
    (if \<not> (1 \<le> limit \<and> limit \<le> MAX_BATCH_SIZE) then Inl SchedulerValidationError else Inr (nat limit))"

definition lease_duration :: "int \<Rightarrow> exn + int" where
  "lease_duration d = (if d < MIN_LEASE \<or> MAX_LEASE < d then Inl SchedulerValidationError else Inr d)"

section \<open>Slots and their keys\<close>

text \<open>\<open>ZoneInfo(name)\<close> raises a KeyError subclass for a name that is not in the database.\<close>

definition scheduled_point ::
  "(string \<Rightarrow> time_zone option) \<Rightarrow> automation \<Rightarrow> instant \<Rightarrow> exn + schedule_point" where
  "scheduled_point zones a scheduled =
    (case zones (au_timezone_name a) of
       None \<Rightarrow> Inl KeyError
     | Some z \<Rightarrow> let local = from_utc z scheduled in
         Inr \<lparr> sp_local_date = local div DAY, sp_local_time = local mod DAY,
               sp_timezone_name = au_timezone_name a,
               sp_utc_offset_minutes = tz_utc_offset z scheduled div minutes 1,
               sp_utc_instant = scheduled \<rparr>)"

text \<open>
  \<open>datetime.isoformat(timespec="microseconds")\<close> of a UTC instant. The day number is that of
  \<open>date.toordinal\<close>; the conversion to year, month and day is the library's.
\<close>

definition is_leap :: "int \<Rightarrow> bool" where
  "is_leap y \<longleftrightarrow> y mod 4 = 0 \<and> (y mod 100 \<noteq> 0 \<or> y mod 400 = 0)"

definition days_before_month :: "bool \<Rightarrow> int \<Rightarrow> int" where
  "days_before_month leap m =
     [0, 31, 59, 90, 120, 151, 181, 212, 243, 273, 304, 334] ! nat (m - 1) + (if 2 < m \<and> leap then 1 else 0)"

definition ymd_of_ordinal :: "int \<Rightarrow> int \<times> int \<times> int" where
  "ymd_of_ordinal day =
    (let n = day - 1; n400 = n div 146097; n = n mod 146097;
         n100 = n div 36524; n = n mod 36524; n4 = n div 1461; n = n mod 1461;
         n1 = n div 365; n = n mod 365;
         year = n400 * 400 + 1 + n100 * 100 + n4 * 4 + n1
     in if n1 = 4 \<or> n100 = 4 then (year - 1, 12, 31)
        else let month = (n + 50) div 32;
                 month = (if days_before_month (is_leap year) month > n then month - 1 else month)
             in (year, month, n - days_before_month (is_leap year) month + 1))"

definition pad :: "nat \<Rightarrow> int \<Rightarrow> string" where
  "pad w n = (let digits = str_int n in replicate (w - length digits) (CHR ''0'') @ digits)"

definition iso_utc :: "instant \<Rightarrow> string" where
  "iso_utc u = (let (y, m, d) = ymd_of_ordinal (u div DAY); r = u mod DAY in
     pad 4 y @ ''-'' @ pad 2 m @ ''-'' @ pad 2 d @ ''T'' @
     pad 2 (r div hours 1) @ '':'' @ pad 2 (r mod hours 1 div minutes 1) @ '':'' @
     pad 2 (r mod minutes 1 div seconds 1) @ ''.'' @ pad 6 (r mod seconds 1) @ ''+00:00'')"

definition occurrence_key :: "automation \<Rightarrow> instant \<Rightarrow> string" where
  "occurrence_key a scheduled =
     ''automation:'' @ uuid_text (au_id a) @ '':schedule:'' @ str_int (au_schedule_revision a) @
     '':at:'' @ iso_utc scheduled"

section \<open>Writing occurrences\<close>

text \<open>Attributes of a locked occurrence are assigned and flushed.\<close>

definition flush_occurrence ::
  "uuid \<Rightarrow> (occurrence \<Rightarrow> occurrence) \<Rightarrow> 'a automation_db_scheme
     \<Rightarrow> ('a automation_db_scheme, occurrence) outcome" where
  "flush_occurrence i f s =
    (case lock_occurrence s i of
       None \<Rightarrow> (Inl AssertionError, s)
     | Some oc \<Rightarrow>
        if occurrence_checks (f oc) \<and>
           \<not> list_ex (\<lambda>x. oc_id x \<noteq> i \<and> oc_agent_run_id (f oc) \<noteq> None \<and>
                oc_agent_run_id x = oc_agent_run_id (f oc)) (db_occurrences s)
        then (Inr (f oc), upd_occurrence i f s)
        else (Inl IntegrityError, upd_occurrence i f s))"

definition notice :: "occurrence \<Rightarrow> string \<Rightarrow> string \<Rightarrow> instant \<Rightarrow> notification" where
  "notice oc event_kind severity t =
     \<lparr> no_id = 0, no_automation_id = oc_automation_id oc, no_occurrence_id = Some (oc_id oc),
       no_agent_run_id = oc_agent_run_id oc, no_event_kind = event_kind, no_severity = severity,
       no_title = ''Automation needs operator attention'',
       no_body = ''Open the Automation history to review its safe status and links.'',
       no_read_at = None, no_created_at = t,
       no_deduplication_key = ''automation-notice:'' @ uuid_text (oc_id oc) @ '':'' @ event_kind \<rparr>"

text \<open>The insert runs in a savepoint; a duplicate rolls it back and is ignored.\<close>

definition notify ::
  "occurrence \<Rightarrow> string \<Rightarrow> string \<Rightarrow> string \<Rightarrow> instant \<Rightarrow> 'a automation_db_scheme
     \<Rightarrow> ('a automation_db_scheme, unit) outcome" where
  "notify oc event_kind severity code t s =
    (if code = [] then (Inl SchedulerValidationError, s)
     else (case insert_automation_notification (notice oc event_kind severity t) s of
        (Inl e, s') \<Rightarrow> if e = IntegrityError then (Inr (), s) else (Inl e, s')
      | (Inr _, s') \<Rightarrow> (Inr (), s')))"

section \<open>Materialization\<close>

definition new_occurrence ::
  "automation \<Rightarrow> schedule_point \<Rightarrow> instant \<Rightarrow> occurrence_state \<Rightarrow> string option \<Rightarrow> occurrence" where
  "new_occurrence a p t st disposition =
     \<lparr> oc_id = 0, oc_automation_id = au_id a, oc_schedule_revision = au_schedule_revision a,
       oc_scheduled_at = sp_utc_instant p, oc_scheduled_local_date = sp_local_date p,
       oc_scheduled_local_time = sp_local_time p,
       oc_scheduled_utc_offset_minutes = sp_utc_offset_minutes p,
       oc_timezone_name = sp_timezone_name p, oc_occurrence_key = occurrence_key a (sp_utc_instant p),
       oc_state = st, oc_revision = 0, oc_agent_run_id = None, oc_safe_disposition_code = disposition,
       oc_safe_error_code = None, oc_attempt_count = 0, oc_retry_not_before = None, oc_created_at = t,
       oc_claimed_at = None, oc_completed_at = (if terminal_occurrence st then Some t else None),
       oc_lease_owner_token = None, oc_lease_generation = 0, oc_lease_expires_at = None,
       oc_last_renewed_at = None, oc_automation_revision = au_revision a,
       oc_automation_kind = au_automation_kind a, oc_automation_label = au_label a,
       oc_agent_kind = au_agent_kind a, oc_agent_version = au_agent_version a,
       oc_execution_mode = au_execution_mode a, oc_project_id = au_project_id a \<rparr>"

text \<open>The loop that walks the calendar to the latest due slot, at most \<open>fuel\<close> slots.\<close>

fun latest_loop ::
  "(string \<Rightarrow> time_zone option) \<Rightarrow> schedule_definition \<Rightarrow> instant \<Rightarrow> nat \<Rightarrow> schedule_point
     \<Rightarrow> exn + (schedule_point \<times> schedule_point option)" where
  "latest_loop zones d t 0 latest = Inl SchedulerValidationError"
| "latest_loop zones d t (Suc fuel) latest =
    (case next_point zones d (sp_utc_instant latest) (Some latest) of
       Inl e \<Rightarrow> Inl e
     | Inr None \<Rightarrow> Inr (latest, None)
     | Inr (Some following) \<Rightarrow>
        if sp_utc_instant following > t then Inr (latest, Some following)
        else latest_loop zones d t fuel following)"

definition latest_due_and_future ::
  "(string \<Rightarrow> time_zone option) \<Rightarrow> automation \<Rightarrow> instant
     \<Rightarrow> exn + (schedule_point \<times> schedule_point option \<times> bool)" where
  "latest_due_and_future zones a t =
    (case au_next_occurrence_at a of
       None \<Rightarrow> Inl SchedulerValidationError
     | Some scheduled \<Rightarrow>
        (case scheduled_point zones a scheduled of
           Inl e \<Rightarrow> Inl e
         | Inr p \<Rightarrow>
            (case latest_loop zones (automation_definition a) t 1000000 p of
               Inl e \<Rightarrow> Inl e
             | Inr (latest, following) \<Rightarrow>
                 Inr (latest, following, sp_utc_instant p < t - MAX_LOOKBACK))))"

definition missed :: "automation \<Rightarrow> bool" where
  "missed a \<longleftrightarrow> au_missed_run_policy a = ''skip''"

definition disposition_of :: "automation \<Rightarrow> bool \<Rightarrow> string option" where
  "disposition_of a older =
    (if missed a then Some (if older then ''missed_lookback_bounded'' else ''missed_skipped'') else None)"

text \<open>Insert in a savepoint; after a conflict the slot is looked up once more.\<close>

definition find_or_insert ::
  "('a automation_db_scheme \<Rightarrow> 'a automation_db_scheme) \<Rightarrow> automation \<Rightarrow> schedule_point \<Rightarrow> bool \<Rightarrow> instant
     \<Rightarrow> 'a automation_db_scheme \<Rightarrow> ('a automation_db_scheme, occurrence) outcome" where
  "find_or_insert other a p older t s0 =
    (let slot = (\<lambda>s. get_occurrence_by_slot s (au_id a) (au_schedule_revision a) (sp_utc_instant p)) in
     case slot s0 of
       Some oc \<Rightarrow> (Inr oc, s0)
     | None \<Rightarrow>
        let s = other s0 in
        (case insert_automation_occurrence
            (new_occurrence a p t (if missed a then OC_MISSED else OC_DUE) (disposition_of a older)) s of
           (Inl e, s') \<Rightarrow>
             if e = IntegrityError then (case slot s of None \<Rightarrow> (Inl IntegrityError, s) | Some oc \<Rightarrow> (Inr oc, s))
             else (Inl e, s')
         | (Inr oc, s') \<Rightarrow> (Inr oc, s')))"

definition materialize_one ::
  "(string \<Rightarrow> time_zone option) \<Rightarrow> ('a automation_db_scheme \<Rightarrow> 'a automation_db_scheme) \<Rightarrow> instant
     \<Rightarrow> automation \<Rightarrow> 'a automation_db_scheme \<Rightarrow> ('a automation_db_scheme, occurrence) outcome" where
  "materialize_one zones other t a s =
    (case latest_due_and_future zones a t of
       Inl e \<Rightarrow> (Inl e, s)
     | Inr (p, following, older) \<Rightarrow>
        andThen (find_or_insert other a p older t s) (\<lambda>oc s1.
          let s2 = upd_automation (au_id a) (set_next (map_option sp_utc_instant following)) s1 in
          andThen (if missed a then notify oc ''occurrence_missed'' ''warning''
                     (case disposition_of a older of Some c \<Rightarrow> c | None \<Rightarrow> ''missed_skipped'') t s2
                   else (Inr (), s2))
            (\<lambda>_ s3. (Inr oc, s3))))"

fun materialize_all ::
  "(string \<Rightarrow> time_zone option) \<Rightarrow> ('a automation_db_scheme \<Rightarrow> 'a automation_db_scheme) \<Rightarrow> instant
     \<Rightarrow> automation list \<Rightarrow> 'a automation_db_scheme \<Rightarrow> ('a automation_db_scheme, occurrence list) outcome" where
  "materialize_all zones other t [] s = (Inr [], s)"
| "materialize_all zones other t (a # as) s =
    andThen (materialize_one zones other t a s) (\<lambda>oc s1.
    andThen (materialize_all zones other t as s1) (\<lambda>ocs s2. (Inr (oc # ocs), s2)))"

definition materialize_due ::
  "(string \<Rightarrow> time_zone option) \<Rightarrow> (uuid \<Rightarrow> bool) \<Rightarrow> ('a automation_db_scheme \<Rightarrow> 'a automation_db_scheme)
     \<Rightarrow> instant \<Rightarrow> int \<Rightarrow> 'a automation_db_scheme \<Rightarrow> ('a automation_db_scheme, occurrence list) outcome" where
  "materialize_due zones busy other t limit s =
    (case batch_limit limit of
       Inl e \<Rightarrow> (Inl e, s)
     | Inr n \<Rightarrow> materialize_all zones other t (lock_due_automations s busy t n) s)"

section \<open>Claims and leases\<close>

definition claim_row :: "uuid \<Rightarrow> int \<Rightarrow> instant \<Rightarrow> occurrence \<Rightarrow> occurrence" where
  "claim_row owner d t oc = oc\<lparr>
     oc_state := OC_CLAIMED, oc_revision := oc_revision oc + 1, oc_claimed_at := Some t,
     oc_lease_owner_token := Some owner, oc_lease_generation := oc_lease_generation oc + 1,
     oc_lease_expires_at := Some (t + d), oc_last_renewed_at := Some t\<rparr>"

definition reclaim_row :: "uuid \<Rightarrow> int \<Rightarrow> instant \<Rightarrow> occurrence \<Rightarrow> occurrence" where
  "reclaim_row owner d t oc = oc\<lparr>
     oc_lease_owner_token := Some owner, oc_lease_generation := oc_lease_generation oc + 1,
     oc_lease_expires_at := Some (t + d), oc_last_renewed_at := Some t,
     oc_revision := oc_revision oc + 1\<rparr>"

definition claim_of :: "uuid \<Rightarrow> occurrence \<Rightarrow> occurrence_claim" where
  "claim_of owner oc =
     \<lparr> cl_occurrence_id = oc_id oc, cl_automation_id = oc_automation_id oc, cl_owner_token = owner,
       cl_lease_generation = oc_lease_generation oc \<rparr>"

fun claim_rows ::
  "(occurrence \<Rightarrow> occurrence) \<Rightarrow> uuid \<Rightarrow> occurrence list \<Rightarrow> 'a automation_db_scheme
     \<Rightarrow> ('a automation_db_scheme, occurrence_claim list) outcome" where
  "claim_rows f owner [] s = (Inr [], s)"
| "claim_rows f owner (oc # ocs) s =
    andThen (flush_occurrence (oc_id oc) f s) (\<lambda>oc' s1.
    andThen (claim_rows f owner ocs s1) (\<lambda>cs s2. (Inr (claim_of owner oc' # cs), s2)))"

definition claim_due ::
  "(uuid \<Rightarrow> bool) \<Rightarrow> instant \<Rightarrow> uuid \<Rightarrow> int \<Rightarrow> int \<Rightarrow> 'a automation_db_scheme
     \<Rightarrow> ('a automation_db_scheme, occurrence_claim list) outcome" where
  "claim_due busy t owner lease limit s =
    (case lease_duration lease of
       Inl e \<Rightarrow> (Inl e, s)
     | Inr d \<Rightarrow>
        let available = MAX_ACTIVE_OCCURRENCES - count_occurrences_in_states s [OC_CLAIMED, OC_RUN_CREATED] in
        if available = 0 then (Inr [], s)
        else (case batch_limit limit of
           Inl e \<Rightarrow> (Inl e, s)
         | Inr n \<Rightarrow> claim_rows (claim_row owner d t) owner
                      (lock_claimable_occurrences s busy t (min n available)) s))"

definition reclaim_expired ::
  "(uuid \<Rightarrow> bool) \<Rightarrow> instant \<Rightarrow> uuid \<Rightarrow> int \<Rightarrow> int \<Rightarrow> 'a automation_db_scheme
     \<Rightarrow> ('a automation_db_scheme, occurrence_claim list) outcome" where
  "reclaim_expired busy t owner lease limit s =
    (case lease_duration lease of
       Inl e \<Rightarrow> (Inl e, s)
     | Inr d \<Rightarrow>
        (case batch_limit limit of
           Inl e \<Rightarrow> (Inl e, s)
         | Inr n \<Rightarrow> claim_rows (reclaim_row owner d t) owner
                      (filter (\<lambda>oc. oc_agent_run_id oc = None) (lock_expired_claims s busy t n)) s))"

definition validate_claim ::
  "automation \<Rightarrow> occurrence \<Rightarrow> occurrence_claim \<Rightarrow> instant \<Rightarrow> exn + unit" where
  "validate_claim a oc c t =
    (if oc_automation_id oc \<noteq> cl_automation_id c \<or> oc_state oc \<noteq> OC_CLAIMED \<or>
        oc_lease_owner_token oc \<noteq> Some (cl_owner_token c) \<or>
        oc_lease_generation oc \<noteq> cl_lease_generation c \<or>
        (case oc_lease_expires_at oc of None \<Rightarrow> True | Some u \<Rightarrow> u \<le> t)
       then Inl ClaimFenceError
     else if au_lifecycle a \<noteq> LC_ENABLED \<or> au_revision a \<noteq> oc_automation_revision oc \<or>
        au_schedule_revision a \<noteq> oc_schedule_revision oc \<or> au_project_id a \<noteq> oc_project_id oc \<or>
        au_automation_kind a \<noteq> oc_automation_kind oc \<or> au_agent_kind a \<noteq> oc_agent_kind oc \<or>
        au_agent_version a \<noteq> oc_agent_version oc \<or> au_execution_mode a \<noteq> oc_execution_mode oc
       then Inl ClaimFenceError
     else Inr ())"

definition renew_claim ::
  "occurrence_claim \<Rightarrow> instant \<Rightarrow> int \<Rightarrow> 'a automation_db_scheme
     \<Rightarrow> ('a automation_db_scheme, occurrence_claim) outcome" where
  "renew_claim c t lease s =
    (case lease_duration lease of
       Inl e \<Rightarrow> (Inl e, s)
     | Inr d \<Rightarrow>
        (case (get_automation s (cl_automation_id c), lock_occurrence s (cl_occurrence_id c)) of
           (Some a, Some oc) \<Rightarrow>
             (case validate_claim a oc c t of
                Inl e \<Rightarrow> (Inl e, s)
              | Inr _ \<Rightarrow> andThen (flush_occurrence (oc_id oc) (\<lambda>x. x\<lparr>oc_lease_expires_at := Some (t + d),
                    oc_last_renewed_at := Some t, oc_revision := oc_revision x + 1\<rparr>) s)
                  (\<lambda>_ s'. (Inr c, s')))
         | _ \<Rightarrow> (Inl ClaimFenceError, s)))"

section \<open>Reconciliation with the linked Run\<close>

definition fail_row :: "string \<Rightarrow> string \<Rightarrow> instant \<Rightarrow> occurrence \<Rightarrow> occurrence" where
  "fail_row code disposition t oc = oc\<lparr>
     oc_state := OC_FAILED, oc_safe_error_code := Some code, oc_safe_disposition_code := Some disposition,
     oc_completed_at := Some t, oc_revision := oc_revision oc + 1\<rparr>"

definition complete_row :: "instant \<Rightarrow> occurrence \<Rightarrow> occurrence" where
  "complete_row t oc = oc\<lparr>
     oc_state := OC_COMPLETED, oc_safe_disposition_code := Some ''run_completed'',
     oc_safe_error_code := None, oc_completed_at := Some t, oc_revision := oc_revision oc + 1\<rparr>"

definition link_row :: "occurrence \<Rightarrow> occurrence" where
  "link_row oc = oc\<lparr>oc_state := OC_RUN_CREATED, oc_safe_disposition_code := Some ''run_created'',
     oc_revision := oc_revision oc + 1\<rparr>"

text \<open>\<open>get_result\<close> of the Daily Brief and Project Watch services is the latest result event.\<close>

definition has_result :: "'a agent_db_scheme \<Rightarrow> agent_run \<Rightarrow> bool" where
  "has_result s run \<longleftrightarrow>
    (if (r_agent_kind run, r_agent_version run) = (''daily_brief'', ''1'')
       then list_ex (\<lambda>e. ev_type e = ''daily_brief.result'') (run_events s (r_id run))
     else if (r_agent_kind run, r_agent_version run) = (''project_watch'', ''1'')
       then list_ex (\<lambda>e. ev_type e = ''project_watch.result'') (run_events s (r_id run))
     else False)"

definition reconcile_one ::
  "instant \<Rightarrow> occurrence \<Rightarrow> 'a automation_db_scheme \<Rightarrow> ('a automation_db_scheme, uuid) outcome" where
  "reconcile_one t oc s =
    (let i = oc_id oc; reported = (\<lambda>_ s'. (Inr i, s')) in
     case Option.bind (oc_agent_run_id oc) (get_agent_run s) of
       None \<Rightarrow>
         andThen (flush_occurrence i (fail_row ''linked_run_missing'' ''operator_review_required'' t) s)
           (\<lambda>oc' s1. andThen (notify oc' ''occurrence_failed'' ''error'' ''linked_run_missing'' t s1) reported)
     | Some run \<Rightarrow>
         let code = ''run_'' @ state_value (r_state run) in
         if r_state run = COMPLETED then
           andThen (flush_occurrence i (complete_row t) s) (\<lambda>oc' s1.
             andThen (if has_result s1 run
                      then notify oc' ''run_completed'' ''info'' ''run_completed'' t s1 else (Inr (), s1))
               reported)
         else if r_state run \<in> {FAILED, CANCELLED, EXPIRED} then
           andThen (flush_occurrence i (fail_row code code t) s) (\<lambda>oc' s1.
             andThen (notify oc' ''occurrence_failed'' ''error'' code t s1) reported)
         else if oc_state oc = OC_CLAIMED then
           andThen (flush_occurrence i link_row s) (\<lambda>_ s1. (Inr i, s1))
         else (Inr i, s))"

fun reconcile_all ::
  "instant \<Rightarrow> occurrence list \<Rightarrow> 'a automation_db_scheme \<Rightarrow> ('a automation_db_scheme, uuid list) outcome" where
  "reconcile_all t [] s = (Inr [], s)"
| "reconcile_all t (oc # ocs) s =
    andThen (reconcile_one t oc s) (\<lambda>i s1.
    andThen (reconcile_all t ocs s1) (\<lambda>is s2. (Inr (i # is), s2)))"

definition reconcile_linked ::
  "(uuid \<Rightarrow> bool) \<Rightarrow> instant \<Rightarrow> int \<Rightarrow> 'a automation_db_scheme
     \<Rightarrow> ('a automation_db_scheme, uuid list) outcome" where
  "reconcile_linked busy t limit s =
    (case batch_limit limit of
       Inl e \<Rightarrow> (Inl e, s)
     | Inr n \<Rightarrow> reconcile_all t (lock_linked_occurrences s busy n) s)"

section \<open>Retries and safe failure\<close>

definition retry_delay :: "uuid \<Rightarrow> int \<Rightarrow> int" where
  "retry_delay oid attempt =
    (let limit = MAX_RETRY_DELAY div seconds 1;
         base = min (5 * 2 ^ nat (max 0 (attempt - 1))) limit;
         jitter = (int oid + attempt) mod 5
     in seconds (min (base + jitter) limit))"

fun is_retryable_setup_error :: "exn \<Rightarrow> bool" where
  "is_retryable_setup_error OperationalError = True"
| "is_retryable_setup_error (DBAPIError code) = (code \<in> {''40001'', ''40P01''})"
| "is_retryable_setup_error e = False"

definition defer_row :: "string \<Rightarrow> int \<Rightarrow> instant \<Rightarrow> occurrence \<Rightarrow> occurrence" where
  "defer_row disposition attempt t oc = oc\<lparr>
     oc_state := OC_DUE, oc_retry_not_before := Some (t + retry_delay (oc_id oc) attempt),
     oc_lease_owner_token := None, oc_lease_expires_at := None, oc_last_renewed_at := None,
     oc_safe_disposition_code := Some disposition, oc_revision := oc_revision oc + 1\<rparr>"

definition count_attempt :: "occurrence \<Rightarrow> occurrence" where
  "count_attempt oc = oc\<lparr>oc_attempt_count := oc_attempt_count oc + 1\<rparr>"

definition close_retries :: "occurrence \<Rightarrow> occurrence" where
  "close_retries oc = oc\<lparr>oc_retry_not_before := None\<rparr>"

definition defer_setup ::
  "uuid \<Rightarrow> instant \<Rightarrow> bool \<Rightarrow> 'a automation_db_scheme \<Rightarrow> ('a automation_db_scheme, bool) outcome" where
  "defer_setup oid t capacity s =
    (case lock_occurrence s oid of
       None \<Rightarrow> (Inl AmbiguousSchedulerOutcomeError, s)
     | Some oc \<Rightarrow>
        if oc_agent_run_id oc \<noteq> None then (Inl AmbiguousSchedulerOutcomeError, s)
        else (case get_automation s (oc_automation_id oc) of
           None \<Rightarrow> (Inl AmbiguousSchedulerOutcomeError, s)
         | Some a \<Rightarrow>
            if oc_state oc \<noteq> OC_CLAIMED then (Inl AmbiguousSchedulerOutcomeError, s)
            else if capacity then
              andThen (flush_occurrence oid (defer_row ''capacity_deferred'' 1 t) s) (\<lambda>oc' s1.
                andThen (if oc_safe_disposition_code oc = Some ''capacity_deferred''
                         then notify oc' ''capacity_delayed'' ''warning'' ''capacity_deferred'' t s1
                         else (Inr (), s1))
                  (\<lambda>_ s2. (Inr True, s2)))
            else
              let attempts = oc_attempt_count oc + 1 in
              if attempts \<ge> min (au_retry_limit a) MAX_SETUP_ATTEMPTS then
                andThen (flush_occurrence oid (fail_row ''setup_retry_exhausted'' ''operator_review_required'' t
                    \<circ> close_retries \<circ> count_attempt) s) (\<lambda>oc' s1.
                  andThen (notify oc' ''retry_exhausted'' ''error'' ''setup_retry_exhausted'' t s1)
                    (\<lambda>_ s2. (Inr False, s2)))
              else
                andThen (flush_occurrence oid (defer_row ''setup_retry_deferred'' attempts t \<circ> count_attempt) s)
                  (\<lambda>_ s1. (Inr True, s1))))"

definition fail_closed ::
  "uuid \<Rightarrow> instant \<Rightarrow> string \<Rightarrow> 'a automation_db_scheme \<Rightarrow> ('a automation_db_scheme, unit) outcome" where
  "fail_closed oid t code s =
    (case lock_occurrence s oid of
       None \<Rightarrow> (Inl AmbiguousSchedulerOutcomeError, s)
     | Some oc \<Rightarrow>
        if oc_agent_run_id oc \<noteq> None then (Inl AmbiguousSchedulerOutcomeError, s)
        else if terminal_occurrence (oc_state oc) then (Inr (), s)
        else
          andThen (flush_occurrence oid (fail_row code ''operator_review_required'' t \<circ> close_retries) s)
            (\<lambda>oc' s1. notify oc' ''occurrence_failed'' ''error'' code t s1))"

section \<open>Creating and linking the Run\<close>

definition run_request :: "occurrence \<Rightarrow> agent_run_create" where
  "run_request oc =
     \<lparr> rc_project_id = oc_project_id oc, rc_agent_kind = oc_agent_kind oc,
       rc_agent_version = oc_agent_version oc,
       rc_goal_summary =
         (if (oc_agent_kind oc, oc_agent_version oc) = (''daily_brief'', ''1'') then
            ''Produce Daily Brief v1 from reviewed local knowledge for '' @
            (if oc_project_id oc \<noteq> None then ''the exact captured Project''
             else ''the explicitly unassigned scope'') @
            ''. Use only captured, version-validated evidence and return '' @
            ''an evidence-cited bounded brief or insufficient evidence.''
          else if (oc_agent_kind oc, oc_agent_version oc) = (''project_watch'', ''1'') then
            ''Inspect meaningful reviewed local changes for the exact captured Project '' @
            ''within the application-derived Project Watch v1 window. Use only '' @
            ''captured, version-validated evidence and return cited changes or '' @
            ''no meaningful change.''
          else ''Scheduled '' @ oc_agent_kind oc @ '': '' @ oc_automation_label oc) \<rparr>"

definition run_key :: "occurrence \<Rightarrow> string" where
  "run_key oc = ''automation-occurrence:'' @ uuid_text (oc_id oc) @ '':'' @ oc_occurrence_key oc"

definition mode_supported :: "occurrence \<Rightarrow> bool" where
  "mode_supported oc \<longleftrightarrow>
    (if oc_execution_mode oc = ''automatic_read_only''
     then unattended (get_automatic_agent_definition (oc_agent_kind oc) (oc_agent_version oc))
     else oc_execution_mode oc = ''create_only'')"

definition scope_available :: "'a automation_db_scheme \<Rightarrow> occurrence \<Rightarrow> bool" where
  "scope_available s oc \<longleftrightarrow>
    (case get_schedulable_agent (oc_agent_kind oc) (oc_agent_version oc) of
       None \<Rightarrow> False
     | Some entry \<Rightarrow> \<not> (sa_project_required entry \<and> oc_project_id oc = None)) \<and>
    (case oc_project_id oc of None \<Rightarrow> True | Some p \<Rightarrow> get_project s p \<noteq> None)"

definition link_run ::
  "occurrence \<Rightarrow> agent_run \<times> bool \<Rightarrow> 'a automation_db_scheme
     \<Rightarrow> ('a automation_db_scheme, uuid \<times> bool) outcome" where
  "link_run oc res s =
    (let (run, created) = res in
     if oc_agent_run_id oc \<noteq> None \<and> oc_agent_run_id oc \<noteq> Some (r_id run)
       then (Inl SchedulerValidationError, s)
     else andThen (flush_occurrence (oc_id oc) (link_row \<circ> (\<lambda>x. x\<lparr>oc_agent_run_id := Some (r_id run)\<rparr>)) s)
            (\<lambda>_ s1. (Inr (r_id run, created), s1)))"

definition create_and_link_run ::
  "(string \<Rightarrow> string) \<Rightarrow> ('a automation_db_scheme \<Rightarrow> 'a automation_db_scheme) \<Rightarrow> occurrence_claim \<Rightarrow> instant
     \<Rightarrow> 'a automation_db_scheme \<Rightarrow> ('a automation_db_scheme, uuid \<times> bool) outcome" where
  "create_and_link_run sha other c t s =
    (case (get_automation s (cl_automation_id c), lock_occurrence s (cl_occurrence_id c)) of
       (Some a, Some oc) \<Rightarrow>
        let rq = run_request oc; key = hash_idempotency_key sha (run_key oc);
            fp = normalized_request_fingerprint sha rq in
        if oc_state oc = OC_RUN_CREATED \<and> oc_agent_run_id oc \<noteq> None then
          (case resolve_create_replay s key fp of
             Inl e \<Rightarrow> (Inl e, s)
           | Inr None \<Rightarrow> (Inl SchedulerValidationError, s)
           | Inr (Some (run, _)) \<Rightarrow>
               if Some (r_id run) \<noteq> oc_agent_run_id oc then (Inl SchedulerValidationError, s)
               else (Inr (r_id run, False), s))
        else
          (case validate_claim a oc c t of
             Inl e \<Rightarrow> (Inl e, s)
           | Inr _ \<Rightarrow>
               if \<not> mode_supported oc then (Inl ExecutionModeUnsupportedError, s)
               else if \<not> scope_available s oc then (Inl SchedulerValidationError, s)
               else andThen (create_run other rq key fp t s) (link_run oc))
     | _ \<Rightarrow> (Inl ClaimFenceError, s))"

end
