(* ===== verification/Automation_Invariants.thy ===== *)
theory Automation_Invariants
  imports Automation_Scheduler Run_Properties
begin

text \<open>
  The contract between the scheduler's operations and the facts that survive them: every write of an
  occurrence is a move along the occurrence lifecycle that keeps its captured snapshot, so a fact
  that such writes keep is kept by materialization, claims, renewals, reclaims, reconciliation,
  deferrals, failures and Run linking, proved once here.
\<close>

section \<open>The occurrence lifecycle\<close>

fun occurrence_edge :: "occurrence_state \<Rightarrow> occurrence_state \<Rightarrow> bool" where
  "occurrence_edge OC_DUE b = (b \<in> {OC_CLAIMED, OC_FAILED})"
| "occurrence_edge OC_CLAIMED b = (b \<in> {OC_CLAIMED, OC_RUN_CREATED, OC_DUE, OC_FAILED, OC_COMPLETED})"
| "occurrence_edge OC_RUN_CREATED b = (b \<in> {OC_COMPLETED, OC_FAILED})"
| "occurrence_edge a b = False"

interpretation occurrence_lifecycle: lifecycle occurrence_edge terminal_occurrence
  by unfold_locales (auto simp: terminal_occurrence_def)

text \<open>What an occurrence captured when it was materialized; no operation changes it.\<close>

definition snapshot :: "occurrence \<Rightarrow> occurrence" where
  "snapshot oc = oc\<lparr>
     oc_state := OC_DUE, oc_revision := 0, oc_agent_run_id := None, oc_safe_disposition_code := None,
     oc_safe_error_code := None, oc_attempt_count := 0, oc_retry_not_before := None,
     oc_claimed_at := None, oc_completed_at := None, oc_lease_owner_token := None,
     oc_lease_generation := 0, oc_lease_expires_at := None, oc_last_renewed_at := None\<rparr>"

definition occurrence_move :: "occurrence \<Rightarrow> occurrence \<Rightarrow> bool" where
  "occurrence_move x y \<longleftrightarrow>
     snapshot y = snapshot x \<and> occurrence_edge (oc_state x) (oc_state y) \<and>
     oc_revision y = oc_revision x + 1 \<and> oc_lease_generation x \<le> oc_lease_generation y \<and>
     (oc_agent_run_id x \<noteq> None \<longrightarrow> oc_agent_run_id y = oc_agent_run_id x)"

lemma snapshot_id: "snapshot y = snapshot x \<Longrightarrow> oc_id y = oc_id x"
  by (cases x, cases y) (simp add: snapshot_def)

lemma snapshot_slot:
  "snapshot y = snapshot x \<Longrightarrow> oc_automation_id y = oc_automation_id x \<and>
     oc_schedule_revision y = oc_schedule_revision x \<and> oc_scheduled_at y = oc_scheduled_at x \<and>
     oc_occurrence_key y = oc_occurrence_key x \<and> oc_automation_revision y = oc_automation_revision x"
  by (cases x, cases y) (simp add: snapshot_def)

lemma moves:
  "oc_state x = OC_DUE \<Longrightarrow> occurrence_move x (claim_row owner d t x)"
  "oc_state x = OC_CLAIMED \<Longrightarrow> occurrence_move x (reclaim_row owner d t x)"
  "oc_state x = OC_CLAIMED \<Longrightarrow> occurrence_move x (x\<lparr>oc_lease_expires_at := e,
     oc_last_renewed_at := r, oc_revision := oc_revision x + 1\<rparr>)"
  "\<not> terminal_occurrence (oc_state x) \<Longrightarrow> occurrence_move x (fail_row code disposition t x)"
  "\<not> terminal_occurrence (oc_state x) \<Longrightarrow> occurrence_move x (fail_row code disposition t (close_retries x))"
  "\<not> terminal_occurrence (oc_state x) \<Longrightarrow>
     occurrence_move x (fail_row code disposition t (close_retries (count_attempt x)))"
  "oc_state x \<in> {OC_CLAIMED, OC_RUN_CREATED} \<Longrightarrow> occurrence_move x (complete_row t x)"
  "oc_state x = OC_CLAIMED \<Longrightarrow> occurrence_move x (link_row x)"
  "oc_state x = OC_CLAIMED \<Longrightarrow> oc_agent_run_id x \<in> {None, Some i} \<Longrightarrow>
     occurrence_move x (link_row (x\<lparr>oc_agent_run_id := Some i\<rparr>))"
  "oc_state x = OC_CLAIMED \<Longrightarrow> occurrence_move x (defer_row disposition n t x)"
  "oc_state x = OC_CLAIMED \<Longrightarrow> occurrence_move x (defer_row disposition n t (count_attempt x))"
  by (cases "oc_state x"; auto simp: occurrence_move_def snapshot_def claim_row_def reclaim_row_def
      fail_row_def close_retries_def count_attempt_def complete_row_def link_row_def defer_row_def
      terminal_occurrence_def)+

text \<open>Only \<open>claim_due\<close> moves an occurrence from due to claimed.\<close>

definition claims_work :: "occurrence \<Rightarrow> occurrence \<Rightarrow> bool" where
  "claims_work x y \<longleftrightarrow> oc_state x = OC_DUE \<and> oc_state y = OC_CLAIMED"

section \<open>The write interface of the scheduler\<close>

locale occurrence_invariant =
  fixes I :: "'a automation_db_scheme \<Rightarrow> bool"
  assumes distinct_ids: "I s \<Longrightarrow> distinct (map oc_id (db_occurrences s))"
    and write_move: "I s \<Longrightarrow> lock_occurrence s i = Some x \<Longrightarrow> (\<And>y. snapshot (f y) = snapshot y) \<Longrightarrow>
      occurrence_move x (f x) \<Longrightarrow> \<not> claims_work x (f x) \<Longrightarrow> I (upd_occurrence i f s)"
    and write_occurrence: "I s \<Longrightarrow> oc_state x \<in> {OC_DUE, OC_MISSED} \<Longrightarrow>
      I (snd (insert_automation_occurrence x s))"
    and write_notification: "I s \<Longrightarrow> I (snd (insert_automation_notification n s))"
    and write_next: "I s \<Longrightarrow> I (upd_automation j (set_next u) s)"
    and write_run: "I s \<Longrightarrow> (\<And>s. I s \<Longrightarrow> I (other s)) \<Longrightarrow> I (snd (create_run other rq key fp t s))"
begin

lemma write_then:
  "I (snd m) \<Longrightarrow> (\<And>a s'. m = (Inr a, s') \<Longrightarrow> I s' \<Longrightarrow> I (snd (k a s'))) \<Longrightarrow> I (snd (andThen m k))"
  by (auto simp: andThen_def split: prod.splits sum.splits)

lemma notify_keeps: "I s \<Longrightarrow> I (snd (notify oc event_kind severity code t s))"
  using write_notification [of s]
  by (auto simp: notify_def split: sum.splits prod.splits) (metis snd_conv)+

lemma flush_keeps:
  assumes "I s" and "\<And>y. snapshot (f y) = snapshot y"
    and "\<And>x. lock_occurrence s i = Some x \<Longrightarrow> occurrence_move x (f x) \<and> \<not> claims_work x (f x)"
  shows "I (snd (flush_occurrence i f s))"
  using assms write_move [of s i _ f]
  by (auto simp: flush_occurrence_def split: option.splits)

end

lemma snapshot_rows [simp]:
  "snapshot (claim_row owner d t y) = snapshot y" "snapshot (reclaim_row owner d t y) = snapshot y"
  "snapshot (fail_row code disposition t y) = snapshot y" "snapshot (complete_row t y) = snapshot y"
  "snapshot (link_row y) = snapshot y" "snapshot (defer_row disposition n t y) = snapshot y"
  "snapshot (count_attempt y) = snapshot y" "snapshot (close_retries y) = snapshot y"
  "snapshot (y\<lparr>oc_agent_run_id := r\<rparr>) = snapshot y"
  "snapshot (y\<lparr>oc_lease_expires_at := e, oc_last_renewed_at := u, oc_revision := k\<rparr>) = snapshot y"
  by (simp_all add: snapshot_def claim_row_def reclaim_row_def fail_row_def complete_row_def link_row_def
      defer_row_def count_attempt_def close_retries_def)

lemma row_states [simp]:
  "oc_state (claim_row owner d t y) = OC_CLAIMED" "oc_state (reclaim_row owner d t y) = oc_state y"
  "oc_state (fail_row code disposition t y) = OC_FAILED" "oc_state (complete_row t y) = OC_COMPLETED"
  "oc_state (link_row y) = OC_RUN_CREATED" "oc_state (defer_row disposition n t y) = OC_DUE"
  "oc_state (count_attempt y) = oc_state y" "oc_state (close_retries y) = oc_state y"
  by (simp_all add: claim_row_def reclaim_row_def fail_row_def complete_row_def link_row_def
      defer_row_def count_attempt_def close_retries_def)

lemma flush_occurrence_rows:
  assumes "\<And>y. snapshot (f y) = snapshot y"
  shows "lock_occurrence (snd (flush_occurrence i f s)) j = lock_occurrence s j \<or>
     j = i \<and> (\<exists>x. lock_occurrence s i = Some x \<and> lock_occurrence (snd (flush_occurrence i f s)) i = Some (f x))"
  using assms occurrences.get_upd [of f i s j] snapshot_id [of "f _" "_"]
  by (auto simp: flush_occurrence_def split: option.splits)

lemma flush_occurrence_OK:
  assumes "flush_occurrence i f s = (Inr oc', s')"
  obtains x where "lock_occurrence s i = Some x" "oc' = f x" "s' = upd_occurrence i f s"
    "occurrence_checks (f x)"
  using assms by (auto simp: flush_occurrence_def split: option.splits if_splits)

lemma notify_occurrences [simp]:
  "lock_occurrence (snd (notify oc event_kind severity code t s)) i = lock_occurrence s i"
  by (auto simp: notify_def insert_automation_notification_def uuid4_def lock_occurrence_def
      add_notification_def Let_def split: option.splits sum.splits prod.splits if_splits)

text \<open>A selection from the table: distinct rows as they are stored.\<close>

definition selected :: "'a automation_db_scheme \<Rightarrow> occurrence list \<Rightarrow> bool" where
  "selected s ocs \<longleftrightarrow> distinct (map oc_id ocs) \<and> (\<forall>oc \<in> set ocs. lock_occurrence s (oc_id oc) = Some oc)"

lemma distinct_map_filter_key: "distinct (map k xs) \<Longrightarrow> distinct (map k (filter P xs))"
  by (induction xs) auto

lemma distinct_map_take: "distinct (map k xs) \<Longrightarrow> distinct (map k (take n xs))"
  by (metis distinct_take take_map)

lemma distinct_map_sort: "distinct (map k xs) \<Longrightarrow> distinct (map k (sort_key g xs))"
  by (metis distinct_map distinct_sort set_sort)

lemma selected_query:
  assumes "distinct (map oc_id (db_occurrences s))"
  shows "selected s (take n (filter P (sort_key k (filter Q (db_occurrences s)))))"
proof -
  let ?q = "take n (filter P (sort_key k (filter Q (db_occurrences s))))"
  have "distinct (map oc_id ?q)"
    by (intro distinct_map_take distinct_map_filter_key distinct_map_sort assms)
  moreover have "lock_occurrence s (oc_id x) = Some x" if "x \<in> set ?q" for x
  proof -
    have "x \<in> set (db_occurrences s)" using in_set_takeD [OF that] by simp
    then show ?thesis unfolding lock_occurrence_def by (rule row_get_distinct [OF assms])
  qed
  ultimately show ?thesis by (simp add: selected_def)
qed

lemma selected_filter: "selected s ocs \<Longrightarrow> selected s (filter P ocs)"
  by (auto simp: selected_def intro: distinct_map_filter_key)

lemma flush_occurrence_frame:
  assumes "\<And>y. snapshot (f y) = snapshot y" and "j \<noteq> i"
  shows "lock_occurrence (snd (flush_occurrence i f s)) j = lock_occurrence s j"
  using flush_occurrence_rows [of f i s j, OF assms(1)] assms(2) by blast

lemma selected_other: "selected s (oc # ocs) \<Longrightarrow> x \<in> set ocs \<Longrightarrow> oc_id x \<noteq> oc_id oc"
  by (force simp: selected_def)

lemma selected_Cons:
  assumes "selected s (oc # ocs)" and "\<And>j. j \<noteq> oc_id oc \<Longrightarrow> lock_occurrence s' j = lock_occurrence s j"
  shows "selected s' ocs"
proof -
  have "lock_occurrence s' (oc_id x) = Some x" if "x \<in> set ocs" for x
    using assms(2) [OF selected_other [OF assms(1) that]] assms(1) that by (simp add: selected_def)
  then show ?thesis using assms(1) by (simp add: selected_def)
qed

lemma selected_flush:
  assumes "selected s (oc # ocs)" and "\<And>y. snapshot (f y) = snapshot y"
  shows "selected (snd (flush_occurrence (oc_id oc) f s)) ocs"
  by (rule selected_Cons [OF assms(1)]) (rule flush_occurrence_frame [OF assms(2)])

lemma reconcile_one_frame:
  assumes "j \<noteq> oc_id oc"
  shows "lock_occurrence (snd (reconcile_one t oc s)) j = lock_occurrence s j"
proof -
  let ?F = "\<lambda>u. lock_occurrence u j"
  have frame: "?F (snd (andThen (flush_occurrence (oc_id oc) f s) k)) = ?F s"
    if "\<And>y. snapshot (f y) = snapshot y" "\<And>x u. ?F (snd (k x u)) = ?F u" for f k
    using andThen_frame [of ?F k, OF that(2)] flush_occurrence_frame [OF that(1) assms] by simp
  have after: "?F (snd (andThen (notify oc' event_kind severity code t u) (\<lambda>_ u'. (Inr r, u')))) = ?F u"
    "?F (snd (andThen (if p then notify oc' event_kind severity code t u else (Inr (), u)) (\<lambda>_ u'. (Inr r, u')))) = ?F u"
    for oc' event_kind severity code u p and r :: uuid
    by (rule trans [OF andThen_frame]; simp)+
  show ?thesis unfolding reconcile_one_def Let_def
    by (simp add: frame after split: option.split)
qed

section \<open>Facts kept by the operations\<close>

context occurrence_invariant begin

lemma find_or_insert_keeps:
  assumes "I s" and "I (other s)"
  shows "I (snd (find_or_insert other a p older t s))"
proof -
  let ?n = "new_occurrence a p t (if missed a then OC_MISSED else OC_DUE) (disposition_of a older)"
  obtain r u where ins: "insert_automation_occurrence ?n (other s) = (r, u)" by fastforce
  have "I u" using write_occurrence [OF assms(2), of ?n] ins by (simp add: new_occurrence_def)
  then show ?thesis using assms ins
    by (cases r; cases "missed a") (simp_all add: find_or_insert_def Let_def split: option.split)
qed

lemma materialize_one_keeps:
  assumes "I s" and "I (other s)"
  shows "I (snd (materialize_one zones other t a s))"
proof (cases "latest_due_and_future zones a t")
  case (Inl e)
  then show ?thesis using assms by (simp add: materialize_one_def)
next
  case (Inr r)
  obtain p following older where r: "r = (p, following, older)" by (cases r)
  show ?thesis
    unfolding materialize_one_def Inr r sum.case prod.case Let_def
    by (rule write_then [OF find_or_insert_keeps [of _ other]], (rule assms)+, rule write_then)
      (simp_all add: notify_keeps write_next)
qed

lemma materialize_all_keeps:
  assumes "\<And>s. I s \<Longrightarrow> I (other s)"
  shows "I s \<Longrightarrow> I (snd (materialize_all zones other t as s))"
proof (induction as arbitrary: s)
  case (Cons a as)
  have "I (snd (materialize_one zones other t a s))"
    by (rule materialize_one_keeps) (simp_all add: Cons.prems assms)
  then show ?case unfolding materialize_all.simps
    by (rule write_then, intro write_then) (simp_all add: Cons.IH)
qed simp

lemma materialize_due_keeps:
  assumes "I s" and "\<And>s. I s \<Longrightarrow> I (other s)"
  shows "I (snd (materialize_due zones busy other t limit s))"
  using assms(1) materialize_all_keeps [of other, OF assms(2)]
  by (simp add: materialize_due_def split: sum.split)

lemma claim_rows_keeps:
  assumes snap: "\<And>y. snapshot (f y) = snapshot y"
    and row: "\<And>x s. I s \<Longrightarrow> lock_occurrence s (oc_id x) = Some x \<Longrightarrow> P x \<Longrightarrow> I (snd (flush_occurrence (oc_id x) f s))"
  shows "I s \<Longrightarrow> selected s ocs \<Longrightarrow> (\<forall>x \<in> set ocs. P x) \<Longrightarrow> I (snd (claim_rows f owner ocs s))"
proof (induction ocs arbitrary: s)
  case (Cons oc ocs)
  have step: "I (snd (flush_occurrence (oc_id oc) f s))"
    using row [of s oc] Cons.prems by (simp add: selected_def)
  have sel: "selected (snd (flush_occurrence (oc_id oc) f s)) ocs"
    by (rule selected_flush [OF Cons.prems(2) snap])
  have rest: "I (snd (claim_rows f owner ocs u))" if "flush_occurrence (oc_id oc) f s = (r, u)" for r u
    using Cons.IH [of u] step sel Cons.prems(3) that by simp
  show ?case unfolding claim_rows.simps
    by (rule write_then [OF step], rule write_then) (simp_all add: rest)
qed simp

lemma reclaim_expired_keeps:
  assumes "I s"
  shows "I (snd (reclaim_expired busy t owner lease limit s))"
proof -
  let ?rows = "\<lambda>n. filter (\<lambda>oc. oc_agent_run_id oc = None) (lock_expired_claims s busy t n)"
  have sel: "selected s (?rows n)" for n
    unfolding lock_expired_claims_def by (intro selected_filter selected_query distinct_ids assms)
  have st: "\<forall>x \<in> set (?rows n). oc_state x = OC_CLAIMED" for n
    by (auto simp: lock_expired_claims_def dest: in_set_takeD)
  have row: "I (snd (flush_occurrence (oc_id x) (reclaim_row owner d t) s))"
    if "I s" "lock_occurrence s (oc_id x) = Some x" "oc_state x = OC_CLAIMED" for x s d
    using that by (intro flush_keeps) (simp_all add: moves claims_work_def)
  have "I (snd (claim_rows (reclaim_row owner d t) owner (?rows n) s))" for d n
    by (rule claim_rows_keeps [OF _ row assms sel st]) simp_all
  then show ?thesis using assms
    by (simp add: reclaim_expired_def split: sum.split)
qed

lemma renew_claim_keeps:
  assumes "I s"
  shows "I (snd (renew_claim c t lease s))"
proof (cases "lease_duration lease")
  case (Inr d)
  have row: "I (snd (flush_occurrence (oc_id x) (\<lambda>x. x\<lparr>oc_lease_expires_at := Some (t + d),
      oc_last_renewed_at := Some t, oc_revision := oc_revision x + 1\<rparr>) s))"
    if "lock_occurrence s (cl_occurrence_id c) = Some x" "oc_state x = OC_CLAIMED" for x
    using that assms occurrences.get_key [OF that(1)]
    by (intro flush_keeps) (simp_all add: moves claims_work_def)
  show ?thesis
  proof (cases "get_automation s (cl_automation_id c)")
    case None
    then show ?thesis using assms Inr by (simp add: renew_claim_def)
  next
    case (Some a)
    show ?thesis
    proof (cases "lock_occurrence s (cl_occurrence_id c)")
      case None
      then show ?thesis using assms Inr Some by (simp add: renew_claim_def)
    next
      case (Some x)
      note here = Inr \<open>get_automation s _ = _\<close> Some
      show ?thesis
      proof (cases "validate_claim a x c t")
        case (Inl e)
        then show ?thesis using assms here by (simp add: renew_claim_def)
      next
        case ok: (Inr r)
        have "oc_state x = OC_CLAIMED" using ok by (auto simp: validate_claim_def split: if_splits)
        from write_then [OF row [OF Some this], where k = "\<lambda>_ s'. (Inr c, s')"]
        show ?thesis using here ok by (simp add: renew_claim_def)
      qed
    qed
  qed
qed (simp add: renew_claim_def assms)

lemma flush_then_notify:
  assumes "I (snd (flush_occurrence i f s))"
  shows "I (snd (andThen (flush_occurrence i f s) (\<lambda>oc' s1.
     andThen (if p s1 then notify oc' event_kind severity code t s1 else (Inr (), s1)) (\<lambda>_ s2. (Inr r, s2)))))"
  by (rule write_then [OF assms], rule write_then) (simp_all add: notify_keeps)

lemma reconcile_one_keeps:
  assumes "I s" and "lock_occurrence s (oc_id oc) = Some oc" and "oc_state oc \<in> {OC_CLAIMED, OC_RUN_CREATED}"
  shows "I (snd (reconcile_one t oc s))"
proof -
  have live: "\<not> terminal_occurrence (oc_state oc)" using assms(3) by (auto simp: terminal_occurrence_def)
  have failed: "I (snd (flush_occurrence (oc_id oc) (fail_row code disposition t) s))" for code disposition
    using assms live by (intro flush_keeps) (simp_all add: moves claims_work_def)
  have completed: "I (snd (flush_occurrence (oc_id oc) (complete_row t) s))"
    using assms by (intro flush_keeps) (simp_all add: moves claims_work_def)
  have linked: "I (snd (flush_occurrence (oc_id oc) link_row s))" if "oc_state oc = OC_CLAIMED"
    using assms that by (intro flush_keeps) (simp_all add: moves claims_work_def)
  note notified = flush_then_notify [where p = "\<lambda>_. True", simplified]
  show ?thesis
  proof (cases "Option.bind (oc_agent_run_id oc) (get_agent_run s)")
    case None
    then show ?thesis using notified [OF failed] by (simp add: reconcile_one_def Let_def)
  next
    case (Some run)
    consider "r_state run = COMPLETED" | "r_state run \<in> {FAILED, CANCELLED, EXPIRED}"
      | "r_state run \<notin> {COMPLETED, FAILED, CANCELLED, EXPIRED}" "oc_state oc = OC_CLAIMED"
      | "r_state run \<notin> {COMPLETED, FAILED, CANCELLED, EXPIRED}" "oc_state oc \<noteq> OC_CLAIMED" by blast
    then show ?thesis
    proof cases
      case 1
      then show ?thesis using Some flush_then_notify [OF completed] by (simp add: reconcile_one_def Let_def)
    next
      case 2
      then have "r_state run \<noteq> COMPLETED" by auto
      then show ?thesis using Some 2 notified [OF failed] by (simp add: reconcile_one_def Let_def)
    next
      case 3
      then show ?thesis using Some write_then [OF linked, where k = "\<lambda>_ s1. (Inr (oc_id oc), s1)"]
        by (simp add: reconcile_one_def Let_def)
    next
      case 4
      then show ?thesis using Some assms(1) by (simp add: reconcile_one_def Let_def)
    qed
  qed
qed

lemma reconcile_all_keeps:
  "I s \<Longrightarrow> selected s ocs \<Longrightarrow> \<forall>oc \<in> set ocs. oc_state oc \<in> {OC_CLAIMED, OC_RUN_CREATED} \<Longrightarrow>
     I (snd (reconcile_all t ocs s))"
proof (induction ocs arbitrary: s)
  case Nil
  then show ?case by simp
next
  case (Cons oc ocs)
  have step: "I (snd (reconcile_one t oc s))"
    using Cons.prems by (intro reconcile_one_keeps) (auto simp: selected_def)
  have sel: "selected (snd (reconcile_one t oc s)) ocs"
    by (rule selected_Cons [OF Cons.prems(2)]) (rule reconcile_one_frame)
  have rest: "I (snd (reconcile_all t ocs u))" if "reconcile_one t oc s = (r, u)" for r u
    using Cons.IH [of u] step sel Cons.prems(3) that by simp
  show ?case unfolding reconcile_all.simps
    by (rule write_then [OF step], rule write_then) (simp_all add: rest)
qed

lemma reconcile_linked_keeps:
  assumes "I s"
  shows "I (snd (reconcile_linked busy t limit s))"
proof -
  have sel: "selected s (lock_linked_occurrences s busy n)" for n
    unfolding lock_linked_occurrences_def by (intro selected_query distinct_ids assms)
  have "\<forall>x \<in> set (lock_linked_occurrences s busy n). oc_state x \<in> {OC_CLAIMED, OC_RUN_CREATED}" for n
    by (auto simp: lock_linked_occurrences_def dest!: in_set_takeD)
  then show ?thesis using assms sel
    by (auto simp: reconcile_linked_def split: sum.splits intro: reconcile_all_keeps)
qed

lemma defer_setup_keeps:
  assumes "I s"
  shows "I (snd (defer_setup oid t capacity s))"
proof (cases "\<exists>oc a. lock_occurrence s oid = Some oc \<and> oc_agent_run_id oc = None \<and>
    get_automation s (oc_automation_id oc) = Some a \<and> oc_state oc = OC_CLAIMED")
  case False
  then have "snd (defer_setup oid t capacity s) = s"
    by (auto simp: defer_setup_def split: option.splits)
  then show ?thesis using assms by simp
next
  case True
  then obtain oc a where here: "lock_occurrence s oid = Some oc" "oc_agent_run_id oc = None"
    "get_automation s (oc_automation_id oc) = Some a" "oc_state oc = OC_CLAIMED" by blast
  have deferred: "I (snd (flush_occurrence oid (defer_row disposition n t) s))"
    "I (snd (flush_occurrence oid (defer_row disposition n t \<circ> count_attempt) s))" for disposition n
    using assms here by (intro flush_keeps; simp add: moves claims_work_def)+
  have failed: "I (snd (flush_occurrence oid (fail_row code disposition t \<circ> close_retries \<circ> count_attempt) s))"
    for code disposition
    using assms here by (intro flush_keeps) (simp_all add: moves claims_work_def terminal_occurrence_def)
  show ?thesis
  proof (cases capacity)
    case True
    then show ?thesis using here flush_then_notify [OF deferred(1)]
      by (simp add: defer_setup_def)
  next
    case manual: False
    show ?thesis
    proof (cases "oc_attempt_count oc + 1 \<ge> min (au_retry_limit a) MAX_SETUP_ATTEMPTS")
      case True
      then show ?thesis using here manual flush_then_notify [where p = "\<lambda>_. True", OF failed]
        by (simp add: defer_setup_def Let_def)
    next
      case False
      then show ?thesis using here manual write_then [OF deferred(2), where k = "\<lambda>_ s1. (Inr True, s1)"]
        by (simp add: defer_setup_def Let_def)
    qed
  qed
qed

lemma fail_closed_keeps:
  assumes "I s"
  shows "I (snd (fail_closed oid t code s))"
proof (cases "\<exists>oc. lock_occurrence s oid = Some oc \<and> oc_agent_run_id oc = None \<and> \<not> terminal_occurrence (oc_state oc)")
  case False
  then have "snd (fail_closed oid t code s) = s"
    by (auto simp: fail_closed_def split: option.splits)
  then show ?thesis using assms by simp
next
  case True
  then obtain oc where here: "lock_occurrence s oid = Some oc" "oc_agent_run_id oc = None"
    "\<not> terminal_occurrence (oc_state oc)" by blast
  have "I (snd (flush_occurrence oid (fail_row code ''operator_review_required'' t \<circ> close_retries) s))"
    using assms here by (intro flush_keeps) (simp_all add: moves claims_work_def)
  from write_then [OF this, where k = "\<lambda>oc' s1. notify oc' ''occurrence_failed'' ''error'' code t s1"]
  show ?thesis using here by (simp add: fail_closed_def notify_keeps)
qed

end

section \<open>Frames\<close>

lemma lock_occurrence_agent_tables [simp]:
  "db_occurrences (snd (append_agent_event e s)) = db_occurrences s"
  "db_occurrences (snd (create_agent_run x s)) = db_occurrences s"
  "db_occurrences (snd (uuid4 s)) = db_occurrences s"
  by (simp_all add: append_agent_event_eq create_agent_run_def uuid4_def add_agent_run_def Let_def
      split: option.split)

lemma next_id_grows [simp]:
  "db_next_id s \<le> db_next_id (snd (append_agent_event e s))"
  "db_next_id s \<le> db_next_id (snd (create_agent_run x s))"
  by (simp_all add: append_agent_event_eq create_agent_run_def uuid4_def add_agent_run_def Let_def
      split: option.split)

lemma andThen_grows:
  assumes "\<And>a u. G u \<le> G (snd (k a u))"
  shows "G (snd m) \<le> (G (snd (andThen m k)) :: 'n::order)"
  using assms by (auto simp: andThen_def split: prod.splits sum.splits)

text \<open>Run creation leaves the occurrences of the state it started from, or of the one it waited for.\<close>

lemma create_run_frame:
  fixes s :: "'a automation_db_scheme"
  shows "\<exists>u \<in> {s, other s}. db_occurrences (snd (create_run other rq key fp t s)) = db_occurrences u \<and>
     db_next_id u \<le> db_next_id (snd (create_run other rq key fp t s))"
proof -
  let ?k = "\<lambda>g. \<lambda>run s2. andThen (append_agent_event (g run) s2) (\<lambda>_ s3. (Inr (run, True), s3))"
  have made: "db_occurrences (snd (andThen (create_agent_run r u) (?k g))) = db_occurrences u" for r u g
    by (rule trans [OF andThen_frame [where F = db_occurrences]],
        rule trans [OF andThen_frame [where F = db_occurrences]]) simp_all
  have grown: "db_next_id u \<le> db_next_id (snd (andThen (create_agent_run r u) (?k g)))" for r u g
    by (rule order_trans [OF next_id_grows(2) andThen_grows [where G = db_next_id]],
        rule order_trans [OF next_id_grows(1) andThen_grows [where G = db_next_id]]) simp
  have "db_next_id u \<le> db_next_id (snd (andThen (create_agent_run r (u\<lparr>db_next_id := Suc (db_next_id u)\<rparr>)) (?k g)))"
    for r g and u :: "'a automation_db_scheme"
    using grown [of "u\<lparr>db_next_id := Suc (db_next_id u)\<rparr>" r g] by simp
  then show ?thesis
    by (simp add: create_run_def Let_def uuid4_def made split: option.split)
qed

context occurrence_invariant begin

lemma create_and_link_keeps:
  assumes "I s" and "\<And>s. I s \<Longrightarrow> I (other s)"
    and held: "\<And>s. lock_occurrence (other s) (cl_occurrence_id c) = lock_occurrence s (cl_occurrence_id c)"
  shows "I (snd (create_and_link_run sha other c t s))"
proof -
  have link: "I (snd (andThen (create_run other rq key fp t s) (link_run x)))"
    if x: "lock_occurrence s (cl_occurrence_id c) = Some x" "oc_state x = OC_CLAIMED" for x rq key fp
  proof (rule write_then [OF write_run [OF assms(1,2)]])
    fix res u
    assume run: "create_run other rq key fp t s = (Inr res, u)" and "I u"
    obtain r created where res: "res = (r, created)" by (cases res)
    have id: "oc_id x = cl_occurrence_id c" using x(1) by (rule occurrences.get_key)
    have "lock_occurrence u (oc_id x) = Some x"
      using create_run_frame [of s other rq key fp t] run x(1) held [of s] id
      by (auto simp: lock_occurrence_def)
    then have "I (snd (flush_occurrence (oc_id x) (link_row \<circ> (\<lambda>y. y\<lparr>oc_agent_run_id := Some (r_id r)\<rparr>)) u))"
      if "oc_agent_run_id x \<in> {None, Some (r_id r)}"
      using \<open>I u\<close> x(2) that by (intro flush_keeps) (simp_all add: moves claims_work_def)
    from write_then [OF this, where k = "\<lambda>_ s1. (Inr (r_id r, created), s1)"] \<open>I u\<close>
    show "I (snd (link_run x res u))" by (simp add: link_run_def res)
  qed
  show ?thesis
  proof (cases "\<exists>a x. get_automation s (cl_automation_id c) = Some a \<and> lock_occurrence s (cl_occurrence_id c) = Some x \<and>
      \<not> (oc_state x = OC_RUN_CREATED \<and> oc_agent_run_id x \<noteq> None) \<and>
      validate_claim a x c t = Inr () \<and> mode_supported x \<and> scope_available s x")
    case False
    then have "snd (create_and_link_run sha other c t s) = s"
      by (auto simp: create_and_link_run_def Let_def split: option.splits sum.splits)
    then show ?thesis using assms(1) by simp
  next
    case True
    then obtain a x where here: "get_automation s (cl_automation_id c) = Some a"
      "lock_occurrence s (cl_occurrence_id c) = Some x"
      "\<not> (oc_state x = OC_RUN_CREATED \<and> oc_agent_run_id x \<noteq> None)"
      "validate_claim a x c t = Inr ()" "mode_supported x" "scope_available s x" by blast
    have "oc_state x = OC_CLAIMED" using here(4) by (auto simp: validate_claim_def split: if_splits)
    from link [OF here(2) this] this show ?thesis using here by (simp add: create_and_link_run_def Let_def)
  qed
qed

end

text \<open>Taking up due work as well:\<close>

locale claiming_invariant = occurrence_invariant +
  assumes write_claim: "I s \<Longrightarrow> lock_occurrence s i = Some x \<Longrightarrow> oc_state x = OC_DUE \<Longrightarrow>
      I (upd_occurrence i (claim_row owner d t) s)"
begin

lemma claim_due_keeps:
  assumes "I s"
  shows "I (snd (claim_due busy t owner lease limit s))"
proof -
  have sel: "selected s (lock_claimable_occurrences s busy t n)" for n
    unfolding lock_claimable_occurrences_def by (intro selected_query distinct_ids assms)
  have st: "\<forall>x \<in> set (lock_claimable_occurrences s busy t n). oc_state x = OC_DUE" for n
    by (auto simp: lock_claimable_occurrences_def claimable_def dest!: in_set_takeD)
  have row: "I (snd (flush_occurrence (oc_id x) (claim_row owner d t) s))"
    if "I s" "lock_occurrence s (oc_id x) = Some x" "oc_state x = OC_DUE" for x s d
    using write_claim [OF that] that by (simp add: flush_occurrence_def split: option.split)
  have "I (snd (claim_rows (claim_row owner d t) owner (lock_claimable_occurrences s busy t n) s))" for d n
    by (rule claim_rows_keeps [OF _ row assms sel st]) simp_all
  then show ?thesis using assms
    by (simp add: claim_due_def Let_def split: sum.split)
qed

end

section \<open>History\<close>

text \<open>
  What may have become of an occurrence: nothing, if it was terminal; otherwise it has moved along
  the lifecycle with the same snapshot, a greater revision, no smaller lease generation and the
  same Run, if it had one.
\<close>

definition evolved :: "occurrence \<Rightarrow> occurrence \<Rightarrow> bool" where
  "evolved x y \<longleftrightarrow> y = x \<or>
     \<not> terminal_occurrence (oc_state x) \<and> snapshot y = snapshot x \<and>
     occurrence_edge\<^sup>*\<^sup>* (oc_state x) (oc_state y) \<and> oc_revision x < oc_revision y \<and>
     oc_lease_generation x \<le> oc_lease_generation y \<and>
     (oc_agent_run_id x \<noteq> None \<longrightarrow> oc_agent_run_id y = oc_agent_run_id x)"

lemma evolved_move: "evolved x y \<Longrightarrow> occurrence_move y z \<Longrightarrow> evolved x z"
  unfolding evolved_def occurrence_move_def
  by (auto dest: occurrence_lifecycle.live_before intro: rtranclp.rtrancl_into_rtrancl)

definition occurrence_history :: "occurrence list \<Rightarrow> 'a automation_db_scheme \<Rightarrow> bool" where
  "occurrence_history past s \<longleftrightarrow>
     distinct (map oc_id (db_occurrences s)) \<and>
     (\<forall>x \<in> set (db_occurrences s). oc_id x < db_next_id s) \<and>
     (\<forall>x \<in> set past. \<exists>y. lock_occurrence s (oc_id x) = Some y \<and> evolved x y)"

lemma row_get_upd_occurrence:
  assumes "\<And>y. snapshot (f y) = snapshot y"
  shows "lock_occurrence (upd_occurrence i f s) j =
     (if j = i then map_option f (lock_occurrence s j) else lock_occurrence s j)"
  by (rule occurrences.get_upd) (rule snapshot_id [OF assms])

lemma upd_occurrence_ids:
  assumes "\<And>y. snapshot (f y) = snapshot y"
  shows "map oc_id (db_occurrences (upd_occurrence i f s)) = map oc_id (db_occurrences s)"
    and "db_next_id (upd_occurrence i f s) = db_next_id s"
  using row_upd_map [of oc_id f, OF snapshot_id [OF assms]] by (simp_all add: upd_occurrence_def)

lemma occurrence_ids_below:
  "(\<forall>x \<in> set (db_occurrences s). oc_id x < n) \<longleftrightarrow> (\<forall>i \<in> set (map oc_id (db_occurrences s)). i < n)"
  by simp

lemma insert_occurrence_cases:
  "snd (insert_automation_occurrence x s) = s \<or>
   snd (insert_automation_occurrence x s) = s\<lparr>db_next_id := Suc (db_next_id s),
     db_occurrences := db_occurrences s @ [x\<lparr>oc_id := db_next_id s\<rparr>]\<rparr>"
  by (simp add: insert_automation_occurrence_def uuid4_def add_occurrence_def Let_def)

lemma insert_notification_frame:
  "db_occurrences (snd (insert_automation_notification n s)) = db_occurrences s"
  "db_next_id s \<le> db_next_id (snd (insert_automation_notification n s))"
  by (simp_all add: insert_automation_notification_def uuid4_def add_notification_def Let_def
      split: option.split)

lemma history_moved:
  assumes "occurrence_history past s" and "lock_occurrence s i = Some x"
    and snap: "\<And>y. snapshot (f y) = snapshot y" and "occurrence_move x (f x)"
  shows "occurrence_history past (upd_occurrence i f s)"
proof -
  have "\<exists>z. lock_occurrence (upd_occurrence i f s) (oc_id w) = Some z \<and> evolved w z" if "w \<in> set past" for w
  proof -
    obtain y where y: "lock_occurrence s (oc_id w) = Some y" "evolved w y"
      using assms(1) \<open>w \<in> set past\<close> by (auto simp: occurrence_history_def)
    then show ?thesis using assms(2,4)
      by (cases "oc_id w = i") (auto simp: row_get_upd_occurrence [OF snap] intro: evolved_move)
  qed
  then show ?thesis using assms(1)
    by (simp add: occurrence_history_def upd_occurrence_ids [OF snap] occurrence_ids_below del: set_map)
qed

lemma history_frame:
  assumes "occurrence_history past s" and "db_occurrences s' = db_occurrences s" and "db_next_id s \<le> db_next_id s'"
  shows "occurrence_history past s'"
  using assms by (auto simp: occurrence_history_def lock_occurrence_def intro: order_less_le_trans)

lemma history_insert:
  assumes "occurrence_history past s"
  shows "occurrence_history past (snd (insert_automation_occurrence x s))"
proof -
  let ?s = "s\<lparr>db_next_id := Suc (db_next_id s), db_occurrences := db_occurrences s @ [x\<lparr>oc_id := db_next_id s\<rparr>]\<rparr>"
  have kept: "lock_occurrence ?s j = Some y" if "lock_occurrence s j = Some y" for j y
    using that by (simp add: lock_occurrence_def row_get_append)
  have ids: "distinct (map oc_id (db_occurrences ?s))" "\<forall>y \<in> set (db_occurrences ?s). oc_id y < db_next_id ?s"
    using assms by (auto simp: occurrence_history_def)
  have "\<exists>y. lock_occurrence ?s (oc_id w) = Some y \<and> evolved w y" if "w \<in> set past" for w
    using assms that kept by (fastforce simp: occurrence_history_def)
  then have "occurrence_history past ?s" using ids by (simp add: occurrence_history_def)
  then show ?thesis using insert_occurrence_cases [of x s] assms by metis
qed

interpretation history: claiming_invariant "occurrence_history past" for past
proof unfold_locales
  fix s :: "'a automation_db_scheme" and other :: "'a automation_db_scheme \<Rightarrow> 'a automation_db_scheme"
    and rq key fp t
  assume I: "occurrence_history past s" and other: "\<And>s. occurrence_history past s \<Longrightarrow> occurrence_history past (other s)"
  show "occurrence_history past (snd (create_run other rq key fp t s))"
    using create_run_frame [of s other rq key fp t] history_frame [OF I] history_frame [OF other [OF I]] by blast
next
  fix s :: "'a automation_db_scheme" and i x f
  assume "occurrence_history past s" "lock_occurrence s i = Some x" "\<And>y. snapshot (f y) = snapshot y"
    "occurrence_move x (f x)"
  then show "occurrence_history past (upd_occurrence i f s)" by (rule history_moved)
next
  fix s :: "'a automation_db_scheme" and i x owner d t
  assume "occurrence_history past s" "lock_occurrence s i = Some x" "oc_state x = OC_DUE"
  then show "occurrence_history past (upd_occurrence i (claim_row owner d t) s)"
    by (intro history_moved [of past s i x]) (simp_all add: moves)
next
  fix s :: "'a automation_db_scheme" and n
  assume "occurrence_history past s"
  then show "occurrence_history past (snd (insert_automation_notification n s))"
    by (rule history_frame) (simp_all add: insert_notification_frame)
next
  fix s :: "'a automation_db_scheme" and j u
  assume "occurrence_history past s"
  then show "occurrence_history past (upd_automation j (set_next u) s)"
    by (rule history_frame) (simp_all add: upd_automation_def)
next
  fix s :: "'a automation_db_scheme" and x
  assume "occurrence_history past s"
  then show "occurrence_history past (snd (insert_automation_occurrence x s))" by (rule history_insert)
qed (simp add: occurrence_history_def)

section \<open>One occurrence for a slot\<close>

definition same_slot :: "occurrence \<Rightarrow> occurrence \<Rightarrow> bool" where
  "same_slot x y \<longleftrightarrow>
     oc_automation_id x = oc_automation_id y \<and> oc_schedule_revision x = oc_schedule_revision y \<and>
       oc_scheduled_at x = oc_scheduled_at y \<or>
     oc_occurrence_key x = oc_occurrence_key y"

definition slots_unique :: "'a automation_db_scheme \<Rightarrow> bool" where
  "slots_unique s \<longleftrightarrow> occurrence_history [] s \<and>
     (\<forall>x \<in> set (db_occurrences s). \<forall>y \<in> set (db_occurrences s). same_slot x y \<longrightarrow> oc_id x = oc_id y)"

lemma same_slot_snapshot:
  "snapshot x' = snapshot x \<Longrightarrow> snapshot y' = snapshot y \<Longrightarrow> same_slot x' y' = same_slot x y"
  using snapshot_slot [of x' x] snapshot_slot [of y' y] by (simp add: same_slot_def)

lemma upd_occurrence_origin:
  assumes "\<And>y. snapshot (f y) = snapshot y" and "x' \<in> set (db_occurrences (upd_occurrence i f s))"
  shows "\<exists>x \<in> set (db_occurrences s). snapshot x' = snapshot x \<and> oc_id x' = oc_id x"
  using assms snapshot_id [OF assms(1)] by (auto simp: upd_occurrence_def row_upd_def)

lemma slots_moved:
  assumes "slots_unique s" and "occurrence_history [] (upd_occurrence i f s)"
    and "\<And>y. snapshot (f y) = snapshot y"
  shows "slots_unique (upd_occurrence i f s)"
  unfolding slots_unique_def
proof (intro conjI assms(2) ballI impI)
  fix x' y'
  assume x': "x' \<in> set (db_occurrences (upd_occurrence i f s))"
    and y': "y' \<in> set (db_occurrences (upd_occurrence i f s))" and same: "same_slot x' y'"
  obtain x y where "x \<in> set (db_occurrences s)" "snapshot x' = snapshot x" "oc_id x' = oc_id x"
    "y \<in> set (db_occurrences s)" "snapshot y' = snapshot y" "oc_id y' = oc_id y"
    using upd_occurrence_origin [of f, OF assms(3) x'] upd_occurrence_origin [of f, OF assms(3) y'] by blast
  then show "oc_id x' = oc_id y'"
    using assms(1) same same_slot_snapshot [of x' x y' y] by (simp add: slots_unique_def)
qed

lemma insert_occurrence_OK:
  assumes "snd (insert_automation_occurrence x s) \<noteq> s"
  shows "get_automation s (oc_automation_id x) \<noteq> None" and "occurrence_checks x"
    and "\<not> list_ex (occurrence_conflict x) (db_occurrences s)"
  using assms by (auto simp: insert_automation_occurrence_def split: if_splits)

lemma slots_insert:
  assumes "slots_unique s"
  shows "slots_unique (snd (insert_automation_occurrence x s))"
proof (cases "snd (insert_automation_occurrence x s) = s")
  case False
  have fresh: "\<not> same_slot x y" "\<not> same_slot y x" if "y \<in> set (db_occurrences s)" for y
    using insert_occurrence_OK(3) [OF False] that
    by (auto simp: list_ex_iff occurrence_conflict_def same_slot_def)
  have slot: "same_slot (x\<lparr>oc_id := i\<rparr>) y = same_slot x y" "same_slot y (x\<lparr>oc_id := i\<rparr>) = same_slot y x" for i y
    by (simp_all add: same_slot_def)
  have "occurrence_history [] (snd (insert_automation_occurrence x s))"
    using assms history_insert by (auto simp: slots_unique_def)
  then show ?thesis
    using assms insert_occurrence_cases [of x s] False fresh by (auto simp: slots_unique_def slot)
qed (simp add: assms)

interpretation slots: claiming_invariant slots_unique
proof unfold_locales
  fix s :: "'a automation_db_scheme" and other :: "'a automation_db_scheme \<Rightarrow> 'a automation_db_scheme"
    and rq key fp t
  assume I: "slots_unique s" and other: "\<And>s. slots_unique s \<Longrightarrow> slots_unique (other s)"
  have "slots_unique u'" if "slots_unique u" "db_occurrences u' = db_occurrences u" "db_next_id u \<le> db_next_id u'"
    for u u' :: "'a automation_db_scheme"
    using that history_frame [of "[]" u u'] by (simp add: slots_unique_def)
  then show "slots_unique (snd (create_run other rq key fp t s))"
    using create_run_frame [of s other rq key fp t] I other [OF I] by blast
next
  fix s :: "'a automation_db_scheme" and i x f
  assume "slots_unique s" "lock_occurrence s i = Some x" "\<And>y. snapshot (f y) = snapshot y"
    "occurrence_move x (f x)"
  then show "slots_unique (upd_occurrence i f s)"
    using history_moved [of "[]" s i x f] by (intro slots_moved) (simp_all add: slots_unique_def)
next
  fix s :: "'a automation_db_scheme" and i x owner d t
  assume "slots_unique s" "lock_occurrence s i = Some x" "oc_state x = OC_DUE"
  then show "slots_unique (upd_occurrence i (claim_row owner d t) s)"
    using history.write_claim [of "[]" s i x owner d t] by (intro slots_moved) (simp_all add: slots_unique_def)
next
  fix s :: "'a automation_db_scheme" and n
  assume "slots_unique s"
  then show "slots_unique (snd (insert_automation_notification n s))"
    using history.write_notification [of "[]" s n] by (simp add: slots_unique_def insert_notification_frame)
next
  fix s :: "'a automation_db_scheme" and j u
  assume "slots_unique s"
  then show "slots_unique (upd_automation j (set_next u) s)"
    using history.write_next [of "[]" s j u] by (simp add: slots_unique_def) (simp add: upd_automation_def)
next
  fix s :: "'a automation_db_scheme" and x
  assume "slots_unique s"
  then show "slots_unique (snd (insert_automation_occurrence x s))" by (rule slots_insert)
qed (auto simp: slots_unique_def dest: history.distinct_ids)

section \<open>The capacity of active occurrences\<close>

definition active :: "occurrence \<Rightarrow> bool" where
  "active oc \<longleftrightarrow> oc_state oc \<in> set [OC_CLAIMED, OC_RUN_CREATED]"

definition active_within :: "nat \<Rightarrow> 'a automation_db_scheme \<Rightarrow> bool" where
  "active_within n s \<longleftrightarrow> occurrence_history [] s \<and>
     count_occurrences_in_states s [OC_CLAIMED, OC_RUN_CREATED] \<le> n"

lemma count_active: "count_occurrences_in_states s [OC_CLAIMED, OC_RUN_CREATED] =
    length (filter active (db_occurrences s))"
  by (simp add: count_occurrences_in_states_def active_def [abs_def])

lemma active_moved:
  assumes "occurrence_history [] s" and "lock_occurrence s i = Some x" and "active (f x) \<Longrightarrow> active x"
  shows "length (filter active (db_occurrences (upd_occurrence i f s))) \<le> length (filter active (db_occurrences s))"
proof -
  have only: "y = x" if "y \<in> set (db_occurrences s)" "oc_id y = i" for y
    using row_get_distinct [of oc_id "db_occurrences s" y] assms(1,2) that
    by (simp add: occurrence_history_def lock_occurrence_def)
  show ?thesis unfolding upd_occurrence_def
    by simp (rule row_upd_filter_length_mono, use only assms(3) in blast)
qed

interpretation active: occurrence_invariant "active_within n" for n
proof unfold_locales
  fix s :: "'a automation_db_scheme" and other :: "'a automation_db_scheme \<Rightarrow> 'a automation_db_scheme"
    and rq key fp t
  assume I: "active_within n s" and other: "\<And>s. active_within n s \<Longrightarrow> active_within n (other s)"
  have "active_within n u'" if "active_within n u" "db_occurrences u' = db_occurrences u" "db_next_id u \<le> db_next_id u'"
    for u u' :: "'a automation_db_scheme"
    using that history_frame [of "[]" u u'] by (simp add: active_within_def count_active)
  then show "active_within n (snd (create_run other rq key fp t s))"
    using create_run_frame [of s other rq key fp t] I other [OF I] by blast
next
  fix s :: "'a automation_db_scheme" and i x f
  assume I: "active_within n s" and x: "lock_occurrence s i = Some x" "\<And>y. snapshot (f y) = snapshot y"
    "occurrence_move x (f x)" "\<not> claims_work x (f x)"
  have "active (f x) \<Longrightarrow> active x"
    using x(3,4) by (cases "oc_state x") (auto simp: active_def occurrence_move_def claims_work_def)
  then show "active_within n (upd_occurrence i f s)"
    using I active_moved [of s i x f] history_moved [of "[]" s i x f] x
    by (simp add: active_within_def count_active)
next
  fix s :: "'a automation_db_scheme" and m
  assume "active_within n s"
  then show "active_within n (snd (insert_automation_notification m s))"
    using history.write_notification [of "[]" s m] by (simp add: active_within_def count_active insert_notification_frame)
next
  fix s :: "'a automation_db_scheme" and j u
  assume "active_within n s"
  then show "active_within n (upd_automation j (set_next u) s)"
    using history.write_next [of "[]" s j u] by (simp add: active_within_def count_active) (simp add: upd_automation_def)
next
  fix s :: "'a automation_db_scheme" and x :: occurrence
  assume I: "active_within n s" and "oc_state x \<in> {OC_DUE, OC_MISSED}"
  then have "\<not> active (x\<lparr>oc_id := i\<rparr>)" for i by (auto simp: active_def)
  then show "active_within n (snd (insert_automation_occurrence x s))"
    using I insert_occurrence_cases [of x s] history_insert [of "[]" s x]
    by (auto simp: active_within_def count_active)
qed (auto simp: active_within_def dest: history.distinct_ids)

text \<open>Each claimed row adds at most one.\<close>

lemma row_upd_filter_length_Suc:
  "distinct (map k rows) \<Longrightarrow> length (filter P (row_upd k i f rows)) \<le> Suc (length (filter P rows))"
proof (induction rows)
  case (Cons r rows)
  show ?case
  proof (cases "k r = i")
    case True
    then have "row_upd k i f (r # rows) = f r # rows"
      using Cons.prems row_upd_absent [of i k rows f] by (simp add: row_upd_def)
    then show ?thesis by simp
  next
    case False
    then have "row_upd k i f (r # rows) = r # row_upd k i f rows" by (simp add: row_upd_def)
    then show ?thesis using Cons by simp
  qed
qed simp

lemma flush_occurrence_ids:
  assumes "\<And>y. snapshot (f y) = snapshot y"
  shows "map oc_id (db_occurrences (snd (flush_occurrence i f s))) = map oc_id (db_occurrences s)"
  by (simp add: flush_occurrence_def upd_occurrence_ids(1) [OF assms] split: option.split)

lemma flush_occurrence_active:
  assumes "distinct (map oc_id (db_occurrences s))"
  shows "length (filter active (db_occurrences (snd (flush_occurrence i f s)))) \<le>
     Suc (length (filter active (db_occurrences s)))"
  using row_upd_filter_length_Suc [OF assms, of active i f]
  by (simp add: flush_occurrence_def upd_occurrence_def split: option.split)

lemma claim_rows_active:
  fixes s :: "'a automation_db_scheme"
  assumes snap: "\<And>y. snapshot (f y) = snapshot y"
  shows "distinct (map oc_id (db_occurrences s)) \<Longrightarrow>
     length (filter active (db_occurrences (snd (claim_rows f owner ocs s)))) \<le>
     length (filter active (db_occurrences s)) + length ocs"
proof (induction ocs arbitrary: s)
  case (Cons oc ocs)
  obtain r u where flush: "flush_occurrence (oc_id oc) f s = (r, u)" by fastforce
  have u: "distinct (map oc_id (db_occurrences u))"
    "length (filter active (db_occurrences u)) \<le> Suc (length (filter active (db_occurrences s)))"
    using flush_occurrence_ids [of f "oc_id oc" s, OF snap] flush_occurrence_active [OF Cons.prems, of "oc_id oc" f]
      flush Cons.prems by simp_all
  have "snd (andThen (claim_rows f owner ocs v) (\<lambda>cs w. (Inr (g cs), w))) = snd (claim_rows f owner ocs v)"
    for v :: "'a automation_db_scheme" and g :: "occurrence_claim list \<Rightarrow> occurrence_claim list"
    by (rule andThen_frame [where F = id, simplified]) simp
  then show ?case using Cons.IH [OF u(1)] u(2) flush
    by (cases r) simp_all
qed simp

lemma claim_due_active:
  assumes "active_within MAX_ACTIVE_OCCURRENCES s"
  shows "active_within MAX_ACTIVE_OCCURRENCES (snd (claim_due busy t owner lease limit s))"
proof -
  have ids: "occurrence_history [] s" using assms by (simp add: active_within_def)
  have after: "occurrence_history [] (snd (claim_due busy t owner lease limit s))"
    by (rule history.claim_due_keeps [OF ids])
  let ?n = "MAX_ACTIVE_OCCURRENCES - length (filter active (db_occurrences s))"
  have rows: "length (filter active (db_occurrences (snd (claim_rows (claim_row owner d t) owner
       (lock_claimable_occurrences s busy t (min m ?n)) s)))) \<le> MAX_ACTIVE_OCCURRENCES" for d m
  proof -
    have "length (lock_claimable_occurrences s busy t (min m ?n)) \<le> ?n"
      by (simp add: lock_claimable_occurrences_def)
    moreover have "length (filter active (db_occurrences (snd (claim_rows (claim_row owner d t) owner
        (lock_claimable_occurrences s busy t (min m ?n)) s)))) \<le> length (filter active (db_occurrences s)) +
        length (lock_claimable_occurrences s busy t (min m ?n))"
      by (rule claim_rows_active [OF _ history.distinct_ids [OF ids]]) simp
    moreover have "length (filter active (db_occurrences s)) \<le> MAX_ACTIVE_OCCURRENCES"
      using assms by (simp add: active_within_def count_active)
    ultimately show ?thesis by linarith
  qed
  show ?thesis using assms after rows
    by (simp add: active_within_def claim_due_def count_active Let_def split: sum.split)
qed

end
