(* ===== verification/Automation_Tick.thy ===== *)
theory Automation_Tick
  imports Automation_Invariants
begin

text \<open>
  One explicit scheduler tick (\<open>run_one_tick\<close> of \<open>app/automations/scheduler_runner.py\<close>, up to the
  coordination of linked Runs): reconcile, reclaim, materialize, claim, each committed on its own,
  then the set-up of every claim with its error handling; and the system of all ticks, lease
  renewals and operator requests, as a sequence of steps.
\<close>

section \<open>Setting up one claim\<close>

datatype setup_result = Linked uuid | CapacityDeferred | RetryDeferred | SetupFailed

text \<open>What the database does to a commit: acknowledge it, or lose the acknowledgement with or
  without having committed.\<close>

datatype commit_result = Acknowledged | LostCommitted | LostRolledBack

text \<open>A database error that strikes anywhere in the call rolls the session back.\<close>

definition attempt_setup ::
  "(string \<Rightarrow> string) \<Rightarrow> exn option \<Rightarrow> occurrence_claim \<Rightarrow> instant \<Rightarrow> 'a automation_db_scheme
     \<Rightarrow> ('a automation_db_scheme, uuid \<times> bool) outcome" where
  "attempt_setup sha fault c t s =
    (case fault of Some e \<Rightarrow> (Inl e, s) | None \<Rightarrow> create_and_link_run sha id c t s)"

definition close_setup ::
  "string \<Rightarrow> occurrence_claim \<Rightarrow> instant \<Rightarrow> 'a automation_db_scheme
     \<Rightarrow> ('a automation_db_scheme, setup_result) outcome" where
  "close_setup code c t s =
    andThen (fail_closed (cl_occurrence_id c) t code s) (\<lambda>_ s'. (Inr SetupFailed, s'))"

definition setup_failed ::
  "exn \<Rightarrow> occurrence_claim \<Rightarrow> instant \<Rightarrow> 'a automation_db_scheme
     \<Rightarrow> ('a automation_db_scheme, setup_result) outcome" where
  "setup_failed e c t s =
    (if e = AgentRunCapacityError then
       andThen (defer_setup (cl_occurrence_id c) t True s) (\<lambda>_ s'. (Inr CapacityDeferred, s'))
     else if is_retryable_setup_error e then
       andThen (defer_setup (cl_occurrence_id c) t False s)
         (\<lambda>pending s'. (Inr (if pending then RetryDeferred else SetupFailed), s'))
     else close_setup ''setup_failed_safe'' c t s)"

definition confirm_link ::
  "occurrence_claim \<Rightarrow> instant \<Rightarrow> 'a automation_db_scheme
     \<Rightarrow> ('a automation_db_scheme, setup_result) outcome" where
  "confirm_link c t s =
    (case lock_occurrence s (cl_occurrence_id c) of
       None \<Rightarrow> close_setup ''ambiguous_commit_outcome'' c t s
     | Some oc \<Rightarrow>
        (case oc_agent_run_id oc of
           None \<Rightarrow> close_setup ''ambiguous_commit_outcome'' c t s
         | Some rid \<Rightarrow> if oc_state oc = OC_RUN_CREATED then (Inr (Linked rid), s)
                      else close_setup ''ambiguous_commit_outcome'' c t s))"

definition setup_claim ::
  "(string \<Rightarrow> string) \<Rightarrow> exn option \<Rightarrow> commit_result \<Rightarrow> occurrence_claim \<Rightarrow> instant
     \<Rightarrow> 'a automation_db_scheme \<Rightarrow> ('a automation_db_scheme, setup_result) outcome" where
  "setup_claim sha fault ack c t s =
    (case attempt_setup sha fault c t s of
       (Inl e, _) \<Rightarrow> setup_failed e c t s
     | (Inr (rid, _), s1) \<Rightarrow>
        (case ack of
           Acknowledged \<Rightarrow> (Inr (Linked rid), s1)
         | LostCommitted \<Rightarrow> confirm_link c t s1
         | LostRolledBack \<Rightarrow> confirm_link c t s))"

section \<open>The tick\<close>

fun setup_all ::
  "(string \<Rightarrow> string) \<Rightarrow> (occurrence_claim \<Rightarrow> exn option \<times> commit_result) \<Rightarrow> instant
     \<Rightarrow> occurrence_claim list \<Rightarrow> 'a automation_db_scheme
     \<Rightarrow> ('a automation_db_scheme, (occurrence_claim \<times> setup_result) list) outcome" where
  "setup_all sha faults t [] s = (Inr [], s)"
| "setup_all sha faults t (c # cs) s =
    committed (setup_claim sha (fst (faults c)) (snd (faults c)) c t s) s (\<lambda>r s1.
    andThen (setup_all sha faults t cs s1) (\<lambda>rs s2. (Inr ((c, r) # rs), s2)))"

record tick_env =
  te_zones :: "string \<Rightarrow> time_zone option"
  te_sha :: "string \<Rightarrow> string"
  te_busy :: "uuid \<Rightarrow> bool"
  te_faults :: "occurrence_claim \<Rightarrow> exn option \<times> commit_result"
  te_owner :: uuid
  te_lease :: int
  te_limit :: int

record tick_result =
  tr_materialized :: "uuid list"
  tr_setups :: "(occurrence_claim \<times> setup_result) list"
  tr_reclaimed :: "uuid list"
  tr_reconciled :: "uuid list"
  tr_missed :: "uuid list"

definition merge_claims :: "occurrence_claim list \<Rightarrow> occurrence_claim list \<Rightarrow> occurrence_claim list" where
  "merge_claims reclaimed claims =
     reclaimed @ filter (\<lambda>c. cl_occurrence_id c \<notin> set (map cl_occurrence_id reclaimed)) claims"

definition run_one_tick ::
  "tick_env \<Rightarrow> instant \<Rightarrow> 'a automation_db_scheme \<Rightarrow> ('a automation_db_scheme, tick_result) outcome" where
  "run_one_tick env t s =
    committed (reconcile_linked (te_busy env) t (te_limit env) s) s (\<lambda>reconciled s1.
    committed (reclaim_expired (te_busy env) t (te_owner env) (te_lease env) (te_limit env) s1) s1
      (\<lambda>reclaimed s2.
    committed (materialize_due (te_zones env) (te_busy env) id t (te_limit env) s2) s2 (\<lambda>rows s3.
    committed (claim_due (te_busy env) t (te_owner env) (te_lease env) (te_limit env) s3) s3
      (\<lambda>claims s4.
    andThen (setup_all (te_sha env) (te_faults env) t (merge_claims reclaimed claims) s4) (\<lambda>setups s5.
      (Inr \<lparr> tr_materialized = map oc_id rows, tr_setups = setups,
             tr_reclaimed = map cl_occurrence_id reclaimed, tr_reconciled = reconciled,
             tr_missed = map oc_id (filter (\<lambda>oc. oc_state oc = OC_MISSED) rows) \<rparr>, s5))))))"

section \<open>The system\<close>

datatype automation_step =
    Tick tick_env instant
  | Renew occurrence_claim instant int
  | Request "string \<Rightarrow> time_zone option" uuid instant automation_request
  | Create "string \<Rightarrow> time_zone option" automation_create instant

text \<open>Each step commits what it returns; an exception of a renewal or request rolls it back.\<close>

fun perform :: "automation_step \<Rightarrow> 'a automation_db_scheme \<Rightarrow> 'a automation_db_scheme" where
  "perform (Tick env t) s = snd (run_one_tick env t s)"
| "perform (Renew c t lease) s = commits (renew_claim c t lease s) s"
| "perform (Request zones aid t rq) s = commits (serve zones aid t rq s) s"
| "perform (Create zones rq t) s = commits (create_automation zones rq t s) s"

definition perform_all :: "automation_step list \<Rightarrow> 'a automation_db_scheme \<Rightarrow> 'a automation_db_scheme" where
  "perform_all steps s = fold perform steps s"

section \<open>What every step keeps\<close>

context occurrence_invariant begin

lemma committed_keeps:
  "I s \<Longrightarrow> (\<And>b s'. m = (Inr b, s') \<Longrightarrow> I s' \<Longrightarrow> I (snd (k b s'))) \<Longrightarrow> I (snd m) \<Longrightarrow> I (snd (committed m s k))"
  by (auto simp: committed_def split: prod.splits sum.splits)

lemma close_setup_keeps: "I s \<Longrightarrow> I (snd (close_setup code c t s))"
  unfolding close_setup_def by (rule write_then [OF fail_closed_keeps]) simp_all

lemma setup_failed_keeps: "I s \<Longrightarrow> I (snd (setup_failed e c t s))"
  unfolding setup_failed_def
  using write_then [OF defer_setup_keeps, where k = "\<lambda>_ s'. (Inr CapacityDeferred, s')"]
    write_then [OF defer_setup_keeps, where k = "\<lambda>pending s'. (Inr (if pending then RetryDeferred else SetupFailed), s')"]
  by (simp add: close_setup_keeps)

lemma confirm_link_keeps: "I s \<Longrightarrow> I (snd (confirm_link c t s))"
  by (simp add: confirm_link_def close_setup_keeps split: option.split)

lemma setup_claim_keeps:
  assumes "I s"
  shows "I (snd (setup_claim sha fault ack c t s))"
proof -
  have made: "I (snd (attempt_setup sha fault c t s))"
    using assms by (auto simp: attempt_setup_def split: option.split intro: create_and_link_keeps)
  obtain r u where a: "attempt_setup sha fault c t s = (r, u)" by fastforce
  have "I u" using made a by simp
  then show ?thesis using assms a
    by (cases r; cases ack) (auto simp: setup_claim_def setup_failed_keeps confirm_link_keeps)
qed

lemma setup_all_keeps: "I s \<Longrightarrow> I (snd (setup_all sha faults t cs s))"
proof (induction cs arbitrary: s)
  case (Cons c cs)
  show ?case unfolding setup_all.simps
    by (rule committed_keeps [OF Cons.prems], rule write_then)
      (simp_all add: Cons.IH setup_claim_keeps Cons.prems)
qed simp

lemma run_one_tick_keeps:
  assumes "I s" and claim: "\<And>s t owner lease limit. I s \<Longrightarrow> I (snd (claim_due busy t owner lease limit s))"
    and "te_busy env = busy"
  shows "I (snd (run_one_tick env t s))"
  unfolding run_one_tick_def assms(3)
  by (intro committed_keeps write_then)
    (simp_all add: assms(1) reconcile_linked_keeps reclaim_expired_keeps materialize_due_keeps claim setup_all_keeps)

end

end
