(* ===== verification/Automation_Coordinator.thy ===== *)
theory Automation_Coordinator
  imports Automation_Invariants
begin

text \<open>
  Unattended execution of a linked Run (\<open>app/automations/coordinator.py\<close>): the eligibility check that
  stands between a linked occurrence and the planning and execution of its Run. The conditions are
  written as the source has them; Python's \<open>x != y != z\<close> is \<open>x != y and y != z\<close>.
\<close>

section \<open>Eligibility\<close>

definition differ_chained :: "'x \<Rightarrow> 'x \<Rightarrow> 'x \<Rightarrow> bool" where
  "differ_chained x y z \<longleftrightarrow> x \<noteq> y \<and> y \<noteq> z"

definition tools_registered :: "automatic_agent_definition \<Rightarrow> bool" where
  "tools_registered d \<longleftrightarrow>
     \<not> list_ex (\<lambda>(name, version). get_exact agent_tool_registry name version = None) (aad_allowed_tools d)"

definition run_closed :: "agent_run \<Rightarrow> instant \<Rightarrow> bool" where
  "run_closed run t \<longleftrightarrow>
     r_state run \<notin> {COMPLETED, FAILED} \<and> (r_state run \<in> {CANCELLED, EXPIRED} \<or> t \<ge> r_run_deadline run)"

definition ineligible ::
  "'a automation_db_scheme \<Rightarrow> automation \<Rightarrow> occurrence \<Rightarrow> agent_run \<Rightarrow> automatic_agent_definition \<Rightarrow> instant \<Rightarrow> bool" where
  "ineligible s a oc run d t \<longleftrightarrow>
     length (filter (\<lambda>x. oc_agent_run_id x = oc_agent_run_id oc) (db_occurrences s)) \<noteq> 1 \<or>
     au_lifecycle a \<noteq> LC_ENABLED \<or>
     au_revision a \<noteq> oc_automation_revision oc \<or>
     au_schedule_revision a \<noteq> oc_schedule_revision oc \<or>
     au_execution_mode a \<noteq> ''automatic_read_only'' \<or>
     oc_execution_mode oc \<noteq> ''automatic_read_only'' \<or>
     oc_state oc \<notin> {OC_RUN_CREATED, OC_COMPLETED, OC_FAILED} \<or>
     differ_chained (au_agent_kind a) (oc_agent_kind oc) (r_agent_kind run) \<or>
     differ_chained (au_agent_version a) (oc_agent_version oc) (r_agent_version run) \<or>
     differ_chained (au_project_id a) (oc_project_id oc) (r_project_id run) \<or>
     (case get_schedulable_agent (oc_agent_kind oc) (oc_agent_version oc) of
        None \<Rightarrow> True
      | Some entry \<Rightarrow> sa_project_required entry \<and> oc_project_id oc = None) \<or>
     \<not> aad_code_owned d \<or> aad_authority d \<noteq> ''read'' \<or> aad_registry_version d \<noteq> REGISTRY_VERSION \<or>
     aad_allowed_tools d = [] \<or> \<not> tools_registered d \<or>
     r_registry_version run \<noteq> REGISTRY_VERSION \<or> r_policy_version run \<noteq> POLICY_VERSION \<or>
     run_closed run t \<or>
     (case oc_project_id oc of None \<Rightarrow> False | Some p \<Rightarrow> get_project s p = None)"

definition eligible_linked_run ::
  "(string \<Rightarrow> string \<Rightarrow> automatic_agent_definition option) \<Rightarrow> uuid \<Rightarrow> instant \<Rightarrow> 'a automation_db_scheme
     \<Rightarrow> exn + (uuid \<times> automatic_agent_definition)" where
  "eligible_linked_run resolver oid t s =
    (case lock_occurrence s oid of
       None \<Rightarrow> Inl AutomaticEligibilityError
     | Some oc \<Rightarrow>
        (case oc_agent_run_id oc of
           None \<Rightarrow> Inl AutomaticEligibilityError
         | Some rid \<Rightarrow>
            (case (get_automation s (oc_automation_id oc), get_agent_run s rid,
                   resolver (oc_agent_kind oc) (oc_agent_version oc)) of
               (Some a, Some run, Some d) \<Rightarrow>
                 if ineligible s a oc run d t then Inl AutomaticEligibilityError
                 else Inr (r_id run, d)
             | _ \<Rightarrow> Inl AutomaticEligibilityError)))"

end
