(* ===== verification/Automation_Properties.thy ===== *)
theory Automation_Properties
  imports Automation_Tick Automation_Coordinator
begin

text \<open>
  What the scheduler promises, over single operations and over any sequence of ticks, lease
  renewals and operator requests; and two ways in which the code breaks what its documents promise.
\<close>

section \<open>Sequences of steps\<close>

lemma serve_frame:
  "db_occurrences (commits (serve zones aid t rq s) s) = db_occurrences s \<and>
   db_next_id (commits (serve zones aid t rq s) s) = db_next_id s"
proof (cases "serve zones aid t rq s")
  case (Pair r u)
  show ?thesis
  proof (cases r)
    case (Inl e)
    then show ?thesis using Pair by simp
  next
    case (Inr a)
    then obtain f where "u = upd_automation aid f s" using serve_OK Pair by metis
    then show ?thesis using Pair Inr by (simp add: upd_automation_def)
  qed
qed

lemma create_automation_frame:
  "db_occurrences (commits (create_automation zones rq t s) s) = db_occurrences s \<and>
   db_next_id s \<le> db_next_id (commits (create_automation zones rq t s) s)"
  by (simp add: create_automation_def insert_automation_def uuid4_def add_automation_def Let_def
      split: sum.split)

lemma commits_keeps: "P s \<Longrightarrow> P (snd m) \<Longrightarrow> P (commits m s)"
  by (simp add: commits_def split: sum.split)

lemma slots_frame:
  "slots_unique s \<Longrightarrow> db_occurrences s' = db_occurrences s \<Longrightarrow> db_next_id s \<le> db_next_id s' \<Longrightarrow> slots_unique s'"
  using history_frame [of "[]" s s'] by (simp add: slots_unique_def)

lemma active_frame:
  "active_within n s \<Longrightarrow> db_occurrences s' = db_occurrences s \<Longrightarrow> db_next_id s \<le> db_next_id s' \<Longrightarrow> active_within n s'"
  using history_frame [of "[]" s s'] by (simp add: active_within_def count_active)

lemma perform_keeps:
  assumes inv: "occurrence_invariant I"
    and claim: "\<And>s busy t owner lease limit. I s \<Longrightarrow> I (snd (claim_due busy t owner lease limit s))"
    and frame: "\<And>s s'. I s \<Longrightarrow> db_occurrences s' = db_occurrences s \<Longrightarrow> db_next_id s \<le> db_next_id s' \<Longrightarrow> I s'"
    and "I s"
  shows "I (perform st s)"
proof (cases st)
  case (Tick env t)
  then show ?thesis
    using occurrence_invariant.run_one_tick_keeps [OF inv assms(4) claim refl] by simp
next
  case (Renew c t lease)
  then show ?thesis using occurrence_invariant.renew_claim_keeps [OF inv assms(4)]
    by (simp add: commits_keeps assms(4))
next
  case (Request zones aid t rq)
  then show ?thesis using frame [OF assms(4)] serve_frame [of zones aid t rq s] by simp
next
  case (Create zones rq t)
  then show ?thesis using frame [OF assms(4)] create_automation_frame [of zones rq t s] by simp
qed

lemma perform_all_keeps:
  assumes "occurrence_invariant I"
    and "\<And>s busy t owner lease limit. I s \<Longrightarrow> I (snd (claim_due busy t owner lease limit s))"
    and "\<And>s s'. I s \<Longrightarrow> db_occurrences s' = db_occurrences s \<Longrightarrow> db_next_id s \<le> db_next_id s' \<Longrightarrow> I s'"
  shows "I s \<Longrightarrow> I (perform_all steps s)"
proof (induction steps arbitrary: s)
  case (Cons st steps)
  have "I (perform st s)" by (rule perform_keeps [OF assms Cons.prems])
  then show ?case using Cons.IH by (simp add: perform_all_def)
qed (simp add: perform_all_def)

lemma perform_all_history: "occurrence_history past s \<Longrightarrow> occurrence_history past (perform_all steps s)"
  by (rule perform_all_keeps [of "occurrence_history past"])
    (rule history.occurrence_invariant_axioms, rule history.claim_due_keeps, assumption, rule history_frame)

lemma perform_all_slots: "slots_unique s \<Longrightarrow> slots_unique (perform_all steps s)"
  by (rule perform_all_keeps [of slots_unique])
    (rule slots.occurrence_invariant_axioms, rule slots.claim_due_keeps, assumption, rule slots_frame)

lemma perform_all_active:
  "active_within MAX_ACTIVE_OCCURRENCES s \<Longrightarrow> active_within MAX_ACTIVE_OCCURRENCES (perform_all steps s)"
  by (rule perform_all_keeps [of "active_within MAX_ACTIVE_OCCURRENCES"])
    (rule active.occurrence_invariant_axioms, rule claim_due_active, assumption, rule active_frame)

lemma history_start:
  assumes "occurrence_history past s"
  shows "occurrence_history (db_occurrences s) s"
  using assms row_get_distinct [of oc_id "db_occurrences s"]
  by (auto simp: occurrence_history_def evolved_def lock_occurrence_def)

section \<open>Invariants of the system\<close>

text \<open>C7: Whatever ticks, lease renewals and operator requests follow one another, in any order and by
  any number of owners: a slot of an Automation has one occurrence at most, at most 32
  occurrences are claimed or linked, and every occurrence there was is still there and has only
  evolved: a terminal one is untouched, any other has kept its captured snapshot and the Run it
  had, and its state is reachable along the lifecycle.\<close>

theorem automation_system_invariants:
  assumes "slots_unique s" and "active_within MAX_ACTIVE_OCCURRENCES s"
  shows "slots_unique (perform_all steps s) \<and>
    active_within MAX_ACTIVE_OCCURRENCES (perform_all steps s) \<and>
    (\<forall>x \<in> set (db_occurrences s). \<exists>y. lock_occurrence (perform_all steps s) (oc_id x) = Some y \<and> evolved x y)"
proof -
  have "occurrence_history (db_occurrences s) (perform_all steps s)"
    using assms(1) by (intro perform_all_history history_start [of "[]"]) (simp add: slots_unique_def)
  then show ?thesis
    using perform_all_slots [OF assms(1)] perform_all_active [OF assms(2)]
    by (simp add: occurrence_history_def)
qed

section \<open>Lease fencing\<close>

text \<open>A claim that a later generation has superseded, or whose occurrence is terminal.\<close>

definition superseded :: "occurrence_claim \<Rightarrow> occurrence \<Rightarrow> bool" where
  "superseded c x \<longleftrightarrow> cl_lease_generation c < oc_lease_generation x \<or> terminal_occurrence (oc_state x)"

lemma superseded_evolved: "superseded c x \<Longrightarrow> evolved x y \<Longrightarrow> superseded c y"
  by (auto simp: superseded_def evolved_def)

lemma superseded_invalid: "superseded c x \<Longrightarrow> validate_claim a x c t = Inl ClaimFenceError"
  by (auto simp: superseded_def validate_claim_def terminal_occurrence_def)

lemma superseded_fenced:
  assumes "lock_occurrence s (cl_occurrence_id c) = Some x" and "superseded c x"
  shows "renew_claim c t lease s = (Inl (if \<exists>d. lease_duration lease = Inr d then ClaimFenceError
      else SchedulerValidationError), s)"
    and "snd (create_and_link_run sha other c t s) = s"
    and "fst (create_and_link_run sha other c t s) \<noteq> Inr (rid, True)"
proof -
  show "renew_claim c t lease s = (Inl (if \<exists>d. lease_duration lease = Inr d then ClaimFenceError
      else SchedulerValidationError), s)"
    using assms(1) superseded_invalid [OF assms(2)]
    by (cases "get_automation s (cl_automation_id c)")
      (auto simp: renew_claim_def lease_duration_def split: sum.splits if_splits)
  show "snd (create_and_link_run sha other c t s) = s" "fst (create_and_link_run sha other c t s) \<noteq> Inr (rid, True)"
    using assms(1) superseded_invalid [OF assms(2)]
    by (auto simp: create_and_link_run_def Let_def split: option.splits sum.splits if_splits)
qed

lemma claim_rows_frame:
  fixes s :: "'a automation_db_scheme"
  assumes "\<And>y. snapshot (f y) = snapshot y"
  shows "i \<notin> oc_id ` set ocs \<Longrightarrow> lock_occurrence (snd (claim_rows f owner ocs s)) i = lock_occurrence s i"
proof (induction ocs arbitrary: s)
  case (Cons oc ocs)
  have inner: "lock_occurrence (snd (andThen (claim_rows f owner ocs u) (\<lambda>cs v. (Inr (g cs), v)))) i = lock_occurrence u i"
    for g :: "occurrence_claim list \<Rightarrow> occurrence_claim list" and u :: "'a automation_db_scheme"
    using Cons by (intro trans [OF andThen_frame [where F = "\<lambda>u. lock_occurrence u i"]]) simp_all
  show ?case unfolding claim_rows.simps
    using Cons.prems flush_occurrence_frame [of f i "oc_id oc" s, OF assms]
    by (intro trans [OF andThen_frame [where F = "\<lambda>u. lock_occurrence u i"]]) (simp_all add: inner Cons.IH)
qed simp

text \<open>The claims a batch returns are those of its rows.\<close>

lemma claim_rows_OK:
  assumes snap: "\<And>y. snapshot (f y) = snapshot y"
  shows "claim_rows f owner ocs s = (Inr cs, s') \<Longrightarrow> selected s ocs \<Longrightarrow> c \<in> set cs \<Longrightarrow>
    \<exists>oc \<in> set ocs. c = claim_of owner (f oc) \<and> lock_occurrence s (oc_id oc) = Some oc \<and>
      lock_occurrence s' (oc_id oc) = Some (f oc)"
proof (induction ocs arbitrary: s cs)
  case (Cons oc ocs)
  obtain x u cs2 where flush: "flush_occurrence (oc_id oc) f s = (Inr x, u)"
    and rest: "claim_rows f owner ocs u = (Inr cs2, s')" and cs: "cs = claim_of owner x # cs2"
    using Cons.prems(1) by (auto simp: andThen_Inr_iff)
  have sel: "selected u ocs" using selected_flush [OF Cons.prems(2) snap] flush by simp
  have here: "lock_occurrence s (oc_id oc) = Some oc" using Cons.prems(2) by (simp add: selected_def)
  have x: "x = f oc" "lock_occurrence u (oc_id oc) = Some (f oc)"
  proof -
    obtain z where z: "lock_occurrence s (oc_id oc) = Some z" "x = f z" "u = upd_occurrence (oc_id oc) f s"
      using flush by (rule flush_occurrence_OK)
    then show "x = f oc" "lock_occurrence u (oc_id oc) = Some (f oc)"
      using here by (simp_all add: row_get_upd_occurrence [OF snap])
  qed
  have apart: "oc_id oc \<notin> oc_id ` set ocs" using Cons.prems(2) by (auto simp: selected_def)
  show ?case
  proof (cases "c \<in> set cs2")
    case True
    from Cons.IH [OF rest sel True] obtain y where y: "y \<in> set ocs" "c = claim_of owner (f y)"
      "lock_occurrence u (oc_id y) = Some y" "lock_occurrence s' (oc_id y) = Some (f y)" by blast
    moreover have "lock_occurrence s (oc_id y) = Some y"
      using Cons.prems(2) y(1) by (simp add: selected_def)
    ultimately show ?thesis by auto
  next
    case False
    then have "c = claim_of owner (f oc)" using Cons.prems(3) cs x(1) by simp
    moreover have "lock_occurrence s' (oc_id oc) = Some (f oc)"
      using claim_rows_frame [of f, OF snap apart, of owner u] rest x(2) by simp
    ultimately show ?thesis using here by auto
  qed
qed simp

text \<open>C8: A lost lease is lost for good: once an expired claim has been reclaimed, every claim that was
  issued for the occurrence before, by whatever owner, can no longer be renewed and cannot create
  or link a Run, at any time, after any ticks, renewals and requests. The new claim is live: its
  owner and generation are those of the row and its lease runs from the reclaim.\<close>

theorem reclaim_fences_older_claims:
  assumes "reclaim_expired busy t owner lease limit s = (Inr cs, s')" and "c' \<in> set cs"
    and "occurrence_history [] s"
    and "cl_occurrence_id c = cl_occurrence_id c'" and "lock_occurrence s (cl_occurrence_id c) = Some x"
    and "cl_lease_generation c \<le> oc_lease_generation x"
  shows "(\<exists>y. lock_occurrence s' (cl_occurrence_id c') = Some y \<and> oc_state y = OC_CLAIMED \<and>
      oc_lease_owner_token y = Some owner \<and> oc_lease_generation y = cl_lease_generation c' \<and>
      oc_lease_expires_at y = Some (t + lease)) \<and>
    fst (renew_claim c t2 lease2 (perform_all steps s')) \<noteq> Inr c \<and>
    snd (create_and_link_run sha other c t2 (perform_all steps s')) = perform_all steps s' \<and>
    fst (create_and_link_run sha other c t2 (perform_all steps s')) \<noteq> Inr (rid, True)"
proof -
  obtain n where rows: "claim_rows (reclaim_row owner lease t) owner
      (filter (\<lambda>oc. oc_agent_run_id oc = None) (lock_expired_claims s busy t n)) s = (Inr cs, s')"
    using assms(1) by (auto simp: reclaim_expired_def lease_duration_def split: sum.splits if_splits)
  have sel: "selected s (filter (\<lambda>oc. oc_agent_run_id oc = None) (lock_expired_claims s busy t n))"
    unfolding lock_expired_claims_def using history.distinct_ids [OF assms(3)]
    by (intro selected_filter selected_query)
  obtain oc where oc: "oc \<in> set (lock_expired_claims s busy t n)" "c' = claim_of owner (reclaim_row owner lease t oc)"
    "lock_occurrence s (oc_id oc) = Some oc" "lock_occurrence s' (oc_id oc) = Some (reclaim_row owner lease t oc)"
    using claim_rows_OK [OF _ rows sel assms(2)] by auto
  have st: "oc_state oc = OC_CLAIMED" using oc(1) by (auto simp: lock_expired_claims_def dest!: in_set_takeD)
  have id: "cl_occurrence_id c' = oc_id oc" using oc(2) by (simp add: claim_of_def reclaim_row_def)
  then have "x = oc" using assms(4,5) oc(3) by simp
  then have sup: "superseded c (reclaim_row owner lease t oc)"
    using assms(6) by (simp add: superseded_def reclaim_row_def)
  have live: "\<exists>y. lock_occurrence s' (cl_occurrence_id c') = Some y \<and> oc_state y = OC_CLAIMED \<and>
      oc_lease_owner_token y = Some owner \<and> oc_lease_generation y = cl_lease_generation c' \<and>
      oc_lease_expires_at y = Some (t + lease)"
    using oc st id by (simp add: claim_of_def reclaim_row_def)
  have "occurrence_history [] s'"
    using history.reclaim_expired_keeps [OF assms(3), of busy t owner lease limit] assms(1) by simp
  then have "occurrence_history (db_occurrences s') (perform_all steps s')"
    by (intro perform_all_history history_start)
  then obtain y where "lock_occurrence (perform_all steps s') (oc_id (reclaim_row owner lease t oc)) = Some y"
    "evolved (reclaim_row owner lease t oc) y"
    using occurrences.get_key [OF oc(4)] row_get_in [of oc_id "db_occurrences s'" "oc_id oc"] oc(4)
    unfolding occurrence_history_def lock_occurrence_def by metis
  then have here: "lock_occurrence (perform_all steps s') (cl_occurrence_id c) = Some y" "superseded c y"
    using superseded_evolved [OF sup] assms(4) id by (simp_all add: reclaim_row_def)
  note fenced = superseded_fenced [OF here]
  show ?thesis using live fenced(2,3) by (simp add: fenced(1))
qed

section \<open>Examples\<close>

definition example_start :: instant where "example_start = 700000 * DAY + hours 1"

definition example_due :: occurrence where
  "example_due = (new_occurrence example_enabled example_slot example_start OC_DUE None)\<lparr>oc_id := 7\<rparr>"

definition example_claimed :: occurrence where
  "example_claimed = claim_row 40 (seconds 30) example_start example_due"

definition example_claim :: "uuid \<Rightarrow> int \<Rightarrow> occurrence_claim" where
  "example_claim owner generation = \<lparr> cl_occurrence_id = 7, cl_automation_id = 5, cl_owner_token = owner,
     cl_lease_generation = generation \<rparr>"

definition example_tick :: tick_env where
  "example_tick = \<lparr> te_zones = example_zones, te_sha = (\<lambda>text. text), te_busy = (\<lambda>_. False),
     te_faults = (\<lambda>_. (None, Acknowledged)), te_owner = 40, te_lease = seconds 30, te_limit = 16 \<rparr>"

lemma example_history:
  "occurrence_history [] (automation_example_db as [example_due])"
  "occurrence_history [] (automation_example_db as [example_claimed])"
  by (simp_all add: occurrence_history_def automation_example_db_def example_due_def example_claimed_def
      claim_row_def)

theorem automation_system_invariants_witness:
  "\<exists>y. lock_occurrence (perform_all [Tick example_tick example_start, Request example_zones 5 example_start (Cancel 1)]
     (automation_example_db [example_enabled] [example_due])) 7 = Some y \<and> evolved example_due y"
  using automation_system_invariants [of "automation_example_db [example_enabled] [example_due]"
      "[Tick example_tick example_start, Request example_zones 5 example_start (Cancel 1)]"] example_history(1)
  by (simp add: slots_unique_def active_within_def count_active active_def automation_example_db_def
      example_due_def new_occurrence_def)

theorem reclaim_fences_older_claims_witness:
  "\<exists>s'. reclaim_expired (\<lambda>_. False) (example_start + minutes 1) 41 (seconds 30) 16
      (automation_example_db [example_enabled] [example_claimed]) = (Inr [example_claim 41 2], s' :: automation_db) \<and>
    fst (renew_claim (example_claim 40 1) (example_start + minutes 2) (seconds 30)
      (perform_all [Tick example_tick (example_start + minutes 2)] s')) \<noteq> Inr (example_claim 40 1)"
proof -
  let ?s = "automation_example_db [example_enabled] [example_claimed]"
  have eq: "reclaim_expired (\<lambda>_. False) (example_start + minutes 1) 41 (seconds 30) 16 ?s =
     (Inr [example_claim 41 2], snd (reclaim_expired (\<lambda>_. False) (example_start + minutes 1) 41 (seconds 30) 16 ?s))"
    by code_simp
  have row: "lock_occurrence ?s (cl_occurrence_id (example_claim 40 1)) = Some example_claimed"
    by (simp add: lock_occurrence_def automation_example_db_def example_claim_def example_claimed_def
        claim_row_def example_due_def row_get_Cons)
  have old: "cl_lease_generation (example_claim 40 1) \<le> oc_lease_generation example_claimed"
    by (simp add: example_claim_def example_claimed_def claim_row_def example_due_def new_occurrence_def)
  have "example_claim 41 2 \<in> set [example_claim 41 2]"
    "cl_occurrence_id (example_claim 40 1) = cl_occurrence_id (example_claim 41 2)"
    by (simp_all add: example_claim_def)
  from reclaim_fences_older_claims [OF eq this(1) example_history(2) this(2) row old] eq
  show ?thesis by blast
qed

end
