(* ===== verification/Automation_Outcomes.thy ===== *)
theory Automation_Outcomes
  imports Automation_Properties
begin

text \<open>
  What single operations of the scheduler achieve: the slot a materialization records, the Run a
  claim links, the bounds of a deferral, the state a reconciliation projects.
\<close>

section \<open>Materialization\<close>

lemma latest_loop_OK:
  assumes "latest_loop zones d t n p = Inr (q, following)" and "sp_utc_instant p \<le> t"
  shows "sp_utc_instant p \<le> sp_utc_instant q \<and> sp_utc_instant q \<le> t \<and>
    next_point zones d (sp_utc_instant q) (Some q) = Inr following \<and>
    (case following of None \<Rightarrow> True | Some f \<Rightarrow> t < sp_utc_instant f)"
  using assms
proof (induction n arbitrary: p)
  case (Suc n)
  show ?case
  proof (cases "next_point zones d (sp_utc_instant p) (Some p)")
    case (Inl e)
    then show ?thesis using Suc.prems by simp
  next
    case (Inr r)
    show ?thesis
    proof (cases r)
      case None
      then show ?thesis using Suc.prems Inr by auto
    next
      case (Some f)
      show ?thesis
      proof (cases "t < sp_utc_instant f")
        case True
        then show ?thesis using Suc.prems Inr Some by auto
      next
        case False
        then have "latest_loop zones d t n f = Inr (q, following)" using Suc.prems(1) Inr Some by simp
        from Suc.IH [OF this] False slot_after [OF Inr [unfolded Some]] show ?thesis by auto
      qed
    qed
  qed
qed simp

lemma latest_due_OK:
  assumes "latest_due_and_future zones a t = Inr (p, following, older)"
    and "au_next_occurrence_at a = Some u" and "u \<le> t"
  shows "u \<le> sp_utc_instant p \<and> sp_utc_instant p \<le> t \<and> older = (u < t - MAX_LOOKBACK) \<and>
    next_point zones (automation_definition a) (sp_utc_instant p) (Some p) = Inr following \<and>
    (case following of None \<Rightarrow> True | Some f \<Rightarrow> t < sp_utc_instant f)"
proof -
  obtain q where q: "scheduled_point zones a u = Inr q" "older = (sp_utc_instant q < t - MAX_LOOKBACK)"
    "latest_loop zones (automation_definition a) t 1000000 q = Inr (p, following)"
    using assms(1,2) by (auto simp: latest_due_and_future_def split: sum.splits prod.splits)
  then have "sp_utc_instant q = u"
    by (auto simp: scheduled_point_def Let_def split: option.splits)
  then show ?thesis using latest_loop_OK [OF q(3)] q(2) assms(3) by auto
qed

lemma find_or_insert_OK:
  assumes "find_or_insert other a p older t s = (Inr oc, s')"
  shows "oc_scheduled_at oc = sp_utc_instant p \<and> oc_automation_id oc = au_id a \<and>
    oc_schedule_revision oc = au_schedule_revision a \<and>
    (get_occurrence_by_slot s (au_id a) (au_schedule_revision a) (sp_utc_instant p) = Some oc \<or>
     get_occurrence_by_slot (other s) (au_id a) (au_schedule_revision a) (sp_utc_instant p) = Some oc \<or>
     oc = (new_occurrence a p t (if missed a then OC_MISSED else OC_DUE) (disposition_of a older))
       \<lparr>oc_id := db_next_id (other s)\<rparr>)"
proof -
  let ?n = "new_occurrence a p t (if missed a then OC_MISSED else OC_DUE) (disposition_of a older)"
  have found: "oc_scheduled_at oc = sp_utc_instant p \<and> oc_automation_id oc = au_id a \<and>
      oc_schedule_revision oc = au_schedule_revision a"
    if "get_occurrence_by_slot u (au_id a) (au_schedule_revision a) (sp_utc_instant p) = Some oc"
    for u :: "'a automation_db_scheme"
    using that by (auto simp: get_occurrence_by_slot_def find_Some_iff)
  have made: "oc = ?n\<lparr>oc_id := db_next_id (other s)\<rparr>"
    if "insert_automation_occurrence ?n (other s) = (Inr oc, u)" for u
    using that by (auto simp: insert_automation_occurrence_def uuid4_def Let_def split: if_splits)
  have slot: "oc_scheduled_at ?n = sp_utc_instant p" "oc_automation_id ?n = au_id a"
    "oc_schedule_revision ?n = au_schedule_revision a" by (simp_all add: new_occurrence_def)
  obtain r u where ins: "insert_automation_occurrence ?n (other s) = (r, u)" by fastforce
  show ?thesis
  proof (cases "get_occurrence_by_slot s (au_id a) (au_schedule_revision a) (sp_utc_instant p)")
    case (Some x)
    then show ?thesis using assms found [of s] by (simp add: find_or_insert_def)
  next
    case None
    show ?thesis
    proof (cases r)
      case (Inl e)
      then have "get_occurrence_by_slot (other s) (au_id a) (au_schedule_revision a) (sp_utc_instant p) = Some oc"
        using assms None ins by (auto simp: find_or_insert_def Let_def split: if_splits option.splits)
      then show ?thesis using found by blast
    next
      case (Inr x)
      then have "x = oc" using assms None ins by (simp add: find_or_insert_def Let_def)
      then show ?thesis using made ins Inr slot by auto
    qed
  qed
qed

lemma notify_automations [simp]:
  "get_automation (snd (notify oc event_kind severity code t s)) i = get_automation s i"
  by (auto simp: notify_def insert_automation_notification_def uuid4_def get_automation_def
      add_notification_def Let_def split: option.splits sum.splits prod.splits if_splits)

lemma notify_OK:
  assumes "get_automation s (oc_automation_id oc) \<noteq> None"
    and "lock_occurrence s (oc_id oc) = Some x" "oc_automation_id x = oc_automation_id oc" and "code \<noteq> []"
  shows "\<exists>s'. notify oc event_kind severity code t s = (Inr (), s')"
proof -
  have "x \<in> set (db_occurrences s)" "oc_id x = oc_id oc"
    using assms(2) by (auto simp: lock_occurrence_def dest: row_get_in row_get_key)
  then have "get_automation_occurrence s (oc_automation_id oc) (oc_id oc) \<noteq> None"
    using assms(3) by (auto simp: get_automation_occurrence_def find_None_iff)
  then show ?thesis using assms(1,4)
    by (simp add: notify_def insert_automation_notification_def notice_def uuid4_def Let_def)
qed


definition example_tomorrow :: schedule_point where
  "example_tomorrow = \<lparr> sp_local_date = 700001, sp_local_time = hours 2 + minutes 30,
     sp_timezone_name = ''Test/Zone'', sp_utc_offset_minutes = 120,
     sp_utc_instant = 700001 * DAY + minutes 30 \<rparr>"

lemma example_tomorrow_point:
  "point example_zones 700001 (hours 2 + minutes 30) example_daily = Inr example_tomorrow"
  by (simp add: point_def find_zone_def example_zones_def example_daily_def resolve_local_def
        example_zone_valid example_tomorrow_def to_utc_def example_numbers)
    (simp add: example_numbers example_zone_def)

lemma example_tomorrow_next:
  "next_point example_zones example_daily (sp_utc_instant example_slot) (Some example_slot) = Inr (Some example_tomorrow)"
proof -
  have "validate_definition example_zones example_daily = Inr ()"
    by (simp add: validate_definition_def find_zone_def example_zones_def example_daily_def example_numbers)
  moreover have "daily_search example_zones example_daily (sp_utc_instant example_slot) 1 (Suc 366) 700001 =
      Inr (Some example_tomorrow)"
  proof -
    have time: "sd_local_time example_daily = hours 2 + minutes 30" by (simp add: example_daily_def)
    have "sp_utc_instant example_slot < sp_utc_instant example_tomorrow"
      by (simp add: example_slot_def example_tomorrow_def example_numbers)
    then show ?thesis unfolding daily_search.simps time example_tomorrow_point by simp
  qed
  ultimately show ?thesis
    by (simp add: next_point_def find_zone_def example_zones_def)
      (simp add: example_daily_def example_slot_def example_zones_def)
qed

lemma example_latest:
  "latest_due_and_future example_zones example_enabled example_start = Inr (example_slot, Some example_tomorrow, False)"
proof -
  have at: "sp_utc_instant example_slot = example_start" by (simp add: example_slot_def example_start_def)
  have d: "automation_definition example_enabled = example_daily"
    by (simp add: automation_definition_def example_enabled_def example_automation_def example_daily_def)
  have "scheduled_point example_zones example_enabled example_start = Inr example_slot"
    by (simp add: scheduled_point_def example_zones_def example_enabled_def example_automation_def from_utc_def
        example_zone_def example_start_def example_slot_def example_numbers)
  moreover have "latest_loop example_zones example_daily example_start (Suc 999999) example_slot =
      Inr (example_slot, Some example_tomorrow)"
  proof -
    have "example_start < sp_utc_instant example_tomorrow"
      by (simp add: example_tomorrow_def example_start_def example_numbers)
    then show ?thesis unfolding latest_loop.simps example_tomorrow_next by simp
  qed
  moreover have "au_next_occurrence_at example_enabled = Some example_start"
    by (simp add: example_enabled_def at)
  ultimately show ?thesis
    by (simp add: latest_due_and_future_def d at MAX_LOOKBACK_def days_def)
qed

definition example_missed :: occurrence where
  "example_missed = (new_occurrence example_enabled example_slot example_start OC_MISSED
     (Some ''missed_skipped''))\<lparr>oc_id := 10\<rparr>"


section \<open>Linking\<close>

lemma create_run_result:
  assumes "create_run other rq key fp t s = (Inr (run, created), u)"
    and "\<forall>r \<in> set (db_runs (other s)). r_id r < db_next_id (other s)"
  shows "get_run_by_hash u key = Some run \<and> r_fingerprint run = fp \<and>
    (created \<longrightarrow> r_project_id run = rc_project_id rq \<and> r_agent_kind run = rc_agent_kind rq \<and>
       r_agent_version run = rc_agent_version rq \<and> r_state run = CREATED)"
proof (cases rule: create_run_cases [of other rq key fp t s])
  case (fail err v)
  with assms(1) show ?thesis by simp
next
  case (replay r v)
  with assms(1) show ?thesis by auto
next
  case fresh
  then show ?thesis
    using create_run_fresh [of s key other rq fp t, OF fresh assms(2)] assms(1)
    by (auto simp: get_run_by_hash_def new_run_def find_append split: option.splits)
qed

lemma create_run_automations:
  fixes s :: "'a automation_db_scheme"
  shows "db_automations (snd (create_run other rq key fp t s)) \<in> {db_automations s, db_automations (other s)}"
proof -
  let ?k = "\<lambda>g. \<lambda>run s2. andThen (append_agent_event (g run) s2) (\<lambda>_ s3. (Inr (run, True), s3))"
  have keep: "db_automations (snd (append_agent_event e w)) = db_automations w"
    "db_automations (snd (create_agent_run n w)) = db_automations w" for e n and w :: "'a automation_db_scheme"
    by (simp_all add: append_agent_event_eq create_agent_run_def uuid4_def add_agent_run_def Let_def split: option.split)
  have made: "db_automations (snd (andThen (create_agent_run n w) (?k g))) = db_automations w"
    for n g and w :: "'a automation_db_scheme"
    by (rule trans [OF andThen_frame [where F = db_automations]],
        rule trans [OF andThen_frame [where F = db_automations]]) (simp_all add: keep)
  show ?thesis by (simp add: create_run_def Let_def uuid4_def made split: option.split)
qed

lemma link_row_run: "oc_agent_run_id (link_row x) = oc_agent_run_id x" "oc_occurrence_key (link_row x) = oc_occurrence_key x"
  "oc_id (link_row x) = oc_id x"
  by (simp_all add: link_row_def)

lemma run_identity:
  assumes "snapshot y = snapshot x"
  shows "run_request y = run_request x" "run_key y = run_key x"
proof -
  have "oc_project_id y = oc_project_id x" "oc_agent_kind y = oc_agent_kind x"
    "oc_agent_version y = oc_agent_version x" "oc_automation_label y = oc_automation_label x"
    "oc_id y = oc_id x" "oc_occurrence_key y = oc_occurrence_key x"
    using assms by (cases x, cases y, simp add: snapshot_def)+
  then show "run_request y = run_request x" "run_key y = run_key x"
    by (simp_all add: run_request_def run_key_def)
qed

definition linked :: "uuid \<Rightarrow> occurrence \<Rightarrow> occurrence" where
  "linked rid = link_row \<circ> (\<lambda>x. x\<lparr>oc_agent_run_id := Some rid\<rparr>)"

lemma linked_row:
  "oc_agent_run_id (linked rid x) = Some rid" "oc_state (linked rid x) = OC_RUN_CREATED"
  "snapshot (linked rid x) = snapshot x" "oc_id (linked rid x) = oc_id x"
  by (simp_all add: linked_def link_row_def snapshot_def)

lemma link_run_OK:
  assumes "link_run x (r, b) u = (Inr (rid, created), s')"
  shows "rid = r_id r \<and> created = b \<and> s' = upd_occurrence (oc_id x) (linked (r_id r)) u"
proof -
  have free: "\<not> (oc_agent_run_id x \<noteq> None \<and> oc_agent_run_id x \<noteq> Some (r_id r))"
    using assms by (cases "oc_agent_run_id x \<noteq> None \<and> oc_agent_run_id x \<noteq> Some (r_id r)") (simp_all add: link_run_def)
  have "andThen (flush_occurrence (oc_id x) (linked (r_id r)) u) (\<lambda>_ s1. (Inr (r_id r, b), s1)) = (Inr (rid, created), s')"
    using assms unfolding link_run_def linked_def Let_def prod.case if_not_P [OF free] .
  then obtain y where "flush_occurrence (oc_id x) (linked (r_id r)) u = (Inr y, s')" "rid = r_id r" "created = b"
    unfolding andThen_Inr_iff by blast
  then show ?thesis by (blast elim: flush_occurrence_OK)
qed

definition linked_to :: "(string \<Rightarrow> string) \<Rightarrow> occurrence_claim \<Rightarrow> occurrence \<Rightarrow> uuid \<Rightarrow> bool
    \<Rightarrow> 'a automation_db_scheme \<Rightarrow> bool" where
  "linked_to sha c x rid created s \<longleftrightarrow>
    (\<exists>run y. get_automation s (cl_automation_id c) \<noteq> None \<and>
      lock_occurrence s (cl_occurrence_id c) = Some y \<and> snapshot y = snapshot x \<and> oc_state y = OC_RUN_CREATED \<and>
      oc_agent_run_id y = Some rid \<and> r_id run = rid \<and>
      get_run_by_hash s (hash_idempotency_key sha (run_key x)) = Some run \<and>
      r_fingerprint run = normalized_request_fingerprint sha (run_request x) \<and>
      (created \<longrightarrow> r_state run = CREATED \<and> r_project_id run = oc_project_id x \<and>
         r_agent_kind run = oc_agent_kind x \<and> r_agent_version run = oc_agent_version x))"

lemma new_run_linked:
  fixes s :: "'a automation_db_scheme"
  assumes ok: "andThen (create_run other (run_request x) (hash_idempotency_key sha (run_key x))
      (normalized_request_fingerprint sha (run_request x)) t s) (link_run x) = (Inr (rid, created), s')"
    and here: "get_automation s (cl_automation_id c) = Some a" "lock_occurrence s (cl_occurrence_id c) = Some x"
    and other: "\<forall>r \<in> set (db_runs (other s)). r_id r < db_next_id (other s)"
      "lock_occurrence (other s) (cl_occurrence_id c) = lock_occurrence s (cl_occurrence_id c)"
      "\<forall>i. get_automation (other s) i = get_automation s i"
  shows "linked_to sha c x rid created s'"
proof -
  let ?key = "hash_idempotency_key sha (run_key x)"
  let ?fp = "normalized_request_fingerprint sha (run_request x)"
  obtain r b u where run: "create_run other (run_request x) ?key ?fp t s = (Inr (r, b), u)"
    and link: "link_run x (r, b) u = (Inr (rid, created), s')"
    using ok unfolding andThen_Inr_iff by (metis surj_pair)
  have out: "rid = r_id r" "created = b" "s' = upd_occurrence (oc_id x) (linked (r_id r)) u"
    using link_run_OK [OF link] by simp_all
  have id: "oc_id x = cl_occurrence_id c" using here(2) by (rule occurrences.get_key)
  have "lock_occurrence u (oc_id x) = Some x"
    using create_run_frame [of s other "run_request x" ?key ?fp t] run other(2) here(2) id
    by (auto simp: lock_occurrence_def)
  then have row: "lock_occurrence s' (cl_occurrence_id c) = Some (linked rid x)"
    by (simp add: out id row_get_upd_occurrence [OF linked_row(3)])
  have "db_automations u \<in> {db_automations s, db_automations (other s)}"
    using create_run_automations [of other "run_request x" ?key ?fp t s] run by simp
  then have "get_automation s' (cl_automation_id c) \<noteq> None"
    using other(3) here(1) by (auto simp: out get_automation_def upd_occurrence_def)
  moreover have "get_run_by_hash s' ?key = Some r \<and> r_fingerprint r = ?fp \<and>
      (created \<longrightarrow> r_state r = CREATED \<and> r_project_id r = oc_project_id x \<and>
        r_agent_kind r = oc_agent_kind x \<and> r_agent_version r = oc_agent_version x)"
    using create_run_result [OF run other(1)] by (simp add: out run_request_def get_run_by_hash_def upd_occurrence_def)
  ultimately show ?thesis using row out(1)
    unfolding linked_to_def by (intro exI [of _ r] exI [of _ "linked rid x"]) (simp add: linked_row)
qed

lemma create_and_link_linked:
  fixes s :: "'a automation_db_scheme"
  assumes ok: "create_and_link_run sha other c t s = (Inr (rid, created), s')"
    and here: "get_automation s (cl_automation_id c) = Some a" "lock_occurrence s (cl_occurrence_id c) = Some x"
    and other: "\<forall>r \<in> set (db_runs (other s)). r_id r < db_next_id (other s)"
      "lock_occurrence (other s) (cl_occurrence_id c) = lock_occurrence s (cl_occurrence_id c)"
      "\<forall>i. get_automation (other s) i = get_automation s i"
  shows "linked_to sha c x rid created s'"
proof (cases "oc_state x = OC_RUN_CREATED \<and> oc_agent_run_id x \<noteq> None")
  case True
  then obtain run b where "resolve_create_replay s (hash_idempotency_key sha (run_key x))
      (normalized_request_fingerprint sha (run_request x)) = Inr (Some (run, b))"
    "oc_agent_run_id x = Some (r_id run)" "rid = r_id run" "\<not> created" "s' = s"
    using ok here by (auto simp: create_and_link_run_def Let_def split: sum.splits option.splits if_splits)
  then show ?thesis using here True
    by (auto simp: linked_to_def resolve_create_replay_def replay_or_conflict_def split: option.splits if_splits)
next
  case False
  then have "andThen (create_run other (run_request x) (hash_idempotency_key sha (run_key x))
      (normalized_request_fingerprint sha (run_request x)) t s) (link_run x) = (Inr (rid, created), s')"
    using ok here
    by (cases "validate_claim a x c t") (simp_all add: create_and_link_run_def Let_def split: if_splits)
  then show ?thesis using here other by (rule new_run_linked)
qed

lemma linked_to_replays:
  assumes "linked_to sha c x rid created s'"
  shows "create_and_link_run sha later c t2 s' = (Inr (rid, False), s')"
proof -
  obtain run y where "get_automation s' (cl_automation_id c) \<noteq> None"
    "lock_occurrence s' (cl_occurrence_id c) = Some y" "snapshot y = snapshot x" "oc_state y = OC_RUN_CREATED"
    "oc_agent_run_id y = Some rid" "r_id run = rid"
    "get_run_by_hash s' (hash_idempotency_key sha (run_key x)) = Some run"
    "r_fingerprint run = normalized_request_fingerprint sha (run_request x)"
    using assms unfolding linked_to_def by blast
  then show ?thesis
    using run_identity [of y x]
    by (auto simp: create_and_link_run_def resolve_create_replay_def replay_or_conflict_def Let_def)
qed

text \<open>An occurrence gets one Run. When \<open>create_and_link_run\<close> returns, the occurrence is linked to the
  Run under its own idempotency key with the fingerprint of its own request (a Run created now is
  in state CREATED with the captured Project, Agent kind and version); calling it again with the
  same claim, at any time, even after the lease has expired, returns the same Run as not created
  and changes nothing.\<close>

theorem linked_run_is_unique:
  assumes "create_and_link_run sha other c t s = (Inr (rid, created), s')"
    and "\<forall>r \<in> set (db_runs (other s)). r_id r < db_next_id (other s)"
    and "lock_occurrence (other s) (cl_occurrence_id c) = lock_occurrence s (cl_occurrence_id c)"
    and "\<forall>i. get_automation (other s) i = get_automation s i"
  shows "(\<exists>x run. lock_occurrence s' (cl_occurrence_id c) = Some x \<and> oc_state x = OC_RUN_CREATED \<and>
      oc_agent_run_id x = Some rid \<and> r_id run = rid \<and>
      get_run_by_hash s' (hash_idempotency_key sha (run_key x)) = Some run \<and>
      r_fingerprint run = normalized_request_fingerprint sha (run_request x) \<and>
      (created \<longrightarrow> r_state run = CREATED \<and> r_project_id run = oc_project_id x \<and>
         r_agent_kind run = oc_agent_kind x \<and> r_agent_version run = oc_agent_version x)) \<and>
    create_and_link_run sha later c t2 s' = (Inr (rid, False), s')"
proof -
  obtain a x where here: "get_automation s (cl_automation_id c) = Some a" "lock_occurrence s (cl_occurrence_id c) = Some x"
    using assms(1) by (auto simp: create_and_link_run_def split: option.splits)
  have link: "linked_to sha c x rid created s'"
    using assms(1) here assms(2-4) by (rule create_and_link_linked)
  have id: "run_request y = run_request x \<and> run_key y = run_key x \<and> oc_project_id y = oc_project_id x \<and>
      oc_agent_kind y = oc_agent_kind x \<and> oc_agent_version y = oc_agent_version x" if "snapshot y = snapshot x" for y
    using that run_identity [OF that] by (cases x, cases y) (simp add: snapshot_def)
  then show ?thesis
    using link linked_to_replays [OF link] unfolding linked_to_def by metis
qed

lemma example_claimed_fields:
  "oc_id example_claimed = 7" "oc_agent_run_id example_claimed = None" "oc_state example_claimed = OC_CLAIMED"
  "oc_project_id example_claimed = None" "mode_supported example_claimed"
  "validate_claim example_enabled example_claimed (example_claim 40 1) example_start = Inr ()"
  "occurrence_checks (linked rid example_claimed)"
  by (simp_all add: example_claimed_def claim_row_def example_due_def new_occurrence_def example_enabled_def
      example_automation_def mode_supported_def validate_claim_def example_claim_def seconds_def
      occurrence_checks_def linked_def link_row_def terminal_occurrence_def example_slot_def)

lemma example_link:
  "\<exists>s'. create_and_link_run sha id (example_claim 40 1) example_start
     (automation_example_db [example_enabled] [example_claimed]) = (Inr (11, True), s')"
proof -
  let ?s = "automation_example_db [example_enabled] [example_claimed]"
  let ?key = "hash_idempotency_key sha (run_key example_claimed)"
  let ?fp = "normalized_request_fingerprint sha (run_request example_claimed)"
  have empty: "db_runs ?s = []" "db_next_id ?s = 10" "db_occurrences ?s = [example_claimed]"
    by (simp_all add: automation_example_db_def)
  have here: "get_automation ?s (cl_automation_id (example_claim 40 1)) = Some example_enabled"
    "lock_occurrence ?s (cl_occurrence_id (example_claim 40 1)) = Some example_claimed"
    by (simp_all add: get_automation_def lock_occurrence_def automation_example_db_def row_get_Cons
        example_claim_def example_claimed_fields example_enabled_def example_automation_def)
  have scope: "scope_available ?s example_claimed"
    by (simp add: scope_available_def get_schedulable_agent_def example_claimed_def claim_row_def example_due_def
        new_occurrence_def example_enabled_def example_automation_def)
  obtain run e where run: "create_run id (run_request example_claimed) ?key ?fp example_start ?s =
      (Inr (run, True), ?s\<lparr>db_next_id := 13, db_runs := [run], db_events := db_events ?s @ [e]\<rparr>)" "r_id run = 11"
    using create_run_fresh [of ?s ?key id "run_request example_claimed" ?fp example_start]
    by (auto simp: empty get_run_by_hash_def count_runs_in_states_def MAX_ACTIVE_RUNS_def run_request_def
        example_claimed_fields)
  let ?u = "?s\<lparr>db_next_id := 13, db_runs := [run], db_events := db_events ?s @ [e]\<rparr>"
  have "flush_occurrence 7 (linked 11) ?u = (Inr (linked 11 example_claimed), upd_occurrence 7 (linked 11) ?u)"
    using example_claimed_fields
    by (simp add: flush_occurrence_def lock_occurrence_def empty row_get_Cons)
  then have "link_run example_claimed (run, True) ?u = (Inr (11, True), upd_occurrence 7 (linked 11) ?u)"
    by (simp add: link_run_def example_claimed_fields run(2) linked_def)
  then show ?thesis
    using here scope run(1) example_claimed_fields by (simp add: create_and_link_run_def Let_def)
qed

theorem linked_run_is_unique_witness:
  "\<exists>s' x. create_and_link_run (\<lambda>text. text) id (example_claim 40 1) example_start
     (automation_example_db [example_enabled] [example_claimed]) = (Inr (11, True), s') \<and>
   lock_occurrence s' 7 = Some x \<and> oc_agent_run_id x = Some 11 \<and>
   create_and_link_run (\<lambda>text. text) id (example_claim 40 1) (example_start + hours 1) s' = (Inr (11, False), s')"
proof -
  obtain s' where made: "create_and_link_run (\<lambda>text. text) id (example_claim 40 1) example_start
     (automation_example_db [example_enabled] [example_claimed]) = (Inr (11, True), s')"
    using example_link by blast
  from linked_run_is_unique [OF made, of id "example_start + hours 1"] show ?thesis
    using made by (auto simp: automation_example_db_def example_claim_def)
qed

end
