(* ===== verification/Automation_Gaps.thy ===== *)
theory Automation_Gaps
  imports Automation_Outcomes
begin

text \<open>
  Where the scheduler does not do what its documents say: an occurrence that is due when its
  Automation is changed is never run and never closed, and blocks its Automation; a worker that has
  lost its lease closes the occurrence of the worker that holds it; the eligibility check before
  unattended execution does not compare the Run.
\<close>

section \<open>What a tick leaves alone\<close>

text \<open>An occurrence and all Automation rows: what the phases other than materialization keep for every
  occurrence they did not select.\<close>

definition seen :: "uuid \<Rightarrow> 'a automation_db_scheme \<Rightarrow> occurrence option \<times> automation list" where
  "seen i s = (lock_occurrence s i, db_automations s)"

lemma flush_seen:
  assumes "\<And>y. snapshot (f y) = snapshot y" and "i \<noteq> j"
  shows "seen i (snd (flush_occurrence j f s)) = seen i s"
  using flush_occurrence_frame [of f i j s, OF assms]
  by (simp add: seen_def flush_occurrence_def upd_occurrence_def split: option.split)

lemma notify_seen [simp]: "seen i (snd (notify oc event_kind severity code t s)) = seen i s"
  by (auto simp: seen_def lock_occurrence_def notify_def insert_automation_notification_def uuid4_def
      add_notification_def Let_def split: option.splits sum.splits prod.splits if_splits)

lemma flush_then_seen:
  assumes "\<And>y. snapshot (f y) = snapshot y" and "i \<noteq> j" and "\<And>x u. seen i (snd (k x u)) = seen i u"
  shows "seen i (snd (andThen (flush_occurrence j f s) k)) = seen i s"
  using andThen_frame [of "seen i" k "flush_occurrence j f s", OF assms(3)] flush_seen [of f i j s, OF assms(1,2)]
  by simp

lemma notify_then_seen:
  "seen i (snd (andThen (notify oc event_kind severity code t u) (\<lambda>_ u'. (Inr r, u')))) = seen i u"
  "seen i (snd (andThen (if p then notify oc event_kind severity code t u else (Inr (), u)) (\<lambda>_ u'. (Inr r, u')))) =
     seen i u"
  by (rule trans [OF andThen_frame [where F = "seen i"]]; simp)+

lemma reconcile_one_seen: "i \<noteq> oc_id oc \<Longrightarrow> seen i (snd (reconcile_one t oc s)) = seen i s"
  unfolding reconcile_one_def Let_def by (simp add: flush_then_seen notify_then_seen split: option.split)

lemma reconcile_all_seen:
  fixes s :: "'a automation_db_scheme"
  shows "i \<notin> oc_id ` set ocs \<Longrightarrow> seen i (snd (reconcile_all t ocs s)) = seen i s"
proof (induction ocs arbitrary: s)
  case (Cons oc ocs)
  have inner: "seen i (snd (andThen (reconcile_all t ocs u) (\<lambda>is v. (Inr (g is), v)))) = seen i u"
    for g :: "uuid list \<Rightarrow> uuid list" and u :: "'a automation_db_scheme"
    using Cons by (intro trans [OF andThen_frame [where F = "seen i"]]) simp_all
  show ?case unfolding reconcile_all.simps
    using Cons.prems by (intro trans [OF andThen_frame [where F = "seen i"]]) (simp_all add: inner reconcile_one_seen Cons.IH)
qed simp

lemma claim_rows_seen:
  fixes s :: "'a automation_db_scheme"
  assumes "\<And>y. snapshot (f y) = snapshot y"
  shows "i \<notin> oc_id ` set ocs \<Longrightarrow> seen i (snd (claim_rows f owner ocs s)) = seen i s"
proof (induction ocs arbitrary: s)
  case (Cons oc ocs)
  have inner: "seen i (snd (andThen (claim_rows f owner ocs u) (\<lambda>cs v. (Inr (g cs), v)))) = seen i u"
    for g :: "occurrence_claim list \<Rightarrow> occurrence_claim list" and u :: "'a automation_db_scheme"
    using Cons by (intro trans [OF andThen_frame [where F = "seen i"]]) simp_all
  show ?case unfolding claim_rows.simps
    using Cons.prems by (intro flush_then_seen [OF assms]) (simp_all add: inner)
qed simp

lemma claim_rows_ids:
  assumes "\<And>y. snapshot (f y) = snapshot y"
  shows "claim_rows f owner ocs s = (Inr cs, s') \<Longrightarrow> cl_occurrence_id ` set cs \<subseteq> oc_id ` set ocs"
proof (induction ocs arbitrary: s cs)
  case (Cons oc ocs)
  obtain x u cs2 where flush: "flush_occurrence (oc_id oc) f s = (Inr x, u)"
    and rest: "claim_rows f owner ocs u = (Inr cs2, s')" and cs: "cs = claim_of owner x # cs2"
    using Cons.prems by (auto simp: andThen_Inr_iff)
  obtain z where "lock_occurrence s (oc_id oc) = Some z" "x = f z" using flush by (rule flush_occurrence_OK)
  then have "oc_id x = oc_id oc" using snapshot_id [OF assms] occurrences.get_key by metis
  then show ?case using Cons.IH [OF rest] by (auto simp: cs claim_of_def)
qed simp

section \<open>Frames of the set-up\<close>

lemma create_and_link_seen:
  fixes s :: "'a automation_db_scheme"
  assumes "i \<noteq> cl_occurrence_id c"
  shows "seen i (snd (create_and_link_run sha id c t s)) = seen i s"
proof -
  have run: "seen i (snd (create_run id rq key fp t s)) = seen i s" for rq key fp
    using create_run_frame [of s id rq key fp t] create_run_automations [of id rq key fp t s]
    by (auto simp: seen_def lock_occurrence_def)
  have link: "seen i (snd (link_run x res u)) = seen i u" if "oc_id x = cl_occurrence_id c" for x res and u :: "'a automation_db_scheme"
    using assms that by (cases res) (simp add: link_run_def flush_then_seen)
  have "seen i (snd (andThen (create_run id rq key fp t s) (link_run x))) = seen i s"
    if "oc_id x = cl_occurrence_id c" for x rq key fp
    using andThen_frame [of "seen i" "link_run x", OF link [OF that]] run by simp
  then show ?thesis
    using occurrences.get_key [of s "cl_occurrence_id c"]
    by (auto simp: create_and_link_run_def Let_def split: option.split sum.split)
qed

lemma fail_closed_seen: "i \<noteq> oid \<Longrightarrow> seen i (snd (fail_closed oid t code s)) = seen i s"
  by (simp add: fail_closed_def flush_then_seen split: option.split)

lemma defer_setup_seen: "i \<noteq> oid \<Longrightarrow> seen i (snd (defer_setup oid t capacity s)) = seen i s"
  by (simp add: defer_setup_def Let_def flush_then_seen notify_then_seen split: option.split)

lemma close_setup_seen: "i \<noteq> cl_occurrence_id c \<Longrightarrow> seen i (snd (close_setup code c t s)) = seen i s"
  unfolding close_setup_def
  by (rule trans [OF andThen_frame [where F = "seen i"]]) (simp_all add: fail_closed_seen)

lemma setup_failed_seen:
  fixes s :: "'a automation_db_scheme"
  assumes "i \<noteq> cl_occurrence_id c"
  shows "seen i (snd (setup_failed e c t s)) = seen i s"
proof -
  have "seen i (snd (andThen (defer_setup (cl_occurrence_id c) t capacity s) (\<lambda>p s'. (Inr (g p), s')))) = seen i s"
    for capacity and g :: "bool \<Rightarrow> setup_result"
    using assms by (intro trans [OF andThen_frame [where F = "seen i"]]) (simp_all add: defer_setup_seen)
  from this [where g = "\<lambda>_. CapacityDeferred"] this [where g = "\<lambda>p. if p then RetryDeferred else SetupFailed"]
  show ?thesis by (simp add: setup_failed_def close_setup_seen assms)
qed

lemma setup_claim_seen:
  fixes s :: "'a automation_db_scheme"
  assumes "i \<noteq> cl_occurrence_id c"
  shows "seen i (snd (setup_claim sha fault ack c t s)) = seen i s"
proof -
  have made: "seen i (snd (attempt_setup sha fault c t s)) = seen i s"
    using create_and_link_seen [OF assms, of sha t s] by (simp add: attempt_setup_def split: option.split)
  have confirm: "seen i (snd (confirm_link c t u)) = seen i u" for u :: "'a automation_db_scheme"
    using assms by (simp add: confirm_link_def close_setup_seen split: option.split)
  obtain r u where a: "attempt_setup sha fault c t s = (r, u)" by fastforce
  show ?thesis using assms a made
    by (cases r; cases ack) (auto simp: setup_claim_def setup_failed_seen confirm)
qed

lemma setup_all_seen:
  fixes s :: "'a automation_db_scheme"
  shows "i \<notin> cl_occurrence_id ` set cs \<Longrightarrow> seen i (snd (setup_all sha faults t cs s)) = seen i s"
proof (induction cs arbitrary: s)
  case (Cons c cs)
  obtain r u where r: "setup_claim sha (fst (faults c)) (snd (faults c)) c t s = (r, u)" by fastforce
  have here: "seen i u = seen i s"
    using setup_claim_seen [of i c sha "fst (faults c)" "snd (faults c)" t s] Cons.prems r by simp
  have inner: "seen i (snd (andThen (setup_all sha faults t cs v) (\<lambda>rs w. (Inr (g rs), w)))) = seen i v"
    for g :: "(occurrence_claim \<times> setup_result) list \<Rightarrow> (occurrence_claim \<times> setup_result) list" and v :: "'a automation_db_scheme"
    using Cons by (intro trans [OF andThen_frame [where F = "seen i"]]) simp_all
  show ?case using here by (cases r) (simp_all add: committed_def r inner)
qed simp

section \<open>An occurrence stranded by a change of its Automation\<close>

text \<open>The occurrence \<open>x\<close> and the row \<open>a\<close> of its Automation, in a session with primary keys.\<close>

definition stands :: "occurrence \<Rightarrow> automation \<Rightarrow> 'a automation_db_scheme \<Rightarrow> bool" where
  "stands x a s \<longleftrightarrow> lock_occurrence s (oc_id x) = Some x \<and> get_automation s (au_id a) = Some a \<and>
     distinct (map au_id (db_automations s)) \<and> occurrence_history [] s"

definition stranded :: "occurrence \<Rightarrow> automation \<Rightarrow> bool" where
  "stranded x a \<longleftrightarrow> oc_state x = OC_DUE \<and> oc_automation_id x = au_id a \<and>
     au_revision a \<noteq> oc_automation_revision x \<and> blocked_by a x"

lemma stands_seen:
  "stands x a s \<Longrightarrow> seen (oc_id x) s' = seen (oc_id x) s \<Longrightarrow> occurrence_history [] s' \<Longrightarrow> stands x a s'"
  by (simp add: stands_def seen_def get_automation_def)

lemma stands_only:
  assumes "stands x a s"
  shows "y \<in> set (db_occurrences s) \<Longrightarrow> oc_id y = oc_id x \<Longrightarrow> y = x"
    and "b \<in> set (db_automations s) \<Longrightarrow> au_id b = au_id a \<Longrightarrow> b = a"
proof -
  have "x \<in> set (db_occurrences s)" "distinct (map oc_id (db_occurrences s))"
    using assms by (auto simp: stands_def occurrence_history_def lock_occurrence_def dest: row_get_in)
  then show "y \<in> set (db_occurrences s) \<Longrightarrow> oc_id y = oc_id x \<Longrightarrow> y = x"
    by (auto simp: distinct_map inj_on_def)
  have "a \<in> set (db_automations s)" "distinct (map au_id (db_automations s))"
    using assms by (auto simp: stands_def get_automation_def dest: row_get_in)
  then show "b \<in> set (db_automations s) \<Longrightarrow> au_id b = au_id a \<Longrightarrow> b = a"
    by (auto simp: distinct_map inj_on_def)
qed

lemma not_selected:
  assumes "stands x a s" and "stranded x a"
  shows "oc_id x \<notin> oc_id ` set (lock_linked_occurrences s busy n)"
    and "oc_id x \<notin> oc_id ` set (filter P (lock_expired_claims s busy t n))"
    and "oc_id x \<notin> oc_id ` set (lock_claimable_occurrences s busy t n)"
    and "au_id a \<notin> au_id ` set (lock_due_automations s busy t n)"
proof -
  have same: "y = x" if "y \<in> set (db_occurrences s)" "oc_id x = oc_id y" for y
    using stands_only(1) [OF assms(1) that(1)] that(2) by simp
  have x: "oc_state x = OC_DUE" "\<not> claimable s t x"
    using assms by (auto simp: stranded_def claimable_def stands_def)
  show "oc_id x \<notin> oc_id ` set (lock_linked_occurrences s busy n)"
    using same x by (fastforce simp: lock_linked_occurrences_def dest!: in_set_takeD)
  show "oc_id x \<notin> oc_id ` set (filter P (lock_expired_claims s busy t n))"
    using same x by (fastforce simp: lock_expired_claims_def dest!: in_set_takeD)
  show "oc_id x \<notin> oc_id ` set (lock_claimable_occurrences s busy t n)"
    using same x by (fastforce simp: lock_claimable_occurrences_def dest!: in_set_takeD)
  have "x \<in> set (db_occurrences s)"
    using assms(1) by (auto simp: stands_def lock_occurrence_def dest: row_get_in)
  then have "\<not> is_due s t a"
    using assms(2) by (auto simp: is_due_def list_ex_iff stranded_def)
  then show "au_id a \<notin> au_id ` set (lock_due_automations s busy t n)"
    using stands_only(2) [OF assms(1)] by (fastforce simp: lock_due_automations_def dest!: in_set_takeD)
qed

lemma stands_then:
  "stands x a (snd m) \<Longrightarrow> (\<And>b s'. stands x a s' \<Longrightarrow> stands x a (snd (k b s'))) \<Longrightarrow> stands x a (snd (andThen m k))"
  by (auto simp: andThen_def split: prod.splits sum.splits)

lemma find_or_insert_stands:
  assumes "stands x a s"
  shows "stands x a (snd (find_or_insert id b p older t s))"
proof -
  let ?n = "new_occurrence b p t (if missed b then OC_MISSED else OC_DUE) (disposition_of b older)"
  let ?u = "snd (insert_automation_occurrence ?n s)"
  have "db_automations ?u = db_automations s"
    by (simp add: insert_automation_occurrence_def uuid4_def add_occurrence_def Let_def)
  moreover have "lock_occurrence ?u (oc_id x) = Some x"
    using assms insert_occurrence_cases [of ?n s] by (auto simp: stands_def lock_occurrence_def row_get_append)
  moreover have "occurrence_history [] ?u" using assms by (auto simp: stands_def intro: history_insert)
  ultimately have "stands x a ?u" using assms by (simp add: stands_def get_automation_def)
  moreover have "snd (find_or_insert id b p older t s) \<in> {s, ?u}"
    by (auto simp: find_or_insert_def Let_def split: option.split prod.split sum.split)
  ultimately show ?thesis using assms by auto
qed

lemma materialize_one_stands:
  fixes s :: "'a automation_db_scheme"
  assumes "stands x a s" and "au_id b \<noteq> au_id a"
  shows "stands x a (snd (materialize_one zones id t b s))"
proof (cases "latest_due_and_future zones b t")
  case (Inr r)
  obtain p following older where r: "r = (p, following, older)" by (cases r)
  have set_next: "stands x a (upd_automation (au_id b) (set_next v) u)" if "stands x a u"
    for v and u :: "'a automation_db_scheme"
  proof -
    have "get_automation (upd_automation (au_id b) (set_next v) u) (au_id a) = get_automation u (au_id a)"
      using assms(2) by (simp add: automations.get_upd set_next_def)
    moreover have "map au_id (db_automations (upd_automation (au_id b) (set_next v) u)) = map au_id (db_automations u)"
      by (simp add: upd_automation_def row_upd_map set_next_def)
    ultimately show ?thesis using that history.write_next [of "[]" u "au_id b" v]
      by (simp add: stands_def lock_occurrence_def upd_automation_def)
  qed
  have notified: "stands x a (snd (notify oc event_kind severity code t u))" if "stands x a u"
    for oc event_kind severity code and u :: "'a automation_db_scheme"
    using that by (intro stands_seen [OF that] history.notify_keeps notify_seen) (simp add: stands_def)
  show ?thesis
    unfolding materialize_one_def Inr r sum.case prod.case Let_def
  proof (rule stands_then [OF find_or_insert_stands [OF assms(1)]])
    fix oc and u :: "'a automation_db_scheme"
    assume "stands x a u"
    note u = set_next [OF this, of "map_option sp_utc_instant following"]
    show "stands x a (snd (andThen (if missed b then notify oc ''occurrence_missed'' ''warning''
          (case disposition_of b older of None \<Rightarrow> ''missed_skipped'' | Some c \<Rightarrow> c) t
          (upd_automation (au_id b) (set_next (map_option sp_utc_instant following)) u)
        else (Inr (), upd_automation (au_id b) (set_next (map_option sp_utc_instant following)) u))
        (\<lambda>_ s3. (Inr oc, s3))))"
      by (rule stands_then, cases "missed b") (simp_all add: notified [OF u] u)
  qed
qed (simp add: materialize_one_def assms)

lemma materialize_all_stands:
  fixes s :: "'a automation_db_scheme"
  shows "stands x a s \<Longrightarrow> au_id a \<notin> au_id ` set as \<Longrightarrow> stands x a (snd (materialize_all zones id t as s))"
proof (induction as arbitrary: s)
  case (Cons b as)
  show ?case unfolding materialize_all.simps
    using Cons.prems
    by (intro stands_then [OF materialize_one_stands [of x a s b]] stands_then) (simp_all add: Cons.IH)
qed simp

lemma stands_phases:
  fixes s :: "'a automation_db_scheme"
  assumes "stands x a s" and "stranded x a"
  shows "stands x a (snd (reconcile_linked busy t limit s))"
    and "stands x a (snd (materialize_due zones busy id t limit s))"
    and "stands x a (snd (reclaim_expired busy t owner lease limit s))"
    and "stands x a (snd (claim_due busy t owner lease limit s))"
proof -
  have h: "occurrence_history [] s" using assms(1) by (simp add: stands_def)
  note out = not_selected [OF assms]
  have "seen (oc_id x) (snd (reconcile_linked busy t limit s)) = seen (oc_id x) s"
    using out(1) by (simp add: reconcile_linked_def reconcile_all_seen split: sum.split)
  then show "stands x a (snd (reconcile_linked busy t limit s))"
    by (rule stands_seen [OF assms(1) _ history.reconcile_linked_keeps [OF h]])
  show "stands x a (snd (materialize_due zones busy id t limit s))"
    using materialize_all_stands [OF assms(1) out(4)] assms(1) by (simp add: materialize_due_def split: sum.split)
  have "seen (oc_id x) (snd (reclaim_expired busy t owner lease limit s)) = seen (oc_id x) s"
    using out(2) by (simp add: reclaim_expired_def claim_rows_seen split: sum.split)
  then show "stands x a (snd (reclaim_expired busy t owner lease limit s))"
    by (rule stands_seen [OF assms(1) _ history.reclaim_expired_keeps [OF h]])
  have "seen (oc_id x) (snd (claim_due busy t owner lease limit s)) = seen (oc_id x) s"
    using out(3) by (simp add: claim_due_def Let_def claim_rows_seen split: sum.split)
  then show "stands x a (snd (claim_due busy t owner lease limit s))"
    by (rule stands_seen [OF assms(1) _ history.claim_due_keeps [OF h]])
qed

lemma stranded_not_claimed:
  assumes "stands x a s" and "stranded x a"
  shows "reclaim_expired busy t owner lease limit s = (Inr cs, s') \<Longrightarrow> oc_id x \<notin> cl_occurrence_id ` set cs"
    and "claim_due busy t owner lease limit s = (Inr cs, s') \<Longrightarrow> oc_id x \<notin> cl_occurrence_id ` set cs"
proof -
  show "oc_id x \<notin> cl_occurrence_id ` set cs" if "reclaim_expired busy t owner lease limit s = (Inr cs, s')"
  proof -
    obtain d n where "claim_rows (reclaim_row owner d t) owner
        (filter (\<lambda>oc. oc_agent_run_id oc = None) (lock_expired_claims s busy t n)) s = (Inr cs, s')"
      using \<open>reclaim_expired busy t owner lease limit s = (Inr cs, s')\<close>
      by (auto simp: reclaim_expired_def split: sum.splits)
    from claim_rows_ids [OF _ this] show ?thesis
      using not_selected(2) [OF assms, of "\<lambda>oc. oc_agent_run_id oc = None" busy t n] by auto
  qed
  show "oc_id x \<notin> cl_occurrence_id ` set cs" if "claim_due busy t owner lease limit s = (Inr cs, s')"
  proof (cases "cs = []")
    case False
    then obtain d n where "claim_rows (claim_row owner d t) owner (lock_claimable_occurrences s busy t n) s = (Inr cs, s')"
      using \<open>claim_due busy t owner lease limit s = (Inr cs, s')\<close>
      by (auto simp: claim_due_def Let_def split: sum.splits if_splits)
    from claim_rows_ids [OF _ this] show ?thesis using not_selected(3) [OF assms, of busy t n] by auto
  qed simp
qed

lemma committed_stands:
  "stands x a s \<Longrightarrow> (\<And>b s'. m = (Inr b, s') \<Longrightarrow> stands x a (snd (k b s'))) \<Longrightarrow> stands x a (snd (committed m s k))"
  by (auto simp: committed_def split: prod.splits sum.splits)

lemma setup_all_stands:
  assumes "stands x a s" and "oc_id x \<notin> cl_occurrence_id ` set cs"
  shows "stands x a (snd (andThen (setup_all sha faults t cs s) (\<lambda>rs s'. (Inr (g rs), s'))))"
proof -
  have "stands x a (snd (setup_all sha faults t cs s))"
    using assms setup_all_seen [OF assms(2)] history.setup_all_keeps [of "[]" s]
    by (intro stands_seen [OF assms(1)]) (simp_all add: stands_def)
  then show ?thesis by (rule stands_then) simp
qed

lemma merge_claims_ids:
  "cl_occurrence_id ` set (merge_claims cs ds) \<subseteq> cl_occurrence_id ` set cs \<union> cl_occurrence_id ` set ds"
  by (auto simp: merge_claims_def)

lemma tick_stands:
  fixes s :: "'a automation_db_scheme"
  assumes "stands x a s" and "stranded x a"
  shows "stands x a (snd (run_one_tick env t s))"
proof -
  note phase = stands_phases [OF _ assms(2)] and free = stranded_not_claimed [OF _ assms(2)]
  show ?thesis
    unfolding run_one_tick_def
  proof (intro committed_stands assms(1))
    fix ids s1 assume 1: "reconcile_linked (te_busy env) t (te_limit env) s = (Inr ids, s1)"
    then show s1: "stands x a s1" using phase(1) [OF assms(1)] by (metis snd_conv)
    fix cs s2 assume 2: "reclaim_expired (te_busy env) t (te_owner env) (te_lease env) (te_limit env) s1 = (Inr cs, s2)"
    then show s2: "stands x a s2" using phase(3) [OF s1] by (metis snd_conv)
    fix rows s3 assume 3: "materialize_due (te_zones env) (te_busy env) id t (te_limit env) s2 = (Inr rows, s3)"
    then show s3: "stands x a s3" using phase(2) [OF s2] by (metis snd_conv)
    fix ds s4 assume 4: "claim_due (te_busy env) t (te_owner env) (te_lease env) (te_limit env) s3 = (Inr ds, s4)"
    then have "stands x a s4" using phase(4) [OF s3] by (metis snd_conv)
    moreover have "oc_id x \<notin> cl_occurrence_id ` set (merge_claims cs ds)"
      using free(1) [OF s1 2] free(2) [OF s3 4] merge_claims_ids [of cs ds] by auto
    ultimately show "stands x a (snd (andThen (setup_all (te_sha env) (te_faults env) t (merge_claims cs ds) s4)
      (\<lambda>setups s5. (Inr \<lparr> tr_materialized = map oc_id rows, tr_setups = setups,
         tr_reclaimed = map cl_occurrence_id cs, tr_reconciled = ids,
         tr_missed = map oc_id (filter (\<lambda>oc. oc_state oc = OC_MISSED) rows) \<rparr>, s5))))"
      by (rule setup_all_stands)
  qed
qed

lemma ticks_stand:
  "stands x a s \<Longrightarrow> stranded x a \<Longrightarrow> stands x a (perform_all (map (\<lambda>(env, t). Tick env t) ticks) s)"
  by (induction ticks arbitrary: s) (auto simp: perform_all_def tick_stands)

text \<open>C11: A change of an Automation strands its due occurrence. Any granted request (a pause, a resume, an
  edit, a mode change, the cancellation) adds one to the Automation's revision; an occurrence that
  is due at that moment, of an earlier slot, keeps the revision it captured. From then on no
  sequence of ticks, whatever their clock, capacity and faults, claims it, closes it or changes it,
  and the Automation row, its next occurrence included, stays as the request left it: nothing is
  ever materialized for it again. (The threat model says that such an occurrence becomes cancelled
  or failed.)\<close>

theorem due_occurrence_stranded_by_change:
  assumes "serve zones (oc_automation_id x) t rq s = (Inr a, s1)"
    and "lock_occurrence s (oc_id x) = Some x" and "oc_state x = OC_DUE"
    and "oc_automation_revision x \<le> expected_revision rq" and "blocked_by a x"
    and "distinct (map au_id (db_automations s))" and "occurrence_history [] s"
  shows "lock_occurrence (perform_all (map (\<lambda>(env, t). Tick env t) ticks) s1) (oc_id x) = Some x \<and>
    get_automation (perform_all (map (\<lambda>(env, t). Tick env t) ticks) s1) (oc_automation_id x) = Some a"
proof -
  obtain a0 f where f: "get_automation s (oc_automation_id x) = Some a0" "au_revision a0 = expected_revision rq"
    "a = f a0" "s1 = upd_automation (oc_automation_id x) f s" "\<And>x. au_id (f x) = au_id x"
    "\<And>x. au_revision (f x) = au_revision x + 1"
    using serve_OK [OF assms(1)] by metis
  have ids: "map au_id (db_automations s1) = map au_id (db_automations s)"
    by (simp add: f(4) upd_automation_def row_upd_map f(5))
  have "occurrence_history [] s1"
    by (rule history_frame [OF assms(7)]) (simp_all add: f(4) upd_automation_def)
  moreover have "get_automation s1 (au_id a) = Some a"
    using f assms(5) by (simp add: automations.get_upd blocked_by_def)
  moreover have "lock_occurrence s1 (oc_id x) = Some x"
    using assms(2) by (simp add: f(4) lock_occurrence_def upd_automation_def)
  ultimately have st: "stands x a s1" using assms(6) ids by (simp add: stands_def)
  have "stranded x a" using assms(3-5) f(2,3,6) by (simp add: stranded_def blocked_by_def)
  from ticks_stand [OF st this, of ticks] show ?thesis
    using assms(5) by (simp add: stands_def blocked_by_def)
qed

section \<open>A worker that has lost its lease\<close>

lemma close_setup_OK:
  assumes "lock_occurrence s (cl_occurrence_id c) = Some x" and "oc_agent_run_id x = None"
    and "\<not> terminal_occurrence (oc_state x)" and "occurrence_checks x" and "oc_created_at x \<le> t"
    and "get_automation s (oc_automation_id x) \<noteq> None" and "code \<noteq> []"
  shows "\<exists>s'. close_setup code c t s = (Inr SetupFailed, s') \<and>
     lock_occurrence s' (cl_occurrence_id c) = Some (fail_row code ''operator_review_required'' t (close_retries x))"
proof -
  let ?f = "fail_row code ''operator_review_required'' t \<circ> close_retries"
  let ?u = "upd_occurrence (cl_occurrence_id c) ?f s"
  have "occurrence_checks (?f x)"
    using assms(4,5)
    by (auto simp: occurrence_checks_def fail_row_def close_retries_def terminal_occurrence_def split: option.splits)
  moreover have "oc_agent_run_id (?f x) = None" using assms(2) by (simp add: fail_row_def close_retries_def)
  ultimately have flush: "flush_occurrence (cl_occurrence_id c) ?f s = (Inr (?f x), ?u)"
    using assms(1) by (simp add: flush_occurrence_def list_ex_iff)
  have row: "lock_occurrence ?u (cl_occurrence_id c) = Some (?f x)"
    using assms(1) by (simp add: row_get_upd_occurrence)
  have ids: "oc_id (?f x) = cl_occurrence_id c" "oc_automation_id (?f x) = oc_automation_id x"
    using occurrences.get_key [OF assms(1)] by (simp_all add: fail_row_def close_retries_def)
  have "\<exists>s'. notify (?f x) ''occurrence_failed'' ''error'' code t ?u = (Inr (), s')"
    using assms(6,7) ids row
    by (intro notify_OK [of ?u "?f x" "?f x"]) (simp_all add: get_automation_def upd_occurrence_def)
  then obtain s' where noted: "notify (?f x) ''occurrence_failed'' ''error'' code t ?u = (Inr (), s')" by blast
  have "lock_occurrence s' (cl_occurrence_id c) = Some (?f x)"
    by (metis noted row notify_occurrences snd_conv)
  then show ?thesis
    using assms(1-3) flush noted by (simp add: close_setup_def fail_closed_def)
qed

text \<open>C12: A worker that has lost its lease closes the occurrence of the worker that holds it. When a tick
  reaches the set-up of a claim that another owner has since reclaimed, \<open>create_and_link_run\<close> fails
  with \<open>ClaimFenceError\<close>, and the error handler of the tick calls \<open>fail_closed\<close>, which compares
  neither owner nor generation: the occurrence, claimed by the other owner under a lease that still
  runs, is set to failed, and the live owner's own set-up is then refused.\<close>

theorem stale_owner_fails_live_claim:
  assumes "lock_occurrence s (cl_occurrence_id c) = Some x" and "oc_state x = OC_CLAIMED"
    and "oc_lease_owner_token x = Some (cl_owner_token live)" and "cl_owner_token live \<noteq> cl_owner_token c"
    and "oc_lease_expires_at x = Some e" and "t < e" and "oc_agent_run_id x = None"
    and "get_automation s (oc_automation_id x) \<noteq> None" and "occurrence_checks x" and "oc_created_at x \<le> t"
    and "cl_occurrence_id live = cl_occurrence_id c"
  shows "\<exists>s' y. setup_claim sha None ack c t s = (Inr SetupFailed, s') \<and>
    lock_occurrence s' (cl_occurrence_id c) = Some y \<and> oc_state y = OC_FAILED \<and>
    oc_safe_error_code y = Some ''setup_failed_safe'' \<and>
    oc_lease_owner_token y = Some (cl_owner_token live) \<and> oc_lease_expires_at y = Some e \<and>
    create_and_link_run sha id live t s' = (Inl ClaimFenceError, s')"
proof -
  have "create_and_link_run sha id c t s = (Inl ClaimFenceError, s)"
    using assms(1-4)
    by (simp add: create_and_link_run_def Let_def validate_claim_def split: option.split)
  then have "setup_claim sha None ack c t s = close_setup ''setup_failed_safe'' c t s"
    by (simp add: setup_claim_def attempt_setup_def setup_failed_def)
  moreover obtain s' where closed: "close_setup ''setup_failed_safe'' c t s = (Inr SetupFailed, s')"
    "lock_occurrence s' (cl_occurrence_id c) =
       Some (fail_row ''setup_failed_safe'' ''operator_review_required'' t (close_retries x))"
    using close_setup_OK [OF assms(1,7) _ assms(9,10,8), of "''setup_failed_safe''"] assms(2)
    by (auto simp: terminal_occurrence_def)
  moreover have "create_and_link_run sha id live t s' = (Inl ClaimFenceError, s')"
    using closed(2) assms(11)
    by (simp add: create_and_link_run_def Let_def validate_claim_def split: option.split)
  ultimately show ?thesis using assms(3,5) by (simp add: fail_row_def close_retries_def)
qed

section \<open>The eligibility check does not compare the Run\<close>

text \<open>The check before unattended execution does not compare the Run with what was captured. It writes
  \<open>automation.agent_kind != occurrence.agent_kind != run.agent_kind\<close> and likewise for the version and
  the Project, which Python reads as a conjunction: where the Automation and its occurrence agree,
  a linked Run of any other Agent kind, version or Project is found eligible all the same.\<close>

theorem eligibility_ignores_run_identity:
  assumes "eligible_linked_run resolver oid t s = Inr (rid, d)"
    and "lock_occurrence s oid = Some x" and "get_automation s (oc_automation_id x) = Some a"
    and "au_agent_kind a = oc_agent_kind x" and "au_agent_version a = oc_agent_version x"
    and "au_project_id a = oc_project_id x"
  shows "eligible_linked_run resolver oid t
      (upd_agent_run rid (\<lambda>r. r\<lparr>r_agent_kind := kind, r_agent_version := version, r_project_id := project\<rparr>) s) =
    Inr (rid, d)"
proof -
  let ?f = "\<lambda>r. r\<lparr>r_agent_kind := kind, r_agent_version := version, r_project_id := project\<rparr>"
  let ?s = "upd_agent_run rid ?f s"
  obtain run where run: "oc_agent_run_id x = Some rid" "get_agent_run s rid = Some run" "r_id run = rid"
    "resolver (oc_agent_kind x) (oc_agent_version x) = Some d" "\<not> ineligible s a x run d t"
    using assms(1-3)
    by (auto dest: runs.get_key simp: eligible_linked_run_def split: option.splits if_splits)
  have rows: "lock_occurrence ?s i = lock_occurrence s i" "get_automation ?s i = get_automation s i"
    "db_occurrences ?s = db_occurrences s" "get_project ?s i = get_project s i" for i
    by (simp_all add: lock_occurrence_def get_automation_def get_project_def upd_agent_run_def)
  have "get_agent_run ?s rid = Some (?f run)"
    using run(2,3) by (simp add: runs.get_upd)
  moreover have "\<not> ineligible ?s a x (?f run) d t"
    using run(5) assms(4-6) by (cases "oc_project_id x") (simp_all add: ineligible_def differ_chained_def rows run_closed_def)
  ultimately show ?thesis
    using assms(2,3) run by (simp add: eligible_linked_run_def rows)
qed

section \<open>Examples\<close>

definition example_advanced :: automation where
  "example_advanced = example_enabled\<lparr>au_next_occurrence_at := Some (sp_utc_instant example_tomorrow)\<rparr>"

definition example_paused :: automation where
  "example_paused = example_advanced\<lparr>au_lifecycle := LC_PAUSED, au_revision := 2\<rparr>"

lemma example_pausing:
  "serve example_zones 5 (example_start + hours 1) (Pause 1) (automation_example_db [example_advanced] ocs) =
     (Inr example_paused, automation_example_db [example_paused] ocs)"
proof -
  let ?f = "bump \<circ> (\<lambda>x. x\<lparr>au_lifecycle := LC_PAUSED\<rparr>)"
  have row: "au_id example_advanced = 5" "au_revision example_advanced = 1" "au_lifecycle example_advanced = LC_ENABLED"
    by (simp_all add: example_advanced_def example_enabled_def example_automation_def)
  have f: "?f example_advanced = example_paused"
    by (simp add: bump_def example_paused_def row)
  have "automation_checks example_paused"
    by (simp add: example_paused_def example_advanced_def example_enabled_def example_automation_def
        automation_checks_def example_tomorrow_def example_slot_def example_numbers)
  moreover have "lock_expected (automation_example_db [example_advanced] ocs) 5 1 = Inr example_advanced"
    by (simp add: lock_expected_def get_automation_def automation_example_db_def row_get_Cons row)
  moreover have "upd_automation 5 ?f (automation_example_db [example_advanced] ocs) =
      automation_example_db [example_paused] ocs"
    using f row(1) by (simp add: upd_automation_def automation_example_db_def row_upd_def)
  ultimately show ?thesis
    using f row by (simp add: pause_automation_def flush_automation_def)
qed

theorem due_occurrence_stranded_by_change_witness:
  "lock_occurrence (perform_all [Tick example_tick (example_start + hours 2), Tick example_tick (example_start + hours 3)]
     (automation_example_db [example_paused] [example_due])) 7 = Some example_due"
proof -
  have x: "oc_id example_due = 7" "oc_automation_id example_due = 5" "oc_state example_due = OC_DUE"
    "oc_automation_revision example_due = 1" "oc_scheduled_at example_due = sp_utc_instant example_slot"
    by (simp_all add: example_due_def new_occurrence_def example_enabled_def example_automation_def)
  have a: "au_id example_paused = 5" "au_next_occurrence_at example_paused = Some (sp_utc_instant example_tomorrow)"
    by (simp_all add: example_paused_def example_advanced_def example_enabled_def example_automation_def)
  have apart: "sp_utc_instant example_slot \<noteq> sp_utc_instant example_tomorrow"
    by (simp add: example_slot_def example_tomorrow_def example_numbers)
  have pause: "serve example_zones (oc_automation_id example_due) (example_start + hours 1) (Pause 1)
      (automation_example_db [example_advanced] [example_due]) =
      (Inr example_paused, automation_example_db [example_paused] [example_due])"
    using example_pausing by (simp add: x)
  show ?thesis
    using due_occurrence_stranded_by_change [OF pause, of "[(example_tick, example_start + hours 2),
        (example_tick, example_start + hours 3)]"] x a apart example_history(1) [of "[example_advanced]"]
    by (simp add: blocked_by_def lock_occurrence_def automation_example_db_def row_get_Cons)
qed

definition example_reclaimed :: occurrence where
  "example_reclaimed = reclaim_row 41 (seconds 30) (example_start + minutes 1) example_claimed"

theorem stale_owner_fails_live_claim_witness:
  "\<exists>s' y. setup_claim (\<lambda>text. text) None Acknowledged (example_claim 40 1) (example_start + minutes 1)
       (automation_example_db [example_enabled] [example_reclaimed]) = (Inr SetupFailed, s') \<and>
     lock_occurrence s' 7 = Some y \<and> oc_state y = OC_FAILED"
proof -
  let ?s = "automation_example_db [example_enabled] [example_reclaimed]"
  have x: "oc_id example_reclaimed = 7" "oc_state example_reclaimed = OC_CLAIMED" "oc_agent_run_id example_reclaimed = None"
    "oc_lease_owner_token example_reclaimed = Some 41" "oc_automation_id example_reclaimed = 5"
    "oc_lease_expires_at example_reclaimed = Some (example_start + minutes 1 + seconds 30)"
    "oc_created_at example_reclaimed = example_start" "occurrence_checks example_reclaimed"
    by (simp_all add: example_reclaimed_def reclaim_row_def example_claimed_def claim_row_def example_due_def
        new_occurrence_def example_enabled_def example_automation_def occurrence_checks_def terminal_occurrence_def
        example_slot_def)
  have rows: "lock_occurrence ?s 7 = Some example_reclaimed" "get_automation ?s 5 \<noteq> None"
    by (simp_all add: lock_occurrence_def get_automation_def automation_example_db_def row_get_Cons x
        example_enabled_def example_automation_def)
  show ?thesis
    using stale_owner_fails_live_claim [of ?s "example_claim 40 1" example_reclaimed "example_claim 41 2"
        "example_start + minutes 1 + seconds 30" "example_start + minutes 1" "\<lambda>text. text" Acknowledged] x rows
    by (auto simp: example_claim_def seconds_def minutes_def)
qed

definition example_unattended :: automation where
  "example_unattended = example_enabled\<lparr>au_execution_mode := ''automatic_read_only''\<rparr>"

definition example_linked :: occurrence where
  "example_linked = linked 11 ((new_occurrence example_unattended example_slot example_start OC_CLAIMED None)\<lparr>oc_id := 7\<rparr>)"

definition example_linked_run :: agent_run where
  "example_linked_run = (new_run (run_request example_linked) ''k'' ''f'' example_start 10)\<lparr>r_id := 11\<rparr>"

definition example_linked_db :: automation_db where
  "example_linked_db = (automation_example_db [example_unattended] [example_linked])\<lparr>db_runs := [example_linked_run]\<rparr>"

lemma example_linked_fields:
  "lock_occurrence example_linked_db 7 = Some example_linked"
  "get_automation example_linked_db 5 = Some example_unattended" "oc_automation_id example_linked = 5"
  "oc_agent_kind example_linked = ''daily_brief''" "oc_agent_version example_linked = ''1''"
  "oc_project_id example_linked = None" "oc_agent_run_id example_linked = Some 11"
  "au_agent_kind example_unattended = ''daily_brief''" "au_agent_version example_unattended = ''1''"
  "au_project_id example_unattended = None" "get_agent_run example_linked_db 11 = Some example_linked_run"
  by (simp_all add: example_linked_db_def example_linked_def example_linked_run_def example_unattended_def
      linked_def link_row_def new_occurrence_def example_enabled_def example_automation_def
      lock_occurrence_def get_automation_def get_agent_run_def automation_example_db_def row_get_Cons)

lemma example_eligible:
  "eligible_linked_run get_automatic_agent_definition 7 example_start example_linked_db =
     Inr (11, DAILY_BRIEF_DEFINITION)"
proof -
  have d: "get_automatic_agent_definition ''daily_brief'' ''1'' = Some DAILY_BRIEF_DEFINITION"
    "aad_code_owned DAILY_BRIEF_DEFINITION" "aad_authority DAILY_BRIEF_DEFINITION = ''read''"
    "aad_registry_version DAILY_BRIEF_DEFINITION = REGISTRY_VERSION" "aad_allowed_tools DAILY_BRIEF_DEFINITION \<noteq> []"
    "tools_registered DAILY_BRIEF_DEFINITION"
    by code_simp+
  have "\<not> ineligible example_linked_db example_unattended example_linked example_linked_run DAILY_BRIEF_DEFINITION example_start"
    by (simp add: ineligible_def d example_linked_fields differ_chained_def example_linked_run_def new_run_def
        run_closed_def RUN_DURATION_def minutes_def get_schedulable_agent_def)
      (simp add: example_linked_db_def example_linked_def example_unattended_def automation_example_db_def
        linked_def link_row_def new_occurrence_def example_enabled_def)
  then show ?thesis
    by (simp add: eligible_linked_run_def example_linked_fields d) (simp add: example_linked_run_def)
qed

theorem eligibility_ignores_run_identity_witness:
  "eligible_linked_run get_automatic_agent_definition 7 example_start
     (upd_agent_run 11 (\<lambda>r. r\<lparr>r_agent_kind := ''local_research'', r_agent_version := ''9'', r_project_id := Some 1\<rparr>)
        example_linked_db) = Inr (11, DAILY_BRIEF_DEFINITION)"
  by (rule eligibility_ignores_run_identity [where a = example_unattended, OF example_eligible example_linked_fields(1)])
    (simp_all add: example_linked_fields)

end
