(* ===== verification/Automation_Recovery.thy ===== *)
theory Automation_Recovery
  imports Automation_Gaps
begin

text \<open>
  Reconciliation and retries: the state of a linked occurrence is a projection of the state of its
  Run (\<open>reconcile_linked\<close>), and the set-up of an unlinked one is retried a bounded number of times
  with a bounded delay (\<open>defer_setup\<close>).
\<close>

section \<open>Reconciliation projects the Run\<close>

text \<open>The abstract state of a linked occurrence.\<close>

fun run_projection :: "agent_run option \<Rightarrow> occurrence_state" where
  "run_projection None = OC_FAILED"
| "run_projection (Some run) =
    (if r_state run = COMPLETED then OC_COMPLETED
     else if r_state run \<in> {FAILED, CANCELLED, EXPIRED} then OC_FAILED
     else OC_RUN_CREATED)"

definition linked_run :: "'a automation_db_scheme \<Rightarrow> occurrence \<Rightarrow> agent_run option" where
  "linked_run s x = Option.bind (oc_agent_run_id x) (get_agent_run s)"

lemma flush_then_row:
  assumes "andThen (flush_occurrence i f s) k = (Inr r, s')" and "lock_occurrence s i = Some x"
    and snap: "\<And>y. snapshot (f y) = snapshot y"
    and "\<And>y u. lock_occurrence (snd (k y u)) i = lock_occurrence u i"
  shows "lock_occurrence s' i = Some (f x)"
proof -
  obtain y u where flush: "flush_occurrence i f s = (Inr y, u)" and k: "k y u = (Inr r, s')"
    using assms(1) unfolding andThen_Inr_iff by blast
  obtain z where "u = upd_occurrence i f s" using flush by (rule flush_occurrence_OK)
  then have "lock_occurrence u i = Some (f x)" using assms(2) by (simp add: row_get_upd_occurrence [OF snap])
  then show ?thesis using assms(4) [of y u] k by simp
qed

lemma notify_then_frame:
  "lock_occurrence (snd (andThen (notify oc event_kind severity code t u) (\<lambda>_ u'. (Inr r, u')))) j = lock_occurrence u j"
  "lock_occurrence (snd (andThen (if p then notify oc event_kind severity code t u else (Inr (), u)) (\<lambda>_ u'. (Inr r, u')))) j =
     lock_occurrence u j"
  by (rule trans [OF andThen_frame [where F = "\<lambda>u. lock_occurrence u j"]]; simp)+

lemma reconcile_one_OK:
  assumes ok: "reconcile_one t oc s = (Inr i, s')" and row: "lock_occurrence s (oc_id oc) = Some oc"
    and st: "oc_state oc \<in> {OC_CLAIMED, OC_RUN_CREATED}"
  shows "\<exists>y. lock_occurrence s' (oc_id oc) = Some y \<and> oc_state y = run_projection (linked_run s oc) \<and>
    oc_agent_run_id y = oc_agent_run_id oc"
proof -
  have kept: "oc_agent_run_id (fail_row code disposition t oc) = oc_agent_run_id oc"
    "oc_agent_run_id (complete_row t oc) = oc_agent_run_id oc"
    "oc_agent_run_id (link_row oc) = oc_agent_run_id oc" for code disposition
    by (simp_all add: fail_row_def complete_row_def link_row_def)
  note written = flush_then_row [OF _ row]
  show ?thesis
  proof (cases "linked_run s oc")
    case None
    then have "lock_occurrence s' (oc_id oc) =
        Some (fail_row ''linked_run_missing'' ''operator_review_required'' t oc)"
      using ok by (intro written) (auto simp: reconcile_one_def linked_run_def Let_def notify_then_frame)
    then show ?thesis using None kept by simp
  next
    case (Some run)
    note run = Some [unfolded linked_run_def]
    consider "r_state run = COMPLETED" | "r_state run \<in> {FAILED, CANCELLED, EXPIRED}"
      | "r_state run \<notin> {COMPLETED, FAILED, CANCELLED, EXPIRED}" by blast
    then show ?thesis
    proof cases
      case 1
      then have "lock_occurrence s' (oc_id oc) = Some (complete_row t oc)"
        using ok run by (intro written) (auto simp: reconcile_one_def Let_def notify_then_frame)
      then show ?thesis using Some 1 kept by simp
    next
      case 2
      then have "r_state run \<noteq> COMPLETED" by auto
      then have "lock_occurrence s' (oc_id oc) =
          Some (fail_row (''run_'' @ state_value (r_state run)) (''run_'' @ state_value (r_state run)) t oc)"
        using ok run 2 by (intro written) (auto simp: reconcile_one_def Let_def notify_then_frame)
      then show ?thesis using Some 2 kept by auto
    next
      case 3
      show ?thesis
      proof (cases "oc_state oc = OC_CLAIMED")
        case True
        then have "lock_occurrence s' (oc_id oc) = Some (link_row oc)"
          using ok run 3 by (intro written) (auto simp: reconcile_one_def Let_def)
        then show ?thesis using Some 3 kept by simp
      next
        case False
        then have "s' = s" using ok run 3 by (simp add: reconcile_one_def Let_def)
        then show ?thesis using Some 3 st False row by simp
      qed
    qed
  qed
qed

lemma notify_runs [simp]: "db_runs (snd (notify oc event_kind severity code t s)) = db_runs s"
  by (auto simp: notify_def insert_automation_notification_def uuid4_def
      add_notification_def Let_def split: option.splits sum.splits prod.splits if_splits)

lemma flush_then_runs:
  assumes "\<And>x u. db_runs (snd (k x u)) = db_runs u"
  shows "db_runs (snd (andThen (flush_occurrence j f s) k)) = db_runs s"
  using andThen_frame [of db_runs k "flush_occurrence j f s", OF assms]
  by (simp add: flush_occurrence_def upd_occurrence_def split: option.split)

lemma notify_then_runs:
  "db_runs (snd (andThen (notify oc event_kind severity code t u) (\<lambda>_ u'. (Inr r, u')))) = db_runs u"
  "db_runs (snd (andThen (if p then notify oc event_kind severity code t u else (Inr (), u)) (\<lambda>_ u'. (Inr r, u')))) =
     db_runs u"
  by (rule trans [OF andThen_frame [where F = db_runs]]; simp)+

lemma reconcile_one_runs: "db_runs (snd (reconcile_one t oc s)) = db_runs s"
  unfolding reconcile_one_def Let_def by (simp add: flush_then_runs notify_then_runs split: option.split)

lemma linked_run_eq: "db_runs s' = db_runs s \<Longrightarrow> linked_run s' x = linked_run s x"
  by (cases "oc_agent_run_id x") (simp_all add: linked_run_def get_agent_run_def)

lemma reconcile_one_id: "reconcile_one t oc s = (Inr i, s') \<Longrightarrow> i = oc_id oc"
  by (auto simp: reconcile_one_def Let_def andThen_Inr_iff split: option.splits if_splits)

lemma reconcile_all_OK:
  fixes s :: "'a automation_db_scheme"
  shows "reconcile_all t ocs s = (Inr ids, s') \<Longrightarrow> selected s ocs \<Longrightarrow>
    \<forall>oc \<in> set ocs. oc_state oc \<in> {OC_CLAIMED, OC_RUN_CREATED} \<Longrightarrow>
    ids = map oc_id ocs \<and> db_runs s' = db_runs s \<and>
    (\<forall>oc \<in> set ocs. \<exists>y. lock_occurrence s' (oc_id oc) = Some y \<and>
       oc_state y = run_projection (linked_run s oc) \<and> oc_agent_run_id y = oc_agent_run_id oc)"
proof (induction ocs arbitrary: s ids)
  case (Cons oc ocs)
  obtain i u js where one: "reconcile_one t oc s = (Inr i, u)" and rest: "reconcile_all t ocs u = (Inr js, s')"
    and ids: "ids = i # js"
    using Cons.prems(1) by (auto simp: andThen_Inr_iff)
  have row: "lock_occurrence s (oc_id oc) = Some oc" and apart: "oc_id oc \<notin> oc_id ` set ocs"
    using Cons.prems(2) by (auto simp: selected_def)
  have runs: "db_runs u = db_runs s" using reconcile_one_runs [of t oc s] one by simp
  have sel: "selected u ocs"
    using selected_Cons [OF Cons.prems(2), of "snd (reconcile_one t oc s)"] reconcile_one_frame [of _ oc t s] one
    by simp
  obtain y where y: "lock_occurrence u (oc_id oc) = Some y" "oc_state y = run_projection (linked_run s oc)"
    "oc_agent_run_id y = oc_agent_run_id oc"
    using reconcile_one_OK [OF one row] Cons.prems(3) by auto
  have "lock_occurrence s' (oc_id oc) = lock_occurrence u (oc_id oc)"
    using reconcile_all_seen [OF apart, of t u] rest by (simp add: seen_def)
  then show ?case
    using Cons.IH [OF rest sel] Cons.prems(3) y ids reconcile_one_id [OF one] runs linked_run_eq [OF runs] by auto
qed simp


section \<open>Retries are bounded\<close>

lemma retry_delay_bounds: "0 < retry_delay oid attempt" "retry_delay oid attempt \<le> MAX_RETRY_DELAY"
proof -
  have "(1::int) \<le> 2 ^ nat (max 0 (attempt - 1))" by simp
  then have "0 < (5::int) * 2 ^ nat (max 0 (attempt - 1))" "0 \<le> (int oid + attempt) mod 5" by simp_all
  then show "0 < retry_delay oid attempt" "retry_delay oid attempt \<le> MAX_RETRY_DELAY"
    unfolding retry_delay_def Let_def MAX_RETRY_DELAY_def minutes_def seconds_def min_def
    by (auto intro: add_pos_nonneg)
qed

text \<open>The set-up of an occurrence is retried a bounded number of times. \<open>defer_setup\<close> acts only on a
  claimed occurrence without a Run. When capacity was lacking it costs no attempt. Otherwise it
  counts the attempt, and the occurrence becomes due again only while the attempts stay below the
  Automation's retry limit and below \<open>MAX_SETUP_ATTEMPTS\<close>; the attempt that reaches the smaller of
  them fails the occurrence. A deferred occurrence has no lease and its next attempt is strictly
  later, by at most \<open>MAX_RETRY_DELAY\<close>.\<close>

theorem defer_setup_bounded:
  assumes "defer_setup oid t capacity s = (Inr pending, s')"
  shows "\<exists>x a y. lock_occurrence s oid = Some x \<and> oc_state x = OC_CLAIMED \<and> oc_agent_run_id x = None \<and>
    get_automation s (oc_automation_id x) = Some a \<and> lock_occurrence s' oid = Some y \<and>
    oc_attempt_count y = oc_attempt_count x + (if capacity then 0 else 1) \<and>
    (pending \<longleftrightarrow> capacity \<or> oc_attempt_count y < min (au_retry_limit a) MAX_SETUP_ATTEMPTS) \<and>
    (if pending then oc_state y = OC_DUE \<and> oc_lease_owner_token y = None \<and>
        (\<exists>u. oc_retry_not_before y = Some u \<and> t < u \<and> u \<le> t + MAX_RETRY_DELAY)
     else oc_state y = OC_FAILED \<and> oc_retry_not_before y = None)"
proof -
  obtain x a where here: "lock_occurrence s oid = Some x" "oc_agent_run_id x = None" "oc_state x = OC_CLAIMED"
    "get_automation s (oc_automation_id x) = Some a"
    using assms by (auto simp: defer_setup_def split: option.splits if_splits)
  note bounds = retry_delay_bounds
  let ?n = "oc_attempt_count x + 1"
  consider "capacity" | "\<not> capacity" "?n \<ge> min (au_retry_limit a) MAX_SETUP_ATTEMPTS"
    | "\<not> capacity" "\<not> ?n \<ge> min (au_retry_limit a) MAX_SETUP_ATTEMPTS" by blast
  then show ?thesis
  proof cases
    case 1
    then have eq: "andThen (flush_occurrence oid (defer_row ''capacity_deferred'' 1 t) s) (\<lambda>oc' s1.
        andThen (if oc_safe_disposition_code x = Some ''capacity_deferred''
                 then notify oc' ''capacity_delayed'' ''warning'' ''capacity_deferred'' t s1
                 else (Inr (), s1)) (\<lambda>_ s2. (Inr True, s2))) = (Inr pending, s')"
      using assms here by (simp add: defer_setup_def)
    then have "pending" by (auto simp: andThen_Inr_iff)
    moreover have "lock_occurrence s' oid = Some (defer_row ''capacity_deferred'' 1 t x)"
      by (rule flush_then_row [OF eq here(1)]) (simp_all only: snapshot_rows notify_then_frame)
    ultimately show ?thesis using here 1 bounds [of "oc_id x" 1]
      by - (rule exI [of _ x], rule exI [of _ a], simp add: defer_row_def)
  next
    case 2
    let ?f = "fail_row ''setup_retry_exhausted'' ''operator_review_required'' t \<circ> close_retries \<circ> count_attempt"
    have eq: "andThen (flush_occurrence oid ?f s) (\<lambda>oc' s1.
        andThen (notify oc' ''retry_exhausted'' ''error'' ''setup_retry_exhausted'' t s1) (\<lambda>_ s2. (Inr False, s2))) =
        (Inr pending, s')"
      using assms here 2 by (simp add: defer_setup_def Let_def)
    then have "\<not> pending" by (auto simp: andThen_Inr_iff)
    moreover have "lock_occurrence s' oid = Some (?f x)"
      by (rule flush_then_row [OF eq here(1)]) (simp_all add: notify_then_frame)
    ultimately show ?thesis using here 2
      by - (rule exI [of _ x], rule exI [of _ a], auto simp: fail_row_def close_retries_def count_attempt_def)
  next
    case 3
    let ?f = "defer_row ''setup_retry_deferred'' ?n t \<circ> count_attempt"
    have eq: "andThen (flush_occurrence oid ?f s) (\<lambda>_ s1. (Inr True, s1)) = (Inr pending, s')"
      using assms here 3 by (simp add: defer_setup_def Let_def)
    then have "pending" by (auto simp: andThen_Inr_iff)
    moreover have "lock_occurrence s' oid = Some (?f x)"
      by (rule flush_then_row [OF eq here(1)]) simp_all
    ultimately show ?thesis using here 3 bounds [of "oc_id x" ?n]
      by - (rule exI [of _ x], rule exI [of _ a], auto simp: defer_row_def count_attempt_def)
  qed
qed

section \<open>Examples\<close>

definition example_reconciling :: "run_state \<Rightarrow> automation_db" where
  "example_reconciling st = example_linked_db\<lparr>db_runs := [example_linked_run\<lparr>r_state := st\<rparr>]\<rparr>"

lemma example_selected:
  "lock_linked_occurrences (example_reconciling st) (\<lambda>_. False) 16 = [example_linked]"
  by (simp add: lock_linked_occurrences_def example_reconciling_def example_linked_db_def automation_example_db_def
      example_linked_fields) (simp add: example_linked_def linked_def)


theorem defer_setup_bounded_witness:
  "\<exists>s' y u. defer_setup 7 example_start True (automation_example_db [example_enabled] [example_claimed]) = (Inr True, s') \<and>
     lock_occurrence s' 7 = Some y \<and> oc_state y = OC_DUE \<and> oc_attempt_count y = 0 \<and>
     oc_retry_not_before y = Some u \<and> u \<le> example_start + minutes 5"
proof -
  let ?s = "automation_example_db [example_enabled] [example_claimed]"
  let ?f = "defer_row ''capacity_deferred'' 1 example_start"
  have x: "oc_automation_id example_claimed = 5" "oc_safe_disposition_code example_claimed = None"
    "oc_attempt_count example_claimed = 0" "occurrence_checks (?f example_claimed)"
    "oc_agent_run_id (?f example_claimed) = None"
    by (simp_all add: example_claimed_def claim_row_def example_due_def new_occurrence_def example_enabled_def
        example_automation_def defer_row_def occurrence_checks_def terminal_occurrence_def example_slot_def)
  have rows: "lock_occurrence ?s 7 = Some example_claimed" "get_automation ?s 5 = Some example_enabled"
    by (simp_all add: lock_occurrence_def get_automation_def automation_example_db_def row_get_Cons
        example_claimed_fields example_enabled_def example_automation_def)
  have "flush_occurrence 7 ?f ?s = (Inr (?f example_claimed), upd_occurrence 7 ?f ?s)"
    using rows x by (simp add: flush_occurrence_def list_ex_iff)
  then have eq: "defer_setup 7 example_start True ?s = (Inr True, upd_occurrence 7 ?f ?s)"
    using rows x example_claimed_fields by (simp add: defer_setup_def)
  from defer_setup_bounded [OF eq] show ?thesis
    using eq rows x by (auto simp: MAX_RETRY_DELAY_def)
qed

end
