(* ===== verification/Run_Briefs.thy ===== *)
theory Run_Briefs
  imports Run_Loop Automation_Recovery
begin

text \<open>
  The results of the two automation Agents: \<open>app/daily_brief/events.py\<close> and \<open>service.py\<close> (a brief that
  may cite terminal occurrences beside the collected evidence), and \<open>app/project_watch/changes.py\<close>
  and \<open>service.py\<close> (what changed in one Project since the last completed watch). Then the unattended
  execution that produces them: \<open>execute_read_only_run\<close> of \<open>app/agent_runs/orchestration.py\<close> and
  \<open>coordinate_occurrence\<close> of \<open>app/automations/coordinator.py\<close>.
\<close>

section \<open>Timestamps\<close>

text \<open>\<open>datetime.isoformat()\<close> of a UTC instant, and \<open>str\<close> of it with a blank as separator.\<close>

definition iso_datetime :: "string \<Rightarrow> instant \<Rightarrow> string" where
  "iso_datetime sep u = (let (y, m, d) = ymd_of_ordinal (u div DAY); r = u mod DAY; f = r mod seconds 1 in
     pad 4 y @ ''-'' @ pad 2 m @ ''-'' @ pad 2 d @ sep @
     pad 2 (r div hours 1) @ '':'' @ pad 2 (r mod hours 1 div minutes 1) @ '':'' @
     pad 2 (r mod minutes 1 div seconds 1) @ (if f = 0 then '''' else ''.'' @ pad 6 f) @ ''+00:00'')"

definition isoformat :: "instant \<Rightarrow> string" where
  "isoformat u = iso_datetime ''T'' u"

section \<open>Application events\<close>

record application_event_evidence = citation_evidence +
  ae_project_id :: "uuid option"
  ae_content :: json

definition MAX_APPLICATION_EVENTS :: int where
  "MAX_APPLICATION_EVENTS = 5"

fun EVENT_KIND_BY_STATE :: "occurrence_state \<Rightarrow> string option" where
  "EVENT_KIND_BY_STATE OC_COMPLETED = Some ''automation_run_completed''"
| "EVENT_KIND_BY_STATE OC_MISSED = Some ''automation_occurrence_missed''"
| "EVENT_KIND_BY_STATE OC_FAILED = Some ''automation_occurrence_failed''"
| "EVENT_KIND_BY_STATE OC_CANCELLED = Some ''automation_occurrence_cancelled''"
| "EVENT_KIND_BY_STATE _ = None"

definition event_projection :: "occurrence \<Rightarrow> exn + json" where
  "event_projection row =
    (case (EVENT_KIND_BY_STATE (oc_state row), oc_completed_at row) of
       (Some kind, Some completed) \<Rightarrow> Inr (JObj
          [(''event_kind'', JStr kind), (''occurred_at'', JStr (isoformat completed)),
           (''scheduled_at'', JStr (isoformat (oc_scheduled_at row))),
           (''agent_kind'', JStr (oc_agent_kind row)), (''agent_version'', JStr (oc_agent_version row))])
     | _ \<Rightarrow> Inl ApplicationEventValidationError)"

definition event_version :: "(string \<Rightarrow> string) \<Rightarrow> json \<Rightarrow> string" where
  "event_version sha content = sha (dumps content)"

definition selectable_event :: "uuid option \<Rightarrow> occurrence \<Rightarrow> bool" where
  "selectable_event project row \<longleftrightarrow>
     oc_project_id row = project \<and> EVENT_KIND_BY_STATE (oc_state row) \<noteq> None \<and> oc_completed_at row \<noteq> None"

definition select_events :: "'a automation_db_scheme \<Rightarrow> uuid option \<Rightarrow> nat \<Rightarrow> occurrence list" where
  "select_events s project limit =
     take limit (rev (sort_key (\<lambda>row. (the (oc_completed_at row), oc_id row))
       (filter (selectable_event project) (db_occurrences s))))"

fun event_items :: "(string \<Rightarrow> string) \<Rightarrow> nat \<Rightarrow> occurrence list \<Rightarrow> exn + application_event_evidence list" where
  "event_items sha k [] = Inr []"
| "event_items sha k (row # rows) =
    (case event_projection row of
       Inl e \<Rightarrow> Inl e
     | Inr content \<Rightarrow>
        (case event_items sha (Suc k) rows of
           Inl e \<Rightarrow> Inl e
         | Inr items \<Rightarrow> Inr (\<lparr> ei_evidence_id = ''e'' @ str_int (int k), ei_entity_type = ''application_event'',
             ei_entity_id = oc_id row, ei_version = event_version sha content,
             ae_project_id = oc_project_id row, ae_content = content \<rparr> # items)))"

definition collect_events ::
  "(string \<Rightarrow> string) \<Rightarrow> 'a automation_db_scheme \<Rightarrow> uuid option \<Rightarrow> nat \<Rightarrow> int \<Rightarrow> exn + application_event_evidence list"
where
  "collect_events sha s project offset limit =
    (let bounded = min (max limit 0) MAX_APPLICATION_EVENTS in
     if bounded = 0 then Inr []
     else event_items sha (offset + 1) (select_events s project (nat bounded)))"

definition event_current ::
  "(string \<Rightarrow> string) \<Rightarrow> 'a automation_db_scheme \<Rightarrow> uuid option \<Rightarrow> application_event_evidence \<Rightarrow> bool" where
  "event_current sha s project item \<longleftrightarrow>
     ei_entity_type item = ''application_event'' \<and> ae_project_id item = project \<and>
     (case lock_occurrence s (ei_entity_id item) of
        None \<Rightarrow> False
      | Some row \<Rightarrow> oc_project_id row = project \<and>
          (case event_projection row of
             Inl _ \<Rightarrow> False
           | Inr content \<Rightarrow> event_version sha content = ei_version item \<and> content = ae_content item))"

section \<open>The Daily Brief\<close>

definition INSUFFICIENT_BRIEF :: research_result where
  "INSUFFICIENT_BRIEF = \<lparr> rr_status = ''insufficient_evidence'', rr_claims = [],
     rr_insufficiency = Some ''The reviewed local evidence is insufficient for a safe Daily Brief.'' \<rparr>"

definition is_daily_brief :: "string \<Rightarrow> string \<Rightarrow> bool" where
  "is_daily_brief kind version \<longleftrightarrow> (kind, version) = (''daily_brief'', ''1'')"

definition brief_evidence ::
  "collected_evidence list \<Rightarrow> application_event_evidence list \<Rightarrow> citation_evidence list" where
  "brief_evidence knowledge events =
     map citation_evidence.truncate knowledge @ map citation_evidence.truncate events"

definition brief_persist ::
  "(string \<Rightarrow> string) \<Rightarrow> knowledge_world \<Rightarrow> uuid \<Rightarrow> collected_evidence list \<Rightarrow> application_event_evidence list
     \<Rightarrow> research_result \<Rightarrow> instant \<Rightarrow> 'a automation_db_scheme \<Rightarrow> ('a automation_db_scheme, agent_event) outcome" where
  "brief_persist sha world rid knowledge events result t s =
    (case get_agent_run s rid of
       None \<Rightarrow> (Inl ResearchValidationError, s)
     | Some run \<Rightarrow>
        if \<not> is_daily_brief (r_agent_kind run) (r_agent_version run) \<or> r_state run \<noteq> RUNNING
          then (Inl ResearchValidationError, s)
        else if \<not> still_current sha world s run knowledge \<or>
                \<not> list_all (event_current sha s (r_project_id run)) events
          then (Inl ResearchValidationError, s)
        else
         (case validate_result result (brief_evidence knowledge events) of
            Inl e \<Rightarrow> (Inl e, s)
          | Inr value \<Rightarrow> append_agent_event (result_event run ''daily_brief.result'' ''daily_brief_result''
                ''bounded Daily Brief result produced'' value t) s))"

definition synthesize_brief ::
  "(string \<Rightarrow> string) \<Rightarrow> knowledge_world \<Rightarrow> 'a automation_db_scheme synthesis_env \<Rightarrow> uuid \<Rightarrow> collected_evidence list
     \<Rightarrow> (provider_error + research_result) \<Rightarrow> 'a automation_db_scheme \<Rightarrow> ('a automation_db_scheme, unit) outcome"
where
  "synthesize_brief sha world env rid evidence answer s =
    (let limit = aad_max_evidence DAILY_BRIEF_DEFINITION in
     if int (length evidence) > limit then settle_failure rid ''daily_brief_evidence_invalid'' (se_fail_time env) s
     else
      (case get_agent_run s rid of
         None \<Rightarrow> (Inr (), s)
       | Some run \<Rightarrow>
          if r_state run \<noteq> RUNNING then (Inr (), s)
          else
           (case collect_events sha s (r_project_id run) (length evidence) (limit - int (length evidence)) of
              Inl e \<Rightarrow> (Inl e, s)
            | Inr events \<Rightarrow>
               settle_synthesis ''daily_brief'' ResearchValidationError rid (se_fail_time env)
                 (if evidence = [] \<and> events = [] then Inr INSUFFICIENT_BRIEF else answer)
                 (\<lambda>result. brief_persist sha world rid evidence events result (se_persist_time env))
                 (se_during env s))))"

section \<open>The change window of a Project Watch\<close>

text \<open>
  What a watch reads beside the Agent tables: the rows of the Projects, and the instant a Memory's
  \<open>updated_at\<close> denotes (the row holds its ISO text).
\<close>

record project_row =
  pj_id :: uuid
  pj_name :: string
  pj_description :: "string option"
  pj_updated_at :: instant

record watch_world =
  ww_projects :: "project_row list"
  ww_instant :: "string \<Rightarrow> instant"

definition project_row :: "watch_world \<Rightarrow> uuid \<Rightarrow> project_row option" where
  "project_row w i = row_get pj_id (ww_projects w) i"

record change_window =
  cw_occurrence_id :: uuid
  cw_project_id :: uuid
  cw_lower :: instant
  cw_upper :: instant

record change_evidence = citation_evidence +
  ch_project_id :: uuid
  ch_changed_at :: instant
  ch_content :: json

definition MAX_CHANGES :: nat where
  "MAX_CHANGES = 20"

definition INITIAL_WINDOW :: int where
  "INITIAL_WINDOW = days 7"

definition watch_occurrence :: "occurrence \<Rightarrow> bool" where
  "watch_occurrence oc \<longleftrightarrow> oc_agent_kind oc = ''project_watch'' \<and> oc_agent_version oc = ''1''"

definition run_reported :: "'a agent_db_scheme \<Rightarrow> uuid \<Rightarrow> bool" where
  "run_reported s rid \<longleftrightarrow>
    (case get_agent_run s rid of
       None \<Rightarrow> False
     | Some run \<Rightarrow> r_state run = COMPLETED \<and>
         list_ex (\<lambda>e. ev_type e = ''project_watch.result'') (run_events s rid))"

definition earlier_watch :: "'a automation_db_scheme \<Rightarrow> occurrence \<Rightarrow> occurrence \<Rightarrow> bool" where
  "earlier_watch s current oc \<longleftrightarrow>
     oc_automation_id oc = oc_automation_id current \<and> oc_id oc \<noteq> oc_id current \<and> watch_occurrence oc \<and>
     oc_project_id oc = oc_project_id current \<and> oc_state oc = OC_COMPLETED \<and>
     (case oc_agent_run_id oc of None \<Rightarrow> False | Some rid \<Rightarrow> run_reported s rid) \<and>
     oc_scheduled_at oc < oc_scheduled_at current"

definition previous_watch :: "'a automation_db_scheme \<Rightarrow> occurrence \<Rightarrow> occurrence option" where
  "previous_watch s current =
    (case rev (sort_key (\<lambda>oc. (oc_scheduled_at oc, oc_id oc)) (filter (earlier_watch s current) (db_occurrences s))) of
       [] \<Rightarrow> None | oc # _ \<Rightarrow> Some oc)"

definition initial_lower :: "automation \<Rightarrow> occurrence \<Rightarrow> instant" where
  "initial_lower a current =
    (let start = max (au_created_at a) (oc_scheduled_at current - INITIAL_WINDOW) in
     if start \<ge> oc_scheduled_at current then oc_scheduled_at current - INITIAL_WINDOW else start)"

definition derive_window :: "watch_world \<Rightarrow> 'a automation_db_scheme \<Rightarrow> uuid \<Rightarrow> exn + change_window" where
  "derive_window w s rid =
    (case find (\<lambda>oc. oc_agent_run_id oc = Some rid \<and> watch_occurrence oc) (db_occurrences s) of
       None \<Rightarrow> Inl ChangeValidationError
     | Some current \<Rightarrow>
        (case oc_project_id current of
           None \<Rightarrow> Inl ChangeValidationError
         | Some project \<Rightarrow>
            (case (get_automation s (oc_automation_id current), project_row w project) of
               (Some a, Some _) \<Rightarrow>
                 let lower = (case previous_watch s current of
                       Some oc \<Rightarrow> oc_scheduled_at oc | None \<Rightarrow> initial_lower a current)
                 in if lower \<ge> oc_scheduled_at current then Inl ChangeValidationError
                    else Inr \<lparr> cw_occurrence_id = oc_id current, cw_project_id = project, cw_lower = lower,
                               cw_upper = oc_scheduled_at current \<rparr>
             | _ \<Rightarrow> Inl ChangeValidationError)))"

section \<open>Changes\<close>

definition project_content :: "project_row \<Rightarrow> instant \<Rightarrow> json" where
  "project_content p changed = JObj
     [(''change_kind'', JStr ''project_state''), (''changed_at'', JStr (isoformat changed)),
      (''name'', JStr (pj_name p)), (''description'', jopt JStr (pj_description p))]"

definition memory_content :: "memory_row \<Rightarrow> instant \<Rightarrow> json" where
  "memory_content m changed = JObj
     [(''change_kind'', JStr ''memory_state''), (''changed_at'', JStr (isoformat changed)),
      (''title'', jopt JStr (m_title m)), (''summary'', jopt JStr (m_summary m)), (''content'', JStr (m_content m)),
      (''memory_type'', JStr (m_memory_type m)), (''status'', JStr (m_status m)),
      (''importance'', m_importance m), (''confidence'', m_confidence m)]"

text \<open>\<open>_digest\<close> writes with \<open>default=str\<close>.\<close>

definition project_version :: "(string \<Rightarrow> string) \<Rightarrow> project_row \<Rightarrow> string" where
  "project_version sha p = sha (dumps (JObj
     [(''id'', JStr (uuid_text (pj_id p))), (''name'', JStr (pj_name p)),
      (''description'', jopt JStr (pj_description p)), (''updated_at'', JStr (iso_datetime '' '' (pj_updated_at p)))]))"

definition project_change :: "(string \<Rightarrow> string) \<Rightarrow> project_row \<Rightarrow> instant \<times> uuid \<times> string \<times> string \<times> json" where
  "project_change sha p = (pj_updated_at p, pj_id p, ''project'', project_version sha p,
     project_content p (pj_updated_at p))"

definition memory_change ::
  "watch_world \<Rightarrow> (string \<Rightarrow> string) \<Rightarrow> memory_row \<Rightarrow> instant \<times> uuid \<times> string \<times> string \<times> json" where
  "memory_change w sha m = (let changed = ww_instant w (m_updated_at m) in
     (changed, m_id m, ''memory'', target_version sha m, memory_content m changed))"

definition within :: "change_window \<Rightarrow> instant \<Rightarrow> bool" where
  "within window t \<longleftrightarrow> cw_lower window < t \<and> t \<le> cw_upper window"

definition changed_memories :: "watch_world \<Rightarrow> 'a agent_db_scheme \<Rightarrow> change_window \<Rightarrow> memory_row list" where
  "changed_memories w s window = take MAX_CHANGES
     (sort_key (\<lambda>m. (ww_instant w (m_updated_at m), m_id m))
       (filter (\<lambda>m. m_project_id m = Some (cw_project_id window) \<and> within window (ww_instant w (m_updated_at m)))
         (db_memories s)))"

definition change_item :: "change_window \<Rightarrow> nat \<times> instant \<times> uuid \<times> string \<times> string \<times> json \<Rightarrow> change_evidence" where
  "change_item window = (\<lambda>(k, changed, i, ty, version, content).
     \<lparr> ei_evidence_id = ''e'' @ str_int (int k), ei_entity_type = ty, ei_entity_id = i, ei_version = version,
       ch_project_id = cw_project_id window, ch_changed_at = changed, ch_content = content \<rparr>)"

definition collect_changes ::
  "(string \<Rightarrow> string) \<Rightarrow> watch_world \<Rightarrow> 'a agent_db_scheme \<Rightarrow> change_window \<Rightarrow> exn + change_evidence list" where
  "collect_changes sha w s window =
    (case project_row w (cw_project_id window) of
       None \<Rightarrow> Inl ChangeValidationError
     | Some p \<Rightarrow>
        let candidates = (if within window (pj_updated_at p) then [project_change sha p] else []) @
              map (memory_change w sha) (changed_memories w s window);
            first = take MAX_CHANGES (sort_key (\<lambda>c. (fst c, fst (snd c))) candidates)
        in Inr (map (change_item window) (zip [1..<Suc (length first)] first)))"

definition change_current ::
  "(string \<Rightarrow> string) \<Rightarrow> watch_world \<Rightarrow> 'a agent_db_scheme \<Rightarrow> change_window \<Rightarrow> change_evidence \<Rightarrow> bool" where
  "change_current sha w s window item \<longleftrightarrow>
     ch_project_id item = cw_project_id window \<and> within window (ch_changed_at item) \<and>
     (if ei_entity_type item = ''project'' then
        (case project_row w (ei_entity_id item) of
           None \<Rightarrow> False
         | Some p \<Rightarrow> ei_entity_id item = cw_project_id window \<and> pj_updated_at p = ch_changed_at item \<and>
             project_version sha p = ei_version item \<and> project_content p (ch_changed_at item) = ch_content item)
      else if ei_entity_type item = ''memory'' then
        (case lock_memory s (ei_entity_id item) of
           None \<Rightarrow> False
         | Some m \<Rightarrow> m_project_id m = Some (cw_project_id window) \<and>
             ww_instant w (m_updated_at m) = ch_changed_at item \<and>
             target_version sha m = ei_version item \<and> memory_content m (ch_changed_at item) = ch_content item)
      else False)"

definition window_current :: "watch_world \<Rightarrow> 'a automation_db_scheme \<Rightarrow> change_window \<Rightarrow> bool" where
  "window_current w s window \<longleftrightarrow>
    (case lock_occurrence s (cw_occurrence_id window) of
       None \<Rightarrow> False
     | Some oc \<Rightarrow>
        (case oc_agent_run_id oc of None \<Rightarrow> False | Some rid \<Rightarrow> derive_window w s rid = Inr window))"

definition changes_current ::
  "(string \<Rightarrow> string) \<Rightarrow> watch_world \<Rightarrow> 'a automation_db_scheme \<Rightarrow> change_window \<Rightarrow> change_evidence list \<Rightarrow> bool" where
  "changes_current sha w s window items \<longleftrightarrow>
     window_current w s window \<and> list_all (change_current sha w s window) items"

section \<open>The Project Watch\<close>

record watch_finding =
  wf_text :: string
  wf_evidence_ids :: "string list"

record watch_result =
  wr_status :: string
  wr_findings :: "watch_finding list"

fun watch_findings ::
  "(string \<Rightarrow> change_evidence option) \<Rightarrow> string list \<Rightarrow> watch_finding list \<Rightarrow> exn + (string list \<times> json list)" where
  "watch_findings items used [] = Inr (used, [])"
| "watch_findings items used (f # fs) =
    (if \<not> distinct (wf_evidence_ids f) \<or> list_ex (\<lambda>i. items i = None) (wf_evidence_ids f)
       then Inl ChangeValidationError
     else let used' = used @ filter (\<lambda>i. i \<notin> set used) (wf_evidence_ids f) in
       (case watch_findings items used' fs of
          Inl e \<Rightarrow> Inl e
        | Inr (used'', rest) \<Rightarrow> Inr (used'', claim_json (wf_text f) (map (number_of used') (wf_evidence_ids f)) # rest)))"

definition watch_citation :: "(string \<Rightarrow> change_evidence option) \<Rightarrow> nat \<times> string \<Rightarrow> json" where
  "watch_citation items = (\<lambda>(k, i). citation k (the (items i)))"

definition watch_report ::
  "watch_result \<Rightarrow> change_evidence list \<Rightarrow> exn + (json list \<times> json list)" where
  "watch_report result evidence =
    (if wr_status result = ''no_meaningful_change'' then
       (if wr_findings result \<noteq> [] then Inl ChangeValidationError else Inr ([], []))
     else if wr_findings result = [] then Inl ChangeValidationError
     else
      (case watch_findings (by_id evidence) [] (wr_findings result) of
         Inl e \<Rightarrow> Inl e
       | Inr (used, findings) \<Rightarrow>
          if int (length used) > aad_max_citations PROJECT_WATCH_DEFINITION then Inl ChangeValidationError
          else Inr (findings, map (watch_citation (by_id evidence)) (zip [1..<Suc (length used)] used))))"

definition watch_value :: "string \<Rightarrow> json list \<Rightarrow> json list \<Rightarrow> change_window \<Rightarrow> json" where
  "watch_value status findings citations window = JObj
     [(''status'', JStr status), (''findings'', JArr findings), (''citations'', JArr citations),
      (''window_start'', JStr (isoformat (cw_lower window))), (''window_end'', JStr (isoformat (cw_upper window)))]"

definition watch_persist ::
  "(string \<Rightarrow> string) \<Rightarrow> watch_world \<Rightarrow> uuid \<Rightarrow> change_window \<Rightarrow> change_evidence list \<Rightarrow> watch_result \<Rightarrow> instant
     \<Rightarrow> 'a automation_db_scheme \<Rightarrow> ('a automation_db_scheme, agent_event) outcome" where
  "watch_persist sha w rid window evidence result t s =
    (case get_agent_run s rid of
       None \<Rightarrow> (Inl ChangeValidationError, s)
     | Some run \<Rightarrow>
        if (r_agent_kind run, r_agent_version run) \<noteq> (''project_watch'', ''1'') \<or> r_project_id run = None \<or>
           r_state run \<noteq> RUNNING
          then (Inl ChangeValidationError, s)
        else if int (length evidence) > aad_max_evidence PROJECT_WATCH_DEFINITION \<or>
                \<not> changes_current sha w s window evidence
          then (Inl ChangeValidationError, s)
        else
         (case watch_report result evidence of
            Inl e \<Rightarrow> (Inl e, s)
          | Inr (findings, citations) \<Rightarrow>
             append_agent_event (result_event run ''project_watch.result'' ''project_watch_result''
                ''bounded Project Watch result produced'' (watch_value (wr_status result) findings citations window) t) s))"

text \<open>\<open>w\<close> and \<open>w'\<close> are what the watch reads before and after the provider's call.\<close>

definition synthesize_watch ::
  "(string \<Rightarrow> string) \<Rightarrow> watch_world \<Rightarrow> watch_world \<Rightarrow> 'a automation_db_scheme synthesis_env \<Rightarrow> uuid
     \<Rightarrow> (provider_error + watch_result) \<Rightarrow> 'a automation_db_scheme \<Rightarrow> ('a automation_db_scheme, unit) outcome"
where
  "synthesize_watch sha w w' env rid answer s =
    (case (case derive_window w s rid of
             Inl e \<Rightarrow> Inl e
           | Inr window \<Rightarrow>
              (case collect_changes sha w s window of Inl e \<Rightarrow> Inl e | Inr evidence \<Rightarrow> Inr (window, evidence))) of
       Inl _ \<Rightarrow> settle_failure rid ''project_watch_evidence_invalid'' (se_fail_time env) s
     | Inr (window, evidence) \<Rightarrow>
        (case get_agent_run s rid of
           None \<Rightarrow> (Inr (), s)
         | Some run \<Rightarrow>
            if r_state run \<noteq> RUNNING then (Inr (), s)
            else settle_synthesis ''project_watch'' ChangeValidationError rid (se_fail_time env)
                  (if evidence = [] then Inr \<lparr> wr_status = ''no_meaningful_change'', wr_findings = [] \<rparr> else answer)
                  (\<lambda>result. watch_persist sha w' rid window evidence result (se_persist_time env))
                  (se_during env s)))"

section \<open>Unattended execution\<close>

text \<open>A provider that is not configured (\<open>resolve_\<dots>_provider\<close> is None) is the answer None.\<close>

record 'db unattended_env =
  ue_lib :: schema_lib
  ue_sha :: "string \<Rightarrow> string"
  ue_check_output :: "schema_type \<Rightarrow> json \<Rightarrow> json option"
  ue_available :: bool
  ue_plan :: "exn + planning_result option"
  ue_plan_times :: "instant \<times> instant"
  ue_planning :: "'db \<Rightarrow> 'db"
  ue_claim_times :: "instant \<times> instant"
  ue_calls :: "nat \<Rightarrow> call_env"
  ue_during :: "nat \<Rightarrow> 'db \<Rightarrow> 'db"
  ue_between :: "nat \<Rightarrow> 'db \<Rightarrow> 'db"
  ue_world :: knowledge_world
  ue_watch :: "watch_world \<times> watch_world"
  ue_brief_answer :: "(provider_error + research_result) option"
  ue_watch_answer :: "(provider_error + watch_result) option"
  ue_synthesis :: "'db synthesis_env"
  ue_complete_time :: instant
  ue_check_time :: instant
  ue_busy :: "uuid \<Rightarrow> bool"
  ue_reconcile_time :: instant

definition unattended_config :: "'db unattended_env \<Rightarrow> tool_identity list \<Rightarrow> execution_claim \<Rightarrow> loop_config" where
  "unattended_config env tools claim =
     \<lparr> lc_lib = ue_lib env, lc_sha = ue_sha env, lc_check_output = ue_check_output env, lc_claim = claim,
       lc_automatic = Some tools, lc_collecting = is_daily_brief (xc_agent_kind claim) (xc_agent_version claim),
       lc_invalid_code = ''daily_brief_evidence_invalid'' \<rparr>"

definition unattended_synthesis ::
  "'a automation_db_scheme unattended_env \<Rightarrow> execution_claim \<Rightarrow> collected_evidence list
     \<Rightarrow> 'a automation_db_scheme \<Rightarrow> ('a automation_db_scheme, unit) outcome" where
  "unattended_synthesis env claim collected s =
    (let rid = xc_run_id claim;
         brief = is_daily_brief (xc_agent_kind claim) (xc_agent_version claim) \<and> ue_brief_answer env \<noteq> None;
         watch = (xc_agent_kind claim, xc_agent_version claim) = (''project_watch'', ''1'') \<and> ue_watch_answer env \<noteq> None
     in committed
          (if brief then synthesize_brief (ue_sha env) (ue_world env) (ue_synthesis env) rid collected
                           (the (ue_brief_answer env)) s
           else if watch then synthesize_watch (ue_sha env) (fst (ue_watch env)) (snd (ue_watch env))
                           (ue_synthesis env) rid (the (ue_watch_answer env)) s
           else (Inr (), s)) s
          (\<lambda>_ s1. finish_execution claim brief watch (ue_complete_time env) s1))"

definition execute_read_only_run ::
  "nat \<Rightarrow> 'a automation_db_scheme unattended_env \<Rightarrow> uuid \<Rightarrow> int \<Rightarrow> tool_identity list
     \<Rightarrow> 'a automation_db_scheme \<Rightarrow> ('a automation_db_scheme, unit) outcome option" where
  "execute_read_only_run fuel env rid n tools s =
    (case claim_execution rid n (Some tools) (fst (ue_claim_times env)) (snd (ue_claim_times env)) s of
       (Inl e, _) \<Rightarrow> Some (Inl e, s)
     | (Inr None, s1) \<Rightarrow> Some (Inr (), s1)
     | (Inr (Some claim), s1) \<Rightarrow>
        map_option (\<lambda>looped. case looped of
            (Inl e, s2) \<Rightarrow> (Inl e, s2)
          | (Inr collected, s2) \<Rightarrow> unattended_synthesis env claim collected s2)
          (execution_loop fuel (unattended_config env tools claim) (ue_calls env) (ue_during env) (ue_between env)
             0 [] s1))"

text \<open>
  The steps of \<open>coordinate_occurrence\<close>: what the check finds stays as it was read until the first
  commit, and the Run is read anew after planning.
\<close>

definition coordinate_planning ::
  "'a automation_db_scheme unattended_env \<Rightarrow> agent_run \<Rightarrow> tool_identity list \<Rightarrow> 'a automation_db_scheme
     \<Rightarrow> ('a automation_db_scheme, unit) outcome" where
  "coordinate_planning env run tools s =
    (if r_state run \<noteq> CREATED then (Inr (), s)
     else plan_read_only_run (ue_lib env) (r_id run) (r_revision run) tools (ue_plan env) (ue_available env)
            (ue_planning env) (fst (ue_plan_times env)) (snd (ue_plan_times env)) s)"

definition coordinate_execution ::
  "nat \<Rightarrow> 'a automation_db_scheme unattended_env \<Rightarrow> uuid \<Rightarrow> tool_identity list \<Rightarrow> 'a automation_db_scheme
     \<Rightarrow> ('a automation_db_scheme, unit) outcome option" where
  "coordinate_execution fuel env rid tools s =
    (case get_agent_run s rid of
       None \<Rightarrow> Some (Inr (), s)
     | Some run \<Rightarrow>
        if r_state run \<noteq> READY then Some (Inr (), s)
        else execute_read_only_run fuel env rid (r_revision run) tools s)"

definition coordinate_occurrence ::
  "nat \<Rightarrow> 'a automation_db_scheme unattended_env \<Rightarrow> (string \<Rightarrow> string \<Rightarrow> automatic_agent_definition option)
     \<Rightarrow> uuid \<Rightarrow> 'a automation_db_scheme \<Rightarrow> ('a automation_db_scheme, uuid) outcome option" where
  "coordinate_occurrence fuel env resolver oid s =
    (case eligible_linked_run resolver oid (ue_check_time env) s of
       Inl e \<Rightarrow> Some (Inl e, s)
     | Inr (rid, d) \<Rightarrow>
        (case get_agent_run s rid of
           None \<Rightarrow> Some (Inl AssertionError, s)
         | Some run \<Rightarrow>
            (case coordinate_planning env run (aad_allowed_tools d) s of
               (Inl e, s1) \<Rightarrow> Some (Inl e, s1)
             | (Inr _, s1) \<Rightarrow>
                map_option (\<lambda>executed. case executed of
                    (Inl e, s2) \<Rightarrow> (Inl e, s2)
                  | (Inr _, s2) \<Rightarrow> committed (reconcile_linked (ue_busy env) (ue_reconcile_time env) 1 s2) s2
                      (\<lambda>_ s3. (Inr rid, s3)))
                  (coordinate_execution fuel env rid (aad_allowed_tools d) s1))))"

end
