(* ===== verification/Run_Brief_Properties.thy ===== *)
theory Run_Brief_Properties
  imports Run_Briefs
begin

text \<open>
  What the automation Agents promise: freshly collected evidence passes the check made after the
  provider's call, the windows of successive watches tile the time line, a stored result cites only
  evidence that is current, in scope and in the window; and what they do not: a brief that arrives
  after the deadline of its Run still completes it.
\<close>

section \<open>Application events\<close>

lemma event_projection_selectable:
  "selectable_event project row \<Longrightarrow> \<exists>content. event_projection row = Inr content"
  by (auto simp: selectable_event_def event_projection_def split: option.split)

lemma event_items_current:
  assumes "\<And>row. row \<in> set rows \<Longrightarrow> selectable_event project row \<and> lock_occurrence s (oc_id row) = Some row"
  shows "\<exists>items. event_items sha k rows = Inr items \<and> length items = length rows \<and>
    list_all (event_current sha s project) items \<and>
    map ei_evidence_id items = map (\<lambda>i. ''e'' @ str_int (int i)) [k..<k + length rows]"
  using assms
proof (induction rows arbitrary: k)
  case (Cons row rows)
  obtain content where p: "event_projection row = Inr content" "oc_project_id row = project"
      "lock_occurrence s (oc_id row) = Some row"
    using Cons.prems [of row] event_projection_selectable by (auto simp: selectable_event_def)
  obtain items where items: "event_items sha (Suc k) rows = Inr items" "length items = length rows"
      "list_all (event_current sha s project) items"
      "map ei_evidence_id items = map (\<lambda>i. ''e'' @ str_int (int i)) [Suc k..<Suc k + length rows]"
    using Cons by fastforce
  have now: "event_current sha s project \<lparr> ei_evidence_id = i, ei_entity_type = ''application_event'',
      ei_entity_id = oc_id row, ei_version = event_version sha content, ae_project_id = oc_project_id row,
      ae_content = content \<rparr>" for i
    using p by (simp add: event_current_def)
  show ?case using p(1) items now by (simp add: upt_conv_Cons del: upt_Suc)
qed simp

lemma select_events_rows:
  assumes "distinct (map oc_id (db_occurrences s))" and "row \<in> set (select_events s project n)"
  shows "selectable_event project row \<and> lock_occurrence s (oc_id row) = Some row"
proof -
  have "row \<in> set (db_occurrences s)" "selectable_event project row"
    using assms(2) unfolding select_events_def by (auto dest!: in_set_takeD)
  then show ?thesis using assms(1) by (simp add: lock_occurrence_def row_get_distinct)
qed

lemma fresh_events_current:
  assumes "distinct (map oc_id (db_occurrences s))"
  shows "\<exists>items. collect_events sha s project offset limit = Inr items \<and> length items \<le> 5 \<and>
    list_all (event_current sha s project) items"
proof (cases "min (max limit 0) MAX_APPLICATION_EVENTS = 0")
  case False
  let ?rows = "select_events s project (nat (min (max limit 0) MAX_APPLICATION_EVENTS))"
  obtain items where "event_items sha (offset + 1) ?rows = Inr items" "length items = length ?rows"
      "list_all (event_current sha s project) items"
    using event_items_current [of ?rows] select_events_rows [OF assms] by blast
  moreover have "length ?rows \<le> 5" by (simp add: select_events_def MAX_APPLICATION_EVENTS_def)
  ultimately show ?thesis using False by (simp add: collect_events_def)
qed (simp add: collect_events_def)

section \<open>The window\<close>

lemma derive_window_OK:
  assumes "derive_window w s rid = Inr window"
  obtains current a p where "current \<in> set (db_occurrences s)" "oc_agent_run_id current = Some rid"
    "watch_occurrence current" "oc_project_id current = Some (cw_project_id window)"
    "get_automation s (oc_automation_id current) = Some a" "project_row w (cw_project_id window) = Some p"
    "cw_occurrence_id window = oc_id current" "cw_upper window = oc_scheduled_at current"
    "cw_lower window = (case previous_watch s current of Some oc \<Rightarrow> oc_scheduled_at oc | None \<Rightarrow> initial_lower a current)"
    "cw_lower window < cw_upper window"
proof -
  obtain current project where current: "find (\<lambda>oc. oc_agent_run_id oc = Some rid \<and> watch_occurrence oc) (db_occurrences s) = Some current"
      "oc_project_id current = Some project"
    using assms unfolding derive_window_def by (auto split: option.splits)
  obtain a p where rows: "get_automation s (oc_automation_id current) = Some a" "project_row w project = Some p"
    using assms current unfolding derive_window_def by (auto split: option.splits)
  have "current \<in> set (db_occurrences s) \<and> oc_agent_run_id current = Some rid \<and> watch_occurrence current"
    using current(1) by (auto simp: find_Some_iff)
  moreover have "cw_project_id window = project \<and> cw_occurrence_id window = oc_id current \<and>
      cw_upper window = oc_scheduled_at current \<and> cw_lower window < cw_upper window \<and>
      cw_lower window = (case previous_watch s current of Some oc \<Rightarrow> oc_scheduled_at oc | None \<Rightarrow> initial_lower a current)"
    using assms current rows unfolding derive_window_def by (auto simp: Let_def not_le split: if_splits)
  ultimately show ?thesis using current(2) rows by (intro that [of current a p]) simp_all
qed

lemma previous_watch_latest:
  assumes "previous_watch s current = Some oc"
  shows "oc \<in> set (db_occurrences s) \<and> earlier_watch s current oc \<and>
    (\<forall>x \<in> set (db_occurrences s). earlier_watch s current x \<longrightarrow> oc_scheduled_at x \<le> oc_scheduled_at oc)"
proof -
  let ?xs = "sort_key (\<lambda>oc. (oc_scheduled_at oc, oc_id oc)) (filter (earlier_watch s current) (db_occurrences s))"
  obtain ys where "rev ?xs = oc # ys"
    using assms by (auto simp: previous_watch_def split: list.splits)
  then have xs: "?xs = rev ys @ [oc]" by (simp add: rev_eq_Cons_iff)
  have "sorted (map (\<lambda>oc. (oc_scheduled_at oc, oc_id oc)) ?xs)" by (rule sorted_sort_key)
  then have "\<forall>x \<in> set ys. (oc_scheduled_at x, oc_id x) \<le> (oc_scheduled_at oc, oc_id oc)"
    unfolding xs by (simp add: sorted_append)
  then have "\<forall>x \<in> set ?xs. oc_scheduled_at x \<le> oc_scheduled_at oc" unfolding xs by (auto simp: less_eq_prod_def)
  moreover have "oc \<in> set ?xs" unfolding xs by simp
  ultimately show ?thesis by simp
qed

lemma previous_watch_None:
  "previous_watch s current = None \<longleftrightarrow> (\<forall>x \<in> set (db_occurrences s). \<not> earlier_watch s current x)"
proof -
  let ?xs = "sort_key (\<lambda>oc. (oc_scheduled_at oc, oc_id oc)) (filter (earlier_watch s current) (db_occurrences s))"
  have "previous_watch s current = None \<longleftrightarrow> set ?xs = {}"
    by (cases "rev ?xs") (auto simp: previous_watch_def)
  then show ?thesis by auto
qed

section \<open>Changes\<close>

lemma collected_change_current:
  assumes "(k, c) \<in> set (zip ks first)"
    and "set first \<subseteq> (if within window (pj_updated_at p) then {project_change sha p} else {}) \<union>
           memory_change w sha ` set (changed_memories w s window)"
    and "project_row w (cw_project_id window) = Some p" and "distinct (map m_id (db_memories s))"
  shows "change_current sha w s window (change_item window (k, c))"
proof -
  have "c \<in> set first" using assms(1) by (rule set_zip_rightD)
  then consider "c = project_change sha p" "within window (pj_updated_at p)"
    | m where "c = memory_change w sha m" "m \<in> set (changed_memories w s window)"
    using assms(2) by (auto split: if_splits)
  then show ?thesis
  proof cases
    case 1
    have "pj_id p = cw_project_id window" using assms(3) by (simp add: project_row_def row_get_key)
    then show ?thesis using 1 assms(3) by (simp add: change_current_def change_item_def project_change_def)
  next
    case (2 m)
    then have "m \<in> set (db_memories s)" "m_project_id m = Some (cw_project_id window)"
      "within window (ww_instant w (m_updated_at m))"
      by (auto simp: changed_memories_def dest!: in_set_takeD)
    moreover have "lock_memory s (m_id m) = Some m"
      using calculation(1) assms(4) by (simp add: lock_memory_def row_get_distinct)
    ultimately show ?thesis using 2(1) by (simp add: change_current_def change_item_def memory_change_def Let_def)
  qed
qed

section \<open>The report of a watch\<close>

definition watch_cites :: "string list \<Rightarrow> watch_finding \<Rightarrow> json \<Rightarrow> bool" where
  "watch_cites numbers f j \<longleftrightarrow>
     (\<exists>ns. j = claim_json (wf_text f) ns \<and> distinct ns \<and> point_at numbers ns (wf_evidence_ids f))"

lemma point_at_number_of: "set rs \<subseteq> set numbers \<Longrightarrow> point_at numbers (map (number_of numbers) rs) rs"
  unfolding point_at_def using number_of_nth by (auto simp: subset_iff)

lemma watch_findings_OK:
  assumes "watch_findings items used fs = Inr (used', js)" and "distinct used" and "\<forall>i \<in> set used. items i \<noteq> None"
  shows "distinct used' \<and> prefix used used' \<and> (\<forall>i \<in> set used'. items i \<noteq> None) \<and>
    list_all2 (watch_cites used') fs js"
  using assms
proof (induction fs arbitrary: used js)
  case (Cons f fs)
  let ?used = "used @ filter (\<lambda>i. i \<notin> set used) (wf_evidence_ids f)"
  have d: "distinct (wf_evidence_ids f)" and known: "\<forall>i \<in> set (wf_evidence_ids f). items i \<noteq> None"
    using Cons.prems(1) by (auto simp: list_ex_iff split: if_splits)
  obtain rest where rest: "watch_findings items ?used fs = Inr (used', rest)"
    and js: "js = claim_json (wf_text f) (map (number_of ?used) (wf_evidence_ids f)) # rest"
    using Cons.prems(1) by (auto simp: Let_def split: if_splits sum.splits prod.splits)
  have IH: "distinct used' \<and> prefix ?used used' \<and> (\<forall>i \<in> set used'. items i \<noteq> None) \<and> list_all2 (watch_cites used') fs rest"
    by (rule Cons.IH [OF rest]) (use d known Cons.prems in auto)
  have points: "point_at ?used (map (number_of ?used) (wf_evidence_ids f)) (wf_evidence_ids f)"
    by (rule point_at_number_of) auto
  then have "watch_cites used' f (claim_json (wf_text f) (map (number_of ?used) (wf_evidence_ids f)))"
    using IH d point_at_distinct [OF points] unfolding watch_cites_def by (blast intro: point_at_prefix)
  then show ?case using IH js by (auto dest: append_prefixD)
qed simp

text \<open>A finding as it is stored, and the citations its numbers point at.\<close>

definition finding_resolved :: "change_evidence list \<Rightarrow> json list \<Rightarrow> watch_finding \<Rightarrow> json \<Rightarrow> bool" where
  "finding_resolved evidence citations f j \<longleftrightarrow> (\<exists>ns. j = claim_json (wf_text f) ns \<and> distinct ns \<and>
     list_all2 (\<lambda>r n. 1 \<le> n \<and> n \<le> length citations \<and>
       (\<exists>item \<in> set evidence. ei_evidence_id item = r \<and> citations ! (n - 1) = citation n item)) (wf_evidence_ids f) ns)"

lemma watch_report_OK:
  assumes "watch_report result evidence = Inr (findings, citations)"
  shows "length citations \<le> 20 \<and> list_all2 (finding_resolved evidence citations) (wr_findings result) findings \<and>
    (\<forall>k < length citations. \<exists>item \<in> set evidence. citations ! k = citation (Suc k) item)"
proof (cases "wr_status result = ''no_meaningful_change''")
  case True
  then show ?thesis using assms by (auto simp: watch_report_def split: if_splits)
next
  case False
  obtain used where used: "watch_findings (by_id evidence) [] (wr_findings result) = Inr (used, findings)"
    and few: "int (length used) \<le> aad_max_citations PROJECT_WATCH_DEFINITION"
    and cs: "citations = map (watch_citation (by_id evidence)) (zip [1..<Suc (length used)] used)"
    using assms False by (auto simp: watch_report_def not_less split: if_splits sum.splits)
  have ok: "\<forall>i \<in> set used. by_id evidence i \<noteq> None" "list_all2 (watch_cites used) (wr_findings result) findings"
    using watch_findings_OK [OF used] by auto
  have len: "length citations = length used" unfolding cs by (simp del: upt_Suc)
  have nth: "\<exists>item \<in> set evidence. ei_evidence_id item = used ! k \<and> citations ! k = citation (Suc k) item"
    if "k < length citations" for k
  proof -
    have "by_id evidence (used ! k) \<noteq> None" using ok(1) that len by simp
    then obtain item where item: "by_id evidence (used ! k) = Some item" by blast
    have "citations ! k = citation (Suc k) item"
      unfolding cs using that len item by (simp add: watch_citation_def del: upt_Suc)
    then show ?thesis using by_id_in [OF item] by blast
  qed
  have "finding_resolved evidence citations f j" if cites: "watch_cites used f j" for f j
  proof -
    obtain ns where ns: "j = claim_json (wf_text f) ns" "distinct ns" "point_at used ns (wf_evidence_ids f)"
      using cites by (auto simp: watch_cites_def)
    have "list_all2 (\<lambda>r n. 1 \<le> n \<and> n \<le> length citations \<and>
       (\<exists>item \<in> set evidence. ei_evidence_id item = r \<and> citations ! (n - 1) = citation n item)) (wf_evidence_ids f) ns"
    proof (rule list_all2_all_nthI)
      fix i assume i: "i < length (wf_evidence_ids f)"
      then have n: "1 \<le> ns ! i" "ns ! i \<le> length citations" "used ! (ns ! i - 1) = wf_evidence_ids f ! i"
        using ns(3) len by (auto simp: point_at_def)
      then show "1 \<le> ns ! i \<and> ns ! i \<le> length citations \<and>
         (\<exists>item \<in> set evidence. ei_evidence_id item = wf_evidence_ids f ! i \<and> citations ! (ns ! i - 1) = citation (ns ! i) item)"
        using nth [of "ns ! i - 1"] by auto
    qed (use ns(3) in \<open>simp add: point_at_def\<close>)
    then show ?thesis using ns by (auto simp: finding_resolved_def)
  qed
  then have "list_all2 (finding_resolved evidence citations) (wr_findings result) findings"
    using ok(2) by (auto elim: list_all2_mono)
  moreover have "length citations \<le> 20" using few len by (simp add: PROJECT_WATCH_DEFINITION_def)
  ultimately show ?thesis using nth by blast
qed

section \<open>Properties\<close>

text \<open>Evidence that has just been collected is current. If a window was derived for a Run, collecting the
  changes in it cannot fail, yields at most 20 items, labelled \<open>e1\<close>, \<open>e2\<close>, ... in order, and as long
  as nothing changes they all pass the check that is made before a result is stored: no watch is
  lost without cause.\<close>

theorem fresh_changes_current:
  assumes "derive_window w s rid = Inr window"
    and "distinct (map oc_id (db_occurrences s))" and "distinct (map m_id (db_memories s))"
  shows "\<exists>items. collect_changes sha w s window = Inr items \<and> length items \<le> 20 \<and>
    changes_current sha w s window items \<and>
    map ei_evidence_id items = map (\<lambda>k. ''e'' @ str_int (int k)) [1..<Suc (length items)]"
proof -
  obtain current p where current: "current \<in> set (db_occurrences s)" "oc_agent_run_id current = Some rid"
      "cw_occurrence_id window = oc_id current"
    and p: "project_row w (cw_project_id window) = Some p"
    using assms(1) by (rule derive_window_OK)
  have window: "window_current w s window"
    using current assms(1,2) by (simp add: window_current_def lock_occurrence_def row_get_distinct)
  let ?candidates = "(if within window (pj_updated_at p) then [project_change sha p] else []) @
      map (memory_change w sha) (changed_memories w s window)"
  let ?first = "take MAX_CHANGES (sort_key (\<lambda>c. (fst c, fst (snd c))) ?candidates)"
  let ?items = "map (change_item window) (zip [1..<Suc (length ?first)] ?first)"
  have items: "collect_changes sha w s window = Inr ?items"
    using p by (simp add: collect_changes_def Let_def)
  have "set ?first \<subseteq> set (sort_key (\<lambda>c. (fst c, fst (snd c))) ?candidates)" by (rule set_take_subset)
  then have "set ?first \<subseteq> set ?candidates" by (simp only: set_sort)
  then have sub: "set ?first \<subseteq> (if within window (pj_updated_at p) then {project_change sha p} else {}) \<union>
      memory_change w sha ` set (changed_memories w s window)"
    by (auto split: if_splits)
  have "change_current sha w s window (change_item window (k, c))" if "(k, c) \<in> set (zip [1..<Suc (length ?first)] ?first)" for k c
    using that sub p assms(3) by (rule collected_change_current)
  then have "list_all (change_current sha w s window) ?items" unfolding list_all_iff by fastforce
  moreover have "length ?items \<le> 20" by (simp add: MAX_CHANGES_def)
  moreover have "map ei_evidence_id ?items = map (\<lambda>k. ''e'' @ str_int (int k)) (map fst (zip [1..<Suc (length ?first)] ?first))"
    by (simp add: change_item_def split_beta comp_def del: upt_Suc map_fst_zip)
  ultimately show ?thesis using items window
    by (intro exI [of _ ?items]) (simp add: changes_current_def del: upt_Suc)
qed

text \<open>The windows of an Automation's watches tile the time line. The window of a Run ends at its own slot
  and is not empty; it begins at the slot of the latest earlier watch of the same Automation and
  Project that completed with a report, so that no instant lies between two windows or in both;
  without such a watch it reaches back at most seven days.\<close>

theorem watch_windows_tile:
  assumes "derive_window w s rid = Inr window"
  shows "\<exists>current \<in> set (db_occurrences s). oc_agent_run_id current = Some rid \<and> watch_occurrence current \<and>
    cw_upper window = oc_scheduled_at current \<and> cw_lower window < cw_upper window \<and>
    (\<forall>x \<in> set (db_occurrences s). earlier_watch s current x \<longrightarrow> oc_scheduled_at x \<le> cw_lower window) \<and>
    ((\<exists>x \<in> set (db_occurrences s). earlier_watch s current x \<and> oc_scheduled_at x = cw_lower window) \<or>
     (\<forall>x \<in> set (db_occurrences s). \<not> earlier_watch s current x) \<and> cw_upper window - days 7 \<le> cw_lower window)"
proof -
  obtain current a where current: "current \<in> set (db_occurrences s)" "oc_agent_run_id current = Some rid"
      "watch_occurrence current" "cw_upper window = oc_scheduled_at current" "cw_lower window < cw_upper window"
    and lower: "cw_lower window = (case previous_watch s current of Some oc \<Rightarrow> oc_scheduled_at oc | None \<Rightarrow> initial_lower a current)"
    using assms by (rule derive_window_OK)
  have "oc_scheduled_at current - days 7 \<le> initial_lower a current"
    by (simp add: initial_lower_def INITIAL_WINDOW_def Let_def)
  then show ?thesis
    using current lower previous_watch_latest [of s current] previous_watch_None [of s current]
    by (intro bexI [of _ current]) (cases "previous_watch s current"; auto)+
qed

text \<open>A stored Project Watch result is current and cites only changes inside its window. Storing succeeds
  only for a running Project Watch Run of a Project whose window is still the one that was derived;
  every piece of evidence lies in the window, belongs to the Project and still has the version that
  was read; and every citation number of every finding resolves to a piece of evidence.\<close>

theorem watch_result_is_current:
  assumes "watch_persist sha w rid window evidence result t s = (Inr e, s')"
  shows "\<exists>run findings citations. get_agent_run s rid = Some run \<and> r_state run = RUNNING \<and>
    (r_agent_kind run, r_agent_version run) = (''project_watch'', ''1'') \<and> r_project_id run \<noteq> None \<and>
    window_current w s window \<and> length evidence \<le> 20 \<and>
    list_all (\<lambda>item. ch_project_id item = cw_project_id window \<and> cw_lower window < ch_changed_at item \<and>
      ch_changed_at item \<le> cw_upper window \<and> change_current sha w s window item) evidence \<and>
    ev_metadata e = watch_value (wr_status result) findings citations window \<and>
    list_all2 (finding_resolved evidence citations) (wr_findings result) findings \<and>
    length citations \<le> 20 \<and> (\<forall>k < length citations. \<exists>item \<in> set evidence. citations ! k = citation (Suc k) item) \<and>
    db_runs s' = db_runs s \<and> db_events s' = db_events s @ [e]"
proof -
  obtain run where run: "get_agent_run s rid = Some run"
    using assms by (auto simp: watch_persist_def split: option.splits)
  have live: "(r_agent_kind run, r_agent_version run) = (''project_watch'', ''1'')" "r_project_id run \<noteq> None"
      "r_state run = RUNNING" "length evidence \<le> 20" "changes_current sha w s window evidence"
    using assms run by (auto simp: watch_persist_def PROJECT_WATCH_DEFINITION_def split: if_splits)
  obtain findings citations where report: "watch_report result evidence = Inr (findings, citations)"
    and ev: "append_agent_event (result_event run ''project_watch.result'' ''project_watch_result''
        ''bounded Project Watch result produced'' (watch_value (wr_status result) findings citations window) t) s = (Inr e, s')"
    using assms run live by (auto simp: watch_persist_def split: if_splits sum.splits)
  have window_of: "ch_project_id item = cw_project_id window \<and> cw_lower window < ch_changed_at item \<and>
      ch_changed_at item \<le> cw_upper window" if "change_current sha w s window item" for item
    using that unfolding change_current_def within_def by blast
  have e: "ev_metadata e = watch_value (wr_status result) findings citations window" "db_runs s' = db_runs s"
      "db_events s' = db_events s @ [e]"
    using ev by (auto simp: append_agent_event_eq result_event_def event_draft_def logged_event_def split: if_splits)
  have "list_all (\<lambda>item. ch_project_id item = cw_project_id window \<and> cw_lower window < ch_changed_at item \<and>
      ch_changed_at item \<le> cw_upper window \<and> change_current sha w s window item) evidence"
    using live(5) window_of unfolding changes_current_def by (auto elim!: list.pred_mono_strong)
  then show ?thesis
    using run live e watch_report_OK [OF report]
    by (intro exI [of _ run] exI [of _ findings] exI [of _ citations]) (simp add: changes_current_def)
qed

text \<open>C16: The deadline of a Run does not stop a Daily Brief. However long the provider took, a valid brief over
  current evidence is stored, and the Run then completes: at any instant, also after its deadline,
  where a Research result is discarded and the Run expires.\<close>

theorem late_brief_completes:
  assumes "get_agent_run s rid = Some run" and "is_daily_brief (r_agent_kind run) (r_agent_version run)"
    and "r_state run = RUNNING" and "r_run_deadline run \<le> t"
    and "still_current sha world s run knowledge" and "list_all (event_current sha s (r_project_id run)) events"
    and "validate_result result (brief_evidence knowledge events) = Inr value"
    and "run_steps s rid \<noteq> []" and "\<forall>st \<in> set (run_steps s rid). st_status st = STEP_SUCCEEDED"
    and "length (run_events s rid) < 1000" and "xc_run_id claim = rid"
  shows "\<exists>e s1 s2. brief_persist sha world rid knowledge events result t s = (Inr e, s1) \<and>
    ev_metadata e = value \<and>
    complete_run claim True False t' s1 = (Inr (Some (move_run COMPLETED t' None run)), s2)"
proof -
  let ?d = "result_event run ''daily_brief.result'' ''daily_brief_result'' ''bounded Daily Brief result produced'' value t"
  let ?e = "logged_event ?d s"
  let ?s1 = "s\<lparr>db_next_id := Suc (db_next_id s), db_events := db_events s @ [?e]\<rparr>"
  have id: "r_id run = rid" using assms(1) by (rule runs.get_key)
  have d: "ev_run_id ?d = rid" "ev_idempotency_hash ?d = None" "ev_type ?d = ''daily_brief.result''" "ev_metadata ?d = value"
    by (simp_all add: result_event_def id)
  have persist: "brief_persist sha world rid knowledge events result t s = (Inr ?e, ?s1)"
    using assms d by (simp add: brief_persist_def append_agent_event_eq)
  have row: "get_agent_run ?s1 rid = Some run" using assms(1) by (simp add: get_agent_run_def)
  have steps: "run_steps ?s1 rid = run_steps s rid" by (simp add: run_steps_def)
  have "run_events ?s1 rid = run_events s rid @ [?e]" using d by (simp add: run_events_def)
  then obtain evs where evs: "list_agent_events ?s1 rid 1000 = Inr evs" "set evs = set (run_events s rid) \<union> {?e}"
    using row assms(10) by (simp add: list_agent_events_def)
  have "has_event evs ''daily_brief.result''" using evs(2) d by (auto simp: has_event_def list_ex_iff)
  then have "missing_result run True False evs = None"
    using assms(2) by (auto simp: missing_result_def is_daily_brief_def is_research_def is_curator_def)
  moreover have "transition_run rid RUNNING (r_revision run) COMPLETED t' None ?s1 =
      (Inr (move_run COMPLETED t' None run), moved_db run COMPLETED t' None ?s1)"
    using row assms(3) by (intro transition_run_succeeds) (simp_all add: legal_transition_def)
  moreover have "\<not> list_ex (\<lambda>st. st_status st \<noteq> STEP_SUCCEEDED) (run_steps s rid)"
    using assms(9) by (auto simp: list_ex_iff)
  ultimately have "complete_run claim True False t' ?s1 =
      (Inr (Some (move_run COMPLETED t' None run)), moved_db run COMPLETED t' None ?s1)"
    using assms(3,8,11) row steps evs(1) id by (simp add: complete_run_def andThen_def)
  then show ?thesis using persist d by auto
qed

section \<open>Examples\<close>

definition example_watch_occurrence :: occurrence where
  "example_watch_occurrence = example_linked\<lparr>oc_agent_kind := ''project_watch'', oc_project_id := Some 1\<rparr>"

definition example_watch_run :: agent_run where
  "example_watch_run =
     example_linked_run\<lparr>r_state := RUNNING, r_agent_kind := ''project_watch'', r_project_id := Some 1\<rparr>"

definition example_watch_db :: automation_db where
  "example_watch_db = example_linked_db\<lparr>db_occurrences := [example_watch_occurrence], db_runs := [example_watch_run]\<rparr>"

definition example_watched :: watch_world where
  "example_watched = \<lparr> ww_projects = [\<lparr> pj_id = 1, pj_name = ''p'', pj_description = None,
     pj_updated_at = oc_scheduled_at example_watch_occurrence \<rparr>], ww_instant = (\<lambda>_. 0) \<rparr>"

definition example_window :: change_window where
  "example_window = \<lparr> cw_occurrence_id = 7, cw_project_id = 1,
     cw_lower = initial_lower example_unattended example_watch_occurrence,
     cw_upper = oc_scheduled_at example_watch_occurrence \<rparr>"

lemma initial_lower_before: "initial_lower a current < oc_scheduled_at current"
  by (auto simp: initial_lower_def INITIAL_WINDOW_def days_def Let_def)

lemma example_watch_fields:
  "oc_id example_watch_occurrence = 7" "oc_agent_run_id example_watch_occurrence = Some 11"
  "oc_project_id example_watch_occurrence = Some 1" "oc_automation_id example_watch_occurrence = 5"
  "watch_occurrence example_watch_occurrence"
  "db_occurrences example_watch_db = [example_watch_occurrence]" "db_memories example_watch_db = []"
  "db_events example_watch_db = []" "get_automation example_watch_db 5 = Some example_unattended"
  "get_agent_run example_watch_db 11 = Some example_watch_run"
  using example_linked_fields
  by (simp_all add: example_watch_occurrence_def watch_occurrence_def example_watch_db_def get_automation_def
      example_watch_run_def get_agent_run_def row_get_Cons example_linked_run_def)
    (simp_all add: example_linked_def linked_def link_row_def example_linked_db_def automation_example_db_def)

lemma example_derived: "derive_window example_watched example_watch_db 11 = Inr example_window"
proof -
  have "previous_watch example_watch_db example_watch_occurrence = None"
    by (simp add: previous_watch_None example_watch_fields earlier_watch_def)
  moreover have "project_row example_watched 1 = Some (hd (ww_projects example_watched))"
    by (simp add: project_row_def example_watched_def row_get_Cons)
  ultimately show ?thesis
    using initial_lower_before [of example_unattended example_watch_occurrence]
    by (simp add: derive_window_def example_watch_fields Let_def example_window_def not_le)
qed

theorem fresh_changes_current_witness:
  "\<exists>items. collect_changes id example_watched example_watch_db example_window = Inr items \<and>
     changes_current id example_watched example_watch_db example_window items"
  using fresh_changes_current [OF example_derived, of id] by (auto simp: example_watch_fields)

theorem watch_windows_tile_witness:
  "cw_lower example_window < cw_upper example_window \<and> cw_upper example_window - days 7 \<le> cw_lower example_window"
  using watch_windows_tile [OF example_derived] by (auto simp: example_watch_fields earlier_watch_def)

definition example_no_change :: watch_result where
  "example_no_change = \<lparr> wr_status = ''no_meaningful_change'', wr_findings = [] \<rparr>"

theorem watch_result_is_current_witness:
  "\<exists>e s'. watch_persist id example_watched 11 example_window [] example_no_change 9 example_watch_db = (Inr e, s') \<and>
     db_events s' = [e] \<and> window_current example_watched example_watch_db example_window"
proof -
  let ?m = "watch_persist id example_watched 11 example_window [] example_no_change 9 example_watch_db"
  have current: "changes_current id example_watched example_watch_db example_window []"
    using example_derived
    by (simp add: changes_current_def window_current_def lock_occurrence_def example_watch_fields row_get_Cons
        example_window_def)
  have run: "r_agent_kind example_watch_run = ''project_watch''" "r_agent_version example_watch_run = ''1''"
    "r_project_id example_watch_run = Some 1" "r_state example_watch_run = RUNNING" "r_id example_watch_run = 11"
    using example_linked_fields
    by (simp_all add: example_watch_run_def example_linked_run_def new_run_def run_request_def)
  have "\<exists>e. fst ?m = Inr e"
    using current run
    by (simp add: watch_persist_def example_watch_fields PROJECT_WATCH_DEFINITION_def watch_report_def
        example_no_change_def append_agent_event_eq result_event_def)
  then obtain e where e: "?m = (Inr e, snd ?m)" by (metis prod.collapse)
  show ?thesis using watch_result_is_current [OF e] e by (auto simp: example_watch_fields)
qed

definition example_brief_run :: agent_run where
  "example_brief_run = example_linked_run\<lparr>r_state := RUNNING, r_run_deadline := 5\<rparr>"

definition example_brief_db :: automation_db where
  "example_brief_db = example_linked_db\<lparr>db_runs := [example_brief_run],
     db_steps := [(frozen_step 11 0 Run_Planning.example_validated)\<lparr>st_id := 3, st_status := STEP_SUCCEEDED\<rparr>]\<rparr>"

theorem late_brief_completes_witness:
  "\<exists>e s1 s2. brief_persist id example_world 11 [] [] INSUFFICIENT_BRIEF 6 example_brief_db = (Inr e, s1) \<and>
     complete_run (execution_claim_of example_brief_run) True False 7 s1 =
       (Inr (Some (move_run COMPLETED 7 None example_brief_run)), s2)"
proof -
  have run: "get_agent_run example_brief_db 11 = Some example_brief_run" "r_state example_brief_run = RUNNING"
    "is_daily_brief (r_agent_kind example_brief_run) (r_agent_version example_brief_run)"
    "r_run_deadline example_brief_run \<le> 6" "xc_run_id (execution_claim_of example_brief_run) = 11"
    using example_linked_fields
    by (simp_all add: example_brief_run_def example_linked_run_def example_brief_db_def get_agent_run_def row_get_Cons
        new_run_def run_request_def is_daily_brief_def execution_claim_of_def)
  have steps: "run_steps example_brief_db 11 \<noteq> []" "\<forall>st \<in> set (run_steps example_brief_db 11). st_status st = STEP_SUCCEEDED"
    by (simp_all add: run_steps_def example_brief_db_def frozen_step_def)
  have log: "length (run_events example_brief_db 11) < 1000"
    by (simp add: run_events_def example_brief_db_def example_linked_db_def automation_example_db_def)
  have v: "validate_result INSUFFICIENT_BRIEF (brief_evidence [] []) =
      Inr (result_value ''insufficient_evidence'' [] [] (rr_insufficiency INSUFFICIENT_BRIEF))"
    by code_simp
  show ?thesis
    using late_brief_completes [OF run(1,3,2,4) _ _ v steps log run(5), where sha = id and world = example_world and t' = 7]
    by (simp add: still_current_def) blast
qed

end
