(* ===== verification/Connector_Model.thy ===== *)
theory Connector_Model
  imports Schedule_Calc Run_Results
begin

text \<open>
  The connector tables and their primitives: accounts, sync runs and quarantined items
  (\<open>app/models/connector.py\<close>, \<open>app/repositories/connectors.py\<close>, \<open>app/connectors/validation.py\<close>,
  \<open>catalog.py\<close>), refresh schedules, occurrences and notifications (\<open>app/models/connector_schedule.py\<close>,
  \<open>app/repositories/connector_schedules.py\<close>). SHA-256 is the parameter \<open>sha\<close> on byte strings.
\<close>

section \<open>Closed values\<close>

definition is_lower :: "char \<Rightarrow> bool" where
  "is_lower c \<longleftrightarrow> (let n = of_char c :: nat in 97 \<le> n \<and> n \<le> 122)"

definition is_alnum :: "char \<Rightarrow> bool" where
  "is_alnum c \<longleftrightarrow> (let n = of_char c :: nat in is_digit c \<or> is_lower c \<or> 65 \<le> n \<and> n \<le> 90)"

definition is_hex :: "char \<Rightarrow> bool" where
  "is_hex c \<longleftrightarrow> c \<in> set ''0123456789abcdef''"

text \<open>A first character of one class and at most \<open>n\<close> of another, as the patterns of the module have it.\<close>

definition shaped :: "(char \<Rightarrow> bool) \<Rightarrow> (char \<Rightarrow> bool) \<Rightarrow> nat \<Rightarrow> string \<Rightarrow> bool" where
  "shaped first rest n t \<longleftrightarrow> (case t of [] \<Rightarrow> False | c # cs \<Rightarrow> first c \<and> list_all rest cs \<and> length cs \<le> n)"

definition SHA256 :: "string \<Rightarrow> bool" where
  "SHA256 t \<longleftrightarrow> length t = 64 \<and> list_all is_hex t"

definition IDENTITY :: "string \<Rightarrow> bool" where
  "IDENTITY t \<longleftrightarrow> shaped is_alnum (\<lambda>c. is_alnum c \<or> c \<in> set '':._-'') 254 t"

definition RESOURCE :: "string \<Rightarrow> bool" where
  "RESOURCE t \<longleftrightarrow>
    (let part = shaped is_alnum (\<lambda>c. is_alnum c \<or> c \<in> set ''._-'') 99;
         owner = takeWhile (\<lambda>c. c \<noteq> CHR ''/'') t; rest = dropWhile (\<lambda>c. c \<noteq> CHR ''/'') t
     in part owner \<and> rest \<noteq> [] \<and> part (tl rest))"

definition SAFE_CODE :: "string \<Rightarrow> bool" where
  "SAFE_CODE t \<longleftrightarrow> shaped is_lower (\<lambda>c. is_lower c \<or> is_digit c \<or> c = CHR ''_'') 99 t"

definition SECRET_MARKERS :: "string list" where
  "SECRET_MARKERS = [''ghp_'', ''github_pat_'', ''bearer '', ''authorization'', ''password'', ''client_secret'',
     ''refresh_token'', ''access_token'', ''cookie'']"

definition secret_free :: "string \<Rightarrow> bool" where
  "secret_free t \<longleftrightarrow> list_all (\<lambda>marker. \<not> contains marker (map lower t)) SECRET_MARKERS"

definition safe_identity :: "string \<Rightarrow> bool" where
  "safe_identity t \<longleftrightarrow> IDENTITY t \<and> secret_free t"

definition safe_code :: "string \<Rightarrow> bool" where
  "safe_code t \<longleftrightarrow> SAFE_CODE t \<and> secret_free t"

text \<open>\<open>sbcred:v1:\<close> and a version 4 UUID.\<close>

definition credential_reference :: "string \<Rightarrow> bool" where
  "credential_reference t \<longleftrightarrow>
    (let u = drop 10 t in take 10 t = ''sbcred:v1:'' \<and> length u = 36 \<and>
       list_all (\<lambda>k. if k \<in> {8, 13, 18, 23} then u ! k = CHR ''-''
                     else if k = 14 then u ! k = CHR ''4''
                     else if k = 19 then u ! k \<in> set ''89ab''
                     else is_hex (u ! k)) [0..<36])"

section \<open>The catalog\<close>

record connector_resource =
  cr_kind :: string
  cr_enabled :: bool
  cr_content :: bool

definition GITHUB_RESOURCES :: "connector_resource list" where
  "GITHUB_RESOURCES =
    [\<lparr> cr_kind = ''repository'', cr_enabled = True, cr_content = False \<rparr>,
     \<lparr> cr_kind = ''issue'', cr_enabled = True, cr_content = True \<rparr>,
     \<lparr> cr_kind = ''pull_request'', cr_enabled = True, cr_content = True \<rparr>,
     \<lparr> cr_kind = ''comment'', cr_enabled = False, cr_content = True \<rparr>]"

definition get_connector :: "string \<Rightarrow> connector_resource list option" where
  "get_connector provider = (if provider = ''github'' then Some GITHUB_RESOURCES else None)"

definition supports_resource :: "string \<Rightarrow> string \<Rightarrow> bool" where
  "supports_resource provider kind \<longleftrightarrow>
    (case get_connector provider of
       None \<Rightarrow> False | Some resources \<Rightarrow> list_ex (\<lambda>r. cr_kind r = kind \<and> cr_enabled r) resources)"

section \<open>Content hashes\<close>

text \<open>UTF-8 of text whose code points are below 256.\<close>

definition utf8_char :: "char \<Rightarrow> string" where
  "utf8_char c = (let n = of_char c :: nat in
     if n < 128 then [c] else [char_of (192 + n div 64), char_of (128 + n mod 64)])"

definition utf8 :: "string \<Rightarrow> string" where
  "utf8 t = concat (map utf8_char t)"

text \<open>\<open>int.to_bytes(8, "big")\<close> of a length.\<close>

fun big_endian :: "nat \<Rightarrow> nat \<Rightarrow> string" where
  "big_endian 0 n = []"
| "big_endian (Suc k) n = big_endian k (n div 256) @ [char_of (n mod 256)]"

definition snapshot_payload :: "string \<Rightarrow> string \<Rightarrow> string" where
  "snapshot_payload title body = big_endian 8 (length (utf8 title)) @ utf8 title @ utf8 body"

definition snapshot_content_hash :: "(string \<Rightarrow> string) \<Rightarrow> string \<Rightarrow> string \<Rightarrow> string" where
  "snapshot_content_hash sha title body = sha (snapshot_payload title body)"

definition APPLICATION_READ_POLICY :: "string list" where
  "APPLICATION_READ_POLICY = [''metadata_read'', ''issues_read'', ''pull_requests_read'']"

definition join_lines :: "string list \<Rightarrow> string" where
  "join_lines ts = (case ts of [] \<Rightarrow> [] | t # rest \<Rightarrow> t @ concat (map (\<lambda>u. char_of (10 :: nat) # u) rest))"

definition granted_scope_fingerprint :: "(string \<Rightarrow> string) \<Rightarrow> string list \<Rightarrow> exn + string" where
  "granted_scope_fingerprint sha names =
    (if names = [] \<or> length names > 32 then Inl ValueError
     else if \<not> distinct names \<or> \<not> set names \<subseteq> set APPLICATION_READ_POLICY then Inl ValueError
     else Inr (sha (join_lines (sort names))))"

section \<open>Validation\<close>

definition valid_account_values :: "string \<Rightarrow> string \<Rightarrow> string \<Rightarrow> string \<Rightarrow> string list \<Rightarrow> string \<Rightarrow> bool" where
  "valid_account_values provider identity fingerprint credential allowlist scopes \<longleftrightarrow>
     get_connector provider \<noteq> None \<and> safe_identity identity \<and> SHA256 fingerprint \<and>
     credential_reference credential \<and> SHA256 scopes \<and>
     1 \<le> length allowlist \<and> length allowlist \<le> 32 \<and> distinct allowlist \<and>
     list_all (\<lambda>v. RESOURCE v \<and> secret_free v) allowlist"

datatype item_defect = ItemOversized | ItemInvalid

text \<open>The first check that fails; the limits on title and body raise \<open>\<dots> exceeds limit\<close>.\<close>

definition item_values_defect ::
  "(string \<Rightarrow> string) \<Rightarrow> string \<Rightarrow> string \<Rightarrow> string \<Rightarrow> string \<Rightarrow> string \<Rightarrow> string \<Rightarrow> string \<Rightarrow> string
     \<Rightarrow> item_defect option" where
  "item_values_defect sha provider kind resource_id item_id version title body content_hash =
    (if \<not> supports_resource provider kind then Some ItemInvalid
     else if \<not> safe_identity resource_id \<or> \<not> safe_identity item_id then Some ItemInvalid
     else if version = [] \<or> length version > 255 \<or> \<not> secret_free version then Some ItemInvalid
     else if length title > 500 \<or> length (utf8 title) > 2000 then Some ItemOversized
     else if length body > 20000 \<or> length (utf8 body) > 80000 then Some ItemOversized
     else if content_hash \<noteq> snapshot_content_hash sha title body then Some ItemInvalid
     else None)"

section \<open>Rows\<close>

datatype account_lifecycle = ACCOUNT_DISABLED | ACCOUNT_ENABLED | ACCOUNT_REVOKED

record connector_account =
  ca_id :: uuid
  ca_provider :: string
  ca_external_account_id :: string
  ca_external_account_fingerprint :: string
  ca_credential_reference :: string
  ca_project_id :: "uuid option"
  ca_resource_allowlist :: "string list"
  ca_granted_scope_fingerprint :: string
  ca_lifecycle :: account_lifecycle
  ca_validation_status :: string
  ca_revision :: int
  ca_last_validated_at :: "instant option"
  ca_created_at :: instant

datatype sync_status =
  SYNC_CLAIMED | SYNC_RUNNING | SYNC_SUCCEEDED | SYNC_INCOMPLETE | SYNC_FAILED | SYNC_CANCELLED

definition SYNC_ACTIVE :: "sync_status list" where
  "SYNC_ACTIVE = [SYNC_CLAIMED, SYNC_RUNNING]"

record sync_run =
  sr_id :: uuid
  sr_account_id :: uuid
  sr_provider :: string
  sr_external_account_id :: string
  sr_account_revision :: int
  sr_project_id :: "uuid option"
  sr_trigger_kind :: string
  sr_trigger_identity :: string
  sr_status :: sync_status
  sr_items_seen :: int
  sr_items_created :: int
  sr_items_unchanged :: int
  sr_safe_error_code :: "string option"
  sr_reconciliation_complete :: bool
  sr_created_at :: instant
  sr_started_at :: "instant option"
  sr_completed_at :: "instant option"

datatype item_state = ITEM_CURRENT | ITEM_STALE | ITEM_DELETED

record external_item =
  xi_id :: uuid
  xi_account_id :: uuid
  xi_provider :: string
  xi_external_account_id :: string
  xi_external_resource_id :: string
  xi_external_item_id :: string
  xi_resource_type :: string
  xi_provider_source_version :: string
  xi_title :: string
  xi_body :: string
  xi_content_hash :: string
  xi_application_revision :: int
  xi_state :: item_state
  xi_project_id :: "uuid option"
  xi_created_sync_run_id :: uuid
  xi_last_seen_sync_run_id :: uuid
  xi_first_seen_at :: instant
  xi_last_seen_at :: instant

datatype schedule_lifecycle = SCHEDULE_DRAFT | SCHEDULE_ENABLED | SCHEDULE_PAUSED | SCHEDULE_CANCELLED

record refresh_schedule =
  cs_id :: uuid
  cs_account_id :: uuid
  cs_lifecycle :: schedule_lifecycle
  cs_revision :: int
  cs_schedule_revision :: int
  cs_schedule_kind :: string
  cs_timezone_name :: string
  cs_local_time :: int
  cs_one_time_local_date :: "ordinal option"
  cs_weekdays :: "int list"
  cs_missed_run_policy :: string
  cs_next_occurrence_at :: "instant option"
  cs_cancelled_at :: "instant option"

datatype refresh_state =
  RO_DUE | RO_CLAIMED | RO_SYNC_CREATED | RO_SUCCEEDED | RO_INCOMPLETE | RO_FAILED | RO_MISSED | RO_CANCELLED

record refresh_occurrence =
  ro_id :: uuid
  ro_schedule_id :: uuid
  ro_account_id :: uuid
  ro_account_revision :: int
  ro_schedule_row_revision :: int
  ro_schedule_revision :: int
  ro_scheduled_at :: instant
  ro_scheduled_local_date :: ordinal
  ro_scheduled_local_time :: int
  ro_scheduled_utc_offset_minutes :: int
  ro_timezone_name :: string
  ro_occurrence_key :: string
  ro_state :: refresh_state
  ro_revision :: int
  ro_attempt_count :: int
  ro_safe_disposition_code :: "string option"
  ro_safe_error_code :: "string option"
  ro_connector_sync_run_id :: "uuid option"
  ro_lease_owner_token :: "uuid option"
  ro_lease_generation :: int
  ro_lease_expires_at :: "instant option"
  ro_last_renewed_at :: "instant option"
  ro_claimed_at :: "instant option"
  ro_completed_at :: "instant option"

record refresh_notification =
  rn_id :: uuid
  rn_schedule_id :: uuid
  rn_occurrence_id :: uuid
  rn_event_kind :: string
  rn_severity :: string
  rn_status_code :: string
  rn_deduplication_key :: string

record connector_db =
  cd_next_id :: uuid
  cd_projects :: "uuid list"
  cd_accounts :: "connector_account list"
  cd_sync_runs :: "sync_run list"
  cd_items :: "external_item list"
  cd_schedules :: "refresh_schedule list"
  cd_occurrences :: "refresh_occurrence list"
  cd_notifications :: "refresh_notification list"

section \<open>Column constraints\<close>

definition sync_ended :: "sync_status \<Rightarrow> bool" where
  "sync_ended st \<longleftrightarrow> st \<in> {SYNC_SUCCEEDED, SYNC_INCOMPLETE, SYNC_FAILED, SYNC_CANCELLED}"

definition account_checks :: "connector_account \<Rightarrow> bool" where
  "account_checks a \<longleftrightarrow>
     ca_provider a = ''github'' \<and> safe_identity (ca_external_account_id a) \<and>
     SHA256 (ca_external_account_fingerprint a) \<and> credential_reference (ca_credential_reference a) \<and>
     SHA256 (ca_granted_scope_fingerprint a) \<and>
     1 \<le> length (ca_resource_allowlist a) \<and> length (ca_resource_allowlist a) \<le> 32 \<and>
     ca_validation_status a \<in> {''unvalidated'', ''valid'', ''invalid'', ''expired'', ''revoked''} \<and>
     0 \<le> ca_revision a \<and>
     (case ca_last_validated_at a of None \<Rightarrow> True | Some t \<Rightarrow> ca_created_at a \<le> t)"

definition sync_run_checks :: "sync_run \<Rightarrow> bool" where
  "sync_run_checks r \<longleftrightarrow>
     sr_provider r = ''github'' \<and> safe_identity (sr_external_account_id r) \<and> 0 \<le> sr_account_revision r \<and>
     sr_trigger_kind r \<in> {''manual'', ''scheduled''} \<and> safe_code (sr_trigger_identity r) \<and>
     0 \<le> sr_items_seen r \<and> sr_items_seen r \<le> 100000 \<and>
     0 \<le> sr_items_created r \<and> sr_items_created r \<le> 100000 \<and>
     0 \<le> sr_items_unchanged r \<and> sr_items_unchanged r \<le> 100000 \<and>
     (case sr_safe_error_code r of None \<Rightarrow> True | Some code \<Rightarrow> safe_code code) \<and>
     (sync_ended (sr_status r) \<longleftrightarrow> sr_completed_at r \<noteq> None) \<and>
     (sr_reconciliation_complete r \<longrightarrow> sr_status r = SYNC_SUCCEEDED) \<and>
     (case sr_completed_at r of None \<Rightarrow> True | Some t \<Rightarrow> sr_created_at r \<le> t)"

definition refresh_ended :: "refresh_state \<Rightarrow> bool" where
  "refresh_ended st \<longleftrightarrow> st \<in> {RO_SUCCEEDED, RO_INCOMPLETE, RO_FAILED, RO_MISSED, RO_CANCELLED}"

definition refresh_occurrence_checks :: "refresh_occurrence \<Rightarrow> bool" where
  "refresh_occurrence_checks oc \<longleftrightarrow>
     0 \<le> ro_account_revision oc \<and> 0 \<le> ro_schedule_revision oc \<and> 0 \<le> ro_schedule_row_revision oc \<and>
     0 \<le> ro_revision oc \<and> 0 \<le> ro_attempt_count oc \<and> 0 \<le> ro_lease_generation oc \<and>
     -840 \<le> ro_scheduled_utc_offset_minutes oc \<and> ro_scheduled_utc_offset_minutes oc \<le> 840 \<and>
     ((ro_lease_owner_token oc = None) = (ro_lease_expires_at oc = None)) \<and>
     (ro_last_renewed_at oc \<noteq> None \<longrightarrow> ro_lease_owner_token oc \<noteq> None) \<and>
     (refresh_ended (ro_state oc) \<longleftrightarrow> ro_completed_at oc \<noteq> None)"

definition schedule_checks :: "refresh_schedule \<Rightarrow> bool" where
  "schedule_checks r \<longleftrightarrow>
     0 \<le> cs_revision r \<and> 0 \<le> cs_schedule_revision r \<and>
     cs_schedule_kind r \<in> {''one_time'', ''daily'', ''weekly''} \<and>
     cs_missed_run_policy r \<in> {''skip'', ''run_once''} \<and>
     1 \<le> length (utf8 (cs_timezone_name r)) \<and> length (utf8 (cs_timezone_name r)) \<le> 255 \<and>
     (cs_schedule_kind r = ''one_time'' \<longleftrightarrow> cs_one_time_local_date r \<noteq> None) \<and>
     (cs_schedule_kind r = ''weekly'' \<longleftrightarrow> cs_weekdays r \<noteq> []) \<and>
     distinct (cs_weekdays r) \<and> set (cs_weekdays r) \<subseteq> {1..7} \<and>
     (cs_lifecycle r = SCHEDULE_CANCELLED \<longleftrightarrow> cs_cancelled_at r \<noteq> None)"

section \<open>Reading and writing rows\<close>

definition get_account :: "connector_db \<Rightarrow> uuid \<Rightarrow> connector_account option" where
  "get_account s i = row_get ca_id (cd_accounts s) i"

definition upd_account :: "uuid \<Rightarrow> (connector_account \<Rightarrow> connector_account) \<Rightarrow> connector_db \<Rightarrow> connector_db" where
  "upd_account i f s = s\<lparr>cd_accounts := row_upd ca_id i f (cd_accounts s)\<rparr>"

definition get_sync_run :: "connector_db \<Rightarrow> uuid \<Rightarrow> sync_run option" where
  "get_sync_run s i = row_get sr_id (cd_sync_runs s) i"

definition upd_sync_run :: "uuid \<Rightarrow> (sync_run \<Rightarrow> sync_run) \<Rightarrow> connector_db \<Rightarrow> connector_db" where
  "upd_sync_run i f s = s\<lparr>cd_sync_runs := row_upd sr_id i f (cd_sync_runs s)\<rparr>"

definition upd_item :: "uuid \<Rightarrow> (external_item \<Rightarrow> external_item) \<Rightarrow> connector_db \<Rightarrow> connector_db" where
  "upd_item i f s = s\<lparr>cd_items := row_upd xi_id i f (cd_items s)\<rparr>"

definition lock_schedule :: "connector_db \<Rightarrow> uuid \<Rightarrow> refresh_schedule option" where
  "lock_schedule s i = row_get cs_id (cd_schedules s) i"

definition upd_schedule :: "uuid \<Rightarrow> (refresh_schedule \<Rightarrow> refresh_schedule) \<Rightarrow> connector_db \<Rightarrow> connector_db" where
  "upd_schedule i f s = s\<lparr>cd_schedules := row_upd cs_id i f (cd_schedules s)\<rparr>"

definition lock_refresh :: "connector_db \<Rightarrow> uuid \<Rightarrow> refresh_occurrence option" where
  "lock_refresh s i = row_get ro_id (cd_occurrences s) i"

definition upd_refresh :: "uuid \<Rightarrow> (refresh_occurrence \<Rightarrow> refresh_occurrence) \<Rightarrow> connector_db \<Rightarrow> connector_db" where
  "upd_refresh i f s = s\<lparr>cd_occurrences := row_upd ro_id i f (cd_occurrences s)\<rparr>"

text \<open>\<open>session.flush()\<close>: a row that violates a constraint is an IntegrityError.\<close>

definition flush_account :: "uuid \<Rightarrow> (connector_account \<Rightarrow> connector_account) \<Rightarrow> connector_db
     \<Rightarrow> (connector_db, connector_account) outcome" where
  "flush_account i f s =
    (case get_account (upd_account i f s) i of
       None \<Rightarrow> (Inl AssertionError, s)
     | Some a \<Rightarrow> (if account_checks a then Inr a else Inl IntegrityError, upd_account i f s))"

definition flush_sync_run :: "uuid \<Rightarrow> (sync_run \<Rightarrow> sync_run) \<Rightarrow> connector_db \<Rightarrow> (connector_db, sync_run) outcome" where
  "flush_sync_run i f s =
    (case get_sync_run (upd_sync_run i f s) i of
       None \<Rightarrow> (Inl AssertionError, s)
     | Some r \<Rightarrow> (if sync_run_checks r then Inr r else Inl IntegrityError, upd_sync_run i f s))"

definition flush_schedule :: "uuid \<Rightarrow> (refresh_schedule \<Rightarrow> refresh_schedule) \<Rightarrow> connector_db
     \<Rightarrow> (connector_db, refresh_schedule) outcome" where
  "flush_schedule i f s =
    (case lock_schedule (upd_schedule i f s) i of
       None \<Rightarrow> (Inl AssertionError, s)
     | Some r \<Rightarrow> (if schedule_checks r then Inr r else Inl IntegrityError, upd_schedule i f s))"

definition flush_refresh :: "uuid \<Rightarrow> (refresh_occurrence \<Rightarrow> refresh_occurrence) \<Rightarrow> connector_db
     \<Rightarrow> (connector_db, refresh_occurrence) outcome" where
  "flush_refresh i f s =
    (case lock_refresh (upd_refresh i f s) i of
       None \<Rightarrow> (Inl AssertionError, s)
     | Some oc \<Rightarrow> (if refresh_occurrence_checks oc then Inr oc else Inl IntegrityError, upd_refresh i f s))"

end
