(* ===== verification/Connector_Service.thy ===== *)
theory Connector_Service
  imports Connector_Model
begin

text \<open>
  The operations on connector rows: account lifecycle (\<open>app/connectors/service.py\<close>), the claim of a
  sync run (\<open>claim_with_trigger\<close> of \<open>app/connectors/sync.py\<close>), item revisions and reconciliation
  (\<open>app/repositories/connectors.py\<close>), and refresh schedules (\<open>app/connectors/schedules.py\<close>).
  Requests have passed their closed schemas.
\<close>

section \<open>Accounts\<close>

definition external_fingerprint :: "(string \<Rightarrow> string) \<Rightarrow> string \<Rightarrow> string" where
  "external_fingerprint sha identity = sha (utf8 (''github'' @ char_of (10 :: nat) # identity))"

definition scope_project :: "connector_db \<Rightarrow> uuid option \<Rightarrow> exn + uuid option" where
  "scope_project s scope =
    (case scope of
       None \<Rightarrow> Inr None
     | Some p \<Rightarrow> if p \<in> set (cd_projects s) then Inr (Some p) else Inl ConnectorProjectNotFoundError)"

definition sorted_repositories :: "string list \<Rightarrow> exn + string list" where
  "sorted_repositories names =
    (let result = sort_key casefold names in
     if \<not> distinct (map casefold result) then Inl ConnectorDefinitionError
     else if \<not> valid_account_values ''github'' ''validation'' (replicate 64 (CHR ''0''))
            ''sbcred:v1:00000000-0000-4000-8000-000000000000'' result (replicate 64 (CHR ''0''))
       then Inl ValueError
     else Inr result)"

definition lock_expected_account :: "connector_db \<Rightarrow> uuid \<Rightarrow> int \<Rightarrow> exn + connector_account" where
  "lock_expected_account s i expected =
    (case get_account s i of
       None \<Rightarrow> Inl ConnectorNotFoundError
     | Some a \<Rightarrow> if ca_revision a \<noteq> expected then Inl ConnectorRevisionConflictError else Inr a)"

definition insert_account :: "connector_account \<Rightarrow> connector_db \<Rightarrow> (connector_db, connector_account) outcome" where
  "insert_account a s =
    (let row = a\<lparr>ca_id := cd_next_id s\<rparr>;
         s1 = s\<lparr>cd_next_id := Suc (cd_next_id s), cd_accounts := cd_accounts s @ [row]\<rparr> in
     if \<not> valid_account_values (ca_provider a) (ca_external_account_id a) (ca_external_account_fingerprint a)
            (ca_credential_reference a) (ca_resource_allowlist a) (ca_granted_scope_fingerprint a)
       then (Inl ValueError, s)
     else if list_ex (\<lambda>x. ca_provider x = ca_provider a \<and> ca_external_account_id x = ca_external_account_id a)
               (cd_accounts s) \<or>
             list_ex (\<lambda>x. ca_credential_reference x = ca_credential_reference a) (cd_accounts s) \<or>
             \<not> account_checks row
       then (Inl IntegrityError, s)
     else (Inr row, s1))"

definition create_account ::
  "(string \<Rightarrow> string) \<Rightarrow> string \<Rightarrow> string \<Rightarrow> uuid option \<Rightarrow> string list \<Rightarrow> instant \<Rightarrow> connector_db
     \<Rightarrow> (connector_db, connector_account) outcome" where
  "create_account sha identity credential scope names t s =
    (case sorted_repositories names of
       Inl e \<Rightarrow> (Inl e, s)
     | Inr allowlist \<Rightarrow>
        (case scope_project s scope of
           Inl e \<Rightarrow> (Inl e, s)
         | Inr project \<Rightarrow>
            (case granted_scope_fingerprint sha APPLICATION_READ_POLICY of
               Inl e \<Rightarrow> (Inl e, s)
             | Inr scopes \<Rightarrow>
                insert_account
                  \<lparr> ca_id = 0, ca_provider = ''github'', ca_external_account_id = identity,
                    ca_external_account_fingerprint = external_fingerprint sha identity,
                    ca_credential_reference = credential, ca_project_id = project,
                    ca_resource_allowlist = allowlist, ca_granted_scope_fingerprint = scopes,
                    ca_lifecycle = ACCOUNT_DISABLED, ca_validation_status = ''unvalidated'', ca_revision = 0,
                    ca_last_validated_at = None, ca_created_at = t \<rparr> s)))"

definition has_active_sync_run :: "connector_db \<Rightarrow> uuid \<Rightarrow> bool" where
  "has_active_sync_run s i \<longleftrightarrow>
     list_ex (\<lambda>r. sr_account_id r = i \<and> sr_status r \<in> set SYNC_ACTIVE) (cd_sync_runs s)"

definition active_sync_count :: "connector_db \<Rightarrow> nat" where
  "active_sync_count s = length (filter (\<lambda>r. sr_status r \<in> set SYNC_ACTIVE) (cd_sync_runs s))"

definition configure :: "uuid option option \<Rightarrow> string list option \<Rightarrow> connector_account \<Rightarrow> connector_account" where
  "configure project allowlist a =
     a\<lparr>ca_project_id := (case project of None \<Rightarrow> ca_project_id a | Some p \<Rightarrow> p),
       ca_resource_allowlist := (case allowlist of None \<Rightarrow> ca_resource_allowlist a | Some names \<Rightarrow> names),
       ca_validation_status := ''unvalidated'', ca_last_validated_at := None, ca_revision := ca_revision a + 1\<rparr>"

definition update_account ::
  "uuid \<Rightarrow> int \<Rightarrow> uuid option option \<Rightarrow> string list option \<Rightarrow> connector_db
     \<Rightarrow> (connector_db, connector_account) outcome" where
  "update_account i expected scope names s =
    (case lock_expected_account s i expected of
       Inl e \<Rightarrow> (Inl e, s)
     | Inr a \<Rightarrow>
        if ca_lifecycle a \<noteq> ACCOUNT_DISABLED \<or> has_active_sync_run s (ca_id a)
          then (Inl ConnectorConfigurationConflictError, s)
        else
         (case (case scope of None \<Rightarrow> Inr None | Some p \<Rightarrow>
                 (case scope_project s p of Inl e \<Rightarrow> Inl e | Inr q \<Rightarrow> Inr (Some q))) of
            Inl e \<Rightarrow> (Inl e, s)
          | Inr project \<Rightarrow>
             (case (case names of None \<Rightarrow> Inr None | Some ns \<Rightarrow>
                     (case sorted_repositories ns of Inl e \<Rightarrow> Inl e | Inr l \<Rightarrow> Inr (Some l))) of
                Inl e \<Rightarrow> (Inl e, s)
              | Inr allowlist \<Rightarrow> flush_account (ca_id a) (configure project allowlist) s)))"

fun lifecycle_allowed :: "account_lifecycle \<Rightarrow> account_lifecycle \<Rightarrow> bool" where
  "lifecycle_allowed ACCOUNT_ENABLED ACCOUNT_DISABLED = True"
| "lifecycle_allowed ACCOUNT_DISABLED ACCOUNT_ENABLED = True"
| "lifecycle_allowed ACCOUNT_DISABLED ACCOUNT_REVOKED = True"
| "lifecycle_allowed ACCOUNT_ENABLED ACCOUNT_REVOKED = True"
| "lifecycle_allowed _ _ = False"

definition shift_account :: "account_lifecycle \<Rightarrow> connector_account \<Rightarrow> connector_account" where
  "shift_account target a =
     (if target = ACCOUNT_REVOKED then a\<lparr>ca_validation_status := ''revoked'', ca_last_validated_at := None\<rparr> else a)
       \<lparr>ca_lifecycle := target, ca_revision := ca_revision a + 1\<rparr>"

definition set_lifecycle ::
  "uuid \<Rightarrow> int \<Rightarrow> account_lifecycle \<Rightarrow> connector_db \<Rightarrow> (connector_db, connector_account) outcome" where
  "set_lifecycle i expected target s =
    (case lock_expected_account s i expected of
       Inl e \<Rightarrow> (Inl e, s)
     | Inr a \<Rightarrow>
        if \<not> lifecycle_allowed (ca_lifecycle a) target then (Inl ConnectorTransitionConflictError, s)
        else flush_account (ca_id a) (shift_account target) s)"

section \<open>Claiming a sync run\<close>

definition GLOBAL_ACTIVE_SYNC_CAP :: nat where
  "GLOBAL_ACTIVE_SYNC_CAP = 4"

text \<open>The partial unique index: one active run per account.\<close>

definition create_sync_run :: "sync_run \<Rightarrow> connector_db \<Rightarrow> (connector_db, sync_run) outcome" where
  "create_sync_run r s =
    (let row = r\<lparr>sr_id := cd_next_id s\<rparr> in
     if \<not> safe_code (sr_trigger_identity r) \<or>
        (case sr_safe_error_code r of None \<Rightarrow> False | Some code \<Rightarrow> \<not> safe_code code) then (Inl ValueError, s)
     else
      (case get_account s (sr_account_id r) of
         None \<Rightarrow> (Inl ConnectorOwnershipError, s)
       | Some a \<Rightarrow>
          if (ca_provider a, ca_external_account_id a) \<noteq> (sr_provider r, sr_external_account_id r)
            then (Inl ConnectorOwnershipError, s)
          else if (sr_account_revision r, sr_project_id r) \<noteq> (ca_revision a, ca_project_id a)
            then (Inl ConnectorOwnershipError, s)
          else if \<not> sync_run_checks row \<or>
                  sr_status r \<in> set SYNC_ACTIVE \<and> has_active_sync_run s (sr_account_id r)
            then (Inl IntegrityError, s)
          else (Inr row, s\<lparr>cd_next_id := Suc (cd_next_id s), cd_sync_runs := cd_sync_runs s @ [row]\<rparr>)))"

definition policy_fingerprint :: "(string \<Rightarrow> string) \<Rightarrow> string option" where
  "policy_fingerprint sha =
    (case granted_scope_fingerprint sha APPLICATION_READ_POLICY of Inl _ \<Rightarrow> None | Inr f \<Rightarrow> Some f)"

definition new_sync_run :: "connector_account \<Rightarrow> string \<Rightarrow> string \<Rightarrow> instant \<Rightarrow> sync_run" where
  "new_sync_run a trigger_kind trigger_identity t =
     \<lparr> sr_id = 0, sr_account_id = ca_id a, sr_provider = ca_provider a,
       sr_external_account_id = ca_external_account_id a, sr_account_revision = ca_revision a,
       sr_project_id = ca_project_id a, sr_trigger_kind = trigger_kind, sr_trigger_identity = trigger_identity,
       sr_status = SYNC_CLAIMED, sr_items_seen = 0, sr_items_created = 0, sr_items_unchanged = 0,
       sr_safe_error_code = None, sr_reconciliation_complete = False, sr_created_at = t, sr_started_at = None,
       sr_completed_at = None \<rparr>"

definition claim_with_trigger ::
  "(string \<Rightarrow> string) \<Rightarrow> uuid \<Rightarrow> int \<Rightarrow> string \<Rightarrow> string \<Rightarrow> instant \<Rightarrow> connector_db
     \<Rightarrow> (connector_db, sync_run) outcome" where
  "claim_with_trigger sha i expected trigger_kind trigger_identity t s =
    (case get_account s i of
       None \<Rightarrow> (Inl SyncNotFoundError, s)
     | Some a \<Rightarrow>
        if ca_revision a \<noteq> expected then (Inl SyncRevisionConflictError, s)
        else if ca_lifecycle a \<noteq> ACCOUNT_ENABLED then (Inl SyncConflictError, s)
        else if \<not> valid_account_values (ca_provider a) (ca_external_account_id a)
                   (ca_external_account_fingerprint a) (ca_credential_reference a) (ca_resource_allowlist a)
                   (ca_granted_scope_fingerprint a) then (Inl SyncConflictError, s)
        else if ca_external_account_fingerprint a \<noteq> external_fingerprint sha (ca_external_account_id a) \<or>
                Some (ca_granted_scope_fingerprint a) \<noteq> policy_fingerprint sha \<or>
                \<not> distinct (map casefold (ca_resource_allowlist a)) then (Inl SyncConflictError, s)
        else if has_active_sync_run s (ca_id a) then (Inl SyncConflictError, s)
        else if active_sync_count s \<ge> GLOBAL_ACTIVE_SYNC_CAP then (Inl SyncCapacityConflictError, s)
        else
         (case create_sync_run (new_sync_run a trigger_kind trigger_identity t) s of
            (Inl IntegrityError, s1) \<Rightarrow> (Inl SyncConflictError, s1)
          | other \<Rightarrow> other))"

definition claim_manual ::
  "(string \<Rightarrow> string) \<Rightarrow> uuid \<Rightarrow> int \<Rightarrow> instant \<Rightarrow> connector_db \<Rightarrow> (connector_db, sync_run) outcome" where
  "claim_manual sha i expected t s =
     claim_with_trigger sha i expected ''manual'' ''operator_manual_refresh'' t s"

section \<open>Item revisions\<close>

definition item_checks :: "external_item \<Rightarrow> bool" where
  "item_checks x \<longleftrightarrow>
     xi_provider x = ''github'' \<and> safe_identity (xi_external_resource_id x) \<and> safe_identity (xi_external_item_id x) \<and>
     xi_resource_type x \<in> {''repository'', ''issue'', ''pull_request''} \<and>
     1 \<le> length (xi_provider_source_version x) \<and> length (xi_provider_source_version x) \<le> 255 \<and>
     secret_free (xi_provider_source_version x) \<and>
     length (xi_title x) \<le> 500 \<and> length (utf8 (xi_title x)) \<le> 2000 \<and>
     length (xi_body x) \<le> 20000 \<and> length (utf8 (xi_body x)) \<le> 80000 \<and>
     SHA256 (xi_content_hash x) \<and> 1 \<le> xi_application_revision x \<and> xi_first_seen_at x \<le> xi_last_seen_at x"

definition item_identity :: "external_item \<Rightarrow> uuid \<times> string \<times> string" where
  "item_identity x = (xi_account_id x, xi_external_resource_id x, xi_external_item_id x)"

definition same_snapshot :: "external_item \<Rightarrow> external_item \<Rightarrow> bool" where
  "same_snapshot x y \<longleftrightarrow> item_identity x = item_identity y \<and>
     xi_provider_source_version x = xi_provider_source_version y \<and> xi_content_hash x = xi_content_hash y"

text \<open>The row with the highest revision; of several, the one inserted last.\<close>

definition latest_revision :: "(external_item \<Rightarrow> bool) \<Rightarrow> external_item list \<Rightarrow> external_item option" where
  "latest_revision P xs =
    (case rev (sort_key xi_application_revision (filter P xs)) of [] \<Rightarrow> None | x # _ \<Rightarrow> Some x)"

definition next_revision :: "external_item option \<Rightarrow> instant \<Rightarrow> external_item \<Rightarrow> external_item" where
  "next_revision latest seen_at x =
     x\<lparr>xi_application_revision := (case latest of None \<Rightarrow> 1 | Some y \<Rightarrow> xi_application_revision y + 1),
       xi_first_seen_at := (case latest of None \<Rightarrow> seen_at | Some y \<Rightarrow> xi_first_seen_at y),
       xi_last_seen_at := seen_at\<rparr>"

definition record_item_revision ::
  "(string \<Rightarrow> string) \<Rightarrow> external_item \<Rightarrow> instant \<Rightarrow> connector_db \<Rightarrow> (connector_db, external_item \<times> bool) outcome"
where
  "record_item_revision sha x seen_at s =
    (if item_values_defect sha (xi_provider x) (xi_resource_type x) (xi_external_resource_id x)
          (xi_external_item_id x) (xi_provider_source_version x) (xi_title x) (xi_body x) (xi_content_hash x) \<noteq> None
       then (Inl ValueError, s)
     else
      (case find (\<lambda>r. sr_id r = xi_created_sync_run_id x \<and> sr_account_id r = xi_account_id x \<and>
                     sr_provider r = xi_provider x) (cd_sync_runs s) of
         None \<Rightarrow> (Inl ConnectorOwnershipError, s)
       | Some r \<Rightarrow>
          if (sr_external_account_id r, sr_project_id r) \<noteq> (xi_external_account_id x, xi_project_id x)
            then (Inl ConnectorOwnershipError, s)
          else
           (case find (same_snapshot x) (cd_items s) of
              Some existing \<Rightarrow> (Inr (existing, False), s)
            | None \<Rightarrow>
               let latest = latest_revision (\<lambda>y. item_identity y = item_identity x) (cd_items s);
                   row = (next_revision latest seen_at x)\<lparr>xi_id := cd_next_id s\<rparr> in
               if \<not> item_checks row then (Inl IntegrityError, s)
               else (Inr (row, True),
                     s\<lparr>cd_next_id := Suc (cd_next_id s), cd_items := cd_items s @ [row]\<rparr>))))"

definition latest_repository_snapshot :: "connector_db \<Rightarrow> uuid \<Rightarrow> string \<Rightarrow> external_item option" where
  "latest_repository_snapshot s account name =
     latest_revision (\<lambda>x. xi_account_id x = account \<and> xi_resource_type x = ''repository'' \<and>
       map lower (xi_title x) = casefold name) (cd_items s)"

definition is_latest :: "external_item list \<Rightarrow> external_item \<Rightarrow> bool" where
  "is_latest xs x \<longleftrightarrow>
     list_all (\<lambda>y. item_identity y = item_identity x \<longrightarrow> xi_application_revision y \<le> xi_application_revision x) xs"

definition settle_item :: "(string \<times> string) set \<Rightarrow> instant \<Rightarrow> uuid \<Rightarrow> external_item \<Rightarrow> external_item" where
  "settle_item observed t run x =
    (let target = (if (xi_external_resource_id x, xi_external_item_id x) \<in> observed
                   then ITEM_CURRENT else ITEM_STALE) in
     if xi_state x = target then x
     else if target = ITEM_CURRENT
       then x\<lparr>xi_state := target, xi_last_seen_at := t, xi_last_seen_sync_run_id := run\<rparr>
     else x\<lparr>xi_state := target\<rparr>)"

definition reconcile_latest_items ::
  "sync_run \<Rightarrow> (string \<times> string) set \<Rightarrow> instant \<Rightarrow> connector_db \<Rightarrow> (connector_db, unit) outcome" where
  "reconcile_latest_items run observed t s =
    (let rows = map (\<lambda>x. if xi_account_id x = sr_account_id run \<and> is_latest (cd_items s) x \<and>
                          xi_project_id x = sr_project_id run
                        then settle_item observed t (sr_id run) x else x) (cd_items s) in
     if list_all item_checks rows then (Inr (), s\<lparr>cd_items := rows\<rparr>) else (Inl IntegrityError, s\<lparr>cd_items := rows\<rparr>))"

section \<open>Refresh schedules\<close>

record schedule_input =
  si_kind :: string
  si_timezone_name :: string
  si_local_time :: int
  si_one_time_local_date :: "ordinal option"
  si_weekdays :: "int list"

definition input_definition :: "schedule_input \<Rightarrow> schedule_definition" where
  "input_definition v = \<lparr> sd_kind = si_kind v, sd_timezone_name = si_timezone_name v,
     sd_local_time = si_local_time v, sd_time_has_zone = False,
     sd_one_time_local_date = si_one_time_local_date v, sd_weekdays = si_weekdays v, sd_interval_count = 1 \<rparr>"

definition row_definition :: "refresh_schedule \<Rightarrow> schedule_definition" where
  "row_definition r = \<lparr> sd_kind = cs_schedule_kind r, sd_timezone_name = cs_timezone_name r,
     sd_local_time = cs_local_time r, sd_time_has_zone = False,
     sd_one_time_local_date = cs_one_time_local_date r, sd_weekdays = cs_weekdays r, sd_interval_count = 1 \<rparr>"

definition get_account_schedule :: "connector_db \<Rightarrow> uuid \<Rightarrow> refresh_schedule option" where
  "get_account_schedule s account = find (\<lambda>r. cs_account_id r = account) (cd_schedules s)"

definition apply_input :: "schedule_input \<Rightarrow> refresh_schedule \<Rightarrow> refresh_schedule" where
  "apply_input v r = r\<lparr>cs_schedule_kind := si_kind v, cs_timezone_name := si_timezone_name v,
     cs_local_time := si_local_time v, cs_one_time_local_date := si_one_time_local_date v,
     cs_weekdays := sort (si_weekdays v)\<rparr>"

definition create_schedule ::
  "(string \<Rightarrow> time_zone option) \<Rightarrow> uuid \<Rightarrow> schedule_input \<Rightarrow> string \<Rightarrow> instant \<Rightarrow> connector_db
     \<Rightarrow> (connector_db, refresh_schedule) outcome" where
  "create_schedule zones account v policy t s =
    (case get_account s account of
       None \<Rightarrow> (Inl ScheduleNotFoundError, s)
     | Some a \<Rightarrow>
        if get_account_schedule s account \<noteq> None then (Inl ScheduleConflictError, s)
        else
         (case next_point zones (input_definition v) t None of
            Inl e \<Rightarrow> (Inl e, s)
          | Inr _ \<Rightarrow>
             let row = \<lparr> cs_id = cd_next_id s, cs_account_id = ca_id a, cs_lifecycle = SCHEDULE_DRAFT,
                   cs_revision = 0, cs_schedule_revision = 0, cs_schedule_kind = si_kind v,
                   cs_timezone_name = si_timezone_name v, cs_local_time = si_local_time v,
                   cs_one_time_local_date = si_one_time_local_date v, cs_weekdays = sort (si_weekdays v),
                   cs_missed_run_policy = policy, cs_next_occurrence_at = None, cs_cancelled_at = None \<rparr> in
             if \<not> schedule_checks row then (Inl IntegrityError, s)
             else (Inr row, s\<lparr>cd_next_id := Suc (cd_next_id s), cd_schedules := cd_schedules s @ [row]\<rparr>)))"

definition update_schedule ::
  "(string \<Rightarrow> time_zone option) \<Rightarrow> uuid \<Rightarrow> int \<Rightarrow> schedule_input \<Rightarrow> string \<Rightarrow> instant \<Rightarrow> connector_db
     \<Rightarrow> (connector_db, refresh_schedule) outcome" where
  "update_schedule zones i expected v policy t s =
    (case lock_schedule s i of
       None \<Rightarrow> (Inl ScheduleNotFoundError, s)
     | Some row \<Rightarrow>
        if cs_revision row \<noteq> expected then (Inl ScheduleRevisionConflictError, s)
        else if cs_lifecycle row = SCHEDULE_CANCELLED then (Inl ScheduleConflictError, s)
        else
         (case next_point zones (input_definition v) t None of
            Inl e \<Rightarrow> (Inl e, s)
          | Inr slot \<Rightarrow>
             flush_schedule i (\<lambda>r. (apply_input v r)
               \<lparr>cs_missed_run_policy := policy, cs_revision := cs_revision r + 1,
                cs_schedule_revision := cs_schedule_revision r + 1,
                cs_next_occurrence_at :=
                  (if cs_lifecycle r = SCHEDULE_ENABLED then map_option sp_utc_instant slot else None)\<rparr>) s))"

datatype schedule_action = ScheduleEnable | SchedulePause | ScheduleResume | ScheduleCancel

fun schedule_target :: "schedule_lifecycle \<Rightarrow> schedule_action \<Rightarrow> schedule_lifecycle option" where
  "schedule_target st ScheduleCancel =
     (if st \<in> {SCHEDULE_DRAFT, SCHEDULE_ENABLED, SCHEDULE_PAUSED} then Some SCHEDULE_CANCELLED else None)"
| "schedule_target SCHEDULE_DRAFT ScheduleEnable = Some SCHEDULE_ENABLED"
| "schedule_target SCHEDULE_ENABLED SchedulePause = Some SCHEDULE_PAUSED"
| "schedule_target SCHEDULE_PAUSED ScheduleResume = Some SCHEDULE_ENABLED"
| "schedule_target _ _ = None"

definition transition_schedule ::
  "(string \<Rightarrow> time_zone option) \<Rightarrow> uuid \<Rightarrow> int \<Rightarrow> schedule_action \<Rightarrow> instant \<Rightarrow> connector_db
     \<Rightarrow> (connector_db, refresh_schedule) outcome" where
  "transition_schedule zones i expected action t s =
    (case lock_schedule s i of
       None \<Rightarrow> (Inl ScheduleNotFoundError, s)
     | Some row \<Rightarrow>
        if cs_revision row \<noteq> expected then (Inl ScheduleRevisionConflictError, s)
        else
         (case schedule_target (cs_lifecycle row) action of
            None \<Rightarrow> (Inl ScheduleConflictError, s)
          | Some target \<Rightarrow>
             let step = (\<lambda>slot r. r\<lparr>cs_lifecycle := target, cs_revision := cs_revision r + 1,
                   cs_next_occurrence_at := slot,
                   cs_cancelled_at := (if target = SCHEDULE_CANCELLED then Some t else cs_cancelled_at r)\<rparr>) in
             if target = SCHEDULE_ENABLED then
               (case next_point zones (row_definition row) t None of
                  Inl e \<Rightarrow> (Inl e, s)
                | Inr None \<Rightarrow> (Inl ScheduleConflictError, s)
                | Inr (Some slot) \<Rightarrow> flush_schedule i (step (Some (sp_utc_instant slot))) s)
             else flush_schedule i (step None) s))"

end
