(* ===== verification/Connector_Sync.thy ===== *)
theory Connector_Sync
  imports Connector_Service Automation_Scheduler
begin

text \<open>
  One bounded refresh of a connector account: the GitHub transport (\<open>HttpxGitHubTransport\<close> of
  \<open>app/connectors/github.py\<close>), the reading of its answers and the transactions of
  \<open>app/connectors/sync.py\<close>. Everything outside the session is the environment \<open>sync_world\<close>,
  asked at successive ticks: what other sessions commit before a transaction starts, the two clocks,
  the answers of the network, the credential store. With \<open>sw_caching\<close> the session keeps loaded rows
  over a commit (\<open>expire_on_commit=False\<close>, the sessions of the API); then \<open>get_account\<close> returns the
  attributes read first. A sync run is written by its own refresh only, so its row is always read.
\<close>

section \<open>The transport\<close>

datatype github_request =
    UserRequest
  | RepositoryRequest string
  | IssuesRequest string nat
  | PullsRequest string nat

text \<open>
  A connection or timeout failure; any other exception of the client (a read error, a broken protocol), which
  nobody catches; an answer: status, redirect, exhausted rate limit (header), body.
\<close>

datatype http_answer = ConnectionFailed | ConnectionBroken | Answered nat bool bool string

record sync_world =
  sw_sha :: "string \<Rightarrow> string"
  sw_loads :: "string \<Rightarrow> json option"
  sw_caching :: bool
  sw_others :: "nat \<Rightarrow> connector_db \<Rightarrow> connector_db"
  sw_monotonic :: "nat \<Rightarrow> int"
  sw_now :: "nat \<Rightarrow> instant"
  sw_http :: "nat \<Rightarrow> github_request \<Rightarrow> http_answer"
  sw_secret :: "string \<Rightarrow> string + string"
  sw_locked :: "nat \<Rightarrow> uuid \<Rightarrow> bool"

record sync_session =
  ss_db :: connector_db
  ss_cached :: "connector_account option"
  ss_tick :: nat
  ss_attempts :: nat
  ss_bytes :: nat
  ss_observed :: "(string \<times> string) list"

definition ticked :: "sync_session \<Rightarrow> sync_session" where
  "ticked ss = ss\<lparr>ss_tick := Suc (ss_tick ss)\<rparr>"

definition MAX_ATTEMPTS :: nat where "MAX_ATTEMPTS = 128"
definition MAX_RESPONSE_BYTES :: nat where "MAX_RESPONSE_BYTES = 2097152"
definition MAX_RUN_BYTES :: nat where "MAX_RUN_BYTES = 33554432"
definition PAGE_SIZE :: nat where "PAGE_SIZE = 50"
definition MAX_DATA_PAGES :: nat where "MAX_DATA_PAGES = 2"
definition MAX_ACCEPTED_ITEMS :: nat where "MAX_ACCEPTED_ITEMS = 2000"
definition SYNC_WALL_CLOCK :: int where "SYNC_WALL_CLOCK = seconds 60"

definition github_deadline :: "sync_world \<Rightarrow> int \<Rightarrow> sync_session \<Rightarrow> (sync_session, unit) outcome" where
  "github_deadline w limit ss =
    (if sw_monotonic w (ss_tick ss) \<ge> limit
       then (Inl (GitHubTransportError ''github_deadline_ceiling''), ticked ss) else (Inr (), ticked ss))"

definition usable_secret :: "string \<Rightarrow> bool" where
  "usable_secret secret \<longleftrightarrow>
     secret \<noteq> [] \<and> list_all (\<lambda>c. let n = of_char c :: nat in 33 \<le> n \<and> n \<le> 126) secret"

text \<open>One attempt: a page, a failure, a failure that is retried once (the code when it is not), or a crash.\<close>

datatype http_result = Page json bool | Failed string | Retryable string | Crashed

definition status_result :: "nat \<Rightarrow> bool \<Rightarrow> http_result option" where
  "status_result status limited =
    (if status = 401 then Some (Failed ''github_unauthorized'')
     else if status = 403 then
       Some (Failed (if limited then ''github_rate_limited'' else ''github_forbidden''))
     else if status = 404 then Some (Failed ''github_not_found'')
     else if status = 429 then Some (Failed ''github_rate_limited'')
     else if status \<in> {502, 503, 504} then Some (Retryable ''github_unavailable'')
     else if status \<noteq> 200 then Some (Failed ''github_unavailable'')
     else None)"

definition page_of :: "json \<Rightarrow> http_result" where
  "page_of v = Page v (case v of JArr xs \<Rightarrow> length xs = PAGE_SIZE | _ \<Rightarrow> False)"

definition http_attempt ::
  "sync_world \<Rightarrow> int \<Rightarrow> string \<Rightarrow> github_request \<Rightarrow> sync_session \<Rightarrow> http_result \<times> sync_session" where
  "http_attempt w limit secret request ss =
    (if ss_attempts ss \<ge> MAX_ATTEMPTS then (Failed ''github_request_ceiling'', ss)
     else
      let s1 = ss\<lparr>ss_attempts := Suc (ss_attempts ss)\<rparr> in
      if \<not> usable_secret secret then (Failed ''credential_invalid'', s1)
      else
       (case sw_http w (ss_tick s1) request of
          ConnectionFailed \<Rightarrow> (Retryable ''github_timeout'', ticked s1)
        | ConnectionBroken \<Rightarrow> (Crashed, ticked s1)
        | Answered status redirect limited content \<Rightarrow>
           let s2 = ticked s1; s3 = ticked s2 in
           if sw_monotonic w (ss_tick s2) \<ge> limit then (Failed ''github_deadline_ceiling'', s3)
           else if redirect then (Failed ''github_redirect'', s3)
           else
            (case status_result status limited of
               Some result \<Rightarrow> (result, s3)
             | None \<Rightarrow>
                if length content > MAX_RESPONSE_BYTES then (Failed ''github_response_oversized'', s3)
                else
                 let s4 = s3\<lparr>ss_bytes := ss_bytes s3 + length content\<rparr> in
                 if ss_bytes s4 > MAX_RUN_BYTES then (Failed ''github_run_byte_ceiling'', s4)
                 else (case sw_loads w content of
                         None \<Rightarrow> (Failed ''github_invalid_response'', s4)
                       | Some v \<Rightarrow> (page_of v, s4)))))"

definition github_get ::
  "sync_world \<Rightarrow> int \<Rightarrow> string \<Rightarrow> github_request \<Rightarrow> sync_session \<Rightarrow> (sync_session, json \<times> bool) outcome" where
  "github_get w limit secret request ss =
    andThen (github_deadline w limit ss) (\<lambda>_ s0.
      let settle = (\<lambda>result s. case result of
            Page v again \<Rightarrow> (Inr (v, again), s)
          | Failed code \<Rightarrow> (Inl (GitHubTransportError code), s)
          | Retryable code \<Rightarrow> (Inl (GitHubTransportError code), s)
          | Crashed \<Rightarrow> (Inl UncaughtError, s)) in
      case http_attempt w limit secret request s0 of
        (Retryable _, s1) \<Rightarrow> (case http_attempt w limit secret request s1 of (result, s2) \<Rightarrow> settle result s2)
      | (result, s1) \<Rightarrow> settle result s1)"

section \<open>Reading the answers\<close>

definition invalid_response :: exn where
  "invalid_response = GitHubTransportError ''github_invalid_response''"

definition required_dict :: "json \<Rightarrow> exn + (string \<times> json) list" where
  "required_dict v = (case v of JObj kvs \<Rightarrow> Inr kvs | _ \<Rightarrow> Inl invalid_response)"

definition dict_get :: "(string \<times> json) list \<Rightarrow> string \<Rightarrow> json" where
  "dict_get kvs k = (case map_of kvs k of None \<Rightarrow> JNull | Some v \<Rightarrow> v)"

definition json_integer :: "json \<Rightarrow> exn + int" where
  "json_integer v = (case v of JInt n \<Rightarrow> if n < 1 then Inl invalid_response else Inr n | _ \<Rightarrow> Inl invalid_response)"

definition json_string :: "bool \<Rightarrow> json \<Rightarrow> exn + string" where
  "json_string optional v =
    (case v of
       JStr t \<Rightarrow> Inr t
     | JNull \<Rightarrow> if optional then Inr [] else Inl invalid_response
     | _ \<Rightarrow> Inl invalid_response)"

text \<open>
  \<open>strptime\<close> with \<open>%Y-%m-%dT%H:%M:%SZ\<close>: every field ends at its separator, letters match either
  case, a day may be a blank and a digit, and seconds 60 and 61 fail in the constructor.
\<close>

definition split_on :: "string \<Rightarrow> string \<Rightarrow> (string \<times> string) option" where
  "split_on seps t = (let rest = dropWhile (\<lambda>c. c \<notin> set seps) t in
     if rest = [] then None else Some (takeWhile (\<lambda>c. c \<notin> set seps) t, tl rest))"

definition digits_value :: "string \<Rightarrow> int" where
  "digits_value t = foldl (\<lambda>n c. 10 * n + (int (of_char c) - 48)) 0 t"

definition strp_number :: "int \<Rightarrow> int \<Rightarrow> string \<Rightarrow> int option" where
  "strp_number lo hi t =
    (if t \<noteq> [] \<and> length t \<le> 2 \<and> list_all is_digit t \<and> lo \<le> digits_value t \<and> digits_value t \<le> hi
     then Some (digits_value t) else None)"

definition strp_day :: "string \<Rightarrow> int option" where
  "strp_day t = (case t of c # rest \<Rightarrow>
     if c = CHR '' '' \<and> length rest = 1 then strp_number 1 9 rest else strp_number 1 31 t | [] \<Rightarrow> None)"

definition strp_year :: "string \<Rightarrow> int option" where
  "strp_year t = (if length t = 4 \<and> list_all is_digit t \<and> 1 \<le> digits_value t then Some (digits_value t) else None)"

definition month_length :: "int \<Rightarrow> int \<Rightarrow> int" where
  "month_length y m =
     (if m = 12 then 31 else days_before_month (is_leap y) (m + 1) - days_before_month (is_leap y) m)"

fun split_fields :: "string list \<Rightarrow> string \<Rightarrow> string list option" where
  "split_fields [] t = (if t = [] then Some [] else None)"
| "split_fields (sep # seps) t =
    (case split_on sep t of None \<Rightarrow> None | Some (field, rest) \<Rightarrow> map_option ((#) field) (split_fields seps rest))"

definition github_timestamp :: "json \<Rightarrow> exn + string" where
  "github_timestamp v =
    (case json_string False v of
       Inl e \<Rightarrow> Inl e
     | Inr t \<Rightarrow>
        (case split_fields [''-'', ''-'', ''Tt'', '':'', '':'', ''Zz''] t of
           Some [y, mo, d, h, mi, s] \<Rightarrow>
            (case (strp_year y, strp_number 1 12 mo, strp_day d, strp_number 0 23 h, strp_number 0 59 mi,
                   strp_number 0 59 s) of
               (Some y, Some mo, Some d, Some h, Some mi, Some s) \<Rightarrow>
                 if d \<le> month_length y mo
                 then Inr (pad 4 y @ ''-'' @ pad 2 mo @ ''-'' @ pad 2 d @ ''T'' @ pad 2 h @ '':'' @ pad 2 mi @
                           '':'' @ pad 2 s @ ''Z'')
                 else Inl invalid_response
             | _ \<Rightarrow> Inl invalid_response)
         | _ \<Rightarrow> Inl invalid_response))"

record github_snapshot =
  sn_item_id :: string
  sn_title :: string
  sn_body :: string
  sn_version :: string

definition resource_identity :: "int \<Rightarrow> string" where
  "resource_identity repo_id = ''github_repo:'' @ str_int repo_id"

definition validated_snapshot ::
  "sync_world \<Rightarrow> int \<Rightarrow> string \<Rightarrow> string \<Rightarrow> string \<Rightarrow> string \<Rightarrow> string \<Rightarrow> exn + github_snapshot" where
  "validated_snapshot w repo_id item_id kind version title body =
    (case item_values_defect (sw_sha w) ''github'' kind (resource_identity repo_id) item_id version title body
            (snapshot_content_hash (sw_sha w) title body) of
       Some ItemOversized \<Rightarrow> Inl (GitHubTransportError ''github_item_oversized'')
     | Some ItemInvalid \<Rightarrow> Inl invalid_response
     | None \<Rightarrow> Inr \<lparr> sn_item_id = item_id, sn_title = title, sn_body = body, sn_version = version \<rparr>)"

definition bind_value :: "exn + 'a \<Rightarrow> ('a \<Rightarrow> exn + 'b) \<Rightarrow> exn + 'b" where
  "bind_value v f = (case v of Inl e \<Rightarrow> Inl e | Inr a \<Rightarrow> f a)"

definition guard_value :: "bool \<Rightarrow> exn \<Rightarrow> exn + unit" where
  "guard_value ok e = (if ok then Inr () else Inl e)"

definition repository_snapshot :: "sync_world \<Rightarrow> json \<Rightarrow> string \<Rightarrow> exn + int \<times> github_snapshot" where
  "repository_snapshot w data expected =
     bind_value (required_dict data) (\<lambda>kvs.
     bind_value (json_integer (dict_get kvs ''id'')) (\<lambda>repo_id.
     bind_value (json_string False (dict_get kvs ''full_name'')) (\<lambda>full_name.
     bind_value (guard_value (casefold full_name = casefold expected)
                   (GitHubTransportError ''github_identity_mismatch'')) (\<lambda>_.
     bind_value (github_timestamp (dict_get kvs ''updated_at'')) (\<lambda>updated_at.
     bind_value (guard_value ((case dict_get kvs ''archived'' of JBool _ \<Rightarrow> True | _ \<Rightarrow> False) \<and>
                   (case dict_get kvs ''private'' of JBool _ \<Rightarrow> True | _ \<Rightarrow> False)) invalid_response) (\<lambda>_.
     bind_value (guard_value (case dict_get kvs ''description'' of JNull \<Rightarrow> True | JStr _ \<Rightarrow> True | _ \<Rightarrow> False)
                   invalid_response) (\<lambda>_.
     bind_value (validated_snapshot w repo_id (resource_identity repo_id) ''repository''
                   (updated_at @ '':'' @ str_int repo_id) full_name
                   (raw_dumps (JObj [(''archived'', dict_get kvs ''archived''),
                      (''description'', dict_get kvs ''description''), (''private'', dict_get kvs ''private'')])))
       (\<lambda>snapshot. Inr (repo_id, snapshot)))))))))"

definition item_snapshot :: "sync_world \<Rightarrow> string \<Rightarrow> int \<Rightarrow> int list \<Rightarrow> (string \<times> json) list \<Rightarrow> exn + int \<times> github_snapshot"
where
  "item_snapshot w kind repo_id seen kvs =
     bind_value (json_integer (dict_get kvs ''id'')) (\<lambda>item_id.
     bind_value (guard_value (item_id \<notin> set seen) invalid_response) (\<lambda>_.
     bind_value (json_string False (dict_get kvs ''title'')) (\<lambda>title.
     bind_value (json_string True (dict_get kvs ''body'')) (\<lambda>body.
     bind_value (json_string False (dict_get kvs ''state'')) (\<lambda>state.
     bind_value (guard_value (state \<in> {''open'', ''closed''}) invalid_response) (\<lambda>_.
     bind_value (github_timestamp (dict_get kvs ''updated_at'')) (\<lambda>updated_at.
     bind_value (json_integer (dict_get kvs ''number'')) (\<lambda>number.
     bind_value (validated_snapshot w repo_id
                   (''github_'' @ (if kind = ''issue'' then ''issue'' else ''pull'') @ '':'' @ str_int item_id) kind
                   (updated_at @ '':'' @ str_int item_id) title
                   (raw_dumps (JObj [(''body'', JStr body), (''number'', JInt number), (''state'', JStr state)])))
       (\<lambda>snapshot. Inr (item_id, snapshot))))))))))"

fun collect_snapshots :: "sync_world \<Rightarrow> string \<Rightarrow> int \<Rightarrow> int list \<Rightarrow> json list \<Rightarrow> exn + github_snapshot list" where
  "collect_snapshots w kind repo_id seen [] = Inr []"
| "collect_snapshots w kind repo_id seen (raw # rest) =
    (case required_dict raw of
       Inl e \<Rightarrow> Inl e
     | Inr kvs \<Rightarrow>
        if kind = ''issue'' \<and> map_of kvs ''pull_request'' \<noteq> None then collect_snapshots w kind repo_id seen rest
        else
         (case item_snapshot w kind repo_id seen kvs of
            Inl e \<Rightarrow> Inl e
          | Inr (item_id, snapshot) \<Rightarrow>
             bind_value (collect_snapshots w kind repo_id (item_id # seen) rest) (\<lambda>others. Inr (snapshot # others))))"

definition list_snapshots :: "sync_world \<Rightarrow> json \<Rightarrow> string \<Rightarrow> int \<Rightarrow> exn + github_snapshot list" where
  "list_snapshots w data kind repo_id =
    (case data of JArr xs \<Rightarrow> collect_snapshots w kind repo_id [] xs | _ \<Rightarrow> Inl invalid_response)"

end
