(* ===== verification/Connector_Refresh.thy ===== *)
theory Connector_Refresh
  imports Connector_Sync
begin

text \<open>
  The transactions of one refresh (\<open>_captured_account\<close>, \<open>_persist_page\<close>, \<open>_finish\<close> and \<open>refresh\<close>
  of \<open>app/connectors/sync.py\<close>), in the order of the code. \<open>refresh\<close> clears the secret and closes the
  transport when it leaves; neither is state of the model.
\<close>

section \<open>Transactions\<close>

definition roll_back :: "sync_session \<Rightarrow> sync_session" where
  "roll_back ss = ss\<lparr>ss_cached := None\<rparr>"

text \<open>\<open>with session.begin():\<close> what others have committed is there; an exception rolls back and expires.\<close>

definition transaction ::
  "sync_world \<Rightarrow> (sync_session \<Rightarrow> (sync_session, 'a) outcome) \<Rightarrow> sync_session \<Rightarrow> (sync_session, 'a) outcome" where
  "transaction w body ss =
    (let s1 = ticked (ss\<lparr>ss_db := sw_others w (ss_tick ss) (ss_db ss)\<rparr>) in
     case body s1 of
       (Inl e, s2) \<Rightarrow> (Inl e, roll_back (s2\<lparr>ss_db := ss_db s1\<rparr>))
     | (Inr a, s2) \<Rightarrow> (Inr a, s2))"

definition on_rows ::
  "(connector_db \<Rightarrow> (connector_db, 'a) outcome) \<Rightarrow> sync_session \<Rightarrow> (sync_session, 'a) outcome" where
  "on_rows f ss = (case f (ss_db ss) of (res, db) \<Rightarrow> (res, ss\<lparr>ss_db := db\<rparr>))"

text \<open>\<open>datetime.now(UTC)\<close>.\<close>

definition utc_now :: "sync_world \<Rightarrow> sync_session \<Rightarrow> (sync_session, instant) outcome" where
  "utc_now w ss = (Inr (sw_now w (ss_tick ss)), ticked ss)"

definition current_run :: "uuid \<Rightarrow> sync_session \<Rightarrow> (sync_session, sync_run) outcome" where
  "current_run i ss =
    (case get_sync_run (ss_db ss) i of None \<Rightarrow> (Inl AssertionError, ss) | Some run \<Rightarrow> (Inr run, ss))"

definition session_account :: "sync_world \<Rightarrow> uuid \<Rightarrow> sync_session \<Rightarrow> connector_account option" where
  "session_account w i ss =
    (case (sw_caching w, ss_cached ss) of
       (True, Some a) \<Rightarrow> if ca_id a = i then Some a else get_account (ss_db ss) i
     | _ \<Rightarrow> get_account (ss_db ss) i)"

definition account_matches :: "sync_world \<Rightarrow> sync_run \<Rightarrow> connector_account \<Rightarrow> bool" where
  "account_matches w run a \<longleftrightarrow>
     ca_lifecycle a = ACCOUNT_ENABLED \<and> ca_revision a = sr_account_revision run \<and>
     ca_project_id a = sr_project_id run \<and> ca_provider a = ''github'' \<and>
     ca_external_account_id a = sr_external_account_id run \<and>
     ca_external_account_fingerprint a = external_fingerprint (sw_sha w) (ca_external_account_id a) \<and>
     Some (ca_granted_scope_fingerprint a) = policy_fingerprint (sw_sha w)"

definition captured_account ::
  "sync_world \<Rightarrow> sync_run \<Rightarrow> sync_session \<Rightarrow> (sync_session, connector_account) outcome" where
  "captured_account w run ss =
    (case session_account w (sr_account_id run) ss of
       None \<Rightarrow> (Inl (GitHubTransportError ''account_revision_drift''), ss)
     | Some a \<Rightarrow>
        if \<not> account_matches w run a then (Inl (GitHubTransportError ''account_revision_drift''), ss)
        else (Inr a, if sw_caching w then ss\<lparr>ss_cached := Some a\<rparr> else ss))"

text \<open>A read-only transaction that checks the account again.\<close>

definition recheck :: "sync_world \<Rightarrow> uuid \<Rightarrow> sync_session \<Rightarrow> (sync_session, sync_run) outcome" where
  "recheck w i ss = transaction w (\<lambda>s.
     andThen (current_run i s) (\<lambda>run s1.
     andThen (captured_account w run s1) (\<lambda>_ s2. (Inr run, s2)))) ss"

definition start_run :: "sync_world \<Rightarrow> uuid \<Rightarrow> sync_session \<Rightarrow> (sync_session, sync_run) outcome" where
  "start_run w i ss = transaction w (\<lambda>s.
     andThen (current_run i s) (\<lambda>run s1.
     andThen (captured_account w run s1) (\<lambda>_ s2.
     andThen (utc_now w s2) (\<lambda>t s3.
       on_rows (flush_sync_run i (\<lambda>r. r\<lparr>sr_status := SYNC_RUNNING, sr_started_at := Some t\<rparr>)) s3)))) ss"

text \<open>Only attributes whose value changes are in the \<open>UPDATE\<close>.\<close>

definition mark_valid :: "sync_world \<Rightarrow> uuid \<Rightarrow> sync_session \<Rightarrow> (sync_session, sync_run) outcome" where
  "mark_valid w i ss = transaction w (\<lambda>s.
     andThen (current_run i s) (\<lambda>run s1.
     andThen (captured_account w run s1) (\<lambda>a s2.
     andThen (utc_now w s2) (\<lambda>t s3.
     andThen (on_rows (flush_account (ca_id a) (\<lambda>x. x
         \<lparr>ca_validation_status := (if ca_validation_status a = ''valid'' then ca_validation_status x else ''valid''),
          ca_last_validated_at := Some t\<rparr>)) s3) (\<lambda>_ s4.
       (Inr run,
        if sw_caching w
        then s4\<lparr>ss_cached := Some (a\<lparr>ca_validation_status := ''valid'', ca_last_validated_at := Some t\<rparr>)\<rparr>
        else s4)))))) ss"

section \<open>Persisting a page\<close>

definition snapshot_item :: "sync_world \<Rightarrow> sync_run \<Rightarrow> int \<Rightarrow> string \<Rightarrow> instant \<Rightarrow> github_snapshot \<Rightarrow> external_item" where
  "snapshot_item w run repo_id kind t sn =
     \<lparr> xi_id = 0, xi_account_id = sr_account_id run, xi_provider = ''github'',
       xi_external_account_id = sr_external_account_id run,
       xi_external_resource_id = resource_identity repo_id, xi_external_item_id = sn_item_id sn,
       xi_resource_type = kind, xi_provider_source_version = sn_version sn, xi_title = sn_title sn,
       xi_body = sn_body sn, xi_content_hash = snapshot_content_hash (sw_sha w) (sn_title sn) (sn_body sn),
       xi_application_revision = 1, xi_state = ITEM_CURRENT, xi_project_id = sr_project_id run,
       xi_created_sync_run_id = sr_id run, xi_last_seen_sync_run_id = sr_id run,
       xi_first_seen_at = t, xi_last_seen_at = t \<rparr>"

text \<open>The number of items created; the others are unchanged.\<close>

fun record_items ::
  "sync_world \<Rightarrow> sync_run \<Rightarrow> int \<Rightarrow> string \<Rightarrow> instant \<Rightarrow> github_snapshot list \<Rightarrow> connector_db \<Rightarrow> (connector_db, int) outcome"
where
  "record_items w run repo_id kind t [] s = (Inr 0, s)"
| "record_items w run repo_id kind t (sn # rest) s =
    andThen (record_item_revision (sw_sha w) (snapshot_item w run repo_id kind t sn) t s) (\<lambda>(_, created) s1.
    andThen (record_items w run repo_id kind t rest s1) (\<lambda>n s2. (Inr (n + (if created then 1 else 0)), s2)))"

definition count_items :: "int \<Rightarrow> int \<Rightarrow> sync_run \<Rightarrow> sync_run" where
  "count_items seen created r = r\<lparr>sr_items_seen := sr_items_seen r + seen,
     sr_items_created := sr_items_created r + created,
     sr_items_unchanged := sr_items_unchanged r + (seen - created)\<rparr>"

definition persist_page ::
  "sync_world \<Rightarrow> sync_run \<Rightarrow> string \<Rightarrow> int \<Rightarrow> string \<Rightarrow> github_snapshot list \<Rightarrow> sync_session \<Rightarrow> (sync_session, unit) outcome"
where
  "persist_page w run name repo_id kind snapshots ss = transaction w (\<lambda>s.
     andThen (captured_account w run s) (\<lambda>a s1.
       if casefold name \<notin> casefold ` set (ca_resource_allowlist a)
         then (Inl (GitHubTransportError ''account_revision_drift''), s1)
       else if kind = ''repository'' \<and>
               (case latest_repository_snapshot (ss_db s1) (sr_account_id run) name of
                  None \<Rightarrow> False | Some prior \<Rightarrow> xi_external_resource_id prior \<noteq> resource_identity repo_id)
         then (Inl (GitHubTransportError ''github_identity_mismatch''), s1)
       else
         andThen (utc_now w s1) (\<lambda>t s2.
         andThen (on_rows (record_items w run repo_id kind t snapshots)
            (s2\<lparr>ss_observed := ss_observed s2 @ map (\<lambda>sn. (resource_identity repo_id, sn_item_id sn)) snapshots\<rparr>))
           (\<lambda>created s3.
         andThen (on_rows (flush_sync_run (sr_id run) (count_items (int (length snapshots)) created)) s3)
           (\<lambda>_ s4. (Inr (), s4)))))) ss"

section \<open>Finishing\<close>

definition finish_row :: "sync_status \<Rightarrow> string option \<Rightarrow> bool \<Rightarrow> instant \<Rightarrow> sync_run \<Rightarrow> sync_run" where
  "finish_row status error complete t r = r\<lparr>sr_status := status, sr_safe_error_code := error,
     sr_reconciliation_complete := complete, sr_completed_at := Some t\<rparr>"

definition finish_sync ::
  "sync_world \<Rightarrow> uuid \<Rightarrow> sync_status \<Rightarrow> string option \<Rightarrow> bool \<Rightarrow> sync_session \<Rightarrow> (sync_session, sync_run) outcome" where
  "finish_sync w i status error complete ss =
    (case get_sync_run (ss_db ss) i of
       None \<Rightarrow> (Inl SyncNotFoundError, ss)
     | Some _ \<Rightarrow>
        andThen (utc_now w ss) (\<lambda>t s1. on_rows (flush_sync_run i (finish_row status error complete t)) s1))"

definition CEILING_CODES :: "string list" where
  "CEILING_CODES = [''github_pagination_ceiling'', ''github_item_ceiling'', ''github_request_ceiling'',
     ''github_deadline_ceiling'', ''github_run_byte_ceiling'']"

definition IDENTITY_FAILURES :: "string list" where
  "IDENTITY_FAILURES = [''github_unauthorized'', ''github_forbidden'', ''github_not_found'',
     ''github_identity_mismatch'']"

definition fence_account :: "connector_account \<Rightarrow> connector_account" where
  "fence_account a = a\<lparr>ca_lifecycle := ACCOUNT_DISABLED, ca_validation_status := ''invalid'',
     ca_last_validated_at := None, ca_revision := ca_revision a + 1\<rparr>"

definition disable_identity :: "uuid \<Rightarrow> int \<Rightarrow> connector_db \<Rightarrow> (connector_db, unit) outcome" where
  "disable_identity i captured s =
    (case get_account s i of
       None \<Rightarrow> (Inr (), s)
     | Some a \<Rightarrow> if ca_revision a \<noteq> captured then (Inr (), s)
                 else andThen (flush_account i fence_account s) (\<lambda>_ s1. (Inr (), s1)))"

text \<open>The \<open>except\<close> clauses; another exception propagates.\<close>

definition settle_refresh_failure :: "sync_world \<Rightarrow> sync_run \<Rightarrow> exn \<Rightarrow> sync_session \<Rightarrow> (sync_session, sync_run) outcome" where
  "settle_refresh_failure w run e ss =
    (case e of
       CredentialStoreError code \<Rightarrow>
         transaction w (finish_sync w (sr_id run) SYNC_FAILED (Some code) False) (roll_back ss)
     | GitHubTransportError code \<Rightarrow>
         transaction w (\<lambda>s.
           andThen (if code \<in> set IDENTITY_FAILURES
                    then on_rows (disable_identity (sr_account_id run) (sr_account_revision run)) s else (Inr (), s))
             (\<lambda>_ s1. finish_sync w (sr_id run)
                (if code \<in> set CEILING_CODES then SYNC_INCOMPLETE else SYNC_FAILED) (Some code) False s1))
           (roll_back ss)
     | other \<Rightarrow> (Inl other, ss))"

section \<open>The refresh\<close>

record sync_job =
  sj_deadline :: int
  sj_limit :: int
  sj_secret :: string

fun validate_repositories ::
  "sync_world \<Rightarrow> sync_job \<Rightarrow> uuid \<Rightarrow> string list \<Rightarrow> sync_session
     \<Rightarrow> (sync_session, (string \<times> int \<times> github_snapshot) list) outcome" where
  "validate_repositories w j i [] ss = (Inr [], ss)"
| "validate_repositories w j i (name # names) ss =
     andThen (github_deadline w (sj_deadline j) ss) (\<lambda>_ s1.
     andThen (recheck w i s1) (\<lambda>_ s2.
     andThen (github_get w (sj_limit j) (sj_secret j) (RepositoryRequest name) s2) (\<lambda>(page, _) s3.
       case repository_snapshot w page name of
         Inl e \<Rightarrow> (Inl e, s3)
       | Inr (repo_id, snapshot) \<Rightarrow>
          andThen (validate_repositories w j i names s3) (\<lambda>others s4. (Inr ((name, repo_id, snapshot) # others), s4)))))"

definition list_request :: "string \<Rightarrow> string \<Rightarrow> nat \<Rightarrow> github_request" where
  "list_request kind name page = (if kind = ''issue'' then IssuesRequest name page else PullsRequest name page)"

text \<open>The pages of one resource; the flag says that the last page allowed may not be the last one.\<close>

fun fetch_pages ::
  "sync_world \<Rightarrow> sync_job \<Rightarrow> uuid \<Rightarrow> string \<Rightarrow> int \<Rightarrow> string \<Rightarrow> nat list \<Rightarrow> nat \<Rightarrow> sync_session
     \<Rightarrow> (sync_session, nat \<times> bool) outcome" where
  "fetch_pages w j i name repo_id kind [] accepted ss = (Inr (accepted, False), ss)"
| "fetch_pages w j i name repo_id kind (number # numbers) accepted ss =
     andThen (github_deadline w (sj_deadline j) ss) (\<lambda>_ s1.
     andThen (recheck w i s1) (\<lambda>run s2.
     andThen (github_get w (sj_limit j) (sj_secret j) (list_request kind name number) s2) (\<lambda>(page, may_have_more) s3.
     andThen (github_deadline w (sj_deadline j) s3) (\<lambda>_ s4.
       case list_snapshots w page kind repo_id of
         Inl e \<Rightarrow> (Inl e, s4)
       | Inr snapshots \<Rightarrow>
          if accepted + length snapshots > MAX_ACCEPTED_ITEMS
            then (Inl (GitHubTransportError ''github_item_ceiling''), s4)
          else
           andThen (persist_page w run name repo_id kind snapshots s4) (\<lambda>_ s5.
             let accepted = accepted + length snapshots in
             if \<not> may_have_more then (Inr (accepted, False), s5)
             else if number = MAX_DATA_PAGES then (Inr (accepted, True), s5)
             else fetch_pages w j i name repo_id kind numbers accepted s5)))))"

definition fetch_repository ::
  "sync_world \<Rightarrow> sync_job \<Rightarrow> sync_run \<Rightarrow> string \<times> int \<times> github_snapshot \<Rightarrow> nat \<times> bool \<Rightarrow> sync_session
     \<Rightarrow> (sync_session, nat \<times> bool) outcome" where
  "fetch_repository w j run repo progress ss =
    (case (repo, progress) of ((name, repo_id, snapshot), (accepted, incomplete)) \<Rightarrow>
     andThen (github_deadline w (sj_deadline j) ss) (\<lambda>_ s1.
     andThen (persist_page w run name repo_id ''repository'' [snapshot] s1) (\<lambda>_ s2.
     andThen (fetch_pages w j (sr_id run) name repo_id ''issue'' [1..<Suc MAX_DATA_PAGES] (Suc accepted) s2)
       (\<lambda>(accepted, more_issues) s3.
     andThen (fetch_pages w j (sr_id run) name repo_id ''pull_request'' [1..<Suc MAX_DATA_PAGES] accepted s3)
       (\<lambda>(accepted, more_pulls) s4. (Inr (accepted, incomplete \<or> more_issues \<or> more_pulls), s4))))))"

fun fetch_repositories ::
  "sync_world \<Rightarrow> sync_job \<Rightarrow> sync_run \<Rightarrow> (string \<times> int \<times> github_snapshot) list \<Rightarrow> nat \<times> bool \<Rightarrow> sync_session
     \<Rightarrow> (sync_session, nat \<times> bool) outcome" where
  "fetch_repositories w j run [] progress ss = (Inr progress, ss)"
| "fetch_repositories w j run (repo # repos) progress ss =
     andThen (fetch_repository w j run repo progress ss) (\<lambda>progress s1.
       fetch_repositories w j run repos progress s1)"

definition conclude :: "sync_world \<Rightarrow> uuid \<Rightarrow> bool \<Rightarrow> sync_session \<Rightarrow> (sync_session, sync_run) outcome" where
  "conclude w i incomplete ss = transaction w (\<lambda>s.
     andThen (current_run i s) (\<lambda>run s1.
     andThen (if incomplete then (Inr (), s1)
              else andThen (captured_account w run s1) (\<lambda>_ s2.
                   andThen (utc_now w s2) (\<lambda>t s3.
                     on_rows (reconcile_latest_items run (set (ss_observed s3)) t) s3)))
       (\<lambda>_ s4. finish_sync w i (if incomplete then SYNC_INCOMPLETE else SYNC_SUCCEEDED)
          (if incomplete then Some ''github_pagination_ceiling'' else None) (\<not> incomplete) s4))) ss"

definition confirm_user :: "sync_world \<Rightarrow> sync_job \<Rightarrow> string \<Rightarrow> sync_session \<Rightarrow> (sync_session, unit) outcome" where
  "confirm_user w j identity ss =
     andThen (github_get w (sj_limit j) (sj_secret j) UserRequest ss) (\<lambda>(page, _) s1.
       case bind_value (required_dict page) (\<lambda>kvs. json_string False (dict_get kvs ''login'')) of
         Inl e \<Rightarrow> (Inl e, s1)
       | Inr login \<Rightarrow>
          if casefold login \<noteq> casefold identity
            then (Inl (GitHubTransportError ''github_identity_mismatch''), s1)
          else (Inr (), s1))"

definition refresh_account ::
  "sync_world \<Rightarrow> int \<Rightarrow> sync_run \<Rightarrow> connector_account \<Rightarrow> sync_session \<Rightarrow> (sync_session, sync_run) outcome" where
  "refresh_account w deadline run a ss =
    (if \<not> credential_reference (ca_credential_reference a) then (Inl ValueError, ss)
     else
      case sw_secret w (ca_credential_reference a) of
        Inl code \<Rightarrow> (Inl (CredentialStoreError code), roll_back ss)
      | Inr secret \<Rightarrow>
         let j = \<lparr> sj_deadline = deadline, sj_limit = sw_monotonic w (ss_tick ss) + SYNC_WALL_CLOCK,
                   sj_secret = secret \<rparr>; i = sr_id run; s0 = ticked (roll_back ss) in
         andThen (github_deadline w deadline s0) (\<lambda>_ s1.
         andThen (start_run w i s1) (\<lambda>_ s2.
         andThen (github_deadline w deadline s2) (\<lambda>_ s3.
         andThen (confirm_user w j (ca_external_account_id a) s3) (\<lambda>_ s4.
         andThen (validate_repositories w j i (ca_resource_allowlist a) s4) (\<lambda>repos s5.
         andThen (github_deadline w deadline s5) (\<lambda>_ s6.
         andThen (mark_valid w i s6) (\<lambda>run s7.
         andThen (fetch_repositories w j run repos (0, False) s7) (\<lambda>(_, incomplete) s8.
           conclude w i incomplete s8)))))))))"

text \<open>Every refresh observes afresh and opens a transport of its own.\<close>

definition fresh_refresh :: "sync_session \<Rightarrow> sync_session" where
  "fresh_refresh ss = ss\<lparr>ss_cached := None, ss_attempts := 0, ss_bytes := 0, ss_observed := []\<rparr>"

definition refresh :: "sync_world \<Rightarrow> sync_run \<Rightarrow> sync_session \<Rightarrow> (sync_session, sync_run) outcome" where
  "refresh w run ss =
    (let deadline = sw_monotonic w (ss_tick ss) + SYNC_WALL_CLOCK in
     case andThen (captured_account w run (ticked (fresh_refresh ss))) (refresh_account w deadline run) of
       (Inl e, s1) \<Rightarrow> settle_refresh_failure w run e s1
     | (Inr r, s1) \<Rightarrow> (Inr r, s1))"

definition new_session :: "connector_db \<Rightarrow> sync_session" where
  "new_session s = \<lparr> ss_db = s, ss_cached = None, ss_tick = 0, ss_attempts = 0, ss_bytes = 0, ss_observed = [] \<rparr>"

text \<open>\<open>POST /connector-accounts/{id}/refresh\<close>: the claim commits before the refresh.\<close>

definition refresh_request ::
  "sync_world \<Rightarrow> uuid \<Rightarrow> int \<Rightarrow> instant \<Rightarrow> connector_db \<Rightarrow> (connector_db, sync_run) outcome" where
  "refresh_request w i expected t s =
     committed (claim_manual (sw_sha w) i expected t s) s (\<lambda>run s1.
       case refresh w run (new_session s1) of (res, ss) \<Rightarrow> (res, ss_db ss))"

end
