(* ===== verification/Connector_Scheduler.thy ===== *)
theory Connector_Scheduler
  imports Connector_Refresh
begin

text \<open>
  Scheduled refreshes (\<open>app/connectors/scheduler.py\<close>, \<open>app/repositories/connector_schedules.py\<close>) and
  their tick (\<open>run_connector_tick\<close> of \<open>app/automations/scheduler_runner.py\<close>): due schedules are
  materialized as occurrences, occurrences are leased under an owner and a generation, a leased one is
  linked to a sync run, refreshed and finalized. \<open>locked\<close> says which rows another session holds
  (\<open>SKIP LOCKED\<close>). An assignment to a locked row is flushed at once.
\<close>

section \<open>Queries\<close>

definition lock_due_schedules :: "(uuid \<Rightarrow> bool) \<Rightarrow> instant \<Rightarrow> nat \<Rightarrow> connector_db \<Rightarrow> refresh_schedule list" where
  "lock_due_schedules locked t limit s =
     take limit (filter (\<lambda>r. \<not> locked (cs_id r))
       (sort_key (\<lambda>r. (the (cs_next_occurrence_at r), cs_id r))
         (filter (\<lambda>r. cs_lifecycle r = SCHEDULE_ENABLED \<and>
             (case cs_next_occurrence_at r of None \<Rightarrow> False | Some n \<Rightarrow> n \<le> t)) (cd_schedules s))))"

definition lock_claimable :: "(uuid \<Rightarrow> bool) \<Rightarrow> instant \<Rightarrow> nat \<Rightarrow> connector_db \<Rightarrow> refresh_occurrence list" where
  "lock_claimable locked t limit s =
     take limit (filter (\<lambda>x. \<not> locked (ro_id x)) (sort_key (\<lambda>x. (ro_scheduled_at x, ro_id x))
       (filter (\<lambda>x. ro_state x = RO_DUE \<and> ro_scheduled_at x \<le> t) (cd_occurrences s))))"

definition lease_over :: "instant \<Rightarrow> refresh_occurrence \<Rightarrow> bool" where
  "lease_over t x \<longleftrightarrow> (case ro_lease_expires_at x of None \<Rightarrow> False | Some u \<Rightarrow> u \<le> t)"

definition by_lease :: "refresh_occurrence list \<Rightarrow> refresh_occurrence list" where
  "by_lease = sort_key (\<lambda>x. (the (ro_lease_expires_at x), ro_id x))"

definition lock_expired :: "(uuid \<Rightarrow> bool) \<Rightarrow> instant \<Rightarrow> nat \<Rightarrow> connector_db \<Rightarrow> refresh_occurrence list" where
  "lock_expired locked t limit s =
     take limit (filter (\<lambda>x. \<not> locked (ro_id x)) (by_lease
       (filter (\<lambda>x. ro_state x = RO_CLAIMED \<and> ro_connector_sync_run_id x = None \<and> lease_over t x)
         (cd_occurrences s))))"

definition lock_resumable :: "(uuid \<Rightarrow> bool) \<Rightarrow> instant \<Rightarrow> nat \<Rightarrow> connector_db \<Rightarrow> refresh_occurrence list" where
  "lock_resumable locked t limit s =
     take limit (filter (\<lambda>x. \<not> locked (ro_id x)) (by_lease
       (filter (\<lambda>x. ro_state x = RO_SYNC_CREATED \<and> ro_connector_sync_run_id x \<noteq> None \<and> lease_over t x)
         (cd_occurrences s))))"

section \<open>Notifications\<close>

definition insert_refresh_notification :: "refresh_notification \<Rightarrow> connector_db \<Rightarrow> (connector_db, unit) outcome" where
  "insert_refresh_notification n s =
    (if rn_event_kind n \<notin> {''occurrence_missed'', ''occurrence_succeeded'', ''occurrence_incomplete'',
          ''occurrence_failed'', ''occurrence_cancelled''} \<or>
        rn_severity n \<notin> {''info'', ''warning'', ''error''} \<or> \<not> SAFE_CODE (rn_status_code n) \<or>
        list_ex (\<lambda>x. rn_deduplication_key x = rn_deduplication_key n) (cd_notifications s)
       then (Inl IntegrityError, s)
     else (Inr (), s\<lparr>cd_next_id := Suc (cd_next_id s),
             cd_notifications := cd_notifications s @ [n\<lparr>rn_id := cd_next_id s\<rparr>]\<rparr>))"

definition notify_refresh ::
  "refresh_occurrence \<Rightarrow> string \<Rightarrow> string \<Rightarrow> string \<Rightarrow> connector_db \<Rightarrow> (connector_db, unit) outcome" where
  "notify_refresh row event severity code s =
     insert_refresh_notification
       \<lparr> rn_id = 0, rn_schedule_id = ro_schedule_id row, rn_occurrence_id = ro_id row, rn_event_kind = event,
         rn_severity = severity, rn_status_code = code,
         rn_deduplication_key = event @ '':'' @ uuid_text (ro_id row) \<rparr> s"

section \<open>Materialization\<close>

definition refresh_occurrence_key :: "uuid \<Rightarrow> int \<Rightarrow> instant \<Rightarrow> string" where
  "refresh_occurrence_key schedule revision instant =
     (let iso = iso_utc instant in
      ''connector-refresh-occurrence:v1:'' @ uuid_text schedule @ '':'' @ str_int revision @ '':'' @
      take (length iso - 6) iso @ ''Z'')"

definition trigger_identity :: "(string \<Rightarrow> string) \<Rightarrow> string \<Rightarrow> string" where
  "trigger_identity sha key = ''connector_schedule_'' @ sha (utf8 key)"

definition new_refresh ::
  "refresh_schedule \<Rightarrow> connector_account \<Rightarrow> schedule_point \<Rightarrow> refresh_state \<Rightarrow> instant \<Rightarrow> refresh_occurrence" where
  "new_refresh row a p state t =
     \<lparr> ro_id = 0, ro_schedule_id = cs_id row, ro_account_id = cs_account_id row, ro_account_revision = ca_revision a,
       ro_schedule_row_revision = cs_revision row, ro_schedule_revision = cs_schedule_revision row,
       ro_scheduled_at = sp_utc_instant p, ro_scheduled_local_date = sp_local_date p,
       ro_scheduled_local_time = sp_local_time p, ro_scheduled_utc_offset_minutes = sp_utc_offset_minutes p,
       ro_timezone_name = sp_timezone_name p,
       ro_occurrence_key = refresh_occurrence_key (cs_id row) (cs_schedule_revision row) (sp_utc_instant p),
       ro_state = state, ro_revision = 0, ro_attempt_count = 0,
       ro_safe_disposition_code = (if state = RO_MISSED then Some ''missed_skipped'' else None),
       ro_safe_error_code = None, ro_connector_sync_run_id = None, ro_lease_owner_token = None,
       ro_lease_generation = 0, ro_lease_expires_at = None, ro_last_renewed_at = None, ro_claimed_at = None,
       ro_completed_at = (if state = RO_MISSED then Some t else None) \<rparr>"

text \<open>The \<open>while\<close> loop of \<open>_latest_due\<close>: it ends because slots only move forward.\<close>

function latest_slot ::
  "(string \<Rightarrow> time_zone option) \<Rightarrow> schedule_definition \<Rightarrow> instant \<Rightarrow> schedule_point
     \<Rightarrow> exn + schedule_point \<times> schedule_point option" where
  "latest_slot zones d t latest =
    (case next_point zones d (sp_utc_instant latest) None of
       Inl e \<Rightarrow> Inl e
     | Inr None \<Rightarrow> Inr (latest, None)
     | Inr (Some following) \<Rightarrow>
        if sp_utc_instant following \<le> t then latest_slot zones d t following else Inr (latest, Some following))"
  by pat_completeness auto

termination
  by (relation "measure (\<lambda>(zones, d, t, latest). nat (t - sp_utc_instant latest))") (auto dest: slot_after)

definition latest_refresh ::
  "(string \<Rightarrow> time_zone option) \<Rightarrow> refresh_schedule \<Rightarrow> instant
     \<Rightarrow> exn + schedule_point \<times> schedule_point option \<times> bool" where
  "latest_refresh zones row t =
    (case cs_next_occurrence_at row of
       None \<Rightarrow> Inl ValueError
     | Some n \<Rightarrow>
        (case next_point zones (row_definition row) (n - 1) None of
           Inl e \<Rightarrow> Inl e
         | Inr None \<Rightarrow> Inl ValueError
         | Inr (Some p) \<Rightarrow>
            (case latest_slot zones (row_definition row) t p of
               Inl e \<Rightarrow> Inl e
             | Inr (latest, following) \<Rightarrow> Inr (latest, following, sp_utc_instant latest < t - MAX_LOOKBACK))))"

text \<open>The unique constraints on the slot, the key and the linked run.\<close>

definition insert_refresh :: "refresh_occurrence \<Rightarrow> connector_db \<Rightarrow> (connector_db, refresh_occurrence) outcome" where
  "insert_refresh x s =
    (let row = x\<lparr>ro_id := cd_next_id s\<rparr> in
     if \<not> refresh_occurrence_checks row \<or>
        list_ex (\<lambda>y. ro_schedule_id y = ro_schedule_id x \<and> ro_schedule_revision y = ro_schedule_revision x \<and>
            ro_scheduled_at y = ro_scheduled_at x \<or> ro_occurrence_key y = ro_occurrence_key x) (cd_occurrences s)
       then (Inl IntegrityError, s)
     else (Inr row, s\<lparr>cd_next_id := Suc (cd_next_id s), cd_occurrences := cd_occurrences s @ [row]\<rparr>))"

text \<open>One due schedule; a conflict leaves the schedule as it is.\<close>

definition materialize_schedule ::
  "(string \<Rightarrow> time_zone option) \<Rightarrow> instant \<Rightarrow> refresh_schedule \<Rightarrow> connector_db
     \<Rightarrow> (connector_db, refresh_occurrence list) outcome" where
  "materialize_schedule zones t row s =
    (case get_account s (cs_account_id row) of
       None \<Rightarrow> (Inr [], s)
     | Some a \<Rightarrow>
        (case latest_refresh zones row t of
           Inl e \<Rightarrow> (Inl e, s)
         | Inr (p, following, old) \<Rightarrow>
            let missed = (cs_missed_run_policy row = ''skip'');
                code = (if missed \<and> old then ''missed_lookback_bounded'' else ''missed_skipped'');
                x = (new_refresh row a p (if missed then RO_MISSED else RO_DUE) t)
                  \<lparr>ro_safe_disposition_code := (if missed then Some code else None)\<rparr> in
            (case insert_refresh x s of
               (Inl _, _) \<Rightarrow> (Inr [], s)
             | (Inr oc, s1) \<Rightarrow>
                let s2 = upd_schedule (cs_id row)
                           (\<lambda>r. r\<lparr>cs_next_occurrence_at := map_option sp_utc_instant following\<rparr>) s1 in
                andThen (if missed then notify_refresh oc ''occurrence_missed'' ''warning'' code s2 else (Inr (), s2))
                  (\<lambda>_ s3. (Inr [oc], s3)))))"

fun materialize_schedules ::
  "(string \<Rightarrow> time_zone option) \<Rightarrow> instant \<Rightarrow> refresh_schedule list \<Rightarrow> connector_db
     \<Rightarrow> (connector_db, refresh_occurrence list) outcome" where
  "materialize_schedules zones t [] s = (Inr [], s)"
| "materialize_schedules zones t (row # rows) s =
     andThen (materialize_schedule zones t row s) (\<lambda>xs s1.
     andThen (materialize_schedules zones t rows s1) (\<lambda>ys s2. (Inr (xs @ ys), s2)))"

definition materialize_refreshes ::
  "(string \<Rightarrow> time_zone option) \<Rightarrow> (uuid \<Rightarrow> bool) \<Rightarrow> instant \<Rightarrow> nat \<Rightarrow> connector_db
     \<Rightarrow> (connector_db, refresh_occurrence list) outcome" where
  "materialize_refreshes zones locked t limit s =
     materialize_schedules zones t (lock_due_schedules locked t limit s) s"

section \<open>Claims\<close>

record refresh_claim =
  rc_occurrence_id :: uuid
  rc_schedule_id :: uuid
  rc_owner_token :: uuid
  rc_lease_generation :: int

definition claim_of :: "uuid \<Rightarrow> refresh_occurrence \<Rightarrow> refresh_claim" where
  "claim_of owner x = \<lparr> rc_occurrence_id = ro_id x, rc_schedule_id = ro_schedule_id x, rc_owner_token = owner,
     rc_lease_generation = ro_lease_generation x \<rparr>"

text \<open>What the occurrence captured is still the account and the schedule of the moment.\<close>

definition refresh_authority :: "refresh_occurrence \<Rightarrow> refresh_schedule \<Rightarrow> connector_account \<Rightarrow> bool" where
  "refresh_authority x sch a \<longleftrightarrow>
     cs_lifecycle sch = SCHEDULE_ENABLED \<and> cs_schedule_revision sch = ro_schedule_revision x \<and>
     cs_revision sch = ro_schedule_row_revision x \<and>
     ca_lifecycle a = ACCOUNT_ENABLED \<and> ca_revision a = ro_account_revision x"

definition take_lease :: "uuid \<Rightarrow> instant \<Rightarrow> instant \<Rightarrow> refresh_occurrence \<Rightarrow> refresh_occurrence" where
  "take_lease owner t until x = x\<lparr>ro_lease_owner_token := Some owner, ro_lease_generation := ro_lease_generation x + 1,
     ro_lease_expires_at := Some until, ro_last_renewed_at := Some t, ro_revision := ro_revision x + 1\<rparr>"

definition take_claim :: "uuid \<Rightarrow> instant \<Rightarrow> instant \<Rightarrow> refresh_occurrence \<Rightarrow> refresh_occurrence" where
  "take_claim owner t until x = (take_lease owner t until x)
     \<lparr>ro_state := RO_CLAIMED, ro_claimed_at := Some t, ro_attempt_count := ro_attempt_count x + 1\<rparr>"

definition fence_out :: "instant \<Rightarrow> refresh_occurrence \<Rightarrow> refresh_occurrence" where
  "fence_out t x = x\<lparr>ro_state := RO_CANCELLED, ro_completed_at := Some t,
     ro_safe_disposition_code := Some ''authority_fenced''\<rparr>"

definition claim_refresh ::
  "uuid \<Rightarrow> instant \<Rightarrow> instant \<Rightarrow> refresh_occurrence \<Rightarrow> connector_db \<Rightarrow> (connector_db, refresh_claim list) outcome"
where
  "claim_refresh owner t until x s =
    (if (case (lock_schedule s (ro_schedule_id x), get_account s (ro_account_id x)) of
           (Some sch, Some a) \<Rightarrow> refresh_authority x sch a | _ \<Rightarrow> False)
     then andThen (flush_refresh (ro_id x) (take_claim owner t until) s) (\<lambda>y s1. (Inr [claim_of owner y], s1))
     else andThen (flush_refresh (ro_id x) (fence_out t) s) (\<lambda>y s1.
          andThen (notify_refresh y ''occurrence_cancelled'' ''warning'' ''authority_fenced'' s1) (\<lambda>_ s2.
            (Inr [], s2))))"

definition lease_refresh ::
  "uuid \<Rightarrow> instant \<Rightarrow> instant \<Rightarrow> refresh_occurrence \<Rightarrow> connector_db \<Rightarrow> (connector_db, refresh_claim list) outcome"
where
  "lease_refresh owner t until x s =
     andThen (flush_refresh (ro_id x) (take_lease owner t until) s) (\<lambda>y s1. (Inr [claim_of owner y], s1))"

fun each_refresh ::
  "(refresh_occurrence \<Rightarrow> connector_db \<Rightarrow> (connector_db, refresh_claim list) outcome) \<Rightarrow> refresh_occurrence list
     \<Rightarrow> connector_db \<Rightarrow> (connector_db, refresh_claim list) outcome" where
  "each_refresh f [] s = (Inr [], s)"
| "each_refresh f (x # xs) s =
     andThen (f x s) (\<lambda>cs s1. andThen (each_refresh f xs s1) (\<lambda>ds s2. (Inr (cs @ ds), s2)))"

definition claim_refreshes ::
  "(uuid \<Rightarrow> bool) \<Rightarrow> uuid \<Rightarrow> instant \<Rightarrow> int \<Rightarrow> nat \<Rightarrow> connector_db \<Rightarrow> (connector_db, refresh_claim list) outcome" where
  "claim_refreshes locked owner t lease limit s =
     each_refresh (claim_refresh owner t (t + lease)) (lock_claimable locked t limit s) s"

definition reclaim_expired_refreshes ::
  "(uuid \<Rightarrow> bool) \<Rightarrow> uuid \<Rightarrow> instant \<Rightarrow> int \<Rightarrow> nat \<Rightarrow> connector_db \<Rightarrow> (connector_db, refresh_claim list) outcome" where
  "reclaim_expired_refreshes locked owner t lease limit s =
     each_refresh (lease_refresh owner t (t + lease)) (lock_expired locked t limit s) s"

definition reclaim_linked_refreshes ::
  "(uuid \<Rightarrow> bool) \<Rightarrow> uuid \<Rightarrow> instant \<Rightarrow> int \<Rightarrow> nat \<Rightarrow> connector_db \<Rightarrow> (connector_db, refresh_claim list) outcome" where
  "reclaim_linked_refreshes locked owner t lease limit s =
     each_refresh (lease_refresh owner t (t + lease)) (lock_resumable locked t limit s) s"

text \<open>Both failures of \<open>_validated\<close> are a \<open>ValueError\<close>.\<close>

definition validated_refresh ::
  "refresh_claim \<Rightarrow> refresh_state \<Rightarrow> connector_db \<Rightarrow> exn + refresh_occurrence \<times> refresh_schedule \<times> connector_account"
where
  "validated_refresh c expected s =
    (case (lock_refresh s (rc_occurrence_id c), lock_schedule s (rc_schedule_id c)) of
       (Some x, Some sch) \<Rightarrow>
        if ro_state x \<noteq> expected \<or> ro_lease_owner_token x \<noteq> Some (rc_owner_token c) \<or>
           ro_lease_generation x \<noteq> rc_lease_generation c then Inl ValueError
        else
         (case get_account s (ro_account_id x) of
            None \<Rightarrow> Inl ValueError
          | Some a \<Rightarrow> if refresh_authority x sch a then Inr (x, sch, a) else Inl ValueError)
     | _ \<Rightarrow> Inl ValueError)"

section \<open>Linking and finalizing\<close>

definition link_refresh :: "uuid \<Rightarrow> refresh_occurrence \<Rightarrow> refresh_occurrence" where
  "link_refresh run x = x\<lparr>ro_connector_sync_run_id := Some run, ro_state := RO_SYNC_CREATED,
     ro_revision := ro_revision x + 1\<rparr>"

definition create_and_link_sync ::
  "(string \<Rightarrow> string) \<Rightarrow> refresh_claim \<Rightarrow> instant \<Rightarrow> connector_db \<Rightarrow> (connector_db, sync_run) outcome" where
  "create_and_link_sync sha c t s =
    (case validated_refresh c RO_CLAIMED s of
       Inl e \<Rightarrow> (Inl e, s)
     | Inr (x, _, a) \<Rightarrow>
        (case ro_connector_sync_run_id x of
           Some i \<Rightarrow> (case get_sync_run s i of None \<Rightarrow> (Inl ValueError, s) | Some run \<Rightarrow> (Inr run, s))
         | None \<Rightarrow>
            andThen (claim_with_trigger sha (ca_id a) (ro_account_revision x) ''scheduled''
                       (trigger_identity sha (ro_occurrence_key x)) t s) (\<lambda>run s1.
            andThen (flush_refresh (ro_id x) (link_refresh (sr_id run)) s1) (\<lambda>_ s2. (Inr run, s2)))))"

definition validate_network_fence :: "refresh_claim \<Rightarrow> connector_db \<Rightarrow> exn + sync_run" where
  "validate_network_fence c s =
    (case validated_refresh c RO_SYNC_CREATED s of
       Inl e \<Rightarrow> Inl e
     | Inr (x, _, _) \<Rightarrow>
        (case ro_connector_sync_run_id x of
           None \<Rightarrow> Inl ValueError
         | Some i \<Rightarrow> (case get_sync_run s i of None \<Rightarrow> Inl ValueError | Some run \<Rightarrow> Inr run)))"

fun refresh_result :: "sync_status \<Rightarrow> refresh_state option" where
  "refresh_result SYNC_SUCCEEDED = Some RO_SUCCEEDED"
| "refresh_result SYNC_INCOMPLETE = Some RO_INCOMPLETE"
| "refresh_result SYNC_FAILED = Some RO_FAILED"
| "refresh_result SYNC_CANCELLED = Some RO_FAILED"
| "refresh_result _ = None"

fun sync_code :: "sync_status \<Rightarrow> string" where
  "sync_code SYNC_SUCCEEDED = ''sync_succeeded''"
| "sync_code SYNC_INCOMPLETE = ''sync_incomplete''"
| "sync_code SYNC_FAILED = ''sync_failed''"
| "sync_code SYNC_CANCELLED = ''sync_cancelled''"
| "sync_code SYNC_CLAIMED = ''sync_claimed''"
| "sync_code SYNC_RUNNING = ''sync_running''"

definition finalize_row :: "sync_run \<Rightarrow> refresh_state \<Rightarrow> instant \<Rightarrow> refresh_occurrence \<Rightarrow> refresh_occurrence" where
  "finalize_row run state t x = x\<lparr>ro_state := state, ro_safe_error_code := sr_safe_error_code run,
     ro_safe_disposition_code := Some (sync_code (sr_status run)), ro_completed_at := Some t,
     ro_lease_owner_token := None, ro_lease_expires_at := None, ro_last_renewed_at := None,
     ro_revision := ro_revision x + 1\<rparr>"

definition finalize_refresh ::
  "refresh_claim \<Rightarrow> instant \<Rightarrow> connector_db \<Rightarrow> (connector_db, refresh_occurrence) outcome" where
  "finalize_refresh c t s =
    (case validated_refresh c RO_SYNC_CREATED s of
       Inl e \<Rightarrow> (Inl e, s)
     | Inr (x, _, _) \<Rightarrow>
        (case (case ro_connector_sync_run_id x of None \<Rightarrow> None | Some i \<Rightarrow> get_sync_run s i) of
           None \<Rightarrow> (Inl ValueError, s)
         | Some run \<Rightarrow>
            (case refresh_result (sr_status run) of
               None \<Rightarrow> (Inl ValueError, s)
             | Some state \<Rightarrow>
                andThen (flush_refresh (ro_id x) (finalize_row run state t) s) (\<lambda>y s1.
                andThen (notify_refresh y
                    (if state = RO_SUCCEEDED then ''occurrence_succeeded''
                     else if state = RO_INCOMPLETE then ''occurrence_incomplete'' else ''occurrence_failed'')
                    (if state = RO_SUCCEEDED then ''info''
                     else if state = RO_INCOMPLETE then ''warning'' else ''error'')
                    (sync_code (sr_status run)) s1) (\<lambda>_ s2. (Inr y, s2))))))"

section \<open>The tick\<close>

text \<open>The first transaction of one claim: whether there is work, linking a claimed occurrence.\<close>

definition link_step :: "sync_world \<Rightarrow> refresh_claim \<Rightarrow> sync_session \<Rightarrow> (sync_session, bool) outcome" where
  "link_step w c ss = transaction w (\<lambda>s.
     case lock_refresh (ss_db s) (rc_occurrence_id c) of
       None \<Rightarrow> (Inr False, s)
     | Some x \<Rightarrow>
        if ro_state x = RO_CLAIMED
        then andThen (utc_now w s) (\<lambda>t s1.
             andThen (on_rows (create_and_link_sync (sw_sha w) c t) s1) (\<lambda>_ s2. (Inr True, s2)))
        else (Inr True, s)) ss"

definition fence_step :: "sync_world \<Rightarrow> refresh_claim \<Rightarrow> sync_session \<Rightarrow> (sync_session, sync_run) outcome" where
  "fence_step w c ss = transaction w (\<lambda>s. (validate_network_fence c (ss_db s), s)) ss"

definition work_claim :: "sync_world \<Rightarrow> refresh_claim \<Rightarrow> instant \<Rightarrow> sync_session \<Rightarrow> (sync_session, bool) outcome" where
  "work_claim w c t ss =
     andThen (link_step w c ss) (\<lambda>present s1.
       if \<not> present then (Inr False, s1)
       else
        andThen (fence_step w c s1) (\<lambda>run s2.
        andThen (if sync_ended (sr_status run) then (Inr run, s2) else refresh w run s2) (\<lambda>_ s3.
        andThen (transaction w (on_rows (finalize_refresh c t)) s3) (\<lambda>_ s4. (Inr True, s4)))))"

text \<open>Completed and failed claims; any exception of one claim leaves the others.\<close>

fun work_claims :: "sync_world \<Rightarrow> refresh_claim list \<Rightarrow> instant \<Rightarrow> nat \<times> nat \<Rightarrow> sync_session \<Rightarrow> (nat \<times> nat) \<times> sync_session"
where
  "work_claims w [] t counts ss = (counts, ss)"
| "work_claims w (c # cs) t (completed, failed) ss =
    (case work_claim w c t ss of
       (Inl _, s1) \<Rightarrow> work_claims w cs t (completed, Suc failed) (roll_back s1)
     | (Inr present, s1) \<Rightarrow> work_claims w cs t (if present then Suc completed else completed, failed) s1)"

text \<open>A dictionary by occurrence: a later claim takes the place of an earlier one.\<close>

definition put_claim :: "refresh_claim list \<Rightarrow> refresh_claim \<Rightarrow> refresh_claim list" where
  "put_claim work c =
    (if rc_occurrence_id c \<in> rc_occurrence_id ` set work
     then map (\<lambda>d. if rc_occurrence_id d = rc_occurrence_id c then c else d) work else work @ [c])"

definition connector_tick ::
  "sync_world \<Rightarrow> (string \<Rightarrow> time_zone option) \<Rightarrow> uuid \<Rightarrow> instant \<Rightarrow> int \<Rightarrow> nat \<Rightarrow> sync_session
     \<Rightarrow> (sync_session, nat \<times> nat) outcome" where
  "connector_tick world zones owner t lease limit ss =
    (let w = world\<lparr>sw_caching := False\<rparr>;
         locked = (\<lambda>s. sw_locked w (ss_tick s)) in
     andThen (transaction w (\<lambda>s. on_rows (reclaim_linked_refreshes (locked s) owner t lease limit) s) ss) (\<lambda>linked s1.
     andThen (transaction w (\<lambda>s. on_rows (reclaim_expired_refreshes (locked s) owner t lease limit) s) s1) (\<lambda>reclaimed s2.
     andThen (transaction w (\<lambda>s. on_rows (materialize_refreshes zones (locked s) t limit) s) s2) (\<lambda>_ s3.
     andThen (transaction w (\<lambda>s. on_rows (claim_refreshes (locked s) owner t lease limit) s) s3) (\<lambda>claims s4.
       case work_claims w (foldl put_claim [] (linked @ reclaimed @ claims)) t (0, 0) s4 of
         (counts, s5) \<Rightarrow> (Inr counts, s5))))))"

end
