(* ===== verification/Connector_Invariants.thy ===== *)
theory Connector_Invariants
  imports Connector_Scheduler "HOL-Library.Multiset"
begin

text \<open>
  What every operation on connector rows keeps. \<open>connector_ok\<close> is the state invariant: keys, column
  constraints, the limits on active sync runs, contiguous item revisions, one occurrence per linked run.
  \<open>connector_grows\<close> relates a state to a later one: configuration changes spend a revision, items and
  captured columns are written once, generations only rise, ended occurrences stay. The locale
  \<open>connector_guarantee\<close> carries any such relation through a refresh and through a tick.
\<close>

section \<open>The state invariant\<close>

definition table_ok :: "('r \<Rightarrow> nat) \<Rightarrow> ('r \<Rightarrow> bool) \<Rightarrow> nat \<Rightarrow> 'r list \<Rightarrow> bool" where
  "table_ok key P n rows \<longleftrightarrow> distinct (map key rows) \<and> (\<forall>r \<in> set rows. key r < n \<and> P r)"

lemma table_ok_add: "table_ok key P n rows \<Longrightarrow> key r = n \<Longrightarrow> P r \<Longrightarrow> table_ok key P (Suc n) (rows @ [r])"
  by (fastforce simp: table_ok_def)

lemma table_ok_Suc: "table_ok key P n rows \<Longrightarrow> table_ok key P (Suc n) rows"
  by (fastforce simp: table_ok_def)

lemma table_ok_upd:
  assumes "table_ok key P n rows" "\<And>x. key (f x) = key x" "\<And>x. row_get key rows i = Some x \<Longrightarrow> P (f x)"
  shows "table_ok key P n (row_upd key i f rows)"
proof -
  have "P (f x)" if "x \<in> set rows" "key x = i" for x
    using assms(1,3) row_get_distinct [of key rows x] that by (auto simp: table_ok_def)
  then show ?thesis using assms(1,2) row_upd_map [of key f key i rows]
    by (auto simp: table_ok_def row_upd_set)
qed

lemma table_ok_get: "table_ok key P n rows \<Longrightarrow> row_get key rows i = Some r \<Longrightarrow> P r"
  by (auto simp: table_ok_def dest: row_get_in)

definition connector_rows_ok :: "connector_db \<Rightarrow> bool" where
  "connector_rows_ok s \<longleftrightarrow>
     table_ok ca_id account_checks (cd_next_id s) (cd_accounts s) \<and>
     table_ok sr_id sync_run_checks (cd_next_id s) (cd_sync_runs s) \<and>
     table_ok xi_id item_checks (cd_next_id s) (cd_items s) \<and>
     table_ok cs_id schedule_checks (cd_next_id s) (cd_schedules s) \<and>
     table_ok ro_id refresh_occurrence_checks (cd_next_id s) (cd_occurrences s)"

definition active_run :: "sync_run \<Rightarrow> bool" where
  "active_run r \<longleftrightarrow> sr_status r \<in> set SYNC_ACTIVE"

definition sync_slots_ok :: "connector_db \<Rightarrow> bool" where
  "sync_slots_ok s \<longleftrightarrow>
     (\<forall>r \<in> set (cd_sync_runs s). \<forall>q \<in> set (cd_sync_runs s).
        active_run r \<longrightarrow> active_run q \<longrightarrow> sr_account_id r = sr_account_id q \<longrightarrow> sr_id r = sr_id q) \<and>
     active_sync_count s \<le> GLOBAL_ACTIVE_SYNC_CAP"

text \<open>The revisions of an item identity are 1, 2, 3, \dots in the order in which they were appended.\<close>

definition revisions_ok :: "external_item list \<Rightarrow> bool" where
  "revisions_ok xs \<longleftrightarrow> (\<forall>k. let ys = filter (\<lambda>x. item_identity x = k) xs in
     map xi_application_revision ys = map int [1..<Suc (length ys)])"

definition links_ok :: "connector_db \<Rightarrow> bool" where
  "links_ok s \<longleftrightarrow>
     (\<forall>x \<in> set (cd_occurrences s). \<forall>i. ro_connector_sync_run_id x = Some i \<longrightarrow> i \<in> sr_id ` set (cd_sync_runs s)) \<and>
     (\<forall>x \<in> set (cd_occurrences s). \<forall>y \<in> set (cd_occurrences s).
        ro_connector_sync_run_id x \<noteq> None \<longrightarrow> ro_connector_sync_run_id x = ro_connector_sync_run_id y \<longrightarrow> ro_id x = ro_id y)"

text \<open>A run captured a past or the present revision of its account; at the present one the account is enabled.\<close>

definition captures_ok :: "connector_db \<Rightarrow> bool" where
  "captures_ok s \<longleftrightarrow>
     (\<forall>r \<in> set (cd_sync_runs s). \<exists>a. get_account s (sr_account_id r) = Some a \<and>
        sr_account_revision r \<le> ca_revision a \<and>
        (sr_account_revision r = ca_revision a \<longrightarrow> ca_lifecycle a = ACCOUNT_ENABLED))"

definition connector_ok :: "connector_db \<Rightarrow> bool" where
  "connector_ok s \<longleftrightarrow>
     connector_rows_ok s \<and> sync_slots_ok s \<and> revisions_ok (cd_items s) \<and> links_ok s \<and> captures_ok s"

lemma active_count: "active_sync_count s = length (filter active_run (cd_sync_runs s))"
  unfolding active_sync_count_def by (rule arg_cong [where f = length], rule filter_cong) (simp_all add: active_run_def)

lemma okD:
  assumes "connector_ok s"
  shows "connector_rows_ok s" "revisions_ok (cd_items s)" "links_ok s" "captures_ok s"
    "length (filter active_run (cd_sync_runs s)) \<le> GLOBAL_ACTIVE_SYNC_CAP"
    "\<And>r q. r \<in> set (cd_sync_runs s) \<Longrightarrow> q \<in> set (cd_sync_runs s) \<Longrightarrow> active_run r \<Longrightarrow> active_run q \<Longrightarrow>
       sr_account_id r = sr_account_id q \<Longrightarrow> sr_id r = sr_id q"
  using assms unfolding connector_ok_def sync_slots_ok_def active_count by blast+

text \<open>Each part depends on the tables it names.\<close>

lemma sync_slots_frame: "cd_sync_runs s = cd_sync_runs s' \<Longrightarrow> sync_slots_ok s = sync_slots_ok s'"
  by (simp only: sync_slots_ok_def active_sync_count_def)

lemma links_frame: "cd_sync_runs s = cd_sync_runs s' \<Longrightarrow> cd_occurrences s = cd_occurrences s' \<Longrightarrow> links_ok s = links_ok s'"
  by (simp only: links_ok_def)

lemma links_occurrencesI:
  assumes "\<And>x i. x \<in> set xs \<Longrightarrow> ro_connector_sync_run_id x = Some i \<Longrightarrow> i \<in> sr_id ` set (cd_sync_runs s)"
    and "\<And>x y i. x \<in> set xs \<Longrightarrow> y \<in> set xs \<Longrightarrow> ro_connector_sync_run_id x = Some i \<Longrightarrow>
      ro_connector_sync_run_id y = Some i \<Longrightarrow> ro_id x = ro_id y"
  shows "links_ok (s\<lparr>cd_occurrences := xs\<rparr>)"
proof -
  have eqs: "cd_occurrences (s\<lparr>cd_occurrences := xs\<rparr>) = xs" "cd_sync_runs (s\<lparr>cd_occurrences := xs\<rparr>) = cd_sync_runs s"
    by simp_all
  show ?thesis unfolding links_ok_def eqs
    by (intro conjI ballI allI impI) (use assms in \<open>blast, metis option.collapse\<close>)
qed

lemma links_more_runs:
  assumes "links_ok s" "cd_occurrences s' = cd_occurrences s" "sr_id ` set (cd_sync_runs s) \<subseteq> sr_id ` set (cd_sync_runs s')"
  shows "links_ok s'"
  using assms(1,3) unfolding links_ok_def assms(2) by blast

lemma captures_frame: "cd_sync_runs s = cd_sync_runs s' \<Longrightarrow> cd_accounts s = cd_accounts s' \<Longrightarrow> captures_ok s = captures_ok s'"
  by (simp only: captures_ok_def get_account_def)

lemma ok_frames [simp]:
  "sync_slots_ok (s\<lparr>cd_accounts := xs\<rparr>) = sync_slots_ok s" "links_ok (s\<lparr>cd_accounts := xs\<rparr>) = links_ok s"
  "sync_slots_ok (s\<lparr>cd_items := ys\<rparr>) = sync_slots_ok s" "links_ok (s\<lparr>cd_items := ys\<rparr>) = links_ok s"
  "sync_slots_ok (s\<lparr>cd_schedules := zs\<rparr>) = sync_slots_ok s" "links_ok (s\<lparr>cd_schedules := zs\<rparr>) = links_ok s"
  "sync_slots_ok (s\<lparr>cd_occurrences := os\<rparr>) = sync_slots_ok s"
  "sync_slots_ok (s\<lparr>cd_notifications := ns\<rparr>) = sync_slots_ok s"
  "links_ok (s\<lparr>cd_notifications := ns\<rparr>) = links_ok s"
  "sync_slots_ok (s\<lparr>cd_next_id := n\<rparr>) = sync_slots_ok s" "links_ok (s\<lparr>cd_next_id := n\<rparr>) = links_ok s"
  "captures_ok (s\<lparr>cd_items := ys\<rparr>) = captures_ok s" "captures_ok (s\<lparr>cd_schedules := zs\<rparr>) = captures_ok s"
  "captures_ok (s\<lparr>cd_occurrences := os\<rparr>) = captures_ok s"
  "captures_ok (s\<lparr>cd_notifications := ns\<rparr>) = captures_ok s" "captures_ok (s\<lparr>cd_next_id := n\<rparr>) = captures_ok s"
  by (rule sync_slots_frame links_frame captures_frame; simp)+

section \<open>Growth\<close>

definition account_grows :: "connector_account \<Rightarrow> connector_account \<Rightarrow> bool" where
  "account_grows a b \<longleftrightarrow>
     ca_provider b = ca_provider a \<and> ca_external_account_id b = ca_external_account_id a \<and>
     ca_external_account_fingerprint b = ca_external_account_fingerprint a \<and>
     ca_credential_reference b = ca_credential_reference a \<and>
     ca_granted_scope_fingerprint b = ca_granted_scope_fingerprint a \<and>
     ca_revision a \<le> ca_revision b \<and>
     (ca_revision a = ca_revision b \<longrightarrow> ca_lifecycle b = ca_lifecycle a \<and> ca_project_id b = ca_project_id a \<and>
        ca_resource_allowlist b = ca_resource_allowlist a) \<and>
     (ca_lifecycle a = ACCOUNT_REVOKED \<longrightarrow> ca_lifecycle b = ACCOUNT_REVOKED)"

definition sync_captured :: "sync_run \<Rightarrow> uuid \<times> string \<times> string \<times> int \<times> uuid option \<times> string \<times> string \<times> instant" where
  "sync_captured r = (sr_account_id r, sr_provider r, sr_external_account_id r, sr_account_revision r,
     sr_project_id r, sr_trigger_kind r, sr_trigger_identity r, sr_created_at r)"

definition sync_grows :: "sync_run \<Rightarrow> sync_run \<Rightarrow> bool" where
  "sync_grows r q \<longleftrightarrow> sync_captured q = sync_captured r \<and> (\<not> active_run r \<longrightarrow> \<not> active_run q)"

definition item_content ::
  "external_item \<Rightarrow> uuid \<times> (uuid \<times> string \<times> string) \<times> string \<times> string \<times> string \<times> string \<times> string \<times> int \<times> uuid option \<times> instant"
where
  "item_content x = (xi_id x, item_identity x, xi_resource_type x, xi_provider_source_version x, xi_title x,
     xi_body x, xi_content_hash x, xi_application_revision x, xi_project_id x, xi_first_seen_at x)"

definition schedule_grows :: "refresh_schedule \<Rightarrow> refresh_schedule \<Rightarrow> bool" where
  "schedule_grows r q \<longleftrightarrow>
     cs_account_id q = cs_account_id r \<and> cs_revision r \<le> cs_revision q \<and>
     cs_schedule_revision r \<le> cs_schedule_revision q \<and>
     (cs_revision r = cs_revision q \<longrightarrow> cs_lifecycle q = cs_lifecycle r \<and> row_definition q = row_definition r \<and>
        cs_missed_run_policy q = cs_missed_run_policy r) \<and>
     (cs_lifecycle r = SCHEDULE_CANCELLED \<longrightarrow> cs_lifecycle q = SCHEDULE_CANCELLED)"

definition refresh_captured :: "refresh_occurrence \<Rightarrow> uuid \<times> uuid \<times> int \<times> int \<times> int \<times> instant \<times> string" where
  "refresh_captured x = (ro_schedule_id x, ro_account_id x, ro_account_revision x, ro_schedule_row_revision x,
     ro_schedule_revision x, ro_scheduled_at x, ro_occurrence_key x)"

definition refresh_grows :: "refresh_occurrence \<Rightarrow> refresh_occurrence \<Rightarrow> bool" where
  "refresh_grows x y \<longleftrightarrow>
     refresh_captured y = refresh_captured x \<and> ro_lease_generation x \<le> ro_lease_generation y \<and>
     (ro_connector_sync_run_id x \<noteq> None \<longrightarrow> ro_connector_sync_run_id y = ro_connector_sync_run_id x) \<and>
     (refresh_ended (ro_state x) \<longrightarrow> y = x)"

definition rows_grow :: "('r \<Rightarrow> nat) \<Rightarrow> ('r \<Rightarrow> 'r \<Rightarrow> bool) \<Rightarrow> 'r list \<Rightarrow> 'r list \<Rightarrow> bool" where
  "rows_grow key G xs ys \<longleftrightarrow> (\<forall>i x. row_get key xs i = Some x \<longrightarrow> (\<exists>y. row_get key ys i = Some y \<and> G x y))"

definition items_grow :: "external_item list \<Rightarrow> external_item list \<Rightarrow> bool" where
  "items_grow xs ys \<longleftrightarrow> (\<exists>zs. map item_content ys = map item_content xs @ zs)"

definition connector_grows :: "connector_db \<Rightarrow> connector_db \<Rightarrow> bool" where
  "connector_grows s s' \<longleftrightarrow>
     rows_grow ca_id account_grows (cd_accounts s) (cd_accounts s') \<and>
     rows_grow sr_id sync_grows (cd_sync_runs s) (cd_sync_runs s') \<and>
     items_grow (cd_items s) (cd_items s') \<and>
     rows_grow cs_id schedule_grows (cd_schedules s) (cd_schedules s') \<and>
     rows_grow ro_id refresh_grows (cd_occurrences s) (cd_occurrences s')"

lemma rows_grow_refl: "(\<And>x. G x x) \<Longrightarrow> rows_grow key G xs xs"
  by (simp add: rows_grow_def)

lemma rows_grow_trans:
  "transp G \<Longrightarrow> rows_grow key G xs ys \<Longrightarrow> rows_grow key G ys zs \<Longrightarrow> rows_grow key G xs zs"
  unfolding rows_grow_def transp_def by metis

lemma rows_grow_add: "(\<And>x. G x x) \<Longrightarrow> rows_grow key G xs (xs @ ys)"
  by (auto simp: rows_grow_def row_get_append split: option.splits)

lemma rows_grow_upd:
  assumes "\<And>x. G x x" "\<And>x. key (f x) = key x" "\<And>x. row_get key xs i = Some x \<Longrightarrow> G x (f x)"
  shows "rows_grow key G xs (row_upd key i f xs)"
  using assms by (auto simp: rows_grow_def row_get_upd)

lemma grow_refls [simp]: "account_grows a a" "sync_grows r r" "schedule_grows c c" "refresh_grows x x" "items_grow xs xs"
  by (simp_all add: account_grows_def sync_grows_def schedule_grows_def refresh_grows_def items_grow_def)

lemma grow_transp: "transp account_grows" "transp sync_grows" "transp schedule_grows" "transp refresh_grows"
  by (auto simp: transp_def account_grows_def sync_grows_def schedule_grows_def refresh_grows_def)

lemma items_grow_trans: "items_grow a b \<Longrightarrow> items_grow b c \<Longrightarrow> items_grow a c"
  by (auto simp: items_grow_def)

lemma connector_grows_refl: "connector_grows s s"
  by (simp add: connector_grows_def rows_grow_refl)

lemma connector_grows_trans: "connector_grows s t \<Longrightarrow> connector_grows t u \<Longrightarrow> connector_grows s u"
  unfolding connector_grows_def
  by (elim conjE, intro conjI)
     (blast intro: rows_grow_trans grow_transp items_grow_trans)+

definition connector_kept :: "connector_db \<Rightarrow> connector_db \<Rightarrow> bool" where
  "connector_kept s s' \<longleftrightarrow> (connector_ok s \<longrightarrow> connector_ok s' \<and> connector_grows s s')"

lemma connector_kept_refl: "connector_kept s s"
  by (simp add: connector_kept_def connector_grows_refl)

lemma connector_kept_trans: "connector_kept s t \<Longrightarrow> connector_kept t u \<Longrightarrow> connector_kept s u"
  by (auto simp: connector_kept_def intro: connector_grows_trans)

section \<open>Single writes\<close>

lemma flush_account_Inr:
  "flush_account i f s = (Inr a, s') \<Longrightarrow> (\<And>x. ca_id (f x) = ca_id x) \<Longrightarrow>
   \<exists>x. get_account s i = Some x \<and> a = f x \<and> account_checks (f x) \<and> s' = upd_account i f s"
  by (auto simp: flush_account_def get_account_def upd_account_def row_get_upd split: option.splits if_splits)

lemma flush_sync_run_Inr:
  "flush_sync_run i f s = (Inr a, s') \<Longrightarrow> (\<And>x. sr_id (f x) = sr_id x) \<Longrightarrow>
   \<exists>x. get_sync_run s i = Some x \<and> a = f x \<and> sync_run_checks (f x) \<and> s' = upd_sync_run i f s"
  by (auto simp: flush_sync_run_def get_sync_run_def upd_sync_run_def row_get_upd split: option.splits if_splits)

lemma flush_schedule_Inr:
  "flush_schedule i f s = (Inr a, s') \<Longrightarrow> (\<And>x. cs_id (f x) = cs_id x) \<Longrightarrow>
   \<exists>x. lock_schedule s i = Some x \<and> a = f x \<and> schedule_checks (f x) \<and> s' = upd_schedule i f s"
  by (auto simp: flush_schedule_def lock_schedule_def upd_schedule_def row_get_upd split: option.splits if_splits)

lemma flush_refresh_Inr:
  "flush_refresh i f s = (Inr a, s') \<Longrightarrow> (\<And>x. ro_id (f x) = ro_id x) \<Longrightarrow>
   \<exists>x. lock_refresh s i = Some x \<and> a = f x \<and> refresh_occurrence_checks (f x) \<and> s' = upd_refresh i f s"
  by (auto simp: flush_refresh_def lock_refresh_def upd_refresh_def row_get_upd split: option.splits if_splits)

text \<open>An account changes its configuration only together with its revision.\<close>

lemma kept_accounts:
  assumes table: "connector_ok s \<Longrightarrow> table_ok ca_id account_checks (cd_next_id s) xs"
    and grows: "rows_grow ca_id account_grows (cd_accounts s) xs"
  shows "connector_kept s (s\<lparr>cd_accounts := xs\<rparr>)"
  unfolding connector_kept_def
proof (intro impI conjI)
  assume ok: "connector_ok s"
  have "captures_ok (s\<lparr>cd_accounts := xs\<rparr>)" unfolding captures_ok_def
  proof (intro ballI)
    fix r assume "r \<in> set (cd_sync_runs (s\<lparr>cd_accounts := xs\<rparr>))"
    then obtain a where a: "row_get ca_id (cd_accounts s) (sr_account_id r) = Some a"
      "sr_account_revision r \<le> ca_revision a" "sr_account_revision r = ca_revision a \<longrightarrow> ca_lifecycle a = ACCOUNT_ENABLED"
      using okD(4) [OF ok] by (auto simp: captures_ok_def get_account_def)
    then obtain b where "row_get ca_id xs (sr_account_id r) = Some b" "account_grows a b"
      using grows unfolding rows_grow_def by blast
    then show "\<exists>b. get_account (s\<lparr>cd_accounts := xs\<rparr>) (sr_account_id r) = Some b \<and>
        sr_account_revision r \<le> ca_revision b \<and> (sr_account_revision r = ca_revision b \<longrightarrow> ca_lifecycle b = ACCOUNT_ENABLED)"
      using a(2,3) by (auto simp: get_account_def account_grows_def)
  qed
  with ok table [OF ok] show "connector_ok (s\<lparr>cd_accounts := xs\<rparr>)"
    by (simp add: connector_ok_def connector_rows_ok_def)
  show "connector_grows s (s\<lparr>cd_accounts := xs\<rparr>)"
    using grows by (simp add: connector_grows_def rows_grow_refl)
qed

lemma flush_account_kept:
  assumes flush: "flush_account i f s = (Inr a, s')" and id: "\<And>x. ca_id (f x) = ca_id x"
    and grows: "\<And>x. get_account s i = Some x \<Longrightarrow> account_grows x (f x)"
  shows "connector_kept s s'"
proof -
  obtain x where x: "get_account s i = Some x" "account_checks (f x)" "s' = upd_account i f s"
    using flush_account_Inr [OF flush id] by blast
  show ?thesis unfolding x(3) upd_account_def
  proof (rule kept_accounts)
    show "table_ok ca_id account_checks (cd_next_id s) (row_upd ca_id i f (cd_accounts s))" if "connector_ok s"
      using that x(1,2) id
      by (intro table_ok_upd) (simp_all add: connector_ok_def connector_rows_ok_def get_account_def)
    show "rows_grow ca_id account_grows (cd_accounts s) (row_upd ca_id i f (cd_accounts s))"
      using grows id by (intro rows_grow_upd) (simp_all add: get_account_def)
  qed
qed

text \<open>A write to a sync run keeps what it captured and never makes it active again.\<close>

lemma flush_sync_run_kept:
  assumes flush: "flush_sync_run i f s = (Inr a, s')" and id: "\<And>x. sr_id (f x) = sr_id x"
    and grows: "\<And>x. get_sync_run s i = Some x \<Longrightarrow> sync_run_checks (f x) \<Longrightarrow> sync_grows x (f x)"
  shows "connector_kept s s'"
proof -
  let ?xs = "row_upd sr_id i f (cd_sync_runs s)"
  obtain x where x: "get_sync_run s i = Some x" "sync_run_checks (f x)" "s' = s\<lparr>cd_sync_runs := ?xs\<rparr>"
    using flush_sync_run_Inr [OF flush id] by (auto simp: upd_sync_run_def)
  show ?thesis unfolding connector_kept_def x(3)
  proof (intro impI conjI)
    assume ok: "connector_ok s"
    then have table: "table_ok sr_id sync_run_checks (cd_next_id s) (cd_sync_runs s)"
      by (simp add: connector_ok_def connector_rows_ok_def)
    have new: "table_ok sr_id sync_run_checks (cd_next_id s) ?xs"
      using table x(1,2) id by (intro table_ok_upd) (simp_all add: get_sync_run_def)
    have step: "sync_grows y (f y)" if "y \<in> set (cd_sync_runs s)" "sr_id y = i" for y
      using that table grows [OF x(1) x(2)] row_get_distinct [of sr_id "cd_sync_runs s" y] x(1)
      by (simp add: table_ok_def get_sync_run_def)
    have older: "\<exists>y \<in> set (cd_sync_runs s). sr_id y = sr_id r \<and> sync_captured y = sync_captured r \<and>
        (active_run r \<longrightarrow> active_run y)" if "r \<in> set ?xs" for r
      using that step id by (simp add: row_upd_set sync_grows_def) metis
    have "sync_slots_ok (s\<lparr>cd_sync_runs := ?xs\<rparr>)" unfolding sync_slots_ok_def
    proof (intro conjI ballI impI)
      fix r q assume "r \<in> set (cd_sync_runs (s\<lparr>cd_sync_runs := ?xs\<rparr>))" "q \<in> set (cd_sync_runs (s\<lparr>cd_sync_runs := ?xs\<rparr>))"
        and act: "active_run r" "active_run q" "sr_account_id r = sr_account_id q"
      then obtain y z where "y \<in> set (cd_sync_runs s)" "z \<in> set (cd_sync_runs s)" "sr_id y = sr_id r" "sr_id z = sr_id q"
        "sync_captured y = sync_captured r" "sync_captured z = sync_captured q" "active_run y" "active_run z"
        using older [of r] older [of q] by auto
      then show "sr_id r = sr_id q"
        using okD(6) [OF ok, of y z] act by (simp add: sync_captured_def)
    next
      have "length (filter active_run ?xs) \<le> length (filter active_run (cd_sync_runs s))"
        by (rule row_upd_filter_length_mono) (use step in \<open>auto simp: sync_grows_def\<close>)
      then show "active_sync_count (s\<lparr>cd_sync_runs := ?xs\<rparr>) \<le> GLOBAL_ACTIVE_SYNC_CAP"
        using okD(5) [OF ok] by (simp add: active_count)
    qed
    moreover have "captures_ok (s\<lparr>cd_sync_runs := ?xs\<rparr>)" unfolding captures_ok_def
    proof (intro ballI)
      fix r assume "r \<in> set (cd_sync_runs (s\<lparr>cd_sync_runs := ?xs\<rparr>))"
      then obtain y where "y \<in> set (cd_sync_runs s)" "sync_captured y = sync_captured r" using older [of r] by auto
      then show "\<exists>a. get_account (s\<lparr>cd_sync_runs := ?xs\<rparr>) (sr_account_id r) = Some a \<and>
          sr_account_revision r \<le> ca_revision a \<and> (sr_account_revision r = ca_revision a \<longrightarrow> ca_lifecycle a = ACCOUNT_ENABLED)"
        using okD(4) [OF ok] by (auto simp: captures_ok_def get_account_def sync_captured_def)
    qed
    moreover have "links_ok (s\<lparr>cd_sync_runs := ?xs\<rparr>)"
    proof (rule links_more_runs)
      show "links_ok s" using ok by (simp add: connector_ok_def)
      show "sr_id ` set (cd_sync_runs s) \<subseteq> sr_id ` set (cd_sync_runs (s\<lparr>cd_sync_runs := ?xs\<rparr>))"
        using arg_cong [OF row_upd_map [of sr_id f sr_id i "cd_sync_runs s", OF id], of set] by simp
    qed simp
    ultimately show "connector_ok (s\<lparr>cd_sync_runs := ?xs\<rparr>)"
      using ok new by (simp add: connector_ok_def connector_rows_ok_def)
    show "connector_grows s (s\<lparr>cd_sync_runs := ?xs\<rparr>)"
      using grows x(1,2) id
      by (auto simp: connector_grows_def rows_grow_refl get_sync_run_def intro!: rows_grow_upd)
  qed
qed

lemma flush_schedule_kept:
  assumes flush: "flush_schedule i f s = (Inr a, s')" and id: "\<And>x. cs_id (f x) = cs_id x"
    and grows: "\<And>x. lock_schedule s i = Some x \<Longrightarrow> schedule_grows x (f x)"
  shows "connector_kept s s'"
proof -
  let ?xs = "row_upd cs_id i f (cd_schedules s)"
  obtain x where x: "lock_schedule s i = Some x" "schedule_checks (f x)" "s' = s\<lparr>cd_schedules := ?xs\<rparr>"
    using flush_schedule_Inr [OF flush id] by (auto simp: upd_schedule_def)
  have "table_ok cs_id schedule_checks (cd_next_id s) ?xs" if "connector_ok s"
    using okD(1) [OF that] x(1,2) id
    by (intro table_ok_upd) (simp_all add: connector_rows_ok_def lock_schedule_def)
  moreover have "rows_grow cs_id schedule_grows (cd_schedules s) ?xs"
    using grows id by (intro rows_grow_upd) (simp_all add: lock_schedule_def)
  ultimately show ?thesis
    by (simp add: connector_kept_def connector_ok_def connector_rows_ok_def connector_grows_def rows_grow_refl x(3))
qed

text \<open>A write to an occurrence keeps its link, or links a run that no occurrence has.\<close>

lemma flush_refresh_kept:
  assumes flush: "flush_refresh i f s = (Inr a, s')" and id: "\<And>x. ro_id (f x) = ro_id x"
    and grows: "\<And>x. lock_refresh s i = Some x \<Longrightarrow> refresh_grows x (f x)"
    and linked: "\<And>x. lock_refresh s i = Some x \<Longrightarrow> ro_connector_sync_run_id (f x) = ro_connector_sync_run_id x \<or>
      (\<exists>r. ro_connector_sync_run_id (f x) = Some r \<and> r \<in> sr_id ` set (cd_sync_runs s) \<and>
         (\<forall>y \<in> set (cd_occurrences s). ro_connector_sync_run_id y \<noteq> Some r))"
  shows "connector_kept s s'"
proof -
  let ?xs = "row_upd ro_id i f (cd_occurrences s)"
  obtain x where x: "lock_refresh s i = Some x" "refresh_occurrence_checks (f x)" "s' = s\<lparr>cd_occurrences := ?xs\<rparr>"
    using flush_refresh_Inr [OF flush id] by (auto simp: upd_refresh_def)
  have table: "table_ok ro_id refresh_occurrence_checks (cd_next_id s) ?xs" if "connector_ok s"
    using okD(1) [OF that] x(1,2) id
    by (intro table_ok_upd) (simp_all add: connector_rows_ok_def lock_refresh_def)
  have "rows_grow ro_id refresh_grows (cd_occurrences s) ?xs"
    using grows id by (intro rows_grow_upd) (simp_all add: lock_refresh_def)
  moreover have "links_ok (s\<lparr>cd_occurrences := ?xs\<rparr>)" if ok: "connector_ok s"
  proof -
    have rows: "distinct (map ro_id (cd_occurrences s))"
      using okD(1) [OF ok] by (simp add: connector_rows_ok_def table_ok_def)
    have only: "y = x" if "y \<in> set (cd_occurrences s)" "ro_id y = i" for y
      using row_get_distinct [OF rows that(1)] that(2) x(1) by (simp add: lock_refresh_def)
    have xi: "ro_id x = i" "x \<in> set (cd_occurrences s)" using row_get_Some_iff [OF x(1) [unfolded lock_refresh_def]] by simp_all
    have mem: "z \<in> set ?xs \<Longrightarrow> z = f x \<or> z \<in> set (cd_occurrences s) \<and> ro_id z \<noteq> i" for z
      using only by (auto simp: row_upd_set)
    have fid: "ro_id (f x) = i" using id xi(1) by simp
    have uniq: "ro_id y = ro_id z" if "y \<in> set (cd_occurrences s)" "z \<in> set (cd_occurrences s)"
        "ro_connector_sync_run_id y = Some j" "ro_connector_sync_run_id z = Some j" for y z j
      using okD(3) [OF ok] that unfolding links_ok_def by (metis option.distinct(1))
    have known: "j \<in> sr_id ` set (cd_sync_runs s)"
      if "y \<in> set (cd_occurrences s)" "ro_connector_sync_run_id y = Some j" for y j
      using okD(3) [OF ok] that unfolding links_ok_def by blast
    show ?thesis using linked [OF x(1)]
    proof (elim disjE exE conjE)
      assume same: "ro_connector_sync_run_id (f x) = ro_connector_sync_run_id x"
      have before: "\<exists>z0 \<in> set (cd_occurrences s). ro_id z0 = ro_id z \<and>
          ro_connector_sync_run_id z0 = ro_connector_sync_run_id z" if "z \<in> set ?xs" for z
        using mem [OF that] same xi fid by auto
      show ?thesis
      proof (rule links_occurrencesI)
        fix y j assume "y \<in> set ?xs" "ro_connector_sync_run_id y = Some j"
        then show "j \<in> sr_id ` set (cd_sync_runs s)" using before [of y] known by metis
      next
        fix y z j assume "y \<in> set ?xs" "z \<in> set ?xs" "ro_connector_sync_run_id y = Some j"
          "ro_connector_sync_run_id z = Some j"
        then show "ro_id y = ro_id z" using before [of y] before [of z] uniq by metis
      qed
    next
      fix r assume r: "ro_connector_sync_run_id (f x) = Some r" "r \<in> sr_id ` set (cd_sync_runs s)"
        "\<forall>y \<in> set (cd_occurrences s). ro_connector_sync_run_id y \<noteq> Some r"
      show ?thesis
      proof (rule links_occurrencesI)
        fix y j assume "y \<in> set ?xs" "ro_connector_sync_run_id y = Some j"
        then show "j \<in> sr_id ` set (cd_sync_runs s)" using mem [of y] known r by auto
      next
        fix y z j assume "y \<in> set ?xs" "z \<in> set ?xs" "ro_connector_sync_run_id y = Some j"
          "ro_connector_sync_run_id z = Some j"
        then show "ro_id y = ro_id z" using mem [of y] mem [of z] uniq [of y z j] r by auto
      qed
    qed
  qed
  ultimately show ?thesis using table
    by (simp add: connector_kept_def connector_ok_def connector_rows_ok_def connector_grows_def rows_grow_refl x(3))
qed

lemma notification_kept: "insert_refresh_notification n s = (Inr a, s') \<Longrightarrow> connector_kept s s'"
  by (auto simp: insert_refresh_notification_def connector_kept_def connector_ok_def connector_rows_ok_def
      connector_grows_def rows_grow_refl table_ok_Suc split: if_splits)

lemma notify_refresh_kept: "notify_refresh x e sv c s = (Inr a, s') \<Longrightarrow> connector_kept s s'"
  unfolding notify_refresh_def by (rule notification_kept)

section \<open>Insertions\<close>

lemma next_id_kept: "connector_kept s (s\<lparr>cd_next_id := Suc (cd_next_id s)\<rparr>)"
  by (simp add: connector_kept_def connector_ok_def connector_rows_ok_def connector_grows_def rows_grow_refl table_ok_Suc)

lemma keptI: "(connector_ok s \<Longrightarrow> connector_kept s s') \<Longrightarrow> connector_kept s s'"
  by (auto simp: connector_kept_def)

lemma insert_account_kept:
  assumes "insert_account a s = (Inr b, s')"
  shows "connector_kept s s'"
proof (rule keptI)
  assume ok: "connector_ok s"
  have b: "ca_id b = cd_next_id s" "account_checks b"
    and s': "s' = (s\<lparr>cd_next_id := Suc (cd_next_id s)\<rparr>)\<lparr>cd_accounts := cd_accounts s @ [b]\<rparr>"
    using assms by (auto simp: insert_account_def Let_def split: if_splits)
  have "table_ok ca_id account_checks (Suc (cd_next_id s)) (cd_accounts s @ [b])"
    using okD(1) [OF ok] b by (auto simp: connector_rows_ok_def intro: table_ok_add)
  then show "connector_kept s s'" unfolding s'
    by (intro connector_kept_trans [OF next_id_kept kept_accounts]) (simp_all add: rows_grow_add)
qed

lemma create_account_kept: "create_account sha identity credential scope names t s = (Inr a, s') \<Longrightarrow> connector_kept s s'"
  by (auto simp: create_account_def split: sum.splits dest: insert_account_kept)

lemma account_get_grows:
  "connector_grows s s' \<Longrightarrow> get_account s i = Some a \<Longrightarrow> \<exists>b. get_account s' i = Some b \<and> account_grows a b"
  by (auto simp: connector_grows_def rows_grow_def get_account_def)

text \<open>A claim takes a free slot: none is active for the account, and fewer than four are in all.\<close>

lemma claim_with_trigger_Inr:
  assumes "claim_with_trigger sha i expected kind trigger t s = (Inr r, s')"
  obtains a where "get_account s i = Some a" "ca_revision a = expected" "ca_lifecycle a = ACCOUNT_ENABLED"
    "\<not> has_active_sync_run s (ca_id a)" "active_sync_count s < GLOBAL_ACTIVE_SYNC_CAP"
    "r = (new_sync_run a kind trigger t)\<lparr>sr_id := cd_next_id s\<rparr>" "sync_run_checks r"
    "s' = s\<lparr>cd_next_id := Suc (cd_next_id s), cd_sync_runs := cd_sync_runs s @ [r]\<rparr>"
proof -
  from assms obtain a where a: "get_account s i = Some a" by (auto simp: claim_with_trigger_def split: option.splits)
  have open_slot: "ca_revision a = expected" "ca_lifecycle a = ACCOUNT_ENABLED" "\<not> has_active_sync_run s (ca_id a)"
    "active_sync_count s < GLOBAL_ACTIVE_SYNC_CAP"
    using assms a by (auto simp: claim_with_trigger_def split: if_splits)
  have "create_sync_run (new_sync_run a kind trigger t) s = (Inr r, s')"
    using assms a open_slot
    by (cases "create_sync_run (new_sync_run a kind trigger t) s")
       (auto simp: claim_with_trigger_def split: if_splits sum.splits exn.splits)
  then have "r = (new_sync_run a kind trigger t)\<lparr>sr_id := cd_next_id s\<rparr>" "sync_run_checks r"
    "s' = s\<lparr>cd_next_id := Suc (cd_next_id s), cd_sync_runs := cd_sync_runs s @ [r]\<rparr>"
    by (auto simp: create_sync_run_def Let_def split: if_splits option.splits)
  with a open_slot that show ?thesis by blast
qed

lemma claim_with_trigger_kept:
  assumes "claim_with_trigger sha i expected kind trigger t s = (Inr r, s')"
  shows "connector_kept s s'"
proof -
  from claim_with_trigger_Inr [OF assms] obtain a where a: "get_account s i = Some a" "ca_lifecycle a = ACCOUNT_ENABLED"
    "\<not> has_active_sync_run s (ca_id a)" "active_sync_count s < GLOBAL_ACTIVE_SYNC_CAP"
    "r = (new_sync_run a kind trigger t)\<lparr>sr_id := cd_next_id s\<rparr>" "sync_run_checks r"
    and s': "s' = s\<lparr>cd_next_id := Suc (cd_next_id s), cd_sync_runs := cd_sync_runs s @ [r]\<rparr>" by metis
  have r: "sr_account_id r = ca_id a" "sr_id r = cd_next_id s" "sr_account_revision r = ca_revision a" "ca_id a = i"
    using a(1,5) row_get_key by (auto simp: new_sync_run_def get_account_def)
  have free: "\<not> active_run q" if "q \<in> set (cd_sync_runs s)" "sr_account_id q = sr_account_id r" for q
    using a(3) that r by (auto simp: has_active_sync_run_def active_run_def list_ex_iff)
  have runs: "cd_sync_runs s' = cd_sync_runs s @ [r]" by (simp add: s')
  show ?thesis unfolding connector_kept_def
  proof (intro impI conjI)
    assume ok: "connector_ok s"
    have "sync_slots_ok s'" unfolding sync_slots_ok_def active_count runs
    proof (intro conjI ballI impI)
      fix p q assume "p \<in> set (cd_sync_runs s @ [r])" "q \<in> set (cd_sync_runs s @ [r])" "active_run p" "active_run q"
        "sr_account_id p = sr_account_id q"
      then show "sr_id p = sr_id q" using okD(6) [OF ok, of p q] free [of p] free [of q] by auto
    next
      show "length (filter active_run (cd_sync_runs s @ [r])) \<le> GLOBAL_ACTIVE_SYNC_CAP"
        using a(4) by (simp add: active_count)
    qed
    moreover have "captures_ok s'"
      using okD(4) [OF ok] a(1,2) r by (auto simp: captures_ok_def get_account_def s')
    moreover have "links_ok s'"
      by (rule links_more_runs [OF okD(3) [OF ok]]) (auto simp: s')
    moreover have "connector_rows_ok s'"
      using okD(1) [OF ok] a(6) r by (auto simp: connector_rows_ok_def s' intro: table_ok_Suc table_ok_add)
    ultimately show "connector_ok s'" using okD(2) [OF ok] by (simp add: connector_ok_def s')
    show "connector_grows s s'" by (simp add: connector_grows_def rows_grow_refl rows_grow_add s')
  qed
qed

section \<open>Items\<close>

lemma map_sort_key: "map f (sort_key f xs) = sort (map f xs)"
  by (rule sym, rule properties_for_sort) simp_all

lemma revisions_content:
  assumes "map item_content ys = map item_content xs" and "revisions_ok xs"
  shows "revisions_ok ys"
proof -
  have "map xi_application_revision (filter (\<lambda>x. item_identity x = k) ys) =
    map xi_application_revision (filter (\<lambda>x. item_identity x = k) xs)" for k
    using assms(1) by (induction ys xs rule: list_induct2') (auto simp: item_content_def)
  moreover have "length (filter (\<lambda>x. item_identity x = k) ys) = length (filter (\<lambda>x. item_identity x = k) xs)" for k
    using arg_cong [OF calculation [of k], of length] by simp
  ultimately show ?thesis using assms(2) by (simp add: revisions_ok_def Let_def)
qed

lemma last_option: "(case rev xs of [] \<Rightarrow> None | x # _ \<Rightarrow> Some x) = (if xs = [] then None else Some (last xs))"
  by (cases xs rule: rev_cases) auto

lemma latest_of_revisions:
  assumes "map xi_application_revision (filter P xs) = map int [1..<Suc n]"
  shows "latest_revision P xs = None \<longleftrightarrow> n = 0"
    and "latest_revision P xs = Some y \<Longrightarrow> xi_application_revision y = int n \<and> y \<in> set xs \<and> P y"
proof -
  let ?ys = "sort_key xi_application_revision (filter P xs)"
  have len: "length (filter P xs) = n" using arg_cong [OF assms, of length] by (simp del: upt_Suc)
  have revs: "map xi_application_revision ?ys = map int [1..<Suc n]"
    unfolding map_sort_key assms by (rule sorted_sort_id) (simp add: sorted_map del: upt_Suc)
  have "latest_revision P xs = None \<longleftrightarrow> length ?ys = 0"
    unfolding latest_revision_def last_option length_0_conv by simp
  then show "latest_revision P xs = None \<longleftrightarrow> n = 0" using len by (simp only: length_sort)
  assume y: "latest_revision P xs = Some y"
  then obtain zs where zs: "?ys = zs @ [y]"
    unfolding latest_revision_def last_option by (metis append_butlast_last_id option.distinct(1) option.inject)
  then have "n \<noteq> 0" using len by (metis length_sort length_append_singleton Zero_not_Suc)
  then have "last (map xi_application_revision ?ys) = int n" unfolding revs by (cases n) auto
  then have "xi_application_revision y = int n" using zs by simp
  moreover have "y \<in> set (filter P xs)" using zs by (metis in_set_conv_decomp set_sort)
  ultimately show "xi_application_revision y = int n \<and> y \<in> set xs \<and> P y" by simp
qed

lemma revisions_append:
  assumes ok: "revisions_ok xs"
    and rev: "xi_application_revision x = (case latest_revision (\<lambda>y. item_identity y = item_identity x) xs of
      None \<Rightarrow> 1 | Some y \<Rightarrow> xi_application_revision y + 1)"
  shows "revisions_ok (xs @ [x])"
  unfolding revisions_ok_def Let_def
proof
  fix k
  let ?n = "length (filter (\<lambda>y. item_identity y = item_identity x) xs)"
  have revs: "map xi_application_revision (filter (\<lambda>y. item_identity y = j) xs) =
      map int [1..<Suc (length (filter (\<lambda>y. item_identity y = j) xs))]" for j
    using ok unfolding revisions_ok_def Let_def by blast
  note latest = latest_of_revisions [OF revs]
  have "xi_application_revision x = int (Suc ?n)"
  proof (cases "latest_revision (\<lambda>y. item_identity y = item_identity x) xs")
    case None
    then show ?thesis using rev latest(1) [of "item_identity x"] by (simp del: length_0_conv)
  next
    case (Some y)
    then show ?thesis using rev latest(2) [OF Some] by simp
  qed
  then show "map xi_application_revision (filter (\<lambda>y. item_identity y = k) (xs @ [x])) =
      map int [1..<Suc (length (filter (\<lambda>y. item_identity y = k) (xs @ [x])))]"
    using revs [of k] by (cases "item_identity x = k") auto
qed

lemma record_item_revision_Inr:
  assumes "record_item_revision sha x seen s = (Inr (y, created), s')"
  obtains "\<not> created" "s' = s" "find (same_snapshot x) (cd_items s) = Some y"
  | "created" "find (same_snapshot x) (cd_items s) = None" "item_checks y"
    "y = (next_revision (latest_revision (\<lambda>z. item_identity z = item_identity x) (cd_items s)) seen x)\<lparr>xi_id := cd_next_id s\<rparr>"
    "s' = s\<lparr>cd_next_id := Suc (cd_next_id s), cd_items := cd_items s @ [y]\<rparr>"
  using assms by (auto simp: record_item_revision_def Let_def split: if_splits option.splits)

lemma record_item_revision_kept:
  assumes "record_item_revision sha x seen s = (Inr (y, created), s')"
  shows "connector_kept s s'"
proof (cases rule: record_item_revision_Inr [OF assms])
  case 1
  then show ?thesis by (simp add: connector_kept_refl)
next
  case 2
  have id: "xi_id y = cd_next_id s" "item_identity y = item_identity x"
    by (simp_all add: 2(4) next_revision_def item_identity_def)
  have rev: "xi_application_revision y = (case latest_revision (\<lambda>z. item_identity z = item_identity y) (cd_items s) of
      None \<Rightarrow> 1 | Some z \<Rightarrow> xi_application_revision z + 1)"
    unfolding id(2) by (simp add: 2(4) next_revision_def)
  show ?thesis unfolding connector_kept_def
  proof (intro impI conjI)
    assume ok: "connector_ok s"
    have "connector_rows_ok s'"
      using okD(1) [OF ok] 2(3) id(1) by (auto simp: connector_rows_ok_def 2(5) intro: table_ok_Suc table_ok_add)
    moreover have "revisions_ok (cd_items s')"
      using revisions_append [OF okD(2) [OF ok] rev] by (simp add: 2(5))
    ultimately show "connector_ok s'" using ok by (simp add: connector_ok_def 2(5))
    show "connector_grows s s'" by (simp add: connector_grows_def rows_grow_refl items_grow_def 2(5))
  qed
qed

lemma settle_item_content [simp]: "item_content (settle_item observed t run x) = item_content x"
  by (simp add: settle_item_def Let_def item_content_def item_identity_def)

lemma reconcile_kept:
  assumes "reconcile_latest_items run observed t s = (Inr u, s')"
  shows "connector_kept s s'"
proof -
  let ?f = "\<lambda>x. if xi_account_id x = sr_account_id run \<and> is_latest (cd_items s) x \<and> xi_project_id x = sr_project_id run
    then settle_item observed t (sr_id run) x else x"
  define ys where "ys = map ?f (cd_items s)"
  have s': "s' = s\<lparr>cd_items := ys\<rparr>" "list_all item_checks ys"
    using assms by (auto simp: reconcile_latest_items_def Let_def ys_def split: if_splits)
  have content: "map item_content ys = map item_content (cd_items s)" by (simp add: ys_def)
  have ids: "map xi_id ys = map xi_id (cd_items s)"
    using arg_cong [OF content, of "map fst"] by (simp add: item_content_def comp_def)
  have "table_ok xi_id item_checks (cd_next_id s) ys" if "connector_ok s"
  proof -
    have "distinct (map xi_id ys)" "\<forall>i \<in> set (map xi_id ys). i < cd_next_id s"
      unfolding ids using okD(1) [OF that] by (simp_all add: connector_rows_ok_def table_ok_def)
    then show ?thesis using s'(2) by (simp add: table_ok_def list_all_iff)
  qed
  then show ?thesis unfolding s'(1)
    using revisions_content [OF content] content
    by (simp add: connector_kept_def connector_ok_def connector_rows_ok_def connector_grows_def rows_grow_refl items_grow_def)
qed

section \<open>Accounts and schedules\<close>

lemma update_account_kept: "update_account i expected scope names s = (Inr a, s') \<Longrightarrow> connector_kept s s'"
  unfolding update_account_def
  by (auto split: sum.splits if_splits option.splits elim!: flush_account_kept simp: configure_def account_grows_def
      lock_expected_account_def dest!: row_get_key simp: get_account_def)

lemma set_lifecycle_kept:
  assumes "set_lifecycle i expected target s = (Inr b, s')"
  shows "connector_kept s s'"
proof -
  obtain a where a: "get_account s i = Some a" "lifecycle_allowed (ca_lifecycle a) target"
    "flush_account (ca_id a) (shift_account target) s = (Inr b, s')"
    using assms by (auto simp: set_lifecycle_def lock_expected_account_def split: sum.splits if_splits option.splits)
  have id: "ca_id a = i" using a(1) row_get_key by (simp add: get_account_def)
  have "ca_lifecycle a \<noteq> ACCOUNT_REVOKED" using a(2) by (cases "ca_lifecycle a"; cases target) auto
  then show ?thesis using a(1)
    by (intro flush_account_kept [OF a(3)]) (auto simp: id shift_account_def account_grows_def)
qed

lemma upd_schedule_kept:
  assumes id: "\<And>x. cs_id (f x) = cs_id x"
    and grows: "\<And>x. lock_schedule s i = Some x \<Longrightarrow> schedule_grows x (f x)"
    and checks: "\<And>x. lock_schedule s i = Some x \<Longrightarrow> schedule_checks x \<Longrightarrow> schedule_checks (f x)"
  shows "connector_kept s (upd_schedule i f s)"
proof -
  let ?xs = "row_upd cs_id i f (cd_schedules s)"
  have "table_ok cs_id schedule_checks (cd_next_id s) ?xs" if "connector_ok s"
  proof -
    have "table_ok cs_id schedule_checks (cd_next_id s) (cd_schedules s)"
      using okD(1) [OF that] by (simp add: connector_rows_ok_def)
    from table_ok_upd [OF this id] table_ok_get [OF this] checks show ?thesis by (simp add: lock_schedule_def)
  qed
  moreover have "rows_grow cs_id schedule_grows (cd_schedules s) ?xs"
    using grows id by (intro rows_grow_upd) (simp_all add: lock_schedule_def)
  ultimately show ?thesis
    by (simp add: connector_kept_def connector_ok_def connector_rows_ok_def connector_grows_def rows_grow_refl upd_schedule_def)
qed

lemma create_schedule_kept:
  assumes "create_schedule zones account v policy t s = (Inr r, s')"
  shows "connector_kept s s'"
proof -
  have s': "schedule_checks r" "cs_id r = cd_next_id s"
    "s' = s\<lparr>cd_next_id := Suc (cd_next_id s), cd_schedules := cd_schedules s @ [r]\<rparr>"
    using assms by (auto simp: create_schedule_def Let_def split: option.splits if_splits sum.splits)
  show ?thesis unfolding connector_kept_def
  proof (intro impI conjI)
    assume ok: "connector_ok s"
    have "connector_rows_ok s'"
      using okD(1) [OF ok] s'(1,2) by (auto simp: connector_rows_ok_def s'(3) intro: table_ok_Suc table_ok_add)
    then show "connector_ok s'" using ok by (simp add: connector_ok_def s'(3))
    show "connector_grows s s'" by (simp add: connector_grows_def rows_grow_refl rows_grow_add s'(3))
  qed
qed

lemma update_schedule_kept:
  assumes "update_schedule zones i expected v policy t s = (Inr r, s')"
  shows "connector_kept s s'"
proof -
  obtain row f where row: "lock_schedule s i = Some row" "cs_lifecycle row \<noteq> SCHEDULE_CANCELLED"
    and f: "flush_schedule i f s = (Inr r, s')" "\<And>x. cs_id (f x) = cs_id x" "\<And>x. cs_revision (f x) = cs_revision x + 1"
      "\<And>x. cs_schedule_revision (f x) = cs_schedule_revision x + 1" "\<And>x. cs_account_id (f x) = cs_account_id x"
    using assms by (force simp: update_schedule_def apply_input_def split: option.splits if_splits sum.splits)
  show ?thesis
    by (rule flush_schedule_kept [OF f(1,2)]) (use row f in \<open>simp add: schedule_grows_def\<close>)
qed

lemma transition_schedule_kept:
  assumes "transition_schedule zones i expected action t s = (Inr r, s')"
  shows "connector_kept s s'"
proof -
  obtain row target where row: "lock_schedule s i = Some row" "schedule_target (cs_lifecycle row) action = Some target"
    using assms by (auto simp: transition_schedule_def split: option.splits if_splits)
  have live: "cs_lifecycle row \<noteq> SCHEDULE_CANCELLED"
    using row(2) by (cases action; cases "cs_lifecycle row") auto
  obtain f where f: "flush_schedule i f s = (Inr r, s')" "\<And>x. cs_id (f x) = cs_id x" "\<And>x. cs_revision (f x) = cs_revision x + 1"
      "\<And>x. cs_schedule_revision (f x) = cs_schedule_revision x" "\<And>x. cs_account_id (f x) = cs_account_id x"
    using assms row by (force simp: transition_schedule_def Let_def split: if_splits sum.splits option.splits)
  show ?thesis
    by (rule flush_schedule_kept [OF f(1,2)]) (use row live f in \<open>simp add: schedule_grows_def\<close>)
qed

section \<open>The writes of a refresh\<close>

definition known_run :: "sync_run \<Rightarrow> connector_db \<Rightarrow> bool" where
  "known_run run s \<longleftrightarrow> (\<exists>r. get_sync_run s (sr_id run) = Some r \<and> sync_captured r = sync_captured run)"

lemma known_run_kept: "connector_ok s \<Longrightarrow> connector_kept s s' \<Longrightarrow> known_run run s \<Longrightarrow> known_run run s'"
  unfolding connector_kept_def connector_grows_def rows_grow_def known_run_def get_sync_run_def sync_grows_def by metis

lemma sync_checks_active: "sync_run_checks r \<Longrightarrow> active_run r \<longleftrightarrow> sr_completed_at r = None"
  by (cases "sr_status r") (simp_all add: sync_run_checks_def active_run_def SYNC_ACTIVE_def sync_ended_def)

lemma run_write_kept:
  assumes ok: "connector_ok s" and flush: "flush_sync_run i f s = (Inr r, s')"
    and same: "\<And>x. sr_id (f x) = sr_id x" "\<And>x. sync_captured (f x) = sync_captured x"
      "\<And>x. sr_completed_at x \<noteq> None \<Longrightarrow> sr_completed_at (f x) \<noteq> None"
  shows "connector_kept s s'"
proof (rule flush_sync_run_kept [OF flush same(1)])
  fix x assume x: "get_sync_run s i = Some x" "sync_run_checks (f x)"
  have "sync_run_checks x"
    using okD(1) [OF ok] x(1) by (auto simp: connector_rows_ok_def get_sync_run_def dest: table_ok_get)
  then show "sync_grows x (f x)" using same(2,3) sync_checks_active x(2) by (simp add: sync_grows_def)
qed

lemma mark_kept:
  "flush_account i (\<lambda>x. x\<lparr>ca_validation_status := (if v then ca_validation_status x else w), ca_last_validated_at := u\<rparr>) s
     = (Inr a, s') \<Longrightarrow> connector_kept s s'"
  by (erule flush_account_kept) (simp_all add: account_grows_def)

lemma disable_identity_kept:
  assumes ok: "connector_ok s" and run: "known_run run s"
    and eq: "disable_identity (sr_account_id run) (sr_account_revision run) s = (Inr u, s')"
  shows "connector_kept s s'"
proof -
  from run obtain r where r: "r \<in> set (cd_sync_runs s)" "sync_captured r = sync_captured run"
    by (auto simp: known_run_def get_sync_run_def dest: row_get_in)
  then obtain a where a: "get_account s (sr_account_id run) = Some a"
    "sr_account_revision run = ca_revision a \<longrightarrow> ca_lifecycle a = ACCOUNT_ENABLED"
    using okD(4) [OF ok] by (auto simp: captures_ok_def sync_captured_def)
  show ?thesis
  proof (cases "ca_revision a = sr_account_revision run")
    case True
    then obtain b where "flush_account (sr_account_id run) fence_account s = (Inr b, s')"
      using eq a(1) by (auto simp: disable_identity_def andThen_Inr_iff)
    then show ?thesis
      by (rule flush_account_kept) (use a True in \<open>auto simp: fence_account_def account_grows_def\<close>)
  next
    case False
    then show ?thesis using eq a(1) by (simp add: disable_identity_def connector_kept_refl)
  qed
qed

end
