(* ===== verification/Connector_Guarantee.thy ===== *)
theory Connector_Guarantee
  imports Connector_Invariants Automation_Invariants
begin

text \<open>
  The writes of the scheduler keep the invariant, and the interface \<open>connector_guarantee\<close>: whatever the single
  writes of a refresh and of a tick guarantee, a whole refresh (\<open>refresh\<close> of \<open>app/connectors/sync.py\<close>) and a
  whole tick (\<open>run_connector_tick\<close>) guarantee, if the other sessions do.
\<close>

section \<open>The writes of the scheduler\<close>

lemma refresh_rows: "connector_ok s \<Longrightarrow> distinct (map ro_id (cd_occurrences s))"
  using okD(1) by (simp add: connector_rows_ok_def table_ok_def)

lemma lock_refresh_row: "connector_ok s \<Longrightarrow> x \<in> set (cd_occurrences s) \<Longrightarrow> lock_refresh s (ro_id x) = Some x"
  unfolding lock_refresh_def by (rule row_get_distinct [OF refresh_rows])

lemma lock_refresh_flush:
  "flush_refresh i f s = (Inr y, s') \<Longrightarrow> (\<And>x. ro_id (f x) = ro_id x) \<Longrightarrow> j \<noteq> i \<Longrightarrow> lock_refresh s' j = lock_refresh s j"
  by (drule flush_refresh_Inr) (auto simp: lock_refresh_def upd_refresh_def row_get_upd)

lemma lock_refresh_notify: "notify_refresh x e sv c s = (Inr u, s') \<Longrightarrow> lock_refresh s' j = lock_refresh s j"
  by (auto simp: notify_refresh_def insert_refresh_notification_def lock_refresh_def split: if_splits)

text \<open>A loop over rows that were selected before it started.\<close>

lemma each_refresh_R:
  assumes refl: "\<And>s. R s s" and trans: "\<And>s t u. R s t \<Longrightarrow> R t u \<Longrightarrow> R s u"
    and "each_refresh f xs s = (Inr cs, s')" "distinct (map ro_id xs)"
    and "\<And>x. x \<in> set xs \<Longrightarrow> lock_refresh s (ro_id x) = Some x"
    and step: "\<And>x s cs s'. x \<in> set xs \<Longrightarrow> lock_refresh s (ro_id x) = Some x \<Longrightarrow> f x s = (Inr cs, s') \<Longrightarrow>
      R s s' \<and> (\<forall>j. j \<noteq> ro_id x \<longrightarrow> lock_refresh s' j = lock_refresh s j)"
  shows "R s s'"
  using assms(3-)
proof (induction xs arbitrary: s cs)
  case Nil
  then show ?case using refl by simp
next
  case (Cons x xs)
  obtain c1 s1 c2 where f: "f x s = (Inr c1, s1)" "each_refresh f xs s1 = (Inr c2, s')"
    using Cons.prems(1) by (auto simp: andThen_Inr_iff)
  have "lock_refresh s (ro_id x) = Some x" using Cons.prems(3) by simp
  note this_step = Cons.prems(4) [OF _ this f(1), simplified]
  have "lock_refresh s1 (ro_id y) = Some y" if "y \<in> set xs" for y
    using this_step Cons.prems(2) Cons.prems(3) [of y] that by (metis image_eqI list.set_intros(2) distinct.simps(2) list.simps(9) list.set_map)
  moreover have "distinct (map ro_id xs)" using Cons.prems(2) by simp
  ultimately have "R s1 s'"
    using Cons.IH [OF f(2)] Cons.prems(4) [OF list.set_intros(2)] by blast
  then show ?case using this_step trans by blast
qed

lemma lease_refresh_step:
  assumes eq: "lease_refresh owner t until x s = (Inr cs, s')" and live: "\<not> refresh_ended (ro_state x)"
    and row: "lock_refresh s (ro_id x) = Some x"
  shows "connector_kept s s' \<and> (\<forall>j. j \<noteq> ro_id x \<longrightarrow> lock_refresh s' j = lock_refresh s j)"
proof -
  obtain y where f: "flush_refresh (ro_id x) (take_lease owner t until) s = (Inr y, s')"
    using eq by (auto simp: lease_refresh_def andThen_Inr_iff)
  have "connector_kept s s'"
    by (rule flush_refresh_kept [OF f])
       (use row live in \<open>auto simp: take_lease_def refresh_grows_def refresh_captured_def\<close>)
  then show ?thesis using lock_refresh_flush [OF f] by (simp add: take_lease_def)
qed

lemma claim_refresh_step:
  assumes eq: "claim_refresh owner t until x s = (Inr cs, s')" and live: "\<not> refresh_ended (ro_state x)"
    and row: "lock_refresh s (ro_id x) = Some x"
  shows "connector_kept s s' \<and> (\<forall>j. j \<noteq> ro_id x \<longrightarrow> lock_refresh s' j = lock_refresh s j)"
proof (cases "case (lock_schedule s (ro_schedule_id x), get_account s (ro_account_id x)) of
    (Some sch, Some a) \<Rightarrow> refresh_authority x sch a | _ \<Rightarrow> False")
  case True
  then obtain y where f: "flush_refresh (ro_id x) (take_claim owner t until) s = (Inr y, s')"
    using eq by (auto simp: claim_refresh_def andThen_Inr_iff)
  have "connector_kept s s'"
    by (rule flush_refresh_kept [OF f])
       (use row live in \<open>auto simp: take_claim_def take_lease_def refresh_grows_def refresh_captured_def\<close>)
  then show ?thesis using lock_refresh_flush [OF f] by (simp add: take_claim_def take_lease_def)
next
  case False
  then obtain y s1 where f: "flush_refresh (ro_id x) (fence_out t) s = (Inr y, s1)"
    "notify_refresh y ''occurrence_cancelled'' ''warning'' ''authority_fenced'' s1 = (Inr (), s')"
    using eq by (auto simp: claim_refresh_def andThen_Inr_iff)
  have "connector_kept s s1"
    by (rule flush_refresh_kept [OF f(1)])
       (use row live in \<open>auto simp: fence_out_def refresh_grows_def refresh_captured_def\<close>)
  then show ?thesis
    using lock_refresh_flush [OF f(1)] lock_refresh_notify [OF f(2)] notify_refresh_kept [OF f(2)]
    by (auto simp: fence_out_def intro: connector_kept_trans)
qed

text \<open>The queries pick different rows of the table.\<close>

lemma refresh_query:
  assumes ok: "connector_ok s" and xs: "xs = take n (filter P (sort_key k (filter Q (cd_occurrences s))))"
  shows "distinct (map ro_id xs)" "\<And>x. x \<in> set xs \<Longrightarrow> lock_refresh s (ro_id x) = Some x \<and> Q x"
proof -
  show "distinct (map ro_id xs)" unfolding xs
    by (intro distinct_map_take distinct_map_filter_key distinct_map_sort refresh_rows [OF ok])
  show "lock_refresh s (ro_id x) = Some x \<and> Q x" if "x \<in> set xs" for x
    using that lock_refresh_row [OF ok, of x] by (auto simp: xs dest: in_set_takeD)
qed

lemma reclaim_linked_kept: "reclaim_linked_refreshes locked owner t lease limit s = (Inr cs, s') \<Longrightarrow> connector_kept s s'"
proof (rule keptI)
  assume eq: "reclaim_linked_refreshes locked owner t lease limit s = (Inr cs, s')" and ok: "connector_ok s"
  note q = refresh_query [OF ok lock_resumable_def [unfolded by_lease_def]]
  show "connector_kept s s'"
    by (rule each_refresh_R [OF connector_kept_refl connector_kept_trans eq [unfolded reclaim_linked_refreshes_def]])
       (rule lease_refresh_step | use q in \<open>simp add: refresh_ended_def\<close>)+
qed

lemma reclaim_expired_kept: "reclaim_expired_refreshes locked owner t lease limit s = (Inr cs, s') \<Longrightarrow> connector_kept s s'"
proof (rule keptI)
  assume eq: "reclaim_expired_refreshes locked owner t lease limit s = (Inr cs, s')" and ok: "connector_ok s"
  note q = refresh_query [OF ok lock_expired_def [unfolded by_lease_def]]
  show "connector_kept s s'"
    by (rule each_refresh_R [OF connector_kept_refl connector_kept_trans eq [unfolded reclaim_expired_refreshes_def]])
       (rule lease_refresh_step | use q in \<open>simp add: refresh_ended_def\<close>)+
qed

lemma claim_refreshes_kept: "claim_refreshes locked owner t lease limit s = (Inr cs, s') \<Longrightarrow> connector_kept s s'"
proof (rule keptI)
  assume eq: "claim_refreshes locked owner t lease limit s = (Inr cs, s')" and ok: "connector_ok s"
  note q = refresh_query [OF ok lock_claimable_def]
  show "connector_kept s s'"
    by (rule each_refresh_R [OF connector_kept_refl connector_kept_trans eq [unfolded claim_refreshes_def]])
       (rule claim_refresh_step | use q in \<open>simp add: refresh_ended_def\<close>)+
qed

text \<open>Materialization, linking and finalization.\<close>

lemma insert_refresh_kept:
  assumes eq: "insert_refresh x s = (Inr y, s')" and unlinked: "ro_connector_sync_run_id x = None"
  shows "connector_kept s s'"
proof -
  have y: "y = x\<lparr>ro_id := cd_next_id s\<rparr>" "refresh_occurrence_checks y"
    "s' = (s\<lparr>cd_next_id := Suc (cd_next_id s)\<rparr>)\<lparr>cd_occurrences := cd_occurrences s @ [y]\<rparr>"
    using eq by (auto simp: insert_refresh_def Let_def split: if_splits)
  show ?thesis unfolding connector_kept_def
  proof (intro impI conjI)
    assume ok: "connector_ok s"
    have "connector_rows_ok s'"
      using okD(1) [OF ok] y(1,2) by (auto simp: connector_rows_ok_def y(3) intro: table_ok_Suc table_ok_add)
    moreover have "links_ok s'" unfolding y(3)
    proof (rule links_occurrencesI)
      fix z i assume "z \<in> set (cd_occurrences s @ [y])" "ro_connector_sync_run_id z = Some i"
      then show "i \<in> sr_id ` set (cd_sync_runs (s\<lparr>cd_next_id := Suc (cd_next_id s)\<rparr>))"
        using okD(3) [OF ok] unlinked y(1) unfolding links_ok_def by auto
    next
      fix z w i assume "z \<in> set (cd_occurrences s @ [y])" "w \<in> set (cd_occurrences s @ [y])"
        "ro_connector_sync_run_id z = Some i" "ro_connector_sync_run_id w = Some i"
      then have "z \<in> set (cd_occurrences s)" "w \<in> set (cd_occurrences s)"
        "ro_connector_sync_run_id z \<noteq> None" "ro_connector_sync_run_id z = ro_connector_sync_run_id w"
        using unlinked y(1) by auto
      then show "ro_id z = ro_id w" using okD(3) [OF ok] unfolding links_ok_def by blast
    qed
    ultimately show "connector_ok s'" using ok by (simp add: connector_ok_def y(3))
    show "connector_grows s s'" by (simp add: connector_grows_def rows_grow_refl rows_grow_add y(3))
  qed
qed

lemma next_slot_checks [simp]: "schedule_checks (r\<lparr>cs_next_occurrence_at := u\<rparr>) = schedule_checks r"
  by (simp add: schedule_checks_def)

lemma next_slot_kept: "connector_kept s (upd_schedule i (\<lambda>r. r\<lparr>cs_next_occurrence_at := u\<rparr>) s)"
  by (rule upd_schedule_kept) (simp_all add: schedule_grows_def row_definition_def)

lemma materialize_schedule_cases:
  assumes "materialize_schedule zones t row s = (Inr xs, s')"
  obtains "s' = s" | x oc s1 u code where
    "insert_refresh x s = (Inr oc, s1)" "ro_connector_sync_run_id x = None"
    "ro_state x = RO_DUE \<or> ro_state x = RO_MISSED"
    "let s2 = upd_schedule (cs_id row) (\<lambda>r. r\<lparr>cs_next_occurrence_at := u\<rparr>) s1 in
     s' = s2 \<or> notify_refresh oc ''occurrence_missed'' ''warning'' code s2 = (Inr (), s')"
proof (cases "get_account s (cs_account_id row)")
  case None
  then show ?thesis using assms that(1) by (simp add: materialize_schedule_def)
next
  case (Some a)
  then obtain p following old where latest: "latest_refresh zones row t = Inr (p, following, old)"
    using assms by (auto simp: materialize_schedule_def split: sum.splits)
  let ?code = "if cs_missed_run_policy row = ''skip'' \<and> old then ''missed_lookback_bounded'' else ''missed_skipped''"
  let ?x = "(new_refresh row a p (if cs_missed_run_policy row = ''skip'' then RO_MISSED else RO_DUE) t)
    \<lparr>ro_safe_disposition_code := (if cs_missed_run_policy row = ''skip'' then Some ?code else None)\<rparr>"
  obtain res s1 where ins: "insert_refresh ?x s = (res, s1)" by fastforce
  show ?thesis
  proof (cases res)
    case (Inl e)
    then show ?thesis using assms that(1) Some latest ins by (simp add: materialize_schedule_def Let_def)
  next
    case (Inr oc)
    show ?thesis
      by (rule that(2) [of ?x oc s1 "map_option sp_utc_instant following" ?code])
         (use assms Some latest ins Inr in
           \<open>auto simp: materialize_schedule_def Let_def new_refresh_def andThen_Inr_iff split: if_splits\<close>)
  qed
qed

lemma materialize_schedule_kept:
  assumes "materialize_schedule zones t row s = (Inr xs, s')"
  shows "connector_kept s s'"
  using assms
proof (cases rule: materialize_schedule_cases)
  case (2 x oc s1 u code)
  have s2: "connector_kept s (upd_schedule (cs_id row) (\<lambda>r. r\<lparr>cs_next_occurrence_at := u\<rparr>) s1)"
    by (rule connector_kept_trans [OF insert_refresh_kept [OF 2(1,2)] next_slot_kept])
  show ?thesis using 2(4) unfolding Let_def
    by (elim disjE) (auto intro: s2 connector_kept_trans [OF s2 notify_refresh_kept])
qed (simp add: connector_kept_refl)

lemma materialize_schedules_kept: "materialize_schedules zones t rows s = (Inr xs, s') \<Longrightarrow> connector_kept s s'"
  by (induction rows arbitrary: s xs)
     (auto simp: connector_kept_refl andThen_Inr_iff dest!: materialize_schedule_kept intro: connector_kept_trans)

lemma validated_refresh_row:
  "validated_refresh c st s = Inr (x, sch, a) \<Longrightarrow>
     lock_refresh s (rc_occurrence_id c) = Some x \<and> ro_id x = rc_occurrence_id c \<and> ro_state x = st \<and>
     get_account s (ro_account_id x) = Some a \<and> ca_id a = ro_account_id x"
  by (auto simp: validated_refresh_def lock_refresh_def get_account_def dest: row_get_key split: option.splits if_splits)

lemma create_and_link_kept:
  assumes "create_and_link_sync sha c t s = (Inr run, s')"
  shows "connector_kept s s'"
proof (rule keptI)
  assume ok: "connector_ok s"
  obtain x sch a where v: "validated_refresh c RO_CLAIMED s = Inr (x, sch, a)"
    using assms by (auto simp: create_and_link_sync_def split: sum.splits)
  note x = validated_refresh_row [OF v]
  show "connector_kept s s'"
  proof (cases "ro_connector_sync_run_id x")
    case (Some i)
    then show ?thesis using assms v by (auto simp: create_and_link_sync_def connector_kept_refl split: option.splits)
  next
    case None
    obtain s1 y where cl: "claim_with_trigger sha (ca_id a) (ro_account_revision x) ''scheduled''
        (trigger_identity sha (ro_occurrence_key x)) t s = (Inr run, s1)"
      and f: "flush_refresh (ro_id x) (link_refresh (sr_id run)) s1 = (Inr y, s')"
      using assms v None by (auto simp: create_and_link_sync_def andThen_Inr_iff)
    have new: "sr_id run = cd_next_id s"
      "s1 = s\<lparr>cd_next_id := Suc (cd_next_id s), cd_sync_runs := cd_sync_runs s @ [run]\<rparr>"
      by (rule claim_with_trigger_Inr [OF cl], simp)+
    show ?thesis
    proof (rule connector_kept_trans [OF claim_with_trigger_kept [OF cl] flush_refresh_kept [OF f]])
      fix z assume z: "lock_refresh s1 (ro_id x) = Some z"
      then have zx: "z = x" using x by (simp add: new(2) lock_refresh_def)
      show "refresh_grows z (link_refresh (sr_id run) z)"
        using None x by (simp add: zx link_refresh_def refresh_grows_def refresh_captured_def refresh_ended_def)
      have "ro_connector_sync_run_id y \<noteq> Some (sr_id run)" if "y \<in> set (cd_occurrences s)" for y
      proof
        assume "ro_connector_sync_run_id y = Some (sr_id run)"
        then have "cd_next_id s \<in> sr_id ` set (cd_sync_runs s)"
          using okD(3) [OF ok] that unfolding links_ok_def new(1) by blast
        then show False using okD(1) [OF ok] by (auto simp: connector_rows_ok_def table_ok_def)
      qed
      then show "ro_connector_sync_run_id (link_refresh (sr_id run) z) = ro_connector_sync_run_id z \<or>
          (\<exists>r. ro_connector_sync_run_id (link_refresh (sr_id run) z) = Some r \<and> r \<in> sr_id ` set (cd_sync_runs s1) \<and>
             (\<forall>y \<in> set (cd_occurrences s1). ro_connector_sync_run_id y \<noteq> Some r))"
        by (simp add: new(2) link_refresh_def)
    qed (simp add: link_refresh_def)
  qed
qed

lemma finalize_refresh_Inr:
  assumes "finalize_refresh c t s = (Inr y, s')"
  obtains x sch a run state s1 e sv where
    "validated_refresh c RO_SYNC_CREATED s = Inr (x, sch, a)" "refresh_result (sr_status run) = Some state"
    "flush_refresh (ro_id x) (finalize_row run state t) s = (Inr y, s1)"
    "notify_refresh y e sv (sync_code (sr_status run)) s1 = (Inr (), s')"
  using assms unfolding finalize_refresh_def
  by (fastforce simp: andThen_Inr_iff split: sum.splits option.splits prod.splits)

lemma finalize_refresh_kept:
  assumes "finalize_refresh c t s = (Inr y, s')"
  shows "connector_kept s s'"
  using assms
proof (cases rule: finalize_refresh_Inr)
  case (1 x sch a run state s1 e sv)
  note x = validated_refresh_row [OF 1(1)]
  have "connector_kept s s1"
    by (rule flush_refresh_kept [OF 1(3)])
       (use x in \<open>auto simp: finalize_row_def refresh_grows_def refresh_captured_def refresh_ended_def\<close>)
  then show ?thesis using notify_refresh_kept [OF 1(4)] connector_kept_trans by blast
qed

section \<open>The interface\<close>

text \<open>
  \<open>I\<close> is an invariant, \<open>R\<close> what a step guarantees, \<open>W run\<close> that the run may be worked on. The laws are about
  single writes; the conclusions are about whole operations under other sessions that guarantee \<open>R\<close> too.
\<close>

locale connector_guarantee =
  fixes I :: "connector_db \<Rightarrow> bool" and R :: "connector_db \<Rightarrow> connector_db \<Rightarrow> bool"
    and W :: "sync_run \<Rightarrow> connector_db \<Rightarrow> bool"
  assumes refl: "R s s"
    and trans: "R s s' \<Longrightarrow> R s' s'' \<Longrightarrow> R s s''"
    and keep: "I s \<Longrightarrow> R s s' \<Longrightarrow> I s'"
    and works: "I s \<Longrightarrow> R s s' \<Longrightarrow> W run s \<Longrightarrow> W run s'"
    and current: "I s \<Longrightarrow> W run s \<Longrightarrow> get_sync_run s (sr_id run) = Some r \<Longrightarrow> W r s"
    and fenced: "I s \<Longrightarrow> validate_network_fence c s = Inr r \<Longrightarrow> W r s"
    and start: "I s \<Longrightarrow> W run s \<Longrightarrow>
      flush_sync_run (sr_id run) (\<lambda>x. x\<lparr>sr_status := SYNC_RUNNING, sr_started_at := Some u\<rparr>) s = (Inr r, s') \<Longrightarrow> R s s'"
    and count: "I s \<Longrightarrow> W run s \<Longrightarrow> flush_sync_run (sr_id run) (count_items n m) s = (Inr r, s') \<Longrightarrow> R s s'"
    and finish: "I s \<Longrightarrow> W run s \<Longrightarrow> flush_sync_run (sr_id run) (finish_row st e c2 u) s = (Inr r, s') \<Longrightarrow> R s s'"
    and mark: "I s \<Longrightarrow> flush_account i (\<lambda>x. x\<lparr>ca_validation_status := (if v then ca_validation_status x else ''valid''),
        ca_last_validated_at := Some u\<rparr>) s = (Inr a, s') \<Longrightarrow> R s s'"
    and disable: "I s \<Longrightarrow> W run s \<Longrightarrow> disable_identity (sr_account_id run) (sr_account_revision run) s = (Inr z, s') \<Longrightarrow> R s s'"
    and record_item: "I s \<Longrightarrow> record_item_revision sha x u s = (Inr y, s') \<Longrightarrow> R s s'"
    and reconcile: "I s \<Longrightarrow> reconcile_latest_items run obs u s = (Inr z, s') \<Longrightarrow> R s s'"
    and linked: "I s \<Longrightarrow> reclaim_linked_refreshes l owner u lease limit s = (Inr cs, s') \<Longrightarrow> R s s'"
    and expired: "I s \<Longrightarrow> reclaim_expired_refreshes l owner u lease limit s = (Inr cs, s') \<Longrightarrow> R s s'"
    and materialize: "I s \<Longrightarrow> materialize_refreshes zones l u limit s = (Inr os, s') \<Longrightarrow> R s s'"
    and claim: "I s \<Longrightarrow> claim_refreshes l owner u lease limit s = (Inr cs, s') \<Longrightarrow> R s s'"
    and create_link: "I s \<Longrightarrow> create_and_link_sync sha c u s = (Inr r, s') \<Longrightarrow> R s s'"
    and claim_run: "I s \<Longrightarrow> claim_manual sha i expected u s = (Inr r, s') \<Longrightarrow> R s s' \<and> W r s'"
    and finalize: "I s \<Longrightarrow> finalize_refresh c u s = (Inr oc, s') \<Longrightarrow> R s s'"
begin

lemma andThen_R:
  assumes "I (ss_db ss)" and m: "R (ss_db ss) (ss_db (snd m))"
    and k: "\<And>a s1. m = (Inr a, s1) \<Longrightarrow> I (ss_db s1) \<Longrightarrow> R (ss_db ss) (ss_db s1) \<Longrightarrow> R (ss_db s1) (ss_db (snd (k a s1)))"
  shows "R (ss_db ss) (ss_db (snd (andThen m k)))"
proof (cases m)
  case (Pair res s1)
  then have s1: "R (ss_db ss) (ss_db s1)" "I (ss_db s1)" using m keep [OF assms(1)] by auto
  show ?thesis
  proof (cases res)
    case (Inl e)
    then show ?thesis using Pair s1 by simp
  next
    case (Inr a)
    then show ?thesis using Pair s1 k [of a s1] trans by simp
  qed
qed

lemma transaction_R:
  assumes "I (ss_db ss)" and rely: "\<forall>n s. I s \<longrightarrow> R s (sw_others w n s)"
    and body: "\<And>s1 a s2. I (ss_db s1) \<Longrightarrow> R (ss_db ss) (ss_db s1) \<Longrightarrow> body s1 = (Inr a, s2) \<Longrightarrow> R (ss_db s1) (ss_db s2)"
  shows "R (ss_db ss) (ss_db (snd (transaction w body ss)))"
proof -
  let ?s1 = "ticked (ss\<lparr>ss_db := sw_others w (ss_tick ss) (ss_db ss)\<rparr>)"
  have first: "R (ss_db ss) (ss_db ?s1)" using rely assms(1) by (simp add: ticked_def)
  obtain res s2 where b: "body ?s1 = (res, s2)" by fastforce
  show ?thesis
  proof (cases res)
    case (Inl e)
    then show ?thesis using first b by (simp add: transaction_def Let_def roll_back_def)
  next
    case (Inr a)
    have "R (ss_db ?s1) (ss_db s2)" using body [OF keep [OF assms(1) first] first] b Inr by simp
    then show ?thesis using first b Inr trans by (simp add: transaction_def Let_def)
  qed
qed

end

lemma on_rows_Inr: "on_rows f ss = (Inr a, ss') \<Longrightarrow> f (ss_db ss) = (Inr a, ss_db ss')"
  by (auto simp: on_rows_def split: prod.splits)

lemma on_rows_db: "ss_db (snd (on_rows f ss)) = snd (f (ss_db ss))"
  by (auto simp: on_rows_def split: prod.splits)

lemma utc_now_db [simp]: "utc_now w ss = (Inr t, ss') \<Longrightarrow> ss_db ss' = ss_db ss"
  by (auto simp: utc_now_def ticked_def)

lemma current_run_Inr: "current_run i ss = (Inr r, ss') \<Longrightarrow> ss' = ss \<and> get_sync_run (ss_db ss) i = Some r \<and> sr_id r = i"
  by (auto simp: current_run_def get_sync_run_def dest: row_get_key split: option.splits)

lemma captured_account_db: "captured_account w run ss = (Inr a, ss') \<Longrightarrow> ss_db ss' = ss_db ss"
  by (auto simp: captured_account_def split: option.splits if_splits)

lemma captured_account_frame [simp]: "ss_db (snd (captured_account w run ss)) = ss_db ss"
  by (auto simp: captured_account_def split: option.splits)

lemma ticked_frame [simp]: "ss_db (ticked ss) = ss_db ss" "ss_attempts (ticked ss) = ss_attempts ss"
  "ss_bytes (ticked ss) = ss_bytes ss"
  by (simp_all add: ticked_def)

lemma roll_back_frame [simp]: "ss_db (roll_back ss) = ss_db ss" "ss_attempts (roll_back ss) = ss_attempts ss"
  by (simp_all add: roll_back_def)

lemma github_deadline_frame [simp]: "ss_db (snd (github_deadline w l ss)) = ss_db ss"
  by (simp add: github_deadline_def)

lemma http_attempt_frame: "ss_db (snd (http_attempt w l sec req ss)) = ss_db ss"
  by (simp add: http_attempt_def Let_def ticked_def split: http_answer.splits option.splits)

lemma github_get_frame [simp]: "ss_db (snd (github_get w l sec req ss)) = ss_db ss"
proof -
  obtain res s0 where d: "github_deadline w l ss = (res, s0)" by fastforce
  have s0: "ss_db s0 = ss_db ss" using github_deadline_frame [of w l ss] d by simp
  obtain r1 s1 where a1: "http_attempt w l sec req s0 = (r1, s1)" by fastforce
  obtain r2 s2 where a2: "http_attempt w l sec req s1 = (r2, s2)" by fastforce
  have "ss_db s1 = ss_db s0" "ss_db s2 = ss_db s1"
    using http_attempt_frame [of w l sec req s0] http_attempt_frame [of w l sec req s1] a1 a2 by simp_all
  then show ?thesis using s0 a1 a2
    by (cases res; cases r1; cases r2) (simp_all add: github_get_def d Let_def)
qed

section \<open>A whole refresh\<close>

context connector_guarantee
begin

lemma transaction_Inr:
  assumes "I (ss_db ss)" "\<forall>n s. I s \<longrightarrow> R s (sw_others w n s)" "transaction w body ss = (Inr a, s2)"
  shows "\<exists>s1. I (ss_db s1) \<and> R (ss_db ss) (ss_db s1) \<and> body s1 = (Inr a, s2)"
proof -
  let ?s1 = "ticked (ss\<lparr>ss_db := sw_others w (ss_tick ss) (ss_db ss)\<rparr>)"
  have "R (ss_db ss) (ss_db ?s1)" using assms(1,2) by simp
  moreover have "body ?s1 = (Inr a, s2)"
    using assms(3) by (auto simp: transaction_def Let_def split: prod.splits sum.splits)
  ultimately show ?thesis using keep [OF assms(1)] by blast
qed

lemma frame_R [simp]: "ss_db s2 = ss_db s1 \<Longrightarrow> R (ss_db s1) (ss_db s2)"
  using refl by simp

lemma recheck_R:
  assumes "I (ss_db ss)" "\<forall>n s. I s \<longrightarrow> R s (sw_others w n s)"
  shows "R (ss_db ss) (ss_db (snd (recheck w i ss)))"
  unfolding recheck_def
  by (rule transaction_R [OF assms])
     (auto simp: andThen_Inr_iff dest!: current_run_Inr captured_account_db)

lemma recheck_W:
  assumes "I (ss_db ss)" "\<forall>n s. I s \<longrightarrow> R s (sw_others w n s)" "W run (ss_db ss)"
    "recheck w (sr_id run) ss = (Inr r, ss')"
  shows "W r (ss_db ss')"
proof -
  obtain s1 where s1: "I (ss_db s1)" "R (ss_db ss) (ss_db s1)"
    "andThen (current_run (sr_id run) s1) (\<lambda>r s2. andThen (captured_account w r s2) (\<lambda>_ s3. (Inr r, s3))) = (Inr r, ss')"
    using transaction_Inr [OF assms(1,2) assms(4) [unfolded recheck_def]] by blast
  then have "get_sync_run (ss_db s1) (sr_id run) = Some r" "ss_db ss' = ss_db s1"
    by (auto simp: andThen_Inr_iff dest!: current_run_Inr captured_account_db)
  then show ?thesis using current s1(1) works [OF assms(1) s1(2) assms(3)] by simp
qed

lemma start_run_R:
  assumes "I (ss_db ss)" "\<forall>n s. I s \<longrightarrow> R s (sw_others w n s)" "W run (ss_db ss)"
  shows "R (ss_db ss) (ss_db (snd (start_run w (sr_id run) ss)))"
  unfolding start_run_def
proof (rule transaction_R [OF assms(1,2)])
  fix s1 a s2
  assume s1: "I (ss_db s1)" "R (ss_db ss) (ss_db s1)"
    and eq: "andThen (current_run (sr_id run) s1) (\<lambda>r s2. andThen (captured_account w r s2) (\<lambda>_ s3.
      andThen (utc_now w s3) (\<lambda>t s4. on_rows (flush_sync_run (sr_id run)
        (\<lambda>x. x\<lparr>sr_status := SYNC_RUNNING, sr_started_at := Some t\<rparr>)) s4))) = (Inr a, s2)"
  from eq obtain t where "flush_sync_run (sr_id run) (\<lambda>x. x\<lparr>sr_status := SYNC_RUNNING, sr_started_at := Some t\<rparr>)
      (ss_db s1) = (Inr a, ss_db s2)"
    by (auto simp: andThen_Inr_iff dest!: current_run_Inr captured_account_db utc_now_db on_rows_Inr)
  then show "R (ss_db s1) (ss_db s2)" using start s1(1) works [OF assms(1) s1(2) assms(3)] by blast
qed

lemma mark_valid_R:
  assumes "I (ss_db ss)" "\<forall>n s. I s \<longrightarrow> R s (sw_others w n s)"
  shows "R (ss_db ss) (ss_db (snd (mark_valid w i ss)))"
    and "W run (ss_db ss) \<Longrightarrow> i = sr_id run \<Longrightarrow> mark_valid w i ss = (Inr r, ss') \<Longrightarrow> W r (ss_db ss')"
proof -
  have body: "R (ss_db s1) (ss_db s2) \<and> get_sync_run (ss_db s1) i = Some r" if "I (ss_db s1)"
    "andThen (current_run i s1) (\<lambda>run s1. andThen (captured_account w run s1) (\<lambda>a s2. andThen (utc_now w s2) (\<lambda>t s3.
      andThen (on_rows (flush_account (ca_id a) (\<lambda>x. x
         \<lparr>ca_validation_status := (if ca_validation_status a = ''valid'' then ca_validation_status x else ''valid''),
          ca_last_validated_at := Some t\<rparr>)) s3) (\<lambda>_ s4.
       (Inr run,
        if sw_caching w
        then s4\<lparr>ss_cached := Some (a\<lparr>ca_validation_status := ''valid'', ca_last_validated_at := Some t\<rparr>)\<rparr>
        else s4))))) = (Inr r, s2)" for s1 s2 r
    using that mark
    by (auto simp: andThen_Inr_iff dest!: current_run_Inr captured_account_db utc_now_db on_rows_Inr split: if_splits)
  show "R (ss_db ss) (ss_db (snd (mark_valid w i ss)))"
    unfolding mark_valid_def by (rule transaction_R [OF assms], rule body [THEN conjunct1])
  assume W: "W run (ss_db ss)" "i = sr_id run" "mark_valid w i ss = (Inr r, ss')"
  show "W r (ss_db ss')"
    using transaction_Inr [OF assms W(3) [unfolded mark_valid_def]]
  proof (elim exE conjE, goal_cases)
    case (1 s1)
    note b = body [OF 1(1,3)]
    then have "W r (ss_db s1)" using current [OF 1(1)] W(2) works [OF assms(1) 1(2) W(1)] by simp
    then show ?case using works [OF 1(1)] b by blast
  qed
qed

lemma record_items_R:
  "I s \<Longrightarrow> record_items w run repo_id kind t sns s = (Inr n, s') \<Longrightarrow> R s s'"
proof (induction sns arbitrary: s n)
  case Nil
  then show ?case using refl by simp
next
  case (Cons sn sns)
  obtain y s1 m where "record_item_revision (sw_sha w) (snapshot_item w run repo_id kind t sn) t s = (Inr y, s1)"
    "record_items w run repo_id kind t sns s1 = (Inr m, s')"
    using Cons.prems(2) by (auto simp: andThen_Inr_iff)
  then show ?case using Cons.IH Cons.prems(1) record_item keep trans by blast
qed

lemma persist_page_R:
  assumes "I (ss_db ss)" "\<forall>n s. I s \<longrightarrow> R s (sw_others w n s)" "W run (ss_db ss)"
  shows "R (ss_db ss) (ss_db (snd (persist_page w run name repo_id kind snapshots ss)))"
  unfolding persist_page_def
proof (rule transaction_R [OF assms(1,2)], goal_cases)
  case (1 s1 a s2)
  from 1(3) obtain t n d r where
    "record_items w run repo_id kind t snapshots (ss_db s1) = (Inr n, d)"
    "flush_sync_run (sr_id run) (count_items (int (length snapshots)) n) d = (Inr r, ss_db s2)"
    by (auto simp: andThen_Inr_iff dest!: captured_account_db utc_now_db on_rows_Inr split: if_splits)
  then show ?case
    using 1(1) works [OF assms(1) 1(2) assms(3)] record_items_R count keep works trans by meson
qed

lemma finish_sync_R:
  assumes "I (ss_db ss)" "W run (ss_db ss)" "finish_sync w (sr_id run) st e c ss = (Inr r, ss')"
  shows "R (ss_db ss) (ss_db ss')"
  using assms(3) finish [OF assms(1,2)]
  by (auto simp: finish_sync_def andThen_Inr_iff dest!: utc_now_db on_rows_Inr split: option.splits)

lemma settle_failure_R:
  assumes "I (ss_db ss)" "\<forall>n s. I s \<longrightarrow> R s (sw_others w n s)" "W run (ss_db ss)"
  shows "R (ss_db ss) (ss_db (snd (settle_refresh_failure w run e ss)))"
proof -
  have frame: "ss_db (roll_back ss) = ss_db ss" by simp
  have I: "I (ss_db (roll_back ss))" using assms(1) by simp
  have credential: "R (ss_db ss) (ss_db (snd (transaction w (finish_sync w (sr_id run) st er c) (roll_back ss))))" for st er c
    unfolding frame [symmetric]
    by (rule transaction_R [OF I assms(2)], erule finish_sync_R, rule works [OF assms(1) _ assms(3)]) simp_all
  have failed: "R (ss_db ss) (ss_db (snd (transaction w (\<lambda>s.
      andThen (if b then on_rows (disable_identity (sr_account_id run) (sr_account_revision run)) s else (Inr (), s))
        (\<lambda>_ s1. finish_sync w (sr_id run) st er False s1)) (roll_back ss))))" for b st er
    unfolding frame [symmetric]
  proof (rule transaction_R [OF I assms(2)], goal_cases)
    case (1 s1 a s2)
    then have W1: "W run (ss_db s1)" using works [OF assms(1)] assms(3) by simp
    from 1(3) obtain s3 where s3: "R (ss_db s1) (ss_db s3)" "finish_sync w (sr_id run) st er False s3 = (Inr a, s2)"
      using disable [OF 1(1) W1] refl
      by (cases b) (fastforce simp: andThen_Inr_iff dest!: on_rows_Inr)+
    then show ?case using finish_sync_R [of s3 run] keep [OF 1(1)] works [OF 1(1) _ W1] trans by blast
  qed
  show ?thesis using credential failed refl by (cases e) (simp_all add: settle_refresh_failure_def)
qed

text \<open>From here on the run keeps being worked on: one goal for \<open>R\<close>, and \<open>W\<close> follows by \<open>works\<close>.\<close>

lemma validate_repositories_R:
  "I (ss_db ss) \<Longrightarrow> \<forall>n s. I s \<longrightarrow> R s (sw_others w n s) \<Longrightarrow>
   R (ss_db ss) (ss_db (snd (validate_repositories w j i names ss)))"
proof (induction names arbitrary: ss)
  case Nil
  then show ?case by simp
next
  case (Cons name names)
  show ?case unfolding validate_repositories.simps
  proof (rule andThen_R [OF Cons.prems(1)], goal_cases)
    case (2 u s1)
    show ?case
    proof (rule andThen_R [OF 2(2)], goal_cases)
      case 1
      then show ?case by (rule recheck_R [OF 2(2) Cons.prems(2)])
    next
      case (2 r s2)
      show ?case
      proof (rule andThen_R [OF 2(2)], goal_cases)
        case (2 page s3)
        then show ?case using Cons.IH [OF 2(2) Cons.prems(2)]
          by (auto split: prod.splits sum.splits intro!: andThen_R)
      qed simp
    qed
  qed simp
qed

lemma fetch_pages_R:
  "I (ss_db ss) \<Longrightarrow> \<forall>n s. I s \<longrightarrow> R s (sw_others w n s) \<Longrightarrow> W run (ss_db ss) \<Longrightarrow>
   R (ss_db ss) (ss_db (snd (fetch_pages w j (sr_id run) name repo_id kind numbers accepted ss)))"
proof (induction numbers arbitrary: accepted ss)
  case Nil
  then show ?case by simp
next
  case (Cons number numbers)
  have W: "W run t" if "R (ss_db ss) t" for t using works [OF Cons.prems(1) that Cons.prems(3)] .
  show ?case unfolding fetch_pages.simps
  proof (rule andThen_R [OF Cons.prems(1)], goal_cases)
    case (2 u s1)
    note one = this
    show ?case
    proof (rule andThen_R [OF 2(2)], goal_cases)
      case 1
      then show ?case by (rule recheck_R [OF one(2) Cons.prems(2)])
    next
      case (2 r s2)
      have Wr: "W r (ss_db s2)" using recheck_W [OF one(2) Cons.prems(2) W [OF one(3)] 2(1)] .
      note two = this 2
      show ?case
      proof (rule andThen_R [OF 2(2)], goal_cases)
        case (2 page s3)
        note three = this
        obtain data more_pages where page: "page = (data, more_pages)" by fastforce
        show ?case unfolding page prod.case
        proof (rule andThen_R [OF 2(2)], goal_cases)
          case (2 u2 s4)
          have Wr4: "W r (ss_db s4)" using works [OF three(2) 2(3)] works [OF two(3) three(3) two(1)] by blast
          have R4: "R (ss_db ss) (ss_db s4)" using one(3) two(4) three(3) 2(3) trans by blast
          show ?case
          proof (cases "list_snapshots w data kind repo_id")
            case (Inl e)
            then show ?thesis using refl by simp
          next
            case (Inr snapshots)
            show ?thesis
            proof (cases "accepted + length snapshots > MAX_ACCEPTED_ITEMS")
              case True
              then show ?thesis using Inr refl by simp
            next
              case False
              have "R (ss_db s4) (ss_db (snd (andThen (persist_page w r name repo_id kind snapshots s4) (\<lambda>_ s5.
                 let accepted = accepted + length snapshots in
                 if \<not> more_pages then (Inr (accepted, False), s5)
                 else if number = MAX_DATA_PAGES then (Inr (accepted, True), s5)
                 else fetch_pages w j (sr_id run) name repo_id kind numbers accepted s5))))"
              proof (rule andThen_R [OF 2(2)], goal_cases)
                case 1
                then show ?case by (rule persist_page_R [OF \<open>I (ss_db s4)\<close> Cons.prems(2) Wr4])
              next
                case (2 u3 s5)
                then show ?case using Cons.IH [OF 2(2) Cons.prems(2) W [OF trans [OF R4 2(3)]]] refl
                  by (simp add: Let_def)
              qed
              then show ?thesis using Inr False by simp
            qed
          qed
        qed simp
      qed simp
    qed
  qed simp
qed

lemma fetch_repositories_R:
  "I (ss_db ss) \<Longrightarrow> \<forall>n s. I s \<longrightarrow> R s (sw_others w n s) \<Longrightarrow> W run (ss_db ss) \<Longrightarrow>
   R (ss_db ss) (ss_db (snd (fetch_repositories w j run repos progress ss)))"
proof (induction repos arbitrary: progress ss)
  case Nil
  then show ?case by simp
next
  case (Cons repo repos)
  obtain name repo_id snapshot accepted incomplete where
    parts: "repo = (name, repo_id, snapshot)" "progress = (accepted, incomplete)" by (cases repo; cases progress) auto
  have one: "R (ss_db ss) (ss_db (snd (fetch_repository w j run repo progress ss)))"
    unfolding fetch_repository_def parts prod.case
  proof (rule andThen_R [OF Cons.prems(1)], goal_cases)
    case (2 u s1)
    note W1 = works [OF Cons.prems(1) 2(3) Cons.prems(3)] and I1 = 2(2)
    show ?case
    proof (rule andThen_R [OF 2(2)], goal_cases)
      case 1
      then show ?case by (rule persist_page_R [OF I1 Cons.prems(2) W1])
    next
      case (2 u2 s2)
      note W2 = works [OF I1 2(3) W1] and I2 = 2(2)
      show ?case
      proof (rule andThen_R [OF 2(2)], goal_cases)
        case 1
        then show ?case by (rule fetch_pages_R [OF I2 Cons.prems(2) W2])
      next
        case (2 res s3)
        note W3 = works [OF I2 2(3) W2] and I3 = 2(2)
        obtain acc more_issues where res: "res = (acc, more_issues)" by fastforce
        show ?case unfolding res prod.case
        proof (rule andThen_R [OF 2(2)], goal_cases)
          case 1
          then show ?case by (rule fetch_pages_R [OF I3 Cons.prems(2) W3])
        next
          case (2 res4 s4)
          then show ?case using refl by (cases res4) simp
        qed
      qed
    qed
  qed simp
  show ?case unfolding fetch_repositories.simps
    by (rule andThen_R [OF Cons.prems(1) one], rule Cons.IH [OF _ Cons.prems(2)], assumption,
        rule works [OF Cons.prems(1) _ Cons.prems(3)])
qed

lemma conclude_R:
  assumes "I (ss_db ss)" "\<forall>n s. I s \<longrightarrow> R s (sw_others w n s)" "W run (ss_db ss)"
  shows "R (ss_db ss) (ss_db (snd (conclude w (sr_id run) incomplete ss)))"
  unfolding conclude_def
proof (rule transaction_R [OF assms(1,2)], goal_cases)
  case (1 s1 a s2)
  note W1 = works [OF assms(1) 1(2) assms(3)]
  obtain s3 st e c where s3: "R (ss_db s1) (ss_db s3)" "finish_sync w (sr_id run) st e c s3 = (Inr a, s2)"
  proof (cases incomplete)
    case True
    then show ?thesis using 1(3) that [OF refl] by (auto simp: andThen_Inr_iff dest!: current_run_Inr)
  next
    case False
    then obtain r a5 s5 t s6 s4 where "captured_account w r s1 = (Inr a5, s5)" "utc_now w s5 = (Inr t, s6)"
      "on_rows (reconcile_latest_items r (set (ss_observed s6)) t) s6 = (Inr (), s4)"
      and fin: "finish_sync w (sr_id run) SYNC_SUCCEEDED None True s4 = (Inr a, s2)"
      using 1(3) by (auto simp: andThen_Inr_iff dest!: current_run_Inr)
    then have "reconcile_latest_items r (set (ss_observed s6)) t (ss_db s1) = (Inr (), ss_db s4)"
      using captured_account_db utc_now_db on_rows_Inr by metis
    with fin show ?thesis using that reconcile [OF 1(1)] by blast
  qed
  then show ?case using finish_sync_R keep [OF 1(1)] works [OF 1(1) _ W1] trans by blast
qed

lemma confirm_user_R [simp]: "R (ss_db ss) (ss_db (snd (confirm_user w j identity ss)))"
proof -
  have "ss_db (snd (confirm_user w j identity ss)) = ss_db ss"
    unfolding confirm_user_def
    by (subst andThen_frame [where F = ss_db]) (auto split: prod.splits sum.splits)
  then show ?thesis by (rule frame_R)
qed

lemma refresh_account_R:
  assumes "I (ss_db ss)" "\<forall>n s. I s \<longrightarrow> R s (sw_others w n s)" "W run (ss_db ss)"
  shows "R (ss_db ss) (ss_db (snd (refresh_account w deadline run a ss)))"
proof (cases "sw_secret w (ca_credential_reference a)")
  case (Inl e)
  then show ?thesis by (simp add: refresh_account_def)
next
  case (Inr secret)
  let ?s0 = "ticked (roll_back ss)"
  let ?j = "\<lparr> sj_deadline = deadline, sj_limit = sw_monotonic w (ss_tick ss) + SYNC_WALL_CLOCK, sj_secret = secret \<rparr>"
  have s0: "ss_db ?s0 = ss_db ss" by simp
  have I0: "I (ss_db ?s0)" and W0: "W run (ss_db ?s0)" using assms by simp_all
  have "R (ss_db ?s0) (ss_db (snd (andThen (github_deadline w deadline ?s0) (\<lambda>_ s1.
         andThen (start_run w (sr_id run) s1) (\<lambda>_ s2.
         andThen (github_deadline w deadline s2) (\<lambda>_ s3.
         andThen (confirm_user w ?j (ca_external_account_id a) s3) (\<lambda>_ s4.
         andThen (validate_repositories w ?j (sr_id run) (ca_resource_allowlist a) s4) (\<lambda>repos s5.
         andThen (github_deadline w deadline s5) (\<lambda>_ s6.
         andThen (mark_valid w (sr_id run) s6) (\<lambda>run2 s7.
         andThen (fetch_repositories w ?j run2 repos (0, False) s7) (\<lambda>(_, incomplete) s8.
           conclude w (sr_id run) incomplete s8)))))))))))"
  proof (rule andThen_R [OF I0], goal_cases)
    case (2 u1 s1)
    note W1 = works [OF I0 2(3) W0] and I1 = 2(2)
    show ?case
    proof (rule andThen_R [OF I1], goal_cases)
      case 1
      show ?case by (rule start_run_R [OF I1 assms(2) W1])
    next
      case (2 u2 s2)
      note W2 = works [OF I1 2(3) W1] and I2 = 2(2)
      show ?case
      proof (rule andThen_R [OF I2], goal_cases)
        case (2 u3 s3)
        note W3 = works [OF I2 2(3) W2] and I3 = 2(2)
        show ?case
        proof (rule andThen_R [OF I3], goal_cases)
          case (2 u4 s4)
          note W4 = works [OF I3 2(3) W3] and I4 = 2(2)
          show ?case
          proof (rule andThen_R [OF I4], goal_cases)
            case 1
            show ?case by (rule validate_repositories_R [OF I4 assms(2)])
          next
            case (2 repos s5)
            note W5 = works [OF I4 2(3) W4] and I5 = 2(2)
            show ?case
            proof (rule andThen_R [OF I5], goal_cases)
              case (2 u6 s6)
              note W6 = works [OF I5 2(3) W5] and I6 = 2(2)
              show ?case
              proof (rule andThen_R [OF I6], goal_cases)
                case 1
                show ?case by (rule mark_valid_R(1) [OF I6 assms(2)])
              next
                case (2 r s7)
                note W7 = works [OF I6 2(3) W6] and I7 = 2(2)
                  and Wr = mark_valid_R(2) [OF I6 assms(2) W6 HOL.refl 2(1)]
                show ?case
                proof (rule andThen_R [OF I7], goal_cases)
                  case 1
                  show ?case by (rule fetch_repositories_R [OF I7 assms(2) Wr])
                next
                  case (2 res s8)
                  then show ?case
                    using conclude_R [OF 2(2) assms(2) works [OF I7 2(3) W7]] by (cases res) simp
                qed
              qed
            qed simp
          qed
        qed simp
      qed simp
    qed
  qed simp
  then show ?thesis using Inr s0 by (simp add: refresh_account_def Let_def)
qed

lemma refresh_R:
  assumes "I (ss_db ss)" "\<forall>n s. I s \<longrightarrow> R s (sw_others w n s)" "W run (ss_db ss)"
  shows "R (ss_db ss) (ss_db (snd (refresh w run ss)))"
proof -
  let ?s0 = "ticked (fresh_refresh ss)"
  let ?d = "sw_monotonic w (ss_tick ss) + SYNC_WALL_CLOCK"
  let ?m = "andThen (captured_account w run ?s0) (refresh_account w ?d run)"
  have s0: "ss_db ?s0 = ss_db ss" by (simp add: fresh_refresh_def)
  have I0: "I (ss_db ?s0)" and W0: "W run (ss_db ?s0)" using assms unfolding s0 by simp_all
  have m: "R (ss_db ?s0) (ss_db (snd ?m))"
    by (rule andThen_R [OF I0], simp, rule refresh_account_R [OF _ assms(2)], assumption, rule works [OF I0 _ W0])
  obtain res s1 where eq: "?m = (res, s1)" by fastforce
  then have R1: "R (ss_db ss) (ss_db s1)" using m unfolding s0 by simp
  show ?thesis
  proof (cases res)
    case (Inl e)
    have "R (ss_db s1) (ss_db (snd (settle_refresh_failure w run e s1)))"
      by (rule settle_failure_R [OF keep [OF assms(1) R1] assms(2) works [OF assms(1) R1 assms(3)]])
    then show ?thesis using R1 trans eq Inl by (simp add: refresh_def Let_def)
  next
    case (Inr r)
    then show ?thesis using R1 eq by (simp add: refresh_def Let_def)
  qed
qed

lemma refresh_request_R:
  assumes "I s" "\<forall>n s. I s \<longrightarrow> R s (sw_others w n s)"
  shows "R s (snd (refresh_request w i expected t s))"
proof -
  obtain res s1 where eq: "claim_manual (sw_sha w) i expected t s = (res, s1)" by fastforce
  show ?thesis
  proof (cases res)
    case (Inl e)
    then show ?thesis using eq refl by (simp add: refresh_request_def committed_def)
  next
    case (Inr run)
    then have c: "R s s1" "W run s1" using claim_run [OF assms(1)] eq by auto
    have "R (ss_db (new_session s1)) (ss_db (snd (refresh w run (new_session s1))))"
      by (rule refresh_R) (use keep [OF assms(1) c(1)] c(2) assms(2) in \<open>simp_all add: new_session_def\<close>)
    then show ?thesis using c(1) trans eq Inr
      by (auto simp: refresh_request_def committed_def new_session_def split: prod.splits)
  qed
qed

section \<open>A whole tick\<close>

lemma work_claim_R:
  assumes "I (ss_db ss)" "\<forall>n s. I s \<longrightarrow> R s (sw_others w n s)"
  shows "R (ss_db ss) (ss_db (snd (work_claim w c t ss)))"
  unfolding work_claim_def
proof (rule andThen_R [OF assms(1)], goal_cases)
  case 1
  show ?case unfolding link_step_def
  proof (rule transaction_R [OF assms], goal_cases)
    case (1 s1 a s2)
    show ?case
    proof (cases "lock_refresh (ss_db s1) (rc_occurrence_id c)")
      case None
      then show ?thesis using 1(3) by simp
    next
      case (Some x)
      show ?thesis
      proof (cases "ro_state x = RO_CLAIMED")
        case True
        then obtain t r where "create_and_link_sync (sw_sha w) c t (ss_db s1) = (Inr r, ss_db s2)"
          using 1(3) Some by (auto simp: andThen_Inr_iff dest!: utc_now_db on_rows_Inr)
        then show ?thesis by (rule create_link [OF 1(1)])
      next
        case False
        then show ?thesis using 1(3) Some by simp
      qed
    qed
  qed
next
  case (2 present s1)
  note I1 = 2(2)
  show ?case
  proof (cases present)
    case False
    then show ?thesis using refl by simp
  next
    case True
    have "R (ss_db s1) (ss_db (snd (andThen (fence_step w c s1) (\<lambda>run s2.
        andThen (if sync_ended (sr_status run) then (Inr run, s2) else refresh w run s2) (\<lambda>_ s3.
        andThen (transaction w (on_rows (finalize_refresh c t)) s3) (\<lambda>_ s4. (Inr True, s4)))))))"
    proof (rule andThen_R [OF I1], goal_cases)
      case 1
      show ?case unfolding fence_step_def by (rule transaction_R [OF I1 assms(2)]) auto
    next
      case (2 run s2)
      note I2 = 2(2)
      have W2: "W run (ss_db s2)"
        using transaction_Inr [OF I1 assms(2) 2(1) [unfolded fence_step_def]] fenced by auto
      show ?case
      proof (rule andThen_R [OF I2], goal_cases)
        case 1
        show ?case using refresh_R [OF I2 assms(2) W2] refl by simp
      next
        case (2 r s3)
        note I3 = 2(2)
        show ?case
        proof (rule andThen_R [OF I3], goal_cases)
          case 1
          show ?case by (rule transaction_R [OF I3 assms(2)]) (auto dest!: on_rows_Inr finalize [rotated])
        qed (simp add: refl)
      qed
    qed
    then show ?thesis using True by simp
  qed
qed

lemma work_claims_R:
  "I (ss_db ss) \<Longrightarrow> \<forall>n s. I s \<longrightarrow> R s (sw_others w n s) \<Longrightarrow>
   R (ss_db ss) (ss_db (snd (work_claims w cs t counts ss)))"
proof (induction cs arbitrary: counts ss)
  case Nil
  then show ?case by simp
next
  case (Cons c cs)
  obtain completed failed where counts: "counts = (completed, failed)" by fastforce
  obtain res s1 where eq: "work_claim w c t ss = (res, s1)" by fastforce
  have R1: "R (ss_db ss) (ss_db s1)" using work_claim_R [OF Cons.prems] eq by (metis snd_conv)
  note I1 = keep [OF Cons.prems(1) R1]
  have "R (ss_db s1) (ss_db (snd (work_claims w cs t n s1)))"
    "R (ss_db s1) (ss_db (snd (work_claims w cs t n (roll_back s1))))" for n
    using Cons.IH [of s1 n] Cons.IH [of "roll_back s1" n] I1 Cons.prems(2) by simp_all
  then show ?case using R1 trans by (cases res) (auto simp: counts eq)
qed

lemma connector_tick_R:
  assumes "I (ss_db ss)" "\<forall>n s. I s \<longrightarrow> R s (sw_others world n s)"
  shows "R (ss_db ss) (ss_db (snd (connector_tick world zones owner t lease limit ss)))"
proof -
  let ?w = "world\<lparr>sw_caching := False\<rparr>"
  have rely: "\<forall>n s. I s \<longrightarrow> R s (sw_others ?w n s)" using assms(2) by simp
  show ?thesis unfolding connector_tick_def Let_def
  proof (rule andThen_R [OF assms(1)], goal_cases)
    case 1
    show ?case by (rule transaction_R [OF assms(1) rely]) (auto dest!: on_rows_Inr linked [rotated])
  next
    case (2 cl s1)
    note I1 = 2(2)
    show ?case
    proof (rule andThen_R [OF I1], goal_cases)
      case 1
      show ?case by (rule transaction_R [OF I1 rely]) (auto dest!: on_rows_Inr expired [rotated])
    next
      case (2 ce s2)
      note I2 = 2(2)
      show ?case
      proof (rule andThen_R [OF I2], goal_cases)
        case 1
        show ?case by (rule transaction_R [OF I2 rely]) (auto dest!: on_rows_Inr materialize [rotated])
      next
        case (2 ms s3)
        note I3 = 2(2)
        show ?case
        proof (rule andThen_R [OF I3], goal_cases)
          case 1
          show ?case by (rule transaction_R [OF I3 rely]) (auto dest!: on_rows_Inr claim [rotated])
        next
          case (2 cs s4)
          then show ?case using work_claims_R [OF 2(2) rely] by (auto split: prod.splits) (metis snd_conv)
        qed
      qed
    qed
  qed
qed

end

end
