(* ===== verification/Connector_Properties.thy ===== *)
theory Connector_Properties
  imports Connector_Guarantee
begin

text \<open>
  Properties of the connectors over any history of the program: requests on accounts and schedules, manual
  refreshes and scheduler ticks, each of them running beside other sessions of the same program.
\<close>

section \<open>Histories\<close>

text \<open>
  \<open>sw_others w n s\<close> is what the other sessions have made of \<open>s\<close> at the \<open>n\<close>-th observation; they run the same
  program, so it is a history of its own. A refused request rolls back.
\<close>

inductive connector_runs :: "connector_db \<Rightarrow> connector_db \<Rightarrow> bool" where
  idle: "connector_runs s s"
| chain: "connector_runs s s' \<Longrightarrow> connector_runs s' s'' \<Longrightarrow> connector_runs s s''"
| creates: "create_account sha identity credential scope names t s = (Inr a, s') \<Longrightarrow> connector_runs s s'"
| configures: "update_account i expected scope_change names_change s = (Inr a, s') \<Longrightarrow> connector_runs s s'"
| switches: "set_lifecycle i expected target s = (Inr a, s') \<Longrightarrow> connector_runs s s'"
| schedules: "create_schedule zones i v policy t s = (Inr r, s') \<Longrightarrow> connector_runs s s'"
| reschedules: "update_schedule zones i expected v policy t s = (Inr r, s') \<Longrightarrow> connector_runs s s'"
| transitions: "transition_schedule zones i expected action t s = (Inr r, s') \<Longrightarrow> connector_runs s s'"
| refreshes: "(\<And>n s. connector_runs s (sw_others w n s)) \<Longrightarrow> connector_runs s (snd (refresh_request w i expected t s))"
| ticks: "(\<And>n s. connector_runs s (sw_others w n s)) \<Longrightarrow>
    connector_runs (ss_db ss) (ss_db (snd (connector_tick w zones owner t lease limit ss)))"

text \<open>What every request and every write of a refresh or a tick guarantees, a history guarantees.\<close>

locale connector_history = connector_guarantee +
  assumes account_created: "I s \<Longrightarrow> create_account sha identity credential scope names u s = (Inr a, s') \<Longrightarrow> R s s'"
    and account_configured: "I s \<Longrightarrow> update_account i expected scope_change names_change s = (Inr a, s') \<Longrightarrow> R s s'"
    and account_switched: "I s \<Longrightarrow> set_lifecycle i expected target s = (Inr a, s') \<Longrightarrow> R s s'"
    and schedule_created: "I s \<Longrightarrow> create_schedule zones i v policy u s = (Inr c, s') \<Longrightarrow> R s s'"
    and schedule_changed: "I s \<Longrightarrow> update_schedule zones i expected v policy u s = (Inr c, s') \<Longrightarrow> R s s'"
    and schedule_moved: "I s \<Longrightarrow> transition_schedule zones i expected action u s = (Inr c, s') \<Longrightarrow> R s s'"
begin

lemma runs_R: "connector_runs s s' \<Longrightarrow> I s \<Longrightarrow> R s s'"
proof (induction rule: connector_runs.induct)
  case (idle s)
  show ?case by (rule refl)
next
  case (chain s s' s'')
  then show ?case using keep trans by blast
next
  case (refreshes w s i expected t)
  then show ?case by (intro refresh_request_R) auto
next
  case (ticks w ss zones owner t lease limit)
  then show ?case by (intro connector_tick_R) auto
qed (blast intro: account_created account_configured account_switched schedule_created schedule_changed schedule_moved)+

end

lemma known_run_self: "get_sync_run s i = Some r \<Longrightarrow> known_run r s"
  by (auto simp: known_run_def get_sync_run_def dest: row_get_key)

lemma fence_known: "validate_network_fence c s = Inr r \<Longrightarrow> known_run r s"
  by (auto simp: validate_network_fence_def split: sum.splits option.splits intro: known_run_self)

lemma claim_known:
  assumes "claim_manual sha i expected t s = (Inr r, s')" and ok: "connector_ok s"
  shows "connector_kept s s' \<and> known_run r s'"
proof -
  note c = assms(1) [unfolded claim_manual_def]
  have r: "sr_id r = cd_next_id s" "cd_sync_runs s' = cd_sync_runs s @ [r]"
    by (rule claim_with_trigger_Inr [OF c], simp)+
  have "row_get sr_id (cd_sync_runs s) (sr_id r) = None"
    using okD(1) [OF ok] r(1) by (auto simp: row_get_None_iff connector_rows_ok_def table_ok_def)
  then have "get_sync_run s' (sr_id r) = Some r" by (simp add: get_sync_run_def r(2) row_get_append row_get_Cons)
  then show ?thesis using claim_with_trigger_kept [OF c] known_run_self by blast
qed

interpretation ck: connector_history connector_ok connector_kept known_run
proof
  show "connector_kept s s" for s by (rule connector_kept_refl)
  show "connector_kept s s' \<Longrightarrow> connector_kept s' s'' \<Longrightarrow> connector_kept s s''" for s s' s''
    by (rule connector_kept_trans)
  show "connector_ok s \<Longrightarrow> connector_kept s s' \<Longrightarrow> connector_ok s'" for s s' by (simp add: connector_kept_def)
  show "connector_ok s \<Longrightarrow> connector_kept s s' \<Longrightarrow> known_run run s \<Longrightarrow> known_run run s'" for s s' run
    by (rule known_run_kept)
  show "get_sync_run s (sr_id run) = Some r \<Longrightarrow> known_run r s" for s run r by (rule known_run_self)
  show "validate_network_fence c s = Inr r \<Longrightarrow> known_run r s" for c s r by (rule fence_known)
  show "connector_ok s \<Longrightarrow>
      flush_sync_run (sr_id run) (\<lambda>x. x\<lparr>sr_status := SYNC_RUNNING, sr_started_at := Some u\<rparr>) s = (Inr r, s') \<Longrightarrow>
      connector_kept s s'" for s s' run u r
    by (erule (1) run_write_kept) (simp_all add: sync_captured_def)
  show "connector_ok s \<Longrightarrow> flush_sync_run (sr_id run) (count_items n m) s = (Inr r, s') \<Longrightarrow> connector_kept s s'"
    for s s' run n m r
    by (erule (1) run_write_kept) (simp_all add: sync_captured_def count_items_def)
  show "connector_ok s \<Longrightarrow> flush_sync_run (sr_id run) (finish_row st e c2 u) s = (Inr r, s') \<Longrightarrow> connector_kept s s'"
    for s s' run st e c2 u r
    by (erule (1) run_write_kept) (simp_all add: sync_captured_def finish_row_def)
  show "flush_account i (\<lambda>x. x\<lparr>ca_validation_status := (if v then ca_validation_status x else ''valid''),
      ca_last_validated_at := Some u\<rparr>) s = (Inr a, s') \<Longrightarrow> connector_kept s s'" for i v u s a s'
    by (rule mark_kept)
  show "connector_ok s \<Longrightarrow> known_run run s \<Longrightarrow>
      disable_identity (sr_account_id run) (sr_account_revision run) s = (Inr z, s') \<Longrightarrow> connector_kept s s'" for run s z s'
    by (rule disable_identity_kept)
  show "record_item_revision sha x u s = (Inr y, s') \<Longrightarrow> connector_kept s s'" for sha x u s y s'
    by (cases y) (auto dest: record_item_revision_kept)
  show "reconcile_latest_items run obs u s = (Inr z, s') \<Longrightarrow> connector_kept s s'" for run obs u s z s'
    by (rule reconcile_kept)
  show "reclaim_linked_refreshes l owner u lease limit s = (Inr cs, s') \<Longrightarrow> connector_kept s s'" for l owner u lease limit s cs s'
    by (rule reclaim_linked_kept)
  show "reclaim_expired_refreshes l owner u lease limit s = (Inr cs, s') \<Longrightarrow> connector_kept s s'" for l owner u lease limit s cs s'
    by (rule reclaim_expired_kept)
  show "materialize_refreshes zones l u limit s = (Inr os, s') \<Longrightarrow> connector_kept s s'" for zones l u limit s os s'
    unfolding materialize_refreshes_def by (rule materialize_schedules_kept)
  show "claim_refreshes l owner u lease limit s = (Inr cs, s') \<Longrightarrow> connector_kept s s'" for l owner u lease limit s cs s'
    by (rule claim_refreshes_kept)
  show "create_and_link_sync sha c u s = (Inr r, s') \<Longrightarrow> connector_kept s s'" for sha c u s r s'
    by (rule create_and_link_kept)
  show "connector_ok s \<Longrightarrow> claim_manual sha i expected u s = (Inr r, s') \<Longrightarrow> connector_kept s s' \<and> known_run r s'"
    for sha i expected u s r s' by (rule claim_known)
  show "finalize_refresh c u s = (Inr oc, s') \<Longrightarrow> connector_kept s s'" for c u s oc s'
    by (rule finalize_refresh_kept)
qed (auto intro: create_account_kept update_account_kept set_lifecycle_kept create_schedule_kept update_schedule_kept
    transition_schedule_kept)

lemma connector_runs_kept: "connector_runs s s' \<Longrightarrow> connector_kept s s'"
  by (rule keptI) (rule ck.runs_R)

lemma connector_runs_ok: "connector_runs s s' \<Longrightarrow> connector_ok s \<Longrightarrow> connector_ok s' \<and> connector_grows s s'"
  using connector_runs_kept by (simp add: connector_kept_def)

lemma refresh_get_grows:
  "connector_grows s s' \<Longrightarrow> lock_refresh s i = Some x \<Longrightarrow> \<exists>y. lock_refresh s' i = Some y \<and> refresh_grows x y"
  by (auto simp: connector_grows_def rows_grow_def lock_refresh_def)

section \<open>An example\<close>

definition example_sha :: "string \<Rightarrow> string" where
  "example_sha t = replicate 64 (CHR ''a'')"

definition empty_connectors :: connector_db where
  "empty_connectors = \<lparr> cd_next_id = 1, cd_projects = [], cd_accounts = [], cd_sync_runs = [], cd_items = [],
     cd_schedules = [], cd_occurrences = [], cd_notifications = [] \<rparr>"

definition example_account :: connector_account where
  "example_account =
     \<lparr> ca_id = 1, ca_provider = ''github'', ca_external_account_id = ''octo'',
       ca_external_account_fingerprint = replicate 64 (CHR ''a''),
       ca_credential_reference = ''sbcred:v1:00000000-0000-4000-8000-000000000000'', ca_project_id = None,
       ca_resource_allowlist = [''octo/hello''], ca_granted_scope_fingerprint = replicate 64 (CHR ''a''),
       ca_lifecycle = ACCOUNT_DISABLED, ca_validation_status = ''unvalidated'', ca_revision = 0,
       ca_last_validated_at = None, ca_created_at = 0 \<rparr>"

definition connected :: connector_db where
  "connected = empty_connectors\<lparr>cd_next_id := 2, cd_accounts := [example_account]\<rparr>"

definition enabled_account :: connector_account where
  "enabled_account = example_account\<lparr>ca_lifecycle := ACCOUNT_ENABLED, ca_revision := 1\<rparr>"

definition enabled :: connector_db where
  "enabled = connected\<lparr>cd_accounts := [enabled_account]\<rparr>"

definition example_world :: sync_world where
  "example_world = \<lparr> sw_sha = example_sha, sw_loads = (\<lambda>t. None), sw_caching = True, sw_others = (\<lambda>n s. s),
     sw_monotonic = (\<lambda>n. 0), sw_now = (\<lambda>n. 10), sw_http = (\<lambda>n r. ConnectionBroken),
     sw_secret = (\<lambda>r. Inr ''token''), sw_locked = (\<lambda>n i. False) \<rparr>"

lemma example_creates:
  "create_account example_sha ''octo'' ''sbcred:v1:00000000-0000-4000-8000-000000000000'' None [''octo/hello''] 0
     empty_connectors = (Inr example_account, connected)"
  by code_simp

lemma example_enables: "set_lifecycle 1 0 ACCOUNT_ENABLED connected = (Inr enabled_account, enabled)"
  by code_simp

lemma empty_connectors_ok: "connector_ok empty_connectors"
  by (simp add: connector_ok_def connector_rows_ok_def table_ok_def sync_slots_ok_def active_sync_count_def revisions_ok_def
      links_ok_def captures_ok_def empty_connectors_def)

lemma example_runs:
  "connector_runs empty_connectors
     (ss_db (snd (connector_tick example_world (\<lambda>_. None) 7 20 5 16 (new_session (snd (refresh_request example_world 1 1 10 enabled))))))"
proof -
  have others: "connector_runs s (sw_others example_world n s)" for n s by (simp add: example_world_def idle)
  have "connector_runs (ss_db (new_session (snd (refresh_request example_world 1 1 10 enabled))))
     (ss_db (snd (connector_tick example_world (\<lambda>_. None) 7 20 5 16 (new_session (snd (refresh_request example_world 1 1 10 enabled))))))"
    by (rule ticks) (rule others)
  moreover have "connector_runs enabled (snd (refresh_request example_world 1 1 10 enabled))"
    by (rule refreshes) (rule others)
  ultimately show ?thesis unfolding new_session_def sync_session.simps
    by (intro chain [OF chain [OF creates [OF example_creates] switches [OF example_enables]] chain])
qed

section \<open>Invariants\<close>

text \<open>C17: Whatever the program and its other sessions do with connectors, every account, sync run, item, schedule and
  occurrence keeps its column constraints and its own key, a linked run exists and belongs to one occurrence, and no
  run has captured a revision of its account that is still to come.\<close>

theorem connector_rows_well_formed:
  assumes "connector_runs s s'" and "connector_ok s"
  shows "connector_rows_ok s' \<and> links_ok s' \<and> captures_ok s'"
  using connector_runs_ok [OF assms] okD by blast

theorem connector_rows_well_formed_witness:
  "connector_rows_ok (ss_db (snd (connector_tick example_world (\<lambda>_. None) 7 20 5 16
     (new_session (snd (refresh_request example_world 1 1 10 enabled))))))"
  using connector_rows_well_formed [OF example_runs empty_connectors_ok] by blast

text \<open>C18: At any time at most four syncs are active, and at most one of an account, whoever started them.\<close>

theorem active_syncs_limited:
  assumes "connector_runs s s'" and "connector_ok s"
  shows "active_sync_count s' \<le> 4 \<and>
    (\<forall>r \<in> set (cd_sync_runs s'). \<forall>q \<in> set (cd_sync_runs s'). sr_status r \<in> {SYNC_CLAIMED, SYNC_RUNNING} \<longrightarrow>
       sr_status q \<in> {SYNC_CLAIMED, SYNC_RUNNING} \<longrightarrow> sr_account_id r = sr_account_id q \<longrightarrow> r = q)"
proof -
  have ok: "connector_ok s'" using connector_runs_ok [OF assms] by simp
  have "distinct (map sr_id (cd_sync_runs s'))" using okD(1) [OF ok] by (simp add: connector_rows_ok_def table_ok_def)
  then have "r = q" if "r \<in> set (cd_sync_runs s')" "q \<in> set (cd_sync_runs s')" "sr_id r = sr_id q" for r q
    using that by (auto simp: distinct_map inj_on_def)
  moreover have "active_run r \<longleftrightarrow> sr_status r \<in> {SYNC_CLAIMED, SYNC_RUNNING}" for r
    by (simp add: active_run_def SYNC_ACTIVE_def)
  ultimately show ?thesis using okD(5) [OF ok] okD(6) [OF ok]
    unfolding active_count GLOBAL_ACTIVE_SYNC_CAP_def by blast
qed

theorem active_syncs_limited_witness:
  "active_sync_count (ss_db (snd (connector_tick example_world (\<lambda>_. None) 7 20 5 16
     (new_session (snd (refresh_request example_world 1 1 10 enabled)))))) \<le> 4"
  using active_syncs_limited [OF example_runs empty_connectors_ok] by blast

text \<open>C19: Over any such history an account changes lifecycle, Project or repositories only together with its revision
  and stays revoked once revoked, an ended occurrence stays exactly as it ended, lease generations never fall, and
  the items that were recorded stay the first items with their content, numbered 1, 2, 3, \dots per identity.\<close>

theorem connector_history_grows:
  assumes "connector_runs s s'" and "connector_ok s"
  shows "(\<forall>i a. get_account s i = Some a \<longrightarrow> (\<exists>b. get_account s' i = Some b \<and> ca_revision a \<le> ca_revision b \<and>
        (ca_lifecycle a = ACCOUNT_REVOKED \<longrightarrow> ca_lifecycle b = ACCOUNT_REVOKED) \<and>
        (ca_revision b = ca_revision a \<longrightarrow> ca_lifecycle b = ca_lifecycle a \<and> ca_project_id b = ca_project_id a \<and>
           ca_resource_allowlist b = ca_resource_allowlist a))) \<and>
    (\<forall>i x. lock_refresh s i = Some x \<longrightarrow> (\<exists>y. lock_refresh s' i = Some y \<and>
        ro_lease_generation x \<le> ro_lease_generation y \<and> (refresh_ended (ro_state x) \<longrightarrow> y = x))) \<and>
    map item_content (take (length (cd_items s)) (cd_items s')) = map item_content (cd_items s) \<and>
    revisions_ok (cd_items s')"
proof -
  have ok: "connector_ok s'" and grows: "connector_grows s s'" using connector_runs_ok [OF assms] by simp_all
  have "\<exists>b. get_account s' i = Some b \<and> account_grows a b" if "get_account s i = Some a" for i a
    using account_get_grows [OF grows that] .
  moreover have "\<exists>y. lock_refresh s' i = Some y \<and> refresh_grows x y" if "lock_refresh s i = Some x" for i x
    using grows that by (auto simp: connector_grows_def rows_grow_def lock_refresh_def)
  moreover obtain zs where "map item_content (cd_items s') = map item_content (cd_items s) @ zs"
    using grows by (auto simp: connector_grows_def items_grow_def)
  then have "map item_content (take (length (cd_items s)) (cd_items s')) = map item_content (cd_items s)"
    by (metis append_eq_conv_conj length_map take_map)
  ultimately show ?thesis using okD(2) [OF ok] by (fastforce simp: account_grows_def refresh_grows_def)
qed

theorem connector_history_grows_witness:
  "\<exists>b. get_account (snd (refresh_request example_world 1 1 10 enabled)) 1 = Some b \<and> 1 \<le> ca_revision b"
proof -
  have others: "connector_runs s (sw_others example_world n s)" for n s by (simp add: example_world_def idle)
  have ok: "connector_ok enabled"
    using connector_runs_ok [OF chain [OF creates [OF example_creates] switches [OF example_enables]] empty_connectors_ok] by simp
  have "get_account enabled 1 = Some enabled_account" by code_simp
  then show ?thesis
    using connector_history_grows [OF refreshes [of example_world enabled 1 1 10, OF others] ok]
    by (force simp: enabled_account_def)
qed

end
