(* ===== verification/Connector_Outcomes.thy ===== *)
theory Connector_Outcomes
  imports Connector_Properties
begin

text \<open>
  What single steps of the connectors achieve: the slot a due schedule is materialized for, the fencing of claims
  by their generation, and what a successful sync makes of the items of its account.
\<close>

section \<open>The slot of an occurrence\<close>

lemma latest_slot_Inr:
  "latest_slot zones d t p = Inr (l, f) \<Longrightarrow> sp_utc_instant p \<le> t \<Longrightarrow>
   sp_utc_instant p \<le> sp_utc_instant l \<and> sp_utc_instant l \<le> t \<and> next_point zones d (sp_utc_instant l) None = Inr f \<and>
   (case f of None \<Rightarrow> True | Some g \<Rightarrow> t < sp_utc_instant g)"
proof (induction zones d t p rule: latest_slot.induct)
  case (1 zones d t p)
  show ?case
  proof (cases "next_point zones d (sp_utc_instant p) None")
    case (Inl e)
    then show ?thesis using 1(2) by simp
  next
    case (Inr g)
    show ?thesis
    proof (cases "\<exists>q. g = Some q \<and> sp_utc_instant q \<le> t")
      case True
      then obtain q where q: "g = Some q" "sp_utc_instant q \<le> t" by blast
      have "latest_slot zones d t q = Inr (l, f)" using 1(2) Inr q by (subst (asm) latest_slot.simps) simp
      moreover have "sp_utc_instant p < sp_utc_instant q" using slot_after Inr q(1) by blast
      ultimately show ?thesis using 1(1) [OF Inr q(1) q(2)] q(2) by simp
    next
      case False
      then have "l = p \<and> f = g" using 1(2) Inr by (subst (asm) latest_slot.simps) (auto split: option.splits if_splits)
      then show ?thesis using Inr False 1(3) by (auto split: option.split)
    qed
  qed
qed

lemma insert_refresh_Inr:
  "insert_refresh x s = (Inr oc, s') \<Longrightarrow> oc = x\<lparr>ro_id := cd_next_id s\<rparr> \<and>
   s' = s\<lparr>cd_next_id := Suc (cd_next_id s), cd_occurrences := cd_occurrences s @ [oc]\<rparr>"
  by (auto simp: insert_refresh_def Let_def split: if_splits)

lemma schedule_after_notify: "notify_refresh x e sv c s = (Inr u, s') \<Longrightarrow> cd_schedules s' = cd_schedules s"
  by (auto simp: notify_refresh_def insert_refresh_notification_def split: if_splits)


definition utc_zones :: "string \<Rightarrow> time_zone option" where
  "utc_zones name = (if name = ''UTC'' then Some \<lparr> tz_utc_offset = (\<lambda>t. 0), tz_wall_offset = (\<lambda>w. 0) \<rparr> else None)"

definition nightly :: refresh_schedule where
  "nightly = \<lparr> cs_id = 3, cs_account_id = 1, cs_lifecycle = SCHEDULE_ENABLED, cs_revision = 1,
     cs_schedule_revision = 0, cs_schedule_kind = ''daily'', cs_timezone_name = ''UTC'', cs_local_time = 0,
     cs_one_time_local_date = None, cs_weekdays = [], cs_missed_run_policy = ''run_once'',
     cs_next_occurrence_at = Some (700000 * DAY), cs_cancelled_at = None \<rparr>"

definition scheduled :: connector_db where
  "scheduled = enabled\<lparr>cd_next_id := 4, cd_schedules := [nightly]\<rparr>"

definition nightly_slot :: schedule_point where
  "nightly_slot = \<lparr> sp_local_date = 700000, sp_local_time = 0, sp_timezone_name = ''UTC'', sp_utc_offset_minutes = 0,
     sp_utc_instant = 700000 * DAY \<rparr>"

definition nightly_occurrence :: refresh_occurrence where
  "nightly_occurrence = (new_refresh nightly enabled_account nightly_slot RO_DUE (700000 * DAY + 5))\<lparr>ro_id := 4\<rparr>"


section \<open>Claims of an earlier generation\<close>

text \<open>A claim of an occurrence is fenced by its generation: once another owner has taken the occurrence over, or
  it has ended, no history lets the older claim link a run, pass the fence before the network, or finalize.\<close>

theorem older_refresh_claims_refused:
  assumes "connector_runs s s'" and "connector_ok s" and "lock_refresh s (rc_occurrence_id c) = Some x"
    and "rc_lease_generation c < ro_lease_generation x \<or> refresh_ended (ro_state x)"
  shows "create_and_link_sync sha c t s' = (Inl ValueError, s') \<and> validate_network_fence c s' = Inl ValueError \<and>
    finalize_refresh c t s' = (Inl ValueError, s')"
proof -
  obtain y where y: "lock_refresh s' (rc_occurrence_id c) = Some y" "refresh_grows x y"
    using connector_runs_ok [OF assms(1,2)] refresh_get_grows [OF _ assms(3)] by blast
  have "ro_lease_generation y \<noteq> rc_lease_generation c \<or> refresh_ended (ro_state y)"
    using y(2) assms(4) by (auto simp: refresh_grows_def)
  then have "validated_refresh c st s' = Inl ValueError" if "\<not> refresh_ended st" for st
    using y(1) that by (auto simp: validated_refresh_def split: option.split)
  then show ?thesis
    by (simp add: create_and_link_sync_def validate_network_fence_def finalize_refresh_def refresh_ended_def)
qed

text \<open>An occurrence that a second owner has taken over from the first.\<close>

definition taken_over :: refresh_occurrence where
  "taken_over = take_lease 8 (700001 * DAY) (700002 * DAY)
     (take_claim 7 (700000 * DAY) (700001 * DAY) nightly_occurrence)"

definition contested :: connector_db where
  "contested = scheduled\<lparr>cd_next_id := 5, cd_occurrences := [taken_over]\<rparr>"

lemma contested_ok: "connector_ok contested"
proof -
  have "connector_rows_ok contested" "sync_slots_ok contested" by code_simp+
  moreover have "cd_items contested = []" "cd_sync_runs contested = []" "cd_occurrences contested = [taken_over]"
    "ro_connector_sync_run_id taken_over = None"
    by code_simp+
  ultimately show ?thesis by (simp add: connector_ok_def revisions_ok_def links_ok_def captures_ok_def)
qed

theorem older_refresh_claims_refused_witness:
  "finalize_refresh \<lparr>rc_occurrence_id = 4, rc_schedule_id = 3, rc_owner_token = 7, rc_lease_generation = 1\<rparr> 9
     (snd (refresh_request example_world 1 1 10 contested)) =
   (Inl ValueError, snd (refresh_request example_world 1 1 10 contested))"
proof -
  let ?c = "\<lparr>rc_occurrence_id = 4, rc_schedule_id = 3, rc_owner_token = 7, rc_lease_generation = 1\<rparr>"
  have runs: "connector_runs contested (snd (refresh_request example_world 1 1 10 contested))"
    by (rule refreshes) (simp add: example_world_def idle)
  have x: "lock_refresh contested (rc_occurrence_id ?c) = Some taken_over" by code_simp
  have g: "rc_lease_generation ?c < ro_lease_generation taken_over" by code_simp
  show ?thesis using older_refresh_claims_refused [OF runs contested_ok x] g by blast
qed

section \<open>The items of a successful sync\<close>

lemma settle_item_simps [simp]:
  "item_identity (settle_item observed t run x) = item_identity x"
  "xi_application_revision (settle_item observed t run x) = xi_application_revision x"
  "xi_account_id (settle_item observed t run x) = xi_account_id x"
  "xi_project_id (settle_item observed t run x) = xi_project_id x"
  "xi_external_resource_id (settle_item observed t run x) = xi_external_resource_id x"
  "xi_external_item_id (settle_item observed t run x) = xi_external_item_id x"
  by (simp_all add: settle_item_def Let_def item_identity_def)

lemma settle_item_state:
  "xi_state (settle_item observed t run x) =
     (if (xi_external_resource_id x, xi_external_item_id x) \<in> observed then ITEM_CURRENT else ITEM_STALE)"
  by (simp add: settle_item_def Let_def)

lemma is_latest_map:
  assumes "\<And>x. item_identity (f x) = item_identity x" "\<And>x. xi_application_revision (f x) = xi_application_revision x"
  shows "is_latest (map f xs) (f x) = is_latest xs x"
  by (simp add: is_latest_def list_all_iff assms)

lemma reconcile_states:
  assumes "reconcile_latest_items run observed t s = (Inr u, s')" and x: "x \<in> set (cd_items s')"
    and "xi_account_id x = sr_account_id run" "xi_project_id x = sr_project_id run" "is_latest (cd_items s') x"
  shows "xi_state x = (if (xi_external_resource_id x, xi_external_item_id x) \<in> observed then ITEM_CURRENT else ITEM_STALE)"
proof -
  let ?f = "\<lambda>x. if xi_account_id x = sr_account_id run \<and> is_latest (cd_items s) x \<and> xi_project_id x = sr_project_id run
    then settle_item observed t (sr_id run) x else x"
  have items: "cd_items s' = map ?f (cd_items s)"
    using assms(1) by (auto simp: reconcile_latest_items_def Let_def split: if_splits)
  obtain y where y: "y \<in> set (cd_items s)" "x = ?f y" using x items by auto
  have "is_latest (map ?f (cd_items s)) (?f y) = is_latest (cd_items s) y" by (rule is_latest_map) simp_all
  then have "is_latest (cd_items s) y" using assms(5) items y(2) by simp
  moreover have "xi_account_id y = sr_account_id run" "xi_project_id y = sr_project_id run"
    using assms(3,4) y(2) by (simp_all split: if_splits)
  ultimately show ?thesis using y(2) by (simp add: settle_item_state)
qed

lemma on_rows_Inr_iff: "on_rows f ss = (Inr a, ss') \<longleftrightarrow> (\<exists>db. f (ss_db ss) = (Inr a, db) \<and> ss' = ss\<lparr>ss_db := db\<rparr>)"
  by (cases "f (ss_db ss)") (auto simp: on_rows_def)

lemma transaction_Inr_iff:
  "transaction w body ss = (Inr a, ss') \<longleftrightarrow>
     body (ticked (ss\<lparr>ss_db := sw_others w (ss_tick ss) (ss_db ss)\<rparr>)) = (Inr a, ss')"
  by (auto simp: transaction_def Let_def split: prod.splits sum.splits)

lemma then_utc_now: "andThen (utc_now w ss) f = f (sw_now w (ss_tick ss)) (ticked ss)"
  by (simp add: utc_now_def)

lemma ticked_simps: "ss_db (ticked ss) = ss_db ss" "ss_observed (ticked ss) = ss_observed ss"
  by (simp_all add: ticked_def)

lemma finish_sync_Inr:
  assumes "finish_sync w i st e c ss = (Inr r, ss')"
  shows "sr_status r = st \<and> sr_reconciliation_complete r = c \<and> cd_items (ss_db ss') = cd_items (ss_db ss) \<and>
    ss_observed ss' = ss_observed ss \<and> (\<exists>q. get_sync_run (ss_db ss) i = Some q \<and> r = finish_row st e c (sw_now w (ss_tick ss)) q)"
proof -
  let ?f = "finish_row st e c (sw_now w (ss_tick ss))"
  obtain db where f: "flush_sync_run i ?f (ss_db ss) = (Inr r, db)" "ss' = (ticked ss)\<lparr>ss_db := db\<rparr>"
    using assms unfolding finish_sync_def then_utc_now
    by (cases "get_sync_run (ss_db ss) i") (auto simp: on_rows_Inr_iff ticked_simps)
  have "\<And>x. sr_id (?f x) = sr_id x" by (simp add: finish_row_def)
  from flush_sync_run_Inr [OF f(1) this] show ?thesis
    using f(2) by (auto simp: upd_sync_run_def finish_row_def ticked_def)
qed

lemma captured_observed: "captured_account w run ss = (Inr a, ss') \<Longrightarrow> ss_observed ss' = ss_observed ss \<and> ss_db ss' = ss_db ss"
  by (auto simp: captured_account_def split: option.splits if_splits)

lemma reconcile_runs: "reconcile_latest_items run obs t s = (Inr u, s') \<Longrightarrow> get_sync_run s' = get_sync_run s"
  by (auto simp: reconcile_latest_items_def Let_def get_sync_run_def split: if_splits)

text \<open>Only the conclusion of a complete refresh reports success.\<close>

lemma conclude_succeeded:
  assumes "conclude w i incomplete ss = (Inr r, ss')" and "sr_status r = SYNC_SUCCEEDED"
  shows "sr_reconciliation_complete r \<and> (\<exists>run t s s1. get_sync_run s i = Some run \<and>
    reconcile_latest_items run (set (ss_observed ss')) t s = (Inr (), s1) \<and> cd_items (ss_db ss') = cd_items s1 \<and>
    sr_account_id r = sr_account_id run \<and> sr_project_id r = sr_project_id run)"
proof -
  let ?s0 = "ticked (ss\<lparr>ss_db := sw_others w (ss_tick ss) (ss_db ss)\<rparr>)"
  obtain run s1 s4 where run: "current_run i ?s0 = (Inr run, s1)"
    and mid: "(if incomplete then (Inr (), s1)
              else andThen (captured_account w run s1) (\<lambda>_ s2.
                   andThen (utc_now w s2) (\<lambda>t s3.
                     on_rows (reconcile_latest_items run (set (ss_observed s3)) t) s3))) = (Inr (), s4)"
    and fin: "finish_sync w i (if incomplete then SYNC_INCOMPLETE else SYNC_SUCCEEDED)
          (if incomplete then Some ''github_pagination_ceiling'' else None) (\<not> incomplete) s4 = (Inr r, ss')"
    using assms(1) unfolding conclude_def transaction_Inr_iff andThen_Inr_iff by auto
  note f = finish_sync_Inr [OF fin]
  then have complete: "\<not> incomplete" using assms(2) by auto
  have run': "s1 = ?s0" "get_sync_run (ss_db ?s0) i = Some run"
    using current_run_Inr [OF run] by auto
  obtain a s2 t db where m: "captured_account w run s1 = (Inr a, s2)"
    "reconcile_latest_items run (set (ss_observed s2)) t (ss_db s2) = (Inr (), db)"
    "s4 = (ticked s2)\<lparr>ss_db := db\<rparr>"
    using mid unfolding if_not_P [OF complete] then_utc_now andThen_Inr_iff on_rows_Inr_iff ticked_simps by blast
  have s2: "ss_db s2 = ss_db ?s0" using captured_observed [OF m(1)] run'(1) by simp
  have "get_sync_run (ss_db s4) i = Some run" using reconcile_runs [OF m(2)] s2 run'(2) m(3) by simp
  then have "sr_account_id r = sr_account_id run" "sr_project_id r = sr_project_id run"
    using f by (auto simp: finish_row_def)
  moreover have "ss_observed ss' = ss_observed s2" "cd_items (ss_db ss') = cd_items db"
    using f m(3) by (simp_all add: ticked_def)
  ultimately show ?thesis using f complete m(2) s2 run'(2) by auto
qed

lemma refresh_concludes:
  assumes "refresh_account w deadline run a ss = (Inr r, ss')"
  obtains incomplete s8 where "conclude w (sr_id run) incomplete s8 = (Inr r, ss')"
proof -
  obtain secret where "sw_secret w (ca_credential_reference a) = Inr secret"
    using assms by (cases "sw_secret w (ca_credential_reference a)") (simp_all add: refresh_account_def split: if_splits)
  then show ?thesis
    using assms that unfolding refresh_account_def Let_def
    by (simp add: andThen_Inr_iff split: if_splits) blast
qed

lemma refresh_succeeded:
  assumes "refresh w run ss = (Inr r, ss')" and "sr_status r = SYNC_SUCCEEDED"
  obtains incomplete s8 where "conclude w (sr_id run) incomplete s8 = (Inr r, ss')"
proof (cases "andThen (captured_account w run (ticked (fresh_refresh ss)))
    (refresh_account w (sw_monotonic w (ss_tick ss) + SYNC_WALL_CLOCK) run)")
  case (Pair res s1)
  show ?thesis
  proof (cases res)
    case (Inl e)
    then have "settle_refresh_failure w run e s1 = (Inr r, ss')" using assms(1) Pair by (simp add: refresh_def Let_def)
    then have "sr_status r \<noteq> SYNC_SUCCEEDED"
      by (cases e)
         (auto simp: settle_refresh_failure_def transaction_Inr_iff andThen_Inr_iff dest!: finish_sync_Inr split: if_splits)
    then show ?thesis using assms(2) by simp
  next
    case (Inr q)
    then have q: "q = r" "s1 = ss'" using assms(1) Pair by (simp_all add: refresh_def Let_def)
    obtain a s2 where "refresh_account w (sw_monotonic w (ss_tick ss) + SYNC_WALL_CLOCK) run a s2 = (Inr r, ss')"
      using Pair Inr q by (auto simp: andThen_Inr_iff)
    then show ?thesis by (rule refresh_concludes) (rule that)
  qed
qed


end
