(* ===== verification/Connector_Gaps.thy ===== *)
theory Connector_Gaps
  imports Connector_Outcomes
begin

text \<open>
  What the connectors leave open for good: a manual sync run whose refresh died, and a scheduled occurrence whose
  account or schedule has moved on. Both are carried through every history by the interface
  \<open>connector_guarantee\<close>.
\<close>

section \<open>A run nobody finishes\<close>

text \<open>An active run of the account that no occurrence is linked to.\<close>

definition abandoned :: "uuid \<Rightarrow> uuid \<Rightarrow> connector_db \<Rightarrow> bool" where
  "abandoned i a s \<longleftrightarrow> (case get_sync_run s i of None \<Rightarrow> False | Some r \<Rightarrow> active_run r \<and> sr_account_id r = a) \<and>
     (\<forall>x \<in> set (cd_occurrences s). ro_connector_sync_run_id x \<noteq> Some i)"

text \<open>The run is as it was, and no further occurrence has been linked to it.\<close>

definition run_left :: "uuid \<Rightarrow> connector_db \<Rightarrow> connector_db \<Rightarrow> bool" where
  "run_left i s s' \<longleftrightarrow> get_sync_run s' i = get_sync_run s i \<and>
     (\<forall>x \<in> set (cd_occurrences s'). ro_connector_sync_run_id x = Some i \<longrightarrow>
        (\<exists>y \<in> set (cd_occurrences s). ro_connector_sync_run_id y = Some i))"

lemma run_left_refl: "run_left i s s"
  by (auto simp: run_left_def)

lemma run_left_trans: "run_left i s s' \<Longrightarrow> run_left i s' s'' \<Longrightarrow> run_left i s s''"
  by (auto simp: run_left_def)

lemma abandoned_left: "abandoned i a s \<Longrightarrow> run_left i s s' \<Longrightarrow> abandoned i a s'"
  unfolding abandoned_def run_left_def by metis

lemma run_left_frame: "cd_sync_runs s' = cd_sync_runs s \<Longrightarrow> cd_occurrences s' = cd_occurrences s \<Longrightarrow> run_left i s s'"
  by (auto simp: run_left_def get_sync_run_def)

text \<open>Writes that touch neither table.\<close>

definition untouched :: "connector_db \<Rightarrow> connector_db \<Rightarrow> bool" where
  "untouched s s' \<longleftrightarrow> cd_sync_runs s' = cd_sync_runs s \<and> cd_occurrences s' = cd_occurrences s"

lemma untouchedI: "cd_sync_runs s' = cd_sync_runs s \<Longrightarrow> cd_occurrences s' = cd_occurrences s \<Longrightarrow> untouched s s'"
  by (simp add: untouched_def)

lemma untouched_run_left: "untouched s s' \<Longrightarrow> run_left i s s'"
  by (auto simp: untouched_def run_left_def get_sync_run_def)

lemma flush_account_untouched: "flush_account j f s = (Inr a, s') \<Longrightarrow> untouched s s'"
  by (rule untouchedI) (auto simp: flush_account_def upd_account_def split: option.splits if_splits)

lemma notify_untouched: "notify_refresh x e sv c s = (Inr u, s') \<Longrightarrow> untouched s s'"
  by (rule untouchedI) (auto simp: notify_refresh_def insert_refresh_notification_def split: if_splits)

lemma flush_schedule_untouched: "flush_schedule j f s = (Inr r, s') \<Longrightarrow> untouched s s'"
  by (rule untouchedI) (auto simp: flush_schedule_def upd_schedule_def split: option.splits if_splits)

lemma insert_account_untouched: "insert_account a s = (Inr b, s') \<Longrightarrow> untouched s s'"
  by (rule untouchedI) (auto simp: insert_account_def Let_def split: if_splits)

lemma create_account_untouched: "create_account sha identity credential scope names t s = (Inr a, s') \<Longrightarrow> untouched s s'"
  by (auto simp: create_account_def split: sum.splits intro: insert_account_untouched)

lemma update_account_untouched: "update_account j expected scope names s = (Inr a, s') \<Longrightarrow> untouched s s'"
  unfolding update_account_def by (auto split: sum.splits if_splits option.splits intro: flush_account_untouched)

lemma set_lifecycle_untouched: "set_lifecycle j expected target s = (Inr a, s') \<Longrightarrow> untouched s s'"
  unfolding set_lifecycle_def by (auto split: sum.splits if_splits intro: flush_account_untouched)

lemma create_schedule_untouched: "create_schedule zones j v policy t s = (Inr r, s') \<Longrightarrow> untouched s s'"
  by (rule untouchedI) (auto simp: create_schedule_def Let_def split: option.splits sum.splits if_splits)

lemma update_schedule_untouched: "update_schedule zones j expected v policy t s = (Inr r, s') \<Longrightarrow> untouched s s'"
  unfolding update_schedule_def Let_def by (auto split: sum.splits if_splits option.splits intro: flush_schedule_untouched)

lemma transition_schedule_untouched: "transition_schedule zones j expected action t s = (Inr r, s') \<Longrightarrow> untouched s s'"
  unfolding transition_schedule_def Let_def
  by (auto split: sum.splits if_splits option.splits intro: flush_schedule_untouched)

lemma disable_untouched: "disable_identity j c s = (Inr z, s') \<Longrightarrow> untouched s s'"
  by (auto simp: disable_identity_def andThen_Inr_iff untouchedI flush_account_untouched split: option.splits if_splits)

lemma record_item_untouched: "record_item_revision sha x t s = (Inr y, s') \<Longrightarrow> untouched s s'"
  by (rule untouchedI) (auto simp: record_item_revision_def Let_def split: option.splits if_splits)

lemma reconcile_untouched: "reconcile_latest_items run obs t s = (Inr z, s') \<Longrightarrow> untouched s s'"
  by (rule untouchedI) (auto simp: reconcile_latest_items_def Let_def split: if_splits)

text \<open>Writes of the two tables.\<close>

lemma flush_sync_run_left:
  "flush_sync_run j f s = (Inr r, s') \<Longrightarrow> (\<And>x. sr_id (f x) = sr_id x) \<Longrightarrow> j \<noteq> i \<Longrightarrow> run_left i s s'"
  by (drule flush_sync_run_Inr) (auto simp: run_left_def get_sync_run_def upd_sync_run_def row_get_upd)

lemma upd_refresh_left:
  assumes "\<And>x. ro_connector_sync_run_id (f x) = Some i \<Longrightarrow> ro_connector_sync_run_id x = Some i"
  shows "run_left i s (upd_refresh j f s)"
  unfolding run_left_def
proof (intro conjI ballI impI)
  fix x assume x: "x \<in> set (cd_occurrences (upd_refresh j f s))" "ro_connector_sync_run_id x = Some i"
  then obtain y where "y \<in> set (cd_occurrences s)" "x = f y \<or> x = y"
    by (auto simp: upd_refresh_def row_upd_def split: if_splits)
  then show "\<exists>y \<in> set (cd_occurrences s). ro_connector_sync_run_id y = Some i" using x(2) assms by blast
qed (simp add: get_sync_run_def upd_refresh_def)

lemma flush_refresh_left:
  assumes "flush_refresh j f s = (Inr y, s')" "\<And>x. ro_id (f x) = ro_id x"
    and "\<And>x. ro_connector_sync_run_id (f x) = Some i \<Longrightarrow> ro_connector_sync_run_id x = Some i"
  shows "run_left i s s'"
  using flush_refresh_Inr [OF assms(1,2)] upd_refresh_left [of f i, OF assms(3)] by auto

lemma notify_left: "notify_refresh x e sv c s = (Inr u, s') \<Longrightarrow> run_left i s s'"
  by (rule untouched_run_left [OF notify_untouched])

lemma each_refresh_left:
  "(\<And>x s cs s'. f x s = (Inr cs, s') \<Longrightarrow> run_left i s s') \<Longrightarrow> each_refresh f xs s = (Inr cs, s') \<Longrightarrow> run_left i s s'"
proof (induction xs arbitrary: s cs)
  case (Cons x xs)
  obtain c1 s1 c2 where f: "f x s = (Inr c1, s1)" "each_refresh f xs s1 = (Inr c2, s')"
    using Cons.prems(2) by (auto simp: andThen_Inr_iff)
  show ?case by (rule run_left_trans [OF Cons.prems(1) [OF f(1)] Cons.IH [OF Cons.prems(1) f(2)]])
qed (simp add: run_left_refl)

lemma lease_refresh_left:
  assumes "lease_refresh owner t until x s = (Inr cs, s')"
  shows "run_left i s s'"
proof -
  obtain y where "flush_refresh (ro_id x) (take_lease owner t until) s = (Inr y, s')"
    using assms by (auto simp: lease_refresh_def andThen_Inr_iff)
  then show ?thesis by (rule flush_refresh_left) (simp_all add: take_lease_def)
qed

lemma claim_refresh_left:
  assumes eq: "claim_refresh owner t until x s = (Inr cs, s')"
  shows "run_left i s s'"
proof (cases "case (lock_schedule s (ro_schedule_id x), get_account s (ro_account_id x)) of
    (Some sch, Some a) \<Rightarrow> refresh_authority x sch a | _ \<Rightarrow> False")
  case True
  then obtain y where "flush_refresh (ro_id x) (take_claim owner t until) s = (Inr y, s')"
    using eq by (auto simp: claim_refresh_def andThen_Inr_iff)
  then show ?thesis by (rule flush_refresh_left) (simp_all add: take_claim_def take_lease_def)
next
  case False
  then obtain y s1 where f: "flush_refresh (ro_id x) (fence_out t) s = (Inr y, s1)"
    "notify_refresh y ''occurrence_cancelled'' ''warning'' ''authority_fenced'' s1 = (Inr (), s')"
    using eq by (auto simp: claim_refresh_def andThen_Inr_iff)
  have "run_left i s s1" using f(1) by (rule flush_refresh_left) (simp_all add: fence_out_def)
  then show ?thesis using notify_left [OF f(2)] by (rule run_left_trans)
qed

lemma materialize_schedules_left: "materialize_schedules zones t rows s = (Inr xs, s') \<Longrightarrow> run_left i s s'"
proof (induction rows arbitrary: s xs)
  case (Cons row rows)
  obtain ys s1 zs where step: "materialize_schedule zones t row s = (Inr ys, s1)"
    "materialize_schedules zones t rows s1 = (Inr zs, s')" using Cons.prems by (auto simp: andThen_Inr_iff)
  have "run_left i s s1" using step(1)
  proof (cases rule: materialize_schedule_cases)
    case (2 x oc s2 u code)
    have "run_left i s s2"
      using 2(1,2) by (auto simp: insert_refresh_def Let_def run_left_def get_sync_run_def split: if_splits)
    moreover have "run_left i s2 (upd_schedule (cs_id row) (\<lambda>r. r\<lparr>cs_next_occurrence_at := u\<rparr>) s2)"
      by (rule run_left_frame) (simp_all add: upd_schedule_def)
    ultimately have s2: "run_left i s (upd_schedule (cs_id row) (\<lambda>r. r\<lparr>cs_next_occurrence_at := u\<rparr>) s2)"
      by (rule run_left_trans)
    show ?thesis using 2(4) unfolding Let_def
      by (elim disjE) (auto intro: s2 run_left_trans [OF s2 notify_left])
  qed (simp add: run_left_refl)
  then show ?case using Cons.IH [OF step(2)] run_left_trans by blast
qed (simp add: run_left_refl)

lemma claim_left:
  assumes "claim_with_trigger sha j expected kind trigger t s = (Inr r, s')" and ok: "connector_ok s"
    and i: "get_sync_run s i \<noteq> None"
  shows "run_left i s s' \<and> sr_id r \<noteq> i"
proof -
  have r: "sr_id r = cd_next_id s" "s' = s\<lparr>cd_next_id := Suc (cd_next_id s), cd_sync_runs := cd_sync_runs s @ [r]\<rparr>"
    by (rule claim_with_trigger_Inr [OF assms(1)], simp)+
  obtain q where q: "q \<in> set (cd_sync_runs s)" "sr_id q = i" "get_sync_run s i = Some q"
    using i by (auto simp: get_sync_run_def dest: row_get_Some_iff)
  then have "i < cd_next_id s" using okD(1) [OF ok] by (auto simp: connector_rows_ok_def table_ok_def)
  then show ?thesis using q(3) r by (auto simp: run_left_def get_sync_run_def row_get_append)
qed

lemma create_and_link_left:
  assumes "create_and_link_sync sha c t s = (Inr run, s')" and ok: "connector_ok s" and i: "get_sync_run s i \<noteq> None"
  shows "run_left i s s'"
proof -
  obtain x sch a where v: "validated_refresh c RO_CLAIMED s = Inr (x, sch, a)"
    using assms by (auto simp: create_and_link_sync_def split: sum.splits)
  show ?thesis
  proof (cases "ro_connector_sync_run_id x")
    case (Some k)
    then show ?thesis using assms v by (auto simp: create_and_link_sync_def run_left_refl split: option.splits)
  next
    case None
    obtain s1 y where cl: "claim_with_trigger sha (ca_id a) (ro_account_revision x) ''scheduled''
        (trigger_identity sha (ro_occurrence_key x)) t s = (Inr run, s1)"
      and f: "flush_refresh (ro_id x) (link_refresh (sr_id run)) s1 = (Inr y, s')"
      using assms v None by (auto simp: create_and_link_sync_def andThen_Inr_iff)
    note c = claim_left [OF cl ok i]
    have "run_left i s1 s'" using f by (rule flush_refresh_left) (use c in \<open>simp_all add: link_refresh_def\<close>)
    then show ?thesis using c run_left_trans by blast
  qed
qed

lemma finalize_refresh_left:
  assumes "finalize_refresh c t s = (Inr y, s')"
  shows "run_left i s s'"
  using assms
proof (cases rule: finalize_refresh_Inr)
  case (1 x sch a run state s1 e sv)
  have "run_left i s s1" using 1(3) by (rule flush_refresh_left) (simp_all add: finalize_row_def)
  then show ?thesis using notify_left [OF 1(4)] run_left_trans by blast
qed

lemma fence_linked:
  assumes "validate_network_fence c s = Inr r"
  obtains x where "x \<in> set (cd_occurrences s)" "ro_connector_sync_run_id x = Some (sr_id r)"
proof -
  obtain x sch a k where v: "validated_refresh c RO_SYNC_CREATED s = Inr (x, sch, a)"
    "ro_connector_sync_run_id x = Some k" "get_sync_run s k = Some r"
    using assms by (auto simp: validate_network_fence_def split: sum.splits option.splits)
  have "x \<in> set (cd_occurrences s)"
    using validated_refresh_row [OF v(1)] by (auto simp: lock_refresh_def intro: row_get_in)
  then show ?thesis using that v(2,3) by (auto simp: get_sync_run_def dest: row_get_key)
qed

lemma abandoned_fence: "abandoned i a s \<Longrightarrow> validate_network_fence c s = Inr r \<Longrightarrow> sr_id r \<noteq> i"
  by (erule fence_linked) (auto simp: abandoned_def)

lemma abandoned_run: "abandoned i a s \<Longrightarrow> get_sync_run s i \<noteq> None"
  by (auto simp: abandoned_def split: option.splits)

section \<open>An occurrence whose authority is gone\<close>

text \<open>A claimed or linked occurrence whose account has moved to a later revision than the one it captured.\<close>

definition outdated :: "uuid \<Rightarrow> connector_db \<Rightarrow> bool" where
  "outdated i s \<longleftrightarrow>
    (case lock_refresh s i of
       None \<Rightarrow> False
     | Some x \<Rightarrow> ro_state x \<in> {RO_CLAIMED, RO_SYNC_CREATED} \<and>
        (case get_account s (ro_account_id x) of None \<Rightarrow> False | Some a \<Rightarrow> ro_account_revision x < ca_revision a))"

definition state_held :: "uuid \<Rightarrow> connector_db \<Rightarrow> connector_db \<Rightarrow> bool" where
  "state_held i s s' \<longleftrightarrow> map_option ro_state (lock_refresh s' i) = map_option ro_state (lock_refresh s i)"

lemma held_refl: "state_held i s s"
  by (simp add: state_held_def)

lemma held_trans: "state_held i s s' \<Longrightarrow> state_held i s' s'' \<Longrightarrow> state_held i s s''"
  by (simp add: state_held_def)

lemma outdated_held:
  assumes out: "outdated i s" and held: "state_held i s s'" and grows: "connector_grows s s'"
  shows "outdated i s'"
proof -
  obtain x a where x: "lock_refresh s i = Some x" "ro_state x \<in> {RO_CLAIMED, RO_SYNC_CREATED}"
    "get_account s (ro_account_id x) = Some a" "ro_account_revision x < ca_revision a"
    using out by (auto simp: outdated_def split: option.splits)
  obtain y where y: "lock_refresh s' i = Some y" "refresh_grows x y"
    using refresh_get_grows [OF grows x(1)] by blast
  obtain b where b: "get_account s' (ro_account_id x) = Some b" "account_grows a b"
    using account_get_grows [OF grows x(3)] by blast
  have "ro_state y = ro_state x" using held x(1) y(1) by (simp add: state_held_def)
  then show ?thesis using x y b by (auto simp: outdated_def refresh_grows_def refresh_captured_def account_grows_def)
qed

lemma held_frame: "cd_occurrences s' = cd_occurrences s \<Longrightarrow> state_held i s s'"
  by (simp add: state_held_def lock_refresh_def)

lemma untouched_held: "untouched s s' \<Longrightarrow> state_held i s s'"
  by (rule held_frame) (simp add: untouched_def)

lemma notify_held: "notify_refresh x e sv c s = (Inr u, s') \<Longrightarrow> state_held i s s'"
  by (rule untouched_held [OF notify_untouched])

lemma flush_sync_run_held: "flush_sync_run j f s = (Inr r, s') \<Longrightarrow> state_held i s s'"
  by (rule held_frame) (auto simp: flush_sync_run_def upd_sync_run_def split: option.splits if_splits)

lemma flush_refresh_held:
  assumes "flush_refresh j f s = (Inr y, s')" "\<And>x. ro_id (f x) = ro_id x"
    and "j = i \<Longrightarrow> (\<And>x. ro_state (f x) = ro_state x)"
  shows "state_held i s s'"
  using flush_refresh_Inr [OF assms(1,2)] assms(2,3) lock_refresh_flush [OF assms(1,2)]
  by (cases "j = i") (auto simp: state_held_def lock_refresh_def upd_refresh_def row_get_upd)

lemma lease_refresh_held:
  assumes "lease_refresh owner t until x s = (Inr cs, s')"
  shows "state_held i s s'"
proof -
  obtain y where "flush_refresh (ro_id x) (take_lease owner t until) s = (Inr y, s')"
    using assms by (auto simp: lease_refresh_def andThen_Inr_iff)
  then show ?thesis by (rule flush_refresh_held) (simp_all add: take_lease_def)
qed

lemma claim_refresh_held:
  assumes eq: "claim_refresh owner t until x s = (Inr cs, s')" and other: "ro_id x \<noteq> i"
  shows "state_held i s s'"
proof (cases "case (lock_schedule s (ro_schedule_id x), get_account s (ro_account_id x)) of
    (Some sch, Some a) \<Rightarrow> refresh_authority x sch a | _ \<Rightarrow> False")
  case True
  then obtain y where "flush_refresh (ro_id x) (take_claim owner t until) s = (Inr y, s')"
    using eq by (auto simp: claim_refresh_def andThen_Inr_iff)
  then show ?thesis by (rule flush_refresh_held) (use other in \<open>simp_all add: take_claim_def take_lease_def\<close>)
next
  case False
  then obtain y s1 where f: "flush_refresh (ro_id x) (fence_out t) s = (Inr y, s1)"
    "notify_refresh y ''occurrence_cancelled'' ''warning'' ''authority_fenced'' s1 = (Inr (), s')"
    using eq by (auto simp: claim_refresh_def andThen_Inr_iff)
  have "state_held i s s1" using f(1) by (rule flush_refresh_held) (use other in \<open>simp_all add: fence_out_def\<close>)
  then show ?thesis using notify_held [OF f(2)] by (rule held_trans)
qed

lemma each_refresh_held:
  "(\<And>x s cs s'. x \<in> set xs \<Longrightarrow> f x s = (Inr cs, s') \<Longrightarrow> state_held i s s') \<Longrightarrow> each_refresh f xs s = (Inr cs, s') \<Longrightarrow>
   state_held i s s'"
proof (induction xs arbitrary: s cs)
  case (Cons x xs)
  obtain c1 s1 c2 where f: "f x s = (Inr c1, s1)" "each_refresh f xs s1 = (Inr c2, s')"
    using Cons.prems(2) by (auto simp: andThen_Inr_iff)
  have "state_held i s1 s'" by (rule Cons.IH [OF _ f(2)]) (rule Cons.prems(1) [OF list.set_intros(2)])
  then show ?case by (rule held_trans [OF Cons.prems(1) [OF list.set_intros(1) f(1)]])
qed (simp add: held_refl)

text \<open>Only due occurrences are claimed.\<close>

lemma claim_refreshes_held:
  assumes "claim_refreshes locked owner t lease limit s = (Inr cs, s')" and ok: "connector_ok s" and out: "outdated i s"
  shows "state_held i s s'"
proof (rule each_refresh_held)
  show "each_refresh (claim_refresh owner t (t + lease)) (lock_claimable locked t limit s) s = (Inr cs, s')"
    using assms(1) by (simp add: claim_refreshes_def)
  fix x s1 cs' s2 assume x: "x \<in> set (lock_claimable locked t limit s)" and c: "claim_refresh owner t (t + lease) x s1 = (Inr cs', s2)"
  have "lock_refresh s (ro_id x) = Some x" "ro_state x = RO_DUE"
    using refresh_query(2) [OF ok lock_claimable_def x] by simp_all
  then have "ro_id x \<noteq> i" using out by (auto simp: outdated_def)
  then show "state_held i s1 s2" by (rule claim_refresh_held [OF c])
qed

lemma insert_refresh_held:
  assumes "insert_refresh x s = (Inr y, s')" and old: "lock_refresh s i \<noteq> None"
  shows "state_held i s s'"
proof -
  obtain z where "lock_refresh s i = Some z" using old by blast
  then show ?thesis using assms(1)
    by (auto simp: insert_refresh_def Let_def state_held_def lock_refresh_def row_get_append split: if_splits)
qed

lemma materialize_schedule_held:
  assumes "materialize_schedule zones t row s = (Inr xs, s')" and old: "lock_refresh s i \<noteq> None"
  shows "state_held i s s'"
  using assms(1)
proof (cases rule: materialize_schedule_cases)
  case (2 x oc s1 u code)
  have "state_held i s1 (upd_schedule (cs_id row) (\<lambda>r. r\<lparr>cs_next_occurrence_at := u\<rparr>) s1)"
    by (rule held_frame) (simp add: upd_schedule_def)
  then have s2: "state_held i s (upd_schedule (cs_id row) (\<lambda>r. r\<lparr>cs_next_occurrence_at := u\<rparr>) s1)"
    by (rule held_trans [OF insert_refresh_held [OF 2(1) old]])
  show ?thesis using 2(4) unfolding Let_def by (elim disjE) (auto intro: s2 held_trans [OF s2 notify_held])
qed (simp add: held_refl)

lemma materialize_schedules_held:
  "materialize_schedules zones t rows s = (Inr xs, s') \<Longrightarrow> lock_refresh s i \<noteq> None \<Longrightarrow> state_held i s s'"
proof (induction rows arbitrary: s xs)
  case (Cons row rows)
  obtain ys s1 zs where step: "materialize_schedule zones t row s = (Inr ys, s1)"
    "materialize_schedules zones t rows s1 = (Inr zs, s')" using Cons.prems by (auto simp: andThen_Inr_iff)
  have s1: "state_held i s s1" by (rule materialize_schedule_held [OF step(1) Cons.prems(2)])
  then have "lock_refresh s1 i \<noteq> None" using Cons.prems(2) by (auto simp: state_held_def)
  then show ?case using Cons.IH [OF step(2)] s1 held_trans by blast
qed (simp add: held_refl)

text \<open>Linking and finalizing check the account first.\<close>

lemma outdated_refused:
  assumes v: "validated_refresh c st s = Inr (x, sch, a)" and out: "outdated i s"
  shows "ro_id x \<noteq> i"
proof
  assume "ro_id x = i"
  then have x: "lock_refresh s i = Some x" "get_account s (ro_account_id x) = Some a" "refresh_authority x sch a"
    using v validated_refresh_row [OF v] by (auto simp: validated_refresh_def split: option.splits if_splits)
  then show False using out by (auto simp: outdated_def refresh_authority_def)
qed

lemma create_and_link_held:
  assumes "create_and_link_sync sha c t s = (Inr run, s')" and out: "outdated i s"
  shows "state_held i s s'"
proof -
  obtain x sch a where v: "validated_refresh c RO_CLAIMED s = Inr (x, sch, a)"
    using assms by (auto simp: create_and_link_sync_def split: sum.splits)
  show ?thesis
  proof (cases "ro_connector_sync_run_id x")
    case (Some k)
    then show ?thesis using assms v by (auto simp: create_and_link_sync_def held_refl split: option.splits)
  next
    case None
    obtain s1 y where cl: "claim_with_trigger sha (ca_id a) (ro_account_revision x) ''scheduled''
        (trigger_identity sha (ro_occurrence_key x)) t s = (Inr run, s1)"
      and f: "flush_refresh (ro_id x) (link_refresh (sr_id run)) s1 = (Inr y, s')"
      using assms v None by (auto simp: create_and_link_sync_def andThen_Inr_iff)
    have "s1 = s\<lparr>cd_next_id := Suc (cd_next_id s), cd_sync_runs := cd_sync_runs s @ [run]\<rparr>"
      by (rule claim_with_trigger_Inr [OF cl], simp)
    then have s1: "state_held i s s1" by (simp add: held_frame)
    have "state_held i s1 s'" using f
      by (rule flush_refresh_held) (use outdated_refused [OF v out] in \<open>simp_all add: link_refresh_def\<close>)
    with s1 show ?thesis by (rule held_trans)
  qed
qed

lemma finalize_refresh_held:
  assumes "finalize_refresh c t s = (Inr y, s')" and out: "outdated i s"
  shows "state_held i s s'"
  using assms(1)
proof (cases rule: finalize_refresh_Inr)
  case (1 x sch a run state s1 e sv)
  have "state_held i s s1" using 1(3)
    by (rule flush_refresh_held) (use outdated_refused [OF 1(1) out] in \<open>simp_all add: finalize_row_def\<close>)
  then show ?thesis using notify_held [OF 1(4)] by (rule held_trans)
qed

lemma claim_manual_held: "claim_manual sha j expected t s = (Inr r, s') \<Longrightarrow> state_held i s s'"
  unfolding claim_manual_def by (erule claim_with_trigger_Inr) (simp add: held_frame)

section \<open>Carried through every history\<close>

text \<open>A predicate that no step loses, with what every step keeps of it.\<close>

definition carries :: "(connector_db \<Rightarrow> bool) \<Rightarrow> (connector_db \<Rightarrow> connector_db \<Rightarrow> bool) \<Rightarrow> connector_db \<Rightarrow> connector_db \<Rightarrow> bool"
where
  "carries J Q s s' \<longleftrightarrow> connector_kept s s' \<and> (connector_ok s \<and> J s \<longrightarrow> J s' \<and> Q s s')"

lemma carriesI:
  "connector_kept s s' \<Longrightarrow> (connector_ok s \<Longrightarrow> J s \<Longrightarrow> connector_grows s s' \<Longrightarrow> J s' \<and> Q s s') \<Longrightarrow> carries J Q s s'"
  by (auto simp: carries_def connector_kept_def)

lemma carries_keep: "connector_ok s \<and> J s \<Longrightarrow> carries J Q s s' \<Longrightarrow> connector_ok s' \<and> J s'"
  by (auto simp: carries_def connector_kept_def)

lemma carries_known: "connector_ok s \<Longrightarrow> carries J Q s s' \<Longrightarrow> known_run run s \<Longrightarrow> known_run run s'"
  using known_run_kept by (auto simp: carries_def)

lemma carries_refl: "(\<And>s. Q s s) \<Longrightarrow> carries J Q s s"
  by (simp add: carries_def connector_kept_refl)

lemma carries_trans:
  assumes "\<And>s t u. Q s t \<Longrightarrow> Q t u \<Longrightarrow> Q s u" "carries J Q s s'" "carries J Q s' s''"
  shows "carries J Q s s''"
proof (rule carriesI)
  show "connector_kept s s''" using assms(2,3) connector_kept_trans by (auto simp: carries_def)
  assume "connector_ok s" "J s"
  then show "J s'' \<and> Q s s''" using assms carries_keep [of s J Q s'] unfolding carries_def by blast
qed

text \<open>
  The writes of the program that such a predicate has to survive; all other writes leave the runs and the
  occurrences alone.
\<close>

locale carried =
  fixes J :: "connector_db \<Rightarrow> bool" and Q :: "connector_db \<Rightarrow> connector_db \<Rightarrow> bool" and V :: "uuid \<Rightarrow> bool"
  assumes same: "Q s s"
    and step: "Q s s' \<Longrightarrow> Q s' s'' \<Longrightarrow> Q s s''"
    and lasts: "J s \<Longrightarrow> Q s s' \<Longrightarrow> connector_grows s s' \<Longrightarrow> J s'"
    and fence_free: "J s \<Longrightarrow> validate_network_fence c s = Inr r \<Longrightarrow> V (sr_id r)"
    and rows_alone: "untouched s s' \<Longrightarrow> Q s s'"
    and run_written: "V j \<Longrightarrow> flush_sync_run j f s = (Inr r, s') \<Longrightarrow> \<forall>x. sr_id (f x) = sr_id x \<Longrightarrow> Q s s'"
    and leased: "lease_refresh owner u until x s = (Inr cs, s') \<Longrightarrow> Q s s'"
    and materialized: "J s \<Longrightarrow> materialize_schedules zones u rows s = (Inr os, s') \<Longrightarrow> Q s s'"
    and claimed_due: "connector_ok s \<Longrightarrow> J s \<Longrightarrow> claim_refreshes l owner u lease limit s = (Inr cs, s') \<Longrightarrow> Q s s'"
    and linked_run: "connector_ok s \<Longrightarrow> J s \<Longrightarrow> create_and_link_sync sha c u s = (Inr r, s') \<Longrightarrow> Q s s'"
    and claimed_run: "connector_ok s \<Longrightarrow> J s \<Longrightarrow> claim_manual sha j expected u s = (Inr r, s') \<Longrightarrow> Q s s' \<and> V (sr_id r)"
    and finalized: "J s \<Longrightarrow> finalize_refresh c u s = (Inr oc, s') \<Longrightarrow> Q s s'"
begin

lemma carriedI: "connector_ok s \<and> J s \<Longrightarrow> connector_kept s s' \<Longrightarrow> Q s s' \<Longrightarrow> carries J Q s s'"
  using lasts by (auto intro: carriesI)

lemma carried_run_write:
  "connector_ok s \<and> J s \<Longrightarrow> known_run run s \<and> V (sr_id run) \<Longrightarrow> flush_sync_run (sr_id run) f s = (Inr r, s') \<Longrightarrow>
   connector_kept s s' \<Longrightarrow> (\<And>x. sr_id (f x) = sr_id x) \<Longrightarrow> carries J Q s s'"
  by (rule carriedI) (auto intro: run_written)

lemma carried_rows: "connector_ok s \<and> J s \<Longrightarrow> connector_kept s s' \<Longrightarrow> untouched s s' \<Longrightarrow> carries J Q s s'"
  by (rule carriedI) (auto intro: rows_alone)

lemma carried_leases:
  "each_refresh (lease_refresh owner u until) xs s = (Inr cs, s') \<Longrightarrow> Q s s'"
proof (induction xs arbitrary: s cs)
  case (Cons x xs)
  then show ?case by (auto simp: andThen_Inr_iff dest!: leased intro: step)
qed (simp add: same)

end

sublocale carried < connector_history "\<lambda>s. connector_ok s \<and> J s" "carries J Q"
  "\<lambda>run s. known_run run s \<and> V (sr_id run)"
proof
  show "carries J Q s s" for s by (rule carries_refl) (rule same)
  show "carries J Q s s' \<Longrightarrow> carries J Q s' s'' \<Longrightarrow> carries J Q s s''" for s s' s''
    by (rule carries_trans) (rule step)
  show "connector_ok s \<and> J s \<Longrightarrow> carries J Q s s' \<Longrightarrow> connector_ok s' \<and> J s'" for s s' by (rule carries_keep)
  show "connector_ok s \<and> J s \<Longrightarrow> carries J Q s s' \<Longrightarrow> known_run run s \<and> V (sr_id run) \<Longrightarrow>
      known_run run s' \<and> V (sr_id run)" for s s' run
    using carries_known by blast
  show "connector_ok s \<and> J s \<Longrightarrow> known_run run s \<and> V (sr_id run) \<Longrightarrow> get_sync_run s (sr_id run) = Some r \<Longrightarrow>
      known_run r s \<and> V (sr_id r)" for s run r
    by (auto intro: known_run_self simp: get_sync_run_def dest: row_get_key)
  show "connector_ok s \<and> J s \<Longrightarrow> validate_network_fence c s = Inr r \<Longrightarrow> known_run r s \<and> V (sr_id r)" for s c r
    using fence_known fence_free by blast
  show "connector_ok s \<and> J s \<Longrightarrow> known_run run s \<and> V (sr_id run) \<Longrightarrow>
      flush_sync_run (sr_id run) (\<lambda>x. x\<lparr>sr_status := SYNC_RUNNING, sr_started_at := Some u\<rparr>) s = (Inr r, s') \<Longrightarrow>
      carries J Q s s'" for s s' run u r
    by (rule carried_run_write, assumption+) (auto intro: ck.start)
  show "connector_ok s \<and> J s \<Longrightarrow> known_run run s \<and> V (sr_id run) \<Longrightarrow>
      flush_sync_run (sr_id run) (count_items n m) s = (Inr r, s') \<Longrightarrow> carries J Q s s'" for s s' run n m r
    by (rule carried_run_write, assumption+) (auto intro: ck.count simp: count_items_def)
  show "connector_ok s \<and> J s \<Longrightarrow> known_run run s \<and> V (sr_id run) \<Longrightarrow>
      flush_sync_run (sr_id run) (finish_row st e c2 u) s = (Inr r, s') \<Longrightarrow> carries J Q s s'" for s s' run st e c2 u r
    by (rule carried_run_write, assumption+) (auto intro: ck.finish simp: finish_row_def)
  show "connector_ok s \<and> J s \<Longrightarrow> flush_account i
      (\<lambda>x. x\<lparr>ca_validation_status := (if v then ca_validation_status x else ''valid''), ca_last_validated_at := Some u\<rparr>)
      s = (Inr b, s') \<Longrightarrow> carries J Q s s'" for i v u s b s'
    by (rule carried_rows) (auto intro: ck.mark flush_account_untouched)
  show "connector_ok s \<and> J s \<Longrightarrow> known_run run s \<and> V (sr_id run) \<Longrightarrow>
      disable_identity (sr_account_id run) (sr_account_revision run) s = (Inr z, s') \<Longrightarrow> carries J Q s s'" for run s z s'
    by (rule carried_rows) (auto intro: ck.disable disable_untouched)
  show "connector_ok s \<and> J s \<Longrightarrow> record_item_revision sha x u s = (Inr y, s') \<Longrightarrow> carries J Q s s'" for sha x u s y s'
    by (rule carried_rows) (auto intro: ck.record_item record_item_untouched)
  show "connector_ok s \<and> J s \<Longrightarrow> reconcile_latest_items run obs u s = (Inr z, s') \<Longrightarrow> carries J Q s s'" for run obs u s z s'
    by (rule carried_rows) (auto intro: ck.reconcile reconcile_untouched)
  show "connector_ok s \<and> J s \<Longrightarrow> reclaim_linked_refreshes l owner u lease limit s = (Inr cs, s') \<Longrightarrow> carries J Q s s'"
    for l owner u lease limit s cs s'
    by (rule carriedI) (auto intro: ck.linked carried_leases simp: reclaim_linked_refreshes_def)
  show "connector_ok s \<and> J s \<Longrightarrow> reclaim_expired_refreshes l owner u lease limit s = (Inr cs, s') \<Longrightarrow> carries J Q s s'"
    for l owner u lease limit s cs s'
    by (rule carriedI) (auto intro: ck.expired carried_leases simp: reclaim_expired_refreshes_def)
  show "connector_ok s \<and> J s \<Longrightarrow> materialize_refreshes zones l u limit s = (Inr os, s') \<Longrightarrow> carries J Q s s'"
    for zones l u limit s os s'
    by (rule carriedI) (auto intro: ck.materialize materialized simp: materialize_refreshes_def)
  show "connector_ok s \<and> J s \<Longrightarrow> claim_refreshes l owner u lease limit s = (Inr cs, s') \<Longrightarrow> carries J Q s s'"
    for l owner u lease limit s cs s'
    by (rule carriedI) (auto intro: ck.claim claimed_due)
  show "connector_ok s \<and> J s \<Longrightarrow> create_and_link_sync sha c u s = (Inr r, s') \<Longrightarrow> carries J Q s s'" for sha c u s r s'
    by (rule carriedI) (auto intro: ck.create_link linked_run)
  show "connector_ok s \<and> J s \<Longrightarrow> claim_manual sha i expected u s = (Inr r, s') \<Longrightarrow>
      carries J Q s s' \<and> known_run r s' \<and> V (sr_id r)" for sha i expected u s r s'
    using claim_known [of sha i expected u s r s'] claimed_run [of s sha i expected u r s'] carriedI [of s s'] by blast
  show "connector_ok s \<and> J s \<Longrightarrow> finalize_refresh c u s = (Inr oc, s') \<Longrightarrow> carries J Q s s'" for c u s oc s'
    by (rule carriedI) (auto intro: ck.finalize finalized)
qed (auto intro: carried_rows ck.account_created ck.account_configured ck.account_switched ck.schedule_created
    ck.schedule_changed ck.schedule_moved create_account_untouched update_account_untouched set_lifecycle_untouched
    create_schedule_untouched update_schedule_untouched transition_schedule_untouched)

lemma claim_manual_left:
  "claim_manual sha j expected t s = (Inr r, s') \<Longrightarrow> connector_ok s \<Longrightarrow> abandoned i a s \<Longrightarrow> run_left i s s' \<and> sr_id r \<noteq> i"
  unfolding claim_manual_def by (erule (1) claim_left, erule abandoned_run)

lemma claim_refreshes_left: "claim_refreshes l owner t lease limit s = (Inr cs, s') \<Longrightarrow> run_left i s s'"
  unfolding claim_refreshes_def by (rule each_refresh_left) (rule claim_refresh_left)

interpretation ab: carried "abandoned i a" "run_left i" "\<lambda>j. j \<noteq> i" for i a
  by unfold_locales
     (rule run_left_refl, erule (1) run_left_trans, erule (1) abandoned_left, erule (1) abandoned_fence,
      erule untouched_run_left, erule flush_sync_run_left, erule spec, assumption, erule lease_refresh_left,
      erule materialize_schedules_left, erule claim_refreshes_left, erule (1) create_and_link_left, erule abandoned_run,
      erule (2) claim_manual_left, erule finalize_refresh_left)

lemma outdated_row: "outdated i s \<Longrightarrow> lock_refresh s i \<noteq> None"
  by (auto simp: outdated_def split: option.splits)

interpretation ot: carried "outdated i" "state_held i" "\<lambda>j. True" for i
  by unfold_locales
     (rule held_refl, erule (1) held_trans, erule (2) outdated_held, rule TrueI, erule untouched_held,
      erule flush_sync_run_held, erule lease_refresh_held, erule materialize_schedules_held, erule outdated_row,
      erule (2) claim_refreshes_held, erule (1) create_and_link_held, rule conjI, erule claim_manual_held, rule TrueI,
      erule (1) finalize_refresh_held)

section \<open>An interrupted refresh\<close>

text \<open>The transport breaks at the first request, in a way the transport of the code does not catch.\<close>

definition example_run :: sync_run where
  "example_run = (new_sync_run enabled_account ''manual'' ''operator_manual_refresh'' 10)\<lparr>sr_id := 2\<rparr>"

definition claimed :: connector_db where
  "claimed = enabled\<lparr>cd_next_id := 3, cd_sync_runs := [example_run]\<rparr>"

definition running_run :: sync_run where
  "running_run = example_run\<lparr>sr_status := SYNC_RUNNING, sr_started_at := Some 10\<rparr>"

definition interrupted :: connector_db where
  "interrupted = claimed\<lparr>cd_sync_runs := [running_run]\<rparr>"

definition at_tick :: "nat \<Rightarrow> connector_account option \<Rightarrow> connector_db \<Rightarrow> sync_session" where
  "at_tick n cached s = (new_session s)\<lparr>ss_tick := n, ss_cached := cached\<rparr>"

lemma example_claims: "claim_manual example_sha 1 1 10 enabled = (Inr example_run, claimed)"
  by code_simp

lemma example_captures:
  "captured_account example_world example_run (ticked (fresh_refresh (new_session claimed))) =
     (Inr enabled_account, at_tick 1 (Some enabled_account) claimed)"
  by code_simp

lemma example_starts:
  "start_run example_world 2 (at_tick 3 None claimed) = (Inr running_run, at_tick 5 (Some enabled_account) interrupted)"
  by code_simp

lemma example_breaks:
  "confirm_user example_world \<lparr>sj_deadline = SYNC_WALL_CLOCK, sj_limit = SYNC_WALL_CLOCK, sj_secret = ''token''\<rparr>
     ''octo'' (at_tick 6 (Some enabled_account) interrupted) =
   (Inl UncaughtError, (at_tick 8 (Some enabled_account) interrupted)\<lparr>ss_attempts := 1\<rparr>)"
  by code_simp

lemma example_clock: "github_deadline example_world SYNC_WALL_CLOCK ss = (Inr (), ticked ss)"
  by (simp add: github_deadline_def example_world_def SYNC_WALL_CLOCK_def seconds_def)

lemma example_ticks [simp]: "ticked (at_tick n c s) = at_tick (Suc n) c s" "roll_back (at_tick n c s) = at_tick n None s"
  "ss_db (at_tick n c s) = s"
  by (simp_all add: at_tick_def ticked_def roll_back_def new_session_def)

lemma example_refresh:
  "refresh_account example_world SYNC_WALL_CLOCK example_run enabled_account (at_tick 1 (Some enabled_account) claimed) =
     (Inl UncaughtError, (at_tick 8 (Some enabled_account) interrupted)\<lparr>ss_attempts := 1\<rparr>)"
proof -
  have "credential_reference (ca_credential_reference enabled_account)" by code_simp
  moreover have "sw_monotonic example_world n = 0" "sw_secret example_world r = Inr ''token''" "sr_id example_run = 2"
    "ca_external_account_id enabled_account = ''octo''" for n r
    by (simp_all add: example_world_def example_run_def enabled_account_def example_account_def)
  ultimately show ?thesis
    by (simp add: refresh_account_def example_clock example_starts example_breaks Let_def Suc_1 del: One_nat_def)
qed

lemma example_interrupted: "snd (refresh_request example_world 1 1 10 enabled) = interrupted"
proof -
  have "sw_sha example_world = example_sha" "sw_monotonic example_world n = 0" for n by (simp_all add: example_world_def)
  then show ?thesis
    by (simp add: refresh_request_def committed_def example_claims refresh_def example_captures example_refresh
        settle_refresh_failure_def del: One_nat_def)
qed

section \<open>The account of an abandoned run\<close>

lemma abandoned_active: "abandoned i a s \<Longrightarrow> has_active_sync_run s a"
  by (auto simp: abandoned_def has_active_sync_run_def active_run_def list_ex_iff get_sync_run_def dest: row_get_in split: option.splits)

text \<open>C22: An active sync run that no scheduled occurrence is linked to and that nobody is working on any more is
  never finished: whatever requests and ticks follow, it stays as it is, every manual refresh of its account is
  refused, and the account cannot be reconfigured. A manual refresh leaves such a run when its process dies or
  when the transport fails in any way but a connect error or a timeout.\<close>

theorem abandoned_run_blocks_account:
  assumes "connector_runs s s'" and "connector_ok s" and "abandoned i a s"
  shows "get_sync_run s' i = get_sync_run s i \<and>
    (\<forall>sha expected t. \<exists>e. claim_manual sha a expected t s' = (Inl e, s')) \<and>
    (\<forall>expected scope names. \<exists>e. update_account a expected scope names s' = (Inl e, s'))"
proof (intro conjI allI)
  have left: "run_left i s s'" using ab.runs_R [OF assms(1)] assms(2,3) by (auto simp: carries_def)
  then show "get_sync_run s' i = get_sync_run s i" by (simp add: run_left_def)
  have active: "has_active_sync_run s' a" using abandoned_active abandoned_left [OF assms(3) left] by blast
  have id: "ca_id b = a" if "get_account s' a = Some b" for b
    using that by (auto simp: get_account_def dest: row_get_key)
  show "\<exists>e. claim_manual sha a expected t s' = (Inl e, s')" for sha expected t
    using active id by (auto simp: claim_manual_def claim_with_trigger_def split: option.splits)
  show "\<exists>e. update_account a expected scope names s' = (Inl e, s')" for expected scope names
    using active id by (auto simp: update_account_def lock_expected_account_def split: option.splits sum.splits if_splits)
qed

theorem abandoned_run_blocks_account_witness:
  "\<exists>e. claim_manual example_sha 1 1 99 (snd (refresh_request example_world 1 1 10 enabled)) =
     (Inl e, snd (refresh_request example_world 1 1 10 enabled))"
proof -
  have "connector_runs empty_connectors (snd (refresh_request example_world 1 1 10 enabled))"
    by (intro chain [OF chain [OF creates [OF example_creates] switches [OF example_enables]]] refreshes)
       (simp add: example_world_def idle)
  then have ok: "connector_ok (snd (refresh_request example_world 1 1 10 enabled))"
    using connector_runs_ok empty_connectors_ok by blast
  have "abandoned 2 1 (snd (refresh_request example_world 1 1 10 enabled))" unfolding example_interrupted by code_simp
  then show ?thesis using abandoned_run_blocks_account [OF idle ok] by blast
qed

section \<open>An occurrence that is never finalized\<close>

definition disabled_account :: connector_account where
  "disabled_account = fence_account enabled_account"

definition failed_run :: sync_run where
  "failed_run = running_run\<lparr>sr_trigger_kind := ''scheduled'', sr_status := SYNC_FAILED,
     sr_safe_error_code := Some ''github_identity_mismatch'', sr_completed_at := Some 20\<rparr>"

definition linked_occurrence :: refresh_occurrence where
  "linked_occurrence = link_refresh 2 (take_claim 7 (700000 * DAY) (700001 * DAY) nightly_occurrence)"

text \<open>GitHub has answered for another identity: the run has failed and the account is disabled.\<close>

definition mismatched :: connector_db where
  "mismatched = empty_connectors\<lparr>cd_next_id := 5, cd_accounts := [disabled_account], cd_sync_runs := [failed_run],
     cd_schedules := [nightly], cd_occurrences := [linked_occurrence]\<rparr>"

lemma mismatched_ok: "connector_ok mismatched"
proof -
  have "connector_rows_ok mismatched" by code_simp
  moreover have "sync_slots_ok mismatched" by code_simp
  moreover have "revisions_ok (cd_items mismatched)"
    by (simp add: mismatched_def empty_connectors_def revisions_ok_def)
  moreover have "links_ok mismatched"
    by (simp add: links_ok_def mismatched_def linked_occurrence_def link_refresh_def failed_run_def running_run_def example_run_def)
  moreover have "captures_ok mismatched"
    by (simp add: captures_ok_def mismatched_def failed_run_def running_run_def example_run_def disabled_account_def
        fence_account_def enabled_account_def example_account_def new_sync_run_def get_account_def row_get_Cons)
  ultimately show ?thesis by (simp add: connector_ok_def)
qed

text \<open>C23: An occurrence that is claimed or linked when its account moves to another revision is never finalized:
  whatever follows, it keeps its state, and linking it, fencing its network step and finalizing it are refused to
  every claim. A refresh that finds another identity at GitHub disables the account itself, so the scheduler
  cannot record the failure of the occurrence that found it.\<close>

theorem outdated_occurrence_never_ends:
  assumes "connector_runs s s'" and "connector_ok s" and "lock_refresh s i = Some x"
    and "ro_state x \<in> {RO_CLAIMED, RO_SYNC_CREATED}"
    and "get_account s (ro_account_id x) = Some a" and "ro_account_revision x < ca_revision a"
  shows "\<exists>y. lock_refresh s' i = Some y \<and> ro_state y = ro_state x \<and>
    (\<forall>c sha t. rc_occurrence_id c = i \<longrightarrow>
       create_and_link_sync sha c t s' = (Inl ValueError, s') \<and> validate_network_fence c s' = Inl ValueError \<and>
       finalize_refresh c t s' = (Inl ValueError, s'))"
proof -
  have out: "outdated i s" using assms(3-) by (auto simp: outdated_def)
  have "outdated i s' \<and> state_held i s s'"
    using ot.runs_R [OF assms(1)] assms(2) out by (auto simp: carries_def)
  then obtain y where y: "lock_refresh s' i = Some y" "ro_state y = ro_state x" and out': "outdated i s'"
    using assms(3) by (auto simp: state_held_def)
  have "validated_refresh c st s' = Inl ValueError" if "rc_occurrence_id c = i" for c st
  proof (cases "validated_refresh c st s'")
    case (Inl e)
    then show ?thesis by (auto simp: validated_refresh_def split: option.splits if_splits)
  next
    case (Inr z)
    then show ?thesis using outdated_refused out' that validated_refresh_row by (metis prod_cases3)
  qed
  then show ?thesis using y by (simp add: create_and_link_sync_def validate_network_fence_def finalize_refresh_def)
qed

theorem outdated_occurrence_never_ends_witness:
  "\<exists>y. lock_refresh (ss_db (snd (connector_tick example_world (\<lambda>_. None) 7 20 5 16 (new_session mismatched)))) 4 = Some y \<and>
     ro_state y = RO_SYNC_CREATED"
proof -
  have runs: "connector_runs (ss_db (new_session mismatched))
     (ss_db (snd (connector_tick example_world (\<lambda>_. None) 7 20 5 16 (new_session mismatched))))"
    by (rule ticks) (simp add: example_world_def idle)
  have s: "ss_db (new_session mismatched) = mismatched" by (simp add: new_session_def)
  have x: "lock_refresh mismatched 4 = Some linked_occurrence" by code_simp
  have a: "get_account mismatched (ro_account_id linked_occurrence) = Some disabled_account" by code_simp
  have st: "ro_state linked_occurrence = RO_SYNC_CREATED" by code_simp
  have rev: "ro_account_revision linked_occurrence < ca_revision disabled_account" by code_simp
  show ?thesis
    using outdated_occurrence_never_ends [OF runs [unfolded s] mismatched_ok x _ a rev] st by auto
qed

section \<open>An account that is not read again\<close>

definition with_accounts :: "connector_account list \<Rightarrow> connector_db \<Rightarrow> connector_db" where
  "with_accounts as s = s\<lparr>cd_accounts := as\<rparr>"

lemma with_accounts_rows [simp]:
  "cd_next_id (with_accounts as s) = cd_next_id s" "cd_items (with_accounts as s) = cd_items s"
  "cd_sync_runs (with_accounts as s) = cd_sync_runs s" "get_sync_run (with_accounts as s) = get_sync_run s"
  by (auto simp: with_accounts_def get_sync_run_def)

lemma record_item_accounts:
  "record_item_revision sha x t (with_accounts as s) = apsnd (with_accounts as) (record_item_revision sha x t s)"
  by (auto simp: record_item_revision_def Let_def with_accounts_def split: option.splits)

lemma record_items_accounts:
  "record_items w run repo kind t sns (with_accounts as s) = apsnd (with_accounts as) (record_items w run repo kind t sns s)"
proof (induction sns arbitrary: s)
  case (Cons sn sns)
  show ?case
    by (cases "record_item_revision (sw_sha w) (snapshot_item w run repo kind t sn) t s"; cases "fst (record_item_revision (sw_sha w) (snapshot_item w run repo kind t sn) t s)")
       (auto simp: record_item_accounts Cons.IH andThen_def split: prod.splits sum.splits)
qed simp

lemma flush_run_accounts:
  "flush_sync_run i f (with_accounts as s) = apsnd (with_accounts as) (flush_sync_run i f s)"
proof -
  have "upd_sync_run i f (with_accounts as s) = with_accounts as (upd_sync_run i f s)"
    by (simp add: upd_sync_run_def with_accounts_def)
  then show ?thesis by (simp add: flush_sync_run_def split: option.splits)
qed

definition session_accounts :: "connector_account list \<Rightarrow> sync_session \<Rightarrow> sync_session" where
  "session_accounts as ss = ss\<lparr>ss_db := with_accounts as (ss_db ss)\<rparr>"

lemma session_accounts_simps [simp]:
  "ss_db (session_accounts as ss) = with_accounts as (ss_db ss)" "ss_cached (session_accounts as ss) = ss_cached ss"
  "ss_tick (session_accounts as ss) = ss_tick ss" "ticked (session_accounts as ss) = session_accounts as (ticked ss)"
  "ss_observed (session_accounts as ss) = ss_observed ss"
  by (simp_all add: session_accounts_def ticked_def)

lemma cached_account:
  assumes "sw_caching w" "ss_cached ss = Some a" "ca_id a = sr_account_id run"
  shows "captured_account w run ss =
    (if account_matches w run a then (Inr a, ss) else (Inl (GitHubTransportError ''account_revision_drift''), ss))"
proof -
  have "ss\<lparr>ss_cached := Some a\<rparr> = ss" using assms(2) by simp
  then show ?thesis using assms by (simp add: captured_account_def session_account_def)
qed

lemma on_rows_accounts:
  "(\<And>s. f (with_accounts as s) = apsnd (with_accounts as) (f s)) \<Longrightarrow>
   on_rows f (session_accounts as ss) = apsnd (session_accounts as) (on_rows f ss)"
  by (cases "f (ss_db ss)") (simp add: on_rows_def session_accounts_def)

lemma andThen_accounts:
  assumes "m' = apsnd (session_accounts as) m" "\<And>b s. f' b (session_accounts as s) = apsnd (session_accounts as) (f b s)"
  shows "andThen m' f' = apsnd (session_accounts as) (andThen m f)"
  using assms by (cases m; cases "fst m") (auto simp: andThen_def)

lemma utc_now_accounts: "utc_now w (session_accounts as ss) = apsnd (session_accounts as) (utc_now w ss)"
  by (simp add: utc_now_def)

lemma observe_accounts:
  "(session_accounts as ss)\<lparr>ss_observed := xs\<rparr> = session_accounts as (ss\<lparr>ss_observed := xs\<rparr>)"
  by (simp add: session_accounts_def)

lemma prior_accounts: "latest_repository_snapshot (with_accounts as s) i name = latest_repository_snapshot s i name"
  by (simp add: latest_repository_snapshot_def)

lemma transaction_accounts:
  assumes alone: "\<forall>s. sw_others w (ss_tick ss) s = s"
    and body: "body (session_accounts as (ticked ss)) = apsnd (session_accounts as) (body (ticked ss))"
  shows "transaction w body (session_accounts as ss) = apsnd (session_accounts as) (transaction w body ss)"
proof -
  have start: "ticked ((session_accounts as ss)\<lparr>ss_db := with_accounts as (ss_db ss)\<rparr>) = session_accounts as (ticked ss)"
    by (simp add: session_accounts_def ticked_def)
  have "roll_back ((session_accounts as s)\<lparr>ss_db := with_accounts as db\<rparr>) =
      session_accounts as (roll_back (s\<lparr>ss_db := db\<rparr>))" for s db
    by (simp add: roll_back_def session_accounts_def)
  then show ?thesis using alone
    by (cases "body (ticked ss)"; cases "fst (body (ticked ss))") (simp_all add: transaction_def Let_def start body)
qed

text \<open>C24: Once a manual refresh has read its account, a page is persisted as if the account still were as first read:
  replacing all account rows (the account disabled, revoked, moved to a Project, its repositories taken away) changes
  neither the result nor what is written, since the session keeps loaded rows over its commits.\<close>

theorem manual_refresh_misses_revocation:
  assumes "sw_caching w" and "ss_cached ss = Some a" and "ca_id a = sr_account_id run"
    and "\<forall>s. sw_others w (ss_tick ss) s = s"
  shows "persist_page w run name repo kind sns (session_accounts as ss) =
    apsnd (session_accounts as) (persist_page w run name repo kind sns ss)"
proof (unfold persist_page_def, rule transaction_accounts [OF assms(4)])
  let ?page = "\<lambda>b s1. if casefold name \<notin> casefold ` set (ca_resource_allowlist b)
         then (Inl (GitHubTransportError ''account_revision_drift''), s1)
       else if kind = ''repository'' \<and>
               (case latest_repository_snapshot (ss_db s1) (sr_account_id run) name of
                  None \<Rightarrow> False | Some prior \<Rightarrow> xi_external_resource_id prior \<noteq> resource_identity repo)
         then (Inl (GitHubTransportError ''github_identity_mismatch''), s1)
       else
         andThen (utc_now w s1) (\<lambda>t s2.
         andThen (on_rows (record_items w run repo kind t sns)
            (s2\<lparr>ss_observed := ss_observed s2 @ map (\<lambda>sn. (resource_identity repo, sn_item_id sn)) sns\<rparr>))
           (\<lambda>created s3.
         andThen (on_rows (flush_sync_run (sr_id run) (count_items (int (length sns)) created)) s3)
           (\<lambda>_ s4. (Inr (), s4))))"
  have "?page b (session_accounts as s) = apsnd (session_accounts as) (?page b s)" for b s
    by (auto simp: prior_accounts observe_accounts utc_now_accounts
        intro!: andThen_accounts on_rows_accounts record_items_accounts flush_run_accounts)
  moreover have "captured_account w run (session_accounts as (ticked ss)) =
      apsnd (session_accounts as) (captured_account w run (ticked ss))"
    using cached_account [OF assms(1) _ assms(3)] assms(2) by (simp add: ticked_def session_accounts_def)
  ultimately show "andThen (captured_account w run (session_accounts as (ticked ss))) ?page =
      apsnd (session_accounts as) (andThen (captured_account w run (ticked ss)) ?page)"
    by (intro andThen_accounts)
qed

theorem manual_refresh_misses_revocation_witness:
  "fst (persist_page example_world running_run ''octo/hello'' 5 ''issue'' []
     (session_accounts [shift_account ACCOUNT_REVOKED enabled_account] (at_tick 5 (Some enabled_account) interrupted))) = Inr ()"
proof -
  have "fst (persist_page example_world running_run ''octo/hello'' 5 ''issue'' []
     (at_tick 5 (Some enabled_account) interrupted)) = Inr ()" by code_simp
  moreover have "sw_caching example_world" "\<forall>s. sw_others example_world n s = s" for n by (simp_all add: example_world_def)
  moreover have "ca_id enabled_account = sr_account_id running_run" by code_simp
  ultimately show ?thesis
    using manual_refresh_misses_revocation [of example_world "at_tick 5 (Some enabled_account) interrupted" enabled_account running_run]
    by (simp add: at_tick_def)
qed

end
