(* ===== verification/Connector_Example.thy ===== *)
theory Connector_Example
  imports Connector_Outcomes "HOL-Library.Code_Target_Nat"
begin

text \<open>
  A refresh from beginning to end, evaluated step by step: one repository, which is new, while an issue recorded
  earlier is not listed any more. It shows that the hypotheses of the properties about successful refreshes hold.
\<close>

definition github_pages :: "string \<Rightarrow> json option" where
  "github_pages t =
    (if t = ''user'' then Some (JObj [(''login'', JStr ''octo'')])
     else if t = ''repository'' then Some (JObj [(''id'', JInt 5), (''full_name'', JStr ''octo/hello''),
       (''updated_at'', JStr ''2024-01-02T03:04:05Z''), (''archived'', JBool False), (''private'', JBool False),
       (''description'', JNull)])
     else Some (JArr []))"

fun github_answers :: "github_request \<Rightarrow> string" where
  "github_answers UserRequest = ''user''"
| "github_answers (RepositoryRequest name) = ''repository''"
| "github_answers _ = ''list''"

definition answering_world :: sync_world where
  "answering_world = example_world\<lparr>sw_loads := github_pages,
     sw_http := (\<lambda>n r. Answered 200 False False (github_answers r)), sw_now := (\<lambda>n. 20)\<rparr>"

definition example_run :: sync_run where
  "example_run = (new_sync_run enabled_account ''manual'' ''operator_manual_refresh'' 10)\<lparr>sr_id := 2\<rparr>"

definition started_run :: sync_run where
  "started_run = example_run\<lparr>sr_status := SYNC_RUNNING, sr_started_at := Some 20\<rparr>"

definition gone_item :: external_item where
  "gone_item = \<lparr> xi_id = 3, xi_account_id = 1, xi_provider = ''github'', xi_external_account_id = ''octo'',
     xi_external_resource_id = ''github_repo:5'', xi_external_item_id = ''github_issue:7'', xi_resource_type = ''issue'',
     xi_provider_source_version = ''v'', xi_title = ''gone'', xi_body = [], xi_content_hash = replicate 64 (CHR ''a''),
     xi_application_revision = 1, xi_state = ITEM_CURRENT, xi_project_id = None, xi_created_sync_run_id = 2,
     xi_last_seen_sync_run_id = 2, xi_first_seen_at = 5, xi_last_seen_at = 5 \<rparr>"

definition hello_snapshot :: github_snapshot where
  "hello_snapshot = \<lparr> sn_item_id = ''github_repo:5'', sn_title = ''octo/hello'',
     sn_body = raw_dumps (JObj [(''archived'', JBool False), (''description'', JNull), (''private'', JBool False)]),
     sn_version = ''2024-01-02T03:04:05Z:5'' \<rparr>"

definition valid_account :: connector_account where
  "valid_account = enabled_account\<lparr>ca_validation_status := ''valid'', ca_last_validated_at := Some 20\<rparr>"

definition ready :: connector_db where
  "ready = enabled\<lparr>cd_next_id := 4, cd_sync_runs := [example_run], cd_items := [gone_item]\<rparr>"

definition validated :: connector_db where
  "validated = ready\<lparr>cd_sync_runs := [started_run], cd_accounts := [valid_account]\<rparr>"

definition persisted :: connector_db where
  "persisted = validated\<lparr>cd_next_id := 5, cd_sync_runs := [count_items 1 1 started_run],
     cd_items := [gone_item, (snapshot_item answering_world started_run 5 ''repository'' 20 hello_snapshot)\<lparr>xi_id := 4\<rparr>]\<rparr>"

definition succeeded_run :: sync_run where
  "succeeded_run = finish_row SYNC_SUCCEEDED None True 20 (count_items 1 1 started_run)"

definition reconciled :: connector_db where
  "reconciled = persisted\<lparr>cd_sync_runs := [succeeded_run],
     cd_items := [gone_item\<lparr>xi_state := ITEM_STALE\<rparr>,
       (snapshot_item answering_world started_run 5 ''repository'' 20 hello_snapshot)\<lparr>xi_id := 4\<rparr>]\<rparr>"

definition seen :: "(string \<times> string) list" where
  "seen = [(''github_repo:5'', ''github_repo:5'')]"

definition at_step :: "nat \<Rightarrow> nat \<Rightarrow> nat \<Rightarrow> (string \<times> string) list \<Rightarrow> connector_account option \<Rightarrow> connector_db \<Rightarrow> sync_session" where
  "at_step n attempts bytes observed cached s =
     \<lparr> ss_db = s, ss_cached = cached, ss_tick = n, ss_attempts = attempts, ss_bytes = bytes, ss_observed = observed \<rparr>"

definition example_job :: sync_job where
  "example_job = \<lparr> sj_deadline = SYNC_WALL_CLOCK, sj_limit = SYNC_WALL_CLOCK, sj_secret = ''token'' \<rparr>"

lemma answering_clock:
  "github_deadline answering_world SYNC_WALL_CLOCK (at_step n k b obs c s) = (Inr (), at_step (Suc n) k b obs c s)"
  by (simp add: github_deadline_def answering_world_def example_world_def SYNC_WALL_CLOCK_def seconds_def at_step_def ticked_def)

lemma answering_start:
  "start_run answering_world 2 (at_step 3 0 0 [] None ready) =
     (Inr started_run, at_step 5 0 0 [] (Some enabled_account) (ready\<lparr>cd_sync_runs := [started_run]\<rparr>))"
  by code_simp

lemma answering_user:
  "confirm_user answering_world example_job ''octo''
     (at_step 6 0 0 [] (Some enabled_account) (ready\<lparr>cd_sync_runs := [started_run]\<rparr>)) =
     (Inr (), at_step 9 1 4 [] (Some enabled_account) (ready\<lparr>cd_sync_runs := [started_run]\<rparr>))"
  by code_simp

lemma answering_recheck:
  "recheck answering_world 2 (at_step 10 1 4 [] (Some enabled_account) (ready\<lparr>cd_sync_runs := [started_run]\<rparr>)) =
     (Inr started_run, at_step 11 1 4 [] (Some enabled_account) (ready\<lparr>cd_sync_runs := [started_run]\<rparr>))"
  by code_simp

lemma answering_repository:
  "github_get answering_world SYNC_WALL_CLOCK ''token'' (RepositoryRequest ''octo/hello'')
     (at_step 11 1 4 [] (Some enabled_account) (ready\<lparr>cd_sync_runs := [started_run]\<rparr>)) =
     (Inr (the (github_pages ''repository''), False),
      at_step 14 2 14 [] (Some enabled_account) (ready\<lparr>cd_sync_runs := [started_run]\<rparr>))"
  by code_simp

lemma answering_time: "github_timestamp (JStr ''2024-01-02T03:04:05Z'') = Inr ''2024-01-02T03:04:05Z''"
  by code_simp

lemma answering_value:
  "validated_snapshot answering_world 5 ''github_repo:5'' ''repository'' ''2024-01-02T03:04:05Z:5'' ''octo/hello''
     (sn_body hello_snapshot) = Inr hello_snapshot"
  by code_simp

lemma answering_snapshot:
  "repository_snapshot answering_world (the (github_pages ''repository'')) ''octo/hello'' = Inr (5, hello_snapshot)"
proof -
  have "resource_identity 5 = ''github_repo:5''" "str_int 5 = ''5''" by code_simp+
  then show ?thesis
    using answering_time answering_value
    by (simp add: repository_snapshot_def github_pages_def bind_value_def required_dict_def dict_get_def json_integer_def
        json_string_def guard_value_def hello_snapshot_def)
qed

lemma answering_repositories:
  "validate_repositories answering_world example_job 2 [''octo/hello'']
     (at_step 9 1 4 [] (Some enabled_account) (ready\<lparr>cd_sync_runs := [started_run]\<rparr>)) =
   (Inr [(''octo/hello'', 5, hello_snapshot)],
    at_step 14 2 14 [] (Some enabled_account) (ready\<lparr>cd_sync_runs := [started_run]\<rparr>))"
  by (simp add: answering_clock answering_recheck answering_repository answering_snapshot example_job_def del: One_nat_def)

lemma answering_mark:
  "mark_valid answering_world 2 (at_step 15 2 14 [] (Some enabled_account) (ready\<lparr>cd_sync_runs := [started_run]\<rparr>)) =
     (Inr started_run, at_step 17 2 14 [] (Some valid_account) validated)"
  by code_simp

lemma answering_page:
  "persist_page answering_world started_run ''octo/hello'' 5 ''repository'' [hello_snapshot]
     (at_step 18 2 14 [] (Some valid_account) validated) = (Inr (), at_step 20 2 14 seen (Some valid_account) persisted)"
  by code_simp

lemma answering_issues:
  "fetch_pages answering_world example_job 2 ''octo/hello'' 5 ''issue'' [1, 2] 1
     (at_step 20 2 14 seen (Some valid_account) persisted) =
   (Inr (1, False), at_step 28 3 18 seen (Some valid_account) persisted)"
  by code_simp

lemma answering_pulls:
  "fetch_pages answering_world example_job 2 ''octo/hello'' 5 ''pull_request'' [1, 2] 1
     (at_step 28 3 18 seen (Some valid_account) persisted) =
   (Inr (1, False), at_step 36 4 22 seen (Some valid_account) persisted)"
  by code_simp

lemma answering_end:
  "conclude answering_world 2 False (at_step 36 4 22 seen (Some valid_account) persisted) =
     (Inr succeeded_run, at_step 39 4 22 seen (Some valid_account) reconciled)"
  by code_simp

lemma answering_fetch:
  "fetch_repositories answering_world example_job started_run [(''octo/hello'', 5, hello_snapshot)] (0, False)
     (at_step 17 2 14 [] (Some valid_account) validated) =
   (Inr (1, False), at_step 36 4 22 seen (Some valid_account) persisted)"
proof -
  have "[1..<Suc MAX_DATA_PAGES] = [1, 2]" "sr_id started_run = 2" by code_simp+
  then show ?thesis
    using answering_clock [of 17] answering_page answering_issues answering_pulls
    by (simp add: fetch_repository_def example_job_def One_nat_def [symmetric] del: One_nat_def fetch_pages.simps upt_Suc)
qed

lemma answering_refresh:
  "refresh answering_world example_run (new_session ready) =
     (Inr succeeded_run, at_step 39 4 22 seen (Some valid_account) reconciled)"
proof -
  have "credential_reference (ca_credential_reference enabled_account)" by code_simp
  moreover have "captured_account answering_world example_run (ticked (fresh_refresh (new_session ready))) =
      (Inr enabled_account, at_step 1 0 0 [] (Some enabled_account) ready)" by code_simp
  moreover have "ticked (roll_back (at_step 1 0 0 [] (Some enabled_account) ready)) = at_step 2 0 0 [] None ready" by code_simp
  moreover have "sw_monotonic answering_world n = 0" "sw_secret answering_world r = Inr ''token''" for n r
    by (simp_all add: answering_world_def example_world_def)
  moreover have "sr_id example_run = 2" "ca_external_account_id enabled_account = ''octo''"
    "ca_resource_allowlist enabled_account = [''octo/hello'']"
    by code_simp+
  ultimately show ?thesis
    using answering_clock [of 2] answering_clock [of 5] answering_clock [of 14] answering_start answering_user
      answering_repositories answering_mark answering_fetch answering_end
    by (simp add: refresh_def refresh_account_def Let_def example_job_def del: One_nat_def validate_repositories.simps
        fetch_repositories.simps)
qed


end
