(* ===== verification/Knowledge_Model.thy ===== *)
theory Knowledge_Model
  imports Prelude Complex_Main
begin

text \<open>
  The rows of the knowledge base (\<open>app/models/memory.py\<close>, \<open>memory_embedding.py\<close>, \<open>memory_source.py\<close>,
  \<open>source.py\<close>, \<open>source_document.py\<close>, \<open>source_chunk.py\<close>, \<open>memory_extraction_run.py\<close>, \<open>memory_proposal.py\<close>,
  \<open>capture_item.py\<close>, \<open>project.py\<close>) with their CHECK constraints and, for the Memories, the lengths of their
  \<open>VARCHAR\<close> columns; the tables, and the guard that decides who sees
  a Source (\<open>app/sources/scope.py\<close>).

  Scores and vector components are rational numbers: every finite double is one, and the program only compares
  them. A UUID is a number; the order of the numbers is the order of the UUIDs and of their text.
\<close>

section \<open>Memories\<close>

definition MEMORY_TYPES :: "string list" where
  "MEMORY_TYPES = [''working'', ''episodic'', ''semantic'', ''decision'', ''procedural'', ''preference'', ''temporary'']"

definition MEMORY_STATUSES :: "string list" where
  "MEMORY_STATUSES = [''active'', ''superseded'', ''invalid'', ''archived'', ''expired'']"

record memory =
  me_id :: uuid
  me_project_id :: "uuid option"
  me_content :: string
  me_source :: "string option"
  me_title :: "string option"
  me_summary :: "string option"
  me_memory_type :: string
  me_importance :: rat
  me_confidence :: rat
  me_status :: string
  me_event_time :: "instant option"
  me_expires_at :: "instant option"
  me_supersedes_id :: "uuid option"
  me_created_at :: instant
  me_updated_at :: instant

definition unit_score :: "rat \<Rightarrow> bool" where
  "unit_score x \<longleftrightarrow> 0 \<le> x \<and> x \<le> 1"

definition memory_checks :: "memory \<Rightarrow> bool" where
  "memory_checks m \<longleftrightarrow> me_memory_type m \<in> set MEMORY_TYPES \<and> unit_score (me_importance m) \<and>
     unit_score (me_confidence m) \<and> me_status m \<in> set MEMORY_STATUSES \<and>
     (case me_source m of None \<Rightarrow> True | Some t \<Rightarrow> length t \<le> 100) \<and>
     (case me_title m of None \<Rightarrow> True | Some t \<Rightarrow> length t \<le> 255)"

record memory_embedding =
  eb_id :: uuid
  eb_memory_id :: uuid
  eb_provider :: string
  eb_model :: string
  eb_dimensions :: nat
  eb_embedding :: "rat list"
  eb_input_hash :: string
  eb_embedded_at :: instant
  eb_created_at :: instant
  eb_updated_at :: instant

definition lower_hex_64 :: "string \<Rightarrow> bool" where
  "lower_hex_64 t \<longleftrightarrow> length t = 64 \<and> list_all (\<lambda>c. c \<in> set ''0123456789abcdef'') t"

definition embedding_checks :: "memory_embedding \<Rightarrow> bool" where
  "embedding_checks e \<longleftrightarrow> eb_dimensions e = 1536 \<and> lower_hex_64 (eb_input_hash e)"

section \<open>Sources, documents and chunks\<close>

record knowledge_source =
  so_id :: uuid
  so_source_type :: string
  so_name :: string
  so_reference :: "string option"
  so_checksum :: "string option"
  so_created_at :: instant
  so_updated_at :: instant

record source_document =
  dc_id :: uuid
  dc_source_id :: uuid
  dc_media_type :: string
  dc_original_filename :: "string option"
  dc_byte_size :: "int option"
  dc_extracted_text :: "string option"
  dc_ingestion_status :: string
  dc_error_code :: "string option"
  dc_extracted_at :: "instant option"
  dc_created_at :: instant
  dc_updated_at :: instant

definition document_checks :: "source_document \<Rightarrow> bool" where
  "document_checks d \<longleftrightarrow> (case dc_byte_size d of None \<Rightarrow> True | Some n \<Rightarrow> 0 \<le> n) \<and>
     dc_ingestion_status d \<in> {''pending'', ''extracted'', ''failed''}"

text \<open>\<open>TextChunk\<close> of \<open>app/ingestion/text.py\<close>, and the stored chunk, which adds its keys.\<close>

record text_chunk =
  tc_chunk_index :: nat
  tc_content :: string
  tc_char_start :: nat
  tc_char_end :: nat
  tc_content_hash :: string
  tc_locator :: "string option"

record source_chunk =
  ck_id :: uuid
  ck_document_id :: uuid
  ck_text :: text_chunk

record memory_link =
  ml_id :: uuid
  ml_memory_id :: uuid
  ml_source_id :: uuid
  ml_source_location :: "string option"
  ml_created_at :: instant

section \<open>Extraction runs and proposals\<close>

record extraction_run =
  xr_id :: uuid
  xr_document_id :: uuid
  xr_project_id :: "uuid option"
  xr_provider :: string
  xr_model :: string
  xr_prompt_version :: string
  xr_input_hash :: string
  xr_run_status :: string
  xr_error_code :: "string option"
  xr_started_at :: "instant option"
  xr_completed_at :: "instant option"

definition extraction_checks :: "extraction_run \<Rightarrow> bool" where
  "extraction_checks r \<longleftrightarrow> lower_hex_64 (xr_input_hash r) \<and> xr_run_status r \<in> {''pending'', ''completed'', ''failed''}"

record memory_proposal =
  pp_id :: uuid
  pp_run_id :: uuid
  pp_source_chunk_id :: "uuid option"
  pp_source_chunk_hash :: string
  pp_project_id :: "uuid option"
  pp_proposal_index :: nat
  pp_title :: "string option"
  pp_summary :: "string option"
  pp_content :: string
  pp_memory_type :: string
  pp_importance :: rat
  pp_confidence :: rat
  pp_evidence_text :: string
  pp_evidence_char_start :: nat
  pp_evidence_char_end :: nat
  pp_source_locator :: "string option"
  pp_proposal_hash :: string
  pp_review_status :: string
  pp_review_note :: "string option"
  pp_reviewed_at :: "instant option"
  pp_memory_id :: "uuid option"
  pp_created_at :: instant
  pp_updated_at :: instant

text \<open>The columns PostgreSQL trims with \<open>btrim\<close> lose these characters only.\<close>

definition ascii_space :: "char \<Rightarrow> bool" where
  "ascii_space c \<longleftrightarrow> c = CHR '' '' \<or> (let n = (of_char c :: nat) in 9 \<le> n \<and> n \<le> 13)"

definition proposal_checks :: "memory_proposal \<Rightarrow> bool" where
  "proposal_checks p \<longleftrightarrow> lower_hex_64 (pp_source_chunk_hash p) \<and> \<not> list_all ascii_space (pp_content p) \<and>
     pp_memory_type p \<in> set MEMORY_TYPES \<and> unit_score (pp_importance p) \<and> unit_score (pp_confidence p) \<and>
     \<not> list_all ascii_space (pp_evidence_text p) \<and> pp_evidence_char_start p < pp_evidence_char_end p \<and>
     lower_hex_64 (pp_proposal_hash p) \<and> pp_review_status p \<in> {''pending'', ''approved'', ''rejected''}"

text \<open>The unique constraints of the table, besides \<open>memory_id\<close>, which a promotion sets to a new identifier.\<close>

definition proposals_unique :: "memory_proposal list \<Rightarrow> bool" where
  "proposals_unique rows \<longleftrightarrow> distinct (map (\<lambda>p. (pp_run_id p, pp_proposal_hash p)) rows) \<and>
     distinct (map (\<lambda>p. (pp_run_id p, the (pp_source_chunk_id p), pp_proposal_index p)) [p \<leftarrow> rows. pp_source_chunk_id p \<noteq> None])"

section \<open>Captures\<close>

record capture_item =
  ci_id :: uuid
  ci_project_id :: "uuid option"
  ci_content :: string
  ci_state :: string
  ci_revision :: nat
  ci_created_at :: instant
  ci_updated_at :: instant
  ci_processed_at :: "instant option"
  ci_resulting_source_id :: "uuid option"
  ci_idempotency_key_hash :: string
  ci_request_fingerprint :: string

text \<open>
  The text of the model has characters below 256, so \<open>char_length\<close> is its length; \<open>octet_length\<close> counts two bytes
  from 128 on.
\<close>

definition utf8_length :: "string \<Rightarrow> nat" where
  "utf8_length t = (\<Sum>c \<leftarrow> t. if (of_char c :: nat) < 128 then 1 else 2)"

definition capture_checks :: "capture_item \<Rightarrow> bool" where
  "capture_checks c \<longleftrightarrow> ci_state c \<in> {''pending'', ''processed'', ''discarded''} \<and> 0 < ci_revision c \<and>
     (ci_state c = ''processed'' \<longrightarrow> ci_processed_at c \<noteq> None \<and> ci_resulting_source_id c \<noteq> None) \<and>
     (ci_state c \<noteq> ''processed'' \<longrightarrow> ci_processed_at c = None \<and> ci_resulting_source_id c = None) \<and>
     lower_hex_64 (ci_idempotency_key_hash c) \<and> lower_hex_64 (ci_request_fingerprint c) \<and>
     1 \<le> length (ci_content c) \<and> length (ci_content c) \<le> 8000 \<and> utf8_length (ci_content c) \<le> 32000"

lemma sort_key_Nil_iff [simp]: "sort_key f xs = [] \<longleftrightarrow> xs = []"
  by (metis set_empty set_sort)

section \<open>The tables\<close>

record knowledge_project =
  kp_id :: uuid
  kp_name :: string
  kp_description :: "string option"
  kp_created_at :: instant
  kp_updated_at :: instant

record knowledge_db =
  kb_next_id :: uuid
  kb_projects :: "knowledge_project list"
  kb_memories :: "memory list"
  kb_embeddings :: "memory_embedding list"
  kb_sources :: "knowledge_source list"
  kb_documents :: "source_document list"
  kb_chunks :: "source_chunk list"
  kb_links :: "memory_link list"
  kb_extractions :: "extraction_run list"
  kb_proposals :: "memory_proposal list"
  kb_captures :: "capture_item list"

definition empty_knowledge :: knowledge_db where
  "empty_knowledge = \<lparr> kb_next_id = 1, kb_projects = [], kb_memories = [], kb_embeddings = [], kb_sources = [],
     kb_documents = [], kb_chunks = [], kb_links = [], kb_extractions = [], kb_proposals = [], kb_captures = [] \<rparr>"

text \<open>A fresh UUID: no row of the model has it, as \<open>uuid4\<close> does not repeat.\<close>

definition fresh_id :: "knowledge_db \<Rightarrow> uuid \<times> knowledge_db" where
  "fresh_id s = (kb_next_id s, s\<lparr>kb_next_id := Suc (kb_next_id s)\<rparr>)"

definition find_project :: "knowledge_db \<Rightarrow> uuid \<Rightarrow> knowledge_project option" where
  "find_project s i = row_get kp_id (kb_projects s) i"

definition find_memory :: "knowledge_db \<Rightarrow> uuid \<Rightarrow> memory option" where
  "find_memory s i = row_get me_id (kb_memories s) i"

definition upd_memory :: "uuid \<Rightarrow> (memory \<Rightarrow> memory) \<Rightarrow> knowledge_db \<Rightarrow> knowledge_db" where
  "upd_memory i f s = s\<lparr>kb_memories := row_upd me_id i f (kb_memories s)\<rparr>"

definition add_memory :: "memory \<Rightarrow> knowledge_db \<Rightarrow> knowledge_db" where
  "add_memory m s = s\<lparr>kb_memories := kb_memories s @ [m]\<rparr>"

definition find_embedding :: "knowledge_db \<Rightarrow> uuid \<Rightarrow> memory_embedding option" where
  "find_embedding s i = row_get eb_memory_id (kb_embeddings s) i"

definition find_document_of :: "knowledge_db \<Rightarrow> uuid \<Rightarrow> source_document option" where
  "find_document_of s i = row_get dc_source_id (kb_documents s) i"

definition find_extraction :: "knowledge_db \<Rightarrow> uuid \<Rightarrow> extraction_run option" where
  "find_extraction s i = row_get xr_id (kb_extractions s) i"

definition find_capture :: "knowledge_db \<Rightarrow> uuid \<Rightarrow> capture_item option" where
  "find_capture s i = row_get ci_id (kb_captures s) i"

interpretation memories: table find_memory upd_memory add_memory me_id
  by unfold_locales
    (auto simp: find_memory_def upd_memory_def add_memory_def row_get_upd row_get_append row_get_Cons
      dest: row_get_key split: option.splits)

lemma find_memory_frame:
  "kb_memories s' = kb_memories s \<Longrightarrow> find_memory s' i = find_memory s i"
  by (simp add: find_memory_def)

lemma upd_memory_rows [simp]: "kb_memories (upd_memory i f s) = row_upd me_id i f (kb_memories s)"
  by (simp add: upd_memory_def)

text \<open>
  The contract of a component whose requests come one after another: every request keeps an invariant, and what it
  does to a state where the invariant holds is an evolution of it. Both then hold over every history.
\<close>

locale stepwise =
  fixes step :: "'s \<Rightarrow> 's \<Rightarrow> bool" and inv :: "'s \<Rightarrow> bool" and evolves :: "'s \<Rightarrow> 's \<Rightarrow> bool"
  assumes step_inv: "step s t \<Longrightarrow> inv s \<Longrightarrow> inv t"
    and step_evolves: "step s t \<Longrightarrow> inv s \<Longrightarrow> evolves s t"
    and evolves_refl: "evolves s s"
    and evolves_trans: "evolves s t \<Longrightarrow> evolves t u \<Longrightarrow> evolves s u"
begin

lemma history: "step\<^sup>*\<^sup>* s t \<Longrightarrow> inv s \<Longrightarrow> inv t \<and> evolves s t"
  by (induction rule: rtranclp_induct) (blast intro: step_inv step_evolves evolves_refl evolves_trans)+

end

section \<open>Who sees a Source\<close>

text \<open>
  \<open>source_access_clause\<close>. Its argument is the constant \<open>LEGACY_ONLY\<close>, a Python value (a Project or \<open>None\<close>), or a
  column of the row the Source is joined with. SQL compares the column with \<open>=\<close>, which is not true of two NULLs;
  only for the Python value \<open>None\<close> the clause asks for \<open>IS NULL\<close>.
\<close>

datatype (plugins only: code) source_scope = LegacyOnly | ExactScope "uuid option" | ColumnScope "uuid option"

definition source_bindings :: "knowledge_db \<Rightarrow> uuid \<Rightarrow> capture_item list" where
  "source_bindings s i = [c \<leftarrow> kb_captures s. ci_resulting_source_id c = Some i]"

fun scope_match :: "source_scope \<Rightarrow> uuid option \<Rightarrow> bool" where
  "scope_match LegacyOnly p = False"
| "scope_match (ExactScope q) p = (p = q)"
| "scope_match (ColumnScope q) p = (p = q \<and> q \<noteq> None)"

definition source_access :: "knowledge_db \<Rightarrow> source_scope \<Rightarrow> uuid \<Rightarrow> bool" where
  "source_access s scope i = (source_bindings s i = [] \<or>
     list_ex (\<lambda>c. ci_state c = ''processed'' \<and> ci_processed_at c \<noteq> None \<and> scope_match scope (ci_project_id c))
       (source_bindings s i))"

definition get_source_for_scope :: "knowledge_db \<Rightarrow> uuid \<Rightarrow> source_scope \<Rightarrow> knowledge_source option" where
  "get_source_for_scope s i scope =
    (case row_get so_id (kb_sources s) i of
       None \<Rightarrow> None
     | Some x \<Rightarrow> if source_access s scope i then Some x else None)"

definition get_document_for_scope :: "knowledge_db \<Rightarrow> uuid \<Rightarrow> source_scope \<Rightarrow> source_document option" where
  "get_document_for_scope s i scope =
    (case row_get dc_id (kb_documents s) i of
       None \<Rightarrow> None
     | Some d \<Rightarrow> if source_access s scope (dc_source_id d) \<and> row_get so_id (kb_sources s) (dc_source_id d) \<noteq> None
                then Some d else None)"

definition get_chunk_for_scope :: "knowledge_db \<Rightarrow> uuid \<Rightarrow> source_scope \<Rightarrow> source_chunk option" where
  "get_chunk_for_scope s i scope =
    (case row_get ck_id (kb_chunks s) i of
       None \<Rightarrow> None
     | Some c \<Rightarrow> if get_document_for_scope s (ck_document_id c) scope \<noteq> None then Some c else None)"

end
