(* ===== verification/Memory_Service.thy ===== *)
theory Memory_Service
  imports Knowledge_Model
begin

text \<open>
  Memories and the requests that change them: the policies of \<open>app/memory_quality/supersession.py\<close>,
  \<open>expiration.py\<close> and \<open>refinement.py\<close>, the writes of \<open>app/repositories/memories.py\<close>, the input schema
  \<open>MemoryCreate\<close> and the handlers of \<open>app/api/routes/memories.py\<close>.

  A handler gets the state and returns the HTTP error or the value together with the state: a handler that fails
  has rolled back. \<open>now\<close> is the transaction timestamp of the database (\<open>func.now()\<close>), \<open>clock\<close> the reading of
  \<open>datetime.now(UTC)\<close>.
\<close>

datatype (plugins only: code) http_error = HttpError nat string

definition database_unavailable :: http_error where
  "database_unavailable = HttpError 503 ''database unavailable''"

datatype change = Updated | Unchanged

type_synonym 'a reply = "(http_error + 'a) \<times> knowledge_db"

section \<open>The input of a new Memory\<close>

record memory_create =
  mc_project_id :: "uuid option"
  mc_content :: string
  mc_source :: "string option"
  mc_title :: "string option"
  mc_summary :: "string option"
  mc_memory_type :: string
  mc_importance :: rat
  mc_confidence :: rat
  mc_status :: string
  mc_event_time :: "instant option"
  mc_expires_at :: "instant option"
  mc_supersedes_id :: "uuid option"

definition trim_optional_text :: "string option \<Rightarrow> string option" where
  "trim_optional_text v = (case v of None \<Rightarrow> None | Some t \<Rightarrow> if py_strip t = [] then None else Some (py_strip t))"

definition validate_memory_create :: "memory_create \<Rightarrow> memory_create option" where
  "validate_memory_create c =
    (let v = c\<lparr>mc_content := py_strip (mc_content c), mc_source := map_option py_strip (mc_source c),
               mc_title := trim_optional_text (mc_title c), mc_summary := trim_optional_text (mc_summary c)\<rparr> in
     if mc_content v \<noteq> [] \<and>
        (case mc_source v of None \<Rightarrow> True | Some t \<Rightarrow> 1 \<le> length t \<and> length t \<le> 100) \<and>
        (case mc_title v of None \<Rightarrow> True | Some t \<Rightarrow> length t \<le> 255) \<and>
        mc_memory_type v \<in> set MEMORY_TYPES \<and> unit_score (mc_importance v) \<and> unit_score (mc_confidence v) \<and>
        mc_status v \<in> set MEMORY_STATUSES
     then Some v else None)"

section \<open>Policies\<close>

definition classify_supersession :: "memory \<Rightarrow> memory \<Rightarrow> memory list \<Rightarrow> bool \<Rightarrow> string + change" where
  "classify_supersession older replacement existing_successors creates_cycle =
    (let exact_link = (me_supersedes_id replacement = Some (me_id older));
         exact_successors = [row \<leftarrow> existing_successors. me_id row = me_id replacement];
         other_successors = [row \<leftarrow> existing_successors. me_id row \<noteq> me_id replacement] in
     if exact_link \<and> me_status older = ''superseded'' then
       if me_status replacement \<noteq> ''active'' \<or> other_successors \<noteq> [] \<or> exact_successors = []
       then Inl ''inconsistent existing supersession state''
       else Inr Unchanged
     else if exact_link then Inl ''inconsistent existing supersession state''
     else if me_status older = ''superseded'' then
       if existing_successors \<noteq> [] then Inl ''older memory already has a replacement''
       else Inl ''inconsistent existing supersession state''
     else if me_project_id older \<noteq> me_project_id replacement then Inl ''memory project scope mismatch''
     else if me_status older \<noteq> ''active'' \<or> me_status replacement \<noteq> ''active'' then
       Inl ''memory is not eligible for superseding''
     else if me_supersedes_id replacement \<noteq> None then Inl ''replacement memory already has a predecessor''
     else if existing_successors \<noteq> [] then Inl ''older memory already has a replacement''
     else if creates_cycle then Inl ''memory supersession would create a cycle''
     else Inr Updated)"

definition classify_expiration :: "memory \<Rightarrow> instant \<Rightarrow> string + (change \<times> instant)" where
  "classify_expiration m captured_at =
    (if me_status m = ''expired'' then
       (case me_expires_at m of
          None \<Rightarrow> Inl ''memory expiration state is inconsistent''
        | Some e \<Rightarrow> Inr (Unchanged, e))
     else if me_status m \<noteq> ''active'' then Inl ''memory not eligible for expiration''
     else (case me_expires_at m of
             None \<Rightarrow> Inr (Updated, captured_at)
           | Some e \<Rightarrow> Inr (Updated, if captured_at < e then captured_at else e)))"

definition classify_quality_refinement :: "memory \<Rightarrow> rat option \<Rightarrow> rat option \<Rightarrow> string + change" where
  "classify_quality_refinement m confidence importance =
    (if me_status m \<noteq> ''active'' then Inl ''memory not eligible for quality refinement''
     else if confidence \<noteq> None \<and> confidence \<noteq> Some (me_confidence m) then Inr Updated
     else if importance \<noteq> None \<and> importance \<noteq> Some (me_importance m) then Inr Updated
     else Inr Unchanged)"

section \<open>Repository\<close>

definition lock_memories :: "knowledge_db \<Rightarrow> uuid list \<Rightarrow> (uuid \<times> memory) list" where
  "lock_memories s ids =
     map (\<lambda>m. (me_id m, m)) (sort_key me_id [m \<leftarrow> kb_memories s. me_id m \<in> set ids])"

definition lock_memory_successors :: "knowledge_db \<Rightarrow> uuid \<Rightarrow> memory list" where
  "lock_memory_successors s older_id = sort_key me_id [m \<leftarrow> kb_memories s. me_supersedes_id m = Some older_id]"

text \<open>
  The recursive query of \<open>predecessor_chain_contains\<close>: from the rows found in the last round (\<open>work\<close>) to the rows
  they supersede, with \<open>UNION\<close> keeping only the rows that are new, until a round finds none.
\<close>

definition parents_of :: "memory list \<Rightarrow> uuid list \<Rightarrow> uuid list" where
  "parents_of rows work =
     [me_id p. p \<leftarrow> rows, list_ex (\<lambda>m. me_id m \<in> set work \<and> me_supersedes_id m = Some (me_id p)) rows]"

lemma parents_of_rows: "i \<in> set (parents_of rows work) \<Longrightarrow> i \<in> me_id ` set rows"
  by (auto simp: parents_of_def)

lemma ancestry_measure:
  assumes "x \<in> set (parents_of rows work)" and "x \<notin> set found" and "x \<in> set new"
  shows "length [m \<leftarrow> rows. me_id m \<notin> set (found @ new)] < length [m \<leftarrow> rows. me_id m \<notin> set found]"
proof -
  obtain m where m: "m \<in> set rows" "me_id m = x" using parents_of_rows [OF assms(1)] by auto
  have "[m \<leftarrow> rows. me_id m \<notin> set (found @ new)] = [m \<leftarrow> [m \<leftarrow> rows. me_id m \<notin> set found]. me_id m \<notin> set new]"
    by (auto intro: filter_cong)
  moreover have "m \<in> set [m \<leftarrow> rows. me_id m \<notin> set found]" "\<not> me_id m \<notin> set new"
    using m assms(2,3) by auto
  ultimately show ?thesis using length_filter_less by metis
qed

function ancestry :: "memory list \<Rightarrow> uuid list \<Rightarrow> uuid list \<Rightarrow> uuid list" where
  "ancestry rows found work =
    (let new = remdups [i \<leftarrow> parents_of rows work. i \<notin> set found] in
     if new = [] then found else ancestry rows (found @ new) new)"
  by auto

termination
proof (relation "measure (\<lambda>(rows, found, work). length [m \<leftarrow> rows. me_id m \<notin> set found])", goal_cases)
  case (2 rows found work new)
  then have "hd new \<in> set new" by (intro hd_in_set) simp
  moreover from this have "hd new \<in> set (parents_of rows work)" "hd new \<notin> set found" using 2 by auto
  ultimately show ?case using ancestry_measure [of "hd new" rows work found new] by simp
qed simp

declare ancestry.simps [simp del]

definition predecessor_chain_contains :: "knowledge_db \<Rightarrow> uuid \<Rightarrow> uuid \<Rightarrow> bool" where
  "predecessor_chain_contains s start_id sought_id =
    (let anchor = [me_id m. m \<leftarrow> kb_memories s, me_id m = start_id] in
     sought_id \<in> set (ancestry (kb_memories s) anchor anchor))"

text \<open>The attribute changes of \<open>apply_memory_*\<close>, with the \<open>updated_at\<close> that the flush of a changed row sets.\<close>

definition apply_memory_supersession :: "uuid \<Rightarrow> uuid \<Rightarrow> instant \<Rightarrow> knowledge_db \<Rightarrow> knowledge_db" where
  "apply_memory_supersession older replacement now s =
     upd_memory older (\<lambda>m. m\<lparr>me_status := ''superseded'', me_updated_at := now\<rparr>)
       (upd_memory replacement (\<lambda>m. m\<lparr>me_supersedes_id := Some older, me_updated_at := now\<rparr>) s)"

definition apply_memory_expiration :: "uuid \<Rightarrow> instant \<Rightarrow> instant \<Rightarrow> knowledge_db \<Rightarrow> knowledge_db" where
  "apply_memory_expiration i expires_at now =
     upd_memory i (\<lambda>m. m\<lparr>me_status := ''expired'', me_expires_at := Some expires_at, me_updated_at := now\<rparr>)"

definition apply_memory_quality_refinement ::
  "uuid \<Rightarrow> rat option \<Rightarrow> rat option \<Rightarrow> instant \<Rightarrow> knowledge_db \<Rightarrow> knowledge_db" where
  "apply_memory_quality_refinement i confidence importance now =
     upd_memory i (\<lambda>m. m\<lparr>me_confidence := (case confidence of None \<Rightarrow> me_confidence m | Some v \<Rightarrow> v),
       me_importance := (case importance of None \<Rightarrow> me_importance m | Some v \<Rightarrow> v), me_updated_at := now\<rparr>)"

definition new_memory :: "memory_create \<Rightarrow> uuid \<Rightarrow> instant \<Rightarrow> memory" where
  "new_memory c i now = \<lparr> me_id = i, me_project_id = mc_project_id c, me_content = mc_content c,
     me_source = mc_source c, me_title = mc_title c, me_summary = mc_summary c, me_memory_type = mc_memory_type c,
     me_importance = mc_importance c, me_confidence = mc_confidence c, me_status = mc_status c,
     me_event_time = mc_event_time c, me_expires_at = mc_expires_at c, me_supersedes_id = mc_supersedes_id c,
     me_created_at = now, me_updated_at = now \<rparr>"

text \<open>\<open>repositories.create_memory\<close>: the flush checks the constraints of the table.\<close>

definition insert_memory :: "memory_create \<Rightarrow> instant \<Rightarrow> knowledge_db \<Rightarrow> memory reply" where
  "insert_memory c now s =
    (let (i, s1) = fresh_id s; m = new_memory c i now in
     if memory_checks m then (Inr m, add_memory m s1) else (Inl database_unavailable, s))"

section \<open>Handlers\<close>

definition refine_memory_quality ::
  "uuid \<Rightarrow> rat option \<Rightarrow> rat option \<Rightarrow> instant \<Rightarrow> knowledge_db \<Rightarrow> (change \<times> memory) reply" where
  "refine_memory_quality i confidence importance now s =
    (case find_memory s i of
       None \<Rightarrow> (Inl (HttpError 404 ''memory not found''), s)
     | Some m \<Rightarrow>
         (case classify_quality_refinement m confidence importance of
            Inl detail \<Rightarrow> (Inl (HttpError 409 detail), s)
          | Inr Unchanged \<Rightarrow> (Inr (Unchanged, m), s)
          | Inr Updated \<Rightarrow>
              (let s' = apply_memory_quality_refinement i confidence importance now s; m' = the (find_memory s' i) in
               if memory_checks m' then (Inr (Updated, m'), s') else (Inl database_unavailable, s))))"

definition expire_memory :: "uuid \<Rightarrow> instant \<Rightarrow> instant \<Rightarrow> knowledge_db \<Rightarrow> (change \<times> memory) reply" where
  "expire_memory i clock now s =
    (case find_memory s i of
       None \<Rightarrow> (Inl (HttpError 404 ''memory not found''), s)
     | Some m \<Rightarrow>
         (case classify_expiration m clock of
            Inl detail \<Rightarrow> (Inl (HttpError 409 detail), s)
          | Inr (Unchanged, e) \<Rightarrow> (Inr (Unchanged, m), s)
          | Inr (Updated, e) \<Rightarrow>
              (let s' = apply_memory_expiration i e now s in (Inr (Updated, the (find_memory s' i)), s'))))"

text \<open>
  What \<open>supersede_memory\<close> reads and decides under its row locks, and what it then writes; alone, the request decides
  and writes on the same state. The locks are those of the two Memories and of the successors of the older one.
\<close>

definition supersede_decision :: "uuid \<Rightarrow> uuid \<Rightarrow> knowledge_db \<Rightarrow> http_error + change" where
  "supersede_decision i replacement_id s =
    (if i = replacement_id then Inl (HttpError 409 ''memory cannot supersede itself'')
     else let locked = lock_memories s [i, replacement_id] in
       (case map_of locked i of
          None \<Rightarrow> Inl (HttpError 404 ''older memory not found'')
        | Some older \<Rightarrow>
            (case map_of locked replacement_id of
               None \<Rightarrow> Inl (HttpError 404 ''replacement memory not found'')
             | Some replacement \<Rightarrow>
                 (let successors = lock_memory_successors s (me_id older);
                      creates_cycle = predecessor_chain_contains s (me_id older) (me_id replacement) in
                  case classify_supersession older replacement successors creates_cycle of
                    Inl detail \<Rightarrow> Inl (HttpError 409 detail)
                  | Inr c \<Rightarrow> Inr c))))"

definition supersede_write :: "uuid \<Rightarrow> uuid \<Rightarrow> change \<Rightarrow> instant \<Rightarrow> knowledge_db \<Rightarrow> knowledge_db" where
  "supersede_write i replacement_id c now s =
    (case c of Updated \<Rightarrow> apply_memory_supersession i replacement_id now s | Unchanged \<Rightarrow> s)"

definition supersede_memory :: "uuid \<Rightarrow> uuid \<Rightarrow> instant \<Rightarrow> knowledge_db \<Rightarrow> (change \<times> memory \<times> memory) reply" where
  "supersede_memory i replacement_id now s =
    (case supersede_decision i replacement_id s of
       Inl e \<Rightarrow> (Inl e, s)
     | Inr c \<Rightarrow>
         (let s' = supersede_write i replacement_id c now s in
          (Inr (c, the (find_memory s' i), the (find_memory s' replacement_id)), s')))"

definition supersede_locks :: "uuid \<Rightarrow> uuid \<Rightarrow> knowledge_db \<Rightarrow> uuid set" where
  "supersede_locks i replacement_id s = {i, replacement_id} \<union> me_id ` set (lock_memory_successors s i)"

definition create_memory :: "memory_create \<Rightarrow> instant \<Rightarrow> knowledge_db \<Rightarrow> memory reply" where
  "create_memory c now s =
    (if (case mc_project_id c of None \<Rightarrow> False | Some p \<Rightarrow> find_project s p = None)
     then (Inl (HttpError 404 ''project not found''), s)
     else if (case mc_supersedes_id c of None \<Rightarrow> False | Some i \<Rightarrow> find_memory s i = None)
     then (Inl (HttpError 404 ''superseded memory not found''), s)
     else insert_memory c now s)"

section \<open>Links to Sources\<close>

definition memory_source_link_exists :: "knowledge_db \<Rightarrow> uuid \<Rightarrow> uuid \<Rightarrow> bool" where
  "memory_source_link_exists s memory_id source_id =
     list_ex (\<lambda>l. ml_memory_id l = memory_id \<and> ml_source_id l = source_id) (kb_links s)"

definition create_memory_source_link ::
  "uuid \<Rightarrow> uuid \<Rightarrow> string option \<Rightarrow> instant \<Rightarrow> knowledge_db \<Rightarrow> memory_link \<times> knowledge_db" where
  "create_memory_source_link memory_id source_id location now s =
    (let (i, s1) = fresh_id s;
         l = \<lparr> ml_id = i, ml_memory_id = memory_id, ml_source_id = source_id, ml_source_location = location,
               ml_created_at = now \<rparr> in
     (l, s1\<lparr>kb_links := kb_links s1 @ [l]\<rparr>))"

definition link_source_to_memory ::
  "uuid \<Rightarrow> uuid \<Rightarrow> string option \<Rightarrow> instant \<Rightarrow> knowledge_db \<Rightarrow> memory_link reply" where
  "link_source_to_memory memory_id source_id location now s =
    (case find_memory s memory_id of
       None \<Rightarrow> (Inl (HttpError 404 ''memory not found''), s)
     | Some m \<Rightarrow>
         if get_source_for_scope s source_id (ExactScope (me_project_id m)) = None
         then (Inl (HttpError 404 ''source not found''), s)
         else if memory_source_link_exists s memory_id source_id
         then (Inl (HttpError 409 ''source already linked to memory''), s)
         else let (l, s') = create_memory_source_link memory_id source_id (trim_optional_text location) now s in
              (Inr l, s'))"

text \<open>
  \<open>list_sources_for_memory\<close>: the joined rows, newest link first, and the page of them. The guard gets the column
  \<open>Memory.project_id\<close>.
\<close>

definition linked_sources :: "knowledge_db \<Rightarrow> uuid \<Rightarrow> (memory_link \<times> knowledge_source) list" where
  "linked_sources s memory_id =
     [(l, x). l \<leftarrow> sort_key (\<lambda>l. (- ml_created_at l, ml_id l)) [l \<leftarrow> kb_links s. ml_memory_id l = memory_id],
        x \<leftarrow> [x \<leftarrow> kb_sources s. so_id x = ml_source_id l],
        list_ex (\<lambda>m. me_id m = ml_memory_id l \<and> source_access s (ColumnScope (me_project_id m)) (so_id x)) (kb_memories s)]"

definition list_sources_for_memory ::
  "knowledge_db \<Rightarrow> uuid \<Rightarrow> nat \<Rightarrow> nat \<Rightarrow> http_error + (memory_link \<times> knowledge_source) list" where
  "list_sources_for_memory s memory_id limit offset =
    (if find_memory s memory_id = None then Inl (HttpError 404 ''memory not found'')
     else Inr (take limit (drop offset (linked_sources s memory_id))))"

end
