(* ===== verification/Source_Text.thy ===== *)
theory Source_Text
  imports Memory_Service Json_Canonical
begin

text \<open>
  Text of Sources: the normalization and the overlapping chunks of \<open>app/ingestion/text.py\<close>, and the writes of
  \<open>app/repositories/sources.py\<close> that store a Source and its one document. \<open>sha\<close> is the hexadecimal SHA-256 of the
  UTF-8 bytes of a text.
\<close>

section \<open>Normalization and chunking\<close>

definition LF :: char where "LF = char_of (10::nat)"
definition CR :: char where "CR = char_of (13::nat)"

text \<open>\<open>text.replace("\r\n", "\n").replace("\r", "\n")\<close>.\<close>

fun replace_crlf :: "string \<Rightarrow> string" where
  "replace_crlf [] = []"
| "replace_crlf [c] = [c]"
| "replace_crlf (c # d # cs) = (if c = CR \<and> d = LF then LF # replace_crlf cs else c # replace_crlf (d # cs))"

definition normalize_plain_text :: "string \<Rightarrow> string" where
  "normalize_plain_text t = map (\<lambda>c. if c = CR then LF else c) (replace_crlf t)"

definition blank :: "string \<Rightarrow> bool" where
  "blank t \<longleftrightarrow> list_all is_space t"

definition MAX_CHUNKS :: nat where "MAX_CHUNKS = 10000"

text \<open>\<open>text[start:end]\<close>.\<close>

definition slice :: "nat \<Rightarrow> nat \<Rightarrow> 'a list \<Rightarrow> 'a list" where
  "slice i j xs = take (j - i) (drop i xs)"

definition hash_chunk :: "(string \<Rightarrow> string) \<Rightarrow> string \<Rightarrow> string" where
  "hash_chunk sha content = sha content"

definition chunk_of :: "(string \<Rightarrow> string) \<Rightarrow> string \<Rightarrow> nat \<Rightarrow> nat \<Rightarrow> nat \<Rightarrow> text_chunk" where
  "chunk_of sha t k i j = \<lparr> tc_chunk_index = k, tc_content = slice i j t, tc_char_start = i, tc_char_end = j,
     tc_content_hash = hash_chunk sha (slice i j t), tc_locator = None \<rparr>"

function chunk_loop ::
  "(string \<Rightarrow> string) \<Rightarrow> string \<Rightarrow> nat \<Rightarrow> nat \<Rightarrow> nat \<Rightarrow> text_chunk list \<Rightarrow> string + text_chunk list" where
  "chunk_loop sha t width overlap start chunks =
    (if length t \<le> start then Inr chunks
     else let end_at = min (start + width) (length t); content = slice start end_at t in
       if \<not> blank content \<and> MAX_CHUNKS \<le> length chunks then Inl ''text produces more than 10000 chunks''
       else let chunks' = (if blank content then chunks
                           else chunks @ [chunk_of sha t (length chunks) start end_at]);
                next_start = end_at - overlap in
            if end_at = length t then Inr chunks'
            else if next_start \<le> start then Inl ''chunk settings do not permit forward progress''
            else chunk_loop sha t width overlap next_start chunks')"
  by pat_completeness auto
termination by (relation "measure (\<lambda>(sha, t, width, overlap, start, chunks). length t - start)") auto

declare chunk_loop.simps [simp del]

definition chunk_text :: "(string \<Rightarrow> string) \<Rightarrow> string \<Rightarrow> int \<Rightarrow> int \<Rightarrow> string + text_chunk list" where
  "chunk_text sha t chunk_size chunk_overlap =
    (if chunk_size \<le> 0 \<or> chunk_overlap < 0 \<or> chunk_size \<le> chunk_overlap
     then Inl ''chunk settings do not permit forward progress''
     else case chunk_loop sha t (nat chunk_size) (nat chunk_overlap) 0 [] of
            Inl e \<Rightarrow> Inl e
          | Inr [] \<Rightarrow> Inl ''text must contain a non-whitespace character''
          | Inr chunks \<Rightarrow> Inr chunks)"

section \<open>Storing a Source and its document\<close>

definition create_source :: "string \<Rightarrow> string \<Rightarrow> string option \<Rightarrow> string option \<Rightarrow> instant \<Rightarrow> knowledge_db \<Rightarrow>
  knowledge_source \<times> knowledge_db" where
  "create_source source_type name ref checksum now s =
    (let (i, s1) = fresh_id s;
         x = \<lparr> so_id = i, so_source_type = source_type, so_name = name, so_reference = ref, so_checksum = checksum,
               so_created_at = now, so_updated_at = now \<rparr> in
     (x, s1\<lparr>kb_sources := kb_sources s1 @ [x]\<rparr>))"

text \<open>The stored chunks of a document, in the order of \<open>document.chunks\<close>.\<close>

definition document_chunks :: "knowledge_db \<Rightarrow> uuid \<Rightarrow> source_chunk list" where
  "document_chunks s d = sort_key (\<lambda>c. (tc_chunk_index (ck_text c), ck_id c)) [c \<leftarrow> kb_chunks s. ck_document_id c = d]"

fun add_chunks :: "uuid \<Rightarrow> text_chunk list \<Rightarrow> knowledge_db \<Rightarrow> knowledge_db" where
  "add_chunks d [] s = s"
| "add_chunks d (c # cs) s = (let (i, s1) = fresh_id s in
     add_chunks d cs (s1\<lparr>kb_chunks := kb_chunks s1 @ [\<lparr> ck_id = i, ck_document_id = d, ck_text = c \<rparr>]\<rparr>))"

definition remove_chunks :: "uuid \<Rightarrow> knowledge_db \<Rightarrow> knowledge_db" where
  "remove_chunks d s = s\<lparr>kb_chunks := [c \<leftarrow> kb_chunks s. ck_document_id c \<noteq> d],
     kb_proposals := map (\<lambda>p. if list_ex (\<lambda>c. ck_document_id c = d \<and> pp_source_chunk_id p = Some (ck_id c)) (kb_chunks s)
       then p\<lparr>pp_source_chunk_id := None\<rparr> else p) (kb_proposals s)\<rparr>"

definition extracted_document ::
  "uuid \<Rightarrow> string \<Rightarrow> string \<Rightarrow> string option \<Rightarrow> int \<Rightarrow> instant \<Rightarrow> instant \<Rightarrow> uuid \<Rightarrow> source_document" where
  "extracted_document source_id normalized_text media_type filename byte_size extracted_at now i =
    \<lparr> dc_id = i, dc_source_id = source_id, dc_media_type = media_type, dc_original_filename = filename,
      dc_byte_size = Some byte_size, dc_extracted_text = Some normalized_text, dc_ingestion_status = ''extracted'',
      dc_error_code = None, dc_extracted_at = Some extracted_at, dc_created_at = now, dc_updated_at = now \<rparr>"

text \<open>\<open>DocumentIngestionResult\<close>: the document, the number of chunks and the generation status.\<close>

definition upsert_document ::
  "uuid \<Rightarrow> string \<Rightarrow> string \<Rightarrow> string option \<Rightarrow> int \<Rightarrow> text_chunk list \<Rightarrow> instant \<Rightarrow> instant \<Rightarrow> knowledge_db \<Rightarrow>
   (source_document \<times> nat \<times> string) \<times> knowledge_db" where
  "upsert_document source_id normalized_text media_type filename byte_size chunks extracted_at now s =
    (case find_document_of s source_id of
       None \<Rightarrow>
         (let (i, s1) = fresh_id s;
              d = extracted_document source_id normalized_text media_type filename byte_size extracted_at now i in
          ((d, length chunks, ''created''), add_chunks i chunks (s1\<lparr>kb_documents := kb_documents s1 @ [d]\<rparr>)))
     | Some d \<Rightarrow>
         (let chunks_identical = (map ck_text (document_chunks s (dc_id d)) = chunks);
              metadata_identical = (dc_media_type d = media_type \<and> dc_original_filename d = filename \<and>
                dc_byte_size d = Some byte_size \<and> dc_extracted_text d = Some normalized_text \<and>
                dc_ingestion_status d = ''extracted'' \<and> dc_error_code d = None) in
          if metadata_identical \<and> chunks_identical then ((d, length chunks, ''unchanged''), s)
          else
            let f = (\<lambda>d. (extracted_document source_id normalized_text media_type filename byte_size extracted_at now (dc_id d))
                       \<lparr>dc_created_at := dc_created_at d\<rparr>);
                s1 = s\<lparr>kb_documents := row_upd dc_id (dc_id d) f (kb_documents s)\<rparr>;
                s2 = (if chunks_identical then s1 else add_chunks (dc_id d) chunks (remove_chunks (dc_id d) s1)) in
            ((f d, length chunks, ''updated''), s2)))"

definition upsert_text_document ::
  "uuid \<Rightarrow> string \<Rightarrow> string option \<Rightarrow> text_chunk list \<Rightarrow> instant \<Rightarrow> instant \<Rightarrow> knowledge_db \<Rightarrow>
   (source_document \<times> nat \<times> string) \<times> knowledge_db" where
  "upsert_text_document source_id normalized_text filename chunks extracted_at now =
     upsert_document source_id normalized_text ''text/plain'' filename (int (utf8_length normalized_text)) chunks
       extracted_at now"

section \<open>What the chunks are\<close>

definition chunk_exact :: "(string \<Rightarrow> string) \<Rightarrow> string \<Rightarrow> nat \<Rightarrow> text_chunk \<Rightarrow> bool" where
  "chunk_exact sha t k c \<longleftrightarrow> tc_chunk_index c = k \<and> tc_char_start c < tc_char_end c \<and> tc_char_end c \<le> length t \<and>
     tc_content c = slice (tc_char_start c) (tc_char_end c) t \<and> tc_content_hash c = sha (tc_content c) \<and>
     \<not> blank (tc_content c)"

definition covers :: "text_chunk list \<Rightarrow> nat \<Rightarrow> bool" where
  "covers chunks p \<longleftrightarrow> (\<exists>c \<in> set chunks. tc_char_start c \<le> p \<and> p < tc_char_end c)"

lemma slice_nth:
  assumes "i \<le> p" "p < j" "j \<le> length xs"
  shows "xs ! p \<in> set (slice i j xs)"
proof -
  have "slice i j xs ! (p - i) = xs ! p" "p - i < length (slice i j xs)" using assms by (auto simp: slice_def)
  then show ?thesis by (metis nth_mem)
qed

lemma chunk_of_exact:
  "i < j \<Longrightarrow> j \<le> length t \<Longrightarrow> \<not> blank (slice i j t) \<Longrightarrow> chunk_exact sha t k (chunk_of sha t k i j)"
  by (simp add: chunk_exact_def chunk_of_def hash_chunk_def)

lemma chunk_loop_exact:
  assumes "chunk_loop sha t width overlap start chunks = Inr cs" and "0 < width"
    and "\<And>k. k < length chunks \<Longrightarrow> chunk_exact sha t k (chunks ! k)" and "length chunks \<le> MAX_CHUNKS"
    and "\<And>p. p < start \<Longrightarrow> p < length t \<Longrightarrow> \<not> is_space (t ! p) \<Longrightarrow> covers chunks p"
  shows "(\<forall>k < length cs. chunk_exact sha t k (cs ! k)) \<and> length cs \<le> MAX_CHUNKS \<and>
    (\<forall>p < length t. is_space (t ! p) \<or> covers cs p)"
  using assms
proof (induction sha t width overlap start chunks rule: chunk_loop.induct)
  case (1 sha t width overlap start chunks)
  show ?case
  proof (cases "length t \<le> start")
    case True
    then show ?thesis using 1(2,4-) by (auto simp: chunk_loop.simps)
  next
    case False
    let ?e = "min (start + width) (length t)" and ?c = "slice start (min (start + width) (length t)) t"
    let ?cs = "if blank ?c then chunks else chunks @ [chunk_of sha t (length chunks) start ?e]"
    have small: "\<not> (\<not> blank ?c \<and> MAX_CHUNKS \<le> length chunks)"
      using 1(2) False by (auto simp: chunk_loop.simps [of sha t width overlap start chunks] Let_def split: if_splits)
    have exact: "\<And>k. k < length ?cs \<Longrightarrow> chunk_exact sha t k (?cs ! k)" "length ?cs \<le> MAX_CHUNKS"
      using 1(3-5) False small by (auto simp: nth_append less_Suc_eq intro!: chunk_of_exact)
    have covered: "covers ?cs p" if p: "p < ?e" "p < length t" "\<not> is_space (t ! p)" for p
    proof (cases "p < start")
      case True
      then show ?thesis using 1(6) p by (auto simp: covers_def)
    next
      case False
      then have "t ! p \<in> set ?c" using p by (intro slice_nth) auto
      then have "\<not> blank ?c" using p(3) by (auto simp: blank_def list_all_iff)
      then show ?thesis using False p by (auto simp: covers_def chunk_of_def)
    qed
    show ?thesis
    proof (cases "?e = length t")
      case True
      then have cs: "cs = ?cs" using 1(2) False small
        by (simp add: chunk_loop.simps [of sha t width overlap start chunks] Let_def split: if_splits)
      have "is_space (t ! p) \<or> covers cs p" if "p < length t" for p
        using covered [of p] that unfolding cs True by blast
      then show ?thesis using exact unfolding cs by blast
    next
      case more: False
      then have rest: "chunk_loop sha t width overlap (?e - overlap) ?cs = Inr cs" "\<not> ?e - overlap \<le> start"
        using 1(2) False small
        by (simp_all add: chunk_loop.simps [of sha t width overlap start chunks] Let_def split: if_splits)
      show ?thesis
        by (rule 1(1) [OF False refl refl small refl refl more rest(2,1) 1(3) exact(1) exact(2) covered]) auto
    qed
  qed
qed

text \<open>C28: Chunking loses nothing and changes nothing: every chunk is exactly the characters of the text between its
  two bounds, with its number and the hash of its content, none is blank, there are between one and 10,000 of them,
  and every character that is not white space lies in one.\<close>

theorem chunks_are_exact_ranges:
  assumes "chunk_text sha t chunk_size chunk_overlap = Inr cs"
  shows "cs \<noteq> [] \<and> length cs \<le> 10000 \<and>
    (\<forall>k < length cs. tc_chunk_index (cs ! k) = k \<and> tc_char_start (cs ! k) < tc_char_end (cs ! k) \<and>
       tc_char_end (cs ! k) \<le> length t \<and> tc_content (cs ! k) = slice (tc_char_start (cs ! k)) (tc_char_end (cs ! k)) t \<and>
       tc_content_hash (cs ! k) = sha (tc_content (cs ! k)) \<and> \<not> blank (tc_content (cs ! k))) \<and>
    (\<forall>p < length t. \<not> is_space (t ! p) \<longrightarrow> (\<exists>c \<in> set cs. tc_char_start c \<le> p \<and> p < tc_char_end c))"
proof -
  have settings: "0 < nat chunk_size" "chunk_loop sha t (nat chunk_size) (nat chunk_overlap) 0 [] = Inr cs" "cs \<noteq> []"
    using assms by (auto simp: chunk_text_def split: if_splits sum.splits list.splits)
  have "(\<forall>k < length cs. chunk_exact sha t k (cs ! k)) \<and> length cs \<le> MAX_CHUNKS \<and>
      (\<forall>p < length t. is_space (t ! p) \<or> covers cs p)"
    by (rule chunk_loop_exact [OF settings(2,1)]) simp_all
  then show ?thesis using settings(3) unfolding chunk_exact_def covers_def MAX_CHUNKS_def by blast
qed

definition short_text :: string where "short_text = ''ab cd''"

lemma short_chunks: "chunk_text id short_text 3 1 = Inr [chunk_of id short_text 0 0 3, chunk_of id short_text 1 2 5]"
  by code_simp

theorem chunks_are_exact_ranges_witness:
  "\<exists>c \<in> set [chunk_of id short_text 0 0 3, chunk_of id short_text 1 2 5]. tc_char_start c \<le> 4 \<and> 4 < tc_char_end c"
proof -
  have "\<not> is_space (short_text ! 4)" "4 < length short_text" by code_simp+
  then show ?thesis using chunks_are_exact_ranges [OF short_chunks] by blast
qed

end
