(* ===== verification/Memory_Extraction.thy ===== *)
theory Memory_Extraction
  imports Source_Text
begin

text \<open>
  Proposed Memories: the extraction of proposals from the chunks of a document (\<open>app/extraction/canonical.py\<close>,
  \<open>app/extraction/service.py\<close>), their review (\<open>app/repositories/memory_proposals.py\<close>), and the promotion of an approved
  proposal to a Memory (\<open>app/repositories/memory_proposal_promotions.py\<close>), with the routes of
  \<open>app/api/routes/memory_proposals.py\<close>.

  An extraction is two transactions with the call of the provider between them; other requests may commit there. The
  provider is a parameter: its identity, and its answer, which the program does not trust.
\<close>

section \<open>The answer of a provider\<close>

text \<open>A score of the answer is \<open>None\<close> if it is not a finite number.\<close>

record extracted_proposal =
  xp_title :: "string option"
  xp_summary :: "string option"
  xp_content :: string
  xp_memory_type :: string
  xp_importance :: "rat option"
  xp_confidence :: "rat option"
  xp_evidence_text :: string
  xp_evidence_start :: int
  xp_evidence_end :: int

record chunk_extraction =
  cx_chunk_index :: int
  cx_proposals :: "extracted_proposal list"

datatype provider_answer = Extracted "chunk_extraction list" | RequestFailed | OtherFailure

record extraction_env =
  ee_sha :: "string \<Rightarrow> string"
  ee_float_text :: "rat \<Rightarrow> string"
  ee_name :: string
  ee_model :: string
  ee_prompt_version :: string

section \<open>Canonical input and validation\<close>

definition MAX_INPUT_BYTES :: nat where "MAX_INPUT_BYTES = 250000"
definition MAX_CONTENT_LENGTH :: nat where "MAX_CONTENT_LENGTH = 50000"

definition uuid_json :: "uuid \<Rightarrow> json" where
  "uuid_json i = JStr (uuid_text i)"

definition chunk_json :: "text_chunk \<Rightarrow> json" where
  "chunk_json c = JObj [(''chunk_index'', JInt (int (tc_chunk_index c))), (''content'', JStr (tc_content c)),
     (''content_hash'', JStr (tc_content_hash c)), (''char_start'', JInt (int (tc_char_start c))),
     (''char_end'', JInt (int (tc_char_end c))), (''locator'', jopt JStr (tc_locator c))]"

definition canonical_input ::
  "extraction_env \<Rightarrow> uuid option \<Rightarrow> nat \<Rightarrow> text_chunk list \<Rightarrow> (string \<times> text_chunk list) option" where
  "canonical_input env project_id maximum chunks =
    (let normalized = map (\<lambda>c. c\<lparr>tc_content := normalize_plain_text (tc_content c)\<rparr>) chunks;
         payload = JObj [(''provider'', JStr (ee_name env)), (''model'', JStr (ee_model env)),
           (''prompt_version'', JStr (ee_prompt_version env)),
           (''project_id'', jopt uuid_json project_id),
           (''max_proposals_per_chunk'', JInt (int maximum)), (''chunks'', JArr (map chunk_json normalized))];
         data = raw_dumps payload in
     if MAX_INPUT_BYTES < utf8_length data then None else Some (ee_sha env data, normalized))"

record validated_proposal =
  vp_chunk :: text_chunk
  vp_proposal_index :: nat
  vp_title :: "string option"
  vp_summary :: "string option"
  vp_content :: string
  vp_memory_type :: string
  vp_importance :: rat
  vp_confidence :: rat
  vp_evidence_text :: string
  vp_evidence_char_start :: nat
  vp_evidence_char_end :: nat
  vp_proposal_hash :: string

text \<open>\<open>_optional\<close>: the outer \<open>None\<close> is the rejection of a value that is too long.\<close>

definition optional_text :: "string option \<Rightarrow> nat option \<Rightarrow> string option option" where
  "optional_text value maximum =
    (case value of
       None \<Rightarrow> Some None
     | Some t \<Rightarrow>
         if py_strip t = [] then Some None
         else if (case maximum of None \<Rightarrow> False | Some n \<Rightarrow> n < length (py_strip t)) then None
         else Some (Some (py_strip t)))"

definition extraction_proposal_hash :: "extraction_env \<Rightarrow> uuid option \<Rightarrow> validated_proposal \<Rightarrow> string" where
  "extraction_proposal_hash env project_id p = ee_sha env (raw_dumps (JObj [
     (''source_chunk_hash'', JStr (tc_content_hash (vp_chunk p))),
     (''project_id'', jopt uuid_json project_id),
     (''proposal_index'', JInt (int (vp_proposal_index p))), (''title'', jopt JStr (vp_title p)),
     (''summary'', jopt JStr (vp_summary p)), (''content'', JStr (vp_content p)),
     (''memory_type'', JStr (vp_memory_type p)), (''importance'', JFloat (ee_float_text env (vp_importance p))),
     (''confidence'', JFloat (ee_float_text env (vp_confidence p))), (''evidence_text'', JStr (vp_evidence_text p)),
     (''evidence_char_start'', JInt (int (vp_evidence_char_start p))),
     (''evidence_char_end'', JInt (int (vp_evidence_char_end p))), (''source_locator'', jopt JStr (tc_locator (vp_chunk p)))]))"

definition validate_proposal ::
  "extraction_env \<Rightarrow> uuid option \<Rightarrow> text_chunk \<Rightarrow> nat \<Rightarrow> extracted_proposal \<Rightarrow> validated_proposal option" where
  "validate_proposal env project_id chunk index p =
    (case optional_text (xp_title p) (Some 255) of
       None \<Rightarrow> None
     | Some title \<Rightarrow>
         (case optional_text (xp_summary p) None of
            None \<Rightarrow> None
          | Some summary \<Rightarrow>
              let content = py_strip (xp_content p); i = xp_evidence_start p; j = xp_evidence_end p in
              if content = [] \<or> MAX_CONTENT_LENGTH < length content then None
              else (case (xp_importance p, xp_confidence p) of
                 (Some importance, Some confidence) \<Rightarrow>
                   if \<not> (unit_score importance \<and> unit_score confidence) then None
                   else if i < 0 \<or> j \<le> i \<or> int (length (tc_content chunk)) < j \<or> blank (xp_evidence_text p) then None
                   else if slice (nat i) (nat j) (tc_content chunk) \<noteq> xp_evidence_text p then None
                   else (let v = \<lparr> vp_chunk = chunk, vp_proposal_index = index, vp_title = title, vp_summary = summary,
                       vp_content = content, vp_memory_type = xp_memory_type p, vp_importance = importance,
                       vp_confidence = confidence, vp_evidence_text = xp_evidence_text p,
                       vp_evidence_char_start = tc_char_start chunk + nat i, vp_evidence_char_end = tc_char_start chunk + nat j,
                       vp_proposal_hash = [] \<rparr> in Some (v\<lparr>vp_proposal_hash := extraction_proposal_hash env project_id v\<rparr>))
               | _ \<Rightarrow> None)))"

fun validate_proposals ::
  "extraction_env \<Rightarrow> uuid option \<Rightarrow> text_chunk \<Rightarrow> nat \<Rightarrow> extracted_proposal list \<Rightarrow> validated_proposal list option" where
  "validate_proposals env project_id chunk index [] = Some []"
| "validate_proposals env project_id chunk index (p # ps) =
    (case validate_proposal env project_id chunk index p of
       None \<Rightarrow> None
     | Some v \<Rightarrow> map_option (Cons v) (validate_proposals env project_id chunk (Suc index) ps))"

fun validate_chunks ::
  "extraction_env \<Rightarrow> uuid option \<Rightarrow> text_chunk list \<Rightarrow> nat \<Rightarrow> chunk_extraction list \<Rightarrow> validated_proposal list option" where
  "validate_chunks env project_id chunks maximum [] = Some []"
| "validate_chunks env project_id chunks maximum (item # items) =
    (case find (\<lambda>c. int (tc_chunk_index c) = cx_chunk_index item) (rev chunks) of
       None \<Rightarrow> None
     | Some chunk \<Rightarrow>
         if maximum < length (cx_proposals item) then None
         else (case validate_proposals env project_id chunk 0 (cx_proposals item) of
                 None \<Rightarrow> None
               | Some vs \<Rightarrow> map_option (append vs) (validate_chunks env project_id chunks maximum items)))"

definition validate_extraction ::
  "extraction_env \<Rightarrow> chunk_extraction list \<Rightarrow> text_chunk list \<Rightarrow> uuid option \<Rightarrow> nat \<Rightarrow> validated_proposal list option" where
  "validate_extraction env items chunks project_id maximum =
    (let indexes = map cx_chunk_index items in
     if \<not> distinct indexes \<or> set indexes \<noteq> (\<lambda>c. int (tc_chunk_index c)) ` set chunks then None
     else validate_chunks env project_id chunks maximum items)"

section \<open>The two transactions of an extraction\<close>

definition upd_extraction :: "uuid \<Rightarrow> (extraction_run \<Rightarrow> extraction_run) \<Rightarrow> knowledge_db \<Rightarrow> knowledge_db" where
  "upd_extraction i f s = s\<lparr>kb_extractions := row_upd xr_id i f (kb_extractions s)\<rparr>"

definition find_identity :: "extraction_env \<Rightarrow> uuid \<Rightarrow> string \<Rightarrow> knowledge_db \<Rightarrow> extraction_run option" where
  "find_identity env document_id input_hash s = find (\<lambda>r. xr_document_id r = document_id \<and> xr_provider r = ee_name env \<and>
     xr_model r = ee_model env \<and> xr_prompt_version r = ee_prompt_version env \<and> xr_input_hash r = input_hash) (kb_extractions s)"

text \<open>
  The outcome of the first transaction: a run that is already complete, or the run that is now pending, the
  generation status to report, the chunk rows and what the provider is sent.
\<close>

datatype extraction_start =
    AlreadyComplete extraction_run nat
  | Started uuid string "source_chunk list" "text_chunk list"

definition selected_chunks :: "knowledge_db \<Rightarrow> uuid \<Rightarrow> nat \<Rightarrow> nat \<Rightarrow> source_chunk list" where
  "selected_chunks s document_id chunk_start chunk_limit =
     take chunk_limit [c \<leftarrow> document_chunks s document_id. chunk_start \<le> tc_chunk_index (ck_text c)]"

definition begin_extraction ::
  "extraction_env option \<Rightarrow> uuid \<Rightarrow> uuid option \<Rightarrow> source_scope \<Rightarrow> nat \<Rightarrow> nat \<Rightarrow> nat \<Rightarrow> instant \<Rightarrow> knowledge_db \<Rightarrow>
   extraction_start reply" where
  "begin_extraction provider source_id project_id source_scope chunk_start chunk_limit maximum clock s =
    (case provider of None \<Rightarrow> (Inl (HttpError 503 ''extraction provider unavailable''), s) | Some env \<Rightarrow>
     if get_source_for_scope s source_id source_scope = None then (Inl (HttpError 404 ''source not found''), s) else
     case find_document_of s source_id of None \<Rightarrow> (Inl (HttpError 404 ''document not found''), s) | Some d \<Rightarrow>
     if (case project_id of None \<Rightarrow> False | Some p \<Rightarrow> find_project s p = None)
     then (Inl (HttpError 404 ''project not found''), s)
     else let rows = selected_chunks s (dc_id d) chunk_start chunk_limit in
     if rows = [] then (Inl (HttpError 422 ''no chunks selected''), s) else
     case canonical_input env project_id maximum (map ck_text rows) of
       None \<Rightarrow> (Inl (HttpError 422 ''extraction input too large''), s)
     | Some (input_hash, chunks) \<Rightarrow>
         (case find_identity env (dc_id d) input_hash s of
            Some r \<Rightarrow>
              if xr_run_status r = ''completed''
              then (Inr (AlreadyComplete r (length [p \<leftarrow> kb_proposals s. pp_run_id p = xr_id r])), s)
              else if xr_run_status r = ''pending'' then (Inl (HttpError 409 ''extraction already in progress''), s)
              else (Inr (Started (xr_id r) ''retried'' rows chunks),
                    upd_extraction (xr_id r) (\<lambda>r. r\<lparr>xr_run_status := ''pending'', xr_error_code := None,
                      xr_started_at := Some clock, xr_completed_at := None\<rparr>) s)
          | None \<Rightarrow>
              (let (i, s1) = fresh_id s;
                   r = \<lparr> xr_id = i, xr_document_id = dc_id d, xr_project_id = project_id, xr_provider = ee_name env,
                         xr_model = ee_model env, xr_prompt_version = ee_prompt_version env, xr_input_hash = input_hash,
                         xr_run_status = ''pending'', xr_error_code = None, xr_started_at = Some clock,
                         xr_completed_at = None \<rparr> in
               if extraction_checks r
               then (Inr (Started i ''created'' rows chunks), s1\<lparr>kb_extractions := kb_extractions s1 @ [r]\<rparr>)
               else (Inl database_unavailable, s))))"

definition fail_run :: "uuid \<Rightarrow> string \<Rightarrow> instant \<Rightarrow> knowledge_db \<Rightarrow> knowledge_db" where
  "fail_run i code clock s =
    (case find_extraction s i of
       None \<Rightarrow> s
     | Some r \<Rightarrow>
         if xr_run_status r = ''pending''
         then upd_extraction i (\<lambda>r. r\<lparr>xr_run_status := ''failed'', xr_error_code := Some code,
                xr_completed_at := Some clock\<rparr>) s
         else s)"

definition proposal_row :: "uuid \<Rightarrow> uuid option \<Rightarrow> uuid option \<Rightarrow> validated_proposal \<Rightarrow> instant \<Rightarrow> uuid \<Rightarrow> memory_proposal" where
  "proposal_row run_id project_id chunk_id v now i = \<lparr> pp_id = i, pp_run_id = run_id, pp_source_chunk_id = chunk_id,
     pp_source_chunk_hash = tc_content_hash (vp_chunk v), pp_project_id = project_id,
     pp_proposal_index = vp_proposal_index v, pp_title = vp_title v, pp_summary = vp_summary v,
     pp_content = vp_content v, pp_memory_type = vp_memory_type v, pp_importance = vp_importance v,
     pp_confidence = vp_confidence v, pp_evidence_text = vp_evidence_text v,
     pp_evidence_char_start = vp_evidence_char_start v, pp_evidence_char_end = vp_evidence_char_end v,
     pp_source_locator = tc_locator (vp_chunk v), pp_proposal_hash = vp_proposal_hash v, pp_review_status = ''pending'',
     pp_review_note = None, pp_reviewed_at = None, pp_memory_id = None, pp_created_at = now, pp_updated_at = now \<rparr>"

definition chunk_id_of :: "source_chunk list \<Rightarrow> nat \<Rightarrow> uuid option" where
  "chunk_id_of rows index = map_option ck_id (find (\<lambda>c. tc_chunk_index (ck_text c) = index) (rev rows))"

fun add_proposals ::
  "uuid \<Rightarrow> uuid option \<Rightarrow> source_chunk list \<Rightarrow> instant \<Rightarrow> validated_proposal list \<Rightarrow> knowledge_db \<Rightarrow> knowledge_db" where
  "add_proposals run_id project_id rows now [] s = s"
| "add_proposals run_id project_id rows now (v # vs) s =
    (let (i, s1) = fresh_id s;
         p = proposal_row run_id project_id (chunk_id_of rows (tc_chunk_index (vp_chunk v))) v now i in
     add_proposals run_id project_id rows now vs (s1\<lparr>kb_proposals := kb_proposals s1 @ [p]\<rparr>))"

definition finish_extraction ::
  "extraction_env \<Rightarrow> uuid \<Rightarrow> uuid option \<Rightarrow> source_chunk list \<Rightarrow> text_chunk list \<Rightarrow> nat \<Rightarrow> provider_answer \<Rightarrow> instant \<Rightarrow>
   instant \<Rightarrow> knowledge_db \<Rightarrow> (extraction_run \<times> nat) reply" where
  "finish_extraction env run_id project_id rows chunks maximum answer clock now s =
    (case answer of
       RequestFailed \<Rightarrow> (Inl (HttpError 502 ''extraction provider failed''), fail_run run_id ''provider_failed'' clock s)
     | OtherFailure \<Rightarrow>
         (Inl (HttpError 502 ''invalid extraction response''), fail_run run_id ''invalid_provider_response'' clock s)
     | Extracted items \<Rightarrow>
         (case validate_extraction env items chunks project_id maximum of
            None \<Rightarrow>
              (Inl (HttpError 502 ''invalid extraction response''), fail_run run_id ''invalid_provider_response'' clock s)
          | Some vs \<Rightarrow>
              (case find_extraction s run_id of
                 None \<Rightarrow> (Inl (HttpError 409 ''extraction already in progress''), s)
               | Some r \<Rightarrow>
                   if xr_run_status r \<noteq> ''pending'' then (Inl (HttpError 409 ''extraction already in progress''), s)
                   else
                     let s1 = s\<lparr>kb_proposals := [p \<leftarrow> kb_proposals s. pp_run_id p \<noteq> run_id]\<rparr>;
                         s2 = add_proposals run_id project_id rows now vs s1;
                         s3 = upd_extraction run_id (\<lambda>r. r\<lparr>xr_run_status := ''completed'', xr_error_code := None,
                                xr_completed_at := Some clock\<rparr>) s2 in
                     if list_all proposal_checks (kb_proposals s3) \<and> proposals_unique (kb_proposals s3)
                     then (Inr (the (find_extraction s3 run_id), length vs), s3)
                     else (Inl database_unavailable, s))))"

text \<open>\<open>generate\<close>: \<open>others\<close> is what other requests commit while the provider works.\<close>

definition generate ::
  "extraction_env option \<Rightarrow> uuid \<Rightarrow> uuid option \<Rightarrow> source_scope \<Rightarrow> nat \<Rightarrow> nat \<Rightarrow> nat \<Rightarrow> instant \<Rightarrow>
   (knowledge_db \<Rightarrow> knowledge_db) \<Rightarrow> (text_chunk list \<Rightarrow> provider_answer) \<Rightarrow> instant \<Rightarrow> instant \<Rightarrow> knowledge_db \<Rightarrow>
   (extraction_run \<times> nat \<times> string) reply" where
  "generate provider source_id project_id source_scope chunk_start chunk_limit maximum clock others answer clock' now s =
    (case begin_extraction provider source_id project_id source_scope chunk_start chunk_limit maximum clock s of
       (Inl e, s1) \<Rightarrow> (Inl e, s1)
     | (Inr (AlreadyComplete r n), s1) \<Rightarrow> (Inr (r, n, ''unchanged''), s1)
     | (Inr (Started run_id status rows chunks), s1) \<Rightarrow>
         (case finish_extraction (the provider) run_id project_id rows chunks maximum (answer chunks) clock' now (others s1) of
            (Inl e, s2) \<Rightarrow> (Inl e, s2)
          | (Inr (r, n), s2) \<Rightarrow> (Inr (r, n, status), s2)))"

section \<open>Review and promotion\<close>

text \<open>
  The join behind every access to a proposal: its run, document and Source, seen by the guard with the column
  \<open>MemoryProposal.project_id\<close>.
\<close>

definition joined_proposal ::
  "knowledge_db \<Rightarrow> memory_proposal \<Rightarrow> (extraction_run \<times> source_document \<times> knowledge_source) option" where
  "joined_proposal s p =
    (case find_extraction s (pp_run_id p) of None \<Rightarrow> None | Some r \<Rightarrow>
     case row_get dc_id (kb_documents s) (xr_document_id r) of None \<Rightarrow> None | Some d \<Rightarrow>
     case row_get so_id (kb_sources s) (dc_source_id d) of None \<Rightarrow> None | Some x \<Rightarrow>
     if source_access s (ColumnScope (pp_project_id p)) (so_id x) then Some (r, d, x) else None)"

definition find_proposal :: "knowledge_db \<Rightarrow> uuid \<Rightarrow> memory_proposal option" where
  "find_proposal s i = row_get pp_id (kb_proposals s) i"

definition visible_proposal ::
  "knowledge_db \<Rightarrow> uuid \<Rightarrow> (memory_proposal \<times> extraction_run \<times> source_document \<times> knowledge_source) option" where
  "visible_proposal s i =
    (case find_proposal s i of None \<Rightarrow> None | Some p \<Rightarrow> map_option (Pair p) (joined_proposal s p))"

definition upd_proposal :: "uuid \<Rightarrow> (memory_proposal \<Rightarrow> memory_proposal) \<Rightarrow> knowledge_db \<Rightarrow> knowledge_db" where
  "upd_proposal i f s = s\<lparr>kb_proposals := row_upd pp_id i f (kb_proposals s)\<rparr>"

record proposal_filters =
  pf_review_status :: string
  pf_run_id :: "uuid option"
  pf_source_id :: "uuid option"
  pf_document_id :: "uuid option"
  pf_project_id :: "uuid option"
  pf_memory_type :: "string option"
  pf_importance_min :: "rat option"
  pf_importance_max :: "rat option"
  pf_confidence_min :: "rat option"
  pf_confidence_max :: "rat option"
  pf_limit :: nat
  pf_offset :: nat

definition matches :: "'a option \<Rightarrow> 'a \<Rightarrow> bool" where
  "matches f v = (case f of None \<Rightarrow> True | Some x \<Rightarrow> v = x)"

definition at_least :: "'a::linorder option \<Rightarrow> 'a \<Rightarrow> bool" where
  "at_least f v = (case f of None \<Rightarrow> True | Some x \<Rightarrow> x \<le> v)"

definition at_most :: "'a::linorder option \<Rightarrow> 'a \<Rightarrow> bool" where
  "at_most f v = (case f of None \<Rightarrow> True | Some x \<Rightarrow> v \<le> x)"

definition list_proposals :: "knowledge_db \<Rightarrow> proposal_filters \<Rightarrow> memory_proposal list" where
  "list_proposals s f = take (pf_limit f) (drop (pf_offset f) (sort_key (\<lambda>p. (pp_created_at p, pp_id p))
     [p \<leftarrow> kb_proposals s. case joined_proposal s p of None \<Rightarrow> False | Some (r, d, x) \<Rightarrow>
        (pf_review_status f \<noteq> ''all'' \<longrightarrow> pp_review_status p = pf_review_status f) \<and>
        matches (pf_run_id f) (pp_run_id p) \<and> matches (pf_source_id f) (dc_source_id d) \<and>
        matches (pf_document_id f) (xr_document_id r) \<and>
        (pf_project_id f = None \<or> pp_project_id p = pf_project_id f) \<and>
        matches (pf_memory_type f) (pp_memory_type p) \<and>
        at_least (pf_importance_min f) (pp_importance p) \<and> at_most (pf_importance_max f) (pp_importance p) \<and>
        at_least (pf_confidence_min f) (pp_confidence p) \<and> at_most (pf_confidence_max f) (pp_confidence p)]))"

text \<open>\<open>review_proposal\<close> of the repository, called by \<open>_review\<close> of the routes.\<close>

definition review_memory_proposal ::
  "uuid \<Rightarrow> string \<Rightarrow> string option \<Rightarrow> instant \<Rightarrow> instant \<Rightarrow> knowledge_db \<Rightarrow> (change \<times> memory_proposal) reply" where
  "review_memory_proposal i decision review_note clock now s =
    (case visible_proposal s i of
       None \<Rightarrow> (Inl (HttpError 404 ''memory proposal not found''), s)
     | Some (p, r, d, x) \<Rightarrow>
         if xr_run_status r \<noteq> ''completed'' then (Inl (HttpError 409 ''extraction run not completed''), s)
         else if pp_review_status p = decision then (Inr (Unchanged, p), s)
         else if pp_review_status p \<noteq> ''pending'' then (Inl (HttpError 409 ''memory proposal already reviewed''), s)
         else (let f = (\<lambda>p. p\<lparr>pp_review_status := decision, pp_review_note := review_note, pp_reviewed_at := Some clock,
                          pp_updated_at := now\<rparr>) in
               (Inr (Updated, f p), upd_proposal i f s)))"

definition promoted_memory :: "memory_proposal \<Rightarrow> knowledge_source \<Rightarrow> uuid \<Rightarrow> instant \<Rightarrow> memory" where
  "promoted_memory p x i now =
    (let ref = (case so_reference x of None \<Rightarrow> [] | Some t \<Rightarrow> py_strip t) in
     \<lparr> me_id = i, me_project_id = pp_project_id p, me_content = pp_content p,
       me_source = Some (if ref = [] then so_name x else ref), me_title = pp_title p, me_summary = pp_summary p,
       me_memory_type = pp_memory_type p, me_importance = pp_importance p, me_confidence = pp_confidence p,
       me_status = ''active'', me_event_time = None, me_expires_at = None, me_supersedes_id = None,
       me_created_at = now, me_updated_at = now \<rparr>)"

definition promoted_location :: "memory_proposal \<Rightarrow> string" where
  "promoted_location p =
    (let locator = (case pp_source_locator p of None \<Rightarrow> [] | Some t \<Rightarrow> py_strip t) in
     if locator = [] then ''chars '' @ str_int (int (pp_evidence_char_start p)) @ ''-'' @ str_int (int (pp_evidence_char_end p))
     else locator)"

definition promote_proposal :: "uuid \<Rightarrow> instant \<Rightarrow> knowledge_db \<Rightarrow> (change \<times> memory) reply" where
  "promote_proposal i now s =
    (case visible_proposal s i of
       None \<Rightarrow> (Inl (HttpError 404 ''memory proposal not found''), s)
     | Some (p, r, d, x) \<Rightarrow>
         (case (case pp_memory_id p of None \<Rightarrow> None | Some m \<Rightarrow> find_memory s m) of
            Some m \<Rightarrow> (Inr (Unchanged, m), s)
          | None \<Rightarrow>
              if pp_review_status p \<noteq> ''approved'' then (Inl (HttpError 409 ''memory proposal not approved''), s)
              else if xr_run_status r \<noteq> ''completed'' then (Inl (HttpError 409 ''extraction run not completed''), s)
              else
                let (j, s1) = fresh_id s;
                    m = promoted_memory p x j now;
                    (l, s2) = create_memory_source_link j (so_id x) (Some (promoted_location p)) now (add_memory m s1);
                    s3 = upd_proposal i (\<lambda>p. p\<lparr>pp_memory_id := Some j, pp_updated_at := now\<rparr>) s2 in
                if memory_checks m then (Inr (Updated, m), s3) else (Inl database_unavailable, s)))"

end
