(* ===== verification/Memory_Chains.thy ===== *)
theory Memory_Chains
  imports Memory_Extraction
begin

text \<open>
  The chains that \<open>supersedes_id\<close> makes of the Memories: what the recursive query computes, what each request does
  to the chains, and the invariant that every history of requests keeps.
\<close>

section \<open>The chains\<close>

definition chain_links :: "memory list \<Rightarrow> (uuid \<times> uuid) set" where
  "chain_links rows = {(me_id m, p) |m p. m \<in> set rows \<and> me_supersedes_id m = Some p}"

definition references_exist :: "memory list \<Rightarrow> bool" where
  "references_exist rows \<longleftrightarrow> (\<forall>m \<in> set rows. \<forall>p. me_supersedes_id m = Some p \<longrightarrow> p \<in> me_id ` set rows)"

definition memory_rows_ok :: "knowledge_db \<Rightarrow> bool" where
  "memory_rows_ok s \<longleftrightarrow> distinct (map me_id (kb_memories s)) \<and> (\<forall>m \<in> set (kb_memories s). me_id m < kb_next_id s) \<and>
     list_all memory_checks (kb_memories s) \<and> references_exist (kb_memories s) \<and> acyclic (chain_links (kb_memories s))"

lemma references_exist_links: "references_exist rows \<longleftrightarrow> Range (chain_links rows) \<subseteq> me_id ` set rows"
  unfolding references_exist_def chain_links_def by blast

lemma parents_of_links:
  "references_exist rows \<Longrightarrow> set (parents_of rows work) = chain_links rows `` set work"
  by (fastforce simp: parents_of_def chain_links_def references_exist_def list_ex_iff)

lemma ancestry_set:
  assumes "references_exist rows" and "set work \<subseteq> set found"
    and "chain_links rows `` (set found - set work) \<subseteq> set found"
  shows "set (ancestry rows found work) = (chain_links rows)\<^sup>* `` set found"
  using assms
proof (induction rows found work rule: ancestry.induct)
  case (1 rows found work)
  let ?new = "remdups [i \<leftarrow> parents_of rows work. i \<notin> set found]" and ?R = "chain_links rows"
  have new: "set ?new = ?R `` set work - set found" using parents_of_links [OF 1(2)] by auto
  have "?R `` set found \<subseteq> ?R `` (set found - set work) \<union> ?R `` set work" by blast
  also have "\<dots> \<subseteq> set found \<union> set ?new" using 1(4) unfolding new by blast
  finally have all: "?R `` set found \<subseteq> set (found @ ?new)" by (simp only: set_append)
  show ?case
  proof (cases "?new = []")
    case True
    then have closed: "?R `` set found \<subseteq> set found" using all by simp
    have "y \<in> set found" if "(x, y) \<in> ?R\<^sup>*" "x \<in> set found" for x y
      using that by (induction rule: rtrancl_induct) (use closed in auto)
    then have "?R\<^sup>* `` set found = set found" by auto
    then show ?thesis using True by (simp add: ancestry.simps Let_def)
  next
    case False
    have "set (ancestry rows (found @ ?new) ?new) = ?R\<^sup>* `` set (found @ ?new)"
      by (rule 1(1) [OF refl False 1(2)]) (use all in auto)
    moreover have "?R\<^sup>* `` set (found @ ?new) = ?R\<^sup>* `` set found"
      using new 1(3) by (auto intro: converse_rtrancl_into_rtrancl)
    ultimately show ?thesis using False by (subst ancestry.simps) (simp add: Let_def)
  qed
qed

lemma predecessor_chain:
  assumes "references_exist (kb_memories s)"
  shows "predecessor_chain_contains s a b \<longleftrightarrow>
    a \<in> me_id ` set (kb_memories s) \<and> (a, b) \<in> (chain_links (kb_memories s))\<^sup>*"
proof -
  let ?anchor = "[me_id m. m \<leftarrow> kb_memories s, me_id m = a]"
  have "set ?anchor = (if a \<in> me_id ` set (kb_memories s) then {a} else {})" by auto
  then show ?thesis using ancestry_set [OF assms, of ?anchor ?anchor]
    by (simp add: predecessor_chain_contains_def Let_def)
qed

lemma locked_memory:
  assumes "distinct (map me_id (kb_memories s))"
  shows "map_of (lock_memories s ids) j = (if j \<in> set ids then find_memory s j else None)"
proof -
  let ?rows = "sort_key me_id [m \<leftarrow> kb_memories s. me_id m \<in> set ids]"
  have *: "map_of (map (\<lambda>m. (me_id m, m)) rows) j = row_get me_id rows j" for rows :: "memory list"
    by (induction rows) (auto simp: row_get_Cons)
  have dist: "distinct (map me_id ?rows)"
    using assms by (simp add: distinct_map inj_on_def)
  show ?thesis
  proof (cases "row_get me_id ?rows j")
    case None
    then have "j \<in> set ids \<Longrightarrow> find_memory s j = None"
      by (auto simp: row_get_None_iff find_memory_def)
    then show ?thesis using None by (simp add: lock_memories_def *)
  next
    case (Some m)
    then have m: "m \<in> set (kb_memories s)" "me_id m = j" "j \<in> set ids" using row_get_Some_iff [OF Some] by auto
    then have "find_memory s j = Some m" using row_get_distinct [OF assms m(1)] by (simp add: find_memory_def)
    then show ?thesis using Some m(3) by (simp add: lock_memories_def *)
  qed
qed

section \<open>Superseding\<close>

lemma classify_updated:
  "classify_supersession older replacement successors cyc = Inr Updated \<longleftrightarrow>
     me_status older = ''active'' \<and> me_status replacement = ''active'' \<and>
     me_project_id older = me_project_id replacement \<and> me_supersedes_id replacement = None \<and> successors = [] \<and> \<not> cyc"
  by (auto simp: classify_supersession_def Let_def split: if_splits)

lemma classify_unchanged:
  "classify_supersession older replacement successors cyc = Inr Unchanged \<longleftrightarrow>
     me_supersedes_id replacement = Some (me_id older) \<and> me_status older = ''superseded'' \<and>
     me_status replacement = ''active'' \<and> map me_id successors \<noteq> [] \<and> (\<forall>x \<in> set successors. me_id x = me_id replacement)"
  by (cases successors) (auto simp: classify_supersession_def Let_def filter_empty_conv split: if_splits)

lemma supersede_decision_OK:
  assumes "distinct (map me_id (kb_memories s))"
  shows "supersede_decision i r s = Inr c \<longleftrightarrow> i \<noteq> r \<and> (\<exists>older replacement.
    find_memory s i = Some older \<and> find_memory s r = Some replacement \<and>
    classify_supersession older replacement (lock_memory_successors s i) (predecessor_chain_contains s i r) = Inr c)"
proof -
  have key: "me_id m = j" if "find_memory s j = Some m" for j m using that by (rule memories.get_key)
  show ?thesis
  proof (cases "i = r")
    case True
    then show ?thesis by (simp add: supersede_decision_def)
  next
    case False
    show ?thesis
    proof (cases "find_memory s i"; cases "find_memory s r")
      fix older replacement assume rows: "find_memory s i = Some older" "find_memory s r = Some replacement"
      show ?thesis
        using False rows key [OF rows(1)] key [OF rows(2)]
        by (cases "classify_supersession older replacement (lock_memory_successors s i) (predecessor_chain_contains s i r)")
          (simp_all add: supersede_decision_def locked_memory [OF assms] Let_def)
    qed (use False in \<open>simp_all add: supersede_decision_def locked_memory [OF assms] Let_def\<close>)
  qed
qed

lemma no_successors:
  "lock_memory_successors s i = [] \<longleftrightarrow> (\<forall>m \<in> set (kb_memories s). me_supersedes_id m \<noteq> Some i)"
  by (auto simp: lock_memory_successors_def filter_empty_conv)

lemma superseded_rows:
  assumes "i \<noteq> r"
  shows "kb_memories (apply_memory_supersession i r now s) = map (\<lambda>m.
    if me_id m = i then m\<lparr>me_status := ''superseded'', me_updated_at := now\<rparr>
    else if me_id m = r then m\<lparr>me_supersedes_id := Some i, me_updated_at := now\<rparr> else m) (kb_memories s)"
  using assms by (auto simp: apply_memory_supersession_def row_upd_def)

lemma chain_links_map:
  assumes "\<And>m. me_id (f m) = me_id m"
  shows "chain_links (map f rows) = {(me_id m, p) |m p. m \<in> set rows \<and> me_supersedes_id (f m) = Some p}"
proof -
  have "p \<in> chain_links (map f rows) \<longleftrightarrow> (\<exists>m \<in> set rows. \<exists>q. p = (me_id (f m), q) \<and> me_supersedes_id (f m) = Some q)" for p
    by (auto simp: chain_links_def)
  then show ?thesis using assms by auto
qed

lemma superseded_links:
  assumes "i \<noteq> r" and "distinct (map me_id (kb_memories s))" and "find_memory s r = Some replacement"
    and "me_supersedes_id replacement = None"
  shows "chain_links (kb_memories (apply_memory_supersession i r now s)) = insert (r, i) (chain_links (kb_memories s))"
proof -
  have r: "replacement \<in> set (kb_memories s)" "me_id replacement = r"
    using assms(3) by (auto simp: find_memory_def dest: row_get_Some_iff)
  have only: "m = replacement" if "m \<in> set (kb_memories s)" "me_id m = r" for m
    using row_get_distinct [OF assms(2) that(1)] that(2) assms(3) by (simp add: find_memory_def)
  let ?f = "\<lambda>m. if me_id m = i then m\<lparr>me_status := ''superseded'', me_updated_at := now\<rparr>
    else if me_id m = r then m\<lparr>me_supersedes_id := Some i, me_updated_at := now\<rparr> else m"
  have kept: "me_supersedes_id (?f m) = (if me_id m = r then Some i else me_supersedes_id m)" for m
    using assms(1) by simp
  have "chain_links (map ?f (kb_memories s)) =
      {(me_id m, p) |m p. m \<in> set (kb_memories s) \<and> (if me_id m = r then Some i else me_supersedes_id m) = Some p}"
    unfolding kept [symmetric] by (rule chain_links_map) simp
  also have "\<dots> = insert (r, i) (chain_links (kb_memories s))"
    using r assms(4) only by (fastforce simp: chain_links_def)
  finally show ?thesis by (simp only: superseded_rows [OF assms(1)])
qed

lemma superseded_ids:
  "map me_id (kb_memories (apply_memory_supersession i r now s)) = map me_id (kb_memories s)"
  by (simp add: apply_memory_supersession_def row_upd_map)

lemma superseded_next_id [simp]: "kb_next_id (apply_memory_supersession i r now s) = kb_next_id s"
  by (simp add: apply_memory_supersession_def upd_memory_def)

lemma ids_of_map: "map f xs = map f ys \<Longrightarrow> f ` set xs = f ` set ys"
  by (metis list.set_map)

section \<open>Histories of requests\<close>

text \<open>
  The requests that reach the rows of Memories and their neighbours, one at a time. A request that fails leaves the
  state as it was.
\<close>

inductive memory_step :: "knowledge_db \<Rightarrow> knowledge_db \<Rightarrow> bool" where
  creates: "validate_memory_create c = Some v \<Longrightarrow> memory_step s (snd (create_memory v now s))"
| supersedes: "memory_step s (snd (supersede_memory i r now s))"
| expires: "memory_step s (snd (expire_memory i clock now s))"
| refines: "memory_step s (snd (refine_memory_quality i confidence importance now s))"
| links: "memory_step s (snd (link_source_to_memory i x location now s))"
| extracts: "memory_step s (snd (begin_extraction provider x p scope a n k clock s))"
| concludes: "memory_step s (snd (finish_extraction env i p rows chunks k answer clock now s))"
| reviews: "memory_step s (snd (review_memory_proposal i decision note_text clock now s))"
| promotes: "memory_step s (snd (promote_proposal i now s))"

text \<open>What may happen to a Memory: its content never changes, a link is set once, and it leaves \<open>active\<close> once.\<close>

definition memory_evolves :: "memory \<Rightarrow> memory \<Rightarrow> bool" where
  "memory_evolves m m' \<longleftrightarrow> me_id m' = me_id m \<and> me_project_id m' = me_project_id m \<and> me_content m' = me_content m \<and>
     me_source m' = me_source m \<and> me_title m' = me_title m \<and> me_summary m' = me_summary m \<and>
     me_memory_type m' = me_memory_type m \<and> me_created_at m' = me_created_at m \<and>
     (me_supersedes_id m \<noteq> None \<longrightarrow> me_supersedes_id m' = me_supersedes_id m) \<and>
     (me_status m' = me_status m \<or> me_status m = ''active'' \<and> me_status m' \<in> {''superseded'', ''expired''})"

definition memories_evolve :: "knowledge_db \<Rightarrow> knowledge_db \<Rightarrow> bool" where
  "memories_evolve s s' \<longleftrightarrow> (\<forall>i m. find_memory s i = Some m \<longrightarrow> (\<exists>m'. find_memory s' i = Some m' \<and> memory_evolves m m'))"

lemma memory_evolves_refl [simp]: "memory_evolves m m"
  by (simp add: memory_evolves_def)

lemma memory_evolves_trans: "memory_evolves a b \<Longrightarrow> memory_evolves b c \<Longrightarrow> memory_evolves a c"
  by (auto simp: memory_evolves_def)

lemma memories_evolve_refl: "memories_evolve s s"
  by (simp add: memories_evolve_def)

lemma memories_evolve_trans: "memories_evolve a b \<Longrightarrow> memories_evolve b c \<Longrightarrow> memories_evolve a c"
  unfolding memories_evolve_def by (metis memory_evolves_trans)

lemma rows_ok_frame:
  assumes "memory_rows_ok s" and "kb_memories s' = kb_memories s" and "kb_next_id s \<le> kb_next_id s'"
  shows "memory_rows_ok s' \<and> memories_evolve s s'"
  using assms by (auto simp: memory_rows_ok_def memories_evolve_def find_memory_def)

lemma rows_ok_same_ids:
  assumes "memory_rows_ok s" and ids: "map me_id (kb_memories s') = map me_id (kb_memories s)"
    and "kb_next_id s' = kb_next_id s" and "acyclic (chain_links (kb_memories s'))"
    and "Range (chain_links (kb_memories s')) \<subseteq> me_id ` set (kb_memories s)" and "list_all memory_checks (kb_memories s')"
  shows "memory_rows_ok s'"
proof -
  have same: "me_id ` set (kb_memories s') = me_id ` set (kb_memories s)" by (rule ids_of_map) (rule ids)
  have "\<forall>i \<in> me_id ` set (kb_memories s). i < kb_next_id s" using assms(1) by (simp add: memory_rows_ok_def)
  then have "\<forall>m \<in> set (kb_memories s'). me_id m < kb_next_id s'" unfolding same [symmetric] assms(3) by simp
  then show ?thesis
    using assms same unfolding memory_rows_ok_def references_exist_links by simp
qed

lemma rows_ok_upd:
  assumes "memory_rows_ok s" and "find_memory s i = Some m" and "memory_evolves m (f m)"
    and "me_supersedes_id (f m) = me_supersedes_id m" and "memory_checks (f m)" and "\<And>x. me_id (f x) = me_id x"
  shows "memory_rows_ok (upd_memory i f s) \<and> memories_evolve s (upd_memory i f s)"
proof -
  have only: "x = m" if "x \<in> set (kb_memories s)" "me_id x = i" for x
  proof -
    have "distinct (map me_id (kb_memories s))" using assms(1) by (simp add: memory_rows_ok_def)
    from row_get_distinct [OF this that(1)] have "find_memory s i = Some x" unfolding find_memory_def that(2) .
    then show ?thesis unfolding assms(2) by (rule option.inject [THEN iffD1, symmetric])
  qed
  have rows: "kb_memories (upd_memory i f s) = map (\<lambda>x. if x = m then f m else x) (kb_memories s)"
    unfolding upd_memory_rows row_upd_def
    by (intro map_cong refl) (metis only memories.get_key [OF assms(2)])
  have kept: "me_supersedes_id (if x = m then f m else x) = me_supersedes_id x" for x using assms(4) by simp
  have "me_id (if x = m then f m else x) = me_id x" for x using assms(6) by simp
  from chain_links_map [where f = "\<lambda>x. if x = m then f m else x", OF this]
  have same_links: "chain_links (kb_memories (upd_memory i f s)) = chain_links (kb_memories s)"
    unfolding rows kept chain_links_def .
  have "memory_rows_ok (upd_memory i f s)"
  proof (rule rows_ok_same_ids [OF assms(1)])
    show "map me_id (kb_memories (upd_memory i f s)) = map me_id (kb_memories s)" using assms(6) by (simp add: row_upd_map)
    show "list_all memory_checks (kb_memories (upd_memory i f s))"
      using assms(1,5) unfolding rows by (auto simp: memory_rows_ok_def list_all_iff)
  qed (use assms(1) in \<open>simp_all only: same_links memory_rows_ok_def references_exist_links\<close>, simp_all add: upd_memory_def)
  then show ?thesis using assms(2,3,6) by (auto simp: memories_evolve_def memories.get_upd)
qed

lemma rows_ok_add:
  assumes "memory_rows_ok s" and "me_id m = kb_next_id s" and "memory_checks m"
    and "\<And>p. me_supersedes_id m = Some p \<Longrightarrow> find_memory s p \<noteq> None"
    and s': "kb_memories s' = kb_memories s @ [m]" "kb_next_id s' = Suc (kb_next_id s)"
  shows "memory_rows_ok s' \<and> memories_evolve s s'"
proof -
  have fresh: "me_id m \<notin> me_id ` set (kb_memories s)" using assms(1,2) by (auto simp: memory_rows_ok_def)
  have link: "p \<in> me_id ` set (kb_memories s)" if "me_supersedes_id m = Some p" for p
    using assms(4) [OF that] by (simp add: find_memory_def row_get_None_iff)
  have links: "chain_links (kb_memories s') = chain_links (kb_memories s) \<union> {(me_id m, p) |p. me_supersedes_id m = Some p}"
    by (auto simp: chain_links_def s')
  have refs: "references_exist (kb_memories s)" using assms(1) by (simp add: memory_rows_ok_def)
  then have unreferenced: "(x, me_id m) \<notin> chain_links (kb_memories s)" for x
    using fresh by (auto simp: chain_links_def references_exist_def)
  have "acyclic (chain_links (kb_memories s'))"
  proof (cases "me_supersedes_id m")
    case None
    then show ?thesis using assms(1) by (simp add: links memory_rows_ok_def)
  next
    case (Some p)
    then have "(p, me_id m) \<notin> (chain_links (kb_memories s))\<^sup>*"
      using link [OF Some] fresh unreferenced by (metis rtranclE)
    then show ?thesis using assms(1) Some by (simp add: links memory_rows_ok_def acyclic_insert)
  qed
  moreover have "references_exist (kb_memories s')" using refs link by (auto simp: references_exist_def s')
  ultimately have "memory_rows_ok s'" using assms(1-3) fresh by (auto simp: memory_rows_ok_def s')
  moreover have "find_memory s' i = Some x" if "find_memory s i = Some x" for i x
    using that by (simp add: find_memory_def s' row_get_append)
  ultimately show ?thesis by (auto simp: memories_evolve_def)
qed

lemma rows_ok_supersede:
  assumes ok: "memory_rows_ok s" and "supersede_decision i r s = Inr Updated"
  shows "memory_rows_ok (apply_memory_supersession i r now s) \<and> memories_evolve s (apply_memory_supersession i r now s)"
proof -
  let ?s = "apply_memory_supersession i r now s"
  have dist: "distinct (map me_id (kb_memories s))" and refs: "references_exist (kb_memories s)"
    using ok by (simp_all add: memory_rows_ok_def)
  obtain older replacement where d: "i \<noteq> r" "find_memory s i = Some older" "find_memory s r = Some replacement"
    "me_status older = ''active''" "me_supersedes_id replacement = None" "\<not> predecessor_chain_contains s i r"
    using assms(2) by (auto simp: supersede_decision_OK [OF dist] classify_updated)
  have i: "i \<in> me_id ` set (kb_memories s)" using d(2) row_get_None_iff [of me_id "kb_memories s" i] by (auto simp: find_memory_def)
  have links: "chain_links (kb_memories ?s) = insert (r, i) (chain_links (kb_memories s))"
    by (rule superseded_links [OF d(1) dist d(3,5)])
  have "(i, r) \<notin> (chain_links (kb_memories s))\<^sup>*" using d(6) predecessor_chain [OF refs] i by blast
  then have "acyclic (chain_links (kb_memories ?s))" using ok by (simp add: links acyclic_insert memory_rows_ok_def)
  moreover have "Range (chain_links (kb_memories ?s)) \<subseteq> me_id ` set (kb_memories s)"
    using i refs unfolding links references_exist_links by auto
  moreover have "list_all memory_checks (kb_memories ?s)"
    using ok by (auto simp: memory_rows_ok_def superseded_rows [OF d(1)] list_all_iff memory_checks_def MEMORY_STATUSES_def)
  ultimately have "memory_rows_ok ?s" by (intro rows_ok_same_ids [OF ok superseded_ids]) simp_all
  moreover have "find_memory ?s j = map_option (\<lambda>m. if j = i then m\<lparr>me_status := ''superseded'', me_updated_at := now\<rparr>
      else if j = r then m\<lparr>me_supersedes_id := Some i, me_updated_at := now\<rparr> else m) (find_memory s j)" for j
    using d(1) by (auto simp: apply_memory_supersession_def memories.get_upd option.map_comp comp_def option.map_ident)
  then have "memories_evolve s ?s" using d(2-5) by (auto simp: memories_evolve_def memory_evolves_def)
  ultimately show ?thesis by blast
qed

section \<open>Every request keeps the chains\<close>

named_theorems memory_frames "what the writes of the other tables leave of the Memories"

lemma fresh_frame [memory_frames]:
  "kb_memories (snd (fresh_id s)) = kb_memories s" "kb_next_id (snd (fresh_id s)) = Suc (kb_next_id s)"
  "fst (fresh_id s) = kb_next_id s"
  by (simp_all add: fresh_id_def)

lemma link_frame [memory_frames]:
  "kb_memories (snd (create_memory_source_link m x l now s)) = kb_memories s"
  "kb_next_id (snd (create_memory_source_link m x l now s)) = Suc (kb_next_id s)"
  by (simp_all add: create_memory_source_link_def fresh_id_def Let_def)

lemma upd_frames [memory_frames]:
  "kb_memories (upd_extraction i f s) = kb_memories s" "kb_next_id (upd_extraction i f s) = kb_next_id s"
  "kb_memories (upd_proposal i g s) = kb_memories s" "kb_next_id (upd_proposal i g s) = kb_next_id s"
  by (simp_all add: upd_extraction_def upd_proposal_def)

lemma add_proposals_frame [memory_frames]:
  "kb_memories (add_proposals r p rows now vs s) = kb_memories s"
  "kb_next_id s \<le> kb_next_id (add_proposals r p rows now vs s)"
proof (induction vs arbitrary: s)
  case (Cons v vs)
  {
    case 1
    then show ?case by (simp add: fresh_id_def Let_def Cons.IH(1))
  next
    case 2
    then show ?case by (simp add: fresh_id_def Let_def) (rule order_trans [OF _ Cons.IH(2)], simp)
  }
qed simp_all

lemma fail_run_frame [memory_frames]:
  "kb_memories (fail_run i code clock s) = kb_memories s" "kb_next_id (fail_run i code clock s) = kb_next_id s"
  by (simp_all add: fail_run_def memory_frames split: option.splits)

lemma link_source_frame:
  "kb_memories (snd (link_source_to_memory i x l now s)) = kb_memories s \<and>
   kb_next_id s \<le> kb_next_id (snd (link_source_to_memory i x l now s))"
  by (simp add: link_source_to_memory_def create_memory_source_link_def fresh_id_def Let_def split: option.splits)

lemma begin_extraction_frame:
  "kb_memories (snd (begin_extraction provider x p scope a n k clock s)) = kb_memories s \<and>
   kb_next_id s \<le> kb_next_id (snd (begin_extraction provider x p scope a n k clock s))"
  by (simp add: begin_extraction_def Let_def fresh_id_def memory_frames split: option.splits prod.splits)

lemma finish_extraction_frame:
  "kb_memories (snd (finish_extraction env i p rows chunks k answer clock now s)) = kb_memories s \<and>
   kb_next_id s \<le> kb_next_id (snd (finish_extraction env i p rows chunks k answer clock now s))"
proof -
  have "kb_next_id s \<le> kb_next_id (add_proposals i p rows now vs (s\<lparr>kb_proposals := ps\<rparr>))" for vs ps
    using add_proposals_frame(2) [of "s\<lparr>kb_proposals := ps\<rparr>" i p rows now vs] by simp
  then show ?thesis
    by (simp add: finish_extraction_def Let_def memory_frames split: option.splits provider_answer.splits)
qed

lemma review_frame:
  "kb_memories (snd (review_memory_proposal i d n clock now s)) = kb_memories s \<and>
   kb_next_id s \<le> kb_next_id (snd (review_memory_proposal i d n clock now s))"
  by (simp add: review_memory_proposal_def Let_def memory_frames split: option.splits prod.splits)

lemma create_memory_ok:
  assumes "memory_rows_ok s"
  shows "memory_rows_ok (snd (create_memory c now s)) \<and> memories_evolve s (snd (create_memory c now s))"
proof (cases "create_memory c now s")
  case (Pair res s')
  show ?thesis
  proof (cases res)
    case (Inl e)
    then have "s' = s" using Pair by (auto simp: create_memory_def insert_memory_def fresh_id_def Let_def split: if_splits)
    then show ?thesis using Pair assms by (simp add: memories_evolve_refl)
  next
    case (Inr m)
    then have m: "m = new_memory c (kb_next_id s) now" "memory_checks m" "kb_memories s' = kb_memories s @ [m]"
      "kb_next_id s' = Suc (kb_next_id s)" "\<And>p. mc_supersedes_id c = Some p \<Longrightarrow> find_memory s p \<noteq> None"
      using Pair by (auto simp: create_memory_def insert_memory_def fresh_id_def Let_def add_memory_def split: if_splits option.splits)
    have "memory_rows_ok s' \<and> memories_evolve s s'"
      by (rule rows_ok_add [OF assms _ m(2) _ m(3,4)]) (use m(1,5) in \<open>simp_all add: new_memory_def\<close>)
    then show ?thesis using Pair by simp
  qed
qed

lemma supersede_memory_ok:
  assumes "memory_rows_ok s"
  shows "memory_rows_ok (snd (supersede_memory i r now s)) \<and> memories_evolve s (snd (supersede_memory i r now s))"
proof (cases "supersede_decision i r s")
  case (Inr c)
  then show ?thesis using rows_ok_supersede [OF assms, of i r now] assms
    by (cases c) (auto simp: supersede_memory_def supersede_write_def Let_def memories_evolve_refl)
qed (use assms in \<open>simp add: supersede_memory_def memories_evolve_refl\<close>)

lemma memory_of_ok: "memory_rows_ok s \<Longrightarrow> find_memory s i = Some m \<Longrightarrow> memory_checks m"
  by (auto simp: memory_rows_ok_def list_all_iff find_memory_def dest: row_get_in)

lemma expire_memory_ok:
  assumes "memory_rows_ok s"
  shows "memory_rows_ok (snd (expire_memory i clock now s)) \<and> memories_evolve s (snd (expire_memory i clock now s))"
proof (cases "find_memory s i")
  case (Some m)
  show ?thesis
  proof (cases "classify_expiration m clock")
    case (Inr d)
    obtain c e where d: "d = (c, e)" by (cases d)
    show ?thesis
    proof (cases c)
      case Updated
      then have "me_status m = ''active''" using Inr d by (auto simp: classify_expiration_def split: if_splits option.splits)
      then have "memory_rows_ok (apply_memory_expiration i e now s) \<and> memories_evolve s (apply_memory_expiration i e now s)"
        unfolding apply_memory_expiration_def using memory_of_ok [OF assms Some]
        by (intro rows_ok_upd [OF assms Some]) (simp_all add: memory_evolves_def memory_checks_def MEMORY_STATUSES_def)
      then show ?thesis using Some Inr d Updated by (simp add: expire_memory_def Let_def)
    next
      case Unchanged
      then show ?thesis using Some Inr d assms by (simp add: expire_memory_def memories_evolve_refl)
    qed
  qed (use Some assms in \<open>simp add: expire_memory_def memories_evolve_refl\<close>)
qed (use assms in \<open>simp add: expire_memory_def memories_evolve_refl\<close>)

lemma refine_memory_ok:
  assumes "memory_rows_ok s"
  shows "memory_rows_ok (snd (refine_memory_quality i conf imp now s)) \<and>
    memories_evolve s (snd (refine_memory_quality i conf imp now s))"
proof (cases "find_memory s i")
  case (Some m)
  let ?f = "\<lambda>m. m\<lparr>me_confidence := (case conf of None \<Rightarrow> me_confidence m | Some v \<Rightarrow> v),
       me_importance := (case imp of None \<Rightarrow> me_importance m | Some v \<Rightarrow> v), me_updated_at := now\<rparr>"
  have found: "find_memory (upd_memory i ?f s) i = Some (?f m)" using Some by (simp add: memories.get_upd_same)
  show ?thesis
  proof (cases "memory_checks (?f m)")
    case True
    then have "memory_rows_ok (upd_memory i ?f s) \<and> memories_evolve s (upd_memory i ?f s)"
      by (intro rows_ok_upd [OF assms Some]) (simp_all add: memory_evolves_def)
    then show ?thesis using Some found assms
      by (simp add: refine_memory_quality_def apply_memory_quality_refinement_def Let_def memories_evolve_refl
          split: sum.splits change.splits)
  next
    case False
    then show ?thesis using Some found assms
      by (simp add: refine_memory_quality_def apply_memory_quality_refinement_def Let_def memories_evolve_refl
          split: sum.splits change.splits)
  qed
qed (use assms in \<open>simp add: refine_memory_quality_def memories_evolve_refl\<close>)

lemma promote_proposal_OK:
  assumes "promote_proposal i now s = (Inr (Updated, m), s')"
  shows "\<exists>p r d x. visible_proposal s i = Some (p, r, d, x) \<and> pp_review_status p = ''approved'' \<and>
    xr_run_status r = ''completed'' \<and> (case pp_memory_id p of None \<Rightarrow> None | Some k \<Rightarrow> find_memory s k) = None \<and>
    m = promoted_memory p x (kb_next_id s) now \<and> memory_checks m \<and> kb_memories s' = kb_memories s @ [m] \<and>
    kb_next_id s' = Suc (Suc (kb_next_id s)) \<and>
    kb_proposals s' = row_upd pp_id i (\<lambda>p. p\<lparr>pp_memory_id := Some (kb_next_id s), pp_updated_at := now\<rparr>) (kb_proposals s)"
  using assms
  by (auto simp: promote_proposal_def fresh_id_def create_memory_source_link_def add_memory_def upd_proposal_def Let_def
      split: option.splits prod.splits if_splits)

lemma promote_unchanged:
  "promote_proposal i now s = (Inl e, s') \<or> promote_proposal i now s = (Inr (Unchanged, m), s') \<Longrightarrow> s' = s"
  by (auto simp: promote_proposal_def Let_def split: option.splits prod.splits if_splits)

lemma promote_ok:
  assumes "memory_rows_ok s"
  shows "memory_rows_ok (snd (promote_proposal i now s)) \<and> memories_evolve s (snd (promote_proposal i now s))"
proof (cases "promote_proposal i now s")
  case (Pair res s')
  show ?thesis
  proof (cases "\<exists>m. res = Inr (Updated, m)")
    case True
    then obtain m p x where m: "m = promoted_memory p x (kb_next_id s) now" "memory_checks m"
      "kb_memories s' = kb_memories s @ [m]" "kb_next_id s' = Suc (Suc (kb_next_id s))"
      using promote_proposal_OK [of i now s _ s'] Pair by blast
    have "memory_rows_ok (s'\<lparr>kb_next_id := Suc (kb_next_id s)\<rparr>) \<and> memories_evolve s (s'\<lparr>kb_next_id := Suc (kb_next_id s)\<rparr>)"
      by (rule rows_ok_add [OF assms _ m(2)]) (use m(1,3) in \<open>simp_all add: promoted_memory_def Let_def\<close>)
    then have "memory_rows_ok s' \<and> memories_evolve s s'"
      using rows_ok_frame [of "s'\<lparr>kb_next_id := Suc (kb_next_id s)\<rparr>" s'] m(4) memories_evolve_trans by auto
    then show ?thesis using Pair by simp
  next
    case False
    then have "s' = s"
      using Pair promote_unchanged [of i now s _ s'] by (cases res) (auto, metis change.exhaust)
    then show ?thesis using Pair assms by (simp add: memories_evolve_refl)
  qed
qed

lemma memory_step_ok:
  assumes "memory_step s s'" and "memory_rows_ok s"
  shows "memory_rows_ok s' \<and> memories_evolve s s'"
  using assms
proof (induction rule: memory_step.induct)
  case (links s i x location now)
  then show ?case using link_source_frame by (intro rows_ok_frame) auto
next
  case (extracts s provider x p scope a n k clock)
  then show ?case using begin_extraction_frame by (intro rows_ok_frame) auto
next
  case (concludes s env i p rows chunks k answer clock now)
  then show ?case using finish_extraction_frame by (intro rows_ok_frame) auto
next
  case (reviews s i decision note_text clock now)
  then show ?case using review_frame by (intro rows_ok_frame) auto
qed (simp_all only: create_memory_ok supersede_memory_ok expire_memory_ok refine_memory_ok promote_ok)

interpretation memory_histories: stepwise memory_step memory_rows_ok memories_evolve
  using memory_step_ok memories_evolve_refl memories_evolve_trans by unfold_locales blast+

end
