(* ===== verification/Memory_Properties.thy ===== *)
theory Memory_Properties
  imports Memory_Chains
begin

text \<open>
  What the requests on Memories guarantee: sound chains over every history, superseding once, and where the guarantee
  ends: two requests at the same time, and links made by \<open>POST /memories\<close>.
\<close>

section \<open>Example rows\<close>

definition example_input :: memory_create where
  "example_input = \<lparr> mc_project_id = None, mc_content = ''text'', mc_source = None, mc_title = None, mc_summary = None,
     mc_memory_type = ''semantic'', mc_importance = 0, mc_confidence = 1, mc_status = ''active'', mc_event_time = None,
     mc_expires_at = None, mc_supersedes_id = None \<rparr>"

text \<open>Four Memories: 3 was created to supersede 1, and 4 to supersede 2.\<close>

definition four_memories :: knowledge_db where
  "four_memories =
    (let request = (\<lambda>c s. snd (create_memory c 5 s)) in
     request (example_input\<lparr>mc_supersedes_id := Some 2\<rparr>) (request (example_input\<lparr>mc_supersedes_id := Some 1\<rparr>)
       (request example_input (request example_input empty_knowledge))))"

definition example_row :: "uuid \<Rightarrow> uuid option \<Rightarrow> memory" where
  "example_row i p = new_memory (example_input\<lparr>mc_supersedes_id := p\<rparr>) i 5"

lemma example_row_simps [simp]:
  "me_id (example_row i p) = i" "me_supersedes_id (example_row i p) = p" "me_status (example_row i p) = ''active''"
  "me_project_id (example_row i p) = None" "memory_checks (example_row i p)"
  by (simp_all add: example_row_def new_memory_def example_input_def memory_checks_def MEMORY_TYPES_def MEMORY_STATUSES_def
      unit_score_def)

lemma four_memories_eq:
  "four_memories = empty_knowledge\<lparr>kb_next_id := 5,
     kb_memories := [example_row 1 None, example_row 2 None, example_row 3 (Some 1), example_row 4 (Some 2)]\<rparr>"
  by code_simp

lemma input_valid: "validate_memory_create (example_input\<lparr>mc_supersedes_id := p\<rparr>) = Some (example_input\<lparr>mc_supersedes_id := p\<rparr>)"
  by (simp add: validate_memory_create_def example_input_def trim_optional_text_def py_strip_def is_space_def Let_def
      MEMORY_TYPES_def MEMORY_STATUSES_def unit_score_def)

lemma example_reached: "memory_step\<^sup>*\<^sup>* empty_knowledge four_memories"
proof -
  have more: "memory_step\<^sup>*\<^sup>* empty_knowledge (snd (create_memory (example_input\<lparr>mc_supersedes_id := p\<rparr>) 5 s))"
    if "memory_step\<^sup>*\<^sup>* empty_knowledge s" for p s
    using that by (rule rtranclp.rtrancl_into_rtrancl) (rule creates, rule input_valid)
  have "example_input\<lparr>mc_supersedes_id := None\<rparr> = example_input" by (simp add: example_input_def)
  then have plain: "memory_step\<^sup>*\<^sup>* empty_knowledge (snd (create_memory example_input 5 s))"
    if "memory_step\<^sup>*\<^sup>* empty_knowledge s" for s
    using more [OF that, of None] by simp
  show ?thesis unfolding four_memories_def Let_def by (intro more plain rtranclp.rtrancl_refl)
qed

lemma empty_rows_ok: "memory_rows_ok empty_knowledge"
  by (simp add: memory_rows_ok_def empty_knowledge_def references_exist_def chain_links_def acyclic_def)

lemma four_rows_ok: "memory_rows_ok four_memories"
  using memory_histories.history [OF example_reached empty_rows_ok] by blast

section \<open>Sound chains\<close>

text \<open>C25: Over every history of requests that come one after another, no Memory supersedes itself through any number of
  links, every superseded Memory exists, and the rows keep their constraints; a Memory keeps its content and Project,
  its link once it is set, and a status other than active for good.\<close>

theorem memory_chains_stay_sound:
  assumes "memory_step\<^sup>*\<^sup>* s s'" and "memory_rows_ok s"
  shows "acyclic {(me_id m, p) |m p. m \<in> set (kb_memories s') \<and> me_supersedes_id m = Some p} \<and>
    (\<forall>m \<in> set (kb_memories s'). memory_checks m \<and>
       (\<forall>p. me_supersedes_id m = Some p \<longrightarrow> find_memory s' p \<noteq> None)) \<and>
    (\<forall>i m. find_memory s i = Some m \<longrightarrow> (\<exists>m'. find_memory s' i = Some m' \<and>
       me_content m' = me_content m \<and> me_project_id m' = me_project_id m \<and>
       (me_supersedes_id m \<noteq> None \<longrightarrow> me_supersedes_id m' = me_supersedes_id m) \<and>
       (me_status m \<noteq> ''active'' \<longrightarrow> me_status m' = me_status m)))"
proof -
  have ok: "memory_rows_ok s'" and evolve: "memories_evolve s s'"
    using memory_histories.history [OF assms] by simp_all
  have "find_memory s' p \<noteq> None" if "m \<in> set (kb_memories s')" "me_supersedes_id m = Some p" for m p
    using ok that by (auto simp: memory_rows_ok_def references_exist_def find_memory_def row_get_None_iff)
  moreover have "\<exists>m'. find_memory s' i = Some m' \<and> me_content m' = me_content m \<and> me_project_id m' = me_project_id m \<and>
       (me_supersedes_id m \<noteq> None \<longrightarrow> me_supersedes_id m' = me_supersedes_id m) \<and>
       (me_status m \<noteq> ''active'' \<longrightarrow> me_status m' = me_status m)" if "find_memory s i = Some m" for i m
    using evolve that unfolding memories_evolve_def memory_evolves_def by blast
  moreover have "acyclic {(me_id m, p) |m p. m \<in> set (kb_memories s') \<and> me_supersedes_id m = Some p}"
    "\<forall>m \<in> set (kb_memories s'). memory_checks m"
    using ok unfolding memory_rows_ok_def chain_links_def list_all_iff by simp_all
  ultimately show ?thesis by blast
qed

theorem memory_chains_stay_sound_witness:
  "acyclic {(me_id m, p) |m p. m \<in> set (kb_memories four_memories) \<and> me_supersedes_id m = Some p}"
  using memory_chains_stay_sound [OF example_reached empty_rows_ok] by blast

section \<open>Superseding\<close>

lemma decided_row:
  assumes "memory_rows_ok s" and "supersede_decision i r s = Inr c"
  obtains older replacement where "i \<noteq> r" "find_memory s i = Some older" "find_memory s r = Some replacement"
    "classify_supersession older replacement (lock_memory_successors s i) (predecessor_chain_contains s i r) = Inr c"
  using assms by (auto simp: supersede_decision_OK memory_rows_ok_def)

lemma decided_updated:
  assumes "memory_rows_ok s" and "supersede_decision i r s = Inr Updated"
  obtains older replacement where "i \<noteq> r" "find_memory s i = Some older" "find_memory s r = Some replacement"
    "me_status older = ''active''" "me_status replacement = ''active''" "me_project_id older = me_project_id replacement"
    "me_supersedes_id replacement = None" "lock_memory_successors s i = []" "\<not> predecessor_chain_contains s i r"
proof -
  obtain older replacement where rows: "i \<noteq> r" "find_memory s i = Some older" "find_memory s r = Some replacement"
    and "classify_supersession older replacement (lock_memory_successors s i) (predecessor_chain_contains s i r) = Inr Updated"
    by (rule decided_row [OF assms])
  from this(4) show ?thesis unfolding classify_updated using that [OF rows] by blast
qed

lemma find_superseded:
  assumes "i \<noteq> r"
  shows "find_memory (apply_memory_supersession i r now s) j =
    (if j = i then map_option (\<lambda>m. m\<lparr>me_status := ''superseded'', me_updated_at := now\<rparr>) (find_memory s j)
     else if j = r then map_option (\<lambda>m. m\<lparr>me_supersedes_id := Some i, me_updated_at := now\<rparr>) (find_memory s j)
     else find_memory s j)"
  using assms by (simp add: apply_memory_supersession_def memories.get_upd)

lemma successors_links: "x \<in> set (lock_memory_successors s i) \<longleftrightarrow> x \<in> set (kb_memories s) \<and> me_supersedes_id x = Some i"
  by (auto simp: lock_memory_successors_def)

lemma supersede_updated_state:
  assumes ok: "memory_rows_ok s" and d: "supersede_decision i r s = Inr Updated"
  shows "\<forall>x \<in> set (lock_memory_successors (apply_memory_supersession i r now s) i). me_id x = r"
    "supersede_decision i r (apply_memory_supersession i r now s) = Inr Unchanged"
proof -
  obtain older replacement where rows: "i \<noteq> r" "find_memory s i = Some older" "find_memory s r = Some replacement"
    "me_status replacement = ''active''" "lock_memory_successors s i = []"
    by (rule decided_updated [OF assms])
  let ?s = "apply_memory_supersession i r now s"
  have ids: "me_id older = i" "me_id replacement = r" using rows(2,3) memories.get_key by blast+
  have dist: "distinct (map me_id (kb_memories ?s))" using ok by (simp add: superseded_ids memory_rows_ok_def)
  show only: "\<forall>x \<in> set (lock_memory_successors ?s i). me_id x = r"
    using rows(5) by (auto simp: successors_links superseded_rows [OF rows(1)] no_successors split: if_splits)
  have found: "find_memory ?s i = Some (older\<lparr>me_status := ''superseded'', me_updated_at := now\<rparr>)"
    "find_memory ?s r = Some (replacement\<lparr>me_supersedes_id := Some i, me_updated_at := now\<rparr>)"
    using rows by (simp_all add: find_superseded)
  then have "replacement\<lparr>me_supersedes_id := Some i, me_updated_at := now\<rparr> \<in> set (lock_memory_successors ?s i)"
    by (auto simp: successors_links find_memory_def dest: row_get_in)
  then have "lock_memory_successors ?s i \<noteq> []" by auto
  then show "supersede_decision i r ?s = Inr Unchanged"
    using found rows(1,4) only ids by (auto simp: supersede_decision_OK [OF dist] classify_unchanged)
qed

text \<open>Superseding succeeds once and then repeats itself: afterwards the older Memory is superseded, the active
  replacement is its one successor and points to it, no other Memory is touched, and the same request again answers
  unchanged and changes nothing.\<close>

theorem superseding_is_idempotent:
  assumes "memory_rows_ok s" and "supersede_memory i r now s = (Inr (c, older, replacement), s')"
  shows "me_status older = ''superseded'' \<and> me_supersedes_id replacement = Some i \<and> me_status replacement = ''active'' \<and>
    (\<forall>x \<in> set (kb_memories s'). me_supersedes_id x = Some i \<longrightarrow> me_id x = r) \<and>
    (\<forall>j. j \<noteq> i \<longrightarrow> j \<noteq> r \<longrightarrow> find_memory s' j = find_memory s j) \<and>
    supersede_memory i r later s' = (Inr (Unchanged, older, replacement), s')"
proof -
  obtain d: "supersede_decision i r s = Inr c" and s': "s' = supersede_write i r c now s"
    and rows: "older = the (find_memory s' i)" "replacement = the (find_memory s' r)"
    using assms(2) by (auto simp: supersede_memory_def Let_def split: sum.splits)
  obtain o1 r1 where before: "i \<noteq> r" "find_memory s i = Some o1" "find_memory s r = Some r1"
    "classify_supersession o1 r1 (lock_memory_successors s i) (predecessor_chain_contains s i r) = Inr c"
    by (rule decided_row [OF assms(1) d])
  have ids: "me_id o1 = i" "me_id r1 = r" using before(2,3) memories.get_key by blast+
  show ?thesis
  proof (cases c)
    case Updated
    then show ?thesis
      using supersede_updated_state [OF assms(1) d [unfolded Updated], of now] before s' rows
      by (auto simp: supersede_write_def find_superseded classify_updated supersede_memory_def successors_links Let_def)
  next
    case Unchanged
    then show ?thesis using before s' rows d ids
      by (auto simp: supersede_write_def classify_unchanged supersede_memory_def successors_links Let_def)
  qed
qed

lemma four_decisions:
  "supersede_decision 3 2 four_memories = Inr Updated" "supersede_decision 4 1 four_memories = Inr Updated"
  by (simp_all add: four_memories_eq) (code_simp+)

theorem superseding_is_idempotent_witness:
  "me_status (fst (snd (projr (fst (supersede_memory 3 2 9 four_memories))))) = ''superseded''"
proof -
  obtain older replacement s' where "supersede_memory 3 2 9 four_memories = (Inr (Updated, older, replacement), s')"
    using four_decisions(1) by (simp add: supersede_memory_def Let_def)
  then show ?thesis using superseding_is_idempotent [OF four_rows_ok, of 3 2 9 Updated older replacement s'] by simp
qed

section \<open>Two requests at the same time\<close>

text \<open>C26: Two supersede requests that lock different rows can each be granted on the same state and together close a
  cycle: if the chain of the first older Memory leads to the second replacement and the chain of the second older one to
  the first replacement, then after both have committed a Memory supersedes itself through the chain, although the
  second request is refused for that very reason if it decides after the first has committed.\<close>

theorem concurrent_supersessions_close_cycle:
  assumes ok: "memory_rows_ok s"
    and first: "supersede_decision a b s = Inr Updated" and second: "supersede_decision c d s = Inr Updated"
    and disjoint: "supersede_locks a b s \<inter> supersede_locks c d s = {}"
    and chains: "predecessor_chain_contains s a d" "predecessor_chain_contains s c b"
  shows "(b, b) \<in> {(me_id m, p) |m p. m \<in> set (kb_memories (supersede_write c d Updated t2 (supersede_write a b Updated t1 s))) \<and>
      me_supersedes_id m = Some p}\<^sup>+ \<and>
    supersede_decision c d (supersede_write a b Updated t1 s) =
      Inl (HttpError 409 ''memory supersession would create a cycle'')"
proof -
  let ?s1 = "apply_memory_supersession a b t1 s" and ?L = "chain_links (kb_memories s)"
  obtain o1 r1 where r1: "a \<noteq> b" "find_memory s a = Some o1" "find_memory s b = Some r1"
    "me_supersedes_id r1 = None" by (rule decided_updated [OF ok first])
  obtain o2 r2 where r2: "c \<noteq> d" "find_memory s c = Some o2" "find_memory s d = Some r2" "me_status o2 = ''active''"
    "me_status r2 = ''active''" "me_project_id o2 = me_project_id r2" "me_supersedes_id r2 = None"
    "lock_memory_successors s c = []" by (rule decided_updated [OF ok second])
  have apart: "{a, b} \<inter> {c, d} = {}" using disjoint unfolding supersede_locks_def by blast
  have dist: "distinct (map me_id (kb_memories s))" and refs: "references_exist (kb_memories s)"
    using ok by (simp_all add: memory_rows_ok_def)
  have ok1: "memory_rows_ok ?s1" using rows_ok_supersede [OF ok first] by blast
  have paths: "(a, d) \<in> ?L\<^sup>*" "(c, b) \<in> ?L\<^sup>*" using chains by (auto simp: predecessor_chain [OF refs])
  have links1: "chain_links (kb_memories ?s1) = insert (b, a) ?L" by (rule superseded_links [OF r1(1) dist r1(3,4)])
  have same: "find_memory ?s1 c = Some o2" "find_memory ?s1 d = Some r2"
    using apart r2(2,3) by (auto simp: find_superseded [OF r1(1)])
  have dist1: "distinct (map me_id (kb_memories ?s1))" and refs1: "references_exist (kb_memories ?s1)"
    using ok1 by (simp_all add: memory_rows_ok_def)
  have links2: "chain_links (kb_memories (apply_memory_supersession c d t2 ?s1)) = insert (d, c) (insert (b, a) ?L)"
    using superseded_links [OF r2(1) dist1 same(2) r2(7)] links1 by simp
  let ?R = "insert (d, c) (insert (b, a) ?L)"
  have "(b, a) \<in> ?R" "(a, d) \<in> ?R\<^sup>*" "(d, c) \<in> ?R" "(c, b) \<in> ?R\<^sup>*"
    using paths rtrancl_mono [of ?L ?R] by auto
  then have "(b, d) \<in> ?R\<^sup>+" by (intro rtrancl_into_trancl2)
  then have "(b, c) \<in> ?R\<^sup>+" using \<open>(d, c) \<in> ?R\<close> by (rule trancl_into_trancl)
  then have cycle: "(b, b) \<in> ?R\<^sup>+" using \<open>(c, b) \<in> ?R\<^sup>*\<close> by (rule trancl_rtrancl_trancl)
  have "c \<in> me_id ` set (kb_memories s)" using r2(2) row_get_None_iff [of me_id "kb_memories s" c] by (auto simp: find_memory_def)
  then have c: "c \<in> me_id ` set (kb_memories ?s1)" using ids_of_map [OF superseded_ids] by metis
  have "(c, d) \<in> (insert (b, a) ?L)\<^sup>*"
    using paths rtrancl_mono [of ?L "insert (b, a) ?L"] by (meson insertI1 rtrancl.rtrancl_into_rtrancl rtrancl_trans subsetD subset_insertI)
  then have closes: "predecessor_chain_contains ?s1 c d" using predecessor_chain [OF refs1] links1 c by simp
  have successors: "lock_memory_successors ?s1 c = []"
  proof -
    have "a \<noteq> c" using apart by blast
    then show ?thesis using r2(8) by (auto simp: no_successors superseded_rows [OF r1(1)])
  qed
  have "me_id o2 = c" "me_id r2 = d" using r2(2,3) memories.get_key by blast+
  then have "supersede_decision c d ?s1 = Inl (HttpError 409 ''memory supersession would create a cycle'')"
    using same r2 closes successors
    by (simp add: supersede_decision_def locked_memory [OF dist1] classify_supersession_def)
  then show ?thesis using cycle links2 by (simp add: supersede_write_def chain_links_def)
qed

theorem concurrent_supersessions_close_cycle_witness:
  "(2, 2) \<in> {(me_id m, p) |m p. m \<in> set (kb_memories (supersede_write 4 1 Updated 9 (supersede_write 3 2 Updated 9 four_memories))) \<and>
     me_supersedes_id m = Some p}\<^sup>+"
proof -
  have "predecessor_chain_contains four_memories 3 1" "predecessor_chain_contains four_memories 4 2"
    unfolding four_memories_eq by code_simp+
  moreover have "supersede_locks 3 2 four_memories \<inter> supersede_locks 4 1 four_memories = {}"
    by (simp add: supersede_locks_def lock_memory_successors_def four_memories_eq)
  ultimately show ?thesis
    using concurrent_supersessions_close_cycle [OF four_rows_ok four_decisions, where ?t1.0 = 9 and ?t2.0 = 9] by blast
qed

section \<open>Links made when a Memory is created\<close>

lemma append_found:
  "kb_memories s' = kb_memories s @ ms \<Longrightarrow> find_memory s i = Some m \<Longrightarrow> find_memory s' i = Some m"
  by (simp add: find_memory_def row_get_append)

lemma create_memory_rows: "\<exists>ms. kb_memories (snd (create_memory c now s)) = kb_memories s @ ms"
  by (auto simp: create_memory_def insert_memory_def fresh_id_def add_memory_def Let_def)

lemma promote_rows: "\<exists>ms. kb_memories (snd (promote_proposal i now s)) = kb_memories s @ ms"
proof (cases "promote_proposal i now s")
  case (Pair res s')
  then show ?thesis
    using promote_proposal_OK [of i now s _ s'] promote_unchanged [of i now s _ s']
    by (cases "\<exists>m. res = Inr (Updated, m)") (force, cases res, auto, metis append_Nil2 change.exhaust)
qed

lemma superseded_by_request:
  assumes "memory_step s s'" and "memory_rows_ok s" and m: "find_memory s i = Some m" and m': "find_memory s' i = Some m'"
    and "me_status m' = ''superseded''"
  shows "me_status m = ''superseded'' \<or> (\<exists>r. supersede_decision i r s = Inr Updated)"
  using assms
proof (induction rule: memory_step.induct)
  case (creates c v s now)
  then show ?case using create_memory_rows [of v now s] append_found [OF _ creates.prems(2)] by fastforce
next
  case (supersedes s j r now)
  show ?case
  proof (cases "supersede_decision j r s = Inr Updated")
    case True
    obtain o1 r1 where "j \<noteq> r" by (rule decided_updated [OF supersedes.prems(1) True])
    then show ?thesis using True supersedes.prems
      by (cases "i = j") (auto simp: supersede_memory_def supersede_write_def Let_def find_superseded split: if_splits)
  next
    case False
    then have "snd (supersede_memory j r now s) = s"
      by (auto simp: supersede_memory_def supersede_write_def Let_def split: sum.splits change.splits)
    then show ?thesis using supersedes.prems by simp
  qed
next
  case (expires s j clock now)
  then show ?case
    by (auto simp: expire_memory_def apply_memory_expiration_def Let_def memories.get_upd
        split: option.splits sum.splits change.splits if_splits)
next
  case (refines s j conf imp now)
  then show ?case
    by (auto simp: refine_memory_quality_def apply_memory_quality_refinement_def Let_def memories.get_upd
        split: option.splits sum.splits change.splits if_splits)
next
  case (links s j x location now)
  then show ?case using link_source_frame [of j x location now s] by (simp add: find_memory_def)
next
  case (extracts s provider x p scope a n k clock)
  then show ?case using begin_extraction_frame [of provider x p scope a n k clock s] by (simp add: find_memory_def)
next
  case (concludes s env j p rows chunks k answer clock now)
  then show ?case using finish_extraction_frame [of env j p rows chunks k answer clock now s] by (simp add: find_memory_def)
next
  case (reviews s j decision note_text clock now)
  then show ?case using review_frame [of j decision note_text clock now s] by (simp add: find_memory_def)
next
  case (promotes s j now)
  then show ?case using promote_rows [of j now s] append_found [OF _ promotes.prems(2)] by fastforce
qed

definition unapplied_link :: "uuid \<Rightarrow> uuid \<Rightarrow> knowledge_db \<Rightarrow> bool" where
  "unapplied_link j i s \<longleftrightarrow> (\<exists>x. find_memory s j = Some x \<and> me_supersedes_id x = Some i) \<and>
     (\<exists>m. find_memory s i = Some m \<and> me_status m \<noteq> ''superseded'')"

lemma unapplied_not_updated:
  assumes "unapplied_link j i s"
  shows "lock_memory_successors s i \<noteq> []"
  using assms by (auto simp: unapplied_link_def no_successors find_memory_def dest: row_get_in)

lemma unapplied_step:
  assumes "memory_step s s'" and ok: "memory_rows_ok s" and link: "unapplied_link j i s"
  shows "unapplied_link j i s'"
proof -
  have evolve: "memories_evolve s s'" using memory_histories.step_evolves [OF assms(1) ok] .
  obtain x m where x: "find_memory s j = Some x" "me_supersedes_id x = Some i"
    and m: "find_memory s i = Some m" "me_status m \<noteq> ''superseded''"
    using link by (auto simp: unapplied_link_def)
  obtain x' where "find_memory s' j = Some x'" "me_supersedes_id x' = Some i"
    using evolve x unfolding memories_evolve_def memory_evolves_def by (metis option.discI)
  moreover obtain m' where m': "find_memory s' i = Some m'" using evolve m(1) unfolding memories_evolve_def by blast
  moreover have "me_status m' \<noteq> ''superseded''"
  proof
    assume "me_status m' = ''superseded''"
    then obtain r where d: "supersede_decision i r s = Inr Updated"
      using superseded_by_request [OF assms(1) ok m(1) m'] m(2) by blast
    have "lock_memory_successors s i = []" by (rule decided_updated [OF ok d])
    then show False using unapplied_not_updated [OF link] by simp
  qed
  ultimately show ?thesis by (auto simp: unapplied_link_def)
qed

text \<open>C27: A link that was made when a Memory was created is never applied: if a Memory names an older one that is not
  superseded, as \<open>POST /memories\<close> allows, then whatever requests follow, the older one never becomes superseded, and
  every request to supersede it, by that Memory or by any other, is refused.\<close>

theorem created_link_never_applied:
  assumes "memory_step\<^sup>*\<^sup>* s s'" and "memory_rows_ok s"
    and "find_memory s j = Some x" and "me_supersedes_id x = Some i"
    and "find_memory s i = Some m" and "me_status m \<noteq> ''superseded''"
  shows "(\<exists>m'. find_memory s' i = Some m' \<and> me_status m' \<noteq> ''superseded'') \<and>
    (\<forall>r now. \<exists>e. supersede_memory i r now s' = (Inl e, s'))"
proof -
  have "memory_rows_ok s' \<and> unapplied_link j i s'"
    using assms(1)
  proof (induction rule: rtranclp_induct)
    case base
    then show ?case using assms(2-) by (auto simp: unapplied_link_def)
  next
    case (step t u)
    then show ?case using memory_histories.step_inv [OF step.hyps(2)] unapplied_step [OF step.hyps(2)] by blast
  qed
  then have ok: "memory_rows_ok s'" and link: "unapplied_link j i s'" by simp_all
  have "\<exists>e. supersede_decision i r s' = Inl e" for r
  proof (cases "supersede_decision i r s'")
    case (Inr c)
    obtain o1 r1 where rows: "find_memory s' i = Some o1"
      "classify_supersession o1 r1 (lock_memory_successors s' i) (predecessor_chain_contains s' i r) = Inr c"
      by (rule decided_row [OF ok Inr]) 
    then show ?thesis using link unapplied_not_updated [OF link]
      by (cases c) (auto simp: classify_updated classify_unchanged unapplied_link_def)
  qed simp
  then have "\<exists>e. supersede_memory i r now s' = (Inl e, s')" for r now
    unfolding supersede_memory_def by (metis sum.simps(5))
  then show ?thesis using link by (auto simp: unapplied_link_def)
qed

theorem created_link_never_applied_witness:
  "\<exists>e. supersede_memory 1 3 9 four_memories = (Inl e, four_memories)"
proof -
  have "find_memory four_memories 3 = Some (example_row 3 (Some 1))" "find_memory four_memories 1 = Some (example_row 1 None)"
    by (simp_all add: four_memories_eq find_memory_def row_get_Cons)
  then show ?thesis using created_link_never_applied [OF rtranclp.rtrancl_refl four_rows_ok, of 3 _ 1] by simp
qed

end
