(* ===== verification/Extraction_Properties.thy ===== *)
theory Extraction_Properties
  imports Memory_Properties
begin

text \<open>
  What holds of proposed Memories from the text of the document to the promoted Memory: the evidence of a proposal is
  an exact range of the text, review decides once, promotion makes one Memory, and where a proposal can neither be
  seen nor promoted.
\<close>

section \<open>Evidence\<close>

lemma replace_crlf_id: "CR \<notin> set t \<Longrightarrow> replace_crlf t = t"
  by (induction t rule: replace_crlf.induct) auto

lemma normalized_id: "CR \<notin> set t \<Longrightarrow> normalize_plain_text t = t"
  unfolding normalize_plain_text_def replace_crlf_id by (induction t) auto

lemma CR_not_LF: "CR \<noteq> LF"
  by (simp add: CR_def LF_def)

lemma normalized_has_no_CR: "CR \<notin> set (normalize_plain_text t)"
  using CR_not_LF by (auto simp: normalize_plain_text_def split: if_splits)

lemma slice_set: "set (slice i j t) \<subseteq> set t"
  unfolding slice_def by (meson in_set_dropD in_set_takeD subsetI)

lemma slice_slice: "b \<le> j - i \<Longrightarrow> slice a b (slice i j t) = slice (i + a) (i + b) t"
  by (simp add: slice_def drop_take min_def add.commute)

lemma slice_length: "i \<le> j \<Longrightarrow> j \<le> length t \<Longrightarrow> length (slice i j t) = j - i"
  by (simp add: slice_def)

lemma validate_proposal_sound:
  assumes "validate_proposal env p c k x = Some v"
  shows "vp_chunk v = c \<and> vp_proposal_index v = k \<and> unit_score (vp_importance v) \<and> unit_score (vp_confidence v) \<and>
    vp_content v \<noteq> [] \<and> length (vp_content v) \<le> MAX_CONTENT_LENGTH \<and> \<not> blank (vp_evidence_text v) \<and>
    (\<exists>i j. i < j \<and> j \<le> length (tc_content c) \<and> slice i j (tc_content c) = vp_evidence_text v \<and>
       vp_evidence_char_start v = tc_char_start c + i \<and> vp_evidence_char_end v = tc_char_start c + j)"
proof -
  let ?i = "nat (xp_evidence_start x)" and ?j = "nat (xp_evidence_end x)"
  have "vp_chunk v = c \<and> vp_proposal_index v = k \<and> unit_score (vp_importance v) \<and> unit_score (vp_confidence v) \<and>
      vp_content v \<noteq> [] \<and> length (vp_content v) \<le> MAX_CONTENT_LENGTH \<and> \<not> blank (vp_evidence_text v) \<and>
      slice ?i ?j (tc_content c) = vp_evidence_text v \<and> vp_evidence_char_start v = tc_char_start c + ?i \<and>
      vp_evidence_char_end v = tc_char_start c + ?j"
    and "0 \<le> xp_evidence_start x" "xp_evidence_start x < xp_evidence_end x" "xp_evidence_end x \<le> int (length (tc_content c))"
    using assms by (auto simp: validate_proposal_def Let_def split: option.splits if_splits)
  moreover from this have "?i < ?j" "?j \<le> length (tc_content c)" by linarith+
  ultimately show ?thesis by blast
qed

lemma validate_proposals_all:
  "validate_proposals env p c k xs = Some vs \<Longrightarrow> v \<in> set vs \<Longrightarrow> \<exists>i x. validate_proposal env p c i x = Some v"
  by (induction xs arbitrary: k vs) (auto split: option.splits, blast)

lemma validate_chunks_all:
  "validate_chunks env p chunks n items = Some vs \<Longrightarrow> v \<in> set vs \<Longrightarrow>
     \<exists>c i x. c \<in> set chunks \<and> validate_proposal env p c i x = Some v"
proof (induction items arbitrary: vs)
  case (Cons item items)
  then show ?case
    by (auto split: option.splits if_splits dest!: validate_proposals_all)
       (metis find_Some_iff nth_mem set_rev length_rev)
qed simp

text \<open>C29: What a proposal quotes is what the document says: a proposal that passes the validation of the answer of a
  provider quotes, as its evidence, exactly the characters of the document between the two positions stored with it,
  whatever chunks were selected and whatever the provider answered.\<close>

theorem evidence_is_document_text:
  assumes "chunk_text sha (normalize_plain_text text) chunk_size overlap = Inr cs" and "set selected \<subseteq> set cs"
    and "canonical_input env project_id maximum selected = Some (h, chunks)"
    and "validate_extraction env items chunks project_id maximum = Some vs" and "v \<in> set vs"
  shows "vp_evidence_char_start v < vp_evidence_char_end v \<and>
    vp_evidence_char_end v \<le> length (normalize_plain_text text) \<and>
    slice (vp_evidence_char_start v) (vp_evidence_char_end v) (normalize_plain_text text) = vp_evidence_text v"
proof -
  let ?t = "normalize_plain_text text"
  have exact: "\<exists>k. chunk_exact sha ?t k c" if "c \<in> set cs" for c
  proof -
    have "chunk_loop sha ?t (nat chunk_size) (nat overlap) 0 [] = Inr cs" "0 < nat chunk_size"
      using assms(1) by (auto simp: chunk_text_def split: if_splits sum.splits list.splits)
    then have "\<forall>k < length cs. chunk_exact sha ?t k (cs ! k)"
      using chunk_loop_exact [of sha ?t "nat chunk_size" "nat overlap" 0 "[]" cs] by simp
    then show ?thesis using that by (auto simp: in_set_conv_nth)
  qed
  have "chunks = map (\<lambda>c. c\<lparr>tc_content := normalize_plain_text (tc_content c)\<rparr>) selected"
    using assms(3) by (auto simp: canonical_input_def Let_def split: if_splits)
  moreover have "normalize_plain_text (tc_content c) = tc_content c" if "c \<in> set selected" for c
  proof -
    have "CR \<notin> set (tc_content c)"
      using exact [of c] that assms(2) slice_set normalized_has_no_CR unfolding chunk_exact_def by (metis subset_iff)
    then show ?thesis by (rule normalized_id)
  qed
  ultimately have chunks: "chunks = selected" by (simp add: map_idI)
  have "validate_chunks env project_id chunks maximum items = Some vs"
    using assms(4) by (simp add: validate_extraction_def Let_def split: if_splits)
  then obtain c i x where c: "c \<in> set cs" "validate_proposal env project_id c i x = Some v"
    using validate_chunks_all [OF _ assms(5)] chunks assms(2) by blast
  obtain k where "chunk_exact sha ?t k c" using exact [OF c(1)] by blast
  then have e: "tc_char_start c < tc_char_end c" "tc_char_end c \<le> length ?t"
    "tc_content c = slice (tc_char_start c) (tc_char_end c) ?t" by (simp_all add: chunk_exact_def)
  obtain a b where ab: "a < b" "b \<le> length (tc_content c)" "slice a b (tc_content c) = vp_evidence_text v"
    "vp_evidence_char_start v = tc_char_start c + a" "vp_evidence_char_end v = tc_char_start c + b"
    using validate_proposal_sound [OF c(2)] by blast
  have b: "b \<le> tc_char_end c - tc_char_start c" using ab(2) e by (simp add: slice_length)
  then have "slice (tc_char_start c + a) (tc_char_start c + b) ?t = vp_evidence_text v"
    using ab(3) slice_slice [OF b, of a ?t] e(3) by simp
  then show ?thesis using ab(1,4,5) b e by simp
qed

definition example_extractor :: extraction_env where
  "example_extractor = \<lparr> ee_sha = (\<lambda>t. replicate 64 (CHR ''a'')), ee_float_text = (\<lambda>x. ''1.0''), ee_name = ''p'',
     ee_model = ''m'', ee_prompt_version = ''1'' \<rparr>"

definition example_answer :: "chunk_extraction list" where
  "example_answer = [\<lparr> cx_chunk_index = 1, cx_proposals = [\<lparr> xp_title = None, xp_summary = None, xp_content = '' cd '',
     xp_memory_type = ''semantic'', xp_importance = Some 1, xp_confidence = Some 1, xp_evidence_text = ''cd'',
     xp_evidence_start = 1, xp_evidence_end = 3 \<rparr>] \<rparr>]"

lemma example_extraction1: "normalize_plain_text short_text = short_text" by code_simp
lemma example_extraction2:
  "map_option snd (canonical_input example_extractor None 3 [chunk_of id short_text 1 2 5]) = Some [chunk_of id short_text 1 2 5]" by code_simp
lemma example_extraction3:
  "map_option (map vp_evidence_char_start) (validate_extraction example_extractor example_answer [chunk_of id short_text 1 2 5] None 3)
     = Some [3]"
  by code_simp

theorem evidence_is_document_text_witness:
  "\<exists>v :: validated_proposal. vp_evidence_char_start v = 3 \<and>
     slice 3 (vp_evidence_char_end v) (normalize_plain_text short_text) = vp_evidence_text v"
proof -
  obtain h where h: "canonical_input example_extractor None 3 [chunk_of id short_text 1 2 5] = Some (h, [chunk_of id short_text 1 2 5])"
    using example_extraction2 by auto
  obtain v where v: "validate_extraction example_extractor example_answer [chunk_of id short_text 1 2 5] None 3 = Some [v]"
    "vp_evidence_char_start v = 3" using example_extraction3 by auto
  have cs: "chunk_text id (normalize_plain_text short_text) 3 1 =
      Inr [chunk_of id short_text 0 0 3, chunk_of id short_text 1 2 5]"
    using short_chunks example_extraction1 by simp
  have "v \<in> set [v]" "set [chunk_of id short_text 1 2 5] \<subseteq> set [chunk_of id short_text 0 0 3, chunk_of id short_text 1 2 5]"
    by simp_all
  from evidence_is_document_text [OF cs this(2) h v(1) this(1)] show ?thesis
    using v(2) by (intro exI [of _ v]) simp
qed

section \<open>Proposals over histories\<close>

text \<open>What a request leaves of a proposal of a completed run: run, document and Source, a decision once it is made.\<close>

definition proposal_kept :: "knowledge_db \<Rightarrow> uuid \<Rightarrow> memory_proposal \<Rightarrow> source_document \<Rightarrow> knowledge_source \<Rightarrow> bool" where
  "proposal_kept s i p d x \<longleftrightarrow> (\<exists>p' r. visible_proposal s i = Some (p', r, d, x) \<and> xr_run_status r = ''completed'' \<and>
     pp_project_id p' = pp_project_id p \<and> pp_content p' = pp_content p \<and>
     (pp_review_status p \<noteq> ''pending'' \<longrightarrow> pp_review_status p' = pp_review_status p) \<and>
     (pp_memory_id p \<noteq> None \<longrightarrow> pp_memory_id p' = pp_memory_id p))"

definition same_sources :: "knowledge_db \<Rightarrow> knowledge_db \<Rightarrow> bool" where
  "same_sources s s' \<longleftrightarrow> kb_documents s' = kb_documents s \<and> kb_sources s' = kb_sources s \<and> kb_captures s' = kb_captures s"

lemma visible_iff:
  "visible_proposal s i = Some (p, r, d, x) \<longleftrightarrow> find_proposal s i = Some p \<and> find_extraction s (pp_run_id p) = Some r \<and>
     row_get dc_id (kb_documents s) (xr_document_id r) = Some d \<and> row_get so_id (kb_sources s) (dc_source_id d) = Some x \<and>
     source_access s (ColumnScope (pp_project_id p)) (so_id x)"
  by (auto simp: visible_proposal_def joined_proposal_def split: option.splits)

lemma visible_again:
  assumes "visible_proposal s i = Some (p, r, d, x)" and "same_sources s s'"
    and "find_proposal s' i = Some p'" and "pp_run_id p' = pp_run_id p" and "pp_project_id p' = pp_project_id p"
    and "find_extraction s' (pp_run_id p) = Some r'" and "xr_document_id r' = xr_document_id r"
  shows "visible_proposal s' i = Some (p', r', d, x)"
  using assms unfolding visible_iff same_sources_def source_access_def source_bindings_def by simp

lemma find_proposal_frame: "kb_proposals s' = kb_proposals s \<Longrightarrow> find_proposal s' i = find_proposal s i"
  by (simp add: find_proposal_def)

lemma find_extraction_frame: "kb_extractions s' = kb_extractions s \<Longrightarrow> find_extraction s' i = find_extraction s i"
  by (simp add: find_extraction_def)

lemma kept_frame:
  assumes "visible_proposal s i = Some (p, r, d, x)" and "xr_run_status r = ''completed''" and "same_sources s s'"
    and "kb_proposals s' = kb_proposals s" and "kb_extractions s' = kb_extractions s"
  shows "proposal_kept s' i p d x"
proof -
  have "visible_proposal s' i = Some (p, r, d, x)"
    using assms(1) by (intro visible_again [OF assms(1,3)])
      (simp_all add: visible_iff find_proposal_frame [OF assms(4)] find_extraction_frame [OF assms(5)])
  then show ?thesis using assms(2) by (auto simp: proposal_kept_def)
qed

lemma kept_upd:
  assumes "visible_proposal s i = Some (p, r, d, x)" and "xr_run_status r = ''completed''" and "same_sources s s'"
    and "kb_proposals s' = row_upd pp_id j f (kb_proposals s)" and "kb_extractions s' = kb_extractions s"
    and "\<And>q. pp_id (f q) = pp_id q" and "\<And>q. pp_run_id (f q) = pp_run_id q" and "\<And>q. pp_project_id (f q) = pp_project_id q"
    and "\<And>q. pp_content (f q) = pp_content q"
    and "i = j \<Longrightarrow> pp_review_status p \<noteq> ''pending'' \<longrightarrow> pp_review_status (f p) = pp_review_status p"
    and "i = j \<Longrightarrow> pp_memory_id p \<noteq> None \<longrightarrow> pp_memory_id (f p) = pp_memory_id p"
  shows "proposal_kept s' i p d x"
proof -
  let ?p = "if i = j then f p else p"
  have "find_proposal s' i = Some ?p"
    using assms(1,4,6) by (auto simp: visible_iff find_proposal_def row_get_upd)
  then have "visible_proposal s' i = Some (?p, r, d, x)"
    using assms(1,7,8) by (intro visible_again [OF assms(1,3)]) (simp_all add: visible_iff find_extraction_frame [OF assms(5)])
  then show ?thesis using assms(2,8-11) unfolding proposal_kept_def by (intro exI [of _ ?p] exI [of _ r]) auto
qed

lemma kept_extraction:
  assumes "visible_proposal s i = Some (p, r, d, x)" and "xr_run_status r = ''completed''" and "same_sources s s'"
    and "find_proposal s' i = Some p" and "find_extraction s' (xr_id r) = Some r"
  shows "proposal_kept s' i p d x"
proof -
  have "xr_id r = pp_run_id p" using assms(1) by (auto simp: visible_iff find_extraction_def dest: row_get_key)
  then have "visible_proposal s' i = Some (p, r, d, x)"
    using assms(4,5) by (intro visible_again [OF assms(1,3)]) simp_all
  then show ?thesis using assms(2) by (auto simp: proposal_kept_def)
qed

lemma kept_trans:
  assumes "proposal_kept s i p d x" and "\<And>p' r. visible_proposal s i = Some (p', r, d, x) \<Longrightarrow>
    xr_run_status r = ''completed'' \<Longrightarrow> proposal_kept s' i p' d x"
  shows "proposal_kept s' i p d x"
proof -
  obtain p1 r where p1: "visible_proposal s i = Some (p1, r, d, x)" "xr_run_status r = ''completed''"
    "pp_project_id p1 = pp_project_id p" "pp_content p1 = pp_content p"
    "pp_review_status p \<noteq> ''pending'' \<longrightarrow> pp_review_status p1 = pp_review_status p"
    "pp_memory_id p \<noteq> None \<longrightarrow> pp_memory_id p1 = pp_memory_id p"
    using assms(1) unfolding proposal_kept_def by blast
  from assms(2) [OF p1(1,2)] show ?thesis unfolding proposal_kept_def by (metis p1(3-6))
qed

text \<open>Writes that touch neither proposals nor what they are joined with.\<close>

definition proposals_apart :: "knowledge_db \<Rightarrow> knowledge_db \<Rightarrow> bool" where
  "proposals_apart s s' \<longleftrightarrow> same_sources s s' \<and> kb_proposals s' = kb_proposals s \<and> kb_extractions s' = kb_extractions s \<and>
     kb_next_id s \<le> kb_next_id s'"

lemma memory_writes_apart:
  "proposals_apart s (snd (create_memory c now s))" "proposals_apart s (snd (supersede_memory i r now s))"
  "proposals_apart s (snd (expire_memory i clock now s))" "proposals_apart s (snd (refine_memory_quality i conf imp now s))"
  "proposals_apart s (snd (link_source_to_memory i y location now s))"
proof -
  have apart: "proposals_apart s s" "proposals_apart s (upd_memory i f s)" for i f
    by (simp_all add: proposals_apart_def same_sources_def upd_memory_def)
  show "proposals_apart s (snd (create_memory c now s))"
    by (auto simp: create_memory_def insert_memory_def fresh_id_def add_memory_def Let_def proposals_apart_def same_sources_def)
  have "proposals_apart s (apply_memory_supersession i r now s)"
    by (simp add: apply_memory_supersession_def proposals_apart_def same_sources_def upd_memory_def)
  then show "proposals_apart s (snd (supersede_memory i r now s))"
    using apart(1) by (simp add: supersede_memory_def supersede_write_def Let_def split: sum.splits change.splits)
  show "proposals_apart s (snd (expire_memory i clock now s))"
    using apart by (simp add: expire_memory_def apply_memory_expiration_def Let_def split: option.splits sum.splits change.splits)
  show "proposals_apart s (snd (refine_memory_quality i conf imp now s))"
    using apart
    by (simp add: refine_memory_quality_def apply_memory_quality_refinement_def Let_def split: option.splits sum.splits change.splits)
  show "proposals_apart s (snd (link_source_to_memory i y location now s))"
    by (simp add: link_source_to_memory_def create_memory_source_link_def fresh_id_def Let_def proposals_apart_def
        same_sources_def split: option.splits)
qed

lemma completed_extraction_upd:
  assumes "find_extraction s k = Some r" and "xr_run_status r = ''completed''"
    and "find_extraction s j = Some q" and "xr_run_status q \<noteq> ''completed''" and "\<And>y. xr_id (f y) = xr_id y"
  shows "find_extraction (upd_extraction j f s) k = Some r"
proof -
  have "k \<noteq> j" using assms(1-4) by auto
  then show ?thesis using assms(1,5) by (simp add: find_extraction_def upd_extraction_def row_get_upd)
qed

lemma find_identity_row:
  assumes "distinct (map xr_id (kb_extractions s))" and "find_identity env d h s = Some q"
  shows "find_extraction s (xr_id q) = Some q"
  using assms row_get_distinct [OF assms(1)] by (auto simp: find_identity_def find_extraction_def find_Some_iff)

lemma begin_extraction_kept:
  assumes "find_extraction s k = Some r" and "xr_run_status r = ''completed''" and "distinct (map xr_id (kb_extractions s))"
  shows "find_extraction (snd (begin_extraction provider y p scope a n m clock s)) k = Some r"
proof -
  have appended: "find_extraction (s\<lparr>kb_next_id := j, kb_extractions := kb_extractions s @ [q]\<rparr>) k = Some r" for j q
    using assms(1) by (simp add: find_extraction_def row_get_append)
  have retried: "find_extraction (upd_extraction (xr_id q) (\<lambda>r. r\<lparr>xr_run_status := ''pending'', xr_error_code := None,
      xr_started_at := Some clock, xr_completed_at := None\<rparr>) s) k = Some r"
    if "find_identity env d h s = Some q" "xr_run_status q \<noteq> ''completed''" for env d h q
    using that(2) by (intro completed_extraction_upd [OF assms(1,2) find_identity_row [OF assms(3) that(1)]]) simp_all
  show ?thesis
    unfolding begin_extraction_def Let_def fresh_id_def
    by (simp add: assms(1) appended split: option.splits prod.splits) (use retried in blast)
qed

lemma begin_extraction_rows:
  "kb_proposals (snd (begin_extraction provider y p scope a n m clock s)) = kb_proposals s \<and>
   same_sources s (snd (begin_extraction provider y p scope a n m clock s))"
  by (simp add: begin_extraction_def Let_def fresh_id_def same_sources_def upd_extraction_def split: option.splits prod.splits)

lemma row_get_filter: "row_get key rows i = Some p \<Longrightarrow> P p \<Longrightarrow> row_get key (filter P rows) i = Some p"
  by (induction rows) (auto simp: row_get_Cons split: if_splits)

lemma added_proposals: "\<exists>ps. kb_proposals (add_proposals r p rows now vs s) = kb_proposals s @ ps"
proof (induction vs arbitrary: s)
  case (Cons v vs)
  show ?case
    using Cons [of "s\<lparr>kb_next_id := Suc (kb_next_id s), kb_proposals := kb_proposals s @
        [proposal_row r p (chunk_id_of rows (tc_chunk_index (vp_chunk v))) v now (kb_next_id s)]\<rparr>"]
    by (auto simp: fresh_id_def Let_def)
qed simp

lemma add_proposals_apart:
  "kb_extractions (add_proposals r p rows now vs s) = kb_extractions s"
  "kb_documents (add_proposals r p rows now vs s) = kb_documents s"
  "kb_sources (add_proposals r p rows now vs s) = kb_sources s"
  "kb_captures (add_proposals r p rows now vs s) = kb_captures s"
  by (induction vs arbitrary: s) (simp_all add: fresh_id_def Let_def)

lemma finish_extraction_kept:
  assumes visible: "visible_proposal s i = Some (p, r, d, x)" and completed: "xr_run_status r = ''completed''"
  shows "proposal_kept (snd (finish_extraction env j pr rows chunks n answer clock now s)) i p d x"
proof -
  have found: "find_proposal s i = Some p" "find_extraction s (pp_run_id p) = Some r" "pp_run_id p = xr_id r"
    using visible by (auto simp: visible_iff find_extraction_def dest: row_get_key)
  have "same_sources s s" by (simp add: same_sources_def)
  then have same: "proposal_kept s i p d x" by (intro kept_frame [OF visible completed]) simp_all
  have other: "find_extraction (upd_extraction j f s2) (xr_id r) = Some r"
    if "find_extraction s j = Some q" "xr_run_status q = ''pending''" "kb_extractions s2 = kb_extractions s"
      "\<And>y. xr_id (f y) = xr_id y" for f q s2
    using found that by (intro completed_extraction_upd [OF _ completed, where q = q]) (simp_all add: find_extraction_frame [of s2 s])
  have failed: "proposal_kept (fail_run j code clock s) i p d x" for code
  proof -
    have "find_extraction (fail_run j code clock s) (xr_id r) = Some r"
      using other [of _ s] found(2,3) by (simp add: fail_run_def split: option.splits)
    then show ?thesis using found(1)
      by (intro kept_extraction [OF visible completed])
        (simp_all add: fail_run_def same_sources_def upd_extraction_def find_proposal_def split: option.splits)
  qed
  have ended: "proposal_kept (upd_extraction j f (add_proposals j pr rows now vs (s\<lparr>kb_proposals := [q \<leftarrow> kb_proposals s. pp_run_id q \<noteq> j]\<rparr>)))
      i p d x" if q: "find_extraction s j = Some q" "xr_run_status q = ''pending''" and f: "\<And>y. xr_id (f y) = xr_id y" for f vs q
  proof -
    let ?s1 = "s\<lparr>kb_proposals := [q \<leftarrow> kb_proposals s. pp_run_id q \<noteq> j]\<rparr>"
    obtain ps where ps: "kb_proposals (add_proposals j pr rows now vs ?s1) = kb_proposals ?s1 @ ps"
      using added_proposals by blast
    have "pp_run_id p \<noteq> j" using q found completed by auto
    then have "find_proposal (add_proposals j pr rows now vs ?s1) i = Some p"
      using row_get_filter [of pp_id "kb_proposals s" i p "\<lambda>q. pp_run_id q \<noteq> j"] found(1)
      by (simp add: find_proposal_def ps row_get_append)
    moreover have "same_sources s (add_proposals j pr rows now vs ?s1)"
      by (simp add: same_sources_def add_proposals_apart)
    moreover have "kb_extractions (add_proposals j pr rows now vs ?s1) = kb_extractions s" by (simp add: add_proposals_apart)
    ultimately show ?thesis using other [OF q _ f]
      by (intro kept_extraction [OF visible completed]) (simp_all add: upd_extraction_def find_proposal_def same_sources_def)
  qed
  show ?thesis
    unfolding finish_extraction_def Let_def
    by (simp add: same failed split: option.splits provider_answer.splits) (use ended in force)
qed

definition extraction_ids_ok :: "knowledge_db \<Rightarrow> bool" where
  "extraction_ids_ok s \<longleftrightarrow> distinct (map xr_id (kb_extractions s)) \<and> (\<forall>r \<in> set (kb_extractions s). xr_id r < kb_next_id s)"

lemma extraction_ids_frame:
  assumes "extraction_ids_ok s" and "map xr_id (kb_extractions s') = map xr_id (kb_extractions s)"
    and "kb_next_id s \<le> kb_next_id s'"
  shows "extraction_ids_ok s'"
proof -
  have "xr_id ` set (kb_extractions s') = xr_id ` set (kb_extractions s)" by (metis assms(2) list.set_map)
  moreover have "\<forall>i \<in> xr_id ` set (kb_extractions s). i < kb_next_id s'"
    using assms(1,3) by (auto simp: extraction_ids_ok_def)
  ultimately have "\<forall>r \<in> set (kb_extractions s'). xr_id r < kb_next_id s'" by (metis imageI)
  then show ?thesis using assms(1,2) by (simp add: extraction_ids_ok_def)
qed

lemma upd_extraction_ids: "(\<And>y. xr_id (f y) = xr_id y) \<Longrightarrow> map xr_id (kb_extractions (upd_extraction j f s)) = map xr_id (kb_extractions s)"
  by (simp add: upd_extraction_def row_upd_map)

lemma begin_extraction_ids:
  assumes "extraction_ids_ok s"
  shows "extraction_ids_ok (snd (begin_extraction provider y p scope a n m clock s))"
proof -
  have added: "extraction_ids_ok (s\<lparr>kb_next_id := Suc (kb_next_id s), kb_extractions := kb_extractions s @ [q]\<rparr>)"
    if "xr_id q = kb_next_id s" for q
    using assms that by (auto simp: extraction_ids_ok_def)
  have retried: "extraction_ids_ok (upd_extraction j f s)" if "\<And>y. xr_id (f y) = xr_id y" for j f
    using that by (intro extraction_ids_frame [OF assms]) (simp_all add: upd_extraction_ids memory_frames)
  show ?thesis
    unfolding begin_extraction_def Let_def fresh_id_def
    by (simp add: assms added retried split: option.splits prod.splits)
qed

lemma finish_extraction_ids:
  assumes "extraction_ids_ok s"
  shows "extraction_ids_ok (snd (finish_extraction env j pr rows chunks n answer clock now s))"
proof -
  have failed: "extraction_ids_ok (fail_run j code clock s)" for code
    using assms by (simp add: fail_run_def split: option.splits)
      (intro allI impI extraction_ids_frame [OF assms]; simp add: upd_extraction_ids memory_frames)
  have "kb_next_id s \<le> kb_next_id (add_proposals j pr rows now vs (s\<lparr>kb_proposals := ps\<rparr>))" for vs ps
    using add_proposals_frame(2) [of "s\<lparr>kb_proposals := ps\<rparr>" j pr rows now vs] by simp
  then have ended: "extraction_ids_ok (upd_extraction j f (add_proposals j pr rows now vs (s\<lparr>kb_proposals := ps\<rparr>)))"
    if "\<And>y. xr_id (f y) = xr_id y" for f vs ps
    using that by (intro extraction_ids_frame [OF assms]) (simp_all add: upd_extraction_ids memory_frames add_proposals_apart)
  show ?thesis
    unfolding finish_extraction_def Let_def
    by (simp add: assms failed ended split: option.splits provider_answer.splits)
qed

lemma promote_proposal_sources:
  "same_sources s (snd (promote_proposal i now s)) \<and> kb_extractions (snd (promote_proposal i now s)) = kb_extractions s"
  by (simp add: promote_proposal_def create_memory_source_link_def fresh_id_def Let_def same_sources_def upd_proposal_def
      add_memory_def split: option.splits prod.splits)

lemma promote_updated_rows:
  assumes "promote_proposal i now s = (Inr (Updated, m), s')" and "memory_rows_ok s"
  shows "kb_proposals s' = row_upd pp_id i (\<lambda>p. p\<lparr>pp_memory_id := Some (kb_next_id s), pp_updated_at := now\<rparr>) (kb_proposals s)"
    "find_memory s' (kb_next_id s) = Some m" "me_id m = kb_next_id s"
proof -
  obtain p x where m: "m = promoted_memory p x (kb_next_id s) now" "kb_memories s' = kb_memories s @ [m]"
    and *: "kb_proposals s' = row_upd pp_id i (\<lambda>p. p\<lparr>pp_memory_id := Some (kb_next_id s), pp_updated_at := now\<rparr>) (kb_proposals s)"
    using promote_proposal_OK [OF assms(1)] by blast
  show "kb_proposals s' = row_upd pp_id i (\<lambda>p. p\<lparr>pp_memory_id := Some (kb_next_id s), pp_updated_at := now\<rparr>) (kb_proposals s)"
    by (rule *)
  show id: "me_id m = kb_next_id s" by (simp add: m(1) promoted_memory_def Let_def)
  have "find_memory s (kb_next_id s) = None"
    using assms(2) by (auto simp: memory_rows_ok_def find_memory_def row_get_None_iff)
  then show "find_memory s' (kb_next_id s) = Some m" using id by (simp add: find_memory_def m(2) row_get_append row_get_Cons)
qed

lemma apart_kept:
  assumes "proposals_apart s s'" and "extraction_ids_ok s" and "visible_proposal s i = Some (p, r, d, x)"
    and "xr_run_status r = ''completed''"
  shows "proposal_kept s' i p d x \<and> extraction_ids_ok s'"
  using assms kept_frame [OF assms(3,4)] extraction_ids_frame [OF assms(2)] by (simp add: proposals_apart_def)

lemma promote_same:
  assumes "\<nexists>m. fst (promote_proposal i now s) = Inr (Updated, m)"
  shows "snd (promote_proposal i now s) = s"
proof (cases "promote_proposal i now s")
  case (Pair res s')
  then show ?thesis
  proof (cases res)
    case (Inr cm)
    then show ?thesis using assms Pair promote_unchanged [of i now s undefined s' "snd cm"]
      by (cases cm; cases "fst cm") auto
  qed (use promote_unchanged [of i now s _ s'] in auto)
qed

lemma proposal_step_kept:
  assumes "memory_step s s'" and "memory_rows_ok s" and "extraction_ids_ok s"
    and "visible_proposal s i = Some (p, r, d, x)" and "xr_run_status r = ''completed''"
    and "\<And>k. pp_memory_id p = Some k \<Longrightarrow> find_memory s k \<noteq> None"
  shows "proposal_kept s' i p d x \<and> extraction_ids_ok s'"
  using assms
proof (induction rule: memory_step.induct)
  case (extracts s provider y pr scope a n m clock)
  have "find_extraction s (pp_run_id p) = Some r" "find_proposal s i = Some p"
    using extracts.prems(3) by (auto simp: visible_iff)
  moreover from this have "xr_id r = pp_run_id p" by (auto simp: find_extraction_def dest: row_get_key)
  ultimately have "xr_id r = pp_run_id p" "find_extraction s (xr_id r) = Some r" "find_proposal s i = Some p" by simp_all
  then show ?case
    using extracts.prems begin_extraction_rows [of provider y pr scope a n m clock s] begin_extraction_ids
    by (auto simp: find_proposal_frame [of "snd (begin_extraction provider y pr scope a n m clock s)" s] extraction_ids_ok_def
        intro!: kept_extraction [OF extracts.prems(3,4)] begin_extraction_kept)
next
  case (concludes s env j pr rows chunks k answer clock now)
  then show ?case using finish_extraction_kept [OF concludes.prems(3,4)] finish_extraction_ids by blast
next
  case (reviews s j decision note_text clock now)
  let ?s = "snd (review_memory_proposal j decision note_text clock now s)"
  have ids: "extraction_ids_ok ?s"
    by (rule extraction_ids_frame [OF reviews.prems(2)])
      (simp_all add: review_memory_proposal_def Let_def upd_proposal_def split: option.splits prod.splits)
  have same: "same_sources s s" by (simp add: same_sources_def)
  show ?case
  proof (cases "?s = s")
    case True
    then show ?thesis using kept_frame [OF reviews.prems(3,4) same] ids by simp
  next
    case False
    then obtain q r2 d2 x2 where q: "visible_proposal s j = Some (q, r2, d2, x2)" "pp_review_status q = ''pending''"
      and s: "?s = upd_proposal j (\<lambda>p. p\<lparr>pp_review_status := decision, pp_review_note := note_text,
        pp_reviewed_at := Some clock, pp_updated_at := now\<rparr>) s"
      by (auto simp: review_memory_proposal_def Let_def split: option.splits prod.splits if_splits)
    have "i = j \<Longrightarrow> q = p" using q(1) reviews.prems(3) by (simp add: visible_iff)
    then have "proposal_kept ?s i p d x" using q(2) unfolding s
      by (intro kept_upd [OF reviews.prems(3,4), where j = j and f = "\<lambda>p. p\<lparr>pp_review_status := decision,
          pp_review_note := note_text, pp_reviewed_at := Some clock, pp_updated_at := now\<rparr>"])
        (auto simp: upd_proposal_def same_sources_def)
    then show ?thesis using ids by blast
  qed
next
  case (promotes s j now)
  let ?s = "snd (promote_proposal j now s)"
  have ids: "extraction_ids_ok ?s"
    by (rule extraction_ids_frame [OF promotes.prems(2)])
      (use promote_proposal_sources [of s j now] in \<open>simp_all add: promote_proposal_def create_memory_source_link_def
        fresh_id_def upd_proposal_def add_memory_def Let_def split: option.splits prod.splits\<close>)
  show ?case
  proof (cases "\<exists>m. fst (promote_proposal j now s) = Inr (Updated, m)")
    case True
    then obtain m where m: "promote_proposal j now s = (Inr (Updated, m), ?s)" by (metis prod.collapse)
    then obtain q r2 d2 x2 where q: "visible_proposal s j = Some (q, r2, d2, x2)"
      "(case pp_memory_id q of None \<Rightarrow> None | Some k \<Rightarrow> find_memory s k) = None"
      using promote_proposal_OK by blast
    have "pp_memory_id p = None" if "i = j"
      using that q promotes.prems(3,5) by (cases "pp_memory_id p") (auto simp: visible_iff)
    then have "proposal_kept ?s i p d x"
      using promote_proposal_sources [of s j now] promote_updated_rows(1) [OF m promotes.prems(1)]
      by (intro kept_upd [OF promotes.prems(3,4), where j = j
          and f = "\<lambda>p. p\<lparr>pp_memory_id := Some (kb_next_id s), pp_updated_at := now\<rparr>"]) auto
    then show ?thesis using ids by blast
  next
    case False
    then have "?s = s" by (rule promote_same)
    moreover have "same_sources s s" by (simp add: same_sources_def)
    ultimately show ?thesis using kept_frame [OF promotes.prems(3,4)] ids by simp
  qed
qed (rule apart_kept, rule memory_writes_apart, assumption+)+

text \<open>The foreign key of \<open>memory_id\<close>.\<close>

definition proposals_linked :: "knowledge_db \<Rightarrow> bool" where
  "proposals_linked s \<longleftrightarrow> (\<forall>p \<in> set (kb_proposals s). \<forall>k. pp_memory_id p = Some k \<longrightarrow> find_memory s k \<noteq> None)"

lemma linked_mono:
  assumes "proposals_linked s" and "memories_evolve s s'"
    and "\<And>p' k. p' \<in> set (kb_proposals s') \<Longrightarrow> pp_memory_id p' = Some k \<Longrightarrow>
      (\<exists>p \<in> set (kb_proposals s). pp_memory_id p = Some k) \<or> find_memory s' k \<noteq> None"
  shows "proposals_linked s'"
proof -
  have "find_memory s' k \<noteq> None" if "find_memory s k \<noteq> None" for k
    using assms(2) that unfolding memories_evolve_def by (cases "find_memory s k") auto
  then show ?thesis using assms(1,3) unfolding proposals_linked_def by blast
qed

lemma added_unlinked:
  "p' \<in> set (kb_proposals (add_proposals r pr rows now vs s)) \<Longrightarrow> p' \<in> set (kb_proposals s) \<or> pp_memory_id p' = None"
proof (induction vs arbitrary: s)
  case (Cons v vs)
  let ?q = "proposal_row r pr (chunk_id_of rows (tc_chunk_index (vp_chunk v))) v now (kb_next_id s)"
  have "p' \<in> set (kb_proposals s @ [?q]) \<or> pp_memory_id p' = None"
    using Cons.IH [of "s\<lparr>kb_next_id := Suc (kb_next_id s), kb_proposals := kb_proposals s @ [?q]\<rparr>"] Cons.prems
    by (simp add: fresh_id_def Let_def)
  moreover have "pp_memory_id ?q = None" by (simp add: proposal_row_def)
  ultimately show ?case by auto
qed simp

lemma finished_unlinked:
  assumes "p' \<in> set (kb_proposals (snd (finish_extraction env j pr rows chunks n answer clock now s)))"
  shows "p' \<in> set (kb_proposals s) \<or> pp_memory_id p' = None"
proof -
  have failed: "kb_proposals (fail_run j code clock s) = kb_proposals s" for code
    by (simp add: fail_run_def upd_extraction_def split: option.splits)
  have "kb_proposals (upd_extraction j f t) = kb_proposals t" for f t by (simp add: upd_extraction_def)
  then show ?thesis using assms failed added_unlinked [of p' j pr rows now _ "s\<lparr>kb_proposals := [p \<leftarrow> kb_proposals s. pp_run_id p \<noteq> j]\<rparr>"]
    by (fastforce simp: finish_extraction_def Let_def split: option.splits provider_answer.splits if_splits)
qed

lemma proposal_step_linked:
  assumes "memory_step s s'" and "memory_rows_ok s" and "proposals_linked s"
  shows "proposals_linked s'"
proof -
  have evolve: "memories_evolve s s'" using memory_histories.step_evolves [OF assms(1,2)] .
  show ?thesis using assms evolve
  proof (induction rule: memory_step.induct)
    case (extracts s provider y pr scope a n m clock)
    then show ?case using begin_extraction_rows [of provider y pr scope a n m clock s]
      by (intro linked_mono [OF extracts.prems(2,3)]) auto
  next
    case (concludes s env j pr rows chunks k answer clock now)
    then show ?case by (intro linked_mono [OF concludes.prems(2,3)]) (metis finished_unlinked option.discI)
  next
    case (reviews s j decision note_text clock now)
    have "p' \<in> set (kb_proposals (snd (review_memory_proposal j decision note_text clock now s))) \<Longrightarrow>
        \<exists>p \<in> set (kb_proposals s). pp_memory_id p = pp_memory_id p'" for p'
      by (auto simp: review_memory_proposal_def Let_def upd_proposal_def row_upd_set split: option.splits prod.splits if_splits)
    then show ?case by (intro linked_mono [OF reviews.prems(2,3)]) metis
  next
    case (promotes s j now)
    show ?case
    proof (cases "\<exists>m. fst (promote_proposal j now s) = Inr (Updated, m)")
      case True
      then obtain m where m: "promote_proposal j now s = (Inr (Updated, m), snd (promote_proposal j now s))" by (metis prod.collapse)
      show ?thesis using promote_updated_rows [OF m promotes.prems(1)]
        by (intro linked_mono [OF promotes.prems(2,3)]) (auto simp: row_upd_set)
    next
      case False
      then show ?thesis using promotes.prems(2) promote_same by simp
    qed
  next
    case (creates c v s now)
    then show ?case using memory_writes_apart(1) [of s v now]
      by (intro linked_mono [OF creates.prems(2,3)]) (auto simp: proposals_apart_def)
  next
    case (supersedes s j k now)
    then show ?case using memory_writes_apart(2) [of s j k now]
      by (intro linked_mono [OF supersedes.prems(2,3)]) (auto simp: proposals_apart_def)
  next
    case (expires s j clock now)
    then show ?case using memory_writes_apart(3) [of s j clock now]
      by (intro linked_mono [OF expires.prems(2,3)]) (auto simp: proposals_apart_def)
  next
    case (refines s j conf imp now)
    then show ?case using memory_writes_apart(4) [of s j conf imp now]
      by (intro linked_mono [OF refines.prems(2,3)]) (auto simp: proposals_apart_def)
  next
    case (links s j y location now)
    then show ?case using memory_writes_apart(5) [of s j y location now]
      by (intro linked_mono [OF links.prems(2,3)]) (auto simp: proposals_apart_def)
  qed
qed

definition knowledge_ok :: "knowledge_db \<Rightarrow> bool" where
  "knowledge_ok s \<longleftrightarrow> memory_rows_ok s \<and> extraction_ids_ok s \<and> proposals_linked s"

lemma proposal_of_ok: "knowledge_ok s \<Longrightarrow> visible_proposal s i = Some (p, r, d, x) \<Longrightarrow> pp_memory_id p = Some k \<Longrightarrow> find_memory s k \<noteq> None"
  by (auto simp: knowledge_ok_def proposals_linked_def visible_iff find_proposal_def dest!: row_get_in)

lemma proposal_history_kept:
  assumes "memory_step\<^sup>*\<^sup>* s s'" and "knowledge_ok s"
    and "visible_proposal s i = Some (p, r, d, x)" and "xr_run_status r = ''completed''"
  shows "knowledge_ok s' \<and> proposal_kept s' i p d x"
  using assms(1)
proof (induction rule: rtranclp_induct)
  case base
  have "proposal_kept s i p d x" by (rule kept_frame [OF assms(3,4)]) (simp_all add: same_sources_def)
  then show ?case using assms(2) by blast
next
  case (step t u)
  obtain p' r' where p': "visible_proposal t i = Some (p', r', d, x)" "xr_run_status r' = ''completed''"
    using step.IH by (auto simp: proposal_kept_def)
  have ok: "memory_rows_ok t" "extraction_ids_ok t" "proposals_linked t" using step.IH by (simp_all add: knowledge_ok_def)
  have kept: "proposal_kept u i q d x \<and> extraction_ids_ok u"
    if "visible_proposal t i = Some (q, r'', d, x)" "xr_run_status r'' = ''completed''" for q r''
    using step.IH that proposal_of_ok [OF _ that(1)] by (intro proposal_step_kept [OF step.hyps(2) ok(1,2) that]) auto
  have "proposal_kept u i p d x" by (rule kept_trans [OF conjunct2 [OF step.IH]]) (use kept in blast)
  moreover have "knowledge_ok u"
    using memory_histories.step_inv [OF step.hyps(2) ok(1)] proposal_step_linked [OF step.hyps(2) ok(1,3)] kept [OF p']
    by (simp add: knowledge_ok_def)
  ultimately show ?case by blast
qed

section \<open>Review and promotion\<close>

text \<open>C30: A decision on a proposed Memory stands and a promoted proposal has one Memory: whatever requests follow, a
  proposal of a completed run that has been approved or rejected keeps that decision, and one that has been promoted
  answers every further promotion with the Memory it has, unchanged, and creates nothing.\<close>

theorem proposals_settle_once:
  assumes "memory_step\<^sup>*\<^sup>* s s'" and "knowledge_ok s"
    and "visible_proposal s i = Some (p, r, d, x)" and "xr_run_status r = ''completed''"
  shows "(pp_review_status p \<noteq> ''pending'' \<longrightarrow>
      (\<exists>p' r' d' x'. visible_proposal s' i = Some (p', r', d', x') \<and> pp_review_status p' = pp_review_status p)) \<and>
    (\<forall>k now. pp_memory_id p = Some k \<longrightarrow>
      (\<exists>m. promote_proposal i now s' = (Inr (Unchanged, m), s') \<and> find_memory s' k = Some m))"
proof -
  have ok: "knowledge_ok s'" and kept: "proposal_kept s' i p d x" using proposal_history_kept [OF assms] by simp_all
  obtain p' r' where p': "visible_proposal s' i = Some (p', r', d, x)"
    "pp_review_status p \<noteq> ''pending'' \<longrightarrow> pp_review_status p' = pp_review_status p"
    "pp_memory_id p \<noteq> None \<longrightarrow> pp_memory_id p' = pp_memory_id p"
    using kept unfolding proposal_kept_def by blast
  have "\<exists>m. promote_proposal i now s' = (Inr (Unchanged, m), s') \<and> find_memory s' k = Some m"
    if "pp_memory_id p = Some k" for k now
  proof -
    have k: "pp_memory_id p' = Some k" using p'(3) that by simp
    obtain m where "find_memory s' k = Some m" using proposal_of_ok [OF ok p'(1) k] by auto
    then show ?thesis using p'(1) k by (simp add: promote_proposal_def)
  qed
  then show ?thesis using p'(1,2) by blast
qed

text \<open>A proposal of a Source with a long name cannot become a Memory: if the reference of the Source, or its name
  when it has no reference, is longer than 100 characters, then promoting an approved proposal of it always answers
  that the database is unavailable and changes nothing.\<close>

theorem long_source_blocks_promotion:
  assumes "visible_proposal s i = Some (p, r, d, x)" and "xr_run_status r = ''completed''"
    and "pp_review_status p = ''approved''" and "pp_memory_id p = None"
    and "100 < length (case so_reference x of None \<Rightarrow> so_name x | Some t \<Rightarrow> if py_strip t = [] then so_name x else py_strip t)"
  shows "promote_proposal i now s = (Inl (HttpError 503 ''database unavailable''), s)"
proof -
  have "\<not> memory_checks (promoted_memory p x k now)" for k
    using assms(5) by (auto simp: memory_checks_def promoted_memory_def Let_def split: option.splits if_splits)
  then show ?thesis
    using assms(1-4) by (simp add: promote_proposal_def Let_def fresh_id_def database_unavailable_def split: prod.splits)
qed

section \<open>Sources of unassigned Captures\<close>

text \<open>C31: What is drawn from an unassigned Capture is lost: its Source can be linked to an unassigned Memory and proposals
  can be extracted from it when the null Project is named, but the Source is then missing from the list of the
  Memory's Sources, and the proposals can be neither listed nor reviewed nor promoted, in any state.\<close>

theorem unassigned_capture_source_unreachable:
  assumes "row_get so_id (kb_sources s) k = Some x"
    and "c \<in> set (kb_captures s)" and "ci_resulting_source_id c = Some k" and "ci_state c = ''processed''"
    and "ci_processed_at c \<noteq> None" and "ci_project_id c = None"
    and "find_memory s j = Some m" and "me_project_id m = None" and "distinct (map me_id (kb_memories s))"
    and "find_proposal s i = Some p" and "pp_project_id p = None"
    and "find_extraction s (pp_run_id p) = Some r" and "row_get dc_id (kb_documents s) (xr_document_id r) = Some d"
    and "dc_source_id d = k"
  shows "get_source_for_scope s k (ExactScope (me_project_id m)) = Some x \<and>
    (\<forall>l limit offset rows. list_sources_for_memory s j limit offset = Inr rows \<longrightarrow> (l, x) \<notin> set rows) \<and>
    (\<forall>f. p \<notin> set (list_proposals s f)) \<and>
    (\<forall>decision n t now. review_memory_proposal i decision n t now s = (Inl (HttpError 404 ''memory proposal not found''), s)) \<and>
    (\<forall>now. promote_proposal i now s = (Inl (HttpError 404 ''memory proposal not found''), s))"
proof -
  have bound: "c \<in> set (source_bindings s k)" using assms(2,3) by (simp add: source_bindings_def)
  have id: "so_id x = k" using assms(1) by (rule row_get_key)
  have seen: "source_access s (ExactScope None) k"
    using bound assms(4-6) by (auto simp: source_access_def list_ex_iff)
  have hidden: "\<not> source_access s (ColumnScope None) k"
    using bound by (auto simp: source_access_def list_ex_iff)
  have owner: "q = m" if "q \<in> set (kb_memories s)" "me_id q = j" for q
  proof -
    from row_get_distinct [OF assms(9) that(1)] have "find_memory s j = Some q" unfolding find_memory_def that(2) .
    then show ?thesis using assms(7) by simp
  qed
  have "(l, x) \<notin> set (linked_sources s j)" for l
    using hidden owner assms(8) id unfolding linked_sources_def by (auto simp: list_ex_iff)
  then have "(l, x) \<notin> set rows" if "list_sources_for_memory s j limit offset = Inr rows" for l limit offset rows
    using that by (auto simp: list_sources_for_memory_def split: if_splits dest: in_set_takeD in_set_dropD)
  moreover have joined: "joined_proposal s p = None"
    using hidden id assms(1,11-14) by (auto simp: joined_proposal_def)
  then have "p \<notin> set (list_proposals s f)" for f
    by (auto simp: list_proposals_def dest!: in_set_takeD in_set_dropD)
  moreover have "visible_proposal s i = None" using joined assms(10) by (simp add: visible_proposal_def)
  ultimately show ?thesis
    using seen assms(1,8) by (simp add: get_source_for_scope_def review_memory_proposal_def promote_proposal_def)
qed

section \<open>Example rows\<close>

definition example_source :: "string \<Rightarrow> knowledge_source" where
  "example_source name = \<lparr> so_id = 1, so_source_type = ''capture'', so_name = name, so_reference = None, so_checksum = None,
     so_created_at = 0, so_updated_at = 0 \<rparr>"

definition example_document :: source_document where
  "example_document = extracted_document 1 ''text'' ''text/plain'' None 4 0 0 2"

definition example_finished :: extraction_run where
  "example_finished = \<lparr> xr_id = 3, xr_document_id = 2, xr_project_id = None, xr_provider = ''p'', xr_model = ''m'',
     xr_prompt_version = ''1'', xr_input_hash = replicate 64 (CHR ''a''), xr_run_status = ''completed'', xr_error_code = None,
     xr_started_at = Some 0, xr_completed_at = Some 1 \<rparr>"

definition example_approved :: "uuid option \<Rightarrow> memory_proposal" where
  "example_approved k = \<lparr> pp_id = 4, pp_run_id = 3, pp_source_chunk_id = None, pp_source_chunk_hash = replicate 64 (CHR ''a''),
     pp_project_id = None, pp_proposal_index = 0, pp_title = None, pp_summary = None, pp_content = ''text'',
     pp_memory_type = ''semantic'', pp_importance = 0, pp_confidence = 1, pp_evidence_text = ''text'',
     pp_evidence_char_start = 0, pp_evidence_char_end = 4, pp_source_locator = None,
     pp_proposal_hash = replicate 64 (CHR ''a''), pp_review_status = ''approved'', pp_review_note = None,
     pp_reviewed_at = Some 2, pp_memory_id = k, pp_created_at = 1, pp_updated_at = 2 \<rparr>"

definition extracted_state :: "string \<Rightarrow> uuid option \<Rightarrow> knowledge_db" where
  "extracted_state name k = empty_knowledge\<lparr>kb_next_id := 10, kb_memories := [example_row 9 None],
     kb_sources := [example_source name], kb_documents := [example_document], kb_extractions := [example_finished],
     kb_proposals := [example_approved k]\<rparr>"

lemma extracted_simps [simp]:
  "find_memory (extracted_state name k) 9 = Some (example_row 9 None)"
  "visible_proposal (extracted_state name k) 4 = Some (example_approved k, example_finished, example_document, example_source name)"
  "xr_run_status example_finished = ''completed''" "pp_review_status (example_approved k) = ''approved''"
  "pp_memory_id (example_approved k) = k" "pp_project_id (example_approved k) = None" "so_reference (example_source name) = None"
  "so_name (example_source name) = name" "dc_source_id example_document = 1"
  by (simp_all add: extracted_state_def find_memory_def row_get_Cons visible_iff find_proposal_def find_extraction_def
      empty_knowledge_def source_access_def source_bindings_def example_approved_def example_finished_def
      example_document_def example_source_def extracted_document_def)

lemma extracted_ok: "k \<in> {None, Some 9} \<Longrightarrow> knowledge_ok (extracted_state name k)"
  by (auto simp: knowledge_ok_def memory_rows_ok_def extraction_ids_ok_def proposals_linked_def extracted_state_def
      empty_knowledge_def references_exist_def chain_links_def acyclic_def example_finished_def example_approved_def
      find_memory_def row_get_Cons)

theorem proposals_settle_once_witness:
  "\<exists>m. promote_proposal 4 5 (extracted_state ''n'' (Some 9)) = (Inr (Unchanged, m), extracted_state ''n'' (Some 9)) \<and>
     find_memory (extracted_state ''n'' (Some 9)) 9 = Some m"
  using proposals_settle_once [OF rtranclp.rtrancl_refl extracted_ok extracted_simps(2,3), of "Some 9" "''n''"] by simp

theorem long_source_blocks_promotion_witness:
  "promote_proposal 4 5 (extracted_state (replicate 101 (CHR ''n'')) None) =
     (Inl (HttpError 503 ''database unavailable''), extracted_state (replicate 101 (CHR ''n'')) None)"
  by (rule long_source_blocks_promotion [OF extracted_simps(2,3)]) simp_all

definition example_capture :: capture_item where
  "example_capture = \<lparr> ci_id = 5, ci_project_id = None, ci_content = ''text'', ci_state = ''processed'', ci_revision = 2,
     ci_created_at = 0, ci_updated_at = 1, ci_processed_at = Some 1, ci_resulting_source_id = Some 1,
     ci_idempotency_key_hash = replicate 64 (CHR ''a''), ci_request_fingerprint = replicate 64 (CHR ''a'') \<rparr>"

definition captured_state :: knowledge_db where
  "captured_state = (extracted_state ''n'' None)\<lparr>kb_captures := [example_capture]\<rparr>"

theorem unassigned_capture_source_unreachable_witness:
  "get_source_for_scope captured_state 1 (ExactScope None) = Some (example_source ''n'') \<and>
   promote_proposal 4 5 captured_state = (Inl (HttpError 404 ''memory proposal not found''), captured_state)"
proof -
  have "row_get so_id (kb_sources captured_state) 1 = Some (example_source ''n'')" "example_capture \<in> set (kb_captures captured_state)"
    "find_memory captured_state 9 = Some (example_row 9 None)" "distinct (map me_id (kb_memories captured_state))"
    "find_proposal captured_state 4 = Some (example_approved None)"
    "find_extraction captured_state (pp_run_id (example_approved None)) = Some example_finished"
    "row_get dc_id (kb_documents captured_state) (xr_document_id example_finished) = Some example_document"
    by (simp_all add: captured_state_def extracted_state_def row_get_Cons find_memory_def find_proposal_def
        find_extraction_def example_source_def example_approved_def example_finished_def example_document_def
        extracted_document_def)
  moreover have "ci_resulting_source_id example_capture = Some 1" "ci_state example_capture = ''processed''"
    "ci_processed_at example_capture \<noteq> None" "ci_project_id example_capture = None"
    by (simp_all add: example_capture_def)
  ultimately show ?thesis
    using unassigned_capture_source_unreachable [of captured_state 1 "example_source ''n''" example_capture 9 "example_row 9 None"
        4 "example_approved None" example_finished example_document] by simp
qed

end
