(* ===== verification/Capture_Inbox.thy ===== *)
theory Capture_Inbox
  imports Source_Text
begin

text \<open>
  The Capture Inbox: \<open>app/captures/service.py\<close> over \<open>app/repositories/capture_items.py\<close>. A Capture is a note that waits
  for triage; it is created once per idempotency key, changed under its revision, discarded and restored, and
  converted once to a Source. An operation gets the scope of the request, which is exactly one Project or unassigned
  (\<open>None\<close>). A failing operation has rolled back.
\<close>

section \<open>Errors and projections\<close>

record capture_view =
  cv_id :: uuid
  cv_project_id :: "uuid option"
  cv_content :: string
  cv_state :: string
  cv_revision :: nat
  cv_created_at :: instant
  cv_updated_at :: instant
  cv_processed_at :: "instant option"
  cv_resulting_source_id :: "uuid option"

definition capture_view_of :: "capture_item \<Rightarrow> capture_view" where
  "capture_view_of c = \<lparr> cv_id = ci_id c, cv_project_id = ci_project_id c, cv_content = ci_content c, cv_state = ci_state c,
     cv_revision = ci_revision c, cv_created_at = ci_created_at c, cv_updated_at = ci_updated_at c,
     cv_processed_at = ci_processed_at c, cv_resulting_source_id = ci_resulting_source_id c \<rparr>"

datatype (plugins only: code) capture_error =
    CaptureValidationError string
  | CaptureProjectNotFoundError
  | CaptureIdempotencyConflictError
  | CaptureNotFoundError
  | CaptureRevisionConflictError capture_view
  | CaptureTransitionConflictError
  | CaptureSourceInvalidError
  | CaptureValueError string
  | CaptureDatabaseError

type_synonym 'a capture_reply = "(capture_error + 'a) \<times> knowledge_db"

section \<open>Input\<close>

definition normalize_capture_content :: "string \<Rightarrow> capture_error + string" where
  "normalize_capture_content value =
    (let normalized = normalize_plain_text value in
     if CHR 0x00 \<in> set normalized then Inl (CaptureValidationError ''content must not contain NUL'')
     else if blank normalized then Inl (CaptureValidationError ''content must contain a non-whitespace character'')
     else if 8000 < length normalized then Inl (CaptureValidationError ''content exceeds 8000 Unicode scalar values'')
     else if 32000 < utf8_length normalized then Inl (CaptureValidationError ''content exceeds 32000 UTF-8 bytes'')
     else Inr normalized)"

definition validate_idempotency_key :: "string \<Rightarrow> capture_error + string" where
  "validate_idempotency_key value =
    (if \<not> (8 \<le> length value \<and> length value \<le> 128) \<or>
        list_ex (\<lambda>c. \<not> (33 \<le> (of_char c :: nat) \<and> (of_char c :: nat) \<le> 126)) value
     then Inl (CaptureValidationError ''idempotency key must be 8-128 visible ASCII characters'')
     else Inr value)"

definition capture_hash_idempotency_key :: "(string \<Rightarrow> string) \<Rightarrow> string \<Rightarrow> capture_error + string" where
  "capture_hash_idempotency_key sha value = (case validate_idempotency_key value of Inl e \<Rightarrow> Inl e | Inr v \<Rightarrow> Inr (sha v))"

definition FINGERPRINT_DOMAIN :: string where
  "FINGERPRINT_DOMAIN = ''second-brain.capture-create.v1''"

definition request_fingerprint :: "(string \<Rightarrow> string) \<Rightarrow> string \<Rightarrow> uuid option \<Rightarrow> string" where
  "request_fingerprint sha content project_id =
    (let scope = (case project_id of None \<Rightarrow> ''unassigned'' | Some p \<Rightarrow> ''project:'' @ uuid_text p) in
     sha (raw_dumps (JObj [(''content'', JStr content), (''domain'', JStr FINGERPRINT_DOMAIN), (''scope'', JStr scope)])))"

section \<open>Repository\<close>

definition insert_capture_on_new_key :: "capture_item \<Rightarrow> knowledge_db \<Rightarrow> capture_item option \<times> knowledge_db" where
  "insert_capture_on_new_key c s =
    (if list_ex (\<lambda>x. ci_idempotency_key_hash x = ci_idempotency_key_hash c) (kb_captures s) then (None, s)
     else (Some c, s\<lparr>kb_captures := kb_captures s @ [c]\<rparr>))"

definition get_capture_by_idempotency_hash :: "knowledge_db \<Rightarrow> string \<Rightarrow> capture_item option" where
  "get_capture_by_idempotency_hash s h = find (\<lambda>c. ci_idempotency_key_hash c = h) (kb_captures s)"

definition get_scoped_capture :: "knowledge_db \<Rightarrow> uuid \<Rightarrow> uuid option \<Rightarrow> capture_item option" where
  "get_scoped_capture s i project_id =
    (case find_capture s i of None \<Rightarrow> None | Some c \<Rightarrow> if ci_project_id c = project_id then Some c else None)"

definition upd_capture :: "uuid \<Rightarrow> (capture_item \<Rightarrow> capture_item) \<Rightarrow> knowledge_db \<Rightarrow> knowledge_db" where
  "upd_capture i f s = s\<lparr>kb_captures := row_upd ci_id i f (kb_captures s)\<rparr>"

interpretation captures: table find_capture upd_capture "\<lambda>c s. s\<lparr>kb_captures := kb_captures s @ [c]\<rparr>" ci_id
  by unfold_locales
    (auto simp: find_capture_def upd_capture_def row_get_upd row_get_append row_get_Cons
      dest: row_get_key split: option.splits)

text \<open>
  \<open>query_captures\<close>. The full-text match and its rank are those of PostgreSQL (\<open>matches_text\<close>, \<open>text_rank\<close>). The
  \<open>position\<close> is that of the last item of the page before; one item more than the page is fetched.
\<close>

record capture_search =
  cs_matches :: "string \<Rightarrow> string \<Rightarrow> bool"
  cs_rank :: "string \<Rightarrow> string \<Rightarrow> rat"

definition browse_before :: "capture_item \<Rightarrow> instant \<times> uuid \<Rightarrow> bool" where
  "browse_before c position = (ci_created_at c < fst position \<or> ci_created_at c = fst position \<and> ci_id c < snd position)"

definition scoped_captures :: "knowledge_db \<Rightarrow> uuid option \<Rightarrow> string list \<Rightarrow> capture_item list" where
  "scoped_captures s project_id states = [c \<leftarrow> kb_captures s. ci_project_id c = project_id \<and> ci_state c \<in> set states]"

definition browse_order :: "capture_item \<Rightarrow> int \<times> int" where
  "browse_order c = (- ci_created_at c, - int (ci_id c))"

definition query_captures ::
  "capture_search \<Rightarrow> knowledge_db \<Rightarrow> uuid option \<Rightarrow> string list \<Rightarrow> string option \<Rightarrow> nat \<Rightarrow> (instant \<times> uuid \<times> rat option) option \<Rightarrow>
   (capture_item \<times> rat option) list" where
  "query_captures w s project_id states query page_size position =
    (case query of
       None \<Rightarrow>
         map (\<lambda>c. (c, None)) (take (Suc page_size) (sort_key browse_order
           [c \<leftarrow> scoped_captures s project_id states.
              case position of None \<Rightarrow> True | Some (t, i, _) \<Rightarrow> browse_before c (t, i)]))
     | Some q \<Rightarrow>
         map (\<lambda>c. (c, Some (cs_rank w q (ci_content c)))) (take (Suc page_size)
           (sort_key (\<lambda>c. (- cs_rank w q (ci_content c), browse_order c))
             [c \<leftarrow> scoped_captures s project_id states. cs_matches w q (ci_content c) \<and>
                (case position of None \<Rightarrow> True | Some (t, i, r) \<Rightarrow>
                   cs_rank w q (ci_content c) < the r \<or> cs_rank w q (ci_content c) = the r \<and> browse_before c (t, i))])))"

section \<open>Service\<close>

definition validate_scope :: "knowledge_db \<Rightarrow> uuid option \<Rightarrow> capture_error + uuid option" where
  "validate_scope s scope =
    (if (case scope of None \<Rightarrow> False | Some p \<Rightarrow> find_project s p = None) then Inl CaptureProjectNotFoundError else Inr scope)"

definition query_capture_items ::
  "capture_search \<Rightarrow> knowledge_db \<Rightarrow> uuid option \<Rightarrow> string list \<Rightarrow> string option \<Rightarrow> nat \<Rightarrow> (instant \<times> uuid \<times> rat option) option \<Rightarrow>
   capture_error + (capture_view \<times> rat option) list" where
  "query_capture_items w s scope states query page_size position =
    (case validate_scope s scope of
       Inl e \<Rightarrow> Inl e
     | Inr p \<Rightarrow> Inr (map (\<lambda>(c, r). (capture_view_of c, r)) (query_captures w s p states query page_size position)))"

definition detail_capture :: "knowledge_db \<Rightarrow> uuid \<Rightarrow> uuid option \<Rightarrow> capture_error + capture_view" where
  "detail_capture s i scope =
    (case validate_scope s scope of
       Inl e \<Rightarrow> Inl e
     | Inr p \<Rightarrow> (case get_scoped_capture s i p of None \<Rightarrow> Inl CaptureNotFoundError | Some c \<Rightarrow> Inr (capture_view_of c)))"

definition lock_at_revision :: "knowledge_db \<Rightarrow> uuid \<Rightarrow> uuid option \<Rightarrow> nat \<Rightarrow> string \<Rightarrow> capture_error + capture_item" where
  "lock_at_revision s i scope revision expected =
    (case validate_scope s scope of
       Inl e \<Rightarrow> Inl e
     | Inr p \<Rightarrow>
         (case get_scoped_capture s i p of
            None \<Rightarrow> Inl CaptureNotFoundError
          | Some c \<Rightarrow>
              if ci_revision c \<noteq> revision then Inl (CaptureRevisionConflictError (capture_view_of c))
              else if ci_state c \<noteq> expected then Inl CaptureTransitionConflictError
              else Inr c))"

definition lock_pending :: "knowledge_db \<Rightarrow> uuid \<Rightarrow> uuid option \<Rightarrow> nat \<Rightarrow> capture_error + capture_item" where
  "lock_pending s i scope revision = lock_at_revision s i scope revision ''pending''"

text \<open>\<open>_finish_mutation\<close>: the attribute change \<open>f\<close>, the next revision and the flush, which checks the row.\<close>

definition finish_mutation ::
  "capture_item \<Rightarrow> (capture_item \<Rightarrow> capture_item) \<Rightarrow> instant \<Rightarrow> knowledge_db \<Rightarrow> capture_view capture_reply" where
  "finish_mutation c f clock s =
    (let g = (\<lambda>c. (f c)\<lparr>ci_revision := Suc (ci_revision c), ci_updated_at := clock\<rparr>) in
     if capture_checks (g c) then (Inr (capture_view_of (g c)), upd_capture (ci_id c) g s) else (Inl CaptureDatabaseError, s))"

definition edit_capture :: "uuid \<Rightarrow> uuid option \<Rightarrow> nat \<Rightarrow> string \<Rightarrow> instant \<Rightarrow> knowledge_db \<Rightarrow> capture_view capture_reply" where
  "edit_capture i scope revision content clock s =
    (case lock_pending s i scope revision of
       Inl e \<Rightarrow> (Inl e, s)
     | Inr c \<Rightarrow>
         (case normalize_capture_content content of
            Inl e \<Rightarrow> (Inl e, s)
          | Inr normalized \<Rightarrow> finish_mutation c (\<lambda>c. c\<lparr>ci_content := normalized\<rparr>) clock s))"

definition reassign_capture ::
  "uuid \<Rightarrow> uuid option \<Rightarrow> uuid option \<Rightarrow> nat \<Rightarrow> instant \<Rightarrow> knowledge_db \<Rightarrow> capture_view capture_reply" where
  "reassign_capture i scope target_scope revision clock s =
    (case validate_scope s target_scope of
       Inl e \<Rightarrow> (Inl e, s)
     | Inr target \<Rightarrow>
         (case lock_pending s i scope revision of
            Inl e \<Rightarrow> (Inl e, s)
          | Inr c \<Rightarrow> finish_mutation c (\<lambda>c. c\<lparr>ci_project_id := target\<rparr>) clock s))"

definition transition_capture ::
  "uuid \<Rightarrow> uuid option \<Rightarrow> nat \<Rightarrow> string \<Rightarrow> string \<Rightarrow> instant \<Rightarrow> knowledge_db \<Rightarrow> capture_view capture_reply" where
  "transition_capture i scope revision expected target clock s =
    (case lock_at_revision s i scope revision expected of
       Inl e \<Rightarrow> (Inl e, s)
     | Inr c \<Rightarrow> finish_mutation c (\<lambda>c. c\<lparr>ci_state := target\<rparr>) clock s)"

definition discard_capture where
  "discard_capture i scope revision = transition_capture i scope revision ''pending'' ''discarded''"

definition restore_capture where
  "restore_capture i scope revision = transition_capture i scope revision ''discarded'' ''pending''"

definition processed_capture :: "uuid \<Rightarrow> instant \<Rightarrow> capture_item \<Rightarrow> capture_item" where
  "processed_capture source_id now c = c\<lparr>ci_resulting_source_id := Some source_id, ci_processed_at := Some now,
     ci_state := ''processed'', ci_revision := Suc (ci_revision c), ci_updated_at := now\<rparr>"

definition convert_pending ::
  "(string \<Rightarrow> string) \<Rightarrow> capture_item \<Rightarrow> instant \<Rightarrow> instant \<Rightarrow> knowledge_db \<Rightarrow> (capture_view \<times> knowledge_source) capture_reply" where
  "convert_pending sha c clock now s =
    (let (x, s1) = create_source ''capture'' (''Capture '' @ uuid_text (ci_id c)) None (Some (hash_chunk sha (ci_content c))) now s in
     case chunk_text sha (ci_content c) 2000 200 of
       Inl e \<Rightarrow> (Inl (CaptureValueError e), s)
     | Inr chunks \<Rightarrow>
         (let (_, s2) = upsert_text_document (so_id x) (ci_content c) None chunks clock now s1;
              g = processed_capture (so_id x) clock in
          if capture_checks (g c) then (Inr (capture_view_of (g c), x), upd_capture (ci_id c) g s2)
          else (Inl CaptureDatabaseError, s)))"

definition convert_capture ::
  "(string \<Rightarrow> string) \<Rightarrow> uuid \<Rightarrow> uuid option \<Rightarrow> nat \<Rightarrow> instant \<Rightarrow> instant \<Rightarrow> knowledge_db \<Rightarrow>
   (capture_view \<times> knowledge_source) capture_reply" where
  "convert_capture sha i scope revision clock now s =
    (case validate_scope s scope of
       Inl e \<Rightarrow> (Inl e, s)
     | Inr p \<Rightarrow>
         (case get_scoped_capture s i p of
            None \<Rightarrow> (Inl CaptureNotFoundError, s)
          | Some c \<Rightarrow>
              if ci_state c = ''processed'' then
                if \<not> (int revision = int (ci_revision c) - 1 \<or> revision = ci_revision c)
                then (Inl (CaptureRevisionConflictError (capture_view_of c)), s)
                else (case ci_resulting_source_id c of
                        None \<Rightarrow> (Inl CaptureSourceInvalidError, s)
                      | Some k \<Rightarrow>
                          (case get_source_for_scope s k (ExactScope p) of
                             None \<Rightarrow> (Inl CaptureSourceInvalidError, s)
                           | Some x \<Rightarrow> (Inr (capture_view_of c, x), s)))
              else if ci_revision c \<noteq> revision then (Inl (CaptureRevisionConflictError (capture_view_of c)), s)
              else if ci_state c \<noteq> ''pending'' then (Inl CaptureTransitionConflictError, s)
              else convert_pending sha c clock now s))"

definition resolve_capture_source ::
  "knowledge_db \<Rightarrow> uuid \<Rightarrow> uuid option \<Rightarrow> capture_error + capture_view \<times> knowledge_source" where
  "resolve_capture_source s i scope =
    (case validate_scope s scope of
       Inl e \<Rightarrow> Inl e
     | Inr p \<Rightarrow>
         (case get_scoped_capture s i p of
            None \<Rightarrow> Inl CaptureNotFoundError
          | Some c \<Rightarrow>
              if ci_state c \<noteq> ''processed'' \<or> ci_resulting_source_id c = None then Inl CaptureTransitionConflictError
              else (case get_source_for_scope s (the (ci_resulting_source_id c)) (ExactScope p) of
                      None \<Rightarrow> Inl CaptureSourceInvalidError
                    | Some x \<Rightarrow> Inr (capture_view_of c, x))))"

definition new_capture :: "uuid \<Rightarrow> uuid option \<Rightarrow> string \<Rightarrow> string \<Rightarrow> string \<Rightarrow> instant \<Rightarrow> capture_item" where
  "new_capture i project_id content key_hash fingerprint clock = \<lparr> ci_id = i, ci_project_id = project_id,
     ci_content = content, ci_state = ''pending'', ci_revision = 1, ci_created_at = clock, ci_updated_at = clock,
     ci_processed_at = None, ci_resulting_source_id = None, ci_idempotency_key_hash = key_hash,
     ci_request_fingerprint = fingerprint \<rparr>"

text \<open>The result: the item, and whether it was created.\<close>

definition create_capture ::
  "(string \<Rightarrow> string) \<Rightarrow> string \<Rightarrow> string \<Rightarrow> uuid option \<Rightarrow> instant \<Rightarrow> knowledge_db \<Rightarrow> (capture_view \<times> bool) capture_reply" where
  "create_capture sha content key project_id clock s =
    (case normalize_capture_content content of Inl e \<Rightarrow> (Inl e, s) | Inr normalized \<Rightarrow>
     case capture_hash_idempotency_key sha key of Inl e \<Rightarrow> (Inl e, s) | Inr key_hash \<Rightarrow>
     (let fingerprint = request_fingerprint sha normalized project_id in
      if (case project_id of None \<Rightarrow> False | Some p \<Rightarrow> find_project s p = None) then (Inl CaptureProjectNotFoundError, s)
      else
        let (i, s1) = fresh_id s;
            c = new_capture i project_id normalized key_hash fingerprint clock in
        if \<not> capture_checks c then (Inl CaptureDatabaseError, s)
        else
          case insert_capture_on_new_key c s1 of
            (Some c', s2) \<Rightarrow> (Inr (capture_view_of c', True), s2)
          | (None, s2) \<Rightarrow>
              (case get_capture_by_idempotency_hash s2 key_hash of
                 None \<Rightarrow> (Inl CaptureDatabaseError, s)
               | Some original \<Rightarrow>
                   if ci_request_fingerprint original \<noteq> fingerprint then (Inl CaptureIdempotencyConflictError, s)
                   else (Inr (capture_view_of original, False), s2))))"

section \<open>Routes\<close>

text \<open>
  The status and detail that \<open>_mutation\<close> and the other routes give an error; \<open>resolve_capture_source\<close> says of a
  Source it cannot read that the Capture is not found.
\<close>

fun capture_http :: "capture_error \<Rightarrow> nat \<times> string" where
  "capture_http (CaptureValidationError t) = (422, t)"
| "capture_http CaptureProjectNotFoundError = (404, ''project not found'')"
| "capture_http CaptureIdempotencyConflictError = (409, ''capture idempotency conflict'')"
| "capture_http CaptureNotFoundError = (404, ''capture item not found'')"
| "capture_http (CaptureRevisionConflictError v) = (409, ''capture revision conflict'')"
| "capture_http CaptureTransitionConflictError = (409, ''capture transition conflict'')"
| "capture_http CaptureSourceInvalidError = (404, ''source not found'')"
| "capture_http (CaptureValueError t) = (500, t)"
| "capture_http CaptureDatabaseError = (503, ''database unavailable'')"

definition resolve_http :: "capture_error \<Rightarrow> nat \<times> string" where
  "resolve_http e = (case e of CaptureSourceInvalidError \<Rightarrow> (404, ''capture item not found'') | _ \<Rightarrow> capture_http e)"

text \<open>\<open>query_captures\<close> of the routes: the page and the position that the next cursor carries.\<close>

definition capture_page ::
  "capture_search \<Rightarrow> knowledge_db \<Rightarrow> uuid option \<Rightarrow> string list \<Rightarrow> string option \<Rightarrow> nat \<Rightarrow> (instant \<times> uuid \<times> rat option) option \<Rightarrow>
   capture_error + capture_view list \<times> (instant \<times> uuid \<times> rat option) option" where
  "capture_page w s scope states query page_size position =
    (case query_capture_items w s scope states query page_size position of
       Inl e \<Rightarrow> Inl e
     | Inr rows \<Rightarrow>
         (let has_more = page_size < length rows; page = take page_size rows;
              next_cursor = (if has_more then (let (v, r) = last page in Some (cv_created_at v, cv_id v, r)) else None) in
          Inr (map fst page, next_cursor)))"

end
