(* ===== verification/Capture_History.thy ===== *)
theory Capture_History
  imports Capture_Inbox
begin

text \<open>
  The Capture Inbox over every history of its requests: what a request may change in the rows, and the invariant that
  all of them keep.
\<close>

section \<open>Histories of requests\<close>

inductive capture_step :: "(string \<Rightarrow> string) \<Rightarrow> knowledge_db \<Rightarrow> knowledge_db \<Rightarrow> bool" for sha where
  creates: "capture_step sha s (snd (create_capture sha content key p clock s))"
| edits: "capture_step sha s (snd (edit_capture i scope revision content clock s))"
| reassigns: "capture_step sha s (snd (reassign_capture i scope target revision clock s))"
| discards: "capture_step sha s (snd (discard_capture i scope revision clock s))"
| restores: "capture_step sha s (snd (restore_capture i scope revision clock s))"
| converts: "capture_step sha s (snd (convert_capture sha i scope revision clock now s))"

definition capture_rows_ok :: "knowledge_db \<Rightarrow> bool" where
  "capture_rows_ok s \<longleftrightarrow> (\<forall>c \<in> set (kb_captures s). ci_id c < kb_next_id s \<and> capture_checks c \<and>
       (\<forall>k. ci_resulting_source_id c = Some k \<longrightarrow> row_get so_id (kb_sources s) k \<noteq> None)) \<and>
     distinct (map ci_id (kb_captures s)) \<and> (\<forall>x \<in> set (kb_sources s). so_id x < kb_next_id s) \<and>
     (\<forall>c \<in> set (kb_captures s). \<forall>d \<in> set (kb_captures s). ci_resulting_source_id c \<noteq> None \<longrightarrow>
        ci_resulting_source_id d = ci_resulting_source_id c \<longrightarrow> d = c)"

definition capture_evolves :: "capture_item \<Rightarrow> capture_item \<Rightarrow> bool" where
  "capture_evolves c d \<longleftrightarrow> d = c \<or>
     ci_state c \<noteq> ''processed'' \<and> ci_revision c < ci_revision d \<and> ci_id d = ci_id c \<and> ci_created_at d = ci_created_at c \<and>
     ci_idempotency_key_hash d = ci_idempotency_key_hash c \<and> ci_request_fingerprint d = ci_request_fingerprint c"

definition rows_evolve :: "('k \<Rightarrow> capture_item option) \<Rightarrow> ('k \<Rightarrow> capture_item option) \<Rightarrow> bool" where
  "rows_evolve f g \<longleftrightarrow> (\<forall>i c. f i = Some c \<longrightarrow> (\<exists>d. g i = Some d \<and> capture_evolves c d))"

definition captures_evolve :: "knowledge_db \<Rightarrow> knowledge_db \<Rightarrow> bool" where
  "captures_evolve s t \<longleftrightarrow> rows_evolve (find_capture s) (find_capture t) \<and>
     rows_evolve (get_capture_by_idempotency_hash s) (get_capture_by_idempotency_hash t) \<and>
     (\<forall>k x. row_get so_id (kb_sources s) k = Some x \<longrightarrow> row_get so_id (kb_sources t) k = Some x) \<and>
     kb_projects t = kb_projects s"

lemma capture_evolves_refl: "capture_evolves c c"
  by (simp add: capture_evolves_def)

lemma capture_evolves_trans: "capture_evolves a b \<Longrightarrow> capture_evolves b c \<Longrightarrow> capture_evolves a c"
  by (auto simp: capture_evolves_def)

lemma captures_evolve_refl: "captures_evolve s s"
  by (simp add: captures_evolve_def rows_evolve_def capture_evolves_refl)

lemma rows_evolve_trans: "rows_evolve f g \<Longrightarrow> rows_evolve g h \<Longrightarrow> rows_evolve f h"
  unfolding rows_evolve_def by (blast intro: capture_evolves_trans)

lemma captures_evolve_trans: "captures_evolve s t \<Longrightarrow> captures_evolve t u \<Longrightarrow> captures_evolve s u"
  unfolding captures_evolve_def by (elim conjE) (intro conjI; ((rule rows_evolve_trans, assumption, assumption) | simp))

lemma captures_evolve_row: "captures_evolve s t \<Longrightarrow> find_capture s i = Some c \<Longrightarrow> \<exists>d. find_capture t i = Some d \<and> capture_evolves c d"
  unfolding captures_evolve_def rows_evolve_def by blast

lemma captures_evolve_key: "captures_evolve s t \<Longrightarrow> get_capture_by_idempotency_hash s h = Some c \<Longrightarrow>
    \<exists>d. get_capture_by_idempotency_hash t h = Some d \<and> capture_evolves c d"
  unfolding captures_evolve_def rows_evolve_def by blast

lemma capture_evolves_processed: "capture_evolves c d \<Longrightarrow> ci_state c = ''processed'' \<Longrightarrow> d = c"
  by (simp add: capture_evolves_def)

text \<open>A new row changes no other; a change of one row is an evolution if it is one of that row.\<close>

lemma captures_add_ok:
  assumes ok: "capture_rows_ok s" and new: "capture_checks c" "ci_id c = kb_next_id s" "ci_resulting_source_id c = None"
    and t: "kb_captures t = kb_captures s @ [c]" "kb_next_id t = Suc (kb_next_id s)" "kb_sources t = kb_sources s"
      "kb_projects t = kb_projects s"
  shows "capture_rows_ok t \<and> captures_evolve s t"
proof -
  have "capture_rows_ok t" using ok new unfolding capture_rows_ok_def t by (auto simp: less_Suc_eq)
  moreover have "captures_evolve s t"
    by (auto simp: captures_evolve_def rows_evolve_def find_capture_def get_capture_by_idempotency_hash_def find_append t row_get_append
        capture_evolves_refl)
  ultimately show ?thesis ..
qed

lemma captures_frame_ok:
  assumes ok: "capture_rows_ok s" and t: "kb_captures t = kb_captures s" "kb_sources t = kb_sources s"
    "kb_projects t = kb_projects s" "kb_next_id s \<le> kb_next_id t"
  shows "capture_rows_ok t \<and> captures_evolve s t"
proof -
  have "find_capture t = find_capture s" "get_capture_by_idempotency_hash t = get_capture_by_idempotency_hash s"
    by (simp_all add: fun_eq_iff find_capture_def get_capture_by_idempotency_hash_def t)
  then have "captures_evolve s t" by (simp add: captures_evolve_def rows_evolve_def t capture_evolves_refl)
  moreover have "capture_rows_ok t" using ok order.strict_trans2 [OF _ t(4)] unfolding capture_rows_ok_def t by blast
  ultimately show ?thesis by blast
qed

lemma find_upd_key:
  assumes "distinct (map ci_id rows)" "row_get ci_id rows i = Some c" "\<And>x. ci_idempotency_key_hash (g x) = ci_idempotency_key_hash x"
    and "capture_evolves c (g c)" and "find (\<lambda>c. ci_idempotency_key_hash c = h) rows = Some d"
  shows "\<exists>e. find (\<lambda>c. ci_idempotency_key_hash c = h) (row_upd ci_id i g rows) = Some e \<and> capture_evolves d e"
proof -
  have "find (\<lambda>c. ci_idempotency_key_hash c = h) (row_upd ci_id i g rows) =
      map_option (\<lambda>x. if ci_id x = i then g x else x) (find (\<lambda>c. ci_idempotency_key_hash c = h) rows)"
    using assms(3) by (induction rows) (auto simp: row_upd_def)
  moreover have "d \<in> set rows" using assms(5) by (auto simp: find_Some_iff)
  then have "ci_id d = i \<Longrightarrow> d = c" using row_get_distinct [OF assms(1)] assms(2) by force
  ultimately show ?thesis using assms(4,5) by (auto simp: capture_evolves_refl)
qed

lemma captures_upd_ok:
  assumes ok: "capture_rows_ok s" and c: "find_capture s i = Some c"
    and g: "\<And>x. ci_id (g x) = ci_id x" "\<And>x. ci_idempotency_key_hash (g x) = ci_idempotency_key_hash x"
      "capture_checks (g c)" "capture_evolves c (g c)"
    and source: "ci_resulting_source_id (g c) = None \<or> ci_resulting_source_id (g c) = Some (kb_next_id s)"
      "\<And>k. ci_resulting_source_id (g c) = Some k \<Longrightarrow> row_get so_id (kb_sources t) k \<noteq> None"
      "\<And>k x. row_get so_id (kb_sources s) k = Some x \<Longrightarrow> row_get so_id (kb_sources t) k = Some x"
      "\<forall>x \<in> set (kb_sources t). so_id x < kb_next_id t"
    and t: "kb_captures t = row_upd ci_id i g (kb_captures s)" "kb_next_id s \<le> kb_next_id t" "kb_projects t = kb_projects s"
  shows "capture_rows_ok t \<and> captures_evolve s t"
proof
  have dist: "distinct (map ci_id (kb_captures s))" using ok by (simp add: capture_rows_ok_def)
  have only: "x = c" if "x \<in> set (kb_captures s)" "ci_id x = i" for x
    using row_get_distinct [OF dist that(1)] that(2) c by (simp add: find_capture_def)
  have fresh: "ci_resulting_source_id x \<noteq> Some (kb_next_id s)" if member: "x \<in> set (kb_captures s)" for x
  proof
    assume "ci_resulting_source_id x = Some (kb_next_id s)"
    then obtain y where "row_get so_id (kb_sources s) (kb_next_id s) = Some y"
      using ok member unfolding capture_rows_ok_def not_None_eq by blast
    then show False using ok row_get_Some_iff [of so_id "kb_sources s" "kb_next_id s" y] by (auto simp: capture_rows_ok_def)
  qed
  have rows: "x \<in> set (kb_captures t) \<Longrightarrow> x = g c \<and> ci_id x = i \<or> x \<in> set (kb_captures s) \<and> ci_id x \<noteq> i" for x
    using only g(1) by (auto simp: t row_upd_set)
  have cin: "c \<in> set (kb_captures s)" "ci_id c = i" using c by (auto simp: find_capture_def dest: row_get_Some_iff)
  show "capture_rows_ok t"
    unfolding capture_rows_ok_def
  proof (intro conjI ballI impI allI)
    fix x assume x: "x \<in> set (kb_captures t)"
    consider (new) "x = g c" "ci_id x = i" | (old) "x \<in> set (kb_captures s)" "ci_id x \<noteq> i" using rows [OF x] by blast
    note cases = this
    show "ci_id x < kb_next_id t" using cases ok t(2) cin by cases (fastforce simp: capture_rows_ok_def)+
    show "capture_checks x" using cases ok g(3) by cases (auto simp: capture_rows_ok_def)
    show "row_get so_id (kb_sources t) k \<noteq> None" if bound: "ci_resulting_source_id x = Some k" for k
      using cases
    proof cases
      case new
      then show ?thesis using source(2) bound by simp
    next
      case old
      then obtain y where "row_get so_id (kb_sources s) k = Some y"
        using ok bound unfolding capture_rows_ok_def not_None_eq by blast
      then show ?thesis using source(3) by simp
    qed
    fix d assume d: "d \<in> set (kb_captures t)" "ci_resulting_source_id x \<noteq> None" "ci_resulting_source_id d = ci_resulting_source_id x"
    have old: "y \<in> set (kb_captures s) \<Longrightarrow> z \<in> set (kb_captures s) \<Longrightarrow> ci_resulting_source_id y \<noteq> None \<Longrightarrow>
        ci_resulting_source_id z = ci_resulting_source_id y \<Longrightarrow> z = y" for y z
      using ok unfolding capture_rows_ok_def by blast
    show "d = x" using rows [OF x] rows [OF d(1)] d(2,3) old fresh source(1) by metis
  qed (use source(4) in \<open>simp_all add: t row_upd_map [of ci_id g, OF g(1)] dist\<close>)
  show "captures_evolve s t"
    unfolding captures_evolve_def rows_evolve_def
  proof (intro conjI allI impI)
    fix j d assume "find_capture s j = Some d"
    then show "\<exists>e. find_capture t j = Some e \<and> capture_evolves d e"
      using c g(1,4) by (auto simp: find_capture_def t row_get_upd capture_evolves_refl)
  next
    fix h d assume "get_capture_by_idempotency_hash s h = Some d"
    then show "\<exists>e. get_capture_by_idempotency_hash t h = Some e \<and> capture_evolves d e"
      using find_upd_key [OF dist _ g(2,4)] c by (simp add: get_capture_by_idempotency_hash_def t find_capture_def)
  qed (use source(3) t(3) in auto)
qed

section \<open>Every request is an evolution\<close>

definition keeps_captures :: "knowledge_db \<Rightarrow> knowledge_db \<Rightarrow> bool" where
  "keeps_captures s t \<longleftrightarrow> (capture_rows_ok s \<longrightarrow> capture_rows_ok t \<and> captures_evolve s t)"

lemma keeps_refl [simp]: "keeps_captures s s"
  by (simp add: keeps_captures_def captures_evolve_refl)

lemma keeps_finish:
  assumes "find_capture s (ci_id c) = Some c" and "ci_state c \<noteq> ''processed''"
    and "\<And>x. ci_id (f x) = ci_id x" "\<And>x. ci_idempotency_key_hash (f x) = ci_idempotency_key_hash x"
    and "ci_revision (f c) = ci_revision c" "ci_created_at (f c) = ci_created_at c"
      "ci_request_fingerprint (f c) = ci_request_fingerprint c" "ci_resulting_source_id (f c) = None"
  shows "keeps_captures s (snd (finish_mutation c f clock s))"
proof -
  let ?g = "\<lambda>x. (f x)\<lparr>ci_revision := Suc (ci_revision x), ci_updated_at := clock\<rparr>"
  have "capture_rows_ok (upd_capture (ci_id c) ?g s) \<and> captures_evolve s (upd_capture (ci_id c) ?g s)"
    if "capture_checks (?g c)" and ok: "capture_rows_ok s"
    by (rule captures_upd_ok [where g = ?g, OF ok assms(1) _ _ that(1)])
      (use assms ok in \<open>simp_all add: capture_evolves_def upd_capture_def capture_rows_ok_def\<close>)
  then show ?thesis by (simp add: finish_mutation_def Let_def keeps_captures_def captures_evolve_refl)
qed

lemma lock_at_revision_OK:
  "lock_at_revision s i scope revision expected = Inr c \<longleftrightarrow> find_capture s i = Some c \<and> ci_project_id c = scope \<and>
     ci_revision c = revision \<and> ci_state c = expected \<and> (\<forall>p. scope = Some p \<longrightarrow> find_project s p \<noteq> None)"
  by (auto simp: lock_at_revision_def validate_scope_def get_scoped_capture_def split: option.splits if_splits)

lemma capture_of_ok: "capture_rows_ok s \<Longrightarrow> find_capture s i = Some c \<Longrightarrow> capture_checks c"
  by (auto simp: capture_rows_ok_def find_capture_def dest: row_get_in)

lemma capture_unbound: "capture_checks c \<Longrightarrow> ci_state c \<noteq> ''processed'' \<Longrightarrow> ci_resulting_source_id c = None"
  by (simp add: capture_checks_def)

lemma keeps_of: "(capture_rows_ok s \<Longrightarrow> keeps_captures s t) \<Longrightarrow> keeps_captures s t"
  by (simp add: keeps_captures_def)

lemma keeps_transition:
  assumes "expected \<noteq> ''processed''"
  shows "keeps_captures s (snd (transition_capture i scope revision expected target clock s))"
proof (rule keeps_of)
  assume ok: "capture_rows_ok s"
  show ?thesis
  proof (cases "lock_at_revision s i scope revision expected")
    case (Inr c)
    then have c: "find_capture s i = Some c" "ci_id c = i" "ci_state c = expected"
      using captures.get_key by (auto simp: lock_at_revision_OK)
    show ?thesis using Inr c assms capture_unbound [OF capture_of_ok [OF ok c(1)]]
      by (simp add: transition_capture_def) (rule keeps_finish, simp_all)
  qed (simp add: transition_capture_def)
qed

lemma keeps_edit: "keeps_captures s (snd (edit_capture i scope revision content clock s))"
proof (rule keeps_of)
  assume ok: "capture_rows_ok s"
  show ?thesis
  proof (cases "lock_pending s i scope revision")
    case (Inr c)
    then have c: "find_capture s i = Some c" "ci_id c = i" "ci_state c = ''pending''"
      using captures.get_key by (auto simp: lock_at_revision_OK lock_pending_def)
    show ?thesis
    proof (cases "normalize_capture_content content")
      case N: (Inr t)
      show ?thesis using Inr c N capture_unbound [OF capture_of_ok [OF ok c(1)]]
        by (simp add: edit_capture_def) (rule keeps_finish, simp_all)
    qed (use Inr in \<open>simp add: edit_capture_def\<close>)
  qed (simp add: edit_capture_def)
qed

lemma keeps_reassign: "keeps_captures s (snd (reassign_capture i scope target revision clock s))"
proof (rule keeps_of)
  assume ok: "capture_rows_ok s"
  show ?thesis
  proof (cases "lock_pending s i scope revision")
    case (Inr c)
    then have c: "find_capture s i = Some c" "ci_id c = i" "ci_state c = ''pending''"
      using captures.get_key by (auto simp: lock_at_revision_OK lock_pending_def)
    show ?thesis
    proof (cases "validate_scope s target")
      case N: (Inr t)
      show ?thesis using Inr c N capture_unbound [OF capture_of_ok [OF ok c(1)]]
        by (simp add: reassign_capture_def) (rule keeps_finish, simp_all)
    qed (simp add: reassign_capture_def)
  qed (simp add: reassign_capture_def split: sum.splits)
qed

lemma add_chunks_frame:
  "kb_captures (add_chunks d cs s) = kb_captures s \<and> kb_sources (add_chunks d cs s) = kb_sources s \<and>
   kb_projects (add_chunks d cs s) = kb_projects s \<and> kb_next_id s \<le> kb_next_id (add_chunks d cs s)"
proof (induction cs arbitrary: s)
  case (Cons c cs)
  let ?s = "s\<lparr>kb_next_id := Suc (kb_next_id s), kb_chunks := kb_chunks s @ [\<lparr>ck_id = kb_next_id s, ck_document_id = d, ck_text = c\<rparr>]\<rparr>"
  have "kb_next_id ?s \<le> kb_next_id (add_chunks d cs ?s)" using Cons by blast
  then show ?case using Cons [of ?s] by (simp add: fresh_id_def Let_def)
qed simp

lemma upsert_frame:
  "kb_captures (snd (upsert_text_document i t n cs e now s)) = kb_captures s \<and>
   kb_sources (snd (upsert_text_document i t n cs e now s)) = kb_sources s \<and>
   kb_projects (snd (upsert_text_document i t n cs e now s)) = kb_projects s \<and>
   kb_next_id s \<le> kb_next_id (snd (upsert_text_document i t n cs e now s))"
proof -
  have "kb_next_id s \<le> kb_next_id (add_chunks d cs s')" if "kb_next_id s \<le> kb_next_id s'" for d s'
    using add_chunks_frame [of d cs s'] that by linarith
  then show ?thesis
    by (auto simp: upsert_text_document_def upsert_document_def fresh_id_def Let_def remove_chunks_def add_chunks_frame
        split: option.splits)
qed

lemma convert_pending_OK:
  assumes "convert_pending sha c clock now s = (Inr (v, x), t)"
  shows "kb_captures t = row_upd ci_id (ci_id c) (processed_capture (kb_next_id s) clock) (kb_captures s) \<and>
    kb_sources t = kb_sources s @ [x] \<and> so_id x = kb_next_id s \<and> kb_next_id s < kb_next_id t \<and>
    kb_projects t = kb_projects s \<and> capture_checks (processed_capture (kb_next_id s) clock c) \<and>
    v = capture_view_of (processed_capture (kb_next_id s) clock c)"
proof -
  obtain y s1 where x: "create_source ''capture'' (''Capture '' @ uuid_text (ci_id c)) None (Some (hash_chunk sha (ci_content c))) now s
      = (y, s1)" by fastforce
  then have y: "so_id y = kb_next_id s" "kb_sources s1 = kb_sources s @ [y]" "kb_captures s1 = kb_captures s"
      "kb_projects s1 = kb_projects s" "kb_next_id s1 = Suc (kb_next_id s)"
    by (auto simp: create_source_def fresh_id_def Let_def)
  obtain cs where cs: "chunk_text sha (ci_content c) 2000 200 = Inr cs"
    using assms x by (auto simp: convert_pending_def split: sum.splits)
  obtain d s2 where d: "upsert_text_document (so_id y) (ci_content c) None cs clock now s1 = (d, s2)" by fastforce
  have s2: "kb_captures s2 = kb_captures s" "kb_sources s2 = kb_sources s @ [y]" "kb_projects s2 = kb_projects s"
      "kb_next_id s < kb_next_id s2"
    using upsert_frame [of "so_id y" "ci_content c" None cs clock now s1] d y by auto
  show ?thesis using assms x cs d s2 y
    by (auto simp: convert_pending_def upd_capture_def Let_def split: if_splits)
qed

lemma convert_capture_cases:
  assumes "convert_capture sha i scope revision clock now s = (r, t)"
  obtains "t = s"
  | c v x where "find_capture s i = Some c" "ci_id c = i" "ci_state c = ''pending''" "ci_revision c = revision" "ci_project_id c = scope"
      "r = Inr (v, x)" "convert_pending sha c clock now s = (Inr (v, x), t)"
proof (cases "t = s")
  case False
  then have "\<exists>c. find_capture s i = Some c \<and> ci_state c = ''pending'' \<and> ci_revision c = revision \<and> ci_project_id c = scope \<and>
      convert_pending sha c clock now s = (r, t)"
    using assms by (auto simp: convert_capture_def validate_scope_def get_scoped_capture_def split: sum.splits option.splits if_splits)
  then obtain c where c: "find_capture s i = Some c" "ci_state c = ''pending''" "ci_revision c = revision" "ci_project_id c = scope"
      "convert_pending sha c clock now s = (r, t)" by blast
  then have "\<exists>v x. r = Inr (v, x)" using False
    by (auto simp: convert_pending_def Let_def split: prod.splits sum.splits if_splits)
  then show ?thesis using c that(2) captures.get_key [OF c(1)] by blast
qed (rule that(1))

lemma keeps_convert: "keeps_captures s (snd (convert_capture sha i scope revision clock now s))"
proof (rule keeps_of)
  assume ok: "capture_rows_ok s"
  obtain r t where r: "convert_capture sha i scope revision clock now s = (r, t)" by fastforce
  then show ?thesis
  proof (cases rule: convert_capture_cases)
    case 2
    note w = convert_pending_OK [OF 2(7)]
    let ?g = "processed_capture (kb_next_id s) clock"
    have fresh: "row_get so_id (kb_sources s) (kb_next_id s) = None"
      using ok by (auto simp: capture_rows_ok_def row_get_None_iff)
    have "capture_rows_ok t \<and> captures_evolve s t"
      by (rule captures_upd_ok [OF ok 2(1), where g = ?g])
        (use w 2 ok fresh in \<open>auto simp: processed_capture_def capture_evolves_def row_get_append row_get_Cons capture_rows_ok_def
           split: option.splits\<close>)
    then show ?thesis by (simp add: r keeps_captures_def)
  qed (simp add: r)
qed

lemma reply_cases:
  assumes "m = (if A then (Inl e1, s) else if \<not> B then (Inl e2, s)
     else if D then (case found of None \<Rightarrow> (Inl e3, s) | Some c \<Rightarrow> if F c then (Inl e4, s) else (Inr (G c), s'))
     else (Inr h, s''))"
  shows "(\<exists>e. m = (Inl e, s)) \<or> (\<exists>c. found = Some c \<and> m = (Inr (G c), s')) \<or> (\<not> A \<and> B \<and> \<not> D \<and> m = (Inr h, s''))"
  using assms by (cases found) auto

lemma accepted_key: "validate_idempotency_key key = Inr k \<Longrightarrow> k = key"
  by (auto simp: validate_idempotency_key_def split: if_splits)

lemma create_capture_if:
  assumes n: "normalize_capture_content content = Inr n" and k: "validate_idempotency_key key = Inr k"
  shows "create_capture sha content key p clock s =
    (if (case p of None \<Rightarrow> False | Some p \<Rightarrow> find_project s p = None) then (Inl CaptureProjectNotFoundError, s)
     else if \<not> capture_checks (new_capture (kb_next_id s) p n (sha key) (request_fingerprint sha n p) clock)
     then (Inl CaptureDatabaseError, s)
     else if list_ex (\<lambda>x. ci_idempotency_key_hash x = sha key) (kb_captures s)
     then case get_capture_by_idempotency_hash s (sha key) of
            None \<Rightarrow> (Inl CaptureDatabaseError, s)
          | Some c \<Rightarrow> if ci_request_fingerprint c \<noteq> request_fingerprint sha n p then (Inl CaptureIdempotencyConflictError, s)
              else (Inr (capture_view_of c, False), s\<lparr>kb_next_id := Suc (kb_next_id s)\<rparr>)
     else (Inr (capture_view_of (new_capture (kb_next_id s) p n (sha key) (request_fingerprint sha n p) clock), True),
       s\<lparr>kb_next_id := Suc (kb_next_id s), kb_captures := kb_captures s @
         [new_capture (kb_next_id s) p n (sha key) (request_fingerprint sha n p) clock]\<rparr>))"
  using n k accepted_key [OF k]
  by (simp add: create_capture_def capture_hash_idempotency_key_def Let_def fresh_id_def insert_capture_on_new_key_def
      new_capture_def get_capture_by_idempotency_hash_def)

lemma create_capture_cases:
  assumes "create_capture sha content key p clock s = (r, t)"
  obtains (same) "t = s" "\<And>v. r \<noteq> Inr (v, True)"
  | (replay) c where "get_capture_by_idempotency_hash s (sha key) = Some c" "r = Inr (capture_view_of c, False)"
      "kb_captures t = kb_captures s" "t = s\<lparr>kb_next_id := Suc (kb_next_id s)\<rparr>"
  | (new) c n where "normalize_capture_content content = Inr n" "validate_idempotency_key key = Inr key"
      "c = new_capture (kb_next_id s) p n (sha key) (request_fingerprint sha n p) clock" "capture_checks c"
      "\<not> (case p of None \<Rightarrow> False | Some p \<Rightarrow> find_project s p = None)"
      "get_capture_by_idempotency_hash s (sha key) = None" "r = Inr (capture_view_of c, True)"
      "t = s\<lparr>kb_next_id := Suc (kb_next_id s), kb_captures := kb_captures s @ [c]\<rparr>"
proof -
  have absent: "\<not> list_ex (\<lambda>x. ci_idempotency_key_hash x = h) (kb_captures s) \<Longrightarrow> get_capture_by_idempotency_hash s h = None" for h
    by (auto simp: get_capture_by_idempotency_hash_def find_None_iff list_ex_iff)
  note goals = that
  have same: ?thesis if "create_capture sha content key p clock s = (Inl e, s)" for e
    by (rule goals(1)) (use assms that in auto)
  show ?thesis
  proof (cases "normalize_capture_content content")
    case (Inl e)
    then show ?thesis by (intro same) (simp add: create_capture_def)
  next
    case n: (Inr n)
    show ?thesis
    proof (cases "validate_idempotency_key key")
      case (Inl e)
      then show ?thesis using n by (intro same) (simp add: create_capture_def capture_hash_idempotency_key_def)
    next
      case (Inr k)
      let ?c = "new_capture (kb_next_id s) p n (sha key) (request_fingerprint sha n p) clock"
      note step = create_capture_if [OF n Inr, of sha p clock s]
      consider (error) e where "create_capture sha content key p clock s = (Inl e, s)"
        | (old) c where "get_capture_by_idempotency_hash s (sha key) = Some c"
            "create_capture sha content key p clock s = (Inr (capture_view_of c, False), s\<lparr>kb_next_id := Suc (kb_next_id s)\<rparr>)"
        | (fresh) "\<not> (case p of None \<Rightarrow> False | Some p \<Rightarrow> find_project s p = None)" "capture_checks ?c" "\<not> list_ex (\<lambda>x. ci_idempotency_key_hash x = sha key) (kb_captures s)"
            "create_capture sha content key p clock s =
              (Inr (capture_view_of ?c, True), s\<lparr>kb_next_id := Suc (kb_next_id s), kb_captures := kb_captures s @ [?c]\<rparr>)"
        using reply_cases [OF step] by blast
      then show ?thesis
      proof cases
        case error
        then show ?thesis by (rule same)
      next
        case (old c)
        then show ?thesis using assms by (intro goals(2) [OF old(1)]) simp_all
      next
        case fresh
        then show ?thesis using assms Inr accepted_key [OF Inr] by (intro goals(3) [OF n _ refl fresh(2,1) absent]) simp_all
      qed
    qed
  qed
qed

lemma keeps_create: "keeps_captures s (snd (create_capture sha content key p clock s))"
proof (rule keeps_of)
  assume ok: "capture_rows_ok s"
  obtain r t where r: "create_capture sha content key p clock s = (r, t)" by fastforce
  then show ?thesis
  proof (cases rule: create_capture_cases)
    case (replay c)
    then have "capture_rows_ok t \<and> captures_evolve s t"
      by (intro captures_frame_ok [OF ok]) simp_all
    then show ?thesis by (simp add: r keeps_captures_def)
  next
    case (new c n)
    then have "capture_rows_ok t \<and> captures_evolve s t"
      by (intro captures_add_ok [OF ok new(4)]) (simp_all add: new_capture_def)
    then show ?thesis by (simp add: r keeps_captures_def)
  qed (simp add: r)
qed

lemma capture_step_keeps: "capture_step sha s t \<Longrightarrow> keeps_captures s t"
  by (induction rule: capture_step.induct)
    (simp_all add: keeps_create keeps_edit keeps_reassign keeps_convert keeps_transition discard_capture_def restore_capture_def)

interpretation capture_histories: stepwise "capture_step sha" capture_rows_ok captures_evolve for sha
  using capture_step_keeps captures_evolve_refl captures_evolve_trans
  by unfold_locales (auto simp: keeps_captures_def)

end
