(* ===== verification/Capture_Properties.thy ===== *)
theory Capture_Properties
  imports Capture_History
begin

text \<open>
  What the Capture Inbox promises: a change needs the current revision, a conversion happens once, a creation happens
  once per idempotency key, and the pages of a listing give each Capture once.
\<close>

section \<open>The revision fence\<close>

datatype (plugins only: code) capture_change = Edit string | Reassign "uuid option" | Discard | Restore

fun change_capture :: "capture_change \<Rightarrow> uuid \<Rightarrow> uuid option \<Rightarrow> nat \<Rightarrow> instant \<Rightarrow> knowledge_db \<Rightarrow> capture_view capture_reply" where
  "change_capture (Edit content) i scope revision clock s = edit_capture i scope revision content clock s"
| "change_capture (Reassign target) i scope revision clock s = reassign_capture i scope target revision clock s"
| "change_capture Discard i scope revision clock s = discard_capture i scope revision clock s"
| "change_capture Restore i scope revision clock s = restore_capture i scope revision clock s"

lemma change_is_step: "capture_step sha s (snd (change_capture ch i scope revision clock s))"
  by (cases ch) (auto intro: capture_step.intros)

lemma finish_mutation_OK:
  "finish_mutation c f clock s = (Inr v, t) \<longleftrightarrow>
     capture_checks ((f c)\<lparr>ci_revision := Suc (ci_revision c), ci_updated_at := clock\<rparr>) \<and>
     v = capture_view_of ((f c)\<lparr>ci_revision := Suc (ci_revision c), ci_updated_at := clock\<rparr>) \<and>
     t = upd_capture (ci_id c) (\<lambda>c. (f c)\<lparr>ci_revision := Suc (ci_revision c), ci_updated_at := clock\<rparr>) s"
  by (auto simp: finish_mutation_def Let_def)

lemma finish_mutation_Inl: "finish_mutation c f clock s = (Inl e, t) \<Longrightarrow> t = s"
  by (auto simp: finish_mutation_def Let_def split: if_splits)

lemma change_OK:
  assumes "change_capture ch i scope revision clock s = (Inr v, t)"
  shows "\<exists>c f. find_capture s i = Some c \<and> ci_revision c = revision \<and> finish_mutation c f clock s = (Inr v, t) \<and>
    (\<forall>x. ci_id (f x) = ci_id x)"
proof (cases ch)
  case (Edit content)
  then obtain c n where "lock_pending s i scope revision = Inr c"
      "finish_mutation c (\<lambda>c. c\<lparr>ci_content := n\<rparr>) clock s = (Inr v, t)"
    using assms by (auto simp: edit_capture_def split: sum.splits)
  then show ?thesis by (intro exI [of _ c] exI [of _ "\<lambda>c. c\<lparr>ci_content := n\<rparr>"]) (simp add: lock_pending_def lock_at_revision_OK)
next
  case (Reassign target)
  then obtain c p where "lock_pending s i scope revision = Inr c"
      "finish_mutation c (\<lambda>c. c\<lparr>ci_project_id := p\<rparr>) clock s = (Inr v, t)"
    using assms by (auto simp: reassign_capture_def split: sum.splits)
  then show ?thesis by (intro exI [of _ c] exI [of _ "\<lambda>c. c\<lparr>ci_project_id := p\<rparr>"]) (simp add: lock_pending_def lock_at_revision_OK)
next
  case Discard
  then obtain c where "lock_at_revision s i scope revision ''pending'' = Inr c"
      "finish_mutation c (\<lambda>c. c\<lparr>ci_state := ''discarded''\<rparr>) clock s = (Inr v, t)"
    using assms by (auto simp: discard_capture_def transition_capture_def split: sum.splits)
  then show ?thesis by (intro exI [of _ c] exI [of _ "\<lambda>c. c\<lparr>ci_state := ''discarded''\<rparr>"]) (simp add: lock_at_revision_OK)
next
  case Restore
  then obtain c where "lock_at_revision s i scope revision ''discarded'' = Inr c"
      "finish_mutation c (\<lambda>c. c\<lparr>ci_state := ''pending''\<rparr>) clock s = (Inr v, t)"
    using assms by (auto simp: restore_capture_def transition_capture_def split: sum.splits)
  then show ?thesis by (intro exI [of _ c] exI [of _ "\<lambda>c. c\<lparr>ci_state := ''pending''\<rparr>"]) (simp add: lock_at_revision_OK)
qed

lemma change_Inl: "change_capture ch i scope revision clock s = (Inl e, t) \<Longrightarrow> t = s"
  by (cases ch) (auto simp: edit_capture_def reassign_capture_def discard_capture_def restore_capture_def
      transition_capture_def dest: finish_mutation_Inl split: sum.splits)

lemma stale_change:
  assumes "find_capture t i = Some d" and "revision \<noteq> ci_revision d"
  shows "\<exists>e. change_capture ch i scope revision clock t = (Inl e, t)"
proof (cases "change_capture ch i scope revision clock t")
  case (Pair r u)
  then show ?thesis using change_OK [of ch i scope revision clock t _ u] change_Inl [of ch i scope revision clock t _ u] assms
    by (cases r) auto
qed

lemma evolved_capture:
  assumes "capture_rows_ok s" and "(capture_step sha)\<^sup>*\<^sup>* s t" and "find_capture s i = Some c"
  shows "\<exists>d. find_capture t i = Some d \<and> capture_evolves c d"
  using capture_histories.history [OF assms(2,1)] captures_evolve_row assms(3) by blast

lemma changed_capture:
  assumes "capture_rows_ok s" and "change_capture ch i scope revision clock s = (Inr v, s1)"
  shows "\<exists>d. find_capture s1 i = Some d \<and> ci_revision d = Suc revision \<and> v = capture_view_of d"
proof -
  obtain c f where c: "find_capture s i = Some c" "ci_revision c = revision" "finish_mutation c f clock s = (Inr v, s1)"
      "\<forall>x. ci_id (f x) = ci_id x"
    using change_OK [OF assms(2)] by blast
  have "ci_id c = i" by (rule captures.get_key [OF c(1)])
  then show ?thesis using c unfolding finish_mutation_OK by (simp add: captures.get_upd)
qed

text \<open>C37: No lost update. When a change of a Capture (an edit, a reassignment, a discard or a restore) has succeeded, the
  Capture it answers has the next revision; and whatever requests come after it, no other change that was asked for at
  the same revision succeeds: it is refused and nothing is written.\<close>

theorem revision_fences_changes:
  assumes "capture_rows_ok s" and "change_capture ch i scope revision clock s = (Inr v, s1)"
    and "(capture_step sha)\<^sup>*\<^sup>* s1 t"
  shows "cv_revision v = Suc revision \<and> (\<exists>e. change_capture ch' i scope' revision clock' t = (Inl e, t))"
proof -
  obtain d where d: "find_capture s1 i = Some d" "ci_revision d = Suc revision" "v = capture_view_of d"
    using changed_capture [OF assms(1,2)] by blast
  have "capture_rows_ok s1"
    using capture_step_keeps [OF change_is_step [of _ s ch i scope revision clock]] assms(1,2) by (auto simp: keeps_captures_def)
  then obtain c where "find_capture t i = Some c" "capture_evolves d c" using evolved_capture assms(3) d(1) by blast
  then have "\<exists>e. change_capture ch' i scope' revision clock' t = (Inl e, t)"
    using d(2) by (intro stale_change) (auto simp: capture_evolves_def)
  then show ?thesis using d(2,3) by (simp add: capture_view_of_def)
qed

section \<open>Creation\<close>

text \<open>C38: Creation is idempotent. After a request has created a Capture, and after any requests in between, the same
  request answers that same Capture as it then is, marks it as not created and adds no row; and no request with the same
  key, whatever it asks for, creates a second Capture.\<close>

theorem capture_creation_is_idempotent:
  assumes "capture_rows_ok s" and "create_capture sha content key p clock s = (Inr (v, True), s1)"
    and "(capture_step sha)\<^sup>*\<^sup>* s1 t"
  shows "(\<exists>d. find_capture t (cv_id v) = Some d \<and> fst (create_capture sha content key p clock' t) = Inr (capture_view_of d, False)) \<and>
    kb_captures (snd (create_capture sha content' key p' clock' t)) = kb_captures t \<and>
    (\<forall>w. fst (create_capture sha content' key p' clock' t) \<noteq> Inr (w, True))"
proof -
  obtain c n where c: "normalize_capture_content content = Inr n" "validate_idempotency_key key = Inr key"
      "c = new_capture (kb_next_id s) p n (sha key) (request_fingerprint sha n p) clock" "capture_checks c"
      "\<not> (case p of None \<Rightarrow> False | Some p \<Rightarrow> find_project s p = None)"
      "get_capture_by_idempotency_hash s (sha key) = None" "v = capture_view_of c"
      "s1 = s\<lparr>kb_next_id := Suc (kb_next_id s), kb_captures := kb_captures s @ [c]\<rparr>"
    using assms(2) by (cases rule: create_capture_cases) auto
  have "capture_step sha s s1" using assms(2) capture_step.creates [of sha s content key p clock] by simp
  then have ok: "capture_rows_ok s1" using capture_step_keeps assms(1) by (auto simp: keeps_captures_def)
  have t: "capture_rows_ok t" "captures_evolve s1 t" using capture_histories.history [OF assms(3) ok] by blast+
  have "get_capture_by_idempotency_hash s1 (sha key) = Some c"
    using c(3,6) by (simp add: c(8) get_capture_by_idempotency_hash_def find_append new_capture_def)
  then obtain d where d: "get_capture_by_idempotency_hash t (sha key) = Some d" "capture_evolves c d"
    using captures_evolve_key [OF t(2)] by blast
  have member: "d \<in> set (kb_captures t)" using d(1) by (auto simp: get_capture_by_idempotency_hash_def find_Some_iff)
  with d have same: "d \<in> set (kb_captures t)" "ci_id d = ci_id c" "ci_idempotency_key_hash d = sha key"
      "ci_request_fingerprint d = request_fingerprint sha n p"
    using c(3) by (auto simp: capture_evolves_def get_capture_by_idempotency_hash_def find_Some_iff new_capture_def)
  have "find_capture t (cv_id v) = Some d"
    using row_get_distinct [of ci_id "kb_captures t", OF _ same(1)] t(1) same(2) by (simp add: capture_rows_ok_def find_capture_def c(7) capture_view_of_def)
  moreover have "kb_projects t = kb_projects s" using t(2) c(8) by (simp add: captures_evolve_def)
  then have "fst (create_capture sha content key p clock' t) = Inr (capture_view_of d, False)"
    using c(3-5) d(1) same
    by (auto simp: create_capture_if [OF c(1,2)] find_project_def list_ex_iff capture_checks_def new_capture_def split: option.splits)
  moreover obtain r u where r: "create_capture sha content' key p' clock' t = (r, u)" by fastforce
  then have "kb_captures u = kb_captures t \<and> (\<forall>w. r \<noteq> Inr (w, True))"
    by (cases rule: create_capture_cases) (use d(1) in auto)
  ultimately show ?thesis using r by simp
qed

section \<open>Conversion\<close>

text \<open>C39: A Capture is converted once. After a request has made a Source of a pending Capture, and after any requests in
  between, a repeated conversion at the revision before or after it answers the same Capture and the same Source and writes
  nothing, at any other revision it is refused, and the Capture resolves to that Source in its scope.\<close>

theorem capture_conversion_happens_once:
  assumes "capture_rows_ok s" and "find_capture s i = Some c" and "ci_state c = ''pending''"
    and "convert_capture sha i scope revision clock now s = (Inr (v, x), s1)" and "(capture_step sha)\<^sup>*\<^sup>* s1 t"
  shows "convert_capture sha i scope r clock' now' t =
      (if r = revision \<or> r = Suc revision then (Inr (v, x), t) else (Inl (CaptureRevisionConflictError v), t)) \<and>
    resolve_capture_source t i scope = Inr (v, x)"
proof -
  have w: "ci_id c = i" "ci_revision c = revision" "ci_project_id c = scope" "convert_pending sha c clock now s = (Inr (v, x), s1)"
    using assms(2-4) captures.get_key [OF assms(2)]
    by (auto simp: convert_capture_def validate_scope_def get_scoped_capture_def split: option.splits sum.splits if_splits)
  have scope: "\<not> (case scope of None \<Rightarrow> False | Some p \<Rightarrow> find_project s p = None)"
    using assms(4) by (auto simp: convert_capture_def validate_scope_def split: if_splits)
  note p = convert_pending_OK [OF w(4)]
  let ?d = "processed_capture (kb_next_id s) clock c"
  have "capture_step sha s s1" using assms(4) capture_step.converts [of sha s i scope revision clock now] by simp
  then have "capture_rows_ok s1" using capture_step_keeps assms(1) by (auto simp: keeps_captures_def)
  then have t: "capture_rows_ok t" "captures_evolve s1 t" using capture_histories.history [OF assms(5)] by blast+
  have "find_capture s1 i = Some ?d"
    using p assms(2) w(1) by (simp add: find_capture_def row_get_upd processed_capture_def)
  then have d: "find_capture t i = Some ?d"
    using captures_evolve_row [OF t(2)] capture_evolves_processed by (fastforce simp: processed_capture_def)
  have fresh: "row_get so_id (kb_sources s) (kb_next_id s) = None"
    using assms(1) by (auto simp: capture_rows_ok_def row_get_None_iff)
  then have "row_get so_id (kb_sources s1) (so_id x) = Some x" using p by (simp add: row_get_append row_get_Cons)
  then have x: "row_get so_id (kb_sources t) (kb_next_id s) = Some x" using t(2) p by (simp add: captures_evolve_def)
  have "?d \<in> set (kb_captures t)" using d by (auto simp: find_capture_def dest: row_get_in)
  then have "source_access t (ExactScope scope) (kb_next_id s)"
    using w(3) by (auto simp: source_access_def source_bindings_def list_ex_iff processed_capture_def)
  then have source: "get_source_for_scope t (kb_next_id s) (ExactScope scope) = Some x"
    using x by (simp add: get_source_for_scope_def)
  have "kb_projects t = kb_projects s" using t(2) p by (simp add: captures_evolve_def)
  then have "validate_scope t scope = Inr scope" using scope by (auto simp: validate_scope_def find_project_def split: option.splits)
  then show ?thesis
    using d source p w(2,3)
    by (auto simp: convert_capture_def resolve_capture_source_def get_scoped_capture_def processed_capture_def)
qed

section \<open>The pages of a listing\<close>

definition in_listing :: "capture_search \<Rightarrow> uuid option \<Rightarrow> string list \<Rightarrow> string option \<Rightarrow> capture_item \<Rightarrow> bool" where
  "in_listing w p states query c \<longleftrightarrow> ci_project_id c = p \<and> ci_state c \<in> set states \<and>
     (case query of None \<Rightarrow> True | Some q \<Rightarrow> cs_matches w q (ci_content c))"

definition listing_rank :: "capture_search \<Rightarrow> string option \<Rightarrow> capture_item \<Rightarrow> rat option" where
  "listing_rank w query c = (case query of None \<Rightarrow> None | Some q \<Rightarrow> Some (cs_rank w q (ci_content c)))"

text \<open>The whole listing, and whether \<open>c\<close> comes strictly after the place of \<open>a\<close> in it.\<close>

definition listing :: "capture_search \<Rightarrow> knowledge_db \<Rightarrow> uuid option \<Rightarrow> string list \<Rightarrow> string option \<Rightarrow> capture_item list" where
  "listing w s p states query = (case query of
     None \<Rightarrow> sort_key browse_order [c \<leftarrow> kb_captures s. in_listing w p states query c]
   | Some q \<Rightarrow> sort_key (\<lambda>c. (- cs_rank w q (ci_content c), browse_order c)) [c \<leftarrow> kb_captures s. in_listing w p states query c])"

definition listed_after :: "capture_search \<Rightarrow> string option \<Rightarrow> capture_item \<Rightarrow> capture_item \<Rightarrow> bool" where
  "listed_after w query a c = (case query of
     None \<Rightarrow> browse_before c (ci_created_at a, ci_id a)
   | Some q \<Rightarrow> cs_rank w q (ci_content c) < cs_rank w q (ci_content a) \<or>
       cs_rank w q (ci_content c) = cs_rank w q (ci_content a) \<and> browse_before c (ci_created_at a, ci_id a))"

definition place_of :: "capture_search \<Rightarrow> string option \<Rightarrow> capture_item \<Rightarrow> instant \<times> uuid \<times> rat option" where
  "place_of w query c = (ci_created_at c, ci_id c, listing_rank w query c)"

lemma query_captures_start:
  "query_captures w s p states query n None = map (\<lambda>c. (c, listing_rank w query c)) (take (Suc n) (listing w s p states query))"
  by (cases query) (simp_all add: query_captures_def listing_def listing_rank_def in_listing_def [abs_def] scoped_captures_def conj_assoc)

lemma query_captures_after:
  "query_captures w s p states query n (Some (place_of w query a)) =
   map (\<lambda>c. (c, listing_rank w query c)) (take (Suc n) (filter (listed_after w query a) (listing w s p states query)))"
  by (cases query)
    (simp_all add: query_captures_def listing_def listing_rank_def in_listing_def [abs_def] scoped_captures_def place_of_def
      listed_after_def filter_sort conj_assoc)

lemma listed_after_asym: "listed_after w query a b \<Longrightarrow> \<not> listed_after w query b a"
  by (auto simp: listed_after_def browse_before_def split: option.splits)

lemma listing_ordered:
  assumes "capture_rows_ok s"
  shows "sorted_wrt (listed_after w query) (listing w s p states query)"
proof -
  let ?L = "listing w s p states query"
  have dist: "distinct (map ci_id ?L)"
    using assms by (auto simp: listing_def capture_rows_ok_def distinct_map inj_on_def split: option.splits)
  have "listed_after w query (?L ! i) (?L ! j)" if ij: "i < j" "j < length ?L" for i j
  proof -
    have "ci_id (?L ! i) \<noteq> ci_id (?L ! j)" using nth_eq_iff_index_eq [OF dist, of i j] ij by simp
    moreover have "(case query of None \<Rightarrow> browse_order (?L ! i) \<le> browse_order (?L ! j)
      | Some q \<Rightarrow> (- cs_rank w q (ci_content (?L ! i)), browse_order (?L ! i)) \<le> (- cs_rank w q (ci_content (?L ! j)), browse_order (?L ! j)))"
    proof (cases query)
      case None
      then have "sorted (map browse_order ?L)" by (simp add: listing_def)
      then show ?thesis using sorted_nth_mono [of "map browse_order ?L" i j] ij None by simp
    next
      case (Some q)
      let ?f = "\<lambda>c. (- cs_rank w q (ci_content c), browse_order c)"
      have "sorted (map ?f ?L)" using Some by (simp add: listing_def)
      then show ?thesis using sorted_nth_mono [of "map ?f ?L" i j] ij Some by simp
    qed
    ultimately show ?thesis
      by (auto simp: listed_after_def browse_order_def browse_before_def less_eq_prod_def split: option.splits)
  qed
  then show ?thesis by (simp add: sorted_wrt_iff_nth_less)
qed

lemma filter_after_nth:
  assumes "sorted_wrt R xs" and "\<And>a b. R a b \<Longrightarrow> \<not> R b a" and "k < length xs"
  shows "filter (R (xs ! k)) xs = drop (Suc k) xs"
proof -
  have xs: "xs = take k xs @ xs ! k # drop (Suc k) xs" by (rule id_take_nth_drop [OF assms(3)])
  have "sorted_wrt R (take k xs @ xs ! k # drop (Suc k) xs)" using assms(1) xs by simp
  then have "\<forall>y \<in> set (take k xs). R y (xs ! k)" "\<forall>y \<in> set (drop (Suc k) xs). R (xs ! k) y"
    by (simp_all add: sorted_wrt_append)
  then have "filter (R (xs ! k)) (take k xs @ xs ! k # drop (Suc k) xs) = drop (Suc k) xs"
    using assms(2) by (auto simp: filter_empty_conv filter_id_conv)
  then show ?thesis using xs by simp
qed

lemma page_of_listing:
  assumes scope: "validate_scope s p = Inr p" and n: "0 < n"
    and rows: "query_captures w s p states query n position = map (\<lambda>c. (c, listing_rank w query c)) (take (Suc n) L)"
  shows "capture_page w s p states query n position = Inr (map capture_view_of (take n L),
    if n < length L then Some (place_of w query (L ! (n - 1))) else None)"
proof -
  have last: "last (take n L) = L ! (n - 1)" if "n < length L"
    using that n by (subst last_conv_nth) (auto simp: min_def)
  have "take n (take (Suc n) L) = take n L" by (simp add: min_def)
  define f where "f c = (capture_view_of c, listing_rank w query c)" for c
  have pages: "take n (map f (take (Suc n) L)) = map f (take n L)" using \<open>take n (take (Suc n) L) = take n L\<close> by (simp add: take_map)
  have f: "fst \<circ> f = capture_view_of" by (auto simp: f_def)
  have rows': "query_capture_items w s p states query n position = Inr (map f (take (Suc n) L))"
    using scope rows by (simp add: query_capture_items_def f_def)
  have "last (map f (take n L)) = f (L ! (n - 1))" if "n < length L"
    using last [OF that] that n by (subst last_map) auto
  then show ?thesis unfolding capture_page_def rows' using pages f
    by (auto simp: Let_def) (simp_all add: f_def place_of_def capture_view_of_def)
qed

text \<open>A reader that follows the cursor of every page, for at most \<open>fuel\<close> pages.\<close>

fun read_pages :: "nat \<Rightarrow> capture_search \<Rightarrow> knowledge_db \<Rightarrow> uuid option \<Rightarrow> string list \<Rightarrow> string option \<Rightarrow> nat \<Rightarrow>
  (instant \<times> uuid \<times> rat option) option \<Rightarrow> capture_view list" where
  "read_pages 0 w s p states query n position = []"
| "read_pages (Suc fuel) w s p states query n position =
     (case capture_page w s p states query n position of
        Inl e \<Rightarrow> []
      | Inr (items, None) \<Rightarrow> items
      | Inr (items, Some next_position) \<Rightarrow> items @ read_pages fuel w s p states query n (Some next_position))"

lemma read_pages_from:
  assumes ok: "capture_rows_ok s" and scope: "validate_scope s p = Inr p" and n: "0 < n"
    and "length (drop m (listing w s p states query)) < fuel"
    and "m = 0 \<and> position = None \<or>
      0 < m \<and> m \<le> length (listing w s p states query) \<and> position = Some (place_of w query (listing w s p states query ! (m - 1)))"
  shows "read_pages fuel w s p states query n position = map capture_view_of (drop m (listing w s p states query))"
  using assms(4,5)
proof (induction fuel arbitrary: m position)
  case (Suc fuel)
  let ?L = "listing w s p states query"
  have "query_captures w s p states query n position = map (\<lambda>c. (c, listing_rank w query c)) (take (Suc n) (drop m ?L))"
    using Suc.prems(2)
  proof
    assume m: "0 < m \<and> m \<le> length ?L \<and> position = Some (place_of w query (?L ! (m - 1)))"
    then have "filter (listed_after w query (?L ! (m - 1))) ?L = drop (Suc (m - 1)) ?L"
      by (intro filter_after_nth [OF listing_ordered [OF ok]]) (auto simp: listed_after_asym)
    then show ?thesis using m by (simp add: query_captures_after)
  qed (simp add: query_captures_start)
  note page = page_of_listing [OF scope n this]
  show ?case
  proof (cases "n < length (drop m ?L)")
    case True
    then have "drop m ?L ! (n - 1) = ?L ! (m + n - 1)" using n by simp
    moreover have "read_pages fuel w s p states query n (Some (place_of w query (?L ! (m + n - 1)))) = map capture_view_of (drop (m + n) ?L)"
      by (rule Suc.IH) (use True n Suc.prems(1) in auto)
    moreover have "drop m ?L = take n (drop m ?L) @ drop (m + n) ?L"
      using append_take_drop_id [of n "drop m ?L"] by (simp add: add.commute)
    ultimately show ?thesis using True page by (simp flip: map_append)
  next
    case False
    then show ?thesis using page by simp
  qed
qed simp


section \<open>The theorems on concrete Captures\<close>

definition some_sha :: "string \<Rightarrow> string" where "some_sha t = replicate 63 CHR ''0'' @ (if t = ''key-0001'' then ''1'' else ''2'')"

definition one_capture :: knowledge_db where
  "one_capture = snd (create_capture some_sha ''buy milk'' ''key-0001'' None 5 empty_knowledge)"

lemma one_capture_created: "create_capture some_sha ''buy milk'' ''key-0001'' None 5 empty_knowledge =
    (Inr (capture_view_of (hd (kb_captures one_capture)), True), one_capture)"
  by code_simp

lemma empty_captures_ok: "capture_rows_ok empty_knowledge"
  by (simp add: capture_rows_ok_def empty_knowledge_def)

lemma one_capture_ok: "capture_rows_ok one_capture"
  using keeps_create [of empty_knowledge some_sha "''buy milk''" "''key-0001''" None 5] empty_captures_ok one_capture_created
  by (simp add: keeps_captures_def)

definition edited_capture :: knowledge_db where
  "edited_capture = snd (change_capture (Edit ''buy tea'') 1 None 1 7 one_capture)"

lemma capture_edited: "change_capture (Edit ''buy tea'') 1 None 1 7 one_capture =
    (Inr (capture_view_of (hd (kb_captures edited_capture))), edited_capture)"
  by code_simp

lemma edited_step: "(capture_step sha)\<^sup>*\<^sup>* one_capture edited_capture"
  using change_is_step [of sha one_capture "Edit ''buy tea''" 1 None 1 7] by (simp add: edited_capture_def r_into_rtranclp)

theorem revision_fences_changes_witness:
  "\<exists>e. change_capture Discard 1 None 1 9 edited_capture = (Inl e, edited_capture)"
  using revision_fences_changes [OF one_capture_ok capture_edited rtranclp.rtrancl_refl] by blast

theorem capture_creation_is_idempotent_witness:
  "kb_captures (snd (create_capture some_sha ''sell milk'' ''key-0001'' None 9 edited_capture)) = kb_captures edited_capture"
  using capture_creation_is_idempotent [OF empty_captures_ok one_capture_created edited_step] by blast

definition converted_capture :: knowledge_db where
  "converted_capture = snd (convert_capture some_sha 1 None 1 7 8 one_capture)"

lemma capture_converted: "convert_capture some_sha 1 None 1 7 8 one_capture =
    (Inr (capture_view_of (hd (kb_captures converted_capture)), hd (kb_sources converted_capture)), converted_capture)"
  by code_simp

lemma one_capture_pending: "find_capture one_capture 1 = Some (hd (kb_captures one_capture))" by code_simp

lemma one_capture_state: "ci_state (hd (kb_captures one_capture)) = ''pending''" by code_simp

theorem capture_conversion_happens_once_witness:
  "resolve_capture_source converted_capture 1 None =
     Inr (capture_view_of (hd (kb_captures converted_capture)), hd (kb_sources converted_capture))"
  using capture_conversion_happens_once [OF one_capture_ok one_capture_pending one_capture_state capture_converted
    rtranclp.rtrancl_refl] by blast

definition two_captures :: knowledge_db where
  "two_captures = snd (create_capture some_sha ''buy tea'' ''key-0002'' None 5 one_capture)"

lemma two_captures_ok: "capture_rows_ok two_captures"
  using keeps_create [of one_capture some_sha "''buy tea''" "''key-0002''" None 5] one_capture_ok
  by (simp add: keeps_captures_def two_captures_def)

lemma two_captures_scope: "validate_scope two_captures None = Inr None"
  by (simp add: validate_scope_def)

lemma two_captures_length: "length (kb_captures two_captures) < 3" by code_simp


end
