(* ===== verification/Memory_Search.thy ===== *)
theory Memory_Search
  imports Memory_Extraction
begin

text \<open>
  The searches of Memories (\<open>app/repositories/memories.py\<close>) and the explanation that the route gives of a ranked result
  (\<open>app/api/routes/memories.py\<close>, \<open>app/schemas/memory.py\<close>). The full-text match and its rank and the cosine distance are
  those of PostgreSQL and pgvector: parameters. A window function numbers the rows of its order from one.
\<close>

section \<open>Filters and rankings\<close>

record search_world =
  sw_matches :: "string \<Rightarrow> memory \<Rightarrow> bool"
  sw_rank :: "string \<Rightarrow> memory \<Rightarrow> rat"
  sw_distance :: "rat list \<Rightarrow> rat list \<Rightarrow> rat"

record memory_filters =
  mf_project_id :: "uuid option"
  mf_memory_type :: "string option"
  mf_status :: "string option"
  mf_importance_min :: "rat option"
  mf_importance_max :: "rat option"
  mf_confidence_min :: "rat option"
  mf_confidence_max :: "rat option"
  mf_event_time_from :: "instant option"
  mf_event_time_to :: "instant option"
  mf_created_at_from :: "instant option"
  mf_created_at_to :: "instant option"

definition ordered_range :: "'a::linorder option \<Rightarrow> 'a option \<Rightarrow> bool" where
  "ordered_range lower upper = (case (lower, upper) of (Some l, Some u) \<Rightarrow> l \<le> u | _ \<Rightarrow> True)"

definition require_ordered_ranges :: "memory_filters \<Rightarrow> bool" where
  "require_ordered_ranges f \<longleftrightarrow> ordered_range (mf_importance_min f) (mf_importance_max f) \<and>
     ordered_range (mf_confidence_min f) (mf_confidence_max f) \<and>
     ordered_range (mf_event_time_from f) (mf_event_time_to f) \<and>
     ordered_range (mf_created_at_from f) (mf_created_at_to f)"

text \<open>A comparison with a column that is NULL is not true.\<close>

definition column_eq :: "'a option \<Rightarrow> 'a option \<Rightarrow> bool" where
  "column_eq value column = (value = None \<or> column = value)"

definition column_from :: "instant option \<Rightarrow> instant option \<Rightarrow> bool" where
  "column_from value column = (case value of None \<Rightarrow> True | Some v \<Rightarrow> (case column of None \<Rightarrow> False | Some c \<Rightarrow> v \<le> c))"

definition column_to :: "instant option \<Rightarrow> instant option \<Rightarrow> bool" where
  "column_to value column = (case value of None \<Rightarrow> True | Some v \<Rightarrow> (case column of None \<Rightarrow> False | Some c \<Rightarrow> c \<le> v))"

definition apply_structured_filters :: "memory_filters \<Rightarrow> memory \<Rightarrow> bool" where
  "apply_structured_filters f m \<longleftrightarrow> column_eq (mf_project_id f) (me_project_id m) \<and>
     matches (mf_memory_type f) (me_memory_type m) \<and> matches (mf_status f) (me_status m) \<and>
     at_least (mf_importance_min f) (me_importance m) \<and> at_most (mf_importance_max f) (me_importance m) \<and>
     at_least (mf_confidence_min f) (me_confidence m) \<and> at_most (mf_confidence_max f) (me_confidence m) \<and>
     column_from (mf_event_time_from f) (me_event_time m) \<and> column_to (mf_event_time_to f) (me_event_time m) \<and>
     at_least (mf_created_at_from f) (me_created_at m) \<and> at_most (mf_created_at_to f) (me_created_at m)"

text \<open>The common end of every order: newest first, then by identifier.\<close>

definition newest :: "memory \<Rightarrow> int \<times> nat" where
  "newest m = (- me_created_at m, me_id m)"

definition lexical_order :: "search_world \<Rightarrow> string \<Rightarrow> memory \<Rightarrow> rat \<times> int \<times> nat" where
  "lexical_order w query m = (- sw_rank w query m, newest m)"

text \<open>The join with the embedding, whose \<open>memory_id\<close> is unique.\<close>

definition embedding_of :: "knowledge_db \<Rightarrow> memory \<Rightarrow> memory_embedding option" where
  "embedding_of s m = find_embedding s (me_id m)"

definition vector_distance :: "search_world \<Rightarrow> knowledge_db \<Rightarrow> rat list \<Rightarrow> memory \<Rightarrow> rat" where
  "vector_distance w s vector m =
    (case embedding_of s m of None \<Rightarrow> 0 | Some e \<Rightarrow> sw_distance w (eb_embedding e) vector)"

definition semantic_order :: "search_world \<Rightarrow> knowledge_db \<Rightarrow> rat list \<Rightarrow> memory \<Rightarrow> rat \<times> int \<times> nat" where
  "semantic_order w s vector m = (vector_distance w s vector m, newest m)"

definition lexical_ranking :: "search_world \<Rightarrow> knowledge_db \<Rightarrow> string \<Rightarrow> (memory \<Rightarrow> bool) \<Rightarrow> memory list" where
  "lexical_ranking w s query keep =
     sort_key (lexical_order w query) [m \<leftarrow> kb_memories s. sw_matches w query m \<and> keep m]"

definition semantic_ranking :: "search_world \<Rightarrow> knowledge_db \<Rightarrow> rat list \<Rightarrow> (memory \<Rightarrow> bool) \<Rightarrow> memory list" where
  "semantic_ranking w s vector keep =
     sort_key (semantic_order w s vector) [m \<leftarrow> kb_memories s. embedding_of s m \<noteq> None \<and> keep m]"

definition search_page :: "nat \<Rightarrow> nat \<Rightarrow> 'a list \<Rightarrow> 'a list" where
  "search_page limit offset rows = take limit (drop offset rows)"

section \<open>Listing and semantic search\<close>

definition list_memories ::
  "search_world \<Rightarrow> knowledge_db \<Rightarrow> string option \<Rightarrow> memory_filters \<Rightarrow> nat \<Rightarrow> nat \<Rightarrow> memory list" where
  "list_memories w s query f limit offset = search_page limit offset
    (case query of
       None \<Rightarrow> sort_key newest [m \<leftarrow> kb_memories s. apply_structured_filters f m]
     | Some q \<Rightarrow> lexical_ranking w s q (apply_structured_filters f))"

definition search_memories ::
  "search_world \<Rightarrow> knowledge_db \<Rightarrow> rat list \<Rightarrow> memory_filters \<Rightarrow> nat \<Rightarrow> nat \<Rightarrow> memory list" where
  "search_memories w s vector f limit offset = search_page limit offset (semantic_ranking w s vector (apply_structured_filters f))"

section \<open>Hybrid search\<close>

definition RRF_K :: nat where "RRF_K = 60"

definition hybrid_candidate_limit :: "nat \<Rightarrow> nat \<Rightarrow> nat" where
  "hybrid_candidate_limit limit offset = min 1000 (max 100 ((limit + offset) * 5))"

text \<open>The rank of a Memory among the first \<open>window\<close> rows of a ranking: the outer join with the candidates.\<close>

definition candidate_rank :: "nat \<Rightarrow> memory list \<Rightarrow> memory \<Rightarrow> nat option" where
  "candidate_rank window ranking m =
     map_option fst (find (\<lambda>(k, x). me_id x = me_id m) (enumerate 1 (take window ranking)))"

definition contribution :: "nat option \<Rightarrow> rat option" where
  "contribution rank = map_option (\<lambda>k. 1 / of_nat (RRF_K + k)) rank"

definition coalesce0 :: "rat option \<Rightarrow> rat" where
  "coalesce0 x = (case x of None \<Rightarrow> 0 | Some v \<Rightarrow> v)"

definition rrf_score :: "nat \<Rightarrow> memory list \<Rightarrow> memory list \<Rightarrow> memory \<Rightarrow> rat" where
  "rrf_score window lexical semantic m =
     coalesce0 (contribution (candidate_rank window lexical m)) + coalesce0 (contribution (candidate_rank window semantic m))"

text \<open>The Memories that are a candidate of a channel, in the order of the fused score.\<close>

definition fused_ranking :: "knowledge_db \<Rightarrow> nat \<Rightarrow> memory list \<Rightarrow> memory list \<Rightarrow> memory list" where
  "fused_ranking s window lexical semantic = sort_key (\<lambda>m. (- rrf_score window lexical semantic m, newest m))
     [m \<leftarrow> kb_memories s. candidate_rank window lexical m \<noteq> None \<or> candidate_rank window semantic m \<noteq> None]"

definition search_memories_hybrid ::
  "search_world \<Rightarrow> knowledge_db \<Rightarrow> string \<Rightarrow> rat list \<Rightarrow> memory_filters \<Rightarrow> nat \<Rightarrow> nat \<Rightarrow> memory list" where
  "search_memories_hybrid w s query vector f limit offset =
    (let keep = apply_structured_filters f in
     search_page limit offset (fused_ranking s (hybrid_candidate_limit limit offset) (lexical_ranking w s query keep)
       (semantic_ranking w s vector keep)))"

section \<open>Explained search\<close>

datatype (plugins only: code) search_mode = Lexical | Semantic | Hybrid

record explained_result =
  xm_rank :: nat
  xm_memory :: memory
  xm_lexical_rank :: "nat option"
  xm_semantic_rank :: "nat option"
  xm_lexical_score :: "rat option"
  xm_semantic_distance :: "rat option"
  xm_lexical_rrf :: "rat option"
  xm_semantic_rrf :: "rat option"
  xm_fused_rrf :: "rat option"

definition lexical_result :: "search_world \<Rightarrow> string \<Rightarrow> nat \<times> memory \<Rightarrow> explained_result" where
  "lexical_result w query r = \<lparr> xm_rank = fst r, xm_memory = snd r, xm_lexical_rank = Some (fst r), xm_semantic_rank = None,
     xm_lexical_score = Some (sw_rank w query (snd r)), xm_semantic_distance = None, xm_lexical_rrf = None,
     xm_semantic_rrf = None, xm_fused_rrf = None \<rparr>"

definition semantic_result :: "search_world \<Rightarrow> knowledge_db \<Rightarrow> rat list \<Rightarrow> nat \<times> memory \<Rightarrow> explained_result" where
  "semantic_result w s vector r = \<lparr> xm_rank = fst r, xm_memory = snd r, xm_lexical_rank = None, xm_semantic_rank = Some (fst r),
     xm_lexical_score = None, xm_semantic_distance = Some (vector_distance w s vector (snd r)), xm_lexical_rrf = None,
     xm_semantic_rrf = None, xm_fused_rrf = None \<rparr>"

definition hybrid_result ::
  "search_world \<Rightarrow> knowledge_db \<Rightarrow> string \<Rightarrow> rat list \<Rightarrow> nat \<Rightarrow> memory list \<Rightarrow> memory list \<Rightarrow> nat \<times> memory \<Rightarrow> explained_result" where
  "hybrid_result w s query vector window lexical semantic r =
    (let m = snd r; l = candidate_rank window lexical m; k = candidate_rank window semantic m in
     \<lparr> xm_rank = fst r, xm_memory = m, xm_lexical_rank = l, xm_semantic_rank = k,
       xm_lexical_score = map_option (\<lambda>_. sw_rank w query m) l,
       xm_semantic_distance = map_option (\<lambda>_. vector_distance w s vector m) k,
       xm_lexical_rrf = contribution l, xm_semantic_rrf = contribution k,
       xm_fused_rrf = Some (rrf_score window lexical semantic m) \<rparr>)"

text \<open>\<open>None\<close> is the \<open>ValueError\<close> for a missing query vector.\<close>

definition search_memories_explained ::
  "search_world \<Rightarrow> knowledge_db \<Rightarrow> string \<Rightarrow> search_mode \<Rightarrow> rat list option \<Rightarrow> memory_filters \<Rightarrow> bool \<Rightarrow> nat \<Rightarrow> nat \<Rightarrow>
   explained_result list option" where
  "search_memories_explained w s query mode vector f unassigned_only limit offset =
    (let keep = (\<lambda>m. apply_structured_filters f m \<and> (unassigned_only \<longrightarrow> me_project_id m = None));
         lexical = lexical_ranking w s query keep in
     if mode = Lexical then Some (map (lexical_result w query) (search_page limit offset (enumerate 1 lexical)))
     else case vector of
       None \<Rightarrow> None
     | Some v \<Rightarrow>
         (let semantic = semantic_ranking w s v keep in
          if mode = Semantic then Some (map (semantic_result w s v) (search_page limit offset (enumerate 1 semantic)))
          else
            let window = hybrid_candidate_limit limit offset in
            Some (map (hybrid_result w s query v window lexical semantic)
              (search_page limit offset (enumerate 1 (fused_ranking s window lexical semantic))))))"

section \<open>Evidence of an answer\<close>

record scored_memory =
  sm_memory :: memory
  sm_lexical_score :: "rat option"
  sm_semantic_score :: "rat option"

definition answer_evidence ::
  "search_world \<Rightarrow> knowledge_db \<Rightarrow> string \<Rightarrow> search_mode \<Rightarrow> uuid option \<Rightarrow> nat \<Rightarrow> rat list option \<Rightarrow> scored_memory list option" where
  "answer_evidence w s query mode project_id limit vector =
    (let keep = (\<lambda>m. me_status m = ''active'' \<and> column_eq project_id (me_project_id m));
         lexical = lexical_ranking w s query keep in
     if mode = Lexical then
       Some (map (\<lambda>m. \<lparr> sm_memory = m, sm_lexical_score = Some (sw_rank w query m), sm_semantic_score = None \<rparr>) (take limit lexical))
     else case vector of
       None \<Rightarrow> None
     | Some v \<Rightarrow>
         (let semantic = semantic_ranking w s v keep; similarity = (\<lambda>m. 1 - vector_distance w s v m) in
          if mode = Semantic then
            Some (map (\<lambda>m. \<lparr> sm_memory = m, sm_lexical_score = None, sm_semantic_score = Some (similarity m) \<rparr>) (take limit semantic))
          else
            let window = min 1000 (max 100 (limit * 5)) in
            Some (map (\<lambda>m. \<lparr> sm_memory = m,
                sm_lexical_score = map_option (\<lambda>_. sw_rank w query m) (candidate_rank window lexical m),
                sm_semantic_score = map_option (\<lambda>_. similarity m) (candidate_rank window semantic m) \<rparr>)
              (take limit (fused_ranking s window lexical semantic)))))"

section \<open>The public explanation\<close>

record search_explanation =
  se_mode :: search_mode
  se_matched_by :: "string list"
  se_lexical_rank :: "nat option"
  se_semantic_rank :: "nat option"
  se_lexical_signal :: "rat option"
  se_semantic_signal :: "rat option"
  se_lexical_rrf :: "rat option"
  se_semantic_rrf :: "rat option"
  se_fused_rrf :: "rat option"

text \<open>\<open>_explained_result_read\<close>; \<open>rounded\<close> is Python's \<open>round\<close> to six digits.\<close>

definition explained_result_read :: "(rat \<Rightarrow> rat) \<Rightarrow> search_mode \<Rightarrow> explained_result \<Rightarrow> nat \<times> memory \<times> search_explanation" where
  "explained_result_read rounded mode item = (xm_rank item, xm_memory item,
    \<lparr> se_mode = mode,
      se_matched_by = (if xm_lexical_rank item \<noteq> None then [''lexical''] else []) @
        (if xm_semantic_rank item \<noteq> None then [''semantic''] else []),
      se_lexical_rank = xm_lexical_rank item, se_semantic_rank = xm_semantic_rank item,
      se_lexical_signal = map_option (\<lambda>x. rounded (max 0 (min 1 (x / (1 + x))))) (xm_lexical_score item),
      se_semantic_signal = map_option (\<lambda>d. rounded (max 0 (min 1 (1 - d / 2)))) (xm_semantic_distance item),
      se_lexical_rrf = map_option rounded (xm_lexical_rrf item),
      se_semantic_rrf = map_option rounded (xm_semantic_rrf item),
      se_fused_rrf = map_option rounded (xm_fused_rrf item) \<rparr>)"

text \<open>The validation of the response: the bounds of the fields and \<open>require_mode_invariants\<close>.\<close>

definition positive_rank :: "nat option \<Rightarrow> bool" where
  "positive_rank r = (case r of None \<Rightarrow> True | Some k \<Rightarrow> 0 < k)"

definition bounded_signal :: "rat option \<Rightarrow> bool" where
  "bounded_signal x = (case x of None \<Rightarrow> True | Some v \<Rightarrow> 0 \<le> v \<and> v \<le> 1)"

definition non_negative_score :: "rat option \<Rightarrow> bool" where
  "non_negative_score x = (case x of None \<Rightarrow> True | Some v \<Rightarrow> 0 \<le> v)"

definition require_mode_invariants :: "search_explanation \<Rightarrow> bool" where
  "require_mode_invariants e \<longleftrightarrow>
     se_matched_by e \<in> {[''lexical''], [''semantic''], [''lexical'', ''semantic'']} \<and>
     (case se_mode e of
        Lexical \<Rightarrow> se_matched_by e = [''lexical''] \<and> se_lexical_rank e \<noteq> None \<and> se_lexical_signal e \<noteq> None \<and>
          se_semantic_rank e = None \<and> se_semantic_signal e = None \<and> se_lexical_rrf e = None \<and> se_semantic_rrf e = None \<and>
          se_fused_rrf e = None
      | Semantic \<Rightarrow> se_matched_by e = [''semantic''] \<and> se_semantic_rank e \<noteq> None \<and> se_semantic_signal e \<noteq> None \<and>
          se_lexical_rank e = None \<and> se_lexical_signal e = None \<and> se_lexical_rrf e = None \<and> se_semantic_rrf e = None \<and>
          se_fused_rrf e = None
      | Hybrid \<Rightarrow> se_fused_rrf e \<noteq> None \<and>
          ((se_lexical_rank e \<noteq> None) = (''lexical'' \<in> set (se_matched_by e))) \<and>
          ((se_semantic_rank e \<noteq> None) = (''semantic'' \<in> set (se_matched_by e))) \<and>
          ((se_lexical_signal e \<noteq> None) = (se_lexical_rank e \<noteq> None)) \<and>
          ((se_semantic_signal e \<noteq> None) = (se_semantic_rank e \<noteq> None)) \<and>
          ((se_lexical_rrf e \<noteq> None) = (se_lexical_rank e \<noteq> None)) \<and>
          ((se_semantic_rrf e \<noteq> None) = (se_semantic_rank e \<noteq> None)))"

definition explanation_valid :: "search_explanation \<Rightarrow> bool" where
  "explanation_valid e \<longleftrightarrow> positive_rank (se_lexical_rank e) \<and> positive_rank (se_semantic_rank e) \<and>
     bounded_signal (se_lexical_signal e) \<and> bounded_signal (se_semantic_signal e) \<and>
     non_negative_score (se_lexical_rrf e) \<and> non_negative_score (se_semantic_rrf e) \<and>
     non_negative_score (se_fused_rrf e) \<and> require_mode_invariants e"

end
