(* ===== verification/Memory_Quality.thy ===== *)
theory Memory_Quality
  imports Memory_Search
begin

text \<open>
  Duplicates, similar Memories and contradictions: the normalization of \<open>app/memory_quality/normalization.py\<close> and of the
  database query, the candidate pool and the classification of \<open>similarity.py\<close>, and the polarity policy of
  \<open>contradiction.py\<close>, with the candidate queries of \<open>app/repositories/memories.py\<close> and their two routes.

  Parameters beside those of the searches: the case-folded matches of the word pattern, case folding, the
  cosine similarity of two stored vectors (\<open>None\<close> if it is not a finite number) and the text of a score.
\<close>

record quality_world = search_world +
  qw_words :: "string \<Rightarrow> string list"
  qw_casefold :: "string \<Rightarrow> string"
  qw_similarity :: "rat list \<Rightarrow> rat list \<Rightarrow> rat option"
  qw_score_text :: "rat \<Rightarrow> string"

section \<open>Exact normalization\<close>

function collapse_whitespace :: "string \<Rightarrow> string" where
  "collapse_whitespace [] = []"
| "collapse_whitespace (c # cs) = (if ascii_space c then CHR '' '' # collapse_whitespace (dropWhile ascii_space cs)
     else c # collapse_whitespace cs)"
  by pat_completeness auto

termination by (relation "measure length") (auto simp: le_imp_less_Suc length_dropWhile_le)

definition strip_ascii :: "string \<Rightarrow> string" where
  "strip_ascii t = rev (dropWhile ascii_space (rev (dropWhile ascii_space t)))"

definition normalize_exact_content :: "string \<Rightarrow> string" where
  "normalize_exact_content content = collapse_whitespace (strip_ascii content)"

text \<open>The expression of the query: \<open>btrim(regexp_replace(content, pattern, ' ', 'g'), ...)\<close>.\<close>

definition database_normalized :: "string \<Rightarrow> string" where
  "database_normalized content = strip_ascii (collapse_whitespace content)"

section \<open>Candidate queries\<close>

definition same_scope :: "memory \<Rightarrow> memory \<Rightarrow> bool" where
  "same_scope target m \<longleftrightarrow> me_id m \<noteq> me_id target \<and> me_project_id m = me_project_id target \<and> me_status m = ''active''"

definition list_exact_duplicate_candidates :: "knowledge_db \<Rightarrow> memory \<Rightarrow> string \<Rightarrow> nat \<Rightarrow> memory list" where
  "list_exact_duplicate_candidates s target normalized_content limit = take limit (sort_key me_id
     [m \<leftarrow> kb_memories s. same_scope target m \<and> database_normalized (me_content m) = normalized_content])"

definition list_lexical_similarity_candidates ::
  "('a search_world_scheme) \<Rightarrow> knowledge_db \<Rightarrow> memory \<Rightarrow> string \<Rightarrow> nat \<Rightarrow> memory list" where
  "list_lexical_similarity_candidates w s target query limit = take limit (sort_key (\<lambda>m. (- sw_rank w query m, me_id m))
     [m \<leftarrow> kb_memories s. same_scope target m \<and> sw_matches w query m])"

definition list_semantic_similarity_candidates ::
  "quality_world \<Rightarrow> knowledge_db \<Rightarrow> memory \<Rightarrow> memory_embedding \<Rightarrow> nat \<Rightarrow> (memory \<times> rat option) list" where
  "list_semantic_similarity_candidates w s target e limit =
     map (\<lambda>(m, x). (m, qw_similarity w (eb_embedding x) (eb_embedding e)))
       (take limit (sort_key (\<lambda>(m, x). (sw_distance w (eb_embedding x) (eb_embedding e), me_id m))
         [(m, x). m \<leftarrow> kb_memories s, x \<leftarrow> kb_embeddings s, eb_memory_id x = me_id m \<and> same_scope target m \<and>
            eb_provider x = eb_provider e \<and> eb_model x = eb_model e \<and> eb_dimensions x = eb_dimensions e]))"

section \<open>Similar Memories\<close>

definition LEXICAL_SIMILARITY_THRESHOLD :: rat where "LEXICAL_SIMILARITY_THRESHOLD = 60 / 100"
definition SEMANTIC_SIMILARITY_THRESHOLD :: rat where "SEMANTIC_SIMILARITY_THRESHOLD = 85 / 100"
definition MINIMUM_SHARED_TOKENS :: nat where "MINIMUM_SHARED_TOKENS = 3"
definition SEARCH_POOL_LIMIT :: nat where "SEARCH_POOL_LIMIT = 250"
definition MAX_QUERY_TOKENS :: nat where "MAX_QUERY_TOKENS = 100"

definition content_tokens :: "quality_world \<Rightarrow> string \<Rightarrow> string list" where
  "content_tokens w content = remdups (qw_words w content)"

definition lexical_similarity :: "quality_world \<Rightarrow> string list \<Rightarrow> string \<Rightarrow> rat \<times> nat" where
  "lexical_similarity w target_tokens candidate_content =
    (let candidate = content_tokens w candidate_content;
         shared = length [t \<leftarrow> target_tokens. t \<in> set candidate];
         total = length (remdups (target_tokens @ candidate)) in
     (if total = 0 then 0 else of_nat shared / of_nat total, shared))"

fun join_text :: "string \<Rightarrow> string list \<Rightarrow> string" where
  "join_text sep [] = []"
| "join_text sep [t] = t"
| "join_text sep (t # u # ts) = t @ sep @ join_text sep (u # ts)"

definition lexical_query :: "string list \<Rightarrow> string option" where
  "lexical_query tokens = (let selected = take MAX_QUERY_TOKENS (sort tokens) in
     if selected = [] then None else Some (join_text '' OR '' selected))"

definition usable_vector :: "rat list \<Rightarrow> bool" where
  "usable_vector v \<longleftrightarrow> v \<noteq> [] \<and> list_ex (\<lambda>x. x \<noteq> 0) v"

text \<open>The pool: Memories in the order in which the dictionary got them, the exact ones, and the semantic scores.\<close>

record candidate_pool =
  cq_memories :: "memory list"
  cq_exact_ids :: "uuid list"
  cq_semantic_scores :: "uuid \<Rightarrow> rat option"

definition pool_add :: "memory list \<Rightarrow> memory \<Rightarrow> memory list" where
  "pool_add ms m = (if me_id m \<in> me_id ` set ms then ms else ms @ [m])"

definition collect_similarity_candidate_pool :: "quality_world \<Rightarrow> knowledge_db \<Rightarrow> memory \<Rightarrow> nat \<Rightarrow> candidate_pool" where
  "collect_similarity_candidate_pool w s target exact_limit =
    (let exact = list_exact_duplicate_candidates s target (normalize_exact_content (me_content target)) exact_limit;
         lexical = (case lexical_query (content_tokens w (me_content target)) of
           None \<Rightarrow> [] | Some q \<Rightarrow> list_lexical_similarity_candidates w s target q SEARCH_POOL_LIMIT);
         scored = (case find_embedding s (me_id target) of
           None \<Rightarrow> []
         | Some e \<Rightarrow> if usable_vector (eb_embedding e)
             then [(m, x) \<leftarrow> list_semantic_similarity_candidates w s target e SEARCH_POOL_LIMIT. x \<noteq> None] else []) in
     \<lparr> cq_memories = foldl pool_add (foldl pool_add (foldl pool_add [] exact) lexical) (map fst scored),
       cq_exact_ids = map me_id exact,
       cq_semantic_scores = (\<lambda>i. case find (\<lambda>(m, x). me_id m = i) (rev scored) of None \<Rightarrow> None | Some (m, x) \<Rightarrow> x) \<rparr>)"

record similarity_candidate =
  si_memory :: memory
  si_exact :: bool
  si_lexical :: rat
  si_semantic :: "rat option"
  si_reason :: string

definition score_key :: "rat option \<Rightarrow> rat" where
  "score_key x = (case x of None \<Rightarrow> 1 | Some v \<Rightarrow> - v)"

definition candidate_sort_key :: "similarity_candidate \<Rightarrow> nat \<times> rat \<times> rat \<times> nat" where
  "candidate_sort_key c = (if si_exact c then 0 else 1, score_key (si_semantic c), - si_lexical c, me_id (si_memory c))"

definition classify_candidate ::
  "quality_world \<Rightarrow> candidate_pool \<Rightarrow> string list \<Rightarrow> memory \<Rightarrow> similarity_candidate option" where
  "classify_candidate w pool target_tokens m =
    (let (lexical, shared) = lexical_similarity w target_tokens (me_content m);
         semantic = cq_semantic_scores pool (me_id m);
         lexical_match = (MINIMUM_SHARED_TOKENS \<le> shared \<and> LEXICAL_SIMILARITY_THRESHOLD \<le> lexical);
         semantic_match = (case semantic of None \<Rightarrow> False | Some v \<Rightarrow> SEMANTIC_SIMILARITY_THRESHOLD \<le> v) in
     if me_id m \<in> set (cq_exact_ids pool) then
       Some \<lparr> si_memory = m, si_exact = True, si_lexical = lexical, si_semantic = semantic,
         si_reason = ''content matches after surrounding/repeated whitespace normalization'' \<rparr>
     else if \<not> lexical_match \<and> \<not> semantic_match then None
     else Some \<lparr> si_memory = m, si_exact = False, si_lexical = lexical, si_semantic = semantic,
       si_reason = join_text ''; '' ((if lexical_match then [''lexical token Jaccard '' @ qw_score_text w lexical @ '' with '' @
           str_int (int shared) @ '' shared tokens''] else []) @
         (if semantic_match then [''stored-embedding cosine similarity '' @ qw_score_text w (the semantic)] else [])) \<rparr>)"

definition detect_similar_memories :: "quality_world \<Rightarrow> knowledge_db \<Rightarrow> memory \<Rightarrow> nat \<Rightarrow> similarity_candidate list" where
  "detect_similar_memories w s target limit =
    (let pool = collect_similarity_candidate_pool w s target limit; tokens = content_tokens w (me_content target) in
     take limit (sort_key candidate_sort_key (List.map_filter (classify_candidate w pool tokens) (cq_memories pool))))"

section \<open>Contradictions\<close>

datatype (plugins only: code) evidence_type = ExplicitNegation | OpposingBooleanState

definition NEGATION_PAIRS :: "(string list \<times> string list) list" where
  "NEGATION_PAIRS = [([''is''], [''is'', ''not'']), ([''are''], [''are'', ''not'']), ([''was''], [''was'', ''not'']),
     ([''were''], [''were'', ''not'']), ([''can''], [''cannot'']), ([''can''], [''can'', ''not''])]"

definition BOOLEAN_PAIRS :: "(string list \<times> string list) list" where
  "BOOLEAN_PAIRS = [([''enabled''], [''disabled'']), ([''active''], [''inactive'']), ([''true''], [''false'']),
     ([''on''], [''off'']), ([''available''], [''unavailable''])]"

definition EVIDENCE_PAIRS :: "(evidence_type \<times> string list \<times> string list) list" where
  "EVIDENCE_PAIRS = map (Pair ExplicitNegation) NEGATION_PAIRS @ map (Pair OpposingBooleanState) BOOLEAN_PAIRS"

definition surrounding_punctuation :: "char \<Rightarrow> bool" where
  "surrounding_punctuation c \<longleftrightarrow> c \<in> set ''.,;:!?()[]{}'' \<or> c = CHR 0x22 \<or> c = CHR 0x27"

definition strip_punctuation :: "string \<Rightarrow> string" where
  "strip_punctuation t = rev (dropWhile surrounding_punctuation (rev (dropWhile surrounding_punctuation t)))"

fun split_ascii :: "string \<Rightarrow> string \<Rightarrow> string list" where
  "split_ascii word [] = [word]"
| "split_ascii word (c # cs) = (if ascii_space c then word # split_ascii [] cs else split_ascii (word @ [c]) cs)"

definition normalized_tokens :: "quality_world \<Rightarrow> string \<Rightarrow> string list" where
  "normalized_tokens w content = map (qw_casefold w) (filter (\<lambda>t. t \<noteq> []) (map strip_punctuation (split_ascii [] content)))"

definition anchor_without :: "string list \<Rightarrow> nat \<Rightarrow> string list \<Rightarrow> string list option" where
  "anchor_without tokens position marker =
    (if take (length marker) (drop position tokens) \<noteq> marker then None
     else Some (take position tokens @ drop (position + length marker) tokens))"

record opposing_states =
  op_evidence_type :: evidence_type
  op_target_state :: string
  op_candidate_state :: string

definition opposing_at :: "string list \<Rightarrow> string list \<Rightarrow> string list \<Rightarrow> string list \<Rightarrow> nat \<Rightarrow> bool" where
  "opposing_at target candidate target_marker candidate_marker position =
    (case (anchor_without target position target_marker, anchor_without candidate position candidate_marker) of
       (Some a, Some b) \<Rightarrow> a = b | _ \<Rightarrow> False)"

definition opposing_directions :: "evidence_type \<times> string list \<times> string list \<Rightarrow> (evidence_type \<times> string list \<times> string list) list" where
  "opposing_directions p = (case p of (e, left, right) \<Rightarrow> [(e, left, right), (e, right, left)])"

definition detect_opposing_states :: "quality_world \<Rightarrow> string \<Rightarrow> string \<Rightarrow> opposing_states option" where
  "detect_opposing_states w target_content candidate_content =
    (let target = normalized_tokens w target_content; candidate = normalized_tokens w candidate_content in
     map_option (\<lambda>(e, t, c). \<lparr> op_evidence_type = e, op_target_state = join_text '' '' t, op_candidate_state = join_text '' '' c \<rparr>)
       (find (\<lambda>(e, t, c). list_ex (opposing_at target candidate t c) [0..<length target])
         (concat (map opposing_directions EVIDENCE_PAIRS))))"

record contradiction_candidate =
  co_memory :: memory
  co_evidence_type :: evidence_type
  co_lexical :: rat
  co_semantic :: "rat option"
  co_target_state :: string
  co_candidate_state :: string

definition contradiction_sort_key :: "contradiction_candidate \<Rightarrow> nat \<times> rat \<times> rat \<times> nat" where
  "contradiction_sort_key c = (if co_evidence_type c = ExplicitNegation then 0 else 1, score_key (co_semantic c),
     - co_lexical c, me_id (co_memory c))"

definition contradiction_of :: "quality_world \<Rightarrow> candidate_pool \<Rightarrow> memory \<Rightarrow> memory \<Rightarrow> contradiction_candidate option" where
  "contradiction_of w pool target m =
    (if normalize_exact_content (me_content m) = normalize_exact_content (me_content target) then None
     else if me_event_time target \<noteq> None \<and> me_event_time m \<noteq> None \<and> me_event_time target \<noteq> me_event_time m then None
     else case detect_opposing_states w (me_content target) (me_content m) of
       None \<Rightarrow> None
     | Some op \<Rightarrow> Some \<lparr> co_memory = m, co_evidence_type = op_evidence_type op,
         co_lexical = fst (lexical_similarity w (content_tokens w (me_content target)) (me_content m)),
         co_semantic = cq_semantic_scores pool (me_id m), co_target_state = op_target_state op,
         co_candidate_state = op_candidate_state op \<rparr>)"

definition detect_memory_contradictions ::
  "quality_world \<Rightarrow> knowledge_db \<Rightarrow> memory \<Rightarrow> nat \<Rightarrow> contradiction_candidate list" where
  "detect_memory_contradictions w s target limit =
    (let pool = collect_similarity_candidate_pool w s target limit in
     take limit (sort_key contradiction_sort_key (List.map_filter (contradiction_of w pool target) (cq_memories pool))))"

section \<open>Routes\<close>

definition get_memory_similarities :: "quality_world \<Rightarrow> knowledge_db \<Rightarrow> uuid \<Rightarrow> nat \<Rightarrow> http_error + similarity_candidate list" where
  "get_memory_similarities w s i limit =
    (case find_memory s i of
       None \<Rightarrow> Inl (HttpError 404 ''memory not found'')
     | Some m \<Rightarrow> Inr (detect_similar_memories w s m limit))"

definition get_memory_contradictions :: "quality_world \<Rightarrow> knowledge_db \<Rightarrow> uuid \<Rightarrow> nat \<Rightarrow> http_error + contradiction_candidate list" where
  "get_memory_contradictions w s i limit =
    (case find_memory s i of
       None \<Rightarrow> Inl (HttpError 404 ''memory not found'')
     | Some m \<Rightarrow> if me_status m \<noteq> ''active'' then Inl (HttpError 404 ''memory not found'')
         else Inr (detect_memory_contradictions w s m limit))"

end
