(* ===== verification/Search_Properties.thy ===== *)
theory Search_Properties
  imports Memory_Search
begin

text \<open>
  What the searches guarantee: the explained search ranks as the plain ones do, its explanations pass the validation of
  the response, and a hybrid page is that of the complete fusion as long as its window covers the candidates.
\<close>

section \<open>Numbered rows and candidates\<close>

lemma map_snd_page: "map snd (search_page limit offset (enumerate k rows)) = search_page limit offset rows"
  by (simp add: search_page_def flip: take_map drop_map)

lemma page_ranks: "r \<in> set (search_page limit offset (enumerate 1 rows)) \<Longrightarrow> 0 < fst r \<and> snd r \<in> set rows"
proof
  assume "r \<in> set (search_page limit offset (enumerate 1 rows))"
  then have r: "r \<in> set (enumerate 1 rows)" by (auto simp: search_page_def dest: in_set_takeD in_set_dropD)
  then show "0 < fst r" by (auto simp: in_set_enumerate_eq)
  have "snd r \<in> set (map snd (enumerate 1 rows))" using r by (simp del: map_snd_enumerate)
  then show "snd r \<in> set rows" by simp
qed

lemma candidate_rank_positive: "candidate_rank window ranking m = Some k \<Longrightarrow> 0 < k"
  by (auto simp: candidate_rank_def find_Some_iff nth_enumerate_eq)

lemma candidate_rank_iff: "candidate_rank window ranking m \<noteq> None \<longleftrightarrow> me_id m \<in> me_id ` set (take window ranking)"
proof -
  have "candidate_rank window ranking m = None \<longleftrightarrow> (\<forall>r \<in> set (enumerate 1 (take window ranking)). me_id (snd r) \<noteq> me_id m)"
    by (auto simp: candidate_rank_def find_None_iff)
  also have "\<dots> \<longleftrightarrow> (\<forall>x \<in> snd ` set (enumerate 1 (take window ranking)). me_id x \<noteq> me_id m)" by auto
  also have "snd ` set (enumerate 1 (take window ranking)) = set (take window ranking)"
    by (simp only: list.set_map [symmetric] map_snd_enumerate)
  finally have "candidate_rank window ranking m = None \<longleftrightarrow> me_id m \<notin> me_id ` set (take window ranking)"
    unfolding image_iff by metis
  then show ?thesis by argo
qed

lemma fused_members:
  "m \<in> set (fused_ranking s window lexical semantic) \<Longrightarrow>
     candidate_rank window lexical m \<noteq> None \<or> candidate_rank window semantic m \<noteq> None"
  by (simp add: fused_ranking_def)

text \<open>The explained search explains the real one. In each mode, the Memories of an explained page are, in order,
  exactly the page that the listing with a query, the semantic search and the hybrid search give for the same filters
  and the same limits.\<close>

theorem explained_search_agrees:
  "map xm_memory (the (search_memories_explained w s query Lexical vector f False limit offset)) =
     list_memories w s (Some query) f limit offset \<and>
   map xm_memory (the (search_memories_explained w s query Semantic (Some v) f False limit offset)) =
     search_memories w s v f limit offset \<and>
   map xm_memory (the (search_memories_explained w s query Hybrid (Some v) f False limit offset)) =
     search_memories_hybrid w s query v f limit offset"
proof -
  have results: "xm_memory \<circ> lexical_result w query = snd" "xm_memory \<circ> semantic_result w s v = snd"
    "xm_memory \<circ> hybrid_result w s query v window lexical semantic = snd" for window lexical semantic
    by (auto simp: lexical_result_def semantic_result_def hybrid_result_def Let_def)
  show ?thesis
    by (simp add: search_memories_explained_def list_memories_def search_memories_def search_memories_hybrid_def Let_def
        results map_snd_page)
qed

section \<open>Valid explanations\<close>

lemma rrf_nonnegative: "0 \<le> rrf_score window lexical semantic m"
  by (auto simp: rrf_score_def coalesce0_def contribution_def split: option.splits)

lemma contribution_nonnegative: "contribution r = Some x \<Longrightarrow> 0 \<le> x"
  by (auto simp: contribution_def)

lemma clamped: "0 \<le> max 0 (min 1 x) \<and> max 0 (min 1 x) \<le> (1 :: rat)"
  by simp

text \<open>Every explanation is valid. If rounding to six digits keeps the unit interval and the sign, then every result of
  an explained search, in every mode, has a positive rank and an explanation that the response model accepts: bounded
  signals, non-negative scores, and exactly the fields of its mode and channels.\<close>

theorem explanations_are_valid:
  assumes rounding: "\<And>x. 0 \<le> x \<Longrightarrow> 0 \<le> rounded x" "\<And>x. x \<le> 1 \<Longrightarrow> rounded x \<le> 1"
    and results: "search_memories_explained w s query mode vector f unassigned_only limit offset = Some rows" and "r \<in> set rows"
  shows "0 < fst (explained_result_read rounded mode r) \<and> explanation_valid (snd (snd (explained_result_read rounded mode r)))"
proof (cases mode)
  case Lexical
  then obtain p where "r = lexical_result w query p" "0 < fst p"
    using results \<open>r \<in> set rows\<close> page_ranks by (fastforce simp: search_memories_explained_def Let_def)
  then show ?thesis using Lexical rounding clamped
    by (auto simp: explained_result_read_def lexical_result_def explanation_valid_def require_mode_invariants_def
        positive_rank_def bounded_signal_def non_negative_score_def)
next
  case Semantic
  then obtain p v where "r = semantic_result w s v p" "0 < fst p"
    using results \<open>r \<in> set rows\<close> page_ranks by (fastforce simp: search_memories_explained_def Let_def split: option.splits)
  then show ?thesis using Semantic rounding clamped
    by (auto simp: explained_result_read_def semantic_result_def explanation_valid_def require_mode_invariants_def
        positive_rank_def bounded_signal_def non_negative_score_def)
next
  case Hybrid
  then obtain p v window lexical semantic where r: "r = hybrid_result w s query v window lexical semantic p" "0 < fst p"
      "snd p \<in> set (fused_ranking s window lexical semantic)"
    using results \<open>r \<in> set rows\<close> page_ranks by (fastforce simp: search_memories_explained_def Let_def split: option.splits)
  then have "candidate_rank window lexical (snd p) \<noteq> None \<or> candidate_rank window semantic (snd p) \<noteq> None"
    by (rule_tac fused_members)
  then show ?thesis using Hybrid rounding clamped r(1,2) rrf_nonnegative contribution_nonnegative candidate_rank_positive
    by (auto simp: explained_result_read_def hybrid_result_def explanation_valid_def require_mode_invariants_def Let_def
        positive_rank_def bounded_signal_def non_negative_score_def contribution_def split: option.splits)
qed

section \<open>The window of a hybrid search\<close>

lemma covered_rank: "length ranking \<le> window \<Longrightarrow> candidate_rank window ranking m = candidate_rank (length ranking) ranking m"
  by (simp add: candidate_rank_def)

text \<open>A hybrid page is exact while its window covers the candidates. If no more Memories match the text, and no more have
  an embedding and pass the filters, than the window has places, then the hybrid search is the page of the complete
  fusion: every Memory of either channel, by the sum of the reciprocals of its full ranks, newest first on ties.\<close>

theorem hybrid_search_is_complete_fusion:
  assumes unique: "distinct (map me_id (kb_memories s))"
    and "length (lexical_ranking w s query (apply_structured_filters f)) \<le> hybrid_candidate_limit limit offset"
    and "length (semantic_ranking w s v (apply_structured_filters f)) \<le> hybrid_candidate_limit limit offset"
  shows "search_memories_hybrid w s query v f limit offset =
    take limit (drop offset (sort_key
      (\<lambda>m. (- rrf_score (length (kb_memories s)) (lexical_ranking w s query (apply_structured_filters f))
               (semantic_ranking w s v (apply_structured_filters f)) m, - me_created_at m, me_id m))
      [m \<leftarrow> kb_memories s. apply_structured_filters f m \<and> (sw_matches w query m \<or> find_embedding s (me_id m) \<noteq> None)]))"
proof -
  let ?keep = "apply_structured_filters f" and ?W = "hybrid_candidate_limit limit offset" and ?N = "length (kb_memories s)"
  let ?l = "lexical_ranking w s query ?keep" and ?v = "semantic_ranking w s v ?keep"
  have "length ?l \<le> ?N" "length ?v \<le> ?N" by (simp_all add: lexical_ranking_def semantic_ranking_def)
  then have ranks: "candidate_rank ?W ?l = candidate_rank ?N ?l" "candidate_rank ?W ?v = candidate_rank ?N ?v"
    using assms(2,3) covered_rank by (metis ext)+
  then have score: "rrf_score ?W ?l ?v = rrf_score ?N ?l ?v" by (simp add: fun_eq_iff rrf_score_def)
  have same: "x = m" if "x \<in> set (kb_memories s)" "m \<in> set (kb_memories s)" "me_id x = me_id m" for x m
    using unique that by (simp add: distinct_map inj_on_def)
  have member: "candidate_rank ?W ?l m \<noteq> None \<or> candidate_rank ?W ?v m \<noteq> None \<longleftrightarrow>
      ?keep m \<and> (sw_matches w query m \<or> find_embedding s (me_id m) \<noteq> None)" if m: "m \<in> set (kb_memories s)" for m
    unfolding candidate_rank_iff using assms(2,3) m same
    by (auto simp: lexical_ranking_def semantic_ranking_def embedding_of_def image_iff)
  have "fused_ranking s ?W ?l ?v = sort_key (\<lambda>m. (- rrf_score ?N ?l ?v m, newest m))
      [m \<leftarrow> kb_memories s. ?keep m \<and> (sw_matches w query m \<or> find_embedding s (me_id m) \<noteq> None)]"
    unfolding fused_ranking_def score using member by (intro arg_cong [where f = "sort_key _"] filter_cong) auto
  then show ?thesis by (simp add: search_memories_hybrid_def Let_def search_page_def newest_def)
qed

section \<open>The theorems on concrete Memories\<close>

definition searched_memory :: "uuid \<Rightarrow> memory" where
  "searched_memory i = \<lparr> me_id = i, me_project_id = None, me_content = ''tea'', me_source = None, me_title = None, me_summary = None,
     me_memory_type = ''semantic'', me_importance = 1, me_confidence = 1, me_status = ''active'', me_event_time = None,
     me_expires_at = None, me_supersedes_id = None, me_created_at = int i, me_updated_at = int i \<rparr>"

definition searched_embedding :: memory_embedding where
  "searched_embedding = \<lparr> eb_id = 9, eb_memory_id = 1, eb_provider = ''p'', eb_model = ''m'', eb_dimensions = 1536,
     eb_embedding = [1], eb_input_hash = [], eb_embedded_at = 0, eb_created_at = 0, eb_updated_at = 0 \<rparr>"

definition searched_state :: knowledge_db where
  "searched_state = empty_knowledge\<lparr>kb_memories := [searched_memory 1, searched_memory 2], kb_embeddings := [searched_embedding]\<rparr>"

definition search_example :: search_world where
  "search_example = \<lparr> sw_matches = (\<lambda>q m. me_id m = 2), sw_rank = (\<lambda>q m. 1), sw_distance = (\<lambda>x y. 1) \<rparr>"

definition no_filters :: memory_filters where
  "no_filters = \<lparr> mf_project_id = None, mf_memory_type = None, mf_status = None, mf_importance_min = None,
     mf_importance_max = None, mf_confidence_min = None, mf_confidence_max = None, mf_event_time_from = None,
     mf_event_time_to = None, mf_created_at_from = None, mf_created_at_to = None \<rparr>"

lemma example_lexical: "lexical_ranking search_example searched_state q (apply_structured_filters no_filters) = [searched_memory 2]"
  by (simp add: lexical_ranking_def search_example_def searched_state_def searched_memory_def apply_structured_filters_def
      no_filters_def column_eq_def matches_def at_least_def at_most_def column_from_def column_to_def)

lemma example_semantic: "semantic_ranking search_example searched_state v (apply_structured_filters no_filters) = [searched_memory 1]"
  by (simp add: semantic_ranking_def searched_state_def searched_memory_def apply_structured_filters_def searched_embedding_def
      no_filters_def column_eq_def matches_def at_least_def at_most_def column_from_def column_to_def embedding_of_def
      find_embedding_def row_get_Cons)

lemma example_fused:
  "\<exists>r. search_memories_explained search_example searched_state ''tea'' Lexical None no_filters False 10 0 = Some [r]"
  by (simp add: search_memories_explained_def Let_def example_lexical search_page_def)

theorem explanations_are_valid_witness:
  "\<exists>r. search_memories_explained search_example searched_state ''tea'' Lexical None no_filters False 10 0 = Some [r] \<and>
     explanation_valid (snd (snd (explained_result_read id Lexical r)))"
proof -
  obtain r where r: "search_memories_explained search_example searched_state ''tea'' Lexical None no_filters False 10 0 = Some [r]"
    using example_fused by blast
  have "explanation_valid (snd (snd (explained_result_read id Lexical r)))"
    by (rule conjunct2 [OF explanations_are_valid [OF _ _ r]]) simp_all
  then show ?thesis using r by blast
qed

theorem hybrid_search_is_complete_fusion_witness:
  "search_memories_hybrid search_example searched_state ''tea'' [1] no_filters 1 0 =
    take 1 (drop 0 (sort_key
      (\<lambda>m. (- rrf_score 2 [searched_memory 2] [searched_memory 1] m, - me_created_at m, me_id m))
      [m \<leftarrow> kb_memories searched_state. apply_structured_filters no_filters m \<and>
         (sw_matches search_example ''tea'' m \<or> find_embedding searched_state (me_id m) \<noteq> None)]))"
proof -
  have "distinct (map me_id (kb_memories searched_state))" "length (kb_memories searched_state) = 2"
    by (simp_all add: searched_state_def searched_memory_def)
  then show ?thesis
    using hybrid_search_is_complete_fusion [of searched_state search_example "''tea''" no_filters 1 0 "[1]"]
    by (simp only: example_lexical example_semantic) (simp add: hybrid_candidate_limit_def)
qed

end
