(* ===== verification/Quality_Properties.thy ===== *)
theory Quality_Properties
  imports Memory_Quality Search_Properties
begin

text \<open>
  What the quality policies guarantee: the program and the database normalize alike, an exact duplicate is never reported
  as merely similar, and opposition does not depend on which of two Memories is asked about.
\<close>

section \<open>Normalization\<close>

definition right_strip :: "string \<Rightarrow> string" where
  "right_strip t = rev (dropWhile ascii_space (rev t))"

lemma strip_ascii_split: "strip_ascii t = right_strip (dropWhile ascii_space t)"
  by (simp add: strip_ascii_def right_strip_def)

lemma right_strip_Nil [simp]: "right_strip [] = []"
  by (simp add: right_strip_def)

lemma right_strip_Cons: "right_strip (c # cs) = (if ascii_space c \<and> right_strip cs = [] then [] else c # right_strip cs)"
  by (auto simp: right_strip_def dropWhile_append)

lemma right_strip_idem: "right_strip (right_strip t) = right_strip t"
  by (simp add: right_strip_def)

lemma right_strip_spaces: "\<forall>x \<in> set (right_strip t). ascii_space x \<Longrightarrow> right_strip t = []"
  using hd_dropWhile [of ascii_space "rev t"] by (metis right_strip_def rev_is_Nil_conv set_rev hd_in_set)

lemma strips_commute: "right_strip (dropWhile ascii_space t) = dropWhile ascii_space (right_strip t)"
  by (induction t) (auto simp: right_strip_Cons)

lemma collapse_Nil_iff [simp]: "collapse_whitespace t = [] \<longleftrightarrow> t = []"
  by (cases t) auto

lemma space_is_space [simp]: "ascii_space CHR '' ''"
  by (simp add: ascii_space_def)

lemma collapse_left: "dropWhile ascii_space (collapse_whitespace t) = collapse_whitespace (dropWhile ascii_space t)"
  by (induction t rule: collapse_whitespace.induct) auto

lemma collapse_right: "right_strip (collapse_whitespace t) = collapse_whitespace (right_strip t)"
proof (induction t rule: collapse_whitespace.induct)
  case (2 c cs)
  then show ?case using strips_commute [of cs] right_strip_spaces [of cs]
    by (auto simp: right_strip_Cons dropWhile_eq_Nil_conv)
qed simp

lemma collapse_idem: "collapse_whitespace (collapse_whitespace t) = collapse_whitespace t"
  by (induction t rule: collapse_whitespace.induct) (auto simp: collapse_left)

text \<open>The program and the database normalize alike: stripping and then collapsing the white space of a content, as
  Python does with the target, gives the same text as collapsing and then trimming, as the query does with every row; the
  text is a normal form.\<close>

theorem exact_normalizations_agree:
  "normalize_exact_content t = database_normalized t \<and> normalize_exact_content (normalize_exact_content t) = normalize_exact_content t"
  by (simp add: normalize_exact_content_def database_normalized_def strip_ascii_split collapse_left collapse_right collapse_idem
      right_strip_idem strips_commute)

section \<open>Opposition\<close>

lemma opposing_at_swap: "opposing_at target candidate a b p \<longleftrightarrow> opposing_at candidate target b a p"
  by (auto simp: opposing_at_def split: option.splits)

lemma opposing_at_range: "opposing_at target candidate a b p \<Longrightarrow> a \<noteq> [] \<Longrightarrow> p < length target"
  by (auto simp: opposing_at_def anchor_without_def split: if_splits) (metis drop_all leI take_Nil)

lemma opposing_positions:
  assumes "a \<noteq> []"
  shows "list_ex (opposing_at target candidate a b) [0..<length target] \<longleftrightarrow> (\<exists>p. opposing_at target candidate a b p)"
  using opposing_at_range [OF _ assms] by (auto simp: list_ex_iff)

lemma evidence_markers: "(e, a, b) \<in> set (concat (map opposing_directions EVIDENCE_PAIRS)) \<Longrightarrow> a \<noteq> [] \<and> b \<noteq> []"
  by (auto simp: opposing_directions_def EVIDENCE_PAIRS_def NEGATION_PAIRS_def BOOLEAN_PAIRS_def)

lemma find_directions:
  assumes "\<And>e l r. (e, l, r) \<in> set pairs \<Longrightarrow> P (e, l, r) = Q (e, r, l) \<and> P (e, r, l) = Q (e, l, r)"
  shows "map_option fst (find P (concat (map opposing_directions pairs))) =
    map_option fst (find Q (concat (map opposing_directions pairs)))"
  using assms by (induction pairs) (auto simp: opposing_directions_def)

text \<open>C36: Opposition is symmetric. Whether two contents are found to oppose each other, and by which kind of evidence, does
  not depend on which of them is the target and which the candidate.\<close>

theorem opposition_is_symmetric:
  "map_option op_evidence_type (detect_opposing_states w a b) = map_option op_evidence_type (detect_opposing_states w b a)"
proof -
  let ?a = "normalized_tokens w a" and ?b = "normalized_tokens w b"
  let ?find = "\<lambda>x y. find (\<lambda>(e, t, c). list_ex (opposing_at x y t c) [0..<length x]) (concat (map opposing_directions EVIDENCE_PAIRS))"
  have evidence: "map_option op_evidence_type (detect_opposing_states w x y) =
      map_option fst (?find (normalized_tokens w x) (normalized_tokens w y))" for x y
    by (simp add: detect_opposing_states_def Let_def option.map_comp comp_def case_prod_unfold)
  have swap: "list_ex (opposing_at x y t c) [0..<length x] = list_ex (opposing_at y x c t) [0..<length y]"
    if "t \<noteq> []" "c \<noteq> []" for x y t c
    using that by (simp add: opposing_positions opposing_at_swap [of x y t c])
  have markers: "l \<noteq> [] \<and> r \<noteq> []" if "(e, l, r) \<in> set EVIDENCE_PAIRS" for e l r
    using that evidence_markers [of e l r] by (force simp: opposing_directions_def)
  have "map_option fst (?find ?a ?b) = map_option fst (?find ?b ?a)"
    by (rule find_directions) (use swap markers in auto)
  then show ?thesis unfolding evidence .
qed

section \<open>Duplicates\<close>

lemma pool_add_fold:
  "distinct (map me_id ms) \<Longrightarrow> distinct (map me_id (foldl pool_add ms xs)) \<and>
     set ms \<subseteq> set (foldl pool_add ms xs) \<and> set (foldl pool_add ms xs) \<subseteq> set ms \<union> set xs \<and>
     me_id ` set xs \<subseteq> me_id ` set (foldl pool_add ms xs)"
proof (induction xs arbitrary: ms)
  case (Cons x xs)
  have "distinct (map me_id (pool_add ms x))" "set ms \<subseteq> set (pool_add ms x)" "set (pool_add ms x) \<subseteq> insert x (set ms)"
    "me_id x \<in> me_id ` set (pool_add ms x)"
    using Cons.prems by (auto simp: pool_add_def)
  then show ?case using Cons.IH [of "pool_add ms x"] by (auto 0 3)
qed simp

lemma exact_candidates:
  "m \<in> set (list_exact_duplicate_candidates s target n k) \<Longrightarrow>
     m \<in> set (kb_memories s) \<and> same_scope target m \<and> database_normalized (me_content m) = n"
  by (auto simp: list_exact_duplicate_candidates_def dest: in_set_takeD)

lemma pool_members:
  assumes "m \<in> set (cq_memories (collect_similarity_candidate_pool w s target k))"
  shows "m \<in> set (kb_memories s) \<and> same_scope target m"
proof -
  have lexical: "x \<in> set (list_lexical_similarity_candidates w s target q n) \<Longrightarrow> x \<in> set (kb_memories s) \<and> same_scope target x" for x q n
    by (auto simp: list_lexical_similarity_candidates_def dest: in_set_takeD)
  have semantic: "(x, y) \<in> set (list_semantic_similarity_candidates w s target e n) \<Longrightarrow> x \<in> set (kb_memories s) \<and> same_scope target x" for x y e n
    by (auto simp: list_semantic_similarity_candidates_def dest!: in_set_takeD)
  have step: "m \<in> set (foldl pool_add ms xs) \<Longrightarrow> m \<in> set ms \<or> m \<in> set xs" for ms xs
    by (induction xs arbitrary: ms) (fastforce simp: pool_add_def split: if_splits)+
  show ?thesis using assms
    by (auto simp: collect_similarity_candidate_pool_def Let_def dest!: step lexical semantic exact_candidates
        split: option.splits if_splits)
qed

lemma pool_exact:
  "distinct (map me_id (cq_memories (collect_similarity_candidate_pool w s target k))) \<and>
   set (cq_exact_ids (collect_similarity_candidate_pool w s target k)) \<subseteq>
     me_id ` set (cq_memories (collect_similarity_candidate_pool w s target k))"
proof -
  have "distinct (map me_id (foldl pool_add (foldl pool_add (foldl pool_add [] a) b) c)) \<and>
      me_id ` set a \<subseteq> me_id ` set (foldl pool_add (foldl pool_add (foldl pool_add [] a) b) c)" for a b c
  proof -
    note 1 = pool_add_fold [of "[]" a, simplified]
    note 2 = pool_add_fold [of "foldl pool_add [] a" b]
    note 3 = pool_add_fold [of "foldl pool_add (foldl pool_add [] a) b" c]
    show ?thesis using 1 2 3 by (meson image_mono subset_trans)
  qed
  then show ?thesis by (simp add: collect_similarity_candidate_pool_def Let_def)
qed

lemma smaller_come_first:
  assumes "sorted (map f xs)" and "x \<in> set (take n xs)"
  shows "length [y \<leftarrow> xs. f y < f x] < n"
proof -
  obtain i where i: "i < n" "i < length xs" "xs ! i = x"
    using assms(2) by (auto simp: in_set_conv_nth)
  have "f x \<le> f y" if "y \<in> set (drop i xs)" for y
  proof -
    obtain j where "j < length xs - i" "xs ! (i + j) = y" using \<open>y \<in> set (drop i xs)\<close> by (auto simp: in_set_conv_nth)
    then show ?thesis using sorted_nth_mono [OF assms(1), of i "i + j"] i by simp
  qed
  then have "[y \<leftarrow> drop i xs. f y < f x] = []" by (simp add: filter_empty_conv not_less)
  then have "[y \<leftarrow> xs. f y < f x] = [y \<leftarrow> take i xs. f y < f x]"
    by (metis append_Nil2 append_take_drop_id filter_append)
  then have "length [y \<leftarrow> xs. f y < f x] \<le> i" using length_filter_le [of "\<lambda>y. f y < f x" "take i xs"] i(2) by simp
  then show ?thesis using i(1) by simp
qed

lemma classified:
  assumes "classify_candidate w pool tokens m = Some c"
  shows "si_memory c = m \<and> (si_exact c \<longleftrightarrow> me_id m \<in> set (cq_exact_ids pool))"
  using assms by (auto simp: classify_candidate_def Let_def split: prod.splits if_splits)

lemma exact_is_classified: "me_id m \<in> set (cq_exact_ids pool) \<Longrightarrow> classify_candidate w pool tokens m \<noteq> None"
  by (simp add: classify_candidate_def Let_def split: prod.splits)

lemma exact_count:
  assumes "distinct ids" and "set ids \<subseteq> me_id ` set ms"
    and "\<And>m. m \<in> set ms \<Longrightarrow> me_id m \<in> set ids \<Longrightarrow> \<exists>c. g m = Some c \<and> P c"
    and "\<And>m c. g m = Some c \<Longrightarrow> si_memory c = m"
  shows "length ids \<le> length (filter P (List.map_filter g ms))"
proof -
  have "set ids \<subseteq> (me_id \<circ> si_memory) ` set (filter P (List.map_filter g ms))"
  proof
    fix i assume "i \<in> set ids"
    then obtain m where m: "m \<in> set ms" "me_id m = i" using assms(2) by auto
    then obtain c where "g m = Some c" "P c" using assms(3) \<open>i \<in> set ids\<close> by blast
    then show "i \<in> (me_id \<circ> si_memory) ` set (filter P (List.map_filter g ms))"
      using m assms(4) by (force simp: map_filter_def image_iff)
  qed
  then have "card (set ids) \<le> card (set (filter P (List.map_filter g ms)))"
    by (meson List.finite_set surj_card_le)
  then show ?thesis using distinct_card [OF assms(1)] card_length [of "filter P (List.map_filter g ms)"] by linarith
qed

text \<open>A candidate that is not exact is reported only behind all exact ones, so these are fewer than the limit.\<close>

lemma similar_needs_room:
  fixes s target limit w
  defines "pool \<equiv> collect_similarity_candidate_pool w s target limit" and "tokens \<equiv> content_tokens w (me_content target)"
  assumes "distinct (map me_id (kb_memories s))" and "c \<in> set (detect_similar_memories w s target limit)" and "\<not> si_exact c"
  shows "length (cq_exact_ids pool) < limit"
proof -
  let ?rows = "List.map_filter (classify_candidate w pool tokens) (cq_memories pool)"
  let ?before = "\<lambda>d. candidate_sort_key d < candidate_sort_key c"
  have c: "c \<in> set (take limit (sort_key candidate_sort_key ?rows))"
    using assms(4) by (simp add: detect_similar_memories_def Let_def pool_def tokens_def)
  have ids: "cq_exact_ids pool = map me_id (list_exact_duplicate_candidates s target (normalize_exact_content (me_content target)) limit)"
    by (simp add: pool_def collect_similarity_candidate_pool_def Let_def)
  have "distinct (cq_exact_ids pool)"
    unfolding ids list_exact_duplicate_candidates_def using assms(3) by (simp add: distinct_map inj_on_def flip: take_map)
  then have "length (cq_exact_ids pool) \<le> length (filter si_exact ?rows)"
  proof (rule exact_count)
    show "set (cq_exact_ids pool) \<subseteq> me_id ` set (cq_memories pool)" unfolding pool_def using pool_exact by blast
    fix x :: memory assume "me_id x \<in> set (cq_exact_ids pool)"
    then show "\<exists>d. classify_candidate w pool tokens x = Some d \<and> si_exact d"
      using exact_is_classified classified by (metis not_None_eq)
  qed (use classified in blast)
  moreover have "length (filter si_exact ?rows) = length (filter si_exact (filter ?before ?rows))"
    using assms(5) unfolding filter_filter
    by (intro arg_cong [where f = length] filter_cong) (auto simp: candidate_sort_key_def less_prod_def)
  moreover have "length (filter si_exact (filter ?before ?rows)) \<le> length (filter ?before ?rows)" by (rule length_filter_le)
  moreover have "length (filter ?before (sort_key candidate_sort_key ?rows)) < limit" by (rule smaller_come_first [OF _ c]) simp
  moreover have "length (filter ?before (sort_key candidate_sort_key ?rows)) = length (filter ?before ?rows)" by (simp add: filter_sort)
  ultimately show ?thesis by linarith
qed

text \<open>C35: A duplicate is never called similar. Every candidate that the similarity check reports is an active Memory of the same
  Project other than the target, and it is reported as an exact duplicate just if its content is that of the target up to
  white space: although the duplicates are fetched up to the limit only, none beyond it can appear as merely similar.\<close>

theorem duplicates_are_never_called_similar:
  assumes "distinct (map me_id (kb_memories s))" and "c \<in> set (detect_similar_memories w s target limit)"
  shows "si_memory c \<in> set (kb_memories s) \<and> me_id (si_memory c) \<noteq> me_id target \<and>
    me_project_id (si_memory c) = me_project_id target \<and> me_status (si_memory c) = ''active'' \<and>
    (si_exact c \<longleftrightarrow> normalize_exact_content (me_content (si_memory c)) = normalize_exact_content (me_content target))"
proof -
  let ?pool = "collect_similarity_candidate_pool w s target limit" and ?n = "normalize_exact_content (me_content target)"
  let ?all = "sort_key me_id [m \<leftarrow> kb_memories s. same_scope target m \<and> database_normalized (me_content m) = ?n]"
  have ids: "cq_exact_ids ?pool = map me_id (take limit ?all)"
    by (simp add: collect_similarity_candidate_pool_def Let_def list_exact_duplicate_candidates_def)
  obtain m where m: "m \<in> set (cq_memories ?pool)" "classify_candidate w ?pool (content_tokens w (me_content target)) m = Some c"
    using assms(2) by (auto simp: detect_similar_memories_def Let_def map_filter_def dest!: in_set_takeD)
  then have "si_memory c = m" and exact: "si_exact c \<longleftrightarrow> me_id m \<in> set (cq_exact_ids ?pool)" using classified by blast+
  have row: "m \<in> set (kb_memories s)" "same_scope target m" using pool_members [OF m(1)] by auto
  have "normalize_exact_content (me_content m) = ?n" if "si_exact c"
  proof -
    obtain x where x: "x \<in> set (take limit ?all)" "me_id x = me_id m" using exact \<open>si_exact c\<close> unfolding ids by auto
    then have "x \<in> set (kb_memories s)" "database_normalized (me_content x) = ?n" by (auto dest!: in_set_takeD)
    moreover have "x = m" using assms(1) row(1) calculation(1) x(2) by (simp add: distinct_map inj_on_def)
    ultimately show ?thesis by (simp add: exact_normalizations_agree)
  qed
  moreover have "si_exact c" if "normalize_exact_content (me_content m) = ?n"
  proof (rule ccontr)
    assume "\<not> si_exact c"
    then have "m \<notin> set (take limit ?all)" using exact unfolding ids by auto
    moreover have "m \<in> set ?all" using row exact_normalizations_agree that by simp
    ultimately have "limit \<le> length ?all" by (metis linorder_le_cases take_all)
    then show False using similar_needs_room [OF assms \<open>\<not> si_exact c\<close>] by (simp add: ids)
  qed
  ultimately show ?thesis using row \<open>si_memory c = m\<close> by (auto simp: same_scope_def)
qed

definition quality_example :: quality_world where
  "quality_example = \<lparr> sw_matches = (\<lambda>q m. False), sw_rank = (\<lambda>q m. 0), sw_distance = (\<lambda>x y. 0), qw_words = (\<lambda>t. []),
     qw_casefold = (\<lambda>t. t), qw_similarity = (\<lambda>x y. None), qw_score_text = (\<lambda>x. []) \<rparr>"

definition duplicate_state :: knowledge_db where
  "duplicate_state = empty_knowledge\<lparr>kb_memories := [searched_memory 1, (searched_memory 2)\<lparr>me_content := '' tea ''\<rparr>]\<rparr>"

lemma duplicate_reported: "length (detect_similar_memories quality_example duplicate_state (searched_memory 1) 5) = 1"
  by code_simp

theorem duplicates_are_never_called_similar_witness:
  "\<exists>c \<in> set (detect_similar_memories quality_example duplicate_state (searched_memory 1) 5).
     si_exact c = (normalize_exact_content (me_content (si_memory c)) = normalize_exact_content ''tea'')"
proof -
  obtain c where c: "detect_similar_memories quality_example duplicate_state (searched_memory 1) 5 = [c]"
    using duplicate_reported by (auto simp: length_Suc_conv)
  have "distinct (map me_id (kb_memories duplicate_state))" by (simp add: duplicate_state_def searched_memory_def)
  then show ?thesis
    using duplicates_are_never_called_similar [of duplicate_state c quality_example "searched_memory 1" 5] c
    by (simp add: searched_memory_def)
qed

end
