(* ===== verification/Project_Transfer.thy ===== *)
theory Project_Transfer
  imports Memory_Chains
begin

text \<open>
  The export of a Project (\<open>app/repositories/project_exports.py\<close>, \<open>app/project_export/service.py\<close>) and its import
  (\<open>app/project_import/service.py\<close>), on the level of rows: a bundle holds the rows of the nine data files. The canonical
  JSON lines, the ZIP container, the manifest with its checksums and the limits on sizes are outside; a bundle that gets
  past them is what the writer wrote.
\<close>

section \<open>The selected rows\<close>

record project_bundle =
  bu_project :: knowledge_project
  bu_memories :: "memory list"
  bu_embeddings :: "memory_embedding list"
  bu_sources :: "knowledge_source list"
  bu_links :: "memory_link list"
  bu_documents :: "source_document list"
  bu_chunks :: "source_chunk list"
  bu_runs :: "extraction_run list"
  bu_proposals :: "memory_proposal list"

definition memory_in :: "knowledge_db \<Rightarrow> uuid \<Rightarrow> uuid \<Rightarrow> bool" where
  "memory_in s p i = list_ex (\<lambda>m. me_id m = i \<and> me_project_id m = Some p) (kb_memories s)"

definition export_memories :: "knowledge_db \<Rightarrow> uuid \<Rightarrow> memory list" where
  "export_memories s p = sort_key me_id [m \<leftarrow> kb_memories s. me_project_id m = Some p]"

definition export_embeddings :: "knowledge_db \<Rightarrow> uuid \<Rightarrow> memory_embedding list" where
  "export_embeddings s p = sort_key eb_id [e \<leftarrow> kb_embeddings s. memory_in s p (eb_memory_id e)]"

definition export_links :: "knowledge_db \<Rightarrow> uuid \<Rightarrow> memory_link list" where
  "export_links s p = sort_key ml_id [l \<leftarrow> kb_links s. memory_in s p (ml_memory_id l)]"

definition export_runs :: "knowledge_db \<Rightarrow> uuid \<Rightarrow> extraction_run list" where
  "export_runs s p = sort_key xr_id [r \<leftarrow> kb_extractions s. xr_project_id r = Some p]"

definition run_document :: "knowledge_db \<Rightarrow> uuid \<Rightarrow> uuid \<Rightarrow> bool" where
  "run_document s p i = list_ex (\<lambda>r. xr_document_id r = i \<and> xr_project_id r = Some p) (kb_extractions s)"

definition source_visible :: "knowledge_db \<Rightarrow> uuid \<Rightarrow> uuid \<Rightarrow> bool" where
  "source_visible s p i = (list_ex (\<lambda>x. so_id x = i) (kb_sources s) \<and> source_access s (ExactScope (Some p)) i)"

definition export_documents :: "knowledge_db \<Rightarrow> uuid \<Rightarrow> source_document list" where
  "export_documents s p = sort_key dc_id [d \<leftarrow> kb_documents s. run_document s p (dc_id d) \<and> source_visible s p (dc_source_id d)]"

definition export_chunks :: "knowledge_db \<Rightarrow> uuid \<Rightarrow> source_chunk list" where
  "export_chunks s p = sort_key ck_id [c \<leftarrow> kb_chunks s. run_document s p (ck_document_id c) \<and>
     list_ex (\<lambda>d. dc_id d = ck_document_id c \<and> source_visible s p (dc_source_id d)) (kb_documents s)]"

definition export_sources :: "knowledge_db \<Rightarrow> uuid \<Rightarrow> knowledge_source list" where
  "export_sources s p = sort_key so_id [x \<leftarrow> kb_sources s.
     (list_ex (\<lambda>l. ml_source_id l = so_id x \<and> memory_in s p (ml_memory_id l)) (kb_links s) \<or>
      list_ex (\<lambda>d. dc_source_id d = so_id x \<and> run_document s p (dc_id d)) (kb_documents s)) \<and>
     source_access s (ExactScope (Some p)) (so_id x)]"

definition export_proposals :: "knowledge_db \<Rightarrow> uuid \<Rightarrow> memory_proposal list" where
  "export_proposals s p = sort_key pp_id [q \<leftarrow> kb_proposals s. pp_project_id q = Some p \<and>
     list_ex (\<lambda>r. xr_id r = pp_run_id q \<and> xr_project_id r = Some p) (kb_extractions s)]"

definition selected_rows :: "knowledge_db \<Rightarrow> uuid \<Rightarrow> knowledge_project \<Rightarrow> project_bundle" where
  "selected_rows s p k = \<lparr> bu_project = k, bu_memories = export_memories s p, bu_embeddings = export_embeddings s p,
     bu_sources = export_sources s p, bu_links = export_links s p, bu_documents = export_documents s p,
     bu_chunks = export_chunks s p, bu_runs = export_runs s p, bu_proposals = export_proposals s p \<rparr>"

section \<open>Export\<close>

datatype (plugins only: code) export_error = ExportProjectNotFoundError | ExportIntegrityError string

text \<open>The first of a list of requirements that does not hold.\<close>

fun first_failure :: "(bool \<times> string) list \<Rightarrow> string option" where
  "first_failure [] = None"
| "first_failure ((ok, message) # rest) = (if ok then first_failure rest else Some message)"

definition optional_in :: "uuid option \<Rightarrow> uuid set \<Rightarrow> bool" where
  "optional_in i ids = (case i of None \<Rightarrow> True | Some k \<Rightarrow> k \<in> ids)"

definition memory_ids :: "project_bundle \<Rightarrow> uuid set" where "memory_ids b = set (map me_id (bu_memories b))"
definition source_ids :: "project_bundle \<Rightarrow> uuid set" where "source_ids b = set (map so_id (bu_sources b))"
definition document_ids :: "project_bundle \<Rightarrow> uuid set" where "document_ids b = set (map dc_id (bu_documents b))"
definition chunk_ids :: "project_bundle \<Rightarrow> uuid set" where "chunk_ids b = set (map ck_id (bu_chunks b))"
definition run_ids :: "project_bundle \<Rightarrow> uuid set" where "run_ids b = set (map xr_id (bu_runs b))"

definition export_failure :: "project_bundle \<Rightarrow> string option" where
  "export_failure b = first_failure (
     [(list_all (\<lambda>e. eb_memory_id e \<in> memory_ids b) (bu_embeddings b), ''embedding references a Memory outside the export''),
      (list_all (\<lambda>l. ml_memory_id l \<in> memory_ids b \<and> ml_source_id l \<in> source_ids b) (bu_links b),
       ''MemorySource reference is outside the export''),
      (list_all (\<lambda>d. dc_source_id d \<in> source_ids b) (bu_documents b), ''document references a Source outside the export''),
      (list_all (\<lambda>c. ck_document_id c \<in> document_ids b) (bu_chunks b), ''chunk references a document outside the export''),
      (list_all (\<lambda>r. xr_document_id r \<in> document_ids b) (bu_runs b),
       ''extraction run references a document outside the export'')] @
     concat (map (\<lambda>q. [(pp_run_id q \<in> run_ids b, ''proposal references a run outside the export''),
       (optional_in (pp_memory_id q) (memory_ids b), ''proposal references a Memory outside the export''),
       (optional_in (pp_source_chunk_id q) (chunk_ids b), ''proposal references a chunk outside the export'')]) (bu_proposals b)) @
     [(list_all (\<lambda>m. optional_in (me_supersedes_id m) (memory_ids b)) (bu_memories b),
       ''Memory supersession reference is outside the export'')])"

definition export_project :: "knowledge_db \<Rightarrow> uuid \<Rightarrow> export_error + project_bundle" where
  "export_project s p =
    (case find_project s p of
       None \<Rightarrow> Inl ExportProjectNotFoundError
     | Some k \<Rightarrow>
         (case export_failure (selected_rows s p k) of
            Some message \<Rightarrow> Inl (ExportIntegrityError message)
          | None \<Rightarrow> Inr (selected_rows s p k)))"

section \<open>Import: the bundle\<close>

datatype (plugins only: code) import_error = ImportBundleError string | ImportConflictError string

text \<open>
  \<open>_validate_semantics\<close> for all rows, with the dimensions of vectors and the lengths of \<open>source\<close> and \<open>title\<close> of a Memory
  that \<open>_coerce_record\<close> checks; the message of the error, which names the file and the kind of fault, is not kept apart.
\<close>

definition chunk_checks :: "source_chunk \<Rightarrow> bool" where
  "chunk_checks c \<longleftrightarrow> tc_char_start (ck_text c) < tc_char_end (ck_text c) \<and> \<not> blank (tc_content (ck_text c)) \<and>
     lower_hex_64 (tc_content_hash (ck_text c))"

definition validate_semantics :: "project_bundle \<Rightarrow> bool" where
  "validate_semantics b \<longleftrightarrow> list_all memory_checks (bu_memories b) \<and>
     list_all (\<lambda>e. embedding_checks e \<and> length (eb_embedding e) = 1536) (bu_embeddings b) \<and>
     list_all document_checks (bu_documents b) \<and> list_all chunk_checks (bu_chunks b) \<and>
     list_all extraction_checks (bu_runs b) \<and>
     list_all (\<lambda>q. proposal_checks q \<and> \<not> blank (pp_content q) \<and> \<not> blank (pp_evidence_text q)) (bu_proposals b)"

text \<open>
  The walk of \<open>_require_refs\<close> along the links: it ends with a Memory that supersedes none, or meets one that it has seen.
  The links are a dict, in which the last of two rows with the same identifier counts.
\<close>

definition supersession_links :: "memory list \<Rightarrow> (uuid \<times> uuid) list" where
  "supersession_links rows = rev [(me_id m, the (me_supersedes_id m)). m \<leftarrow> rows, me_supersedes_id m \<noteq> None]"

function chase :: "(uuid \<times> uuid) list \<Rightarrow> uuid list \<Rightarrow> uuid \<Rightarrow> bool" where
  "chase links seen current =
    (case map_of links current of
       None \<Rightarrow> True
     | Some older \<Rightarrow> if current \<in> set seen then False else chase links (current # seen) older)"
  by pat_completeness auto

termination
proof (relation "measure (\<lambda>(links, seen, current). card (fst ` set links - set seen))", goal_cases)
  case (2 links seen current older)
  then have "current \<in> fst ` set links - set seen" by (force dest: map_of_SomeD)
  then have "card (fst ` set links - set (current # seen)) < card (fst ` set links - set seen)"
    by (intro psubset_card_mono) auto
  then show ?case by simp
qed simp

declare chase.simps [simp del]

definition require_refs :: "project_bundle \<Rightarrow> uuid \<Rightarrow> string option" where
  "require_refs b p = first_failure (
     (kp_id (bu_project b) = p, ''Project ID is inconsistent'') #
     concat (map (\<lambda>m. [(me_project_id m = Some p, ''Memory points outside the bundle Project''),
       (optional_in (me_supersedes_id m) (memory_ids b), ''Memory supersession points outside the bundle'')]) (bu_memories b)) @
     [(list_all (\<lambda>e. eb_memory_id e \<in> memory_ids b) (bu_embeddings b), ''memory_embeddings.jsonl reference points outside bundle''),
      (list_all (\<lambda>l. ml_memory_id l \<in> memory_ids b) (bu_links b), ''memory_sources.jsonl reference points outside bundle''),
      (list_all (\<lambda>l. ml_source_id l \<in> source_ids b) (bu_links b), ''memory_sources.jsonl reference points outside bundle''),
      (list_all (\<lambda>d. dc_source_id d \<in> source_ids b) (bu_documents b), ''source_documents.jsonl reference points outside bundle''),
      (list_all (\<lambda>c. ck_document_id c \<in> document_ids b) (bu_chunks b), ''source_chunks.jsonl reference points outside bundle''),
      (list_all (\<lambda>r. xr_document_id r \<in> document_ids b) (bu_runs b),
       ''memory_extraction_runs.jsonl reference points outside bundle''),
      (list_all (\<lambda>q. pp_run_id q \<in> run_ids b) (bu_proposals b), ''memory_proposals.jsonl reference points outside bundle''),
      (list_all (\<lambda>q. optional_in (pp_source_chunk_id q) (chunk_ids b)) (bu_proposals b),
       ''memory_proposals.jsonl reference points outside bundle''),
      (list_all (\<lambda>q. optional_in (pp_memory_id q) (memory_ids b)) (bu_proposals b),
       ''memory_proposals.jsonl reference points outside bundle''),
      (list_all (\<lambda>r. xr_project_id r = Some p) (bu_runs b), ''memory_extraction_runs.jsonl points outside the bundle Project''),
      (list_all (\<lambda>q. pp_project_id q = Some p) (bu_proposals b), ''memory_proposals.jsonl points outside the bundle Project''),
      (list_all (\<lambda>(start, _). chase (supersession_links (bu_memories b)) [] start) (supersession_links (bu_memories b)),
       ''Memory supersession cycle'')])"

section \<open>Import: the target\<close>

definition unique_conflict :: "string \<Rightarrow> ('r \<Rightarrow> 'k option) \<Rightarrow> 'r list \<Rightarrow> 'r list \<Rightarrow> import_error option" where
  "unique_conflict name key rows stored =
    (let values = List.map_filter key rows in
     if \<not> distinct values then Some (ImportBundleError (name @ '' contains duplicate unique identities''))
     else if list_ex (\<lambda>x. key x \<noteq> None \<and> key x \<in> Some ` set values) stored
     then Some (ImportConflictError (name @ '' unique-identity conflict''))
     else None)"

definition key_conflict :: "string \<Rightarrow> ('r \<Rightarrow> uuid) \<Rightarrow> 'r list \<Rightarrow> 'r list \<Rightarrow> import_error option" where
  "key_conflict name key rows stored =
    (if \<not> distinct (map key rows) then Some (ImportBundleError (name @ '' contains duplicate IDs''))
     else if list_ex (\<lambda>x. key x \<in> key ` set rows) stored then Some (ImportConflictError (name @ '' primary-key conflict''))
     else None)"

fun first_error :: "'e option list \<Rightarrow> 'e option" where
  "first_error [] = None"
| "first_error (None # rest) = first_error rest"
| "first_error (Some e # rest) = Some e"

text \<open>The unique constraints of a table are a set in the code, so the order between two of them is one of the possible ones.\<close>

definition check_conflicts :: "knowledge_db \<Rightarrow> project_bundle \<Rightarrow> import_error option" where
  "check_conflicts s b = first_error
    [key_conflict ''project.json'' kp_id [bu_project b] (kb_projects s),
     key_conflict ''memories.jsonl'' me_id (bu_memories b) (kb_memories s),
     key_conflict ''memory_embeddings.jsonl'' eb_id (bu_embeddings b) (kb_embeddings s),
     unique_conflict ''memory_embeddings.jsonl'' (\<lambda>e. Some (eb_memory_id e)) (bu_embeddings b) (kb_embeddings s),
     key_conflict ''sources.jsonl'' so_id (bu_sources b) (kb_sources s),
     key_conflict ''memory_sources.jsonl'' ml_id (bu_links b) (kb_links s),
     unique_conflict ''memory_sources.jsonl'' (\<lambda>l. Some (ml_memory_id l, ml_source_id l)) (bu_links b) (kb_links s),
     key_conflict ''source_documents.jsonl'' dc_id (bu_documents b) (kb_documents s),
     unique_conflict ''source_documents.jsonl'' (\<lambda>d. Some (dc_source_id d)) (bu_documents b) (kb_documents s),
     key_conflict ''source_chunks.jsonl'' ck_id (bu_chunks b) (kb_chunks s),
     unique_conflict ''source_chunks.jsonl'' (\<lambda>c. Some (ck_document_id c, tc_chunk_index (ck_text c))) (bu_chunks b) (kb_chunks s),
     key_conflict ''memory_extraction_runs.jsonl'' xr_id (bu_runs b) (kb_extractions s),
     unique_conflict ''memory_extraction_runs.jsonl''
       (\<lambda>r. Some (xr_document_id r, xr_provider r, xr_model r, xr_prompt_version r, xr_input_hash r)) (bu_runs b) (kb_extractions s),
     key_conflict ''memory_proposals.jsonl'' pp_id (bu_proposals b) (kb_proposals s),
     unique_conflict ''memory_proposals.jsonl''
       (\<lambda>q. map_option (\<lambda>c. (pp_run_id q, c, pp_proposal_index q)) (pp_source_chunk_id q)) (bu_proposals b) (kb_proposals s),
     unique_conflict ''memory_proposals.jsonl'' (\<lambda>q. Some (pp_run_id q, pp_proposal_hash q)) (bu_proposals b) (kb_proposals s),
     unique_conflict ''memory_proposals.jsonl'' pp_memory_id (bu_proposals b) (kb_proposals s)]"

text \<open>\<open>_memory_order\<close>: round by round the Memories whose predecessor is in, \<open>None\<close> when a round has none.\<close>

definition ready_memories :: "memory list \<Rightarrow> memory list \<Rightarrow> memory list" where
  "ready_memories remaining ordered =
     sort_key me_id [m \<leftarrow> remaining. optional_in (me_supersedes_id m) (set (map me_id ordered))]"

function memory_rounds :: "memory list \<Rightarrow> memory list \<Rightarrow> memory list option" where
  "memory_rounds remaining ordered =
    (if remaining = [] then Some ordered
     else let ready = ready_memories remaining ordered in
       if ready = [] then None
       else memory_rounds [m \<leftarrow> remaining. me_id m \<notin> set (map me_id ready)] (ordered @ ready))"
  by pat_completeness auto

termination
proof (relation "measure (\<lambda>(remaining, ordered). length remaining)", goal_cases)
  case (2 remaining ordered ready)
  then have m: "hd ready \<in> set ready" by simp
  then have "hd ready \<in> set remaining" "\<not> me_id (hd ready) \<notin> set (map me_id ready)"
    using 2 by (simp_all add: ready_memories_def)
  then show ?case by (auto intro!: length_filter_less)
qed simp

declare memory_rounds.simps [simp del]

definition memory_order :: "memory list \<Rightarrow> memory list option" where
  "memory_order rows = memory_rounds rows []"

definition bundle_ids :: "project_bundle \<Rightarrow> uuid list" where
  "bundle_ids b = kp_id (bu_project b) # map me_id (bu_memories b) @ map eb_id (bu_embeddings b) @ map so_id (bu_sources b) @
     map ml_id (bu_links b) @ map dc_id (bu_documents b) @ map ck_id (bu_chunks b) @ map xr_id (bu_runs b) @
     map pp_id (bu_proposals b)"

text \<open>The inserts. No identifier of the bundle is handed out again, as \<open>uuid4\<close> does not repeat.\<close>

definition insert_rows :: "project_bundle \<Rightarrow> memory list \<Rightarrow> knowledge_db \<Rightarrow> knowledge_db" where
  "insert_rows b ordered s = s\<lparr>kb_next_id := foldr max (map Suc (bundle_ids b)) (kb_next_id s),
     kb_projects := kb_projects s @ [bu_project b], kb_memories := kb_memories s @ ordered,
     kb_embeddings := kb_embeddings s @ bu_embeddings b, kb_sources := kb_sources s @ bu_sources b,
     kb_documents := kb_documents s @ bu_documents b, kb_chunks := kb_chunks s @ bu_chunks b, kb_links := kb_links s @ bu_links b,
     kb_extractions := kb_extractions s @ bu_runs b, kb_proposals := kb_proposals s @ bu_proposals b\<rparr>"

definition import_project ::
  "project_bundle \<Rightarrow> uuid \<Rightarrow> bool \<Rightarrow> uuid option \<Rightarrow> knowledge_db \<Rightarrow> (import_error + string) \<times> knowledge_db" where
  "import_project b manifest_project execute expected s =
    (if \<not> validate_semantics b then (Inl (ImportBundleError ''a row is invalid''), s)
     else case require_refs b manifest_project of
       Some message \<Rightarrow> (Inl (ImportBundleError message), s)
     | None \<Rightarrow>
         if execute \<and> expected \<noteq> Some manifest_project
         then (Inl (ImportBundleError ''ExpectedProjectId must exactly match the manifest''), s)
         else case check_conflicts s b of
           Some e \<Rightarrow> (Inl e, s)
         | None \<Rightarrow>
             if \<not> execute then (Inr ''validated'', s)
             else case memory_order (bu_memories b) of
               None \<Rightarrow> (Inl (ImportBundleError ''Memory supersession cycle''), s)
             | Some ordered \<Rightarrow> (Inr ''imported'', insert_rows b ordered s))"

end
