(* ===== verification/Transfer_Properties.thy ===== *)
theory Transfer_Properties
  imports Project_Transfer Extraction_Properties "HOL-Library.Multiset"
begin

text \<open>
  Export and import of a Project: the order in which Memories are restored, the round trip through a bundle, and a
  supersession across Projects that makes every later export fail.
\<close>

section \<open>Requirements\<close>

lemma first_failure_None: "first_failure reqs = None \<longleftrightarrow> (\<forall>r \<in> set reqs. fst r)"
  by (induction reqs rule: first_failure.induct) auto

lemma export_failure_None: "export_failure b = None \<longleftrightarrow>
    (\<forall>e \<in> set (bu_embeddings b). eb_memory_id e \<in> memory_ids b) \<and>
    (\<forall>l \<in> set (bu_links b). ml_memory_id l \<in> memory_ids b \<and> ml_source_id l \<in> source_ids b) \<and>
    (\<forall>d \<in> set (bu_documents b). dc_source_id d \<in> source_ids b) \<and>
    (\<forall>c \<in> set (bu_chunks b). ck_document_id c \<in> document_ids b) \<and>
    (\<forall>r \<in> set (bu_runs b). xr_document_id r \<in> document_ids b) \<and>
    (\<forall>q \<in> set (bu_proposals b). pp_run_id q \<in> run_ids b \<and> optional_in (pp_memory_id q) (memory_ids b) \<and>
       optional_in (pp_source_chunk_id q) (chunk_ids b)) \<and>
    (\<forall>m \<in> set (bu_memories b). optional_in (me_supersedes_id m) (memory_ids b))"
  unfolding export_failure_def first_failure_None by (auto simp: list_all_iff)

section \<open>The order of Memories\<close>

definition predecessors_first :: "memory list \<Rightarrow> bool" where
  "predecessors_first rows \<longleftrightarrow> (\<forall>k < length rows. \<forall>q. me_supersedes_id (rows ! k) = Some q \<longrightarrow> q \<in> me_id ` set (take k rows))"

lemma ready_iff: "m \<in> set (ready_memories remaining ordered) \<longleftrightarrow>
    m \<in> set remaining \<and> (\<forall>q. me_supersedes_id m = Some q \<longrightarrow> q \<in> me_id ` set ordered)"
  by (auto simp: ready_memories_def optional_in_def split: option.splits)

lemma predecessors_first_ready:
  assumes "predecessors_first ordered"
  shows "predecessors_first (ordered @ ready_memories remaining ordered)"
  unfolding predecessors_first_def
proof (intro allI impI)
  fix k q assume k: "k < length (ordered @ ready_memories remaining ordered)"
    and q: "me_supersedes_id ((ordered @ ready_memories remaining ordered) ! k) = Some q"
  show "q \<in> me_id ` set (take k (ordered @ ready_memories remaining ordered))"
  proof (cases "k < length ordered")
    case True
    then show ?thesis using assms q by (auto simp: predecessors_first_def nth_append)
  next
    case False
    then have "ready_memories remaining ordered ! (k - length ordered) \<in> set (ready_memories remaining ordered)" using k by simp
    then show ?thesis using q False unfolding ready_iff by (auto simp: nth_append)
  qed
qed

lemma ready_split:
  assumes "distinct (map me_id remaining)"
  shows "mset [m \<leftarrow> remaining. me_id m \<notin> set (map me_id (ready_memories remaining ordered))] + mset (ready_memories remaining ordered) =
    mset remaining"
proof -
  let ?P = "\<lambda>m. optional_in (me_supersedes_id m) (set (map me_id ordered))"
  have inj: "inj_on me_id (set remaining)" using assms by (simp add: distinct_map)
  have ready: "set (ready_memories remaining ordered) = {m \<in> set remaining. ?P m}" by (auto simp: ready_memories_def)
  have "me_id m \<in> me_id ` {m \<in> set remaining. ?P m} \<longleftrightarrow> ?P m" if "m \<in> set remaining" for m
    using inj that by (auto dest: inj_onD)
  then have "[m \<leftarrow> remaining. me_id m \<notin> set (map me_id (ready_memories remaining ordered))] = [m \<leftarrow> remaining. \<not> ?P m]"
    unfolding set_map ready by (intro filter_cong) auto
  then show ?thesis by (simp add: ready_memories_def union_filter_mset_complement fun_eq_iff)
qed

lemma memory_rounds_sound:
  assumes "memory_rounds remaining ordered = Some out" and "distinct (map me_id remaining)" and "predecessors_first ordered"
  shows "mset out = mset remaining + mset ordered \<and> predecessors_first out"
  using assms
proof (induction remaining ordered rule: memory_rounds.induct)
  case (1 remaining ordered)
  show ?case
  proof (cases "remaining = []")
    case True
    then show ?thesis using 1(2-) by (simp add: memory_rounds.simps)
  next
    case False
    let ?ready = "ready_memories remaining ordered" and ?rest = "[m \<leftarrow> remaining. me_id m \<notin> set (map me_id (ready_memories remaining ordered))]"
    have rec: "?ready \<noteq> []" "memory_rounds ?rest (ordered @ ?ready) = Some out"
      using 1(2) False by (auto simp: memory_rounds.simps [of remaining ordered] Let_def split: if_splits)
    have "mset out = mset ?rest + mset (ordered @ ?ready) \<and> predecessors_first out"
      by (rule 1(1) [OF False refl rec(1,2)]) (use 1(3,4) predecessors_first_ready in \<open>auto simp: distinct_map inj_on_def\<close>)
    then show ?thesis using ready_split [OF 1(3), of ordered] by (auto simp: union_ac)
  qed
qed

lemma memory_rounds_complete:
  assumes "distinct (map me_id remaining)" and "acyclic (chain_links remaining)"
    and "\<And>m q. m \<in> set remaining \<Longrightarrow> me_supersedes_id m = Some q \<Longrightarrow> q \<in> me_id ` (set remaining \<union> set ordered)"
  shows "memory_rounds remaining ordered \<noteq> None"
  using assms
proof (induction remaining ordered rule: memory_rounds.induct)
  case (1 remaining ordered)
  show ?case
  proof (cases "remaining = []")
    case False
    let ?ready = "ready_memories remaining ordered" and ?rest = "[m \<leftarrow> remaining. me_id m \<notin> set (map me_id (ready_memories remaining ordered))]"
    have "finite (chain_links remaining)"
      by (rule finite_subset [of _ "(\<lambda>m. (me_id m, the (me_supersedes_id m))) ` set remaining"]) (force simp: chain_links_def)+
    then have "wf ((chain_links remaining)\<inverse>)" using 1(3) by (rule finite_acyclic_wf_converse)
    moreover obtain i where "i \<in> me_id ` set remaining" using False by (cases remaining) auto
    ultimately obtain z where z: "z \<in> me_id ` set remaining" "\<And>y. (z, y) \<in> chain_links remaining \<Longrightarrow> y \<notin> me_id ` set remaining"
      by (rule wfE_min) auto
    then obtain m where m: "m \<in> set remaining" "me_id m = z" by auto
    have "m \<in> set ?ready" unfolding ready_iff
    proof (intro conjI allI impI m(1))
      fix q assume q: "me_supersedes_id m = Some q"
      then have "(z, q) \<in> chain_links remaining" using m by (auto simp: chain_links_def)
      then show "q \<in> me_id ` set ordered" using z(2) 1(4) [OF m(1) q] by blast
    qed
    then have "?ready \<noteq> []" by auto
    moreover have "memory_rounds ?rest (ordered @ ?ready) \<noteq> None"
    proof (rule 1(1) [OF False refl \<open>?ready \<noteq> []\<close>])
      show "distinct (map me_id ?rest)" using 1(2) by (simp add: distinct_map inj_on_def)
      show "acyclic (chain_links ?rest)" using 1(3) by (rule acyclic_subset) (auto simp: chain_links_def)
      fix x q assume "x \<in> set ?rest" "me_supersedes_id x = Some q"
      then have "q \<in> me_id ` (set remaining \<union> set ordered)" using 1(4) by auto
      moreover have "me_id ` set remaining \<subseteq> me_id ` (set ?rest \<union> set ?ready)" by auto
      ultimately show "q \<in> me_id ` (set ?rest \<union> set (ordered @ ?ready))" unfolding set_append image_Un by blast
    qed
    ultimately show ?thesis using False by (simp add: memory_rounds.simps [of remaining ordered] Let_def)
  qed (simp add: memory_rounds.simps)
qed

lemma predecessors_first_acyclic:
  assumes "distinct (map me_id rows)" and "predecessors_first rows"
  shows "acyclic (chain_links rows)"
proof -
  define f where "f i = (LEAST k. k < length rows \<and> me_id (rows ! k) = i)" for i
  have "f b < f a" if link: "(a, b) \<in> chain_links rows" for a b
  proof -
    obtain m where "m \<in> set rows" "me_id m = a" "me_supersedes_id m = Some b" using link by (auto simp: chain_links_def)
    then obtain k where k: "k < length rows" "me_id (rows ! k) = a" "me_supersedes_id (rows ! k) = Some b"
      by (metis in_set_conv_nth)
    have "k \<le> j" if "j < length rows \<and> me_id (rows ! j) = a" for j
      using nth_eq_iff_index_eq [OF assms(1), of j k] that k(1,2) by simp
    then have "f a = k" unfolding f_def using k(1,2) by (intro Least_equality) blast+
    have "b \<in> me_id ` set (take k rows)" using assms(2) k unfolding predecessors_first_def by blast
    then obtain x where "x \<in> set (take k rows)" "me_id x = b" by blast
    then obtain j where "j < k" "me_id (rows ! j) = b" by (auto simp: in_set_conv_nth)
    then have "f b \<le> j" unfolding f_def using k(1) by (intro Least_le) auto
    then show ?thesis using \<open>j < k\<close> \<open>f a = k\<close> by simp
  qed
  then have "chain_links rows \<subseteq> (measure f)\<inverse>" by auto
  moreover have "acyclic ((measure f)\<inverse>)" by (simp add: wf_acyclic)
  ultimately show ?thesis by (rule acyclic_subset [rotated])
qed

lemma memory_order_sound:
  "memory_order rows = Some out \<Longrightarrow> distinct (map me_id rows) \<Longrightarrow> mset out = mset rows \<and> predecessors_first out"
  using memory_rounds_sound [of rows "[]" out] by (simp add: memory_order_def predecessors_first_def)

lemma memory_order_complete:
  "distinct (map me_id rows) \<Longrightarrow> acyclic (chain_links rows) \<Longrightarrow>
     (\<And>m q. m \<in> set rows \<Longrightarrow> me_supersedes_id m = Some q \<Longrightarrow> q \<in> me_id ` set rows) \<Longrightarrow> memory_order rows \<noteq> None"
  unfolding memory_order_def by (rule memory_rounds_complete) auto

text \<open>C33: The order in which Memories are restored. If the identifiers are unique and every supersession points inside
  the bundle, then an order is found just if the chains have no cycle; it has exactly the Memories of the bundle, and each
  comes after the Memory that it supersedes.\<close>

theorem memory_order_respects_chains:
  assumes "distinct (map me_id rows)" and "\<And>m q. m \<in> set rows \<Longrightarrow> me_supersedes_id m = Some q \<Longrightarrow> q \<in> me_id ` set rows"
  shows "(memory_order rows \<noteq> None \<longleftrightarrow> acyclic {(me_id m, q) |m q. m \<in> set rows \<and> me_supersedes_id m = Some q}) \<and>
    (\<forall>out. memory_order rows = Some out \<longrightarrow> mset out = mset rows \<and>
       (\<forall>k < length out. \<forall>q. me_supersedes_id (out ! k) = Some q \<longrightarrow> q \<in> me_id ` set (take k out)))"
proof -
  have sound: "mset out = mset rows \<and> predecessors_first out" if "memory_order rows = Some out" for out
    using memory_order_sound [OF that assms(1)] .
  have "acyclic (chain_links rows)" if found: "memory_order rows = Some out" for out
  proof -
    have out: "mset out = mset rows" "predecessors_first out" using sound [OF found] by auto
    have "distinct (map me_id out)" using assms(1) out(1) by (metis mset_map mset_eq_imp_distinct_iff)
    then have "acyclic (chain_links out)" using out(2) by (rule predecessors_first_acyclic)
    moreover have "chain_links out = chain_links rows" using mset_eq_setD [OF out(1)] by (simp add: chain_links_def)
    ultimately show ?thesis by simp
  qed
  moreover have "memory_order rows \<noteq> None" if "acyclic (chain_links rows)"
    using memory_order_complete [OF assms(1) that] assms(2) by blast
  ultimately show ?thesis using sound unfolding predecessors_first_def chain_links_def by blast
qed

section \<open>The round trip\<close>

text \<open>What the constraints of the database guarantee of the stored rows.\<close>

definition transferable :: "knowledge_db \<Rightarrow> bool" where
  "transferable s \<longleftrightarrow> memory_rows_ok s \<and>
     distinct (map eb_id (kb_embeddings s)) \<and> distinct (map eb_memory_id (kb_embeddings s)) \<and>
     distinct (map so_id (kb_sources s)) \<and> distinct (map ml_id (kb_links s)) \<and>
     distinct (map (\<lambda>l. (ml_memory_id l, ml_source_id l)) (kb_links s)) \<and>
     distinct (map dc_id (kb_documents s)) \<and> distinct (map dc_source_id (kb_documents s)) \<and>
     distinct (map ck_id (kb_chunks s)) \<and> distinct (map (\<lambda>c. (ck_document_id c, tc_chunk_index (ck_text c))) (kb_chunks s)) \<and>
     distinct (map xr_id (kb_extractions s)) \<and>
     distinct (map (\<lambda>r. (xr_document_id r, xr_provider r, xr_model r, xr_prompt_version r, xr_input_hash r)) (kb_extractions s)) \<and>
     distinct (map pp_id (kb_proposals s)) \<and>
     distinct (List.map_filter (\<lambda>q. map_option (\<lambda>c. (pp_run_id q, c, pp_proposal_index q)) (pp_source_chunk_id q)) (kb_proposals s)) \<and>
     distinct (map (\<lambda>q. (pp_run_id q, pp_proposal_hash q)) (kb_proposals s)) \<and>
     distinct (List.map_filter pp_memory_id (kb_proposals s)) \<and>
     list_all (\<lambda>e. embedding_checks e \<and> length (eb_embedding e) = 1536) (kb_embeddings s) \<and>
     list_all document_checks (kb_documents s) \<and> list_all chunk_checks (kb_chunks s) \<and>
     list_all extraction_checks (kb_extractions s) \<and>
     list_all (\<lambda>q. proposal_checks q \<and> \<not> blank (pp_content q) \<and> \<not> blank (pp_evidence_text q)) (kb_proposals s)"

lemma distinct_selected: "distinct (map f xs) \<Longrightarrow> distinct (map f (sort_key g (filter P xs)))"
  by (simp add: distinct_map inj_on_def)

lemma map_filter_Some: "List.map_filter (\<lambda>x. Some (f x)) xs = map f xs"
  by (simp add: map_filter_def)

lemma distinct_map_filter_perm:
  assumes "distinct (List.map_filter f xs)" and "distinct ys" and "set ys \<subseteq> set xs"
  shows "distinct (List.map_filter f ys)"
proof -
  have one: "x = y" if "x \<in> set xs" "y \<in> set xs" "f x = Some k" "f y = Some k" for x y k
    using assms(1) that
  proof (induction xs)
    case (Cons a xs)
    have "f z = Some k \<Longrightarrow> z \<in> set xs \<Longrightarrow> k \<in> set (List.map_filter f xs)" for z by (force simp: map_filter_def)
    then show ?case using Cons by (auto simp: map_filter_simps split: option.splits)
  qed simp
  have "inj_on (the \<circ> f) (set (filter (\<lambda>x. f x \<noteq> None) ys))"
    using one assms(3) by (fastforce intro!: inj_onI)
  then show ?thesis using assms(2) by (simp add: map_filter_def distinct_map comp_def)
qed

lemma sorted_key_unique:
  fixes f :: "'a \<Rightarrow> nat"
  assumes "sorted (map f xs)" "sorted (map f ys)" "distinct (map f xs)" "distinct (map f ys)" "set xs = set ys"
  shows "xs = ys"
proof -
  have "map f xs = map f ys" using assms by (intro sorted_distinct_set_unique) auto
  moreover have "inj_on f (set xs \<union> set ys)" using assms(3,5) by (simp add: distinct_map)
  ultimately show ?thesis by (rule map_inj_on)
qed

lemma supersession_links_set: "set (supersession_links rows) = chain_links rows"
  by (force simp: supersession_links_def chain_links_def)

lemma chase_acyclic:
  assumes "acyclic (set links)" and "\<forall>x \<in> set seen. (x, current) \<in> (set links)\<^sup>+"
  shows "chase links seen current"
  using assms
proof (induction links seen current rule: chase.induct)
  case (1 links seen current)
  show ?case
  proof (cases "map_of links current")
    case (Some older)
    then have link: "(current, older) \<in> set links" by (rule map_of_SomeD)
    have "current \<notin> set seen" using 1(2,3) by (auto simp: acyclic_def)
    moreover have "chase links (current # seen) older"
      by (rule 1(1) [OF Some calculation 1(2)]) (use 1(3) link in \<open>auto intro: trancl_into_trancl\<close>)
    ultimately show ?thesis using Some by (simp add: chase.simps [of links seen current])
  qed (simp add: chase.simps)
qed

lemma exported:
  assumes "export_project s p = Inr b"
  shows "\<exists>k. find_project s p = Some k \<and> kp_id k = p \<and> b = selected_rows s p k \<and> export_failure b = None"
  using assms by (auto simp: export_project_def find_project_def dest: row_get_key split: option.splits)

lemma exported_memories_ok:
  assumes "memory_rows_ok s" and "export_project s p = Inr b"
  shows "distinct (map me_id (bu_memories b)) \<and> acyclic (chain_links (bu_memories b)) \<and>
    (\<forall>m \<in> set (bu_memories b). me_project_id m = Some p \<and> memory_checks m \<and>
       (\<forall>q. me_supersedes_id m = Some q \<longrightarrow> q \<in> me_id ` set (bu_memories b)))"
proof -
  obtain k where b: "b = selected_rows s p k" "export_failure b = None" using exported [OF assms(2)] by blast
  have rows: "bu_memories b = sort_key me_id [m \<leftarrow> kb_memories s. me_project_id m = Some p]"
    by (simp add: b(1) selected_rows_def export_memories_def)
  have "chain_links (bu_memories b) \<subseteq> chain_links (kb_memories s)" by (auto simp: rows chain_links_def)
  then have "acyclic (chain_links (bu_memories b))" using assms(1) acyclic_subset by (auto simp: memory_rows_ok_def)
  moreover have "q \<in> me_id ` set (bu_memories b)" if "m \<in> set (bu_memories b)" "me_supersedes_id m = Some q" for m q
    using b(2) that by (force simp: export_failure_None optional_in_def memory_ids_def)
  ultimately show ?thesis using assms(1) by (auto simp: rows memory_rows_ok_def list_all_iff distinct_map inj_on_def)
qed

lemma exported_semantics:
  assumes "transferable s" and "export_project s p = Inr b"
  shows "validate_semantics b"
proof -
  obtain k where b: "b = selected_rows s p k" using exported [OF assms(2)] by blast
  show ?thesis using exported_memories_ok [OF _ assms(2)] assms(1)
    by (auto simp: transferable_def validate_semantics_def list_all_iff b selected_rows_def export_embeddings_def export_documents_def
        export_chunks_def export_runs_def export_proposals_def)
qed

lemma exported_refs:
  assumes "transferable s" and "export_project s p = Inr b"
  shows "require_refs b p = None"
proof -
  obtain k where b: "kp_id k = p" "b = selected_rows s p k" "export_failure b = None" using exported [OF assms(2)] by blast
  have m: "acyclic (chain_links (bu_memories b))" "\<forall>m \<in> set (bu_memories b). me_project_id m = Some p"
    using exported_memories_ok [OF _ assms(2)] assms(1) by (auto simp: transferable_def)
  have chases: "chase (supersession_links (bu_memories b)) [] start" for start
    by (rule chase_acyclic) (simp_all add: supersession_links_set m(1))
  have p: "\<forall>r \<in> set (bu_runs b). xr_project_id r = Some p" "\<forall>q \<in> set (bu_proposals b). pp_project_id q = Some p" "kp_id (bu_project b) = p"
    by (simp_all add: b(1,2) selected_rows_def export_runs_def export_proposals_def)
  show ?thesis using b(3) m(2) p chases unfolding require_refs_def first_failure_None export_failure_None
    by (auto simp: list_all_iff)
qed

lemma first_error_None: "first_error es = None \<longleftrightarrow> (\<forall>e \<in> set es. e = None)"
  by (induction es rule: first_error.induct) auto

lemma no_key_conflict: "distinct (map key rows) \<Longrightarrow> key_conflict name key rows [] = None"
  by (simp add: key_conflict_def)

lemma no_unique_conflict: "distinct (List.map_filter key rows) \<Longrightarrow> unique_conflict name key rows [] = None"
  by (simp add: unique_conflict_def Let_def)

lemma exported_no_conflict:
  assumes "transferable s" and "export_project s p = Inr b"
  shows "check_conflicts empty_knowledge b = None"
proof -
  obtain k where b: "b = selected_rows s p k" using exported [OF assms(2)] by blast
  have q: "distinct (bu_proposals b)" "set (bu_proposals b) \<subseteq> set (kb_proposals s)"
    using assms(1) by (auto simp: b selected_rows_def export_proposals_def transferable_def distinct_map)
  show ?thesis
    unfolding check_conflicts_def first_error_None
    using assms(1) exported_memories_ok [OF _ assms(2)] distinct_map_filter_perm [where f = pp_memory_id, OF _ q]
      distinct_map_filter_perm [where f = "\<lambda>q. map_option (\<lambda>c. (pp_run_id q, c, pp_proposal_index q)) (pp_source_chunk_id q)", OF _ q]
    by (auto intro!: no_key_conflict no_unique_conflict distinct_selected
        simp: transferable_def empty_knowledge_def map_filter_Some b selected_rows_def export_embeddings_def export_documents_def
          export_chunks_def export_runs_def export_proposals_def export_sources_def export_links_def)
qed

section \<open>Exporting what was imported\<close>

text \<open>\<open>t\<close> is a database that holds an export of \<open>s\<close> and nothing else: there the queries select the same rows again.\<close>

definition restored :: "knowledge_db \<Rightarrow> uuid \<Rightarrow> knowledge_project \<Rightarrow> memory list \<Rightarrow> knowledge_db \<Rightarrow> bool" where
  "restored s p k ordered t \<longleftrightarrow> transferable s \<and> export_failure (selected_rows s p k) = None \<and>
     set ordered = set (export_memories s p) \<and> distinct (map me_id ordered) \<and>
     t = insert_rows (selected_rows s p k) ordered empty_knowledge"

lemma restored_tables:
  assumes "restored s p k ordered t"
  shows "kb_projects t = [k]" "kb_memories t = ordered" "kb_embeddings t = export_embeddings s p" "kb_sources t = export_sources s p"
    "kb_links t = export_links s p" "kb_documents t = export_documents s p" "kb_chunks t = export_chunks s p"
    "kb_extractions t = export_runs s p" "kb_proposals t = export_proposals s p" "kb_captures t = []"
  using assms by (simp_all add: restored_def insert_rows_def selected_rows_def empty_knowledge_def)

lemma restored_refs:
  assumes "restored s p k ordered t"
  shows "\<And>e. e \<in> set (export_embeddings s p) \<Longrightarrow> eb_memory_id e \<in> me_id ` set (export_memories s p)"
    "\<And>l. l \<in> set (export_links s p) \<Longrightarrow> ml_memory_id l \<in> me_id ` set (export_memories s p)"
    "\<And>d. d \<in> set (export_documents s p) \<Longrightarrow> dc_source_id d \<in> so_id ` set (export_sources s p)"
    "\<And>c. c \<in> set (export_chunks s p) \<Longrightarrow> ck_document_id c \<in> dc_id ` set (export_documents s p)"
  using assms unfolding restored_def export_failure_None
  by (simp_all add: selected_rows_def memory_ids_def source_ids_def document_ids_def)

lemma restored_memory_in:
  assumes "restored s p k ordered t"
  shows "memory_in t p i \<longleftrightarrow> i \<in> me_id ` set (export_memories s p)"
  using assms restored_tables [OF assms] by (force simp: memory_in_def list_ex_iff restored_def export_memories_def)

lemma restored_run_document:
  assumes "restored s p k ordered t"
  shows "run_document t p i \<longleftrightarrow> run_document s p i"
  by (auto simp: run_document_def restored_tables [OF assms] export_runs_def list_ex_iff)

lemma restored_visible:
  assumes "restored s p k ordered t"
  shows "source_visible t p i \<longleftrightarrow> i \<in> so_id ` set (export_sources s p)"
  by (force simp: source_visible_def restored_tables [OF assms] source_access_def source_bindings_def list_ex_iff)

lemma sort_key_again: "sort_key f (sort_key f xs) = sort_key f xs"
  by (simp add: sort_key_id_if_sorted)

lemma restored_selection:
  assumes r: "restored s p k ordered t"
  shows "selected_rows t p k = selected_rows s p k"
proof -
  note tables = restored_tables [OF r] and refs = restored_refs [OF r]
  note facts = restored_memory_in [OF r] restored_run_document [OF r] restored_visible [OF r]
  have same: "sort_key f (filter P xs) = xs" if "\<And>x. x \<in> set xs \<Longrightarrow> P x" "sort_key f xs = xs" for f :: "'a \<Rightarrow> nat" and P xs
    using that by (simp add: filter_id_conv)
  have "export_memories t p = export_memories s p"
  proof (rule sorted_key_unique [where f = me_id])
    have all: "set ordered = set (export_memories s p)" "distinct (map me_id ordered)" "distinct (map me_id (kb_memories s))"
      using r by (simp_all add: restored_def transferable_def memory_rows_ok_def)
    have "\<forall>m \<in> set ordered. me_project_id m = Some p" unfolding all(1) by (simp add: export_memories_def)
    then have "filter (\<lambda>m. me_project_id m = Some p) ordered = ordered" by (simp add: filter_id_conv)
    then show "set (export_memories t p) = set (export_memories s p)"
      by (simp add: export_memories_def [of t] tables all(1))
    show "distinct (map me_id (export_memories t p))" unfolding export_memories_def tables by (rule distinct_selected [OF all(2)])
    show "distinct (map me_id (export_memories s p))" unfolding export_memories_def by (rule distinct_selected [OF all(3)])
  qed (simp_all add: export_memories_def)
  moreover have "export_embeddings t p = export_embeddings s p"
    unfolding export_embeddings_def [of t] tables by (rule same) (simp_all add: facts refs, simp add: export_embeddings_def sort_key_again)
  moreover have "export_links t p = export_links s p"
    unfolding export_links_def [of t] tables by (rule same) (simp_all add: facts refs, simp add: export_links_def sort_key_again)
  moreover have "export_runs t p = export_runs s p"
    unfolding export_runs_def [of t] tables by (rule same) (simp_all add: export_runs_def sort_key_again)
  moreover have "export_documents t p = export_documents s p"
    unfolding export_documents_def [of t] tables
    by (rule same) (simp_all add: facts refs, simp_all add: export_documents_def sort_key_again)
  moreover have "export_chunks t p = export_chunks s p"
    unfolding export_chunks_def [of t] tables
  proof (rule same)
    fix c assume c: "c \<in> set (export_chunks s p)"
    then obtain d where "d \<in> set (export_documents s p)" "dc_id d = ck_document_id c" using refs(4) by force
    then have "list_ex (\<lambda>d. dc_id d = ck_document_id c \<and> source_visible t p (dc_source_id d)) (export_documents s p)"
      using refs(3) facts(3) by (auto simp: list_ex_iff)
    then show "run_document t p (ck_document_id c) \<and>
        list_ex (\<lambda>d. dc_id d = ck_document_id c \<and> source_visible t p (dc_source_id d)) (export_documents s p)"
      using c facts(2) by (simp add: export_chunks_def)
  qed (simp add: export_chunks_def sort_key_again)
  moreover have "export_sources t p = export_sources s p"
    unfolding export_sources_def [of t] tables
  proof (rule same)
    fix x assume x: "x \<in> set (export_sources s p)"
    then have access: "source_access s (ExactScope (Some p)) (so_id x)" "x \<in> set (kb_sources s)" by (simp_all add: export_sources_def)
    have "memory_in s p i \<Longrightarrow> memory_in t p i" for i unfolding facts by (auto simp: memory_in_def list_ex_iff export_memories_def)
    then have "l \<in> set (kb_links s) \<Longrightarrow> memory_in s p (ml_memory_id l) \<Longrightarrow> l \<in> set (export_links s p) \<and> memory_in t p (ml_memory_id l)" for l
      by (simp add: export_links_def)
    moreover have "d \<in> set (kb_documents s) \<Longrightarrow> dc_source_id d = so_id x \<Longrightarrow> run_document s p (dc_id d) \<Longrightarrow> d \<in> set (export_documents s p)" for d
      using access by (auto simp: export_documents_def source_visible_def list_ex_iff)
    ultimately have "list_ex (\<lambda>l. ml_source_id l = so_id x \<and> memory_in t p (ml_memory_id l)) (export_links s p) \<or>
        list_ex (\<lambda>d. dc_source_id d = so_id x \<and> run_document t p (dc_id d)) (export_documents s p)"
      using x unfolding export_sources_def list_ex_iff facts(2) by auto
    then show "(list_ex (\<lambda>l. ml_source_id l = so_id x \<and> memory_in t p (ml_memory_id l)) (export_links s p) \<or>
        list_ex (\<lambda>d. dc_source_id d = so_id x \<and> run_document t p (dc_id d)) (export_documents s p)) \<and>
        source_access t (ExactScope (Some p)) (so_id x)"
      by (simp add: source_access_def source_bindings_def tables)
  qed (simp add: export_sources_def sort_key_again)
  moreover have "export_proposals t p = export_proposals s p"
    unfolding export_proposals_def [of t] tables
    by (rule same) (auto simp: export_proposals_def export_runs_def list_ex_iff sort_key_again)
  ultimately show ?thesis by (simp add: selected_rows_def)
qed

lemma empty_is_restored:
  assumes s: "transferable s" and b: "export_project s p = Inr b" and o: "memory_order (bu_memories b) = Some ordered"
  shows "\<exists>k. find_project s p = Some k \<and> kp_id k = p \<and> b = selected_rows s p k \<and> export_failure b = None \<and>
    restored s p k ordered (insert_rows b ordered empty_knowledge)"
proof -
  obtain k where k: "find_project s p = Some k" "kp_id k = p" "b = selected_rows s p k" "export_failure b = None"
    using exported [OF b] by blast
  have d: "distinct (map me_id (bu_memories b))" using exported_memories_ok [OF _ b] s by (simp add: transferable_def)
  have m: "mset ordered = mset (bu_memories b)" using memory_order_sound [OF o d] by simp
  then have "distinct (map me_id ordered)" using d by (metis mset_map mset_eq_imp_distinct_iff)
  moreover have "set ordered = set (export_memories s p)" using mset_eq_setD [OF m] k(3) by (simp add: selected_rows_def)
  ultimately show ?thesis using k s by (auto simp: restored_def)
qed


section \<open>Examples\<close>

definition in_project :: "uuid \<Rightarrow> memory \<Rightarrow> memory" where
  "in_project p m = m\<lparr>me_project_id := Some p\<rparr>"

lemma in_project_simps [simp]:
  "me_id (in_project p m) = me_id m" "me_supersedes_id (in_project p m) = me_supersedes_id m"
  "me_project_id (in_project p m) = Some p" "memory_checks (in_project p m) = memory_checks m"
  "me_status (in_project p m) = me_status m"
  by (simp_all add: in_project_def memory_checks_def)

definition example_project :: "uuid \<Rightarrow> knowledge_project" where
  "example_project i = \<lparr> kp_id = i, kp_name = ''project'', kp_description = None, kp_created_at = 0, kp_updated_at = 0 \<rparr>"

lemma example_project_id [simp]: "kp_id (example_project i) = i"
  by (simp add: example_project_def)

text \<open>Memory 8 supersedes Memory 9, which is restored first, although it comes last in the bundle.\<close>

definition chained_rows :: "memory list" where
  "chained_rows = [in_project 50 (example_row 8 (Some 9)), in_project 50 (example_row 9 None)]"

definition transfer_state :: knowledge_db where
  "transfer_state = (extracted_state ''n'' (Some 9))\<lparr>kb_next_id := 60, kb_projects := [example_project 50],
     kb_memories := chained_rows,
     kb_links := [\<lparr> ml_id = 7, ml_memory_id = 9, ml_source_id = 1, ml_source_location = None, ml_created_at = 5 \<rparr>],
     kb_extractions := [example_finished\<lparr>xr_project_id := Some 50\<rparr>],
     kb_proposals := [example_approved (Some 9)\<lparr>pp_project_id := Some 50\<rparr>]\<rparr>"

lemma chain_links_rows: "chain_links rows = (\<Union>m \<in> set rows. (\<lambda>q. (me_id m, q)) ` set_option (me_supersedes_id m))"
  by (auto simp: chain_links_def)

lemma chained_links: "chain_links chained_rows = {(8, 9)}"
  by (simp add: chain_links_rows chained_rows_def)

lemma acyclic_pair: "a \<noteq> b \<Longrightarrow> acyclic {(a, b)}"
  by (auto intro!: acyclicI_order [where f = "\<lambda>i. if i = a then 1 else 0 :: nat"])

lemma transfer_transferable: "transferable transfer_state"
proof -
  have "acyclic (chain_links chained_rows)" unfolding chained_links by (rule acyclic_pair) simp
  then have "memory_rows_ok transfer_state"
    by (simp add: memory_rows_ok_def transfer_state_def references_exist_def) (simp add: chained_rows_def)
  then show ?thesis
    by (simp add: transferable_def transfer_state_def extracted_state_def empty_knowledge_def map_filter_simps)
      (simp add: example_finished_def example_approved_def example_document_def extracted_document_def document_checks_def
        extraction_checks_def proposal_checks_def lower_hex_64_def unit_score_def MEMORY_TYPES_def ascii_space_def blank_def is_space_def
        list_all_iff)
qed

theorem memory_order_respects_chains_witness: "memory_order chained_rows \<noteq> None"
proof -
  have "distinct (map me_id chained_rows)" "\<And>m q. m \<in> set chained_rows \<Longrightarrow> me_supersedes_id m = Some q \<Longrightarrow> q \<in> me_id ` set chained_rows"
    by (auto simp: chained_rows_def)
  from memory_order_respects_chains [OF this] have "memory_order chained_rows \<noteq> None \<longleftrightarrow> acyclic (chain_links chained_rows)"
    unfolding chain_links_def by (rule conjunct1)
  moreover have "acyclic (chain_links chained_rows)" unfolding chained_links by (rule acyclic_pair) simp
  ultimately show ?thesis by (rule iffD2)
qed


section \<open>A supersession across Projects\<close>

text \<open>C34: \<open>POST /memories\<close> accepts a \<open>supersedes_id\<close> of any Memory that exists, also of another Project. Links and Projects
  never change, so from then on, whatever requests follow, each export of the Project of the new Memory fails.\<close>

theorem cross_project_link_blocks_export:
  assumes "memory_step\<^sup>*\<^sup>* s s'" and "memory_rows_ok s"
    and "find_memory s j = Some m" and "me_project_id m = Some p" and "me_supersedes_id m = Some i"
    and "find_memory s i = Some older" and "me_project_id older \<noteq> Some p"
  shows "\<exists>e. export_project s' p = Inl e"
proof (rule ccontr)
  assume "\<not> ?thesis"
  then obtain b where b: "export_project s' p = Inr b" by (cases "export_project s' p") auto
  have ok: "memory_rows_ok s'" and evolve: "memories_evolve s s'"
    using memory_histories.history [OF assms(1,2)] by simp_all
  obtain m' where m': "find_memory s' j = Some m'" "me_project_id m' = Some p" "me_supersedes_id m' = Some i"
    using evolve assms(3-5) unfolding memories_evolve_def memory_evolves_def by (metis option.distinct(1))
  obtain older' where o: "find_memory s' i = Some older'" "me_project_id older' \<noteq> Some p"
    using evolve assms(6,7) unfolding memories_evolve_def memory_evolves_def by metis
  obtain k where "b = selected_rows s' p k" using exported [OF b] by blast
  then have rows: "set (bu_memories b) = {x \<in> set (kb_memories s'). me_project_id x = Some p}"
    by (simp add: selected_rows_def export_memories_def)
  have "m' \<in> set (bu_memories b)" using m' unfolding rows by (auto simp: find_memory_def dest: row_get_in)
  then have "i \<in> me_id ` set (bu_memories b)" using exported_memories_ok [OF ok b] m'(3) by blast
  then obtain x where x: "x \<in> set (kb_memories s')" "me_id x = i" "me_project_id x = Some p" unfolding rows by auto
  have "older' \<in> set (kb_memories s')" "me_id older' = i" using o(1) by (auto simp: find_memory_def dest: row_get_in row_get_key)
  then have "x = older'" using x(1,2) ok by (auto simp: memory_rows_ok_def distinct_map inj_on_def)
  then show False using x(3) o(2) by simp
qed

text \<open>The request that makes such a link, and a later one.\<close>

definition crossing_state :: knowledge_db where
  "crossing_state =
    (let request = (\<lambda>c s. snd (create_memory c 5 s)) in
     request (example_input\<lparr>mc_project_id := Some 51, mc_supersedes_id := Some 60\<rparr>) (request (example_input\<lparr>mc_project_id := Some 50\<rparr>)
       (empty_knowledge\<lparr>kb_next_id := 60, kb_projects := [example_project 50, example_project 51]\<rparr>)))"

lemma crossing_state_eq:
  "crossing_state = empty_knowledge\<lparr>kb_next_id := 62, kb_projects := [example_project 50, example_project 51],
     kb_memories := [in_project 50 (example_row 60 None), in_project 51 (example_row 61 (Some 60))]\<rparr>"
  by code_simp

lemma crossing_rows_ok: "memory_rows_ok crossing_state"
proof -
  have "chain_links (kb_memories crossing_state) = {(61, 60)}" by (simp add: chain_links_rows crossing_state_eq)
  moreover have "acyclic {(61, 60) :: uuid \<times> uuid}" by (rule acyclic_pair) simp
  ultimately have "acyclic (chain_links (kb_memories crossing_state))" by metis
  then show ?thesis by (simp add: memory_rows_ok_def references_exist_def) (simp add: crossing_state_eq)
qed

theorem cross_project_link_blocks_export_witness:
  "\<exists>e. export_project (snd (supersede_memory 60 61 6 crossing_state)) 51 = Inl e"
proof -
  have "find_memory crossing_state 61 = Some (in_project 51 (example_row 61 (Some 60)))"
    "find_memory crossing_state 60 = Some (in_project 50 (example_row 60 None))"
    by (simp_all add: crossing_state_eq find_memory_def row_get_Cons)
  moreover have "memory_step\<^sup>*\<^sup>* crossing_state (snd (supersede_memory 60 61 6 crossing_state))"
    by (rule r_into_rtranclp) (rule memory_step.supersedes)
  ultimately show ?thesis
    using cross_project_link_blocks_export [OF _ crossing_rows_ok, of _ 61 _ 51 60] by simp
qed

end
