(* ===== verification/Spec2Isabelle.thy ===== *)
theory Spec2Isabelle
  imports Run_Properties Run_Execution_Properties Run_Recovery Run_Approvals Run_Brief_Properties Automation_Gaps
    Connector_Gaps Connector_Example Extraction_Properties Capture_Properties Quality_Properties Transfer_Properties
begin

text \<open>
  A verification development for the backend of Second Brain (\<open>src/app\<close>): the Agent runtime, the Automations that start
  Agents by themselves, the GitHub connectors, and the knowledge base of Memories, Sources, proposals and Captures.

  \<^bold>\<open>The program.\<close> Each part is a service over rows of one PostgreSQL database, called by FastAPI routes or by a
  scheduler tick. A human creates an Agent Run; planning freezes a plan of Tool calls (\<open>agent_planning\<close>); the execute route
  reserves, calls and records one Tool call after another within the budgets of the Agent (\<open>agent_runs/executor.py\<close>,
  \<open>agent_tools\<close>); a synthesis validates and stores a cited result (\<open>research\<close>, \<open>curator\<close>, \<open>daily_brief\<close>,
  \<open>project_watch\<close>); proposed changes wait for a review (\<open>agent_runs/approvals.py\<close>); recovery expires and reclaims Runs
  whose worker died. An Automation has a schedule; a tick materializes its occurrences, claims them with a lease, creates and
  links a Run for each and projects the state of the Run back (\<open>automations\<close>). A connector account is refreshed by hand or
  on its own schedule through the same fenced sync runs (\<open>connectors\<close>). Captures become Sources, Sources are cut into
  chunks, an extraction proposes Memories from chunks, a review approves them, a promotion makes them Memories, and a Memory
  can supersede another (\<open>captures\<close>, \<open>ingestion\<close>, \<open>extraction\<close>, \<open>memory_quality\<close>). Memories are searched and checked
  for duplicates and contradictions; a Project can be exported to a bundle and restored from it (\<open>project_export\<close>,
  \<open>project_import\<close>).

  \<^bold>\<open>How code is modelled.\<close> A table is a list of records in a database record of its part (\<open>agent_db\<close>,
  \<open>automation_db\<close>, \<open>connector_db\<close>, \<open>knowledge_db\<close>); CHECK and unique constraints are predicates that a write must
  pass, else it is the error of the database. A service call is a function from its arguments and the state to an error or a
  value and the new state; a caller that rolls back keeps the old state. Clocks, identifiers, SHA-256, the text of floats and
  times, the time-zone database, the full-text search, pydantic validation, \<open>json.loads\<close>, the network and the language models
  are arguments. What other sessions commit between two transactions is an argument too (a function on states that keeps the
  invariant). An ORM read is fresh, except in \<open>Connector_Refresh\<close>, where the session keeps the account it has loaded.
  Instants count microseconds; scores are rationals; a UUID is a number; characters are those below 256.

  \<^bold>\<open>Theories and what their lemmas show.\<close>

  \<^item> \<open>Prelude\<close>: exceptions, the shape of service calls, rows and their updates, the interfaces \<open>table\<close> and \<open>lifecycle\<close>,
    Python's \<open>int\<close> and \<open>str\<close>. \<open>Json_Canonical\<close>: the canonical text of JSON values.
  \<^item> \<open>Tool_Registry\<close>, \<open>Tool_Policy\<close> (\<open>agent_tools/registry.py\<close>, \<open>policy.py\<close>, \<open>dispatch.py\<close>): the registry and
    the fail-closed resolution of a call.
  \<^item> \<open>Run_Model\<close>, \<open>Run_Service\<close>, \<open>Run_Planning\<close>, \<open>Run_Executor\<close>, \<open>Run_Recovery\<close>, \<open>Run_Approvals\<close>,
    \<open>Run_Orchestration\<close> (\<open>models/agent_runtime.py\<close>, \<open>repositories/agent_runtime.py\<close>, \<open>agent_runs\<close>,
    \<open>agent_planning\<close>, \<open>api/routes/agent_runs.py\<close>): the operations. \<open>Run_Invariants\<close> states what every one of them keeps
    through the interface \<open>session_invariant\<close>; \<open>Run_Properties\<close>, \<open>Run_Execution_Properties\<close> and \<open>Run_Loop\<close> show
    fencing, capacity, complete cancellation, budgets, order of calls, results recorded once, and that an execute request
    returns.
  \<^item> \<open>Run_Results\<close>, \<open>Run_Briefs\<close>, \<open>Run_Brief_Properties\<close> (\<open>research/service.py\<close>, \<open>curator/service.py\<close>,
    \<open>daily_brief\<close>, \<open>project_watch\<close>): evidence, citations, stored results and their currency.
  \<^item> \<open>Schedule_Calc\<close> (\<open>automations/schedule.py\<close>): slots, their order and existence.
  \<^item> \<open>Automation_Model\<close>, \<open>Automation_Service\<close>, \<open>Automation_Scheduler\<close>, \<open>Automation_Coordinator\<close>,
    \<open>Automation_Tick\<close> (\<open>models/automation.py\<close>, \<open>repositories/automations.py\<close>, \<open>automations\<close>): the operations;
    \<open>Automation_Invariants\<close>, \<open>Automation_Outcomes\<close>, \<open>Automation_Recovery\<close>, \<open>Automation_Properties\<close>: the lifecycle
    of occurrences, one occurrence per slot, fencing by leases, what one operation achieves; \<open>Automation_Gaps\<close>: where
    occurrences are stranded and where a stale worker wins.
  \<^item> \<open>Connector_Model\<close>, \<open>Connector_Service\<close>, \<open>Connector_Sync\<close>, \<open>Connector_Refresh\<close>, \<open>Connector_Scheduler\<close>
    (\<open>models/connector.py\<close>, \<open>models/connector_schedule.py\<close>, \<open>repositories\<close>, \<open>connectors\<close>): the operations;
    \<open>Connector_Invariants\<close> and \<open>Connector_Guarantee\<close> (interface \<open>connector_guarantee\<close>): what every history keeps;
    \<open>Connector_Properties\<close>, \<open>Connector_Outcomes\<close>, \<open>Connector_Example\<close>, \<open>Connector_Gaps\<close>: what follows, and what is
    left open for good.
  \<^item> \<open>Knowledge_Model\<close> (\<open>models\<close>, \<open>sources/scope.py\<close>): rows, constraints, who sees a Source, the interface \<open>stepwise\<close> of
    components whose requests come one after another. \<open>Memory_Service\<close> (\<open>memory_quality\<close>, \<open>repositories/memories.py\<close>,
    \<open>api/routes/memories.py\<close>), \<open>Source_Text\<close> (\<open>ingestion/text.py\<close>, \<open>repositories/sources.py\<close>),
    \<open>Memory_Extraction\<close> (\<open>extraction\<close>, \<open>repositories/memory_proposals.py\<close>, \<open>memory_proposal_promotions.py\<close>): the
    operations. \<open>Memory_Chains\<close>, \<open>Memory_Properties\<close>, \<open>Extraction_Properties\<close>: acyclic chains over every history, exact
    evidence, decisions that stand, and four defects. \<open>Capture_Inbox\<close>, \<open>Capture_History\<close>, \<open>Capture_Properties\<close>
    (\<open>captures/service.py\<close>, \<open>repositories/capture_items.py\<close>, \<open>api/routes/captures.py\<close>): the inbox, its revision fence, its
    idempotent creation and conversion, its pages.
  \<^item> \<open>Memory_Search\<close>, \<open>Memory_Quality\<close> (\<open>repositories/memories.py\<close>, \<open>memory_quality\<close>): the lexical, semantic, hybrid and
    explained searches; duplicates, similar Memories and contradictions. \<open>Search_Properties\<close>: an explained search agrees
    with the real one, its explanations pass the response model, a hybrid page is exact while its window covers the
    candidates. \<open>Quality_Properties\<close>: program and database normalize alike, a duplicate is never called similar, opposition
    is symmetric.
  \<^item> \<open>Project_Transfer\<close> (\<open>repositories/project_exports.py\<close>, \<open>project_export/service.py\<close>, \<open>project_import/service.py\<close>): export
    and import of a Project as rows. \<open>Transfer_Properties\<close>: the order in which Memories are restored, the round trip, and a
    supersession across Projects that no export survives.

  \<^bold>\<open>Loops, bounds and fuel.\<close> Searches of the schedule have the bounds of the code (367 steps of a daily, 370 days of a weekly schedule), and a lemma
  shows that they are reached by no valid schedule; the walk to the latest slot of a connector schedule ends by a measure, that of an
  Automation has the 1,000,000 rounds of the code. The execution loop has fuel, and as many rounds as calls are left in the budget,
  and one more, are enough. Chunking, the recursive query of predecessors, the rounds of an import and the canonical JSON text terminate by measures.
  Readers of pages have one round per row.

  \<^bold>\<open>Not modelled.\<close> Response schemas and field validators of pydantic (their validated input is the argument); SQL planning,
  indexes and lock waits (a locked row is read and written in one step); language-model, embedding and Google providers
  and their prompts; credential stores of operating systems; file parsing, the ZIP container and JSON lines of archives, and signed cursor tokens; settings, engine, logging
  and health checks; command lines; test-only fault hooks; migrations, the TypeScript frontend, operator scripts and tests. Of the
  backend's own logic the calendar, the Google OAuth flow, the context hub, the import of quarantined connector items, the answers
  and the retrieval evaluation are left out: they are mostly remote calls and read views.
\<close>

end
